(* ===== verification/Rounding.thy ===== *)
theory Rounding
  imports Complex_Main
begin

text \<open>
  Python's numbers. A \<open>decimal.Decimal\<close> operation computes the exact result and rounds it to
  the 28 significant decimal digits of the default context (ROUND_HALF_EVEN); a \<open>float\<close>
  operation rounds the exact result to 53 significant bits (round to nearest, ties to even).
  Both are the one function \<open>rnd b p\<close> of this theory: radix \<open>b\<close>, precision \<open>p\<close>. A number is
  modelled by its value, a rational. The constructors \<open>Decimal(...)\<close> are exact, and so are
  comparisons. Not modelled: the exponent limits (overflow at \<open>10 ^ 1000000\<close>, subnormal numbers),
  the sign of zero and the displayed exponent of a \<open>Decimal\<close>; the values NaN and infinity
  are modelled where the code tests for them.

  The locale \<open>rounding\<close> is the interface the rest of the development relies on: a
  monotone, odd, idempotent function on the rationals that maps only zero to zero. The
  locale \<open>radix\<close> proves it for \<open>rnd b p\<close> and adds the relative error bound and
  the exactness on representable numbers.
\<close>

section \<open>Rounding to a number of significant digits\<close>

function ndig :: "int \<Rightarrow> int \<Rightarrow> nat" where
  "ndig b n = (if n < 1 \<or> b < 2 then 0 else Suc (ndig b (n div b)))"
  by pat_completeness auto
termination
  by (relation "measure (\<lambda>(b, n). nat n)") (auto intro!: int_div_less_self)

declare ndig.simps [simp del]

definition sexp :: "int \<Rightarrow> rat \<Rightarrow> int" where
  "sexp b x =
     (let (n, d) = quotient_of x; k = int (ndig b \<bar>n\<bar>) - int (ndig b d)
      in if (of_int b :: rat) powi k \<le> \<bar>x\<bar> then k else k - 1)"

definition rhe :: "rat \<Rightarrow> int" where
  "rhe x =
     (let f = \<lfloor>x\<rfloor>; r = x - of_int f
      in if r < 1/2 then f else if 1/2 < r then f + 1 else if even f then f else f + 1)"

definition rnd :: "int \<Rightarrow> nat \<Rightarrow> rat \<Rightarrow> rat" where
  "rnd b p x =
     (if x = 0 then 0
      else (let u = (of_int b :: rat) powi (sexp b x - int p + 1)
            in of_int (rhe (x / u)) * u))"

definition representable :: "int \<Rightarrow> nat \<Rightarrow> rat \<Rightarrow> bool" where
  "representable b p x \<longleftrightarrow>
     (\<exists>m e. \<bar>m\<bar> \<le> b ^ p \<and> x = of_int m * (of_int b) powi e)"

subsection \<open>Rounding to an integer\<close>

lemma rhe_of_int [simp]: "rhe (of_int n) = n"
  by (simp add: rhe_def)

lemma rhe_0 [simp]: "rhe 0 = 0"
  by (simp add: rhe_def)

lemma rhe_error: "\<bar>of_int (rhe x) - x\<bar> \<le> 1/2"
proof -
  have "of_int \<lfloor>x\<rfloor> \<le> x" "x < of_int \<lfloor>x\<rfloor> + 1" by linarith+
  then show ?thesis by (auto simp: rhe_def Let_def)
qed

lemma rhe_mono: assumes "x \<le> y" shows "rhe x \<le> rhe y"
proof (cases "\<lfloor>x\<rfloor> = \<lfloor>y\<rfloor>")
  case True
  with assms show ?thesis by (auto simp: rhe_def Let_def)
next
  case False
  with assms have "\<lfloor>x\<rfloor> + 1 \<le> \<lfloor>y\<rfloor>" by (meson floor_mono less_le zless_imp_add1_zle)
  then show ?thesis by (auto simp: rhe_def Let_def)
qed

lemma rhe_minus: "rhe (- x) = - rhe x"
proof (cases "x = of_int \<lfloor>x\<rfloor>")
  case True
  then obtain n where "x = of_int n" by blast
  then show ?thesis by (simp flip: of_int_minus)
next
  case False
  have le: "of_int \<lfloor>x\<rfloor> \<le> x" "x < of_int \<lfloor>x\<rfloor> + 1" by linarith+
  with False have lt: "of_int \<lfloor>x\<rfloor> < x" by linarith
  have fl: "\<lfloor>- x\<rfloor> = - \<lfloor>x\<rfloor> - 1"
    using lt le by (intro floor_unique) auto
  show ?thesis
    by (auto simp: rhe_def Let_def fl algebra_simps)
qed

subsection \<open>The exponent of a number\<close>

lemma ndig_bounds:
  assumes "2 \<le> b" "1 \<le> n"
  shows "n < b ^ ndig b n" and "b ^ ndig b n \<le> n * b" and "0 < ndig b n"
proof -
  have "n < b ^ ndig b n \<and> b ^ ndig b n \<le> n * b \<and> 0 < ndig b n"
    using assms
  proof (induction b n rule: ndig.induct)
    case (1 b n)
    show ?case
    proof (cases "n div b < 1")
      case True
      with 1 have "n < b"
        by (metis not_less pos_imp_zdiv_pos_iff zero_less_numeral order.strict_trans2
            int_one_le_iff_zero_less)
      moreover have "ndig b n = Suc 0"
        using 1 True by (subst ndig.simps, subst ndig.simps) auto
      ultimately show ?thesis using 1 by simp
    next
      case False
      with 1 have ih: "n div b < b ^ ndig b (n div b)" "b ^ ndig b (n div b) \<le> n div b * b"
        by auto
      have "n < (n div b + 1) * b" 
      proof -
        have "n mod b < b" "n = b * (n div b) + n mod b" using 1 by simp_all
        then have "n < b * (n div b) + b" by linarith
        then show ?thesis by (simp add: algebra_simps)
      qed
      also have "\<dots> \<le> b ^ ndig b (n div b) * b"
        using 1 ih by (intro mult_right_mono) auto
      finally have up: "n < b ^ Suc (ndig b (n div b))" by (simp add: mult.commute)
      have "b ^ Suc (ndig b (n div b)) \<le> n div b * b * b"
        using 1 ih by (simp add: mult.commute)
      also have "\<dots> \<le> n * b"
        using 1 by (intro mult_right_mono) (simp_all add: minus_mod_eq_div_mult [symmetric])
      finally show ?thesis using up 1 False by (subst (1 2 3) ndig.simps) auto
    qed
  qed
  then show "n < b ^ ndig b n" "b ^ ndig b n \<le> n * b" "0 < ndig b n" by auto
qed


lemma powi_pos: "2 \<le> (b::int) \<Longrightarrow> 0 < (of_int b :: rat) powi k"
  by (intro zero_less_power_int) simp

lemma powi_mono: "2 \<le> (b::int) \<Longrightarrow> k \<le> l \<Longrightarrow> (of_int b :: rat) powi k \<le> of_int b powi l"
  by (intro power_int_increasing) auto

lemma powi_less_iff: "2 \<le> (b::int) \<Longrightarrow> (of_int b :: rat) powi k < of_int b powi l \<longleftrightarrow> k < l"
  by (metis less_le_not_le linorder_linear linorder_not_less of_int_1_less_iff one_less_numeral_iff
      order.strict_trans2 powi_mono power_int_strict_increasing semiring_norm(76)
      int_one_le_iff_zero_less zless_imp_add1_zle zero_less_one one_add_one)

lemma powi_add: "2 \<le> (b::int) \<Longrightarrow> (of_int b :: rat) powi (k + l) = of_int b powi k * of_int b powi l"
  by (intro power_int_add) auto

lemma powi_Suc: "2 \<le> (b::int) \<Longrightarrow> (of_int b :: rat) powi (k + 1) = of_int b powi k * of_int b"
  by (simp add: powi_add)

lemma sexp_bounds:
  assumes b: "2 \<le> b" and x: "x \<noteq> 0"
  shows "of_int b powi sexp b x \<le> \<bar>x\<bar>" and "\<bar>x\<bar> < of_int b powi (sexp b x + 1)"
proof -
  obtain n d where q: "quotient_of x = (n, d)" by fastforce
  then have d: "0 < d" and xe: "x = of_int n / of_int d"
    using quotient_of_denom_pos quotient_of_div by auto
  with x have n: "1 \<le> \<bar>n\<bar>" by auto
  define k where "k = int (ndig b \<bar>n\<bar>) - int (ndig b d)"
  have nb: "\<bar>n\<bar> < b ^ ndig b \<bar>n\<bar>" "b ^ ndig b \<bar>n\<bar> \<le> \<bar>n\<bar> * b"
    and db: "d < b ^ ndig b d" "b ^ ndig b d \<le> d * b"
    using ndig_bounds [of b "\<bar>n\<bar>"] ndig_bounds [of b d] b n d by auto
  have ax: "\<bar>x\<bar> = of_int \<bar>n\<bar> / of_int d" using d by (simp add: xe)
  have kp: "(of_int b :: rat) powi k = of_int (b ^ ndig b \<bar>n\<bar>) / of_int (b ^ ndig b d)"
    using b by (simp add: k_def power_int_diff power_int_of_nat)
  have pos: "0 < b ^ ndig b d" "0 < b ^ ndig b \<bar>n\<bar>" using b by auto
  have up: "\<bar>x\<bar> < of_int b powi (k + 1)"
  proof -
    have "\<bar>n\<bar> * b ^ ndig b d < b ^ ndig b \<bar>n\<bar> * (d * b)"
      using nb(1) db(2) pos n d by (intro mult_less_le_imp_less) auto
    then have "of_int \<bar>n\<bar> * of_int (b ^ ndig b d) < (of_int (b ^ ndig b \<bar>n\<bar>) * (of_int d * of_int b) :: rat)"
      by (metis of_int_less_iff of_int_mult)
    then have "\<bar>x\<bar> < of_int (b ^ ndig b \<bar>n\<bar>) / of_int (b ^ ndig b d) * of_int b"
      using d pos by (simp add: ax field_simps del: of_int_power)
    then show ?thesis by (simp only: powi_Suc [OF b] kp)
  qed
  have lo: "of_int b powi (k - 1) \<le> \<bar>x\<bar>"
  proof -
    have "b ^ ndig b \<bar>n\<bar> * d \<le> \<bar>n\<bar> * b * b ^ ndig b d"
      using nb(2) db(1) pos n d b by (intro mult_mono) auto
    then have "of_int (b ^ ndig b \<bar>n\<bar>) * of_int d \<le> (of_int \<bar>n\<bar> * of_int b * of_int (b ^ ndig b d) :: rat)"
      by (metis of_int_le_iff of_int_mult)
    then have "of_int (b ^ ndig b \<bar>n\<bar>) / of_int (b ^ ndig b d) / of_int b \<le> \<bar>x\<bar>"
      using d pos b by (simp add: ax field_simps del: of_int_power)
    moreover have "of_int b powi (k - 1) = (of_int b powi k / of_int b :: rat)"
      using b by (simp add: power_int_diff)
    ultimately show ?thesis by (simp only: kp)
  qed
  have s: "sexp b x = (if of_int b powi k \<le> \<bar>x\<bar> then k else k - 1)"
    by (simp add: sexp_def q k_def)
  show "of_int b powi sexp b x \<le> \<bar>x\<bar>" "\<bar>x\<bar> < of_int b powi (sexp b x + 1)"
    using lo up by (auto simp: s)
qed

lemma sexp_unique:
  assumes b: "2 \<le> b" and "of_int b powi k \<le> \<bar>x\<bar>" "\<bar>x\<bar> < of_int b powi (k + 1)"
  shows "sexp b x = k"
proof -
  have "x \<noteq> 0" using assms(2) powi_pos [OF b, of k] by (metis abs_zero linorder_not_less)
  note s = sexp_bounds [OF b this]
  have "sexp b x < k + 1" using s(1) assms(3) powi_less_iff [OF b] by (meson order.strict_trans1)
  moreover have "k < sexp b x + 1" using s(2) assms(2) powi_less_iff [OF b] by (meson order.strict_trans1)
  ultimately show ?thesis by simp
qed

lemma sexp_minus [simp]: "2 \<le> b \<Longrightarrow> sexp b (- x) = sexp b x"
  by (cases "x = 0") (auto intro!: sexp_unique dest: sexp_bounds [of b x])

lemma sexp_mono:
  assumes b: "2 \<le> b" and "0 < x" "x \<le> y" shows "sexp b x \<le> sexp b y"
proof -
  have "of_int b powi sexp b x < (of_int b powi (sexp b y + 1) :: rat)"
    using sexp_bounds [OF b, of x] sexp_bounds [OF b, of y] assms by auto
  then show ?thesis using powi_less_iff [OF b] by simp
qed


subsection \<open>The rounding interface\<close>

locale rounding =
  fixes R :: "rat \<Rightarrow> rat"
  assumes R_mono: "x \<le> y \<Longrightarrow> R x \<le> R y"
    and R_minus: "R (- x) = - R x"
    and R_idem: "R (R x) = R x"
    and R_eq_0: "R x = 0 \<longleftrightarrow> x = 0"
begin

lemma R_0 [simp]: "R 0 = 0"
  by (simp add: R_eq_0)

lemma R_nonneg: "0 \<le> x \<Longrightarrow> 0 \<le> R x"
  using R_mono [of 0 x] by simp

lemma R_nonpos: "x \<le> 0 \<Longrightarrow> R x \<le> 0"
  using R_mono [of x 0] by simp

lemma R_pos_iff [simp]: "0 < R x \<longleftrightarrow> 0 < x"
  using R_nonneg [of x] R_nonpos [of x] R_eq_0 [of x] by linarith

lemma R_nonneg_iff [simp]: "0 \<le> R x \<longleftrightarrow> 0 \<le> x"
  using R_nonneg [of x] R_pos_iff [of "- x"] by (auto simp: R_minus not_less [symmetric])

lemma R_neg_iff [simp]: "R x < 0 \<longleftrightarrow> x < 0"
  by (simp flip: not_le)

lemma R_nonpos_iff [simp]: "R x \<le> 0 \<longleftrightarrow> x \<le> 0"
  by (simp flip: not_less)

lemma R_abs: "R \<bar>x\<bar> = \<bar>R x\<bar>"
  by (cases "0 \<le> x") (auto simp: R_minus abs_if R_nonneg not_le)

text \<open>A bound that is itself a result of rounding survives rounding.\<close>

lemma R_le_fix: "R y = y \<Longrightarrow> x \<le> y \<Longrightarrow> R x \<le> y"
  using R_mono [of x y] by simp

lemma R_ge_fix: "R y = y \<Longrightarrow> y \<le> x \<Longrightarrow> y \<le> R x"
  using R_mono [of y x] by simp

lemma R_diff_nonneg: "y \<le> x \<Longrightarrow> 0 \<le> R (x - y)"
  by simp

lemma R_le_fix_iff: "R y = y \<Longrightarrow> y < R x \<Longrightarrow> y < x"
  by (meson R_le_fix linorder_not_less)

end

subsection \<open>Radix and precision\<close>

locale radix =
  fixes b :: int and p :: nat
  assumes b2: "2 \<le> b" and p1: "1 \<le> p"
begin

definition ulp :: "rat \<Rightarrow> rat" where
  "ulp x = of_int b powi (sexp b x - int p + 1)"

lemma ulp_pos: "0 < ulp x"
  by (simp add: ulp_def powi_pos [OF b2])

lemma rnd_ulp: "x \<noteq> 0 \<Longrightarrow> rnd b p x = of_int (rhe (x / ulp x)) * ulp x"
  by (simp add: rnd_def ulp_def Let_def)

lemma rnd_zero [simp]: "rnd b p 0 = 0"
  by (simp add: rnd_def)

lemma rnd_minus: "rnd b p (- x) = - rnd b p x"
  by (cases "x = 0") (simp_all add: rnd_def b2 Let_def rhe_minus flip: minus_divide_left)

lemma ulp_scale: "of_int b powi sexp b x = of_int (b ^ (p - 1)) * ulp x"
proof -
  have "sexp b x = int (p - 1) + (sexp b x - int p + 1)" using p1 by simp
  then show ?thesis
    by (metis ulp_def powi_add [OF b2] power_int_of_nat of_int_power)
qed

lemma ulp_scale': "of_int b powi (sexp b x + 1) = of_int (b ^ p) * ulp x"
proof -
  have "of_int b powi (sexp b x + 1) = of_int b * (of_int (b ^ (p - 1)) * ulp x)"
    by (simp only: powi_Suc [OF b2] ulp_scale mult.commute)
  also have "\<dots> = of_int (b * b ^ (p - 1)) * ulp x" by (simp add: mult.assoc)
  also have "b * b ^ (p - 1) = b ^ p" using p1 by (metis Suc_diff_1 One_nat_def Suc_le_eq power_Suc)
  finally show ?thesis .
qed

text \<open>The result stays within the decade (binade) of its argument.\<close>

lemma rnd_decade:
  assumes "0 < x"
  shows "of_int b powi sexp b x \<le> rnd b p x" and "rnd b p x \<le> of_int b powi (sexp b x + 1)"
proof -
  note s = sexp_bounds [OF b2, of x] and u = ulp_pos [of x]
  from s(1) assms have "of_int (b ^ (p - 1)) \<le> x / ulp x"
    using u by (simp add: ulp_scale field_simps del: of_int_power)
  from rhe_mono [OF this] have "b ^ (p - 1) \<le> rhe (x / ulp x)" by (simp only: rhe_of_int)
  then have "of_int (b ^ (p - 1)) * ulp x \<le> of_int (rhe (x / ulp x)) * ulp x"
    using u by (intro mult_right_mono) (simp_all del: of_int_power)
  then show "of_int b powi sexp b x \<le> rnd b p x"
    using assms by (simp add: ulp_scale rnd_ulp del: of_int_power)
  from s(2) assms have "x \<le> of_int (b ^ p) * ulp x" by (simp only: ulp_scale') simp
  then have "x / ulp x \<le> of_int (b ^ p)"
    using u by (simp add: field_simps del: of_int_power)
  from rhe_mono [OF this] have "rhe (x / ulp x) \<le> b ^ p" by (simp only: rhe_of_int)
  then have "of_int (rhe (x / ulp x)) * ulp x \<le> of_int (b ^ p) * ulp x"
    using u by (intro mult_right_mono) (simp_all del: of_int_power)
  then show "rnd b p x \<le> of_int b powi (sexp b x + 1)"
    using assms by (simp add: ulp_scale' rnd_ulp del: of_int_power)
qed

lemma rnd_positive: "0 < x \<Longrightarrow> 0 < rnd b p x"
  using rnd_decade(1) [of x] powi_pos [OF b2] by (meson order.strict_trans2)

lemma rnd_mono_pos:
  assumes "0 < x" "x \<le> y" shows "rnd b p x \<le> rnd b p y"
proof (cases "sexp b x = sexp b y")
  case True
  then have u: "ulp x = ulp y" by (simp add: ulp_def)
  have "x / ulp y \<le> y / ulp y" using assms ulp_pos [of y] by (simp add: divide_right_mono)
  then have "of_int (rhe (x / ulp y)) * ulp y \<le> of_int (rhe (y / ulp y)) * ulp y"
    using ulp_pos [of y] rhe_mono by (intro mult_right_mono) auto
  then show ?thesis using assms by (simp add: rnd_ulp u)
next
  case False
  then have "sexp b x + 1 \<le> sexp b y" using sexp_mono [OF b2 assms] by simp
  then have "of_int b powi (sexp b x + 1) \<le> (of_int b powi sexp b y :: rat)"
    by (rule powi_mono [OF b2])
  then show ?thesis
    using rnd_decade [of x] rnd_decade [of y] assms by linarith
qed

lemma rnd_mono: assumes "x \<le> y" shows "rnd b p x \<le> rnd b p y"
proof -
  consider "0 < x" | "y < 0" | "x \<le> 0" "0 \<le> y" by linarith
  then show ?thesis
  proof cases
    case 1 with assms show ?thesis by (simp add: rnd_mono_pos)
  next
    case 2 with assms rnd_mono_pos [of "- y" "- x"] show ?thesis by (simp add: rnd_minus)
  next
    case 3
    then have "0 \<le> rnd b p y" "0 \<le> rnd b p (- x)"
      using rnd_positive [of y] rnd_positive [of "- x"]
      by (cases "y = 0"; cases "x = 0"; simp add: less_le)+
    then show ?thesis by (simp add: rnd_minus)
  qed
qed

lemma rnd_eq_0: "rnd b p x = 0 \<longleftrightarrow> x = 0"
  using rnd_positive [of x] rnd_positive [of "- x"] by (force simp: rnd_minus)

lemma rnd_error: "\<bar>rnd b p x - x\<bar> \<le> \<bar>x\<bar> / of_int (2 * b ^ (p - 1))"
proof (cases "x = 0")
  case False
  note u = ulp_pos [of x]
  have "\<bar>rnd b p x - x\<bar> = \<bar>of_int (rhe (x / ulp x)) - x / ulp x\<bar> * ulp x"
    using u by (simp add: rnd_ulp [OF False] abs_mult flip: abs_mult_pos') (simp add: field_simps)
  also have "\<dots> \<le> 1/2 * ulp x"
    using rhe_error u by (intro mult_right_mono) auto
  also have "\<dots> \<le> \<bar>x\<bar> / of_int (2 * b ^ (p - 1))"
    using sexp_bounds(1) [OF b2 False] b2 by (simp add: ulp_scale field_simps)
  finally show ?thesis .
qed simp

lemma rnd_fix:
  assumes "x / ulp x = of_int n" shows "rnd b p x = x"
proof (cases "x = 0")
  case False
  have "rnd b p x = x / ulp x * ulp x" by (simp only: rnd_ulp [OF False] assms rhe_of_int)
  then show ?thesis using ulp_pos [of x] by simp
qed simp

lemma powi_int: "0 \<le> k \<Longrightarrow> (of_int b :: rat) powi k = of_int (b ^ nat k)"
  by (simp add: power_int_def)

lemma rnd_representable:
  assumes "representable b p x" shows "rnd b p x = x"
proof (cases "x = 0")
  case False
  obtain m e where m: "\<bar>m\<bar> \<le> b ^ p" and x: "x = of_int m * of_int b powi e"
    using assms by (auto simp: representable_def)
  have q: "x / ulp x = of_int m * of_int b powi (e - (sexp b x - int p + 1))"
    using b2 by (simp add: x ulp_def power_int_diff)
  have ab: "\<bar>x\<bar> = of_int \<bar>m\<bar> * of_int b powi e"
    using powi_pos [OF b2, of e] by (simp add: x abs_mult)
  also have "\<dots> \<le> of_int (b ^ p) * of_int b powi e"
    using m powi_pos [OF b2, of e] by (intro mult_right_mono) (simp_all only: of_int_le_iff less_imp_le)
  also have "\<dots> = of_int b powi (int p + e)"
    by (simp add: powi_add [OF b2] power_int_of_nat)
  finally have le: "\<bar>x\<bar> \<le> of_int b powi (int p + e)" .
  then have "of_int b powi sexp b x < (of_int b powi (int p + e + 1) :: rat)"
    using sexp_bounds(1) [OF b2 False] powi_less_iff [OF b2, of "int p + e" "int p + e + 1"] by linarith
  then have k: "sexp b x \<le> int p + e" using powi_less_iff [OF b2] by simp
  show ?thesis
  proof (cases "sexp b x = int p + e")
    case False
    with k have "0 \<le> e - (sexp b x - int p + 1)" by simp
    from powi_int [OF this] show ?thesis
      using q rnd_fix [of x "m * b ^ nat (e - (sexp b x - int p + 1))"] by (simp only: of_int_mult)
  next
    case True
    then have "\<bar>x\<bar> = of_int b powi (int p + e)" using le sexp_bounds(1) [OF b2 False] by simp
    then have "x = of_int (sgn m) * of_int b powi (int p + e)"
      using x powi_pos [OF b2, of e] by (cases "0 \<le> m") (auto simp: abs_mult sgn_if)
    then have "x / ulp x = of_int (sgn m) * (of_int b powi (int p + e) / of_int b powi (int p + e - int p + 1))"
      using True by (simp add: ulp_def)
    also have "of_int b powi (int p + e) / of_int b powi (int p + e - int p + 1) = (of_int b :: rat) powi (int p - 1)"
      using b2 by (simp flip: power_int_diff)
    also have "\<dots> = of_int (b ^ nat (int p - 1))" using p1 by (intro powi_int) simp
    finally show ?thesis using rnd_fix [of x "sgn m * b ^ nat (int p - 1)"] by (simp only: of_int_mult)
  qed
qed simp

lemma representable_minus: "representable b p x \<Longrightarrow> representable b p (- x)"
  unfolding representable_def by (metis abs_minus_cancel mult_minus_left of_int_minus)

lemma representable_rnd: "representable b p (rnd b p x)"
proof -
  have pos: "representable b p (rnd b p y)" if y: "0 < y" for y
  proof -
    have "rnd b p y \<le> of_int (b ^ p) * ulp y"
      using rnd_decade(2) [OF y] by (simp only: ulp_scale')
    then have "of_int (rhe (y / ulp y)) \<le> (of_int (b ^ p) :: rat)"
      using y ulp_pos [of y] by (simp add: rnd_ulp del: of_int_power)
    moreover have "0 \<le> rhe (y / ulp y)"
      using rhe_mono [of 0 "y / ulp y"] y ulp_pos [of y] by simp
    ultimately have "\<bar>rhe (y / ulp y)\<bar> \<le> b ^ p" by (simp only: of_int_le_iff abs_of_nonneg)
    then show ?thesis unfolding representable_def using y rnd_ulp [of y] ulp_def [of y] by auto
  qed
  show ?thesis
  proof (cases "x = 0")
    case True
    have "representable b p 0" unfolding representable_def using b2 by (intro exI [of _ 0]) simp
    with True show ?thesis by simp
  next
    case False
    then consider "0 < x" | "0 < - x" by linarith
    then show ?thesis
      by cases (use pos [of x] pos [of "- x"] representable_minus in \<open>force simp: rnd_minus\<close>)+
  qed
qed

lemma representable_iff: "representable b p x \<longleftrightarrow> rnd b p x = x"
  using rnd_representable representable_rnd [of x] by auto

sublocale rounding "rnd b p"
  by unfold_locales (auto simp: rnd_mono rnd_minus rnd_eq_0 rnd_representable representable_rnd)

text \<open>Sums and differences on a common grid are exact as long as they fit the precision.\<close>

lemma rnd_grid: "\<bar>m\<bar> \<le> b ^ p \<Longrightarrow> rnd b p (of_int m * of_int b powi e) = of_int m * of_int b powi e"
  by (rule rnd_representable) (auto simp: representable_def)

lemma rnd_of_int: "\<bar>m\<bar> \<le> b ^ p \<Longrightarrow> rnd b p (of_int m) = of_int m"
  using rnd_grid [of m 0] by simp

end

section \<open>Decimal and float\<close>

abbreviation dec :: "rat \<Rightarrow> rat" where "dec \<equiv> rnd 10 28"

abbreviation flt :: "rat \<Rightarrow> rat" where "flt \<equiv> rnd 2 53"

interpretation dec: radix 10 28
  by unfold_locales simp_all

interpretation flt: radix 2 53
  by unfold_locales simp_all

end
