(* ===== verification/Prelude.thy ===== *)
theory Prelude
  imports Rounding "HOL-Library.AList" "HOL-Library.Char_ord" "HOL-Library.List_Lexorder"
begin

text \<open>
  What the components share: exceptions as values, Python's strings (ASCII), dictionaries with
  insertion order (association lists with distinct keys), sums of decimals, the sorted tuple of a
  set of strings, and the lemmas about them that the component proofs rest on.
\<close>

named_theorems unfold_model \<open>definitions of operations, unfolded together in proofs about them\<close>
named_theorems guard_simps \<open>how a chain of guards that collects reasons evaluates\<close>

section \<open>Exceptions as values\<close>

datatype pyerr =
    ValueError string
  | PermissionError string
  | RuntimeError string
  | LookupError string
  | KeyError string
  | TypeError string
  | IndexError
  | ZeroDivisionError
  | InvalidOperation
  | TimeoutError
  | AmbiguousExecution
  | ReplayError string
  | OtherException string

type_synonym 'a res = "pyerr + 'a"

definition is_ok :: "'a res \<Rightarrow> bool" where
  "is_ok r = (case r of Inl _ \<Rightarrow> False | Inr _ \<Rightarrow> True)"

lemma is_ok_simps [simp]: "is_ok (Inr x)" "\<not> is_ok (Inl e)"
  by (simp_all add: is_ok_def)

lemma is_ok_iff: "is_ok r \<longleftrightarrow> (\<exists>x. r = Inr x)"
  by (cases r) auto

definition bind_res :: "'a res \<Rightarrow> ('a \<Rightarrow> 'b res) \<Rightarrow> 'b res" where
  "bind_res r f = (case r of Inl e \<Rightarrow> Inl e | Inr x \<Rightarrow> f x)"

lemma bind_res_simps [simp]:
  "bind_res (Inl e) f = Inl e" "bind_res (Inr x) f = f x"
  by (simp_all add: bind_res_def)

lemma bind_res_Inr: "bind_res r f = Inr y \<longleftrightarrow> (\<exists>x. r = Inr x \<and> f x = Inr y)"
  by (cases r) auto

fun map_res :: "('a \<Rightarrow> 'b res) \<Rightarrow> 'a list \<Rightarrow> 'b list res" where
  "map_res f [] = Inr []"
| "map_res f (x # xs) =
     (case f x of Inl e \<Rightarrow> Inl e | Inr y \<Rightarrow>
       (case map_res f xs of Inl e \<Rightarrow> Inl e | Inr ys \<Rightarrow> Inr (y # ys)))"

section \<open>Guards that collect reasons\<close>

text \<open>\<open>if cond: reasons.append(r)\<close> contributes \<open>flag cond r\<close> to the list of reasons.\<close>

definition flag :: "bool \<Rightarrow> 'a \<Rightarrow> 'a list" where
  "flag c r = (if c then [r] else [])"

lemma flag_simps [simp]:
  "flag True r = [r]" "flag False r = []"
  "flag c r = [] \<longleftrightarrow> \<not> c" "[] = flag c r \<longleftrightarrow> \<not> c"
  "set (flag c r) = (if c then {r} else {})"
  by (auto simp: flag_def)

section \<open>Strings\<close>

definition upper_char :: "char \<Rightarrow> char" where
  "upper_char c =
     (let n = (of_char c :: int) in if 97 \<le> n \<and> n \<le> 122 then char_of (n - 32) else c)"

definition upper :: "string \<Rightarrow> string" where
  "upper s = map upper_char s"

definition lower_char :: "char \<Rightarrow> char" where
  "lower_char c =
     (let n = (of_char c :: int) in if 65 \<le> n \<and> n \<le> 90 then char_of (n + 32) else c)"

definition lower :: "string \<Rightarrow> string" where
  "lower s = map lower_char s"

fun startswith :: "string \<Rightarrow> string \<Rightarrow> bool" where
  "startswith s [] = True"
| "startswith [] (p # ps) = False"
| "startswith (c # s) (p # ps) = (c = p \<and> startswith s ps)"

fun contains :: "string \<Rightarrow> string \<Rightarrow> bool" where
  "contains [] t = (t = [])"
| "contains (c # s) t = (startswith (c # s) t \<or> contains s t)"

fun join :: "string \<Rightarrow> string list \<Rightarrow> string" where
  "join sep [] = []"
| "join sep [x] = x"
| "join sep (x # y # xs) = x @ sep @ join sep (y # xs)"

lemma startswith_iff: "startswith s p \<longleftrightarrow> (\<exists>t. s = p @ t)"
  by (induction s p rule: startswith.induct) auto

lemma upper_char_idem [simp]: "upper_char (upper_char c) = upper_char c"
proof -
  let ?n = "of_char c :: int"
  show ?thesis
  proof (cases "97 \<le> ?n \<and> ?n \<le> 122")
    case True
    then have "(of_char (char_of (?n - 32)) :: int) = ?n - 32"
      by simp
    with True show ?thesis by (simp add: upper_char_def Let_def)
  next
    case False
    then have "upper_char c = c" by (auto simp: upper_char_def Let_def)
    then show ?thesis by simp
  qed
qed

lemma upper_idem [simp]: "upper (upper s) = upper s"
  by (simp add: upper_def)

lemma upper_eq_Nil [simp]: "upper s = [] \<longleftrightarrow> s = []"
  by (simp add: upper_def)

text \<open>\<open>str(n)\<close> of an integer.\<close>

fun nat_digits :: "nat \<Rightarrow> string" where
  "nat_digits n = (if n < 10 then [char_of (48 + n)] else nat_digits (n div 10) @ [char_of (48 + n mod 10)])"

declare nat_digits.simps [simp del]

definition int_str :: "int \<Rightarrow> string" where
  "int_str n = (if n < 0 then CHR ''-'' # nat_digits (nat (- n)) else nat_digits (nat n))"

text \<open>\<open>strip()\<close> of ASCII text.\<close>

definition is_space :: "char \<Rightarrow> bool" where
  "is_space c = (let n = (of_char c :: nat) in n = 32 \<or> (9 \<le> n \<and> n \<le> 13) \<or> (28 \<le> n \<and> n \<le> 31))"

definition strip :: "string \<Rightarrow> string" where
  "strip s = rev (dropWhile is_space (rev (dropWhile is_space s)))"

lemma strip_eq_Nil: "strip s = [] \<longleftrightarrow> list_all is_space s"
proof
  assume "strip s = []"
  then have "\<forall>c \<in> set (dropWhile is_space s). is_space c" by (simp add: strip_def dropWhile_eq_Nil_conv)
  then have "dropWhile is_space s = []" by (metis hd_dropWhile list.set_sel(1))
  then show "list_all is_space s" by (simp add: dropWhile_eq_Nil_conv list_all_iff)
next
  assume "list_all is_space s"
  then have "dropWhile is_space s = []" by (simp only: dropWhile_eq_Nil_conv list_all_iff)
  then show "strip s = []" by (metis strip_def dropWhile.simps(1) rev.simps(1))
qed

text \<open>\<open>max(xs, key=f)\<close> and \<open>min(xs, key=f)\<close>: the first of the extreme elements.\<close>

definition argmax :: "('a \<Rightarrow> 'b::linorder) \<Rightarrow> 'a list \<Rightarrow> 'a" where
  "argmax f xs = fold (\<lambda>y m. if f y > f m then y else m) (tl xs) (hd xs)"

definition argmin :: "('a \<Rightarrow> 'b::linorder) \<Rightarrow> 'a list \<Rightarrow> 'a" where
  "argmin f xs = fold (\<lambda>y m. if f y < f m then y else m) (tl xs) (hd xs)"

lemma fold_argmax:
  "let r = fold (\<lambda>y m. if f y > f m then y else m) xs x in r \<in> insert x (set xs) \<and> (\<forall>y \<in> insert x (set xs). f y \<le> (f r :: 'b::linorder))"
proof (induction xs arbitrary: x)
  case (Cons a xs)
  show ?case using Cons [of "if f a > f x then a else x"] by (auto simp: Let_def split: if_splits)
qed simp

lemma fold_argmin:
  "let r = fold (\<lambda>y m. if f y < f m then y else m) xs x in r \<in> insert x (set xs) \<and> (\<forall>y \<in> insert x (set xs). (f r :: 'b::linorder) \<le> f y)"
proof (induction xs arbitrary: x)
  case (Cons a xs)
  show ?case using Cons [of "if f a < f x then a else x"] by (auto simp: Let_def split: if_splits)
qed simp

lemma argmax_in: "xs \<noteq> [] \<Longrightarrow> argmax f xs \<in> set xs"
  using fold_argmax [of f "tl xs" "hd xs"] by (cases xs) (auto simp: argmax_def Let_def)

lemma argmax_max: "x \<in> set xs \<Longrightarrow> f x \<le> f (argmax f xs)"
  using fold_argmax [of f "tl xs" "hd xs"] by (cases xs) (auto simp: argmax_def Let_def)

lemma argmin_in: "xs \<noteq> [] \<Longrightarrow> argmin f xs \<in> set xs"
  using fold_argmin [of f "tl xs" "hd xs"] by (cases xs) (auto simp: argmin_def Let_def)

lemma argmin_min: "x \<in> set xs \<Longrightarrow> f (argmin f xs) \<le> f x"
  using fold_argmin [of f "tl xs" "hd xs"] by (cases xs) (auto simp: argmin_def Let_def)

section \<open>Sorted lists\<close>

lemma sorted_le_last: "sorted xs \<Longrightarrow> x \<in> set xs \<Longrightarrow> x \<le> last xs"
  by (induction xs) auto

lemma sorted_snoc: "sorted (xs @ [t]) \<longleftrightarrow> sorted xs \<and> (xs \<noteq> [] \<longrightarrow> last xs \<le> t)"
  by (auto simp: sorted_append dest: sorted_le_last order_trans)

section \<open>Sets of strings\<close>

text \<open>\<open>tuple(sorted(...))\<close> over a set given by a list of its elements.\<close>

definition sorted_set :: "('a::linorder) list \<Rightarrow> 'a list" where
  "sorted_set xs = sort (remdups xs)"

lemma sorted_set_simps [simp]:
  "set (sorted_set xs) = set xs" "distinct (sorted_set xs)" "sorted (sorted_set xs)"
  "sorted_set xs = [] \<longleftrightarrow> xs = []"
  by (simp_all add: sorted_set_def flip: set_empty)

lemma sorted_set_cong: "set xs = set ys \<Longrightarrow> sorted_set xs = sorted_set ys"
  by (metis sorted_set_simps(1-3) sorted_distinct_set_unique)

section \<open>Dictionaries\<close>

type_synonym ('k, 'v) dict = "('k \<times> 'v) list"

abbreviation dget :: "('k, 'v) dict \<Rightarrow> 'k \<Rightarrow> 'v option" where
  "dget d k \<equiv> map_of d k"

abbreviation dset :: "'k \<Rightarrow> 'v \<Rightarrow> ('k, 'v) dict \<Rightarrow> ('k, 'v) dict" where
  "dset k v d \<equiv> AList.update k v d"

abbreviation ddel :: "'k \<Rightarrow> ('k, 'v) dict \<Rightarrow> ('k, 'v) dict" where
  "ddel k d \<equiv> AList.delete k d"

definition get_or :: "('k, 'v) dict \<Rightarrow> 'k \<Rightarrow> 'v \<Rightarrow> 'v" where
  "get_or d k v = (case dget d k of None \<Rightarrow> v | Some x \<Rightarrow> x)"

definition wf_dict :: "('k, 'v) dict \<Rightarrow> bool" where
  "wf_dict d \<longleftrightarrow> distinct (map fst d)"

lemma dget_dset [simp]: "dget (dset k v d) j = (if j = k then Some v else dget d j)"
  by (auto simp: update_conv')

lemma dget_ddel [simp]: "dget (ddel k d) j = (if j = k then None else dget d j)"
  by (auto simp: delete_conv')

lemma wf_dict_simps [simp]:
  "wf_dict []" "wf_dict d \<Longrightarrow> wf_dict (dset k v d)" "wf_dict d \<Longrightarrow> wf_dict (ddel k d)"
  "wf_dict d \<Longrightarrow> wf_dict (filter P d)"
  by (simp_all add: wf_dict_def distinct_update distinct_delete distinct_map_filter)

lemma wf_dict_mem: "wf_dict d \<Longrightarrow> (k, v) \<in> set d \<longleftrightarrow> dget d k = Some v"
  by (simp add: wf_dict_def)

lemma dget_filter:
  "wf_dict d \<Longrightarrow> dget (filter P d) k = (case dget d k of None \<Rightarrow> None | Some v \<Rightarrow> if P (k, v) then Some v else None)"
proof (induction d)
  case (Cons p d)
  then show ?case
    by (cases p) (auto simp: wf_dict_def split: option.split dest: map_of_SomeD intro!: map_of_is_SomeI, force+)
qed simp

lemma dset_set: "(j, x) \<in> set (dset k v d) \<Longrightarrow> (j, x) = (k, v) \<or> (j, x) \<in> set d"
  by (induction d) (auto split: if_splits)

text \<open>A sum over the values of a dictionary after an update.\<close>

lemma sum_dset:
  fixes f :: "'v \<Rightarrow> 'n::ab_group_add"
  shows "sum_list (map (\<lambda>(k, v). f v) (dset k v d)) =
     sum_list (map (\<lambda>(k, v). f v) d) - (case dget d k of None \<Rightarrow> 0 | Some w \<Rightarrow> f w) + f v"
  by (induction d) (auto simp: algebra_simps split: option.splits)

section \<open>Sums of decimals\<close>

text \<open>\<open>sum(xs, Decimal('0'))\<close>: a left fold that rounds after each addition.\<close>

fun dsum_from :: "rat \<Rightarrow> rat list \<Rightarrow> rat" where
  "dsum_from a [] = a"
| "dsum_from a (x # xs) = dsum_from (dec (a + x)) xs"

definition dsum :: "rat list \<Rightarrow> rat" where
  "dsum xs = dsum_from 0 xs"

lemma dsum_Nil [simp]: "dsum [] = 0"
  by (simp add: dsum_def)

lemma dsum_from_append [simp]: "dsum_from a (xs @ ys) = dsum_from (dsum_from a xs) ys"
  by (induction xs arbitrary: a) simp_all

lemma dsum_snoc: "dsum (xs @ [x]) = dec (dsum xs + x)"
  by (simp add: dsum_def)

lemma dsum_from_mono: "a \<le> a' \<Longrightarrow> dsum_from a xs \<le> dsum_from a' xs"
  by (induction xs arbitrary: a a') (simp_all add: dec.R_mono)

lemma dsum_from_nonneg: "0 \<le> a \<Longrightarrow> (\<And>x. x \<in> set xs \<Longrightarrow> 0 \<le> x) \<Longrightarrow> 0 \<le> dsum_from a xs"
  by (induction xs arbitrary: a) simp_all

lemma dsum_nonneg: "(\<And>x. x \<in> set xs \<Longrightarrow> 0 \<le> x) \<Longrightarrow> 0 \<le> dsum xs"
  by (simp add: dsum_def dsum_from_nonneg)

text \<open>
  Sums are exact on a common grid: when every summand is a multiple of \<open>10 powi q\<close> and the
  absolute values add up to at most \<open>10 ^ 28\<close> grid units, no addition rounds.
\<close>

definition on_grid :: "int \<Rightarrow> rat \<Rightarrow> bool" where
  "on_grid q x \<longleftrightarrow> (\<exists>m::int. x = of_int m * 10 powi q)"

lemma on_grid_add: "on_grid q x \<Longrightarrow> on_grid q y \<Longrightarrow> on_grid q (x + y)"
  unfolding on_grid_def by (metis distrib_right of_int_add)

lemma on_grid_minus: "on_grid q x \<Longrightarrow> on_grid q (- x)"
  unfolding on_grid_def by (metis mult_minus_left of_int_minus)

lemma on_grid_diff: "on_grid q x \<Longrightarrow> on_grid q y \<Longrightarrow> on_grid q (x - y)"
  using on_grid_add on_grid_minus by force

lemma on_grid_0 [simp]: "on_grid q 0"
  unfolding on_grid_def by (intro exI [of _ 0]) simp

lemma on_grid_sum_list: "(\<And>x. x \<in> set xs \<Longrightarrow> on_grid q x) \<Longrightarrow> on_grid q (sum_list xs)"
  by (induction xs) (simp_all add: on_grid_add)

lemma dec_on_grid:
  assumes "on_grid q x" "\<bar>x\<bar> \<le> 10 ^ 28 * 10 powi q" shows "dec x = x"
proof -
  obtain m :: int where m: "x = of_int m * 10 powi q" using assms(1) by (auto simp: on_grid_def)
  have "of_int \<bar>m\<bar> * (10 powi q :: rat) \<le> of_int (10 ^ 28) * 10 powi q"
    using assms(2) by (simp add: m abs_mult)
  then have "\<bar>m\<bar> \<le> 10 ^ 28" by (subst (asm) mult_le_cancel_right_pos) (simp_all only: of_int_le_iff zero_less_power_int zero_less_numeral)
  then show ?thesis using dec.rnd_grid [of m q] by (simp add: m)
qed

lemma dsum_from_exact:
  assumes "on_grid q a" "\<And>x. x \<in> set xs \<Longrightarrow> on_grid q x"
    and "\<bar>a\<bar> + sum_list (map abs xs) \<le> 10 ^ 28 * 10 powi q"
  shows "dsum_from a xs = a + sum_list xs"
  using assms
proof (induction xs arbitrary: a)
  case (Cons x xs)
  have pos: "0 \<le> sum_list (map abs xs)" by (intro sum_list_nonneg) auto
  have "dec (a + x) = a + x"
    using Cons.prems pos by (intro dec_on_grid on_grid_add) (auto intro: order_trans [OF abs_triangle_ineq])
  with Cons show ?case
    by (auto simp: on_grid_add add.assoc intro!: Cons.IH order_trans [OF add_right_mono [OF abs_triangle_ineq]])
qed simp

lemma dsum_exact:
  assumes "\<And>x. x \<in> set xs \<Longrightarrow> on_grid q x" and "sum_list (map abs xs) \<le> 10 ^ 28 * 10 powi q"
  shows "dsum xs = sum_list xs"
  using dsum_from_exact [of q 0 xs] assms by (simp add: dsum_def)

section \<open>Division of decimals\<close>

definition ddiv :: "rat \<Rightarrow> rat \<Rightarrow> rat res" where
  "ddiv a b = (if b = 0 then (if a = 0 then Inl InvalidOperation else Inl ZeroDivisionError)
               else Inr (dec (a / b)))"

section \<open>Times\<close>

text \<open>A \<open>datetime\<close> with or without a time zone, in microseconds.\<close>

datatype datetime = Aware int | Naive int

fun is_aware :: "datetime \<Rightarrow> bool" where
  "is_aware (Aware t) = True"
| "is_aware (Naive t) = False"

fun micros :: "datetime \<Rightarrow> int" where
  "micros (Aware t) = t"
| "micros (Naive t) = t"

text \<open>\<open>total_seconds()\<close> of a difference in microseconds: one correctly rounded float division.\<close>

definition total_seconds :: "int \<Rightarrow> rat" where
  "total_seconds us = flt (of_int us / 1000000)"

lemma total_seconds_simps [simp]:
  "total_seconds us < 0 \<longleftrightarrow> us < 0" "0 \<le> total_seconds us \<longleftrightarrow> 0 \<le> us"
  by (simp_all add: total_seconds_def zero_le_divide_iff divide_less_0_iff not_less [symmetric])

lemma total_seconds_mono: "us \<le> vs \<Longrightarrow> total_seconds us \<le> total_seconds vs"
  unfolding total_seconds_def by (intro flt.R_mono divide_right_mono) simp_all

section \<open>Machines\<close>

text \<open>
  A component with state is a step function over operations, run over a sequence of them by
  \<open>fold\<close>. Two contracts recur. In \<open>preserved\<close> every step keeps an invariant. In
  \<open>gated\<close> a blocked state stays blocked under every operation that is not approved, so the
  end of a block is always the work of an approved operation.
\<close>

locale preserved =
  fixes step :: "'op \<Rightarrow> 's \<Rightarrow> 's" and I :: "'s \<Rightarrow> bool"
  assumes step_I: "I s \<Longrightarrow> I (step op s)"
begin

lemma run_I: "I s \<Longrightarrow> I (fold step ops s)"
  by (induction ops arbitrary: s) (simp_all add: step_I)

end

text \<open>The same where only some operations keep the invariant.\<close>

locale preserved_by =
  fixes step :: "'op \<Rightarrow> 's \<Rightarrow> 's" and I :: "'s \<Rightarrow> bool" and ok :: "'op \<Rightarrow> bool"
  assumes ok_step_I: "I s \<Longrightarrow> ok op \<Longrightarrow> I (step op s)"
begin

lemma run_ok_I: "I s \<Longrightarrow> list_all ok ops \<Longrightarrow> I (fold step ops s)"
  by (induction ops arbitrary: s) (simp_all add: ok_step_I)

end

sublocale preserved \<subseteq> preserved_by step I "\<lambda>_. True"
  by unfold_locales (rule step_I)

locale gated =
  fixes step :: "'op \<Rightarrow> 's \<Rightarrow> 's" and blocked :: "'s \<Rightarrow> bool" and approved :: "'op \<Rightarrow> bool"
  assumes stays_blocked: "blocked s \<Longrightarrow> \<not> approved op \<Longrightarrow> blocked (step op s)"
begin

lemma run_stays_blocked: "blocked s \<Longrightarrow> list_all (\<lambda>op. \<not> approved op) ops \<Longrightarrow> blocked (fold step ops s)"
  by (induction ops arbitrary: s) (simp_all add: stays_blocked)

lemma unblocked_by_approved:
  assumes "blocked s" "\<not> blocked (fold step ops s)"
  shows "\<exists>pre op post. ops = pre @ op # post \<and> approved op \<and> blocked (fold step pre s)"
  using assms
proof (induction ops rule: rev_induct)
  case (snoc op ops)
  show ?case
  proof (cases "blocked (fold step ops s)")
    case True
    with snoc.prems have "approved op" using stays_blocked by auto
    with True show ?thesis by (intro exI [of _ ops] exI [of _ op] exI [of _ "[]"]) simp
  next
    case False
    then obtain pre o' post where "ops = pre @ o' # post" "approved o'" "blocked (fold step pre s)"
      using snoc by blast
    then show ?thesis by (intro exI [of _ pre] exI [of _ o'] exI [of _ "post @ [op]"]) simp
  qed
qed simp

end

end
