(* ===== verification/Money.thy ===== *)
theory Money
  imports Prelude
begin

text \<open>
  Financial numbers (\<open>backend/app/core/money.py\<close>): parsing, rounding to the exchange's
  tick and step sizes, distances in basis points. Every price and quantity that reaches the exchange goes
  through \<open>quantize_step\<close>; the properties say that it finds the nearest multiple of
  the step on the right side, for numbers of up to 27 digits, and that the bound on the
  number of digits is needed.
\<close>

section \<open>Definitions\<close>

text \<open>What \<open>Decimal(str(value))\<close> makes of an object: a finite number, an infinity, a NaN, or
  an exception.\<close>

datatype dnum = Num rat | Infinite | NaN | Unparsable

definition decimal :: "dnum \<Rightarrow> rat res" where
  "decimal v =
     (case v of
        Unparsable \<Rightarrow> Inl (ValueError ''invalid decimal'')
      | Infinite \<Rightarrow> Inl (ValueError ''non-finite financial value'')
      | NaN \<Rightarrow> Inl (ValueError ''non-finite financial value'')
      | Num x \<Rightarrow> Inr x)"

text \<open>\<open>to_integral_value\<close> under ROUND_DOWN (towards zero) and ROUND_UP (away from zero).\<close>

definition round_down :: "rat \<Rightarrow> int" where
  "round_down x = (if 0 \<le> x then \<lfloor>x\<rfloor> else \<lceil>x\<rceil>)"

definition round_up :: "rat \<Rightarrow> int" where
  "round_up x = (if 0 \<le> x then \<lceil>x\<rceil> else \<lfloor>x\<rfloor>)"

definition quantize_step :: "dnum \<Rightarrow> dnum \<Rightarrow> string \<Rightarrow> rat res" where
  "quantize_step v s direction =
     bind_res (decimal v) (\<lambda>value.
     bind_res (decimal s) (\<lambda>step.
       if step \<le> 0 then Inl (ValueError ''step must be positive'')
       else (let quotient = dec (value / step);
                 units = (if direction = ''down'' then round_down quotient else round_up quotient)
             in Inr (dec (of_int units * step)))))"

definition normalize_price :: "dnum \<Rightarrow> dnum \<Rightarrow> string \<Rightarrow> rat res" where
  "normalize_price price tick side =
     quantize_step price tick (if upper side = ''BUY'' then ''down'' else ''up'')"

definition normalize_quantity :: "dnum \<Rightarrow> dnum \<Rightarrow> rat res" where
  "normalize_quantity qty step = quantize_step qty step ''down''"

definition bps_distance :: "dnum \<Rightarrow> dnum \<Rightarrow> rat res" where
  "bps_distance x y =
     bind_res (decimal x) (\<lambda>a.
     bind_res (decimal y) (\<lambda>b.
       if b = 0 then Inl ZeroDivisionError
       else Inr (dec (dec (dec \<bar>dec (a - b)\<bar> / b) * 10000))))"

section \<open>Rounding a quotient does not cross an integer\<close>

lemma decimal_simps [simp]:
  "decimal (Num x) = Inr x" "decimal Infinite = Inl (ValueError ''non-finite financial value'')"
  "decimal NaN = Inl (ValueError ''non-finite financial value'')"
  "decimal Unparsable = Inl (ValueError ''invalid decimal'')"
  by (simp_all add: decimal_def)

lemma round_down_minus: "round_down (- x) = - round_down x"
  by (auto simp: round_down_def ceiling_def)

lemma round_up_minus: "round_up (- x) = - round_up x"
  by (auto simp: round_up_def ceiling_def)

text \<open>The quotient of two integers of at most 27 digits lies at least \<open>1/s\<close> away from the
  integers it is not equal to, more than the rounding error.\<close>

lemma dec_quotient_error:
  assumes "0 \<le> m" "m < 10 ^ 27" "0 < s"
  shows "\<bar>dec (of_int m / of_int s) - of_int m / of_int s\<bar> < 1 / of_int s"
proof -
  have "\<bar>dec (of_int m / of_int s) - of_int m / of_int s\<bar> \<le> of_int m / of_int s / of_int (2 * 10 ^ 27)"
    using dec.rnd_error [of "of_int m / of_int s"] assms by simp
  also have "\<dots> < 1 / of_int s"
  proof -
    have "(of_int m :: rat) < of_int (2 * 10 ^ 27)" using assms by (simp only: of_int_less_iff)
    then show ?thesis using assms by (simp add: field_simps)
  qed
  finally show ?thesis .
qed

lemma quotient_floor:
  assumes "0 < s"
  shows "(of_int m / of_int s :: rat) = of_int (m div s) + of_int (m mod s) / of_int s"
proof -
  have "m = m div s * s + m mod s" by simp
  then have "(of_int m :: rat) = of_int (m div s) * of_int s + of_int (m mod s)"
    by (simp flip: of_int_mult of_int_add)
  then show ?thesis using assms by (simp add: add_divide_distrib)
qed

lemma div_bounds:
  assumes "0 \<le> m" "0 < (s::int)"
  shows "0 \<le> m div s" "m div s \<le> m" "0 \<le> - ((- m) div s)" "- ((- m) div s) \<le> m"
proof -
  show d: "0 \<le> m div s" using assms by (simp add: pos_imp_zdiv_nonneg_iff)
  have "m div s * 1 \<le> m div s * s" using d assms by (intro mult_left_mono) auto
  also have "\<dots> \<le> m" using assms by (simp add: minus_mod_eq_div_mult [symmetric])
  finally show "m div s \<le> m" by simp
  show "0 \<le> - ((- m) div s)" using assms by (simp add: div_nonpos_pos_le0)
  show "- ((- m) div s) \<le> m"
  proof (rule ccontr)
    assume "\<not> ?thesis"
    then have "(m + 1) * s \<le> - ((- m) div s) * s" using assms by (intro mult_right_mono) auto
    also have "\<dots> = m + (- m) mod s" by (simp add: minus_mod_eq_div_mult [symmetric])
    also have "\<dots> < m + s" using assms by simp
    finally have "m * s < m * 1" by (simp add: algebra_simps)
    moreover have "m * 1 \<le> m * s" using assms by (intro mult_left_mono) auto
    ultimately show False by simp
  qed
qed

lemma floor_dec_quotient:
  assumes m: "0 \<le> m" "m < 10 ^ 27" and s: "0 < s"
  shows "\<lfloor>dec (of_int m / of_int s)\<rfloor> = m div s"
proof (rule floor_unique)
  have fx: "dec (of_int (m div s)) = of_int (m div s)" using div_bounds [OF m(1) s] m by (intro dec.rnd_of_int) simp
  have le: "(of_int (m div s) :: rat) \<le> of_int m / of_int s"
    using s by (subst quotient_floor [OF s]) simp
  from dec.R_ge_fix [OF fx le] show "of_int (m div s) \<le> dec (of_int m / of_int s)" .
  have "(of_int (m mod s) :: rat) + 1 \<le> of_int s" using s
    by (metis of_int_1 of_int_add of_int_le_iff pos_mod_bound zless_imp_add1_zle)
  then have "(of_int m / of_int s :: rat) + 1 / of_int s \<le> of_int (m div s) + 1"
    using s by (subst quotient_floor [OF s]) (simp add: divide_le_eq_1 flip: add_divide_distrib)
  then show "dec (of_int m / of_int s) < of_int (m div s) + 1"
    using dec_quotient_error [OF m s] by linarith
qed

lemma ceiling_dec_quotient:
  assumes m: "0 \<le> m" "m < 10 ^ 27" and s: "0 < s"
  shows "\<lceil>dec (of_int m / of_int s)\<rceil> = - ((- m) div s)"
proof (rule ceiling_unique)
  let ?c = "- ((- m) div s)"
  have qe: "(of_int m / of_int s :: rat) = of_int ?c - of_int ((- m) mod s) / of_int s"
    using quotient_floor [OF s, of "- m"] by simp
  have md: "0 \<le> (- m) mod s" "(- m) mod s < s" using s by auto
  have fx: "dec (of_int ?c) = of_int ?c" using div_bounds [OF m(1) s] m by (intro dec.rnd_of_int) simp
  have "(of_int m / of_int s :: rat) \<le> of_int ?c" using md s by (simp add: qe)
  from dec.R_le_fix [OF fx this] show "dec (of_int m / of_int s) \<le> of_int ?c" .
  have "(of_int ((- m) mod s) :: rat) + 1 \<le> of_int s" using md
    by (metis of_int_1 of_int_add of_int_le_iff zless_imp_add1_zle)
  then have "(of_int ((- m) mod s) + 1) / of_int s \<le> (1 :: rat)" using s by simp
  then have "of_int ?c - 1 + 1 / of_int s \<le> (of_int m / of_int s :: rat)"
    unfolding qe add_divide_distrib by linarith
  then show "of_int ?c - 1 < dec (of_int m / of_int s)"
    using dec_quotient_error [OF m s] by linarith
qed

section \<open>The contract of quantize\_step\<close>

lemma scaled_quotient: "(of_int m * 10 powi q) / (of_int s * 10 powi q) = (of_int m / of_int s :: rat)"
  by simp

lemma dec_units:
  assumes "\<bar>n * s\<bar> \<le> 10 ^ 28"
  shows "dec (of_int n * (of_int s * 10 powi q)) = of_int (n * s) * 10 powi q"
  using dec.rnd_grid [of "n * s" q] assms by (simp add: mult.assoc)

lemma units_down: "0 \<le> m \<Longrightarrow> m < 10 ^ 27 \<Longrightarrow> 0 < s \<Longrightarrow> round_down (dec (of_int m / of_int s)) = m div s"
  by (simp add: round_down_def floor_dec_quotient)

lemma units_up: "0 \<le> m \<Longrightarrow> m < 10 ^ 27 \<Longrightarrow> 0 < s \<Longrightarrow> round_up (dec (of_int m / of_int s)) = - ((- m) div s)"
  by (simp add: round_up_def ceiling_dec_quotient)

lemma multiple_bounds:
  assumes "0 \<le> m" "m < 10 ^ 27" "0 < s" "s < (10::int) ^ 27"
  shows "\<bar>m div s * s\<bar> \<le> 10 ^ 28" "\<bar>- ((- m) div s) * s\<bar> \<le> 10 ^ 28"
proof -
  have r: "\<bar>m - r\<bar> \<le> 10 ^ 28" "\<bar>m + r\<bar> \<le> 10 ^ 28" if "0 \<le> r" "r < s" for r
    using assms that by auto
  show "\<bar>m div s * s\<bar> \<le> 10 ^ 28" "\<bar>- ((- m) div s) * s\<bar> \<le> 10 ^ 28"
    using r(1) [of "m mod s"] r(2) [of "(- m) mod s"] assms
    by (simp_all add: minus_mod_eq_div_mult [symmetric])
qed

lemma quantize_units:
  assumes "0 \<le> m" "m < 10 ^ 27" "0 < s" "s < 10 ^ 27"
  shows "quantize_step (Num (of_int m * 10 powi q)) (Num (of_int s * 10 powi q)) direction =
    Inr (of_int (if direction = ''down'' then m div s * s else - ((- m) div s) * s) * 10 powi q)"
proof -
  have pos: "\<not> (of_int s * 10 powi q :: rat) \<le> 0" using assms by (simp add: not_le)
  note units = units_down [OF assms(1-3)] units_up [OF assms(1-3)]
  show ?thesis
    using dec_units [OF multiple_bounds(1) [OF assms]] dec_units [OF multiple_bounds(2) [OF assms]]
    by (simp add: quantize_step_def Let_def pos scaled_quotient units del: of_int_minus of_int_mult)
qed

text \<open>A number of either sign with at most 27 digits on the grid \<open>10 powi q\<close>.\<close>

definition digits27 :: "int \<Rightarrow> rat \<Rightarrow> bool" where
  "digits27 q x \<longleftrightarrow> on_grid q x \<and> \<bar>x\<bar> < 10 ^ 27 * 10 powi q"

lemma digits27E:
  assumes "digits27 q x" "0 \<le> x"
  obtains m :: int where "x = of_int m * 10 powi q" "0 \<le> m" "m < 10 ^ 27"
proof -
  obtain m :: int where m: "x = of_int m * 10 powi q" using assms by (auto simp: digits27_def on_grid_def)
  have pos: "(0 :: rat) < 10 powi q" by simp
  have "0 \<le> (of_int m :: rat)" "(of_int m :: rat) < of_int (10 ^ 27)"
    using assms pos by (simp_all add: digits27_def m zero_le_mult_iff not_le [symmetric])
  then have "0 \<le> m" "m < 10 ^ 27" by (simp_all only: of_int_0_le_iff of_int_less_iff)
  with m that show thesis by blast
qed

lemma digits27_minus [simp]: "digits27 q (- x) \<longleftrightarrow> digits27 q x"
  using on_grid_minus [of q x] on_grid_minus [of q "- x"] by (auto simp: digits27_def)

text \<open>What rounding to a step in one direction promises: a multiple of the step, less than one step away from the value,
  on the side that the direction names.\<close>

definition nearest_step :: "string \<Rightarrow> rat \<Rightarrow> rat \<Rightarrow> rat \<Rightarrow> bool" where
  "nearest_step direction step v r \<longleftrightarrow>
     (\<exists>n::int. r = of_int n * step) \<and>
     (if direction = ''down'' then r \<le> v \<and> v < r + step else v \<le> r \<and> r < v + step)"

lemma nearest_step_units:
  assumes "0 < (s::int)"
  shows "nearest_step d (of_int s * 10 powi q) (of_int m * 10 powi q)
    (of_int (if d = ''down'' then m div s * s else - ((- m) div s) * s) * 10 powi q)"
proof -
  have pos: "(0 :: rat) < 10 powi q" by simp
  have a: "m div s * s \<le> m" "m < m div s * s + s" "m \<le> - ((- m) div s) * s" "- ((- m) div s) * s < m + s"
    using pos_mod_bound [OF assms, of m] pos_mod_sign [OF assms, of m]
      pos_mod_bound [OF assms, of "- m"] pos_mod_sign [OF assms, of "- m"]
    by (simp_all only: minus_mod_eq_div_mult [symmetric] minus_mult_left [symmetric])
  have b: "(of_int x * 10 powi q :: rat) \<le> of_int y * 10 powi q" if "x \<le> y" for x y :: int
    using that by (intro mult_right_mono) auto
  have c: "(of_int x * 10 powi q :: rat) < of_int y * 10 powi q + of_int z * 10 powi q" if "x < y + z" for x y z :: int
    using that pos by (simp flip: distrib_right of_int_add)
  have e: "\<exists>n::int. of_int (k * s) * 10 powi q = of_int n * (of_int s * 10 powi q :: rat)" for k
    by (rule exI [of _ k]) simp
  show ?thesis
    using b [OF a(1)] c [OF a(2)] b [OF a(3)] c [OF a(4)] e
    unfolding nearest_step_def by (simp only: if_True if_False split: if_split) blast
qed

text \<open>For a negative value the code rounds the magnitude: \<open>down\<close> goes towards zero, any other direction away from it.\<close>

definition nearest_magnitude :: "string \<Rightarrow> rat \<Rightarrow> rat \<Rightarrow> rat \<Rightarrow> bool" where
  "nearest_magnitude direction step v r \<longleftrightarrow> (if 0 \<le> v then nearest_step direction step v r else nearest_step direction step (- v) (- r))"

lemma quantize_step_sound:
  assumes "digits27 q v" "0 \<le> v" "digits27 q s" "0 < s"
  shows "\<exists>r. quantize_step (Num v) (Num s) d = Inr r \<and> nearest_step d s v r"
proof -
  obtain m k :: int where m: "v = of_int m * 10 powi q" "0 \<le> m" "m < 10 ^ 27"
    and k: "s = of_int k * 10 powi q" "0 \<le> k" "k < 10 ^ 27"
    using digits27E [OF assms(1,2)] digits27E [OF assms(3) less_imp_le [OF assms(4)]] by metis
  have "0 < k" using assms(4) k by (cases "k = 0") auto
  then show ?thesis
    using quantize_units [OF m(2,3) _ k(3)] nearest_step_units [of k] by (auto simp: m(1) k(1))
qed

lemma quantize_step_minus:
  assumes "quantize_step (Num v) (Num s) d = Inr r" shows "quantize_step (Num (- v)) (Num s) d = Inr (- r)"
proof -
  have "dec (of_int (- n) * s) = - dec (of_int n * s)" for n using dec.R_minus [of "of_int n * s"] by simp
  then show ?thesis using assms
    by (auto simp: quantize_step_def Let_def dec.R_minus round_down_minus round_up_minus split: if_splits)
qed

text \<open>
  C14: on a decimal grid \<open>10 powi q\<close>, for a value of either sign and a positive step of at most 27 digits each, \<open>quantize_step\<close> returns, the rounding of
  \<open>Decimal\<close> included, exactly a multiple of the step. For a value that is not negative it is the largest one not above the value when the direction is \<open>down\<close> and
  the smallest one not below it otherwise; for a negative value the same holds of the magnitudes, so \<open>down\<close> rounds towards zero, above the value.
\<close>

theorem quantize_step_exact:
  assumes "digits27 q v" "digits27 q s" "0 < s"
  shows "\<exists>r. quantize_step (Num v) (Num s) d = Inr r \<and> nearest_magnitude d s v r"
proof (cases "0 \<le> v")
  case True
  then show ?thesis using quantize_step_sound [OF assms(1) _ assms(2,3), of d] by (simp add: nearest_magnitude_def)
next
  case False
  then obtain r where r: "quantize_step (Num (- v)) (Num s) d = Inr r" "nearest_step d s (- v) r"
    using quantize_step_sound [of q "- v" s d] assms by auto
  from quantize_step_minus [OF r(1)] r(2) False show ?thesis by (auto simp: nearest_magnitude_def)
qed

lemma digits27_of_int:
  assumes "\<bar>m\<bar> < 10 ^ 27" shows "digits27 q (of_int m * 10 powi q)"
proof -
  have "(of_int \<bar>m\<bar> :: rat) < of_int (10 ^ 27)" using assms by (simp only: of_int_less_iff)
  then have "(of_int \<bar>m\<bar> :: rat) * 10 powi q < 10 ^ 27 * 10 powi q"
    by (intro mult_strict_right_mono) simp_all
  then show ?thesis by (auto simp: digits27_def on_grid_def abs_mult)
qed

theorem quantize_step_exact_witness:
  "(\<exists>r. quantize_step (Num (of_int 12345 * 10 powi (-3))) (Num (of_int 50 * 10 powi (-3))) ''down'' = Inr r \<and>
      nearest_step ''down'' (of_int 50 * 10 powi (-3)) (of_int 12345 * 10 powi (-3)) r) \<and>
   (\<exists>r. quantize_step (Num (of_int (-15) * 10 powi (-1))) (Num (of_int 10 * 10 powi (-1))) ''down'' = Inr r \<and> r = - 1)"
proof -
  have g: "digits27 (-3) (of_int 12345 * 10 powi (-3))" "digits27 (-3) (of_int 50 * 10 powi (-3))"
      "digits27 (-1) (of_int (-15) * 10 powi (-1))" "digits27 (-1) (of_int 10 * 10 powi (-1))"
    by (rule digits27_of_int; simp)+
  obtain r where "quantize_step (Num (of_int 12345 * 10 powi (-3))) (Num (of_int 50 * 10 powi (-3))) ''down'' = Inr r"
      "nearest_magnitude ''down'' (of_int 50 * 10 powi (-3)) (of_int 12345 * 10 powi (-3)) r"
    using quantize_step_exact [OF g(1,2), of "''down''"] by auto
  moreover obtain r' where r': "quantize_step (Num (of_int (-15) * 10 powi (-1))) (Num (of_int 10 * 10 powi (-1))) ''down'' = Inr r'"
      "nearest_magnitude ''down'' (of_int 10 * 10 powi (-1)) (of_int (-15) * 10 powi (-1)) r'"
    using quantize_step_exact [OF g(3,4), of "''down''"] by auto
  obtain n :: int where n: "- r' = of_int n" "of_int n \<le> (15 / 10 :: rat)" "(15 / 10 :: rat) < of_int n + 1"
    using r'(2) by (auto simp: nearest_magnitude_def nearest_step_def power_int_def)
  from n(2,3) have "n = 1" by linarith
  with n(1) have "r' = - 1" by simp
  ultimately show ?thesis using r'(1) by (auto simp: nearest_magnitude_def)
qed

text \<open>The bound on the digits is needed. A value of thirty nines after the point, rounded \<open>down\<close> to a multiple
  of one, comes out as one: the division rounds it up to 28 digits first, so the result is above the value.
\<close>

theorem quantize_step_down_can_round_up:
  "\<exists>v r. quantize_step (Num v) (Num 1) ''down'' = Inr r \<and> v < r"
proof (intro exI conjI)
  let ?v = "999999999999999999999999999999 / 1000000000000000000000000000000 :: rat"
  have e: "sexp 10 ?v = -1" by (rule sexp_unique) simp_all
  have "\<lfloor>999999999999999999999999999999 / 100 :: rat\<rfloor> = 9999999999999999999999999999" by (rule floor_unique) simp_all
  then have "dec ?v = 1" by (simp add: rnd_def e rhe_def Let_def power_int_def power_one_over)
  then show "quantize_step (Num ?v) (Num 1) ''down'' = Inr 1"
    by (simp add: quantize_step_def round_down_def dec.rnd_of_int [of 1, simplified])
  show "?v < 1" by simp
qed

end
