(* ===== verification/Trading_Types.thy ===== *)
theory Trading_Types
  imports Money
begin

text \<open>
  The data the components exchange: the enumerations of \<open>backend/app/core/enums.py\<close> and the order
  models of \<open>backend/app/exchange/models.py\<close>. The fields of a record carry a short
  prefix of their class (\<open>oi_\<close> for \<open>OrderIntent\<close>), because selectors are global in HOL.
\<close>

section \<open>Enumerations\<close>

datatype TradingMode = BACKTEST | PAPER | TESTNET | LIVE | LIVE_SHADOW

datatype MarketType = SPOT | PERPETUAL

datatype Environment = DEV | TEST | STAGING | PROD

datatype RiskState =
  STARTING | PAPER_ONLY | ACTIVE | NORMAL | DEGRADED | RESTRICTED | REDUCING_ONLY | HALTED
  | RECOVERY_PENDING | MANUAL_REVIEW_REQUIRED | STOPPING

datatype OrderState =
  CREATED | SUBMITTED | ACKNOWLEDGED | PARTIALLY_FILLED | FILLED | CANCEL_PENDING | CANCELLED
  | REJECTED | FAILED | UNKNOWN

datatype Signal = STRONG_BUY | BUY | WATCH | HOLD | REDUCE | SELL | STRONG_SELL | NO_TRADE

text \<open>The \<open>value\<close> of a member of a \<open>StrEnum\<close>.\<close>

fun risk_value :: "RiskState \<Rightarrow> string" where
  "risk_value STARTING = ''STARTING''"
| "risk_value PAPER_ONLY = ''PAPER_ONLY''"
| "risk_value ACTIVE = ''ACTIVE''"
| "risk_value NORMAL = ''NORMAL''"
| "risk_value DEGRADED = ''DEGRADED''"
| "risk_value RESTRICTED = ''RESTRICTED''"
| "risk_value REDUCING_ONLY = ''REDUCING_ONLY''"
| "risk_value HALTED = ''HALTED''"
| "risk_value RECOVERY_PENDING = ''RECOVERY_PENDING''"
| "risk_value MANUAL_REVIEW_REQUIRED = ''MANUAL_REVIEW_REQUIRED''"
| "risk_value STOPPING = ''STOPPING''"

fun order_value :: "OrderState \<Rightarrow> string" where
  "order_value CREATED = ''CREATED''"
| "order_value SUBMITTED = ''SUBMITTED''"
| "order_value ACKNOWLEDGED = ''ACKNOWLEDGED''"
| "order_value PARTIALLY_FILLED = ''PARTIALLY_FILLED''"
| "order_value FILLED = ''FILLED''"
| "order_value CANCEL_PENDING = ''CANCEL_PENDING''"
| "order_value CANCELLED = ''CANCELLED''"
| "order_value REJECTED = ''REJECTED''"
| "order_value FAILED = ''FAILED''"
| "order_value UNKNOWN = ''UNKNOWN''"

fun market_value :: "MarketType \<Rightarrow> string" where
  "market_value SPOT = ''SPOT''"
| "market_value PERPETUAL = ''PERPETUAL''"

lemma risk_value_inj [simp]: "risk_value a = risk_value b \<longleftrightarrow> a = b"
  by (cases a; cases b) simp_all

lemma order_value_inj [simp]: "order_value a = order_value b \<longleftrightarrow> a = b"
  by (cases a; cases b) simp_all

section \<open>Orders\<close>

record SymbolFilters =
  sf_tick_size :: rat
  sf_step_size :: rat
  sf_min_qty :: rat
  sf_max_qty :: rat
  sf_min_notional :: rat
  sf_max_notional :: "rat option"
  sf_max_orders :: "int option"

record Capabilities =
  cap_market :: bool
  cap_limit :: bool
  cap_stop :: bool
  cap_take_profit :: bool
  cap_trailing_stop :: bool
  cap_oco :: bool
  cap_post_only :: bool
  cap_reduce_only :: bool
  cap_client_order_id :: bool
  cap_testnet :: bool
  cap_private_stream :: bool
  cap_stp_modes :: "string list"
  cap_time_in_force :: "string list"

record OrderIntent =
  oi_intent_id :: string
  oi_account_id :: string
  oi_symbol :: string
  oi_side :: string
  oi_order_type :: string
  oi_quantity :: rat
  oi_price :: "rat option"
  oi_stop_price :: "rat option"
  oi_market_type :: MarketType
  oi_strategy_id :: string
  oi_reduce_only :: bool
  oi_client_order_id :: "string option"

record OrderRecord =
  or_intent_id :: string
  or_account_id :: string
  or_symbol :: string
  or_side :: string
  or_order_type :: string
  or_quantity :: rat
  or_state :: OrderState
  or_price :: "rat option"
  or_stop_price :: "rat option"
  or_exchange_order_id :: "string option"
  or_client_order_id :: "string option"
  or_filled_quantity :: rat
  or_average_fill_price :: "rat option"
  or_fees :: "(string, rat) dict"
  or_updated_at :: int

end
