(* ===== verification/Risk_State.thy ===== *)
theory Risk_State
  imports Trading_Types
begin

text \<open>
  The operational risk state (\<open>backend/app/risk/state.py\<close>): the machine that says
  whether new risk may be taken, its recovery gate, and the controllers that drive it:
  the circuit breaker (\<open>risk/circuit.py\<close>), emergency stop and panic close
  (\<open>execution/emergency.py\<close>), the exchange outage coordinator (\<open>execution/failure.py\<close>) and the
  shutdown sequence (\<open>core/lifecycle.py\<close>). A method that may raise returns the machine it
  leaves behind together with the outcome, because the state it wrote before raising stays.
\<close>

section \<open>The machine\<close>

record RecoveryChecks =
  rc_data_healthy :: bool
  rc_exchange_healthy :: bool
  rc_private_stream_healthy :: bool
  rc_reconciliation_ok :: bool
  rc_no_orphan_orders :: bool
  rc_protective_orders_ok :: bool
  rc_risk_limits_ok :: bool
  rc_clock_ok :: bool
  rc_strategy_health_ok :: bool

definition all_green :: "RecoveryChecks \<Rightarrow> bool" where
  "all_green c \<longleftrightarrow>
     rc_data_healthy c \<and> rc_exchange_healthy c \<and> rc_private_stream_healthy c \<and>
     rc_reconciliation_ok c \<and> rc_no_orphan_orders c \<and> rc_protective_orders_ok c \<and>
     rc_risk_limits_ok c \<and> rc_clock_ok c \<and> rc_strategy_health_ok c"

record RiskMachine =
  rm_state :: RiskState
  rm_reason :: string
  rm_log :: "(string \<times> string \<times> string) list"

definition transition_to :: "RiskState \<Rightarrow> string \<Rightarrow> RiskMachine \<Rightarrow> RiskMachine" where
  "transition_to target reason m =
     m\<lparr>rm_state := target, rm_reason := reason,
       rm_log := rm_log m @ [(risk_value (rm_state m), risk_value target, reason)]\<rparr>"

definition halt :: "string \<Rightarrow> RiskMachine \<Rightarrow> RiskMachine" where
  "halt reason m = transition_to HALTED reason m"

definition manual_review :: "string \<Rightarrow> RiskMachine \<Rightarrow> RiskMachine" where
  "manual_review reason m = transition_to MANUAL_REVIEW_REQUIRED reason m"

definition reducing_only :: "string \<Rightarrow> RiskMachine \<Rightarrow> RiskMachine" where
  "reducing_only reason m = transition_to REDUCING_ONLY reason m"

definition restrict :: "string \<Rightarrow> RiskMachine \<Rightarrow> RiskMachine" where
  "restrict reason m = transition_to DEGRADED reason m"

definition recovery_pending :: "string \<Rightarrow> RiskMachine \<Rightarrow> RiskMachine" where
  "recovery_pending reason m = transition_to RECOVERY_PENDING reason m"

definition recover_green :: "bool option \<Rightarrow> RecoveryChecks option \<Rightarrow> bool" where
  "recover_green checks_ok checks =
     (case checks of Some c \<Rightarrow> all_green c | None \<Rightarrow> (case checks_ok of Some b \<Rightarrow> b | None \<Rightarrow> False))"

definition recover ::
  "bool \<Rightarrow> bool option \<Rightarrow> RecoveryChecks option \<Rightarrow> RiskState option \<Rightarrow> RiskMachine \<Rightarrow> RiskMachine \<times> unit res"
  where
  "recover human_approved checks_ok checks target m =
     (if \<not> human_approved \<or> \<not> recover_green checks_ok checks
      then (recovery_pending ''recovery requires human approval and green checks'' m,
            Inl (PermissionError ''recovery requires human approval and green checks''))
      else (let safe_target = (case target of None \<Rightarrow> NORMAL | Some t \<Rightarrow> t)
            in if safe_target = ACTIVE \<and> rm_state m \<notin> {RECOVERY_PENDING, RESTRICTED, DEGRADED}
               then (m, Inl (PermissionError ''ACTIVE recovery requires RECOVERY_PENDING/DEGRADED staging''))
               else (transition_to safe_target [] m, Inr ())))"

definition allow_new_risk :: "RiskMachine \<Rightarrow> bool" where
  "allow_new_risk m \<longleftrightarrow> rm_state m \<in> {NORMAL, ACTIVE}"

definition allowed_actions :: "RiskMachine \<Rightarrow> string set" where
  "allowed_actions m =
     (if allow_new_risk m then {''OPEN'', ''REDUCE'', ''CANCEL'', ''CLOSE''}
      else if rm_state m = REDUCING_ONLY then {''REDUCE'', ''CANCEL'', ''CLOSE''}
      else if rm_state m \<in> {HALTED, MANUAL_REVIEW_REQUIRED} then {''CANCEL'', ''CLOSE'', ''RECOVER''}
      else {''REDUCE'', ''CANCEL'', ''CLOSE'', ''RECOVER''})"

section \<open>The recovery hysteresis gate\<close>

record RecoveryHysteresisGate =
  hg_min_healthy_seconds :: rat
  hg_min_consecutive_successes :: int
  hg_first_green_at :: "rat option"
  hg_last_seen_at :: "rat option"
  hg_consecutive_successes :: int

definition hg_reset :: "bool \<Rightarrow> RecoveryHysteresisGate \<Rightarrow> RecoveryHysteresisGate" where
  "hg_reset keep_clock g =
     (let g1 = g\<lparr>hg_first_green_at := None, hg_consecutive_successes := 0\<rparr>
      in if keep_clock then g1 else g1\<lparr>hg_last_seen_at := None\<rparr>)"

definition hg_observe ::
  "RecoveryChecks \<Rightarrow> rat \<Rightarrow> RecoveryHysteresisGate \<Rightarrow> RecoveryHysteresisGate \<times> bool res" where
  "hg_observe checks now g =
     (if (case hg_last_seen_at g of None \<Rightarrow> False | Some seen \<Rightarrow> now < seen)
      then (hg_reset False g, Inl (ValueError ''recovery clock moved backwards''))
      else
        let g1 = g\<lparr>hg_last_seen_at := Some now\<rparr>
        in if \<not> all_green checks then (hg_reset True g1, Inr False)
           else
             let first = (case hg_first_green_at g1 of None \<Rightarrow> now | Some t \<Rightarrow> t);
                 n = hg_consecutive_successes g1 + 1;
                 g2 = g1\<lparr>hg_first_green_at := Some first, hg_consecutive_successes := n\<rparr>
             in (g2, Inr (hg_min_consecutive_successes g2 \<le> n \<and>
                          hg_min_healthy_seconds g2 \<le> flt (now - first))))"

section \<open>The circuit breaker\<close>

record CircuitBreaker =
  cb_risk_state :: RiskState
  cb_reasons :: "string list"

definition fatal_checks :: "string list" where
  "fatal_checks =
     [''database_ok'', ''redis_ok'', ''exchange_ok'', ''clock_ok'', ''private_stream_ok'', ''data_fresh'',
      ''balance_consistent'', ''protective_orders_ok'', ''duplicate_order_ok'', ''spread_ok'',
      ''volatility_ok'', ''daily_loss_ok'', ''drawdown_ok'', ''order_rejection_ok'']"

definition cb_evaluate :: "(string, bool) dict \<Rightarrow> CircuitBreaker \<Rightarrow> CircuitBreaker \<times> RiskState" where
  "cb_evaluate checks c =
     (let failed = map fst (filter (\<lambda>(k, v). \<not> v) checks);
          s = (if list_ex (\<lambda>k. k \<in> set fatal_checks) failed then HALTED
               else if failed \<noteq> [] then RESTRICTED else NORMAL)
      in (c\<lparr>cb_risk_state := s, cb_reasons := failed\<rparr>, s))"

section \<open>Emergency stop and panic close\<close>

record EmergencyPolicy =
  ep_close_positions_on_stop :: bool
  ep_cancel_unprotected_entry_orders :: bool
  ep_preserve_protective_orders :: bool

record EmergencyResult =
  er_risk_state :: RiskState
  er_cancel_unprotected_entry_orders :: bool
  er_preserve_protective_orders :: bool
  er_close_positions :: bool
  er_reason :: string

definition emergency_stop :: "EmergencyPolicy \<Rightarrow> string \<Rightarrow> RiskMachine \<Rightarrow> RiskMachine \<times> EmergencyResult" where
  "emergency_stop policy reason m =
     (halt reason m,
      \<lparr>er_risk_state = HALTED,
       er_cancel_unprotected_entry_orders = ep_cancel_unprotected_entry_orders policy,
       er_preserve_protective_orders = ep_preserve_protective_orders policy,
       er_close_positions = ep_close_positions_on_stop policy,
       er_reason = reason\<rparr>)"

definition panic_close :: "bool \<Rightarrow> string \<Rightarrow> RiskMachine \<Rightarrow> RiskMachine \<times> EmergencyResult res" where
  "panic_close human_approved reason m =
     (if \<not> human_approved
      then (m, Inl (PermissionError ''panic close requires explicit human approval''))
      else (halt reason m,
            Inr \<lparr>er_risk_state = HALTED, er_cancel_unprotected_entry_orders = True,
                 er_preserve_protective_orders = True, er_close_positions = True, er_reason = reason\<rparr>))"

section \<open>Exchange outage\<close>

text \<open>
  The callbacks are code of the caller: each takes the risk machine as it is when it is called and
  returns the machine it leaves behind and its outcome.
\<close>

type_synonym 'a callback = "RiskMachine \<Rightarrow> RiskMachine \<times> 'a res"

record ExchangeFailureResult =
  ef_risk_state :: RiskState
  ef_protection_verified :: bool
  ef_alert_delivered :: bool
  ef_reconnect_attempted :: bool

definition py_bool :: "bool \<Rightarrow> string" where
  "py_bool b = (if b then ''True'' else ''False'')"

definition outage_message :: "string \<Rightarrow> bool \<Rightarrow> string" where
  "outage_message reason protection_verified =
     ''CRITICAL: '' @ reason @ ''; new risk halted; protection_verified='' @ py_bool protection_verified"

definition exchange_failure_handle ::
  "bool callback \<Rightarrow> (string \<Rightarrow> unit callback) \<Rightarrow> unit callback \<Rightarrow> string \<Rightarrow> RiskMachine
   \<Rightarrow> RiskMachine \<times> ExchangeFailureResult" where
  "exchange_failure_handle protection_check critical_alert reconnect reason m =
     (let m1 = halt reason m;
          (m2, p) = protection_check m1;
          protection_verified = (case p of Inl _ \<Rightarrow> False | Inr b \<Rightarrow> b);
          (m3, a) = critical_alert (outage_message reason protection_verified) m2;
          alert_delivered = is_ok a;
          (m4, _) = reconnect m3
      in (m4, \<lparr>ef_risk_state = rm_state m4, ef_protection_verified = protection_verified,
               ef_alert_delivered = alert_delivered, ef_reconnect_attempted = True\<rparr>))"

section \<open>Shutdown\<close>

record 'snap ShutdownReport =
  sr_steps :: "string list"
  sr_clean :: bool
  sr_outbox_flushed :: bool
  sr_snapshot :: 'snap

text \<open>One call after the other, stopping at the first exception.\<close>

definition and_then :: "'a callback \<Rightarrow> ('a \<Rightarrow> 'b callback) \<Rightarrow> 'b callback" where
  "and_then c k = (\<lambda>m. case c m of (m', Inl e) \<Rightarrow> (m', Inl e) | (m', Inr x) \<Rightarrow> k x m')"

definition shutdown_steps :: "bool \<Rightarrow> string list" where
  "shutdown_steps outbox_ok =
     [''NEW_ENTRIES_STOP'', ''SCHEDULER_STOP'', ''INFLIGHT_RECONCILED'', ''OPEN_RISK_SNAPSHOT'', ''DB_FLUSH'',
      (if outbox_ok then ''OUTBOX_FLUSH'' else ''OUTBOX_FLUSH_FAILED_BEST_EFFORT''), ''CLEAN_SHUTDOWN'']"

definition shutdown_finish :: "unit callback \<Rightarrow> 'snap \<Rightarrow> 'snap ShutdownReport callback" where
  "shutdown_finish outbox_flush snap m4 =
     (let (m5, r) = outbox_flush m4
      in (m5, Inr \<lparr>sr_steps = shutdown_steps (is_ok r), sr_clean = True,
                   sr_outbox_flushed = is_ok r, sr_snapshot = snap\<rparr>))"

definition graceful_shutdown ::
  "unit callback \<Rightarrow> unit callback \<Rightarrow> 'snap callback \<Rightarrow> unit callback \<Rightarrow> unit callback \<Rightarrow> RiskMachine
   \<Rightarrow> RiskMachine \<times> 'snap ShutdownReport res" where
  "graceful_shutdown stop_scheduler reconcile_inflight snapshot_open_risk db_flush outbox_flush m =
     and_then stop_scheduler (\<lambda>_. and_then reconcile_inflight (\<lambda>_. and_then snapshot_open_risk (\<lambda>snap.
     and_then db_flush (\<lambda>_. shutdown_finish outbox_flush snap))))
     (m\<lparr>rm_state := STOPPING\<rparr>)"

section \<open>Runs of the machine\<close>

datatype risk_op =
    Halt string
  | Manual_review string
  | Reducing_only string
  | Restrict string
  | Recovery_pending string
  | Recover bool "bool option" "RecoveryChecks option" "RiskState option"

fun risk_step :: "risk_op \<Rightarrow> RiskMachine \<Rightarrow> RiskMachine" where
  "risk_step (Halt r) m = halt r m"
| "risk_step (Manual_review r) m = manual_review r m"
| "risk_step (Reducing_only r) m = reducing_only r m"
| "risk_step (Restrict r) m = restrict r m"
| "risk_step (Recovery_pending r) m = recovery_pending r m"
| "risk_step (Recover h ok cs t) m = fst (recover h ok cs t m)"

fun approved_recovery :: "risk_op \<Rightarrow> bool" where
  "approved_recovery (Recover h ok cs t) = (h \<and> recover_green ok cs)"
| "approved_recovery _ = False"

fun log_path :: "string \<Rightarrow> (string \<times> string \<times> string) list \<Rightarrow> string \<Rightarrow> bool" where
  "log_path s [] t = (s = t)"
| "log_path s ((a, b, r) # l) t = (s = a \<and> log_path b l t)"

definition staged :: "string \<times> string \<times> string \<Rightarrow> bool" where
  "staged e = (case e of (a, b, r) \<Rightarrow> b = ''ACTIVE'' \<longrightarrow> a \<in> {''RECOVERY_PENDING'', ''RESTRICTED'', ''DEGRADED''})"

lemmas risk_ops [unfold_model] =
  halt_def manual_review_def reducing_only_def restrict_def recovery_pending_def transition_to_def

lemma log_path_snoc: "log_path s l t \<Longrightarrow> log_path s (l @ [(t, u, r)]) u"
  by (induction s l t rule: log_path.induct) auto

lemma transition_to_log:
  "log_path s (rm_log m) (risk_value (rm_state m)) \<Longrightarrow>
   log_path s (rm_log (transition_to t r m)) (risk_value (rm_state (transition_to t r m)))"
  by (simp add: transition_to_def log_path_snoc)

definition log_inv :: "string \<Rightarrow> RiskMachine \<Rightarrow> bool" where
  "log_inv s m \<longleftrightarrow> log_path s (rm_log m) (risk_value (rm_state m)) \<and> list_all staged (rm_log m)"

lemma log_inv_transition:
  "log_inv s m \<Longrightarrow> (t = ACTIVE \<Longrightarrow> rm_state m \<in> {RECOVERY_PENDING, RESTRICTED, DEGRADED}) \<Longrightarrow>
   log_inv s (transition_to t r m)"
  by (cases t; auto simp: log_inv_def transition_to_log) (auto simp: transition_to_def staged_def)

lemma log_inv_step: "log_inv s m \<Longrightarrow> log_inv s (risk_step op m)"
  by (cases op)
    (auto simp: halt_def manual_review_def reducing_only_def restrict_def recovery_pending_def recover_def
        Let_def intro!: log_inv_transition split: if_splits)

interpretation risk_log: preserved risk_step "log_inv s" for s
  by unfold_locales (rule log_inv_step)

interpretation risk_gate: gated risk_step "\<lambda>m. \<not> allow_new_risk m" approved_recovery
proof
  fix m op
  assume "\<not> allow_new_risk m" "\<not> approved_recovery op"
  then show "\<not> allow_new_risk (risk_step op m)"
    by (cases op) (auto simp: risk_ops allow_new_risk_def recover_def)
qed

text \<open>
  C4: a machine that blocks new risk comes to allow it, over any sequence of operations, only through
  a \<open>recover\<close> call with human approval and green checks, made while new risk was still blocked.
\<close>

theorem new_risk_needs_approved_recovery:
  assumes "\<not> allow_new_risk m" and "allow_new_risk (fold risk_step ops m)"
  shows "\<exists>pre h ok cs t post. ops = pre @ Recover h ok cs t # post \<and> h \<and> recover_green ok cs \<and>
           \<not> allow_new_risk (fold risk_step pre m)"
proof -
  obtain pre op post where "ops = pre @ op # post" "approved_recovery op" "\<not> allow_new_risk (fold risk_step pre m)"
    using risk_gate.unblocked_by_approved [of m ops] assms by auto
  then show ?thesis by (cases op) (simp_all, blast)
qed

theorem new_risk_needs_approved_recovery_witness:
  "\<exists>pre h ok cs t post.
     [Halt ''x'', Recover False None None None, Recover True (Some True) None (Some ACTIVE)]
       = pre @ Recover h ok cs t # post \<and> h \<and> recover_green ok cs \<and>
     \<not> allow_new_risk (fold risk_step pre \<lparr>rm_state = HALTED, rm_reason = [], rm_log = []\<rparr>)"
  by (rule new_risk_needs_approved_recovery)
    (simp_all add: allow_new_risk_def recover_def recover_green_def risk_ops)

text \<open>The transition log of a machine is always a path from its first state to its current one, and
  every entry into ACTIVE starts at RECOVERY\_PENDING, RESTRICTED or DEGRADED.
\<close>

theorem transition_log_sound:
  assumes "rm_log m = []"
  shows "log_path (risk_value (rm_state m)) (rm_log (fold risk_step ops m))
           (risk_value (rm_state (fold risk_step ops m)))
         \<and> list_all staged (rm_log (fold risk_step ops m))"
proof -
  have "log_inv (risk_value (rm_state m)) m" using assms by (simp add: log_inv_def)
  from risk_log.run_I [OF this] show ?thesis by (simp add: log_inv_def)
qed

theorem transition_log_sound_witness:
  "log_path ''NORMAL'' (rm_log (fold risk_step [Halt ''x'', Recover False None None None, Recover True (Some True) None (Some ACTIVE)]
       \<lparr>rm_state = NORMAL, rm_reason = [], rm_log = []\<rparr>)) ''ACTIVE''"
  using transition_log_sound [of "\<lparr>rm_state = NORMAL, rm_reason = [], rm_log = []\<rparr>"
      "[Halt ''x'', Recover False None None None, Recover True (Some True) None (Some ACTIVE)]"]
  by (simp add: recover_def recover_green_def risk_ops)

text \<open>A recovery attempt without approval, or without green checks, is not neutral: it raises, and it moves the
  machine to RECOVERY\_PENDING. On a halted machine this adds REDUCE to the allowed actions, and the
  next approved recovery may go straight to ACTIVE, which the halted machine itself refuses.
\<close>

theorem failed_recovery_relaxes_halt:
  assumes "rm_state m = HALTED" and "\<not> (h \<and> recover_green ok cs)"
  shows "is_ok (snd (recover h ok cs t m)) = False
         \<and> allowed_actions m \<subset> allowed_actions (fst (recover h ok cs t m))
         \<and> \<not> is_ok (snd (recover True (Some True) None (Some ACTIVE) m))
         \<and> is_ok (snd (recover True (Some True) None (Some ACTIVE) (fst (recover h ok cs t m))))"
proof -
  let ?m' = "recovery_pending ''recovery requires human approval and green checks'' m"
  have r: "recover h ok cs t m =
      (?m', Inl (PermissionError ''recovery requires human approval and green checks''))"
    using assms(2) by (auto simp: recover_def)
  have s: "rm_state ?m' = RECOVERY_PENDING" by (simp add: risk_ops)
  have a: "allowed_actions m = {''CANCEL'', ''CLOSE'', ''RECOVER''}"
    "allowed_actions ?m' = insert ''REDUCE'' {''CANCEL'', ''CLOSE'', ''RECOVER''}"
    using assms(1) s by (simp_all add: allowed_actions_def allow_new_risk_def)
  have "allowed_actions m \<subset> allowed_actions ?m'" unfolding a by (rule psubset_insert_iff [THEN iffD2]) simp
  moreover have "\<not> is_ok (snd (recover True (Some True) None (Some ACTIVE) m))"
    "is_ok (snd (recover True (Some True) None (Some ACTIVE) ?m'))"
    using assms(1) s by (simp_all add: recover_def recover_green_def)
  ultimately show ?thesis by (simp add: r)
qed

theorem failed_recovery_relaxes_halt_witness:
  "allowed_actions \<lparr>rm_state = HALTED, rm_reason = [], rm_log = []\<rparr>
     \<subset> allowed_actions (fst (recover False (Some True) None None \<lparr>rm_state = HALTED, rm_reason = [], rm_log = []\<rparr>))"
  using failed_recovery_relaxes_halt [of "\<lparr>rm_state = HALTED, rm_reason = [], rm_log = []\<rparr>" False "Some True" None None]
  by simp

section \<open>Sustained recovery\<close>

fun hg_run :: "(RecoveryChecks \<times> rat) list \<Rightarrow> RecoveryHysteresisGate \<Rightarrow> RecoveryHysteresisGate" where
  "hg_run [] g = g"
| "hg_run ((c, now) # obs) g = hg_run obs (fst (hg_observe c now g))"

definition hg_new :: "rat \<Rightarrow> int \<Rightarrow> RecoveryHysteresisGate" where
  "hg_new min_healthy min_successes =
     \<lparr>hg_min_healthy_seconds = min_healthy, hg_min_consecutive_successes = min_successes,
      hg_first_green_at = None, hg_last_seen_at = None, hg_consecutive_successes = 0\<rparr>"

text \<open>The gate remembers a run of green observations at the end of what it has seen.\<close>

definition green_run :: "(RecoveryChecks \<times> rat) list \<Rightarrow> bool" where
  "green_run obs \<longleftrightarrow> list_all (\<lambda>(c, t). all_green c) obs \<and> sorted (map snd obs)"

definition hg_inv :: "(RecoveryChecks \<times> rat) list \<Rightarrow> RecoveryHysteresisGate \<Rightarrow> bool" where
  "hg_inv obs g \<longleftrightarrow>
     (\<exists>pre post. obs = pre @ post \<and> green_run post \<and> hg_consecutive_successes g = int (length post) \<and>
        (if post = [] then hg_first_green_at g = None
         else hg_first_green_at g = Some (snd (hd post)) \<and> hg_last_seen_at g = Some (snd (last post))))"

lemma hg_run_append: "hg_run (xs @ ys) g = hg_run ys (hg_run xs g)"
  by (induction xs g rule: hg_run.induct) auto

lemma green_run_snoc:
  "green_run (xs @ [(c, t)]) \<longleftrightarrow> green_run xs \<and> all_green c \<and> (xs \<noteq> [] \<longrightarrow> snd (last xs) \<le> t)"
  by (cases "xs = []") (auto simp: green_run_def sorted_snoc last_map)

lemma hg_inv_observe:
  assumes "hg_inv obs g" shows "hg_inv (obs @ [(c, now)]) (fst (hg_observe c now g))"
proof -
  obtain pre post where o: "obs = pre @ post" "green_run post" "hg_consecutive_successes g = int (length post)"
    and f: "if post = [] then hg_first_green_at g = None
         else hg_first_green_at g = Some (snd (hd post)) \<and> hg_last_seen_at g = Some (snd (last post))"
    using assms by (auto simp: hg_inv_def)
  let ?g = "fst (hg_observe c now g)"
  show ?thesis
  proof (cases "(case hg_last_seen_at g of None \<Rightarrow> False | Some seen \<Rightarrow> now < seen) \<or> \<not> all_green c")
    case True
    then have "hg_consecutive_successes ?g = 0" "hg_first_green_at ?g = None"
      by (auto simp: hg_observe_def hg_reset_def Let_def)
    then show ?thesis unfolding hg_inv_def
      by (intro exI [of _ "obs @ [(c, now)]"] exI [of _ "[]"]) (simp add: green_run_def)
  next
    case False
    then have "green_run (post @ [(c, now)])" using o f by (auto simp: green_run_snoc split: if_splits)
    moreover have "hg_consecutive_successes ?g = int (length (post @ [(c, now)]))"
      "hg_first_green_at ?g = Some (snd (hd (post @ [(c, now)])))" "hg_last_seen_at ?g = Some now"
      using False o f by (auto simp: hg_observe_def Let_def hd_append split: if_splits)
    ultimately show ?thesis unfolding hg_inv_def using o
      by (intro exI [of _ pre] exI [of _ "post @ [(c, now)]"]) simp
  qed
qed

lemma hg_inv_run: "hg_inv obs0 g \<Longrightarrow> hg_inv (obs0 @ obs) (hg_run obs g)"
proof (induction obs arbitrary: obs0 g)
  case (Cons p obs)
  obtain c now where "p = (c, now)" by (cases p)
  then show ?case using Cons.IH [of "obs0 @ [p]"] hg_inv_observe Cons.prems by simp
qed simp

lemma hg_run_limits:
  "hg_min_healthy_seconds (hg_run obs g) = hg_min_healthy_seconds g"
  "hg_min_consecutive_successes (hg_run obs g) = hg_min_consecutive_successes g"
  by (induction obs g rule: hg_run.induct) (auto simp: hg_observe_def hg_reset_def Let_def split: option.splits)

text \<open>The gate opens (\<open>observe\<close> returns true) only when the observations end in a run of green ones
  with non-decreasing clock, at least as many as required, whose first lies at least the
  required time back; the difference of the two clock readings is a float subtraction.
\<close>

theorem hysteresis_gate_sound:
  assumes "snd (hg_observe c now (hg_run obs (hg_new min_healthy min_successes))) = Inr True"
  shows "\<exists>pre post. obs @ [(c, now)] = pre @ post \<and> post \<noteq> [] \<and> green_run post \<and>
           min_successes \<le> int (length post) \<and> min_healthy \<le> flt (now - snd (hd post))"
proof -
  let ?g = "hg_run obs (hg_new min_healthy min_successes)"
  define g' where "g' = fst (hg_observe c now ?g)"
  have "hg_inv [] (hg_new min_healthy min_successes)"
    by (simp add: hg_inv_def hg_new_def green_run_def)
  from hg_inv_run [OF this, of obs] have "hg_inv (obs @ [(c, now)]) g'"
    using hg_inv_observe [of obs ?g c now] by (simp add: g'_def)
  moreover have l: "min_successes \<le> hg_consecutive_successes g'"
    and t: "\<exists>f. hg_first_green_at g' = Some f \<and> min_healthy \<le> flt (now - f)"
    using assms hg_run_limits [of obs "hg_new min_healthy min_successes"]
    by (auto simp: g'_def hg_observe_def hg_new_def Let_def split: if_splits)
  ultimately show ?thesis unfolding hg_inv_def by (metis option.distinct(1) option.inject)
qed

definition green_checks :: RecoveryChecks where
  "green_checks =
     \<lparr>rc_data_healthy = True, rc_exchange_healthy = True, rc_private_stream_healthy = True,
      rc_reconciliation_ok = True, rc_no_orphan_orders = True, rc_protective_orders_ok = True,
      rc_risk_limits_ok = True, rc_clock_ok = True, rc_strategy_health_ok = True\<rparr>"

theorem hysteresis_gate_sound_witness:
  "\<exists>pre post. [(green_checks, 0), (green_checks, 10)] @ [(green_checks, 31)] = pre @ post \<and> post \<noteq> [] \<and>
     green_run post \<and> 3 \<le> int (length post) \<and> 30 \<le> flt (31 - snd (hd post))"
proof (rule hysteresis_gate_sound)
  show "snd (hg_observe green_checks 31 (hg_run [(green_checks, 0), (green_checks, 10)] (hg_new 30 3))) = Inr True"
    by code_simp
qed

section \<open>Controllers fail closed\<close>

definition keeps_blocked :: "'a callback \<Rightarrow> bool" where
  "keeps_blocked cb \<longleftrightarrow> (\<forall>m. \<not> allow_new_risk m \<longrightarrow> \<not> allow_new_risk (fst (cb m)))"

lemma keeps_blockedD: "keeps_blocked cb \<Longrightarrow> \<not> allow_new_risk m \<Longrightarrow> cb m = (m', r) \<Longrightarrow> \<not> allow_new_risk m'"
  by (metis fst_conv keeps_blocked_def)

lemma keeps_blocked_app: "keeps_blocked cb \<Longrightarrow> \<not> allow_new_risk m \<Longrightarrow> \<not> allow_new_risk (fst (cb m))"
  by (simp add: keeps_blocked_def)

lemma halt_blocks [simp]: "\<not> allow_new_risk (halt r m)"
  by (simp add: allow_new_risk_def risk_ops)

text \<open>Whatever the outcome of the callbacks, as long as none of them recovers the machine, an exchange outage
  leaves new risk blocked, protection is reported as verified only when the check returned true on the halted
  machine, and the alert as delivered only when the alert callback returned.
\<close>

theorem exchange_failure_fails_closed:
  assumes "keeps_blocked protection_check" "\<And>msg. keeps_blocked (critical_alert msg)" "keeps_blocked reconnect"
    and r: "exchange_failure_handle protection_check critical_alert reconnect reason m = (m', res)"
  shows "\<not> allow_new_risk m' \<and> ef_risk_state res = rm_state m' \<and>
         (ef_protection_verified res \<longleftrightarrow> snd (protection_check (halt reason m)) = Inr True) \<and>
         (ef_alert_delivered res \<longleftrightarrow>
            is_ok (snd (critical_alert (outage_message reason (ef_protection_verified res)) (fst (protection_check (halt reason m))))))"
proof -
  obtain m2 p where p: "protection_check (halt reason m) = (m2, p)" by fastforce
  let ?v = "case p of Inl _ \<Rightarrow> False | Inr b \<Rightarrow> b"
  let ?msg = "outage_message reason ?v"
  obtain m3 a where a: "critical_alert ?msg m2 = (m3, a)" by fastforce
  obtain m4 q where q: "reconnect m3 = (m4, q)" by fastforce
  have "\<not> allow_new_risk m2" using keeps_blockedD [OF assms(1) halt_blocks p] .
  then have "\<not> allow_new_risk m3" using keeps_blockedD [OF assms(2) _ a] by blast
  then have "\<not> allow_new_risk m4" using keeps_blockedD [OF assms(3) _ q] by blast
  moreover have "m' = m4" "res = \<lparr>ef_risk_state = rm_state m4, ef_protection_verified = ?v,
      ef_alert_delivered = is_ok a, ef_reconnect_attempted = True\<rparr>"
    using r by (auto simp: exchange_failure_handle_def p a q Let_def)
  ultimately show ?thesis using a by (auto simp: p split: sum.splits)
qed

theorem exchange_failure_fails_closed_witness:
  "\<not> allow_new_risk (fst (exchange_failure_handle (\<lambda>m. (m, Inl TimeoutError)) (\<lambda>msg m. (restrict msg m, Inr ()))
      (\<lambda>m. (m, Inl TimeoutError)) ''EXCHANGE_UNAVAILABLE'' \<lparr>rm_state = NORMAL, rm_reason = [], rm_log = []\<rparr>))"
proof -
  have "keeps_blocked (\<lambda>m. (restrict msg m, Inr ()))" for msg
    by (simp add: keeps_blocked_def risk_ops allow_new_risk_def)
  moreover have "keeps_blocked (\<lambda>m. (m, Inl TimeoutError :: bool res))" "keeps_blocked (\<lambda>m. (m, Inl TimeoutError :: unit res))"
    by (simp_all add: keeps_blocked_def)
  ultimately show ?thesis
    using exchange_failure_fails_closed [of "\<lambda>m. (m, Inl TimeoutError)" "\<lambda>msg m. (restrict msg m, Inr ())"
        "\<lambda>m. (m, Inl TimeoutError)" "''EXCHANGE_UNAVAILABLE''" "\<lparr>rm_state = NORMAL, rm_reason = [], rm_log = []\<rparr>"]
    by (metis prod.collapse)
qed

lemma keeps_blocked_and_then:
  "keeps_blocked c \<Longrightarrow> (\<And>x. keeps_blocked (k x)) \<Longrightarrow> keeps_blocked (and_then c k)"
  unfolding keeps_blocked_def and_then_def by (auto split: prod.splits sum.splits)

lemma and_then_Inr: "snd (and_then c k m) = Inr y \<Longrightarrow> \<exists>x m'. c m = (m', Inr x) \<and> snd (k x m') = Inr y"
  by (auto simp: and_then_def split: prod.splits sum.splits)

lemma fst_shutdown_finish [simp]: "fst (shutdown_finish c5 snap x) = fst (c5 x)"
  by (cases "c5 x") (simp add: shutdown_finish_def)

lemma shutdown_blocked:
  assumes "keeps_blocked c1" "keeps_blocked c2" "keeps_blocked c3" "keeps_blocked c4" "keeps_blocked c5"
  shows "\<not> allow_new_risk (fst (graceful_shutdown c1 c2 c3 c4 c5 m))"
proof -
  have s: "\<not> allow_new_risk (m\<lparr>rm_state := STOPPING\<rparr>)" by (simp add: allow_new_risk_def)
  have k5: "keeps_blocked (shutdown_finish c5 snap)" for snap
    using assms(5) by (simp add: keeps_blocked_def)
  have "keeps_blocked (and_then c1 (\<lambda>_. and_then c2 (\<lambda>_. and_then c3 (\<lambda>snap.
      and_then c4 (\<lambda>_. shutdown_finish c5 snap)))))"
    by (rule keeps_blocked_and_then [OF assms(1)], rule keeps_blocked_and_then [OF assms(2)],
        rule keeps_blocked_and_then [OF assms(3)], rule keeps_blocked_and_then [OF assms(4)], rule k5)
  with s show ?thesis unfolding graceful_shutdown_def keeps_blocked_def by blast
qed

lemma shutdown_report:
  assumes "snd (graceful_shutdown c1 c2 c3 c4 c5 m) = Inr rep"
  obtains m1 m2 m3 m4 u1 u2 u4 where "c1 (m\<lparr>rm_state := STOPPING\<rparr>) = (m1, Inr u1)" "c2 m1 = (m2, Inr u2)"
      "c3 m2 = (m3, Inr (sr_snapshot rep))" "c4 m3 = (m4, Inr u4)"
      "sr_outbox_flushed rep = is_ok (snd (c5 m4))" "sr_steps rep = shutdown_steps (is_ok (snd (c5 m4)))"
proof -
  from assms obtain m1 m2 m3 m4 u1 u2 u4 snap where c: "c1 (m\<lparr>rm_state := STOPPING\<rparr>) = (m1, Inr u1)" "c2 m1 = (m2, Inr u2)"
      "c3 m2 = (m3, Inr snap)" "c4 m3 = (m4, Inr u4)"
    and r: "snd (shutdown_finish c5 snap m4) = Inr rep"
    unfolding graceful_shutdown_def by - ((drule and_then_Inr, elim exE conjE)+, rule that)
  from r have "rep = \<lparr>sr_steps = shutdown_steps (is_ok (snd (c5 m4))), sr_clean = True,
              sr_outbox_flushed = is_ok (snd (c5 m4)), sr_snapshot = snap\<rparr>"
    by (cases "c5 m4") (simp add: shutdown_finish_def)
  then have "snap = sr_snapshot rep" "sr_outbox_flushed rep = is_ok (snd (c5 m4))"
      "sr_steps rep = shutdown_steps (is_ok (snd (c5 m4)))" by simp_all
  with c show thesis by (intro that) auto
qed

text \<open>The shutdown sets STOPPING before any callback runs, so, as long as no callback recovers the machine, new risk is
  blocked however it ends; a report is produced exactly when the scheduler stop, the in-flight reconciliation, the
  snapshot and the database flush returned, and it reports the outbox as flushed exactly when the flush returned.
\<close>

theorem shutdown_fails_closed:
  assumes "keeps_blocked c1" "keeps_blocked c2" "keeps_blocked c3" "keeps_blocked c4" "keeps_blocked c5"
  shows "\<not> allow_new_risk (fst (graceful_shutdown c1 c2 c3 c4 c5 m)) \<and>
    (\<forall>rep. snd (graceful_shutdown c1 c2 c3 c4 c5 m) = Inr rep \<longrightarrow>
       (\<exists>m1 m2 m3 m4 u1 u2 u4. c1 (m\<lparr>rm_state := STOPPING\<rparr>) = (m1, Inr u1) \<and> c2 m1 = (m2, Inr u2) \<and>
          c3 m2 = (m3, Inr (sr_snapshot rep)) \<and> c4 m3 = (m4, Inr u4) \<and>
          (sr_outbox_flushed rep \<longleftrightarrow> is_ok (snd (c5 m4))) \<and>
          sr_steps rep = shutdown_steps (is_ok (snd (c5 m4)))))"
proof (intro conjI allI impI)
  show "\<not> allow_new_risk (fst (graceful_shutdown c1 c2 c3 c4 c5 m))" using assms by (rule shutdown_blocked)
next
  fix rep assume "snd (graceful_shutdown c1 c2 c3 c4 c5 m) = Inr rep"
  then show "\<exists>m1 m2 m3 m4 u1 u2 u4. c1 (m\<lparr>rm_state := STOPPING\<rparr>) = (m1, Inr u1) \<and> c2 m1 = (m2, Inr u2) \<and>
          c3 m2 = (m3, Inr (sr_snapshot rep)) \<and> c4 m3 = (m4, Inr u4) \<and>
          (sr_outbox_flushed rep \<longleftrightarrow> is_ok (snd (c5 m4))) \<and>
          sr_steps rep = shutdown_steps (is_ok (snd (c5 m4)))"
    by (rule shutdown_report) (intro exI conjI, assumption+)
qed

theorem shutdown_fails_closed_witness:
  "\<not> allow_new_risk (fst (graceful_shutdown (\<lambda>m. (m, Inr ())) (\<lambda>m. (m, Inr ())) (\<lambda>m. (m, Inr ''snap''))
      (\<lambda>m. (m, Inl TimeoutError)) (\<lambda>m. (m, Inr ())) \<lparr>rm_state = ACTIVE, rm_reason = [], rm_log = []\<rparr>))"
  using shutdown_fails_closed [of "\<lambda>m. (m, Inr ())" "\<lambda>m. (m, Inr ())" "\<lambda>m. (m, Inr ''snap'')" "\<lambda>m. (m, Inl TimeoutError)"
      "\<lambda>m. (m, Inr ())" "\<lparr>rm_state = ACTIVE, rm_reason = [], rm_log = []\<rparr>"]
  by (simp add: keeps_blocked_def)

lemma cb_evaluate_spec:
  assumes "wf_dict checks"
  shows "snd (cb_evaluate checks c) = NORMAL \<longleftrightarrow> (\<forall>k. dget checks k \<noteq> Some False)"
    and "snd (cb_evaluate checks c) = HALTED \<longleftrightarrow> (\<exists>k \<in> set fatal_checks. dget checks k = Some False)"
  using wf_dict_mem [OF assms]
  by (auto simp: cb_evaluate_def Let_def list_ex_iff filter_empty_conv)

end
