(* ===== verification/Order_State.thy ===== *)
theory Order_State
  imports Risk_State
begin

text \<open>
  The life of an order: the state machine of \<open>backend/app/execution/state.py\<close>, the resolution of cancel/replace
  races and of ambiguous submissions (\<open>execution/race_recovery.py\<close>), stop-order coverage of a
  position (\<open>execution/protection.py\<close>, \<open>execution/protective_state.py\<close>) and conflicts
  between protective orders (\<open>execution/order_conflicts.py\<close>).
\<close>

section \<open>Transitions\<close>

fun allowed_from :: "OrderState \<Rightarrow> OrderState set" where
  "allowed_from CREATED = {SUBMITTED, REJECTED, FAILED}"
| "allowed_from SUBMITTED = {ACKNOWLEDGED, PARTIALLY_FILLED, FILLED, REJECTED, FAILED, UNKNOWN}"
| "allowed_from ACKNOWLEDGED = {PARTIALLY_FILLED, FILLED, CANCEL_PENDING, CANCELLED, REJECTED, UNKNOWN}"
| "allowed_from PARTIALLY_FILLED = {PARTIALLY_FILLED, FILLED, CANCEL_PENDING, CANCELLED, UNKNOWN}"
| "allowed_from CANCEL_PENDING = {CANCELLED, PARTIALLY_FILLED, FILLED, UNKNOWN}"
| "allowed_from UNKNOWN = {ACKNOWLEDGED, PARTIALLY_FILLED, FILLED, CANCELLED, REJECTED, FAILED}"
| "allowed_from _ = {}"

definition transition :: "OrderState \<Rightarrow> OrderState \<Rightarrow> OrderState res" where
  "transition current new =
     (if current = new then Inr new
      else if new \<notin> allowed_from current
      then Inl (ValueError (''illegal order transition '' @ order_value current @ ''->'' @ order_value new))
      else Inr new)"

section \<open>Cancel/replace races and ambiguous submissions\<close>

definition TERMINAL :: "string list" where
  "TERMINAL = [''FILLED'', ''CANCELLED'', ''CANCELED'', ''REJECTED'', ''EXPIRED'']"

definition OPEN_STATUS :: "string list" where
  "OPEN_STATUS = [''NEW'', ''ACKNOWLEDGED'', ''PARTIALLY_FILLED'', ''PENDING_CANCEL'', ''SUBMITTED'']"

text \<open>\<open>(x or default).upper()\<close> for an optional string: None and the empty string give the default.\<close>

definition or_upper :: "string option \<Rightarrow> string \<Rightarrow> string" where
  "or_upper x d = upper (case x of None \<Rightarrow> d | Some s \<Rightarrow> if s = [] then d else s)"

definition truthy :: "string option \<Rightarrow> bool" where
  "truthy x \<longleftrightarrow> (case x of None \<Rightarrow> False | Some s \<Rightarrow> s \<noteq> [])"

record ReplaceRaceEvidence =
  rr_old_order_id :: string
  rr_replacement_order_id :: "string option"
  rr_old_exchange_status :: "string option"
  rr_replacement_exchange_status :: "string option"
  rr_old_cumulative_qty :: rat
  rr_local_expected_old_qty :: rat
  rr_ack_lost :: bool

record ReplaceRaceDecision =
  rd_safe :: bool
  rd_action :: string
  rd_reasons :: "string list"
  rd_halt_new_risk :: bool

definition resolve_replace_race :: "ReplaceRaceEvidence \<Rightarrow> ReplaceRaceDecision" where
  "resolve_replace_race e =
     (let old = or_upper (rr_old_exchange_status e) ''UNKNOWN'';
          new = or_upper (rr_replacement_exchange_status e) ''UNKNOWN'';
          reasons =
            flag (rr_ack_lost e) ''ACK_LOST_DURING_DISCONNECT'' @
            flag (old = ''UNKNOWN'') ''OLD_ORDER_OUTCOME_UNKNOWN'' @
            flag (truthy (rr_replacement_order_id e) \<and> new = ''UNKNOWN'') ''REPLACEMENT_OUTCOME_UNKNOWN'' @
            flag (rr_old_cumulative_qty e > rr_local_expected_old_qty e) ''OLD_ORDER_FILLED_DURING_REPLACE'' @
            flag (old \<in> set OPEN_STATUS \<and> truthy (rr_replacement_order_id e) \<and> new \<in> set OPEN_STATUS)
              ''OVERLAPPING_LIVE_ORDERS''
      in if reasons \<noteq> []
         then \<lparr>rd_safe = False, rd_action = ''RECONCILE_OPEN_ORDERS_AND_FILLS'', rd_reasons = reasons,
               rd_halt_new_risk = True\<rparr>
         else if old \<notin> set TERMINAL
         then \<lparr>rd_safe = False, rd_action = ''QUERY_ORDER_HISTORY'', rd_reasons = [''OLD_ORDER_NOT_TERMINAL''],
               rd_halt_new_risk = True\<rparr>
         else \<lparr>rd_safe = True, rd_action = ''APPLY_EXCHANGE_TRUTH'', rd_reasons = [], rd_halt_new_risk = False\<rparr>)"

record UnknownOutcomeEvidence =
  uo_client_order_id :: string
  uo_user_stream_status :: "string option"
  uo_open_order_status :: "string option"
  uo_fill_quantity :: rat
  uo_requested_quantity :: rat

record UnknownOutcomeDecision =
  ud_resolved_status :: string
  ud_action :: string
  ud_manual_review :: bool

definition resolve_unknown_outcome :: "UnknownOutcomeEvidence \<Rightarrow> UnknownOutcomeDecision" where
  "resolve_unknown_outcome e =
     (let user = or_upper (uo_user_stream_status e) [];
          opened = or_upper (uo_open_order_status e) [];
          fill = uo_fill_quantity e; requested = uo_requested_quantity e;
          mk = (\<lambda>s a r. \<lparr>ud_resolved_status = s, ud_action = a, ud_manual_review = r\<rparr>)
      in if requested \<le> 0 \<or> fill < 0 \<or> fill > requested
         then mk ''UNKNOWN'' ''MANUAL_REVIEW_INVALID_FILL_EVIDENCE'' True
         else if fill = requested then mk ''FILLED'' ''APPLY_FILL_TRUTH'' False
         else if fill > 0 then mk ''PARTIALLY_FILLED'' ''APPLY_FILL_AND_RECONCILE_REMAINDER'' False
         else (case find (\<lambda>status. status \<in> set TERMINAL \<union> set OPEN_STATUS) [user, opened] of
                 Some status \<Rightarrow> mk status ''APPLY_EXCHANGE_TRUTH'' False
               | None \<Rightarrow> mk ''UNKNOWN'' ''QUERY_USER_STREAM_OPEN_ORDERS_AND_FILLS'' True))"

section \<open>Protective coverage\<close>

definition PROTECTIVE_TYPES :: "string list" where
  "PROTECTIVE_TYPES = [''STOP_LOSS'', ''STOP_LOSS_LIMIT'']"

definition covers :: "string \<Rightarrow> OrderRecord \<Rightarrow> bool" where
  "covers opposite o1 \<longleftrightarrow>
     or_side o1 = opposite \<and> or_order_type o1 \<in> set PROTECTIVE_TYPES \<and>
     or_state o1 \<in> {ACKNOWLEDGED, PARTIALLY_FILLED} \<and> or_stop_price o1 \<noteq> None"

definition protection_coverage :: "rat \<Rightarrow> string \<Rightarrow> OrderRecord list \<Rightarrow> rat" where
  "protection_coverage position_qty position_side orders =
     (let opposite = (if position_side = ''LONG'' then ''SELL'' else ''BUY'')
      in dsum (map (\<lambda>o1. dec (or_quantity o1 - or_filled_quantity o1)) (filter (covers opposite) orders)))"

definition ensure_protected :: "rat \<Rightarrow> string \<Rightarrow> OrderRecord list \<Rightarrow> bool res" where
  "ensure_protected position_qty position_side orders =
     (if protection_coverage position_qty position_side orders < dec \<bar>position_qty\<bar>
      then Inl (RuntimeError ''UNPROTECTED_POSITION'') else Inr True)"

datatype ProtectionState = FLAT | PENDING_ACK | PROTECTED | UNPROTECTED_POSITION

record ProtectionAssessment =
  pa_state :: ProtectionState
  pa_required :: rat
  pa_covered :: rat
  pa_local_synthetic_only :: bool
  pa_allow_new_risk :: bool
  pa_required_action :: string

definition assess_protection ::
  "rat \<Rightarrow> string \<Rightarrow> OrderRecord list \<Rightarrow> bool \<Rightarrow> bool \<Rightarrow> bool \<Rightarrow> ProtectionAssessment" where
  "assess_protection position_qty position_side orders protective_submit_pending local_synthetic_stop panic =
     (let required = dec \<bar>position_qty\<bar>;
          mk = (\<lambda>s c l a x. \<lparr>pa_state = s, pa_required = required, pa_covered = c, pa_local_synthetic_only = l,
                             pa_allow_new_risk = a, pa_required_action = x\<rparr>)
      in if required = 0 then mk FLAT 0 False True ''NONE''
         else
           let covered = protection_coverage required position_side orders
           in if required \<le> covered then mk PROTECTED covered False True ''NONE''
              else if protective_submit_pending
              then mk PENDING_ACK covered local_synthetic_stop False ''WAIT_FOR_EXCHANGE_ACK''
              else mk UNPROTECTED_POSITION covered local_synthetic_stop False
                     (if panic then ''PANIC_CLOSE'' else ''REDUCING_ONLY_AND_RETRY_PROTECTION''))"

text \<open>The supervisor: the retry and the alert are callbacks of the caller; an exception of theirs propagates.\<close>

record ProtectionAlert =
  al_synthetic_only :: bool
  al_action :: string

definition protective_enforce ::
  "unit callback \<Rightarrow> (ProtectionAlert \<Rightarrow> unit callback) \<Rightarrow> rat \<Rightarrow> string \<Rightarrow> OrderRecord list \<Rightarrow> bool \<Rightarrow> bool
   \<Rightarrow> ProtectionAssessment callback" where
  "protective_enforce retry_submit alert position_qty position_side orders local_synthetic_stop panic m =
     (let a = assess_protection position_qty position_side orders False local_synthetic_stop panic;
          the_alert = alert \<lparr>al_synthetic_only = pa_local_synthetic_only a, al_action = pa_required_action a\<rparr>
      in if pa_state a = UNPROTECTED_POSITION
         then (if panic
               then and_then the_alert (\<lambda>_ m'. (m', Inr a)) (halt ''UNPROTECTED_POSITION_PANIC_CLOSE'' m)
               else and_then retry_submit (\<lambda>_. and_then the_alert (\<lambda>_ m'. (m', Inr a)))
                      (restrict ''UNPROTECTED_POSITION'' m))
         else (m, Inr a))"

section \<open>Conflicting protective orders\<close>

record ProtectiveOrderEvidence =
  pe_position_qty :: rat
  pe_stop_live_qty :: rat
  pe_take_profit_live_qty :: rat
  pe_replacement_generation :: int
  pe_current_generation :: int
  pe_reduce_only :: bool
  pe_market_type :: string
  pe_cancel_replace_in_flight :: bool

record ConflictDecision =
  cd_safe :: bool
  cd_halt_new_risk :: bool
  cd_action :: string
  cd_reasons :: "string list"

definition evaluate_protective_conflicts :: "ProtectiveOrderEvidence \<Rightarrow> ConflictDecision" where
  "evaluate_protective_conflicts e =
     (let q = dec \<bar>pe_position_qty e\<bar>; stop = dec \<bar>pe_stop_live_qty e\<bar>; tp = dec \<bar>pe_take_profit_live_qty e\<bar>;
          reasons =
            flag (pe_replacement_generation e \<noteq> pe_current_generation e) ''STALE_REPLACE_ORDER'' @
            flag (stop > 0 \<and> tp > 0 \<and> dec (stop + tp) > q) ''OVERLAPPING_STOP_TP_EXCEEDS_POSITION'' @
            flag (pe_cancel_replace_in_flight e) ''CANCEL_REPLACE_RACE_REQUIRES_RECONCILIATION'' @
            flag (upper (pe_market_type e) \<in> {''FUTURES'', ''PERPETUAL'', ''MARGIN''} \<and> q > 0 \<and> \<not> pe_reduce_only e)
              ''REDUCE_ONLY_REQUIRED_FOR_PROTECTIVE_EXIT'' @
            flag (q = 0 \<and> (stop > 0 \<or> tp > 0)) ''ORPHAN_PROTECTIVE_ORDER''
      in if reasons \<noteq> []
         then \<lparr>cd_safe = False, cd_halt_new_risk = True, cd_action = ''RECONCILE_AND_CANCEL_UNSAFE_ORDERS'',
               cd_reasons = reasons\<rparr>
         else \<lparr>cd_safe = True, cd_halt_new_risk = False, cd_action = ''KEEP_PROTECTIVE_ORDERS'', cd_reasons = []\<rparr>)"

section \<open>Paths of the order state machine\<close>

inductive order_path :: "OrderState \<Rightarrow> OrderState list \<Rightarrow> OrderState \<Rightarrow> bool" where
  here: "order_path s [] s"
| step: "transition s t = Inr t' \<Longrightarrow> order_path t' ts u \<Longrightarrow> order_path s (t # ts) u"

inductive_simps order_path_simps: "order_path s [] u" "order_path s (t # ts) u"

definition final_states :: "OrderState set" where
  "final_states = {FILLED, CANCELLED, REJECTED, FAILED}"

text \<open>The other states that an order can still reach while it does not become UNKNOWN.\<close>

fun later :: "OrderState \<Rightarrow> OrderState set" where
  "later CREATED = {SUBMITTED, ACKNOWLEDGED, PARTIALLY_FILLED, CANCEL_PENDING, FILLED, CANCELLED, REJECTED, FAILED}"
| "later SUBMITTED = {ACKNOWLEDGED, PARTIALLY_FILLED, CANCEL_PENDING, FILLED, CANCELLED, REJECTED, FAILED}"
| "later ACKNOWLEDGED = {PARTIALLY_FILLED, CANCEL_PENDING, FILLED, CANCELLED, REJECTED}"
| "later PARTIALLY_FILLED = {CANCEL_PENDING, FILLED, CANCELLED}"
| "later CANCEL_PENDING = {PARTIALLY_FILLED, FILLED, CANCELLED}"
| "later _ = {}"

lemma transition_Inr: "transition s t = Inr t' \<longleftrightarrow> t' = t \<and> (s = t \<or> t \<in> allowed_from s)"
  by (auto simp: transition_def)

lemma transition_final: "s \<in> final_states \<Longrightarrow> allowed_from s = {}"
  by (auto simp: final_states_def)

lemma path_final: "order_path s ts u \<Longrightarrow> s \<in> final_states \<Longrightarrow> u = s"
  by (induction rule: order_path.induct) (auto simp: transition_Inr transition_final)

lemma path_not_first: "order_path s ts u \<Longrightarrow> u = s \<or> u \<noteq> CREATED \<and> (u = SUBMITTED \<longrightarrow> s = CREATED)"
proof (induction rule: order_path.induct)
  case (step s t t' ts u)
  then show ?case by (cases s) (auto simp: transition_Inr)
qed simp

lemma allowed_later: "s \<noteq> UNKNOWN \<Longrightarrow> t \<noteq> UNKNOWN \<Longrightarrow> t \<in> allowed_from s \<Longrightarrow> insert t (later t) \<subseteq> insert s (later s)"
  by (cases s) auto

lemma path_later: "order_path s ts u \<Longrightarrow> UNKNOWN \<notin> set (s # ts) \<Longrightarrow> u \<in> insert s (later s)"
proof (induction rule: order_path.induct)
  case (step s t t' ts u)
  then have "u \<in> insert t (later t)" "insert t (later t) \<subseteq> insert s (later s)"
    using allowed_later [of s t] by (auto simp: transition_Inr)
  then show ?case by blast
qed simp

lemma later_path:
  assumes "u \<in> later s" shows "\<exists>ts. UNKNOWN \<notin> set ts \<and> order_path s ts u"
proof -
  let ?route = "if u \<in> allowed_from s then [u] else if s = CREATED \<and> u \<in> allowed_from SUBMITTED then [SUBMITTED, u]
    else if s = CREATED then [SUBMITTED, ACKNOWLEDGED, u] else [ACKNOWLEDGED, u]"
  have "UNKNOWN \<notin> set ?route \<and> order_path s ?route u"
    using assms by (cases s) (auto simp: order_path_simps transition_Inr)
  then show ?thesis by blast
qed

lemma can_finish: "\<exists>ts u. UNKNOWN \<notin> set ts \<and> order_path s ts u \<and> u \<in> final_states"
proof (cases "s \<in> final_states")
  case False
  then have "FILLED \<in> allowed_from s \<or> REJECTED \<in> allowed_from s"
    by (cases s) (auto simp: final_states_def)
  then show ?thesis
    by (elim disjE) (intro exI [of _ "[FILLED]"] exI [of _ FILLED] exI [of _ "[REJECTED]"] exI [of _ REJECTED]; simp add: order_path_simps transition_Inr final_states_def)+
qed (intro exI [of _ "[]"] exI [of _ s]; simp add: order_path_simps)

text \<open>
  C17: the paths of the order state machine. While an order does not become UNKNOWN it reaches exactly the states of the table \<open>later\<close>, so that it goes back only
  between PARTIALLY_FILLED and CANCEL_PENDING: it is never acknowledged again after a partial fill or a cancel request, and a partly filled order is never REJECTED or FAILED.
  On every path, also through UNKNOWN, a final state is never left, no order becomes CREATED again or SUBMITTED from
  anything but CREATED, and the state reached can be brought to a final one without becoming UNKNOWN.
\<close>

theorem order_paths_progress:
  assumes "s \<noteq> UNKNOWN"
  shows "((\<exists>ts. UNKNOWN \<notin> set ts \<and> order_path s ts u) \<longleftrightarrow> u = s \<or> u \<in> later s) \<and>
    (order_path s ts u \<longrightarrow>
       (s \<in> final_states \<longrightarrow> u = s) \<and> (u \<noteq> s \<longrightarrow> u \<noteq> CREATED \<and> (u = SUBMITTED \<longrightarrow> s = CREATED)) \<and>
       (\<exists>us v. UNKNOWN \<notin> set us \<and> order_path u us v \<and> v \<in> final_states))"
proof (intro conjI)
  show "(\<exists>ts. UNKNOWN \<notin> set ts \<and> order_path s ts u) \<longleftrightarrow> u = s \<or> u \<in> later s"
  proof
    show "u = s \<or> u \<in> later s" if "\<exists>ts. UNKNOWN \<notin> set ts \<and> order_path s ts u" using that assms path_later [of s _ u] by auto
    have "UNKNOWN \<notin> set [] \<and> order_path s [] s" by (simp add: here)
    then show "\<exists>ts. UNKNOWN \<notin> set ts \<and> order_path s ts u" if "u = s \<or> u \<in> later s" using that later_path by blast
  qed
qed (use path_final path_not_first can_finish in blast)

theorem order_paths_progress_witness:
  "order_path PARTIALLY_FILLED [CANCEL_PENDING, PARTIALLY_FILLED, CANCEL_PENDING, CANCELLED] CANCELLED \<and>
   \<not> (\<exists>ts. UNKNOWN \<notin> set ts \<and> order_path PARTIALLY_FILLED ts ACKNOWLEDGED) \<and>
   (\<exists>ts. UNKNOWN \<notin> set ts \<and> order_path CREATED ts CANCEL_PENDING)"
  using order_paths_progress [of PARTIALLY_FILLED ACKNOWLEDGED] order_paths_progress [of CREATED CANCEL_PENDING]
  by (simp add: order_path_simps transition_def)

text \<open>Through UNKNOWN the machine does lose a fill: a partially filled order may become UNKNOWN and then REJECTED or FAILED.
\<close>

theorem unknown_forgets_partial_fill:
  "\<exists>ts. order_path PARTIALLY_FILLED ts REJECTED \<and> UNKNOWN \<in> set ts"
  by (intro exI [of _ "[UNKNOWN, REJECTED]"]) (simp add: order_path_simps transition_def)

section \<open>Ambiguity is resolved from evidence only\<close>

lemma terminal_not_open: "s \<in> set TERMINAL \<Longrightarrow> s \<notin> set OPEN_STATUS \<and> s \<noteq> ''UNKNOWN''"
  by (auto simp: TERMINAL_def OPEN_STATUS_def)

text \<open>A cancel/replace race counts as safe exactly when the old order is reported in a terminal state, no acknowledgement
  was lost, the replacement (if there is one) has a known status, and nothing was filled beyond the local
  expectation; in every other case new risk is halted.
\<close>

theorem replace_race_safe_iff:
  "(rd_safe (resolve_replace_race e) \<longleftrightarrow>
      or_upper (rr_old_exchange_status e) ''UNKNOWN'' \<in> set TERMINAL \<and> \<not> rr_ack_lost e \<and>
      \<not> (truthy (rr_replacement_order_id e) \<and> or_upper (rr_replacement_exchange_status e) ''UNKNOWN'' = ''UNKNOWN'') \<and>
      rr_old_cumulative_qty e \<le> rr_local_expected_old_qty e)
   \<and> rd_halt_new_risk (resolve_replace_race e) = (\<not> rd_safe (resolve_replace_race e))"
proof -
  let ?old = "or_upper (rr_old_exchange_status e) ''UNKNOWN''"
  show ?thesis
    unfolding resolve_replace_race_def Let_def using terminal_not_open [of ?old]
    by (cases "?old \<in> set TERMINAL") (simp_all add: not_less, blast?)
qed

text \<open>An ambiguous submission is resolved without manual review only on evidence: FILLED or PARTIALLY\_FILLED from the
  fills when there are any, and otherwise the status the user stream, or else the open orders, report; a
  status is never assumed.
\<close>

theorem unknown_outcome_needs_evidence:
  assumes "\<not> ud_manual_review (resolve_unknown_outcome e)"
  shows "0 \<le> uo_fill_quantity e \<and> uo_fill_quantity e \<le> uo_requested_quantity e \<and> 0 < uo_requested_quantity e \<and>
     ud_resolved_status (resolve_unknown_outcome e) =
       (if uo_fill_quantity e = uo_requested_quantity e then ''FILLED''
        else if 0 < uo_fill_quantity e then ''PARTIALLY_FILLED''
        else if or_upper (uo_user_stream_status e) [] \<in> set TERMINAL \<union> set OPEN_STATUS
        then or_upper (uo_user_stream_status e) []
        else or_upper (uo_open_order_status e) []) \<and>
     ud_resolved_status (resolve_unknown_outcome e) \<in> set TERMINAL \<union> set OPEN_STATUS"
proof -
  have s: "''FILLED'' \<in> set TERMINAL" "''PARTIALLY_FILLED'' \<in> set OPEN_STATUS"
    by (simp_all add: TERMINAL_def OPEN_STATUS_def)
  show ?thesis using assms s
    by (simp add: resolve_unknown_outcome_def Let_def not_less not_le split: if_splits option.splits; blast)
qed

theorem unknown_outcome_needs_evidence_witness:
  "ud_resolved_status (resolve_unknown_outcome \<lparr>uo_client_order_id = ''c'', uo_user_stream_status = None,
      uo_open_order_status = Some ''new'', uo_fill_quantity = 0, uo_requested_quantity = 2\<rparr>) = ''NEW''"
proof -
  let ?e = "\<lparr>uo_client_order_id = ''c'', uo_user_stream_status = None,
      uo_open_order_status = Some ''new'', uo_fill_quantity = 0, uo_requested_quantity = 2\<rparr>"
  have "\<not> ud_manual_review (resolve_unknown_outcome ?e)" by code_simp
  from unknown_outcome_needs_evidence [OF this] show ?thesis
    by (simp add: or_upper_def upper_def upper_char_def char_of_def TERMINAL_def OPEN_STATUS_def)
qed

section \<open>Protection\<close>

lemma assess_allow_iff:
  "pa_allow_new_risk (assess_protection q side orders pending synth panic) \<longleftrightarrow>
     q = 0 \<or> dec \<bar>q\<bar> \<le> protection_coverage (dec \<bar>q\<bar>) side orders"
  by (simp add: assess_protection_def Let_def dec.R_eq_0)

lemma assess_state:
  "pa_state (assess_protection q side orders pending synth panic) = UNPROTECTED_POSITION \<Longrightarrow>
   \<not> pa_allow_new_risk (assess_protection q side orders pending synth panic)"
  "pa_state (assess_protection q side orders False synth panic) = UNPROTECTED_POSITION \<longleftrightarrow>
   \<not> pa_allow_new_risk (assess_protection q side orders False synth panic)"
  by (simp_all add: assess_protection_def Let_def split: if_splits)

definition remaining :: "OrderRecord \<Rightarrow> rat" where
  "remaining o1 = or_quantity o1 - or_filled_quantity o1"

lemma coverage_exact:
  assumes g: "\<And>o1. o1 \<in> set orders \<Longrightarrow> on_grid g (remaining o1)"
    and b: "sum_list (map (\<lambda>o1. \<bar>remaining o1\<bar>) orders) \<le> 10 ^ 28 * 10 powi g"
  shows "protection_coverage q side orders =
     sum_list (map remaining (filter (covers (if side = ''LONG'' then ''SELL'' else ''BUY'')) orders))"
proof -
  let ?c = "covers (if side = ''LONG'' then ''SELL'' else ''BUY'')"
  have one: "\<bar>remaining o1\<bar> \<le> 10 ^ 28 * 10 powi g" if "o1 \<in> set orders" for o1
  proof -
    have "\<bar>remaining o1\<bar> \<le> sum_list (map (\<lambda>o1. \<bar>remaining o1\<bar>) orders)"
      using that by (intro member_le_sum_list) auto
    with b show ?thesis by linarith
  qed
  have e: "map (\<lambda>o1. dec (or_quantity o1 - or_filled_quantity o1)) (filter ?c orders) = map remaining (filter ?c orders)"
    using dec_on_grid [OF g one] by (simp flip: remaining_def)
  have "sum_list (map (\<lambda>o1. \<bar>remaining o1\<bar>) (filter ?c orders)) \<le> sum_list (map (\<lambda>o1. \<bar>remaining o1\<bar>) orders)"
    by (induction orders) auto
  with b have "sum_list (map abs (map remaining (filter ?c orders))) \<le> 10 ^ 28 * 10 powi g"
    by (simp add: comp_def)
  moreover have "\<And>x. x \<in> set (map remaining (filter ?c orders)) \<Longrightarrow> on_grid g x" using g by auto
  ultimately have "dsum (map remaining (filter ?c orders)) = sum_list (map remaining (filter ?c orders))"
    by (intro dsum_exact)
  then show ?thesis unfolding protection_coverage_def Let_def e .
qed


text \<open>
  C18: on a common grid of quantities, a position assessed as PROTECTED is covered in exact numbers: the open remainders of
  the live stop orders on the opposite side add up to at least its size, whatever else is in the order list.
\<close>

theorem protected_position_is_covered:
  assumes "\<And>o1. o1 \<in> set orders \<Longrightarrow> on_grid g (remaining o1)" "on_grid g q"
    and "sum_list (map (\<lambda>o1. \<bar>remaining o1\<bar>) orders) \<le> 10 ^ 28 * 10 powi g" "\<bar>q\<bar> \<le> 10 ^ 28 * 10 powi g"
    and "pa_state (assess_protection q side orders pending synth panic) = PROTECTED"
  shows "\<bar>q\<bar> \<le> sum_list (map remaining (filter (covers (if side = ''LONG'' then ''SELL'' else ''BUY'')) orders))"
proof -
  have "dec q = q" using assms(2,4) by (rule dec_on_grid)
  then have q: "dec \<bar>q\<bar> = \<bar>q\<bar>" by (simp add: dec.R_abs)
  have "dec \<bar>q\<bar> \<le> protection_coverage (dec \<bar>q\<bar>) side orders"
    using assms(5) by (simp add: assess_protection_def Let_def split: if_splits)
  then show ?thesis by (simp only: q coverage_exact [OF assms(1,3)])
qed

definition stop_order :: "rat \<Rightarrow> rat \<Rightarrow> OrderRecord" where
  "stop_order qty filled =
     \<lparr>or_intent_id = ''i'', or_account_id = ''a'', or_symbol = ''BTCUSDT'', or_side = ''SELL'',
      or_order_type = ''STOP_LOSS_LIMIT'', or_quantity = qty, or_state = ACKNOWLEDGED, or_price = None,
      or_stop_price = Some 100, or_exchange_order_id = None, or_client_order_id = None, or_filled_quantity = filled,
      or_average_fill_price = None, or_fees = [], or_updated_at = 0\<rparr>"

theorem protected_position_is_covered_witness:
  "\<bar>3::rat\<bar> \<le> sum_list (map remaining (filter (covers ''SELL'') [stop_order 2 0, stop_order 2 1]))"
proof -
  have "on_grid 0 (remaining (stop_order 2 0))" "on_grid 0 (remaining (stop_order 2 1))" "on_grid 0 3"
    unfolding on_grid_def remaining_def stop_order_def
    by (auto intro: exI [of _ 2] exI [of _ 1] exI [of _ 3])
  then show ?thesis
    using protected_position_is_covered [of "[stop_order 2 0, stop_order 2 1]" 0 3 "''LONG''" False False False]
    by (auto simp: remaining_def stop_order_def assess_protection_def protection_coverage_def covers_def PROTECTIVE_TYPES_def
        dsum_def dec.rnd_of_int [of 2, simplified] dec.rnd_of_int [of 1, simplified] dec.rnd_of_int [of 3, simplified])
qed

text \<open>Enforcing protection never leaves an unprotected position with new risk allowed, whatever the retry and the alert
  do short of recovering the machine, even when they raise; on a panic the machine is halted before the alert.
\<close>

theorem enforce_blocks_unprotected:
  assumes "keeps_blocked retry_submit" "\<And>x. keeps_blocked (alert x)"
    and "\<not> pa_allow_new_risk (assess_protection q side orders False synth panic)"
  shows "\<not> allow_new_risk (fst (protective_enforce retry_submit alert q side orders synth panic m))"
proof -
  let ?a = "assess_protection q side orders False synth panic"
  let ?alert = "alert \<lparr>al_synthetic_only = pa_local_synthetic_only ?a, al_action = pa_required_action ?a\<rparr>"
  have s: "pa_state ?a = UNPROTECTED_POSITION" using assms(3) assess_state(2) by blast
  have ka: "keeps_blocked (and_then ?alert (\<lambda>_ m'. (m', Inr ?a)))"
    by (rule keeps_blocked_and_then [OF assms(2)]) (simp add: keeps_blocked_def)
  have kr: "keeps_blocked (and_then retry_submit (\<lambda>_. and_then ?alert (\<lambda>_ m'. (m', Inr ?a))))"
    by (rule keeps_blocked_and_then [OF assms(1) ka])
  have h: "\<not> allow_new_risk (restrict r m)" for r by (simp add: allow_new_risk_def risk_ops)
  have "protective_enforce retry_submit alert q side orders synth panic m =
      (if panic then and_then ?alert (\<lambda>_ m'. (m', Inr ?a)) (halt ''UNPROTECTED_POSITION_PANIC_CLOSE'' m)
       else and_then retry_submit (\<lambda>_. and_then ?alert (\<lambda>_ m'. (m', Inr ?a))) (restrict ''UNPROTECTED_POSITION'' m))"
    unfolding protective_enforce_def Let_def s by simp
  then show ?thesis
    using keeps_blocked_app [OF ka halt_blocks] keeps_blocked_app [OF kr h] by presburger
qed

theorem enforce_blocks_unprotected_witness:
  "\<not> allow_new_risk (fst (protective_enforce (\<lambda>m. (m, Inl TimeoutError)) (\<lambda>x m. (m, Inr ())) 3 ''LONG'' [] False False
      \<lparr>rm_state = ACTIVE, rm_reason = [], rm_log = []\<rparr>))"
  by (rule enforce_blocks_unprotected)
    (simp_all add: keeps_blocked_def assess_allow_iff protection_coverage_def)

text \<open>Protective orders judged safe on a common grid of quantities cannot over-close the position: a live stop and a live
  take-profit together do not exceed it, a flat position has no live protective order, the replacement generation is current, no
  cancel/replace is in flight, and outside the spot market they are reduce-only.
\<close>

theorem safe_protective_orders:
  assumes "on_grid g (pe_position_qty e)" "on_grid g (pe_stop_live_qty e)" "on_grid g (pe_take_profit_live_qty e)"
    and "\<bar>pe_position_qty e\<bar> \<le> 10 ^ 28 * 10 powi g"
    and "\<bar>pe_stop_live_qty e\<bar> + \<bar>pe_take_profit_live_qty e\<bar> \<le> 10 ^ 28 * 10 powi g"
    and safe: "cd_safe (evaluate_protective_conflicts e)"
  shows "(pe_stop_live_qty e \<noteq> 0 \<and> pe_take_profit_live_qty e \<noteq> 0 \<longrightarrow>
            \<bar>pe_stop_live_qty e\<bar> + \<bar>pe_take_profit_live_qty e\<bar> \<le> \<bar>pe_position_qty e\<bar>) \<and>
         (pe_position_qty e = 0 \<longrightarrow> pe_stop_live_qty e = 0 \<and> pe_take_profit_live_qty e = 0) \<and>
         pe_replacement_generation e = pe_current_generation e \<and> \<not> pe_cancel_replace_in_flight e \<and>
         (upper (pe_market_type e) \<in> {''FUTURES'', ''PERPETUAL'', ''MARGIN''} \<and> pe_position_qty e \<noteq> 0 \<longrightarrow> pe_reduce_only e)"
proof -
  have ab: "on_grid g \<bar>x\<bar>" if "on_grid g x" for x using that on_grid_minus by (auto simp: abs_if)
  have d: "dec \<bar>pe_position_qty e\<bar> = \<bar>pe_position_qty e\<bar>" "dec \<bar>pe_stop_live_qty e\<bar> = \<bar>pe_stop_live_qty e\<bar>"
      "dec \<bar>pe_take_profit_live_qty e\<bar> = \<bar>pe_take_profit_live_qty e\<bar>"
      "dec (\<bar>pe_stop_live_qty e\<bar> + \<bar>pe_take_profit_live_qty e\<bar>) = \<bar>pe_stop_live_qty e\<bar> + \<bar>pe_take_profit_live_qty e\<bar>"
    using assms(4,5) ab [OF assms(1)] ab [OF assms(2)] ab [OF assms(3)]
    by (auto intro!: dec_on_grid on_grid_add)
  have "\<not> (\<bar>pe_stop_live_qty e\<bar> > 0 \<and> \<bar>pe_take_profit_live_qty e\<bar> > 0 \<and>
            \<bar>pe_stop_live_qty e\<bar> + \<bar>pe_take_profit_live_qty e\<bar> > \<bar>pe_position_qty e\<bar>)"
       "\<not> (\<bar>pe_position_qty e\<bar> = 0 \<and> (\<bar>pe_stop_live_qty e\<bar> > 0 \<or> \<bar>pe_take_profit_live_qty e\<bar> > 0))"
       "pe_replacement_generation e = pe_current_generation e" "\<not> pe_cancel_replace_in_flight e"
       "\<not> (upper (pe_market_type e) \<in> {''FUTURES'', ''PERPETUAL'', ''MARGIN''} \<and> \<bar>pe_position_qty e\<bar> > 0 \<and> \<not> pe_reduce_only e)"
    using safe unfolding evaluate_protective_conflicts_def Let_def d
    by (simp_all split: if_splits)
  then show ?thesis by (auto simp: not_less)
qed

theorem safe_protective_orders_witness:
  "pe_reduce_only \<lparr>pe_position_qty = 3, pe_stop_live_qty = 2, pe_take_profit_live_qty = 1, pe_replacement_generation = 4,
      pe_current_generation = 4, pe_reduce_only = True, pe_market_type = ''perpetual'', pe_cancel_replace_in_flight = False\<rparr>"
proof -
  let ?e = "\<lparr>pe_position_qty = 3, pe_stop_live_qty = 2, pe_take_profit_live_qty = 1, pe_replacement_generation = 4,
      pe_current_generation = 4, pe_reduce_only = True, pe_market_type = ''perpetual'', pe_cancel_replace_in_flight = False\<rparr>"
  have "cd_safe (evaluate_protective_conflicts ?e)" by code_simp
  moreover have "on_grid 0 (3::rat)" "on_grid 0 (2::rat)" "on_grid 0 (1::rat)"
    unfolding on_grid_def by (auto intro: exI [of _ 2] exI [of _ 1] exI [of _ 3])
  moreover have "upper ''perpetual'' = ''PERPETUAL''" by code_simp
  ultimately show ?thesis using safe_protective_orders [of 0 ?e] by simp
qed

end
