(* ===== verification/Reconcile.thy ===== *)
theory Reconcile
  imports Risk_State
begin

text \<open>
  Agreement between the local ledger and the exchange: reconciliation (\<open>backend/app/execution/reconciliation.py\<close>), recovery after
  a restart and after a private-stream disconnect (\<open>execution/recovery.py\<close>), audit of reconciliations, netting and self-trade
  prevention (\<open>execution/phase9.py\<close>), and the account boundary (\<open>execution/account_boundary.py\<close>).

  Python iterates over a set of strings in an order that is not specified: the operations that do so take the order as
  an argument \<open>it\<close>, and \<open>set_order it\<close> says what it has to satisfy.
\<close>

definition set_order :: "(string list \<Rightarrow> string list) \<Rightarrow> bool" where
  "set_order it \<longleftrightarrow> (\<forall>xs. set (it xs) = set xs \<and> distinct (it xs))"

section \<open>Reconciliation\<close>

record AccountSnapshot =
  as_balances :: "(string, rat) dict"
  as_positions :: "(string, rat) dict"
  as_open_order_ids :: "string list"

record ReconciliationResult =
  rs_drift :: "string list"
  rs_risk_state :: RiskState

definition differing :: "(string list \<Rightarrow> string list) \<Rightarrow> (string, rat) dict \<Rightarrow> (string, rat) dict \<Rightarrow> string list" where
  "differing it l e = filter (\<lambda>a. get_or l a 0 \<noteq> get_or e a 0) (it (map fst l @ map fst e))"

definition minus_ids :: "string list \<Rightarrow> string list \<Rightarrow> string list" where
  "minus_ids xs ys = filter (\<lambda>x. x \<notin> set ys) xs"

definition reconcile :: "(string list \<Rightarrow> string list) \<Rightarrow> AccountSnapshot \<Rightarrow> AccountSnapshot \<Rightarrow> ReconciliationResult" where
  "reconcile it local exchange =
     (let drift =
        map ((@) ''UNKNOWN_BALANCE_CHANGE:'') (differing it (as_balances local) (as_balances exchange)) @
        map ((@) ''UNKNOWN_POSITION_CHANGE:'') (differing it (as_positions local) (as_positions exchange)) @
        map ((@) ''UNKNOWN_ORDER:'') (it (minus_ids (as_open_order_ids exchange) (as_open_order_ids local))) @
        map ((@) ''MISSING_EXCHANGE_ORDER:'') (it (minus_ids (as_open_order_ids local) (as_open_order_ids exchange)))
      in \<lparr>rs_drift = drift, rs_risk_state = (if drift \<noteq> [] then MANUAL_REVIEW_REQUIRED else NORMAL)\<rparr>)"

record CancelResolution =
  cr_state :: string
  cr_action :: string
  cr_order_id :: string

definition resolve_cancel_timeout :: "OrderRecord option res \<Rightarrow> string \<Rightarrow> CancelResolution res" where
  "resolve_cancel_timeout get_order order_id =
     bind_res get_order (\<lambda>remote.
       let mk = (\<lambda>s a. Inr \<lparr>cr_state = s, cr_action = a, cr_order_id = order_id\<rparr>)
       in case remote of
            None \<Rightarrow> mk ''UNKNOWN'' ''MANUAL_REVIEW_REQUIRED''
          | Some r \<Rightarrow>
              (let status = order_value (or_state r)
               in if status \<in> {''FILLED'', ''CANCELLED'', ''REJECTED'', ''FAILED''} then mk status ''APPLY_EXCHANGE_TRUTH''
                  else if status \<in> {''ACKNOWLEDGED'', ''PARTIALLY_FILLED'', ''CANCEL_PENDING'', ''SUBMITTED''}
                  then mk status ''RECONCILE_AND_RETRY_CANCEL''
                  else mk ''UNKNOWN'' ''MANUAL_REVIEW_REQUIRED''))"

definition validate_protective_coverage :: "(string, rat) dict \<Rightarrow> string list \<Rightarrow> string list" where
  "validate_protective_coverage position_quantities protective_symbols =
     sorted_set (minus_ids (map fst (filter (\<lambda>(s, q). q \<noteq> 0) position_quantities)) protective_symbols)"

record OrphanOrderAction =
  oa_order_id :: string
  oa_action :: string
  oa_reason :: string

definition plan_orphan_order_recovery :: "AccountSnapshot \<Rightarrow> AccountSnapshot \<Rightarrow> bool \<Rightarrow> OrphanOrderAction list" where
  "plan_orphan_order_recovery local exchange allow_cancel_unknown =
     map (\<lambda>oid. \<lparr>oa_order_id = oid,
                 oa_action = (if allow_cancel_unknown then ''CANCEL_AND_RECONCILE'' else ''MANUAL_REVIEW''),
                 oa_reason = ''EXCHANGE_ORDER_NOT_IN_LOCAL_LEDGER''\<rparr>)
       (sorted_set (minus_ids (as_open_order_ids exchange) (as_open_order_ids local))) @
     map (\<lambda>oid. \<lparr>oa_order_id = oid, oa_action = ''QUERY_HISTORY_AND_RECONCILE'',
                 oa_reason = ''LOCAL_ACTIVE_ORDER_MISSING_ON_EXCHANGE''\<rparr>)
       (sorted_set (minus_ids (as_open_order_ids local) (as_open_order_ids exchange)))"

record CompositeReconciliationEvidence =
  ce_local :: AccountSnapshot
  ce_exchange :: AccountSnapshot
  ce_balance_checked :: bool
  ce_positions_checked :: bool
  ce_open_orders_checked :: bool
  ce_local_database_checked :: bool

record CompositeReconciliationResult =
  cx_complete :: bool
  cx_drift :: "string list"
  cx_risk_state :: RiskState
  cx_missing_checks :: "string list"

definition reconcile_composite ::
  "(string list \<Rightarrow> string list) \<Rightarrow> CompositeReconciliationEvidence \<Rightarrow> CompositeReconciliationResult" where
  "reconcile_composite it e =
     (let checks = [(''EXCHANGE_BALANCE'', ce_balance_checked e), (''EXCHANGE_POSITIONS'', ce_positions_checked e),
                    (''EXCHANGE_OPEN_ORDERS'', ce_open_orders_checked e), (''LOCAL_DATABASE'', ce_local_database_checked e)];
          missing = sort (map fst (filter (\<lambda>(name, ok). \<not> ok) checks))
      in if missing \<noteq> []
         then \<lparr>cx_complete = False, cx_drift = [], cx_risk_state = MANUAL_REVIEW_REQUIRED, cx_missing_checks = missing\<rparr>
         else
           let base = reconcile it (ce_local e) (ce_exchange e)
           in \<lparr>cx_complete = (rs_drift base = []), cx_drift = rs_drift base, cx_risk_state = rs_risk_state base,
               cx_missing_checks = []\<rparr>)"

section \<open>Restart recovery\<close>

record RestartRecoveryEvidence =
  re_reconciliation :: ReconciliationResult
  re_checks :: RecoveryChecks
  re_human_approved :: bool

definition ready_for_active :: "RestartRecoveryEvidence \<Rightarrow> bool" where
  "ready_for_active e \<longleftrightarrow> rs_drift (re_reconciliation e) = [] \<and> all_green (re_checks e) \<and> re_human_approved e"

record RestartRecoveryCoordinator =
  rcv_risk :: RiskMachine
  rcv_last_evidence :: "RestartRecoveryEvidence option"

definition recovery_begin :: "RestartRecoveryCoordinator \<Rightarrow> RestartRecoveryCoordinator" where
  "recovery_begin c = c\<lparr>rcv_risk := recovery_pending ''restart reconciliation required'' (rcv_risk c)\<rparr>"

definition effective_checks :: "RecoveryChecks \<Rightarrow> string list \<Rightarrow> RecoveryChecks" where
  "effective_checks checks drift =
     checks\<lparr>rc_reconciliation_ok := rc_reconciliation_ok checks \<and> drift = [],
            rc_no_orphan_orders := rc_no_orphan_orders checks \<and>
              \<not> list_ex (\<lambda>item. startswith item ''UNKNOWN_ORDER:'' \<or> startswith item ''MISSING_EXCHANGE_ORDER:'') drift\<rparr>"

definition recovery_evaluate ::
  "(string list \<Rightarrow> string list) \<Rightarrow> AccountSnapshot \<Rightarrow> AccountSnapshot \<Rightarrow> RecoveryChecks \<Rightarrow> bool
   \<Rightarrow> RestartRecoveryCoordinator \<Rightarrow> RestartRecoveryCoordinator \<times> RestartRecoveryEvidence res" where
  "recovery_evaluate it local exchange checks human_approved c =
     (if rm_state (rcv_risk c) \<notin> {STARTING, RECOVERY_PENDING, MANUAL_REVIEW_REQUIRED}
      then (c, Inl (PermissionError ''restart recovery can only run from startup/recovery states''))
      else
        let result = reconcile it local exchange;
            eff = effective_checks checks (rs_drift result);
            evidence = \<lparr>re_reconciliation = result, re_checks = eff, re_human_approved = human_approved\<rparr>;
            c1 = c\<lparr>rcv_last_evidence := Some evidence\<rparr>
        in if rs_drift result \<noteq> []
           then (c1\<lparr>rcv_risk := manual_review (''restart reconciliation drift: '' @ join '','' (rs_drift result)) (rcv_risk c1)\<rparr>,
                 Inr evidence)
           else if \<not> human_approved \<or> \<not> all_green eff
           then (c1\<lparr>rcv_risk := recovery_pending ''restart recovery gates incomplete'' (rcv_risk c1)\<rparr>, Inr evidence)
           else
             let m1 = (if rm_state (rcv_risk c1) \<noteq> RECOVERY_PENDING
                       then recovery_pending ''restart recovery gates passed'' (rcv_risk c1) else rcv_risk c1)
             in (case recover True None (Some eff) (Some ACTIVE) m1 of
                   (m2, Inl e) \<Rightarrow> (c1\<lparr>rcv_risk := m2\<rparr>, Inl e)
                 | (m2, Inr _) \<Rightarrow> (c1\<lparr>rcv_risk := m2\<rparr>, Inr evidence)))"

section \<open>Durable orders\<close>

text \<open>The database rows of an order and its fills; the strings of the result are the numbers they print.\<close>

record OrderRow =
  ow_status :: string
  ow_quantity :: rat
  ow_fills :: "rat list"

record DurableOrderRecovery =
  dr_intent_id :: string
  dr_status :: string
  dr_ordered_quantity :: rat
  dr_filled_quantity :: rat
  dr_remaining_quantity :: rat
  dr_consistent :: bool

definition recover_durable_order :: "(string \<Rightarrow> OrderRow option) \<Rightarrow> string \<Rightarrow> DurableOrderRecovery res" where
  "recover_durable_order orders intent_id =
     (case orders intent_id of
        None \<Rightarrow> Inl (LookupError (''unknown durable intent: '' @ intent_id))
      | Some order \<Rightarrow>
          (let filled = dsum (ow_fills order); quantity = ow_quantity order;
               remaining = max 0 (dec (quantity - filled)); status = ow_status order;
               c0 = (filled \<le> quantity);
               c1 = (if status = ''FILLED'' then c0 \<and> filled = quantity else c0);
               c2 = (if status \<in> {''CREATED'', ''SUBMITTED'', ''ACKNOWLEDGED''} then c1 \<and> filled = 0 else c1);
               c3 = (if status = ''PARTIALLY_FILLED'' then c2 \<and> 0 < filled \<and> filled < quantity else c2)
           in Inr \<lparr>dr_intent_id = intent_id, dr_status = status, dr_ordered_quantity = quantity,
                   dr_filled_quantity = filled, dr_remaining_quantity = remaining, dr_consistent = c3\<rparr>))"

section \<open>Private stream\<close>

record PrivateStreamReconnectEvidence =
  pr_reconciliation :: ReconciliationResult
  pr_stream_healthy :: bool
  pr_requires_human_review :: bool

record PrivateStreamRecoveryCoordinator =
  psc_risk :: RiskMachine
  psc_disconnected :: bool
  psc_auth_expired :: bool
  psc_last_evidence :: "PrivateStreamReconnectEvidence option"

definition on_disconnect :: "string \<Rightarrow> PrivateStreamRecoveryCoordinator \<Rightarrow> PrivateStreamRecoveryCoordinator" where
  "on_disconnect reason c = c\<lparr>psc_disconnected := True, psc_risk := restrict reason (psc_risk c)\<rparr>"

definition on_auth_expired :: "PrivateStreamRecoveryCoordinator \<Rightarrow> PrivateStreamRecoveryCoordinator" where
  "on_auth_expired c =
     c\<lparr>psc_auth_expired := True, psc_disconnected := True,
       psc_risk := restrict ''PRIVATE_STREAM_AUTH_EXPIRED'' (psc_risk c)\<rparr>"

text \<open>What \<open>get_positions\<close> returned: a dictionary, or a list of items with an optional symbol and a quantity.\<close>

datatype positions_raw = PosDict "(string, rat) dict" | PosList "(string option \<times> rat) list"

fun positions_of :: "positions_raw \<Rightarrow> (string, rat) dict" where
  "positions_of (PosDict d) = d"
| "positions_of (PosList items) =
     fold (\<lambda>(symbol, quantity) d.
        case symbol of None \<Rightarrow> d | Some s \<Rightarrow> if s = [] then d else dset s quantity d) items []"

definition on_reconnect ::
  "(string list \<Rightarrow> string list) \<Rightarrow> AccountSnapshot res \<Rightarrow> (string, rat) dict res \<Rightarrow> positions_raw res \<Rightarrow> string option list res
   \<Rightarrow> bool \<Rightarrow> bool \<Rightarrow> PrivateStreamRecoveryCoordinator
   \<Rightarrow> PrivateStreamRecoveryCoordinator \<times> PrivateStreamReconnectEvidence res" where
  "on_reconnect it local_snapshot get_balance get_positions get_open_orders stream_healthy auth_refreshed c =
     (case bind_res local_snapshot (\<lambda>local. bind_res get_balance (\<lambda>balances. bind_res get_positions (\<lambda>raw.
           bind_res get_open_orders (\<lambda>orders.
             Inr (local, \<lparr>as_balances = balances, as_positions = positions_of raw,
                          as_open_order_ids = List.map_filter (\<lambda>x. x) orders\<rparr>))))) of
        Inl e \<Rightarrow> (c, Inl e)
      | Inr (local, remote) \<Rightarrow>
          (let result = reconcile it local remote;
               auth_ok = (\<not> psc_auth_expired c \<or> auth_refreshed);
               healthy = (stream_healthy \<and> auth_ok);
               evidence = \<lparr>pr_reconciliation = result, pr_stream_healthy = healthy,
                           pr_requires_human_review = (rs_drift result \<noteq> [] \<or> \<not> healthy)\<rparr>;
               m = (if rs_drift result \<noteq> []
                    then manual_review (''PRIVATE_STREAM_RECONNECT_DRIFT:'' @ join '','' (rs_drift result)) (psc_risk c)
                    else if \<not> healthy then recovery_pending ''private stream reconnect/auth not healthy'' (psc_risk c)
                    else recovery_pending ''private stream reconciled; recovery approval required'' (psc_risk c))
           in (c\<lparr>psc_last_evidence := Some evidence, psc_disconnected := False,
                 psc_auth_expired := (if auth_ok then False else psc_auth_expired c), psc_risk := m\<rparr>,
               Inr evidence)))"

record StreamFreshnessEvidence =
  sfe_healthy :: bool
  sfe_age_seconds :: dnum
  sfe_reason :: string

definition validate_private_stream_freshness :: "rat \<Rightarrow> rat option \<Rightarrow> rat \<Rightarrow> StreamFreshnessEvidence" where
  "validate_private_stream_freshness now_monotonic last_message max_age_seconds =
     (case last_message of
        None \<Rightarrow> \<lparr>sfe_healthy = False, sfe_age_seconds = Infinite, sfe_reason = ''NO_PRIVATE_STREAM_MESSAGE''\<rparr>
      | Some t \<Rightarrow>
          (let age = flt (now_monotonic - t)
           in if age < 0 then \<lparr>sfe_healthy = False, sfe_age_seconds = Num age, sfe_reason = ''MONOTONIC_CLOCK_REGRESSION''\<rparr>
              else if age > max_age_seconds
              then \<lparr>sfe_healthy = False, sfe_age_seconds = Num age, sfe_reason = ''PRIVATE_STREAM_STALE''\<rparr>
              else \<lparr>sfe_healthy = True, sfe_age_seconds = Num age, sfe_reason = ''HEALTHY''\<rparr>))"

section \<open>Audit, netting and self-trade prevention\<close>

record ReconciliationAuditEvidence =
  rae_correlation_id :: string
  rae_drift :: "string list"
  rae_risk_state :: string
  rae_audit_hash :: string

text \<open>The audit store is code of the caller: \<open>append actor event type id reason\<close> returns the new hash or raises.\<close>

definition reconcile_with_audit ::
  "(string list \<Rightarrow> string list) \<Rightarrow> (string \<Rightarrow> string \<Rightarrow> string \<Rightarrow> string \<Rightarrow> string \<Rightarrow> string res) \<Rightarrow> AccountSnapshot
   \<Rightarrow> AccountSnapshot \<Rightarrow> string \<Rightarrow> string \<Rightarrow> (ReconciliationResult \<times> ReconciliationAuditEvidence) res" where
  "reconcile_with_audit it audit_append local exchange correlation_id actor =
     (let result = reconcile it local exchange;
          reason = (if rs_drift result \<noteq> [] then join '';'' (sort (rs_drift result)) else ''NO_DRIFT'')
      in bind_res (audit_append actor ''ACCOUNT_RECONCILIATION'' ''exchange_account'' correlation_id reason) (\<lambda>cur.
           Inr (result, \<lparr>rae_correlation_id = correlation_id, rae_drift = sort (rs_drift result),
                         rae_risk_state = risk_value (rs_risk_state result), rae_audit_hash = cur\<rparr>)))"

definition account_net_positions :: "(string, rat) dict list \<Rightarrow> (string, rat) dict" where
  "account_net_positions position_sources =
     filter (\<lambda>(s, q). q \<noteq> 0)
       (fold (\<lambda>source totals. fold (\<lambda>(symbol, qty) d. dset (upper symbol) (dec (get_or d (upper symbol) 0 + qty)) d) source totals)
          position_sources [])"

record open_order =
  oo_symbol :: string
  oo_side :: string
  oo_price :: "rat option"

record SelfTradeDecision =
  std_allowed :: bool
  std_reason :: string

fun self_trade_scan :: "string \<Rightarrow> string \<Rightarrow> rat option \<Rightarrow> open_order list \<Rightarrow> SelfTradeDecision" where
  "self_trade_scan symbol side price [] = \<lparr>std_allowed = True, std_reason = ''NO_SELF_TRADE_RISK''\<rparr>"
| "self_trade_scan symbol side price (order # rest) =
     (let other_side = upper (oo_side order)
      in if upper (oo_symbol order) \<noteq> upper symbol then self_trade_scan symbol side price rest
         else if other_side = side \<or> other_side \<notin> {''BUY'', ''SELL''} then self_trade_scan symbol side price rest
         else (case (price, oo_price order) of
                 (Some pr, Some other) \<Rightarrow>
                   (if (side = ''BUY'' \<and> other \<le> pr) \<or> (side = ''SELL'' \<and> pr \<le> other)
                    then \<lparr>std_allowed = False, std_reason = ''OPPOSITE_PLATFORM_ORDER_WOULD_CROSS''\<rparr>
                    else self_trade_scan symbol side price rest)
               | _ \<Rightarrow> \<lparr>std_allowed = False, std_reason = ''OPPOSITE_PLATFORM_ORDER_MAY_CROSS''\<rparr>))"

definition prevent_self_trade :: "string \<Rightarrow> string \<Rightarrow> open_order list \<Rightarrow> rat option \<Rightarrow> SelfTradeDecision" where
  "prevent_self_trade symbol incoming_side open_orders incoming_price =
     (let side = upper incoming_side
      in if side \<notin> {''BUY'', ''SELL''} then \<lparr>std_allowed = False, std_reason = ''INVALID_SIDE''\<rparr>
         else self_trade_scan symbol side incoming_price open_orders)"

section \<open>Account boundary\<close>

record AccountIdentity =
  ai_exchange :: string
  ai_account_id :: string
  ai_account_fingerprint :: string
  ai_market_type :: string

definition boundary_require :: "AccountIdentity \<Rightarrow> AccountIdentity \<Rightarrow> bool res" where
  "boundary_require expected actual =
     (if actual \<noteq> expected then Inl (PermissionError ''exchange account boundary mismatch'') else Inr True)"

record ExternalActivityEvidence =
  ea_balance_drift :: "string list"
  ea_position_drift :: "string list"
  ea_unknown_orders :: "string list"
  ea_missing_orders :: "string list"

definition ea_detected :: "ExternalActivityEvidence \<Rightarrow> bool" where
  "ea_detected e \<longleftrightarrow> ea_balance_drift e \<noteq> [] \<or> ea_position_drift e \<noteq> [] \<or> ea_unknown_orders e \<noteq> [] \<or> ea_missing_orders e \<noteq> []"

definition detect_external_activity :: "AccountSnapshot \<Rightarrow> AccountSnapshot \<Rightarrow> ExternalActivityEvidence" where
  "detect_external_activity local remote =
     \<lparr>ea_balance_drift = sort (differing remdups (as_balances local) (as_balances remote)),
      ea_position_drift = sort (differing remdups (as_positions local) (as_positions remote)),
      ea_unknown_orders = sorted_set (minus_ids (as_open_order_ids remote) (as_open_order_ids local)),
      ea_missing_orders = sorted_set (minus_ids (as_open_order_ids local) (as_open_order_ids remote))\<rparr>"

record ExchangeAccountBoundary =
  eb_exchange_account_id :: string
  eb_exchange :: string
  eb_account_fingerprint :: string
  eb_market_type :: string
  eb_margin_mode :: "string option"
  eb_position_mode :: "string option"
  eb_capabilities_hash :: "string option"
  eb_permission_hash :: "string option"
  eb_api_key_fingerprint :: "string option"
  eb_status :: string

definition require_compatible :: "ExchangeAccountBoundary \<Rightarrow> ExchangeAccountBoundary \<Rightarrow> unit res" where
  "require_compatible self other =
     (if self \<noteq> other then Inl (PermissionError ''exchange account/subaccount boundary changed'') else Inr ())"

record AccountLifecycleRecord =
  alr_account_id :: string
  alr_created_at :: datetime
  alr_last_reconciled_at :: "datetime option"
  alr_status :: string
  alr_prefix :: string
  alr_api_key_fingerprint :: "string option"

definition new_lifecycle_record ::
  "string \<Rightarrow> datetime \<Rightarrow> datetime option \<Rightarrow> string \<Rightarrow> string \<Rightarrow> string option \<Rightarrow> AccountLifecycleRecord res" where
  "new_lifecycle_record account_id created_at last_reconciled_at status prefix fingerprint =
     (if account_id = [] \<or> prefix = [] then Inl (ValueError ''account id and client-order namespace required'')
      else if \<not> is_aware created_at then Inl (ValueError ''created_at must be timezone-aware'')
      else if (case last_reconciled_at of None \<Rightarrow> False | Some t \<Rightarrow> \<not> is_aware t)
      then Inl (ValueError ''last_reconciled_at must be timezone-aware'')
      else if status \<notin> {''ACTIVE'', ''DEGRADED'', ''RECONCILIATION_REQUIRED'', ''DISABLED''}
      then Inl (ValueError ''invalid account lifecycle status'')
      else Inr \<lparr>alr_account_id = account_id, alr_created_at = created_at, alr_last_reconciled_at = last_reconciled_at,
                alr_status = status, alr_prefix = prefix, alr_api_key_fingerprint = fingerprint\<rparr>)"

definition id_char :: "char \<Rightarrow> bool" where
  "id_char c =
     (let n = (of_char c :: int)
      in (48 \<le> n \<and> n \<le> 57) \<or> (65 \<le> n \<and> n \<le> 90) \<or> (97 \<le> n \<and> n \<le> 122) \<or> n = 45 \<or> n = 95)"

definition client_order_id :: "AccountLifecycleRecord \<Rightarrow> string \<Rightarrow> string res" where
  "client_order_id r intent_id =
     (let clean = filter id_char intent_id
      in if clean = [] then Inl (ValueError ''intent id required'')
         else Inr (take 36 (alr_prefix r @ ''-'' @ clean)))"

definition mark_reconciled :: "datetime \<Rightarrow> AccountLifecycleRecord \<Rightarrow> AccountLifecycleRecord res" where
  "mark_reconciled ts r =
     (if \<not> is_aware ts \<or> micros ts < micros (alr_created_at r) then Inl (ValueError ''invalid reconciliation timestamp'')
      else new_lifecycle_record (alr_account_id r) (alr_created_at r) (Some ts) ''ACTIVE'' (alr_prefix r)
             (alr_api_key_fingerprint r))"

section \<open>Reconciliation finds every difference\<close>

lemma set_order_remdups: "set_order remdups"
  by (simp add: set_order_def)

lemma set_order_Nil: "set_order it \<Longrightarrow> it xs = [] \<longleftrightarrow> xs = []"
  by (metis set_empty set_order_def)

lemma differing_Nil:
  assumes "set_order it" shows "differing it l e = [] \<longleftrightarrow> (\<forall>a. get_or l a 0 = get_or e a 0)"
proof -
  let ?A = "fst ` set l \<union> fst ` set e"
  have out: "get_or l a 0 = get_or e a 0" if "a \<notin> ?A" for a
  proof -
    have "dget l a = None" "dget e a = None" using that by (simp_all add: map_of_eq_None_iff)
    then show ?thesis by (simp add: get_or_def)
  qed
  have "set (it (map fst l @ map fst e)) = ?A" using assms by (simp add: set_order_def)
  then have "differing it l e = [] \<longleftrightarrow> (\<forall>a \<in> ?A. get_or l a 0 = get_or e a 0)"
    by (simp only: differing_def filter_empty_conv not_not)
  also have "\<dots> \<longleftrightarrow> (\<forall>a. get_or l a 0 = get_or e a 0)" using out by blast
  finally show ?thesis .
qed

lemma minus_ids_Nil: "minus_ids xs ys = [] \<longleftrightarrow> set xs \<subseteq> set ys"
  by (auto simp: minus_ids_def filter_empty_conv)

definition agree :: "AccountSnapshot \<Rightarrow> AccountSnapshot \<Rightarrow> bool" where
  "agree l e \<longleftrightarrow> (\<forall>a. get_or (as_balances l) a 0 = get_or (as_balances e) a 0) \<and>
     (\<forall>a. get_or (as_positions l) a 0 = get_or (as_positions e) a 0) \<and>
     set (as_open_order_ids l) = set (as_open_order_ids e)"

lemma reconcile_drift_Nil: "set_order it \<Longrightarrow> rs_drift (reconcile it l e) = [] \<longleftrightarrow> agree l e"
  by (auto simp: reconcile_def Let_def differing_Nil set_order_Nil minus_ids_Nil agree_def)

lemma reconcile_state: "rs_risk_state (reconcile it l e) = (if rs_drift (reconcile it l e) \<noteq> [] then MANUAL_REVIEW_REQUIRED else NORMAL)"
  by (simp add: reconcile_def Let_def)

lemma effective_checks_green: "all_green (effective_checks c []) = all_green c"
  by (simp add: effective_checks_def all_green_def)

text \<open>
  C19: reconciliation reports no drift, and the state NORMAL, exactly when the two snapshots hold the same balance of
  every asset and the same position in every symbol (a missing entry counts as zero) and the same set of open orders, in
  whatever order Python iterates over the sets; otherwise it requires manual review. The external-activity detector finds
  a difference in exactly the same cases.
\<close>

theorem reconcile_complete:
  assumes "set_order it"
  shows "(rs_drift (reconcile it l e) = [] \<longleftrightarrow> agree l e) \<and>
         rs_risk_state (reconcile it l e) = (if agree l e then NORMAL else MANUAL_REVIEW_REQUIRED) \<and>
         ea_detected (detect_external_activity l e) = (\<not> agree l e)"
proof -
  have "sort xs = [] \<longleftrightarrow> xs = []" for xs :: "string list" by (metis set_empty set_sort)
  then have "ea_detected (detect_external_activity l e) = (\<not> agree l e)"
    by (auto simp: ea_detected_def detect_external_activity_def differing_Nil [OF set_order_remdups] minus_ids_Nil agree_def)
  then show ?thesis using assms by (simp add: reconcile_drift_Nil reconcile_state)
qed

theorem reconcile_complete_witness:
  "rs_drift (reconcile remdups \<lparr>as_balances = [(''USDT'', 5), (''BTC'', 0)], as_positions = [], as_open_order_ids = [''1'']\<rparr>
      \<lparr>as_balances = [(''USDT'', 5)], as_positions = [(''ETHUSDT'', 0)], as_open_order_ids = [''1'']\<rparr>) = []"
  using reconcile_complete [OF set_order_remdups]
  by (simp add: agree_def get_or_def)

text \<open>
  C20: restart recovery. From a startup or recovery state, \<open>evaluate\<close> never raises, records its evidence, and ends in ACTIVE exactly when
  the snapshots agree, a human approved and all nine checks are green; with any drift it ends in MANUAL\_REVIEW\_REQUIRED, and
  otherwise in RECOVERY\_PENDING. From any other state it raises and changes nothing.
\<close>

theorem restart_recovery_outcome:
  assumes "set_order it"
  shows "let (c', r) = recovery_evaluate it l e checks human c in
     if rm_state (rcv_risk c) \<in> {STARTING, RECOVERY_PENDING, MANUAL_REVIEW_REQUIRED}
     then is_ok r \<and> rm_state (rcv_risk c') =
            (if \<not> agree l e then MANUAL_REVIEW_REQUIRED
             else if human \<and> all_green checks then ACTIVE else RECOVERY_PENDING) \<and>
          (\<exists>ev. r = Inr ev \<and> rcv_last_evidence c' = Some ev \<and> ready_for_active ev = (rm_state (rcv_risk c') = ACTIVE))
     else c' = c \<and> \<not> is_ok r"
proof -
  let ?d = "rs_drift (reconcile it l e)"
  have d: "?d = [] \<longleftrightarrow> agree l e" using assms by (rule reconcile_drift_Nil)
  show ?thesis
  proof (cases "agree l e \<and> rm_state (rcv_risk c) \<in> {STARTING, RECOVERY_PENDING, MANUAL_REVIEW_REQUIRED}")
    case True
    with d have "?d = []" by simp
    with True show ?thesis
      by (auto simp: recovery_evaluate_def Let_def effective_checks_green recover_def recover_green_def risk_ops ready_for_active_def)
  next
    case False
    with d show ?thesis by (auto simp: recovery_evaluate_def Let_def risk_ops ready_for_active_def)
  qed
qed

theorem restart_recovery_outcome_witness:
  "rm_state (rcv_risk (fst (recovery_evaluate remdups \<lparr>as_balances = [], as_positions = [], as_open_order_ids = []\<rparr>
      \<lparr>as_balances = [], as_positions = [], as_open_order_ids = []\<rparr> green_checks True
      \<lparr>rcv_risk = \<lparr>rm_state = STARTING, rm_reason = [], rm_log = []\<rparr>, rcv_last_evidence = None\<rparr>))) = ACTIVE"
  using restart_recovery_outcome [OF set_order_remdups, of "\<lparr>as_balances = [], as_positions = [], as_open_order_ids = []\<rparr>"
      "\<lparr>as_balances = [], as_positions = [], as_open_order_ids = []\<rparr>" green_checks True
      "\<lparr>rcv_risk = \<lparr>rm_state = STARTING, rm_reason = [], rm_log = []\<rparr>, rcv_last_evidence = None\<rparr>"]
  by (simp add: agree_def all_green_def green_checks_def split: prod.splits)

section \<open>Streams, netting, self-trade\<close>

text \<open>A reconnect never restores new risk by itself.\<close>

lemma on_reconnect_blocks:
  "is_ok (snd (on_reconnect it ls gb gp go h a c)) \<Longrightarrow> \<not> allow_new_risk (psc_risk (fst (on_reconnect it ls gb gp go h a c)))"
  by (auto simp: on_reconnect_def Let_def risk_ops allow_new_risk_def split: sum.splits prod.splits)

lemma on_reconnect_error: "snd (on_reconnect it ls gb gp go h a c) = Inl e \<Longrightarrow> fst (on_reconnect it ls gb gp go h a c) = c"
  by (auto simp: on_reconnect_def Let_def split: sum.splits prod.splits)

definition may_cross :: "string \<Rightarrow> string \<Rightarrow> rat option \<Rightarrow> open_order \<Rightarrow> bool" where
  "may_cross symbol side price o1 \<longleftrightarrow>
     upper (oo_symbol o1) = upper symbol \<and> upper (oo_side o1) \<in> {''BUY'', ''SELL''} - {side} \<and>
     (case (price, oo_price o1) of
        (Some pr, Some other) \<Rightarrow> if side = ''BUY'' then other \<le> pr else pr \<le> other
      | _ \<Rightarrow> True)"

lemma self_trade_scan_Cons:
  assumes "side \<in> {''BUY'', ''SELL''}"
  shows "std_allowed (self_trade_scan symbol side price (o1 # os)) \<longleftrightarrow>
     \<not> may_cross symbol side price o1 \<and> std_allowed (self_trade_scan symbol side price os)"
proof -
  have s: "side = ''SELL'' \<longleftrightarrow> side \<noteq> ''BUY''" using assms by auto
  show ?thesis
    unfolding self_trade_scan.simps(2) may_cross_def Let_def s
    by (cases price; cases "oo_price o1"; simp; blast)
qed

lemma self_trade_scan_iff:
  "side \<in> {''BUY'', ''SELL''} \<Longrightarrow>
   std_allowed (self_trade_scan symbol side price os) \<longleftrightarrow> (\<forall>o1 \<in> set os. \<not> may_cross symbol side price o1)"
  by (induction os) (simp_all del: self_trade_scan.simps(2) add: self_trade_scan_Cons)

text \<open>An incoming order is allowed exactly when its side is BUY or SELL and no open order of the same symbol on the other
  side could cross it: none with both prices known and crossing, and none with either price unknown (a market order).
\<close>

theorem self_trade_prevented:
  "std_allowed (prevent_self_trade symbol incoming_side os price) \<longleftrightarrow>
     upper incoming_side \<in> {''BUY'', ''SELL''} \<and>
     \<not> (\<exists>o1 \<in> set os. may_cross symbol (upper incoming_side) price o1)"
  by (auto simp: prevent_self_trade_def Let_def self_trade_scan_iff)

lemma durable_filled:
  assumes "recover_durable_order orders i = Inr d" "dr_consistent d" "dr_status d = ''FILLED''"
  shows "dr_remaining_quantity d = 0"
  using assms by (auto simp: recover_durable_order_def Let_def split: option.splits)

section \<open>Client order identifiers\<close>

text \<open>A client order identifier has at most 36 characters. Two intents of an account get the same identifier only when their
  cleaned identifiers agree on the characters that fit beside the prefix; so intents that are clean and fit are told apart.
\<close>

theorem client_order_id_unique:
  assumes "client_order_id r i = Inr x" "client_order_id r j = Inr x"
    and "list_all id_char i" "list_all id_char j" "length (alr_prefix r) + 1 + length i \<le> 36" "length (alr_prefix r) + 1 + length j \<le> 36"
  shows "i = j \<and> length x \<le> 36"
proof -
  have "filter id_char i = i" "filter id_char j = j" using assms(3,4) by (simp_all add: list_all_iff)
  then have "x = take 36 (alr_prefix r @ ''-'' @ i)" "x = take 36 (alr_prefix r @ ''-'' @ j)"
    using assms(1,2) by (auto simp: client_order_id_def Let_def split: if_splits)
  moreover have "length (alr_prefix r @ ''-'' @ i) \<le> 36" "length (alr_prefix r @ ''-'' @ j) \<le> 36" using assms(5,6) by simp_all
  ultimately show ?thesis by (metis append_same_eq same_append_eq take_all)
qed

definition account_a :: AccountLifecycleRecord where
  "account_a = \<lparr>alr_account_id = ''a'', alr_created_at = Aware 0, alr_last_reconciled_at = None, alr_status = ''ACTIVE'',
     alr_prefix = ''acct'', alr_api_key_fingerprint = None\<rparr>"

theorem client_order_id_unique_witness:
  "client_order_id account_a ''i-1'' = Inr ''acct-i-1'' \<and> length ''acct-i-1'' \<le> 36"
proof -
  have "client_order_id account_a ''i-1'' = Inr ''acct-i-1''" by code_simp
  with client_order_id_unique [OF this this] show ?thesis by (simp add: account_a_def id_char_def)
qed

text \<open>Longer intents can collide. With a prefix of four characters, two different intents that agree on their first 31
  characters get the same client order identifier, on which the exchange's duplicate detection relies.
\<close>

theorem client_order_id_collision:
  "\<exists>i j. i \<noteq> j \<and> client_order_id account_a i = client_order_id account_a j \<and> is_ok (client_order_id account_a i)"
proof -
  let ?p = "replicate 31 (CHR ''x'')"
  have c: "id_char (CHR ''x'')" "id_char (CHR ''1'')" "id_char (CHR ''2'')" by (simp_all add: id_char_def)
  have "filter id_char (?p @ ''1'') = ?p @ ''1''" "filter id_char (?p @ ''2'') = ?p @ ''2''"
    using c by (simp_all add: filter_replicate)
  then have "client_order_id account_a (?p @ ''1'') = client_order_id account_a (?p @ ''2'')"
    "is_ok (client_order_id account_a (?p @ ''1''))"
    by (simp_all add: client_order_id_def account_a_def Let_def)
  then show ?thesis by (intro exI [of _ "?p @ ''1''"] exI [of _ "?p @ ''2''"]) simp
qed

end
