(* ===== verification/Pretrade.thy ===== *)
theory Pretrade
  imports Reconcile
begin

text \<open>
  Checks before an order leaves the platform: normalisation to the exchange's filters and the reduce-only and spot-balance rules
  (\<open>backend/app/execution/pretrade.py\<close>), and the pre-trade guard with its limits (\<open>execution/pretrade_guard.py\<close>). The age of the
  reference price is computed by the code in floats, and so it is here.
\<close>

section \<open>Normalisation\<close>

definition order_supported :: "Capabilities \<Rightarrow> string \<Rightarrow> bool" where
  "order_supported cap typ =
     get_or [(''MARKET'', cap_market cap), (''LIMIT'', cap_limit cap), (''STOP_LOSS_LIMIT'', cap_stop cap),
             (''TAKE_PROFIT_LIMIT'', cap_take_profit cap)] typ False"

text \<open>\<open>price or reference_price\<close>: a missing or zero price falls back to the reference.\<close>

definition notional_price :: "rat option \<Rightarrow> rat \<Rightarrow> rat" where
  "notional_price price reference_price = (case price of None \<Rightarrow> reference_price | Some p \<Rightarrow> if p = 0 then reference_price else p)"

definition normalize_and_validate ::
  "OrderIntent \<Rightarrow> SymbolFilters \<Rightarrow> Capabilities \<Rightarrow> rat \<Rightarrow> rat \<Rightarrow> OrderIntent res" where
  "normalize_and_validate intent filters cap reference_price max_deviation_bps =
     (let typ = upper (oi_order_type intent) in
      if \<not> order_supported cap typ then Inl (ValueError ''unsupported order type'')
      else bind_res (normalize_quantity (Num (oi_quantity intent)) (Num (sf_step_size filters))) (\<lambda>qty.
      if qty < sf_min_qty filters \<or> qty > sf_max_qty filters then Inl (ValueError ''quantity filter'')
      else bind_res (case oi_price intent of
                       None \<Rightarrow> Inr None
                     | Some p \<Rightarrow> bind_res (normalize_price (Num p) (Num (sf_tick_size filters)) (oi_side intent)) (\<lambda>x. Inr (Some x)))
        (\<lambda>price.
      let check_price = notional_price price reference_price in
      if dec (check_price * qty) < sf_min_notional filters then Inl (ValueError ''min notional'')
      else if (case sf_max_notional filters of None \<Rightarrow> False | Some mx \<Rightarrow> mx \<noteq> 0 \<and> dec (check_price * qty) > mx)
      then Inl (ValueError ''max notional'')
      else bind_res (case price of None \<Rightarrow> Inr False
                     | Some p \<Rightarrow> bind_res (bps_distance (Num p) (Num reference_price)) (\<lambda>d. Inr (d > max_deviation_bps)))
        (\<lambda>too_far.
      if too_far then Inl (ValueError ''fat finger price collar'')
      else Inr (intent\<lparr>oi_order_type := typ, oi_quantity := qty, oi_price := price,
                  oi_client_order_id := Some (case oi_client_order_id intent of
                      None \<Rightarrow> oi_intent_id intent | Some c \<Rightarrow> if c = [] then oi_intent_id intent else c)\<rparr>)))))"

definition validate_reduce_only :: "OrderIntent \<Rightarrow> rat option \<Rightarrow> unit res" where
  "validate_reduce_only intent current_position_qty =
     (if \<not> oi_reduce_only intent then Inr ()
      else case current_position_qty of
        None \<Rightarrow> Inl (PermissionError ''reduce-only requires current position context'')
      | Some position \<Rightarrow>
          (let side = upper (oi_side intent)
           in if position = 0 then Inl (PermissionError ''reduce-only cannot open exposure from flat'')
              else if position > 0 \<and> side \<noteq> ''SELL'' then Inl (PermissionError ''reduce-only side would increase long exposure'')
              else if position < 0 \<and> side \<noteq> ''BUY'' then Inl (PermissionError ''reduce-only side would increase short exposure'')
              else if oi_quantity intent > dec \<bar>position\<bar>
              then Inl (PermissionError ''reduce-only quantity would cross through zero'')
              else Inr ()))"

definition validate_spot_sell_balance :: "OrderIntent \<Rightarrow> rat option \<Rightarrow> unit res" where
  "validate_spot_sell_balance intent available_base_qty =
     (if oi_market_type intent \<noteq> SPOT then Inr ()
      else if upper (oi_side intent) \<noteq> ''SELL'' then Inr ()
      else case available_base_qty of
        None \<Rightarrow> Inl (PermissionError ''SPOT SELL requires available base-asset balance context'')
      | Some available \<Rightarrow>
          (if available < 0 then Inl (ValueError ''available base balance cannot be negative'')
           else if oi_quantity intent > available then Inl (PermissionError ''SPOT SELL exceeds available base-asset balance'')
           else Inr ()))"

section \<open>The pre-trade guard\<close>

record PreTradeLimits =
  pl_max_order_notional :: rat
  pl_max_quantity :: rat
  pl_max_position_notional :: rat
  pl_max_price_deviation_bps :: rat
  pl_max_spread_bps :: rat
  pl_max_expected_slippage_bps :: rat
  pl_max_reference_age_ms :: int

record PreTradeContext =
  pc_reference_price :: rat
  pc_reference_time :: datetime
  pc_bid :: rat
  pc_ask :: rat
  pc_expected_slippage_bps :: rat
  pc_current_position_qty :: rat
  pc_available_balance :: rat
  pc_symbol_trading :: bool
  pc_trading_state_allows_new_risk :: bool
  pc_min_price :: "rat option"
  pc_max_price :: "rat option"

record PreTradeDecision =
  pd_allowed :: bool
  pd_reasons :: "string list"
  pd_order_notional :: rat
  pd_resulting_position_notional :: rat
  pd_spread_bps :: rat
  pd_reference_age_ms :: int

definition bps :: "rat \<Rightarrow> rat \<Rightarrow> rat res" where
  "bps a b = (if b \<le> 0 then Inl (ValueError ''reference price must be positive'')
              else Inr (dec (dec (dec \<bar>dec (a - b)\<bar> / b) * 10000)))"

text \<open>\<open>int((now - reference_time).total_seconds() * 1000)\<close> on a difference in microseconds.\<close>

definition age_millis :: "int \<Rightarrow> int" where
  "age_millis us = max 0 (round_down (flt (flt (of_int us / 1000000) * 1000)))"

definition reduce_only_reasons :: "string \<Rightarrow> rat \<Rightarrow> rat \<Rightarrow> string list" where
  "reduce_only_reasons side qty pos =
     (if pos = 0 then [''REDUCE_ONLY_FLAT'']
      else if pos > 0 \<and> side \<noteq> ''SELL'' then [''REDUCE_ONLY_SIDE'']
      else if pos < 0 \<and> side \<noteq> ''BUY'' then [''REDUCE_ONLY_SIDE'']
      else if qty > dec \<bar>pos\<bar> then [''REDUCE_ONLY_CROSS_ZERO''] else [])"

definition evaluate_pretrade ::
  "OrderIntent \<Rightarrow> PreTradeLimits \<Rightarrow> PreTradeContext \<Rightarrow> datetime \<Rightarrow> PreTradeDecision res" where
  "evaluate_pretrade intent limits ctx now =
     (if \<not> is_aware (pc_reference_time ctx) then Inl (ValueError ''reference_time must be timezone-aware'')
      else if \<not> is_aware now then Inl (TypeError ''can't subtract offset-naive and offset-aware datetimes'')
      else
        let age_ms = age_millis (micros now - micros (pc_reference_time ctx));
            qty = oi_quantity intent; side = upper (oi_side intent); ref = pc_reference_price ctx;
            px = (case oi_price intent of Some p \<Rightarrow> p | None \<Rightarrow> ref);
            order_notional = dec \<bar>dec (qty * px)\<bar>;
            side_sign = (if side = ''BUY'' then 1 else -1);
            resulting_qty = dec (pc_current_position_qty ctx + dec (side_sign * qty));
            resulting_notional = dec \<bar>dec (resulting_qty * ref)\<bar>
        in bind_res (bps px ref) (\<lambda>deviation.
          let spread = dec (dec (dec (pc_ask ctx - pc_bid ctx) / ref) * 10000);
              reasons =
                flag (side \<notin> {''BUY'', ''SELL''}) ''SIDE_SANITY'' @
                flag (\<not> pc_trading_state_allows_new_risk ctx \<and> \<not> oi_reduce_only intent) ''TRADING_STATE_BLOCKS_NEW_RISK'' @
                flag (\<not> pc_symbol_trading ctx) ''SYMBOL_NOT_TRADING'' @
                flag (age_ms > pl_max_reference_age_ms limits) ''STALE_REFERENCE_PRICE'' @
                flag (qty \<le> 0 \<or> qty > pl_max_quantity limits) ''MAX_QUANTITY'' @
                flag (order_notional > pl_max_order_notional limits) ''MAX_ORDER_NOTIONAL'' @
                flag (resulting_notional > pl_max_position_notional limits \<and> \<not> oi_reduce_only intent) ''MAX_POSITION_NOTIONAL'' @
                flag (deviation > pl_max_price_deviation_bps limits) ''PRICE_COLLAR'' @
                flag (spread > pl_max_spread_bps limits) ''SPREAD_LIMIT'' @
                flag (pc_expected_slippage_bps ctx > pl_max_expected_slippage_bps limits) ''SLIPPAGE_LIMIT'' @
                flag (case pc_min_price ctx of None \<Rightarrow> False | Some p \<Rightarrow> px < p) ''EXCHANGE_MIN_PRICE'' @
                flag (case pc_max_price ctx of None \<Rightarrow> False | Some p \<Rightarrow> px > p) ''EXCHANGE_MAX_PRICE'' @
                flag (oi_market_type intent = SPOT \<and> side = ''BUY'' \<and> order_notional > pc_available_balance ctx)
                  ''INSUFFICIENT_AVAILABLE_BALANCE'' @
                (if oi_reduce_only intent then reduce_only_reasons side qty (pc_current_position_qty ctx) else [])
          in Inr \<lparr>pd_allowed = (reasons = []), pd_reasons = reasons, pd_order_notional = order_notional,
                  pd_resulting_position_notional = resulting_notional, pd_spread_bps = spread,
                  pd_reference_age_ms = age_ms\<rparr>))"

definition require_pretrade ::
  "OrderIntent \<Rightarrow> PreTradeLimits \<Rightarrow> PreTradeContext \<Rightarrow> datetime \<Rightarrow> PreTradeDecision res" where
  "require_pretrade intent limits ctx now =
     bind_res (evaluate_pretrade intent limits ctx now) (\<lambda>decision.
       if \<not> pd_allowed decision
       then Inl (PermissionError (''pre-trade rejected: '' @ join '','' (pd_reasons decision)))
       else Inr decision)"

section \<open>Normalised orders fit the exchange's filters\<close>

lemma normalize_and_validate_cases:
  assumes "normalize_and_validate intent f cap ref dev = Inr n"
  obtains qty price cid where
    "n = intent\<lparr>oi_order_type := upper (oi_order_type intent), oi_quantity := qty, oi_price := price, oi_client_order_id := Some cid\<rparr>"
    "order_supported cap (upper (oi_order_type intent))"
    "normalize_quantity (Num (oi_quantity intent)) (Num (sf_step_size f)) = Inr qty"
    "sf_min_qty f \<le> qty" "qty \<le> sf_max_qty f"
    "case oi_price intent of None \<Rightarrow> price = None
     | Some p \<Rightarrow> \<exists>x d. price = Some x \<and> normalize_price (Num p) (Num (sf_tick_size f)) (oi_side intent) = Inr x \<and>
         bps_distance (Num x) (Num ref) = Inr d \<and> d \<le> dev"
    "sf_min_notional f \<le> dec (notional_price price ref * qty)"
    "\<forall>mx. sf_max_notional f = Some mx \<and> mx \<noteq> 0 \<longrightarrow> dec (notional_price price ref * qty) \<le> mx"
  using assms unfolding normalize_and_validate_def Let_def
  by (simp add: bind_res_Inr not_less split: if_split_asm option.split_asm) blast+

lemma quantize_step_ok: "quantize_step (Num x) (Num s) d = Inr y \<Longrightarrow> 0 < s"
  by (auto simp: quantize_step_def split: if_splits)

lemma normalize_quantity_sound:
  assumes "normalize_quantity (Num x) (Num s) = Inr y" "digits27 q x" "0 \<le> x" "digits27 q s"
  shows "nearest_step ''down'' s x y"
  using assms quantize_step_sound [of q x s "''down''"] quantize_step_ok [of x s "''down''" y] by (auto simp: normalize_quantity_def)

lemma normalize_price_sound:
  assumes "normalize_price (Num x) (Num s) side = Inr y" "digits27 q x" "0 \<le> x" "digits27 q s"
  shows "nearest_step (if upper side = ''BUY'' then ''down'' else ''up'') s x y"
proof -
  have *: "quantize_step (Num x) (Num s) d = Inr y \<Longrightarrow> nearest_step d s x y" for d
    using quantize_step_sound [OF assms(2-4), of d] quantize_step_ok [of x s d y] by auto
  show ?thesis using assms(1) * unfolding normalize_price_def by blast
qed

definition grid27 :: "rat \<Rightarrow> rat \<Rightarrow> bool" where
  "grid27 step x \<longleftrightarrow> 0 \<le> x \<and> (\<exists>q. digits27 q x \<and> digits27 q step)"

text \<open>
  C13: an order that passes \<open>normalize_and_validate\<close> fits the exchange's filters. Its quantity lies between the minimum and the maximum; its notional, at its price or at the
  reference price when it has none (or a zero one), is at least the minimum and at most a maximum that is set; its order type is supported; symbol, side and account are unchanged; an order without
  price stays without one. When the requested quantity, and the requested price if there is one, are not negative and have at most 27 digits on a grid they share with
  the filter's step, the quantity is the largest multiple of the step size not above the requested one, and a limit price is the nearest multiple of the tick size that is no worse
  than the requested one for the account (not above it for a BUY, not below it otherwise) and lies within the price collar.
\<close>

theorem normalized_order_fits:
  assumes "normalize_and_validate intent f cap ref dev = Inr n"
    and "grid27 (sf_step_size f) (oi_quantity intent)"
    and "\<And>p. oi_price intent = Some p \<Longrightarrow> grid27 (sf_tick_size f) p"
  shows "(nearest_step ''down'' (sf_step_size f) (oi_quantity intent) (oi_quantity n)) \<and>
    (oi_quantity n \<in> {sf_min_qty f..sf_max_qty f}) \<and>
    (case oi_price intent of
       None \<Rightarrow> oi_price n = None
     | Some p \<Rightarrow> \<exists>price d. oi_price n = Some price \<and>
         nearest_step (if upper (oi_side intent) = ''BUY'' then ''down'' else ''up'') (sf_tick_size f) p price \<and>
         bps_distance (Num price) (Num ref) = Inr d \<and> d \<le> dev) \<and>
    (sf_min_notional f \<le> dec (notional_price (oi_price n) ref * oi_quantity n)) \<and>
    (\<forall>mx. sf_max_notional f = Some mx \<and> mx \<noteq> 0 \<longrightarrow> dec (notional_price (oi_price n) ref * oi_quantity n) \<le> mx) \<and>
    (order_supported cap (oi_order_type n)) \<and>
    (oi_side n = oi_side intent \<and> oi_symbol n = oi_symbol intent \<and> oi_account_id n = oi_account_id intent)"
proof -
  obtain qty price cid where n: "n = intent\<lparr>oi_order_type := upper (oi_order_type intent), oi_quantity := qty,
        oi_price := price, oi_client_order_id := Some cid\<rparr>"
    and sup: "order_supported cap (upper (oi_order_type intent))"
    and qty: "normalize_quantity (Num (oi_quantity intent)) (Num (sf_step_size f)) = Inr qty" "sf_min_qty f \<le> qty" "qty \<le> sf_max_qty f"
    and price: "case oi_price intent of None \<Rightarrow> price = None
       | Some p \<Rightarrow> \<exists>x d. price = Some x \<and> normalize_price (Num p) (Num (sf_tick_size f)) (oi_side intent) = Inr x \<and>
           bps_distance (Num x) (Num ref) = Inr d \<and> d \<le> dev"
    and lo: "sf_min_notional f \<le> dec (notional_price price ref * qty)"
    and hi: "\<forall>mx. sf_max_notional f = Some mx \<and> mx \<noteq> 0 \<longrightarrow> dec (notional_price price ref * qty) \<le> mx"
    by (rule normalize_and_validate_cases [OF assms(1)])
  have p1: "nearest_step ''down'' (sf_step_size f) (oi_quantity intent) (oi_quantity n)"
    using normalize_quantity_sound [OF qty(1)] assms(2) by (auto simp: n grid27_def)
  have p2: "oi_quantity n \<in> {sf_min_qty f..sf_max_qty f}" using qty(2,3) by (simp add: n)
  have p3: "case oi_price intent of
       None \<Rightarrow> oi_price n = None
     | Some p \<Rightarrow> \<exists>price d. oi_price n = Some price \<and>
         nearest_step (if upper (oi_side intent) = ''BUY'' then ''down'' else ''up'') (sf_tick_size f) p price \<and>
         bps_distance (Num price) (Num ref) = Inr d \<and> d \<le> dev"
  proof (cases "oi_price intent")
    case None
    then show ?thesis using price by (simp add: n)
  next
    case (Some p)
    then obtain x d q where x: "price = Some x" "bps_distance (Num x) (Num ref) = Inr d" "d \<le> dev"
        "normalize_price (Num p) (Num (sf_tick_size f)) (oi_side intent) = Inr x" "digits27 q p" "0 \<le> p" "digits27 q (sf_tick_size f)"
      using price assms(3) by (auto simp: grid27_def)
    from normalize_price_sound [OF x(4-7)] x(1-3) show ?thesis
      unfolding n Some option.case by (intro exI conjI) (assumption | simp)+
  qed
  have p4: "sf_min_notional f \<le> dec (notional_price (oi_price n) ref * oi_quantity n)" using lo by (simp add: n)
  have p5: "\<forall>mx. sf_max_notional f = Some mx \<and> mx \<noteq> 0 \<longrightarrow> dec (notional_price (oi_price n) ref * oi_quantity n) \<le> mx" using hi by (simp add: n)
  have p6: "order_supported cap (oi_order_type n)" using sup by (simp add: n)
  have p7: "oi_side n = oi_side intent \<and> oi_symbol n = oi_symbol intent \<and> oi_account_id n = oi_account_id intent"
    by (simp add: n)
  show ?thesis by (rule conjI [OF p1 conjI [OF p2 conjI [OF p3 conjI [OF p4 conjI [OF p5 conjI [OF p6 p7]]]]]])
qed

definition btc_filters :: SymbolFilters where
  "btc_filters = \<lparr>sf_tick_size = 1, sf_step_size = 1, sf_min_qty = 1,
     sf_max_qty = 100, sf_min_notional = 5, sf_max_notional = None, sf_max_orders = None\<rparr>"

definition spot_capabilities :: Capabilities where
  "spot_capabilities = \<lparr>cap_market = True, cap_limit = True, cap_stop = True, cap_take_profit = True, cap_trailing_stop = False,
     cap_oco = False, cap_post_only = False, cap_reduce_only = False, cap_client_order_id = True, cap_testnet = True,
     cap_private_stream = True, cap_stp_modes = [], cap_time_in_force = [''GTC'']\<rparr>"

definition limit_buy :: OrderIntent where
  "limit_buy = \<lparr>oi_intent_id = ''i1'', oi_account_id = ''acc'', oi_symbol = ''BTCUSDT'', oi_side = ''BUY'',
     oi_order_type = ''LIMIT'', oi_quantity = 2, oi_price = Some 50000, oi_stop_price = None,
     oi_market_type = SPOT, oi_strategy_id = ''s1'', oi_reduce_only = False, oi_client_order_id = None\<rparr>"

lemma quantize_step_one:
  assumes "0 \<le> m" "m < 10 ^ 27" shows "quantize_step (Num (of_int m)) (Num 1) d = Inr (of_int m)"
  using quantize_units [of m 1 0 d] assms by simp

lemma limit_order_normalizes:
  assumes "upper t = ''LIMIT''"
  shows "is_ok (normalize_and_validate (limit_buy\<lparr>oi_order_type := t\<rparr>) btc_filters spot_capabilities 50000 100)"
proof -
  have u: "order_supported spot_capabilities ''LIMIT''" by code_simp
  have q: "normalize_quantity (Num 2) (Num 1) = Inr 2" "normalize_price (Num 50000) (Num 1) side = Inr 50000" for side
    using quantize_step_one [of 2] quantize_step_one [of 50000] by (simp_all add: normalize_quantity_def normalize_price_def)
  have d: "dec 100000 = 100000" using dec.rnd_of_int [of 100000] by simp
  have b: "bps_distance (Num 50000) (Num 50000) = Inr 0" by (simp add: bps_distance_def)
  show ?thesis by (simp add: normalize_and_validate_def notional_price_def limit_buy_def btc_filters_def assms u q d b)
qed

lemma limit_buy_normalizes: "is_ok (normalize_and_validate limit_buy btc_filters spot_capabilities 50000 100)"
proof -
  have "upper ''LIMIT'' = ''LIMIT''" by code_simp
  from limit_order_normalizes [OF this] show ?thesis by (simp add: limit_buy_def)
qed

theorem normalized_order_fits_witness:
  "\<exists>n. normalize_and_validate limit_buy btc_filters spot_capabilities 50000 100 = Inr n \<and>
     nearest_step ''down'' 1 2 (oi_quantity n) \<and> 5 \<le> dec (notional_price (oi_price n) 50000 * oi_quantity n)"
proof -
  obtain n where n: "normalize_and_validate limit_buy btc_filters spot_capabilities 50000 100 = Inr n"
    using limit_buy_normalizes by (auto simp: is_ok_iff)
  have "digits27 0 2" "digits27 0 1" "digits27 0 50000"
    using digits27_of_int [of 2 0] digits27_of_int [of 1 0] digits27_of_int [of 50000 0] by simp_all
  then have "grid27 (sf_step_size btc_filters) (oi_quantity limit_buy)" "oi_price limit_buy = Some p \<Longrightarrow> grid27 (sf_tick_size btc_filters) p" for p
    by (auto simp: grid27_def limit_buy_def btc_filters_def)
  from normalized_order_fits [OF n this] n show ?thesis by (auto simp: limit_buy_def btc_filters_def)
qed

section \<open>The pre-trade guard fails closed\<close>

text \<open>The two float roundings behind \<open>age_millis\<close> are off by less than one microsecond for 31 years of age.\<close>

lemma age_float_error:
  assumes "0 \<le> us" "us < 10 ^ 15"
  shows "of_int us / 1000 - 1 / 1000 < flt (flt (of_int us / 1000000) * 1000)"
proof -
  define x where "x = (of_int us / 1000000 :: rat)"
  define y where "y = flt x * 1000"
  define e where "e = (of_int (2 * 2 ^ (53 - 1)) :: rat)"
  have e: "0 < e" and x: "0 \<le> x" and y: "0 \<le> y" using assms by (simp_all add: e_def x_def y_def)
  have err: "t - t / e \<le> flt t" "flt t \<le> t + t / e" if "0 \<le> t" for t
    using flt.rnd_error [of t] that unfolding e_def by (simp_all only: abs_of_nonneg)
  have "(of_int us :: rat) < of_int (10 ^ 15)" using assms by (simp only: of_int_less_iff)
  then have "2500 * x < 1 / 1000 * e" by (simp add: x_def e_def)
  then have small: "2500 * (x / e) < 1 / 1000" using e by (simp add: field_simps)
  have "x / e \<le> x / 2" using x by (intro divide_left_mono) (simp_all add: e_def)
  with err [OF x] have "y \<le> 1500 * x" unfolding y_def by linarith
  then have "y / e \<le> 1500 * x / e" using e by (intro divide_right_mono) auto
  then have "y / e \<le> 1500 * (x / e)" by simp
  with err(1) [OF x] err(1) [OF y] small have "1000 * x - 1 / 1000 < flt y" unfolding y_def by linarith
  then show ?thesis by (simp add: x_def y_def)
qed

lemma fresh_reference_bound:
  assumes "age_millis us \<le> m" "us < 10 ^ 15" shows "us \<le> (m + 1) * 1000"
proof (cases "0 \<le> us")
  case True
  let ?y = "flt (flt (of_int us / 1000000) * 1000)"
  have "\<lfloor>?y\<rfloor> \<le> m" using assms True by (simp add: age_millis_def round_down_def)
  then have "?y < of_int m + 1" by (simp add: floor_le_iff)
  with age_float_error [OF True assms(2)] have "(of_int us :: rat) < of_int ((m + 1) * 1000 + 1)" by simp
  then show ?thesis unfolding of_int_less_iff by simp
next
  case False
  have "0 \<le> m" using assms(1) by (simp add: age_millis_def)
  with False show ?thesis by simp
qed

text \<open>One microsecond can be lost: a reference price of age 1001 ms counts as 1000 ms old.\<close>

lemma age_millis_rounds_down: "age_millis 1001000 = 1000"
  by code_simp

definition position_after :: "string \<Rightarrow> rat \<Rightarrow> rat \<Rightarrow> rat" where
  "position_after side qty pos = (if side = ''BUY'' then pos + qty else pos - qty)"

text \<open>What an order that only reduces does to a position: it shrinks and does not change sign.\<close>

definition reduces :: "rat \<Rightarrow> rat \<Rightarrow> bool" where
  "reduces pos pos' \<longleftrightarrow> (if 0 < pos then 0 \<le> pos' \<and> pos' < pos else pos < pos' \<and> pos' \<le> 0)"

lemma reduce_only_reasons_Nil:
  assumes "reduce_only_reasons side qty pos = []" "dec pos = pos" "0 < qty"
  shows "reduces pos (position_after side qty pos)"
proof -
  have a: "dec \<bar>pos\<bar> = \<bar>pos\<bar>" using assms(2) by (simp add: dec.R_abs)
  show ?thesis
  proof (cases "0 < pos")
    case True
    then have "side = ''SELL''" "qty \<le> pos"
      using assms(1) unfolding reduce_only_reasons_def a
      by (auto simp only: not_less list.distinct not_Cons_self2 abs_of_pos split: if_split_asm)
    with True assms(3) show ?thesis by (simp add: reduces_def position_after_def)
  next
    case False
    then have "pos < 0" "side = ''BUY''" "qty \<le> - pos"
      using assms(1) unfolding reduce_only_reasons_def a
      by (auto simp only: not_less list.distinct not_Cons_self2 abs_of_neg abs_of_nonpos split: if_split_asm)
    with assms(3) show ?thesis by (simp add: reduces_def position_after_def)
  qed
qed

text \<open>The values the guard compares.\<close>

definition order_price :: "OrderIntent \<Rightarrow> PreTradeContext \<Rightarrow> rat" where
  "order_price intent ctx = (case oi_price intent of Some p \<Rightarrow> p | None \<Rightarrow> pc_reference_price ctx)"

definition order_notional :: "OrderIntent \<Rightarrow> PreTradeContext \<Rightarrow> rat" where
  "order_notional intent ctx = dec \<bar>dec (oi_quantity intent * order_price intent ctx)\<bar>"

definition position_notional :: "OrderIntent \<Rightarrow> PreTradeContext \<Rightarrow> rat" where
  "position_notional intent ctx =
     dec \<bar>dec (dec (pc_current_position_qty ctx + dec ((if upper (oi_side intent) = ''BUY'' then 1 else -1) * oi_quantity intent)) * pc_reference_price ctx)\<bar>"

definition quoted_spread :: "PreTradeContext \<Rightarrow> rat" where
  "quoted_spread ctx = dec (dec (dec (pc_ask ctx - pc_bid ctx) / pc_reference_price ctx) * 10000)"

lemma evaluate_pretrade_cases:
  assumes "evaluate_pretrade intent limits ctx now = Inr d" "pd_allowed d"
  shows "upper (oi_side intent) \<in> {''BUY'', ''SELL''}"
    and "pc_trading_state_allows_new_risk ctx \<or> oi_reduce_only intent" and "pc_symbol_trading ctx"
    and "age_millis (micros now - micros (pc_reference_time ctx)) \<le> pl_max_reference_age_ms limits"
    and "0 < oi_quantity intent" and "oi_quantity intent \<le> pl_max_quantity limits"
    and "order_notional intent ctx \<le> pl_max_order_notional limits"
    and "position_notional intent ctx \<le> pl_max_position_notional limits \<or> oi_reduce_only intent"
    and "quoted_spread ctx \<le> pl_max_spread_bps limits"
    and "oi_market_type intent = SPOT \<Longrightarrow> upper (oi_side intent) = ''BUY'' \<Longrightarrow> order_notional intent ctx \<le> pc_available_balance ctx"
    and "oi_reduce_only intent \<Longrightarrow>
      reduce_only_reasons (upper (oi_side intent)) (oi_quantity intent) (pc_current_position_qty ctx) = []"
    and "\<exists>dv. bps (order_price intent ctx) (pc_reference_price ctx) = Inr dv \<and> dv \<le> pl_max_price_deviation_bps limits"
    and "pc_expected_slippage_bps ctx \<le> pl_max_expected_slippage_bps limits"
    and "pc_min_price ctx = Some p \<Longrightarrow> p \<le> order_price intent ctx" and "pc_max_price ctx = Some p \<Longrightarrow> order_price intent ctx \<le> p"
    and "is_aware (pc_reference_time ctx)" and "is_aware now"
proof -
  note unfolded = assms [unfolded evaluate_pretrade_def Let_def, folded order_price_def, folded order_notional_def position_notional_def quoted_spread_def]
  have aware: "is_aware (pc_reference_time ctx)" "is_aware now" using unfolded(1) by (simp_all split: if_split_asm)
  then show "is_aware (pc_reference_time ctx)" "is_aware now" by simp_all
  obtain dv where dv: "bps (order_price intent ctx) (pc_reference_price ctx) = Inr dv" using unfolded(1) aware by (auto simp: bind_res_Inr)
  show "upper (oi_side intent) \<in> {''BUY'', ''SELL''}" "pc_symbol_trading ctx" "pc_trading_state_allows_new_risk ctx \<or> oi_reduce_only intent"
    using unfolded aware dv by auto
  show "age_millis (micros now - micros (pc_reference_time ctx)) \<le> pl_max_reference_age_ms limits" "0 < oi_quantity intent" "oi_quantity intent \<le> pl_max_quantity limits"
    using unfolded aware dv by auto
  show "order_notional intent ctx \<le> pl_max_order_notional limits" "position_notional intent ctx \<le> pl_max_position_notional limits \<or> oi_reduce_only intent"
    using unfolded aware dv by auto
  show "quoted_spread ctx \<le> pl_max_spread_bps limits" "pc_expected_slippage_bps ctx \<le> pl_max_expected_slippage_bps limits"
    using unfolded aware dv by auto
  show "\<exists>dv. bps (order_price intent ctx) (pc_reference_price ctx) = Inr dv \<and> dv \<le> pl_max_price_deviation_bps limits" using unfolded aware dv by auto
  show "pc_min_price ctx = Some p \<Longrightarrow> p \<le> order_price intent ctx" "pc_max_price ctx = Some p \<Longrightarrow> order_price intent ctx \<le> p"
    using unfolded aware dv by auto
  show "oi_market_type intent = SPOT \<Longrightarrow> upper (oi_side intent) = ''BUY'' \<Longrightarrow> order_notional intent ctx \<le> pc_available_balance ctx"
    using unfolded aware dv by auto
  show "oi_reduce_only intent \<Longrightarrow> reduce_only_reasons (upper (oi_side intent)) (oi_quantity intent) (pc_current_position_qty ctx) = []"
    using unfolded aware dv by auto
qed

text \<open>
  C12: an order that the pre-trade guard allows respects every limit. Its side is BUY or SELL and its symbol is trading; its quantity is positive and within the limit; its
  notional is within the limit and, for a spot BUY, within the balance; its price deviates from the reference by no more than the collar and lies within the exchange's price range; the
  quoted spread and the expected slippage are within their limits; the reference price is at most one millisecond older than the limit allows (for ages below 31 years,
  float rounding included). An order that is not reduce-only is allowed only when the trading state permits new risk, and keeps the resulting position within its limit; a
  reduce-only order strictly shrinks a position of at most 28 digits and never turns it around.
\<close>

theorem pretrade_guard_fails_closed:
  assumes "evaluate_pretrade intent limits ctx now = Inr d" "pd_allowed d"
    and "micros now - micros (pc_reference_time ctx) < 10 ^ 15"
    and "dec (pc_current_position_qty ctx) = pc_current_position_qty ctx"
  shows "(upper (oi_side intent) \<in> {''BUY'', ''SELL''} \<and> pc_symbol_trading ctx \<and> 0 < oi_quantity intent \<and> oi_quantity intent \<le> pl_max_quantity limits) \<and>
    (order_notional intent ctx \<le> pl_max_order_notional limits) \<and>
    (oi_market_type intent = SPOT \<and> upper (oi_side intent) = ''BUY'' \<longrightarrow> order_notional intent ctx \<le> pc_available_balance ctx) \<and>
    (\<exists>dv. bps (order_price intent ctx) (pc_reference_price ctx) = Inr dv \<and> dv \<le> pl_max_price_deviation_bps limits) \<and>
    (\<forall>p. (pc_min_price ctx = Some p \<longrightarrow> p \<le> order_price intent ctx) \<and> (pc_max_price ctx = Some p \<longrightarrow> order_price intent ctx \<le> p)) \<and>
    (quoted_spread ctx \<le> pl_max_spread_bps limits \<and> pc_expected_slippage_bps ctx \<le> pl_max_expected_slippage_bps limits) \<and>
    (micros now - micros (pc_reference_time ctx) \<le> (pl_max_reference_age_ms limits + 1) * 1000) \<and>
    (\<not> oi_reduce_only intent \<longrightarrow> pc_trading_state_allows_new_risk ctx \<and> position_notional intent ctx \<le> pl_max_position_notional limits) \<and>
    (oi_reduce_only intent \<longrightarrow> reduces (pc_current_position_qty ctx)
      (position_after (upper (oi_side intent)) (oi_quantity intent) (pc_current_position_qty ctx)))"
proof -
  note ok = evaluate_pretrade_cases [OF assms(1,2)]
  have p1: "upper (oi_side intent) \<in> {''BUY'', ''SELL''} \<and> pc_symbol_trading ctx \<and> 0 < oi_quantity intent \<and> oi_quantity intent \<le> pl_max_quantity limits"
    using ok(1,3,5,6) by blast
  have p3: "oi_market_type intent = SPOT \<and> upper (oi_side intent) = ''BUY'' \<longrightarrow> order_notional intent ctx \<le> pc_available_balance ctx"
    using ok(10) by blast
  have p4: "\<forall>p. (pc_min_price ctx = Some p \<longrightarrow> p \<le> order_price intent ctx) \<and> (pc_max_price ctx = Some p \<longrightarrow> order_price intent ctx \<le> p)"
    using ok(14,15) by blast
  have p5: "quoted_spread ctx \<le> pl_max_spread_bps limits \<and> pc_expected_slippage_bps ctx \<le> pl_max_expected_slippage_bps limits" using ok(9,13) by blast
  have p6: "micros now - micros (pc_reference_time ctx) \<le> (pl_max_reference_age_ms limits + 1) * 1000"
    by (rule fresh_reference_bound [OF ok(4) assms(3)])
  have p7: "\<not> oi_reduce_only intent \<longrightarrow> pc_trading_state_allows_new_risk ctx \<and> position_notional intent ctx \<le> pl_max_position_notional limits"
    using ok(2,8) by blast
  have p8: "oi_reduce_only intent \<longrightarrow> reduces (pc_current_position_qty ctx)
      (position_after (upper (oi_side intent)) (oi_quantity intent) (pc_current_position_qty ctx))"
    using reduce_only_reasons_Nil [OF ok(11) assms(4) ok(5)] by blast
  show ?thesis by (intro conjI p1 ok(7) p3 ok(12) p4 p5 p6 p7 p8)
qed

definition reduce_sell :: OrderIntent where
  "reduce_sell = limit_buy\<lparr>oi_side := ''sell'', oi_market_type := PERPETUAL, oi_reduce_only := True\<rparr>"

definition desk_limits :: PreTradeLimits where
  "desk_limits = \<lparr>pl_max_order_notional = 200000, pl_max_quantity = 5, pl_max_position_notional = 300000,
     pl_max_price_deviation_bps = 50, pl_max_spread_bps = 10, pl_max_expected_slippage_bps = 10, pl_max_reference_age_ms = 1000\<rparr>"

definition halted_context :: PreTradeContext where
  "halted_context = \<lparr>pc_reference_price = 50000, pc_reference_time = Aware 0, pc_bid = 50000, pc_ask = 50000,
     pc_expected_slippage_bps = 0, pc_current_position_qty = 3, pc_available_balance = 0, pc_symbol_trading = True,
     pc_trading_state_allows_new_risk = False, pc_min_price = None, pc_max_price = None\<rparr>"

lemma reduce_sell_allowed: "\<exists>d. evaluate_pretrade reduce_sell desk_limits halted_context (Aware 0) = Inr d \<and> pd_allowed d"
proof -
  have u: "upper ''sell'' = ''SELL''" by code_simp
  have d: "dec 100000 = 100000" "dec (- 2) = - 2" "dec 1 = 1" "dec 50000 = 50000" "dec 3 = 3"
    using dec.rnd_of_int [of 100000] dec.rnd_of_int [of "- 2"] dec.rnd_of_int [of 1] dec.rnd_of_int [of 50000] dec.rnd_of_int [of 3]
    by simp_all
  have a: "age_millis 0 = 0" by (simp add: age_millis_def round_down_def)
  show ?thesis
    by (simp add: evaluate_pretrade_def reduce_sell_def limit_buy_def desk_limits_def halted_context_def
        u d a bps_def reduce_only_reasons_def)
qed

theorem pretrade_guard_fails_closed_witness:
  "\<exists>d. evaluate_pretrade reduce_sell desk_limits halted_context (Aware 0) = Inr d \<and> pd_allowed d \<and> reduces 3 (position_after ''SELL'' 2 3) \<and>
     order_notional reduce_sell halted_context \<le> 200000"
proof -
  obtain d where d: "evaluate_pretrade reduce_sell desk_limits halted_context (Aware 0) = Inr d" "pd_allowed d"
    using reduce_sell_allowed by blast
  moreover have "upper ''sell'' = ''SELL''" by code_simp
  ultimately show ?thesis
    using pretrade_guard_fails_closed [of reduce_sell desk_limits halted_context "Aware 0" d] dec.rnd_of_int [of 3] d
    by (auto simp: reduce_sell_def limit_buy_def halted_context_def desk_limits_def)
qed

end
