(* ===== verification/Capital.thy ===== *)
theory Capital
  imports Trading_Types
begin

text \<open>
  Claims on shared resources: the capital reservation ledger (\<open>backend/app/execution/reservation.py\<close>), the leader lease with
  its fencing token (\<open>execution/leader.py\<close>), the symbol quarantine (\<open>execution/isolation.py\<close>) and the per-strategy lots
  (\<open>execution/ownership.py\<close>). The locks that serialise the methods are not modelled: each method is one step, and the
  theorems are about all sequences of steps. A clock reading that defaults to \<open>time.time()\<close> is an argument.
\<close>

section \<open>Capital reservations\<close>

record Reservation =
  rv_intent_id :: string
  rv_amount :: rat
  rv_expires_at :: rat
  rv_asset :: string
  rv_account_id :: string
  rv_available :: "rat option"

type_synonym reservations = "(string, Reservation) dict"

definition prune_locked :: "rat \<Rightarrow> reservations \<Rightarrow> reservations" where
  "prune_locked now items =
     fold (\<lambda>key d. ddel key d) (map fst (filter (\<lambda>(k, v). rv_expires_at v \<le> now) items)) items"

definition total_reserved :: "string \<Rightarrow> reservations \<Rightarrow> rat" where
  "total_reserved asset items =
     dsum (map rv_amount (filter (\<lambda>x. rv_asset x = asset) (map snd items)))"

definition reserve ::
  "string \<Rightarrow> rat \<Rightarrow> rat \<Rightarrow> rat \<Rightarrow> rat \<Rightarrow> string \<Rightarrow> string \<Rightarrow> reservations \<Rightarrow> reservations \<times> Reservation res" where
  "reserve intent_id amount available ttl now asset account_id items =
     (if amount \<le> 0 then (items, Inl (ValueError ''reservation amount must be positive''))
      else if available < 0 then (items, Inl (ValueError ''available capital cannot be negative''))
      else
        let items1 = prune_locked now items
        in case dget items1 intent_id of
             Some r \<Rightarrow> (items1, Inr r)
           | None \<Rightarrow>
               (let used = total_reserved asset items1
                in if dec (used + amount) > available
                   then (items1, Inl (ValueError ''insufficient unreserved capital''))
                   else
                     let r = \<lparr>rv_intent_id = intent_id, rv_amount = amount, rv_expires_at = flt (now + ttl),
                              rv_asset = asset, rv_account_id = account_id, rv_available = Some available\<rparr>
                     in (dset intent_id r items1, Inr r)))"

definition release :: "string \<Rightarrow> reservations \<Rightarrow> reservations \<times> Reservation option" where
  "release intent_id items = (ddel intent_id items, dget items intent_id)"

definition validate_live_balance :: "string \<Rightarrow> (string, rat) dict \<Rightarrow> reservations \<Rightarrow> unit res" where
  "validate_live_balance intent_id balances items =
     (case dget items intent_id of
        None \<Rightarrow> Inl (PermissionError ''missing capital reservation'')
      | Some r \<Rightarrow>
          (let current = get_or balances (rv_asset r) 0; reserved = total_reserved (rv_asset r) items
           in if current < reserved
              then Inl (PermissionError ''shared balance changed; reserved capital no longer covered'')
              else Inr ()))"

section \<open>Leader leases\<close>

record Lease =
  ls_account_id :: string
  ls_instance_id :: string
  ls_fencing_token :: int
  ls_expires_at :: rat

record LeaderRegistry =
  lr_leases :: "(string, Lease) dict"
  lr_tokens :: "(string, int) dict"

text \<open>\<open>now or time.time()\<close>: a missing reading, and the reading zero, give the wall clock.\<close>

definition or_clock :: "rat option \<Rightarrow> rat \<Rightarrow> rat" where
  "or_clock now clock = (case now of None \<Rightarrow> clock | Some t \<Rightarrow> if t = 0 then clock else t)"

definition acquire ::
  "string \<Rightarrow> string \<Rightarrow> rat \<Rightarrow> rat option \<Rightarrow> rat \<Rightarrow> LeaderRegistry \<Rightarrow> LeaderRegistry \<times> Lease res" where
  "acquire account_id instance_id ttl now0 clock r =
     (let now = or_clock now0 clock; cur = dget (lr_leases r) account_id;
          live = (case cur of None \<Rightarrow> False | Some l \<Rightarrow> ls_expires_at l > now);
          own = (case cur of None \<Rightarrow> False | Some l \<Rightarrow> ls_instance_id l = instance_id)
      in if live \<and> \<not> own then (r, Inl (PermissionError ''leader already active''))
         else
           let token = get_or (lr_tokens r) account_id 0 + (if own \<and> live then 0 else 1);
               lease = \<lparr>ls_account_id = account_id, ls_instance_id = instance_id, ls_fencing_token = token,
                        ls_expires_at = flt (now + ttl)\<rparr>
           in (r\<lparr>lr_tokens := dset account_id token (lr_tokens r), lr_leases := dset account_id lease (lr_leases r)\<rparr>,
               Inr lease))"

definition validate_lease :: "string \<Rightarrow> string \<Rightarrow> int \<Rightarrow> rat option \<Rightarrow> rat \<Rightarrow> LeaderRegistry \<Rightarrow> bool" where
  "validate_lease account_id instance_id token now0 clock r =
     (let now = or_clock now0 clock
      in case dget (lr_leases r) account_id of
           None \<Rightarrow> False
         | Some l \<Rightarrow> ls_instance_id l = instance_id \<and> ls_fencing_token l = token \<and> ls_expires_at l > now)"

definition heartbeat ::
  "string \<Rightarrow> string \<Rightarrow> int \<Rightarrow> rat \<Rightarrow> rat option \<Rightarrow> rat \<Rightarrow> LeaderRegistry \<Rightarrow> LeaderRegistry \<times> Lease res" where
  "heartbeat account_id instance_id token ttl now0 clock r =
     (let now = or_clock now0 clock
      in case dget (lr_leases r) account_id of
           None \<Rightarrow> (r, Inl (PermissionError ''cannot heartbeat stale or expired leader lease''))
         | Some l \<Rightarrow>
             (if ls_instance_id l \<noteq> instance_id \<or> ls_fencing_token l \<noteq> token \<or> ls_expires_at l \<le> now
              then (r, Inl (PermissionError ''cannot heartbeat stale or expired leader lease''))
              else
                let l' = l\<lparr>ls_expires_at := flt (now + ttl)\<rparr>
                in (r\<lparr>lr_leases := dset account_id l' (lr_leases r)\<rparr>, Inr l')))"

section \<open>Symbol quarantine\<close>

record SymbolIsolationRecord =
  si_account_id :: string
  si_symbol :: string
  si_reason :: string

type_synonym isolation = "(string \<times> string, SymbolIsolationRecord) dict"

definition iso_block :: "string \<Rightarrow> string \<Rightarrow> string \<Rightarrow> isolation \<Rightarrow> isolation \<times> SymbolIsolationRecord" where
  "iso_block account_id symbol reason b =
     (let record = \<lparr>si_account_id = account_id, si_symbol = upper symbol, si_reason = reason\<rparr>
      in (dset (account_id, upper symbol) record b, record))"

definition iso_clear :: "string \<Rightarrow> string \<Rightarrow> isolation \<Rightarrow> isolation" where
  "iso_clear account_id symbol b = ddel (account_id, upper symbol) b"

definition is_blocked :: "string \<Rightarrow> string \<Rightarrow> isolation \<Rightarrow> bool" where
  "is_blocked account_id symbol b = (dget b (account_id, upper symbol) \<noteq> None)"

definition iso_reason :: "string \<Rightarrow> string \<Rightarrow> isolation \<Rightarrow> string option" where
  "iso_reason account_id symbol b = map_option si_reason (dget b (account_id, upper symbol))"

section \<open>Strategy lots\<close>

record StrategyLot =
  lot_strategy_id :: string
  lot_symbol :: string
  lot_quantity :: rat
  lot_cost_basis :: rat
  lot_realized_pnl :: rat

type_synonym ownership = "(string \<times> string, StrategyLot) dict"

definition own_allocate :: "string \<Rightarrow> string \<Rightarrow> rat \<Rightarrow> rat \<Rightarrow> ownership \<Rightarrow> ownership \<times> StrategyLot" where
  "own_allocate strategy_id symbol quantity cost_basis b =
     (let lot = \<lparr>lot_strategy_id = strategy_id, lot_symbol = symbol, lot_quantity = quantity,
                 lot_cost_basis = cost_basis, lot_realized_pnl = 0\<rparr>
      in (dset (strategy_id, symbol) lot b, lot))"

definition own_exit :: "string \<Rightarrow> string \<Rightarrow> rat \<Rightarrow> rat \<Rightarrow> ownership \<Rightarrow> ownership \<times> rat res" where
  "own_exit strategy_id symbol quantity price b =
     (case dget b (strategy_id, symbol) of
        None \<Rightarrow> (b, Inl (KeyError symbol))
      | Some lot \<Rightarrow>
          (if quantity > lot_quantity lot
           then (b, Inl (ValueError ''strategy cannot exit another strategy exposure''))
           else
             let pnl = dec (dec (price - lot_cost_basis lot) * quantity);
                 lot' = lot\<lparr>lot_quantity := dec (lot_quantity lot - quantity),
                            lot_realized_pnl := dec (lot_realized_pnl lot + pnl)\<rparr>
             in (dset (strategy_id, symbol) lot' b, Inr pnl)))"

section \<open>Reserved capital stays within the available capital\<close>

lemma prune_locked_filter: "wf_dict items \<Longrightarrow> prune_locked now items = filter (\<lambda>(k, v). \<not> rv_expires_at v \<le> now) items"
proof -
  have del: "fold (\<lambda>key d. ddel key d) ks d = filter (\<lambda>p. fst p \<notin> set ks) d" for ks and d :: reservations
    by (induction ks arbitrary: d) (auto simp: AList.delete_eq filter_filter intro!: filter_cong)
  assume wf: "wf_dict items"
  show ?thesis unfolding prune_locked_def del
    by (rule filter_cong) (use wf in \<open>auto simp: wf_dict_mem\<close>)
qed

text \<open>Leaving out summands that are not negative never makes a rounded sum larger.\<close>

lemma dsum_from_filter_le:
  "dec a = a \<Longrightarrow> (\<And>x. x \<in> set xs \<Longrightarrow> 0 \<le> f x) \<Longrightarrow> dsum_from a (map f (filter P xs)) \<le> dsum_from a (map f xs)"
proof (induction xs arbitrary: a)
  case (Cons x xs)
  show ?case
  proof (cases "P x")
    case True
    with Cons show ?thesis by (simp add: dec.R_idem)
  next
    case False
    have "a \<le> dec (a + f x)" using Cons.prems by (intro dec.R_ge_fix) auto
    then have "dsum_from a (map f xs) \<le> dsum_from (dec (a + f x)) (map f xs)" by (rule dsum_from_mono)
    moreover have "dsum_from a (map f (filter P xs)) \<le> dsum_from a (map f xs)" using Cons by simp
    ultimately show ?thesis using False by simp
  qed
qed simp

definition positive_amounts :: "reservations \<Rightarrow> bool" where
  "positive_amounts items \<longleftrightarrow> (\<forall>(k, r) \<in> set items. 0 < rv_amount r)"

lemma total_reserved_filter:
  assumes "positive_amounts items" shows "total_reserved asset (filter P items) \<le> total_reserved asset items"
proof -
  have "filter (\<lambda>x. rv_asset x = asset) (map snd (filter P items)) =
        map snd (filter P (filter (\<lambda>x. rv_asset (snd x) = asset) items))"
    by (simp add: filter_map comp_def conj_commute)
  moreover have "filter (\<lambda>x. rv_asset x = asset) (map snd items) = map snd (filter (\<lambda>x. rv_asset (snd x) = asset) items)"
    by (simp add: filter_map comp_def)
  ultimately show ?thesis
    using assms dsum_from_filter_le [of 0 "filter (\<lambda>x. rv_asset (snd x) = asset) items" "\<lambda>x. rv_amount (snd x)" P]
    by (fastforce simp: total_reserved_def dsum_def comp_def positive_amounts_def)
qed

lemma update_new: "k \<notin> fst ` set d \<Longrightarrow> dset k v d = d @ [(k, v)]"
  by (induction d) auto

lemma delete_filter: "ddel k d = filter (\<lambda>p. fst p \<noteq> k) d"
  by (auto simp: AList.delete_eq intro!: filter_cong)

definition res_inv :: "string \<Rightarrow> rat \<Rightarrow> reservations \<Rightarrow> bool" where
  "res_inv asset cap items \<longleftrightarrow> wf_dict items \<and> positive_amounts items \<and> total_reserved asset items \<le> cap"

lemma res_inv_filter: "res_inv asset cap items \<Longrightarrow> res_inv asset cap (filter P items)"
  by (auto simp: res_inv_def positive_amounts_def intro: order_trans [OF total_reserved_filter])

lemma res_inv_wf: "res_inv asset cap items \<Longrightarrow> wf_dict items"
  by (simp add: res_inv_def)

lemma res_inv_prune: "res_inv asset cap items \<Longrightarrow> res_inv asset cap (prune_locked now items)"
  using res_inv_filter by (simp add: prune_locked_filter [OF res_inv_wf])

lemma total_reserved_new:
  assumes "dget d k = None"
  shows "total_reserved asset (dset k r d) =
     (if rv_asset r = asset then dec (total_reserved asset d + rv_amount r) else total_reserved asset d)"
proof -
  have "k \<notin> fst ` set d" using assms by (simp add: map_of_eq_None_iff)
  then show ?thesis by (simp add: total_reserved_def update_new dsum_snoc)
qed

lemma reserve_inv:
  assumes "res_inv asset cap items" "asset' = asset \<Longrightarrow> available \<le> cap"
  shows "res_inv asset cap (fst (reserve intent amount available ttl now asset' acc items))"
proof -
  let ?d = "prune_locked now items"
  have d: "res_inv asset cap ?d" using assms(1) by (rule res_inv_prune)
  show ?thesis
  proof (cases "amount \<le> 0 \<or> available < 0 \<or> dget ?d intent \<noteq> None \<or> dec (total_reserved asset' ?d + amount) > available")
    case True
    then show ?thesis using d assms(1) by (auto simp: reserve_def Let_def split: option.split)
  next
    case False
    let ?r = "\<lparr>rv_intent_id = intent, rv_amount = amount, rv_expires_at = flt (now + ttl), rv_asset = asset',
       rv_account_id = acc, rv_available = Some available\<rparr>"
    from False have "fst (reserve intent amount available ttl now asset' acc items) = dset intent ?r ?d"
      by (auto simp: reserve_def Let_def)
    moreover have "positive_amounts (dset intent ?r ?d)"
      using d False by (auto simp: positive_amounts_def res_inv_def update_new map_of_eq_None_iff)
    moreover have "total_reserved asset (dset intent ?r ?d) \<le> cap"
      using False d assms(2) by (auto simp: total_reserved_new res_inv_def)
    ultimately show ?thesis using d by (simp add: res_inv_def)
  qed
qed

datatype res_op =
    Reserve string rat rat rat rat string string
  | Release string
  | Prune rat

fun res_step :: "res_op \<Rightarrow> reservations \<Rightarrow> reservations" where
  "res_step (Reserve i amt av ttl now asset acc) d = fst (reserve i amt av ttl now asset acc d)"
| "res_step (Release i) d = fst (release i d)"
| "res_step (Prune now) d = prune_locked now d"

fun within_cap :: "string \<Rightarrow> rat \<Rightarrow> res_op \<Rightarrow> bool" where
  "within_cap asset cap (Reserve i amt av ttl now asset' acc) = (asset' = asset \<longrightarrow> av \<le> cap)"
| "within_cap asset cap _ = True"

lemma res_step_inv: "res_inv asset cap d \<Longrightarrow> within_cap asset cap op \<Longrightarrow> res_inv asset cap (res_step op d)"
  by (cases op) (auto simp: reserve_inv release_def delete_filter res_inv_prune res_inv_filter)

text \<open>
  C3: capital is never overcommitted. Starting from an empty ledger, after any sequence of reservations, releases and
  expiries in any order, the amount reserved in an asset is at most the largest balance of it that any reservation was
  checked against; all of it in the rounded arithmetic of the code.
\<close>

theorem capital_never_overcommitted:
  assumes "0 \<le> cap" "\<And>op. op \<in> set ops \<Longrightarrow> within_cap asset cap op"
  shows "total_reserved asset (fold res_step ops []) \<le> cap"
proof -
  have "res_inv asset cap (fold res_step ops d)" if "res_inv asset cap d" for d
    using that assms(2) by (induction ops arbitrary: d) (auto simp: res_step_inv)
  moreover have "res_inv asset cap []"
    using assms(1) by (simp add: res_inv_def positive_amounts_def total_reserved_def)
  ultimately show ?thesis by (simp add: res_inv_def)
qed

theorem capital_never_overcommitted_witness:
  "total_reserved ''USDT'' (fold res_step [Reserve ''a'' 60 100 60 0 ''USDT'' ''x'', Reserve ''b'' 50 100 60 1 ''USDT'' ''x'',
      Release ''a'', Reserve ''c'' 70 90 60 2 ''USDT'' ''x''] []) \<le> 100"
  by (rule capital_never_overcommitted) auto

text \<open>Reserving is idempotent per intent: a second reservation of a live intent, whatever its amount, returns the first
  reservation and leaves the reserved total of every asset as it was (apart from expiries).
\<close>

theorem reserve_idempotent:
  assumes "wf_dict items" "reserve i amt av ttl now asset acc items = (items1, Inr r)" "now < rv_expires_at r"
    and "0 < amt2" "0 \<le> av2"
  shows "reserve i amt2 av2 ttl2 now asset2 acc2 items1 = (items1, Inr r)"
proof -
  have wf1: "wf_dict (prune_locked now items)" using assms(1) by (simp add: prune_locked_filter)
  have r1: "dget items1 i = Some r \<and> wf_dict items1 \<and> (\<forall>(k, v) \<in> set items1. now < rv_expires_at v)"
  proof (cases "dget (prune_locked now items) i")
    case None
    then have e: "items1 = dset i r (prune_locked now items)"
      using assms(2) by (auto simp: reserve_def Let_def split: if_splits)
    moreover have "\<forall>(k, v) \<in> set items1. now < rv_expires_at v"
      using None assms(1,3) by (auto simp: e prune_locked_filter update_new map_of_eq_None_iff)
    ultimately show ?thesis using wf1 by simp
  next
    case (Some r')
    then have "items1 = prune_locked now items" "r = r'"
      using assms(2) by (auto simp: reserve_def Let_def split: if_splits)
    with wf1 Some assms(1) show ?thesis by (auto simp: prune_locked_filter)
  qed
  then have "prune_locked now items1 = items1"
    by (auto simp: prune_locked_filter intro!: filter_True)
  with r1 assms(4,5) show ?thesis by (simp add: reserve_def Let_def)
qed

theorem reserve_idempotent_witness:
  "snd (reserve ''a'' 500 0 60 0 ''BTC'' ''y'' (fst (reserve ''a'' 60 100 60 0 ''USDT'' ''x'' []))) =
   snd (reserve ''a'' 60 100 60 0 ''USDT'' ''x'' [])"
proof -
  let ?r = "\<lparr>rv_intent_id = ''a'', rv_amount = 60, rv_expires_at = 60, rv_asset = ''USDT'', rv_account_id = ''x'',
     rv_available = Some 100\<rparr>"
  have "dec 60 = 60" "flt 60 = 60" using dec.rnd_of_int [of 60] flt.rnd_of_int [of 60] by simp_all
  then have r: "reserve ''a'' 60 100 60 0 ''USDT'' ''x'' [] = ([(''a'', ?r)], Inr ?r)"
    by (simp add: reserve_def prune_locked_def total_reserved_def Let_def)
  from reserve_idempotent [OF _ r, of 500 0 60 "''BTC''" "''y''"] show ?thesis by (simp add: r)
qed

section \<open>Fencing\<close>

definition fence_inv :: "LeaderRegistry \<Rightarrow> bool" where
  "fence_inv r \<longleftrightarrow> (\<forall>a l. dget (lr_leases r) a = Some l \<longrightarrow> dget (lr_tokens r) a = Some (ls_fencing_token l))"

datatype lease_op =
    Acquire string string rat "rat option" rat
  | Heartbeat string string int rat "rat option" rat

fun lease_step :: "lease_op \<Rightarrow> LeaderRegistry \<Rightarrow> LeaderRegistry" where
  "lease_step (Acquire a i ttl now clock) r = fst (acquire a i ttl now clock r)"
| "lease_step (Heartbeat a i tok ttl now clock) r = fst (heartbeat a i tok ttl now clock r)"

lemma fence_inv_step: "fence_inv r \<Longrightarrow> fence_inv (lease_step op r)"
  by (cases op) (auto simp: acquire_def heartbeat_def fence_inv_def Let_def split: option.splits)

lemma token_step: "get_or (lr_tokens r) a 0 \<le> get_or (lr_tokens (lease_step op r)) a 0"
  by (cases op) (auto simp: acquire_def heartbeat_def get_or_def Let_def split: option.splits)

text \<open>
  The contract of a lease registry with fencing tokens, over its own type of operations: a counter per account that never
  goes down and is the only token that is ever valid. The in-memory registry meets it here, the database registry later.
\<close>

locale lease_store = preserved step I for step :: "'op \<Rightarrow> 's \<Rightarrow> 's" and I :: "'s \<Rightarrow> bool" +
  fixes highest :: "'s \<Rightarrow> string \<Rightarrow> int" and valid :: "string \<Rightarrow> string \<Rightarrow> int \<Rightarrow> 't \<Rightarrow> 's \<Rightarrow> bool"
  assumes highest_step: "I s \<Longrightarrow> highest s a \<le> highest (step op s) a"
    and valid_highest: "I s \<Longrightarrow> valid a i tok t s \<Longrightarrow> tok = highest s a"
begin

lemma highest_run: "I s \<Longrightarrow> highest s a \<le> highest (fold step ops s) a"
proof (induction ops arbitrary: s)
  case (Cons op ops)
  from highest_step [OF Cons.prems] Cons.IH [OF step_I [OF Cons.prems]] show ?case by (auto intro: order_trans)
qed simp

lemma stale_invalid: "I s \<Longrightarrow> tok < highest s a \<Longrightarrow> \<not> valid a i tok t (fold step ops s)"
  using valid_highest [OF run_I, of s a i tok t ops] highest_run [of s a ops] by auto

end

lemma valid_token: "fence_inv r \<Longrightarrow> validate_lease a i tok now clock r \<Longrightarrow> tok = get_or (lr_tokens r) a 0"
  by (auto simp: fence_inv_def validate_lease_def get_or_def Let_def split: option.splits)

interpretation leases: lease_store lease_step fence_inv "\<lambda>r a. get_or (lr_tokens r) a 0"
    "\<lambda>a i tok t r. validate_lease a i tok (fst t) (snd t) r"
  by unfold_locales (simp_all add: fence_inv_step token_step valid_token)

text \<open>Fencing. Once another instance has acquired the lease of an account, the token of the previous leader is never
  valid again: after any further acquisitions and heartbeats of anybody, at any clock reading, for any instance.
\<close>

theorem stale_leader_fenced_out:
  assumes "fence_inv r" "dget (lr_leases r) a = Some l" "ls_instance_id l \<noteq> j"
    and "acquire a j ttl now clock r = (r', Inr l')"
  shows "\<not> validate_lease a i (ls_fencing_token l) now' clock' (fold lease_step ops r')"
proof -
  have "get_or (lr_tokens r) a 0 = ls_fencing_token l" using assms(1,2) by (simp add: fence_inv_def get_or_def)
  then have "ls_fencing_token l < get_or (lr_tokens r') a 0"
    using assms(2-4) by (auto simp: acquire_def Let_def get_or_def split: if_splits)
  moreover have "fence_inv r'" using fence_inv_step [OF assms(1), of "Acquire a j ttl now clock"] assms(4) by simp
  ultimately show ?thesis using leases.stale_invalid [of r' _ a i "(now', clock')"] by simp
qed

theorem stale_leader_fenced_out_witness:
  "\<not> validate_lease ''acc'' ''i'' 1 (Some 20) 0
      (fold lease_step [Acquire ''acc'' ''i'' 10 (Some 40) 0]
        (fst (acquire ''acc'' ''j'' 10 (Some 20) 0 (fst (acquire ''acc'' ''i'' 10 (Some 1) 0 \<lparr>lr_leases = [], lr_tokens = []\<rparr>)))))"
proof -
  let ?r0 = "\<lparr>lr_leases = [], lr_tokens = []\<rparr>"
  let ?r1 = "fst (acquire ''acc'' ''i'' 10 (Some 1) 0 ?r0)"
  have f: "flt 11 = 11" "flt 30 = 30" using flt.rnd_of_int [of 11] flt.rnd_of_int [of 30] by simp_all
  let ?l = "\<lparr>ls_account_id = ''acc'', ls_instance_id = ''i'', ls_fencing_token = 1, ls_expires_at = 11\<rparr>"
  have r1: "?r1 = \<lparr>lr_leases = [(''acc'', ?l)], lr_tokens = [(''acc'', 1)]\<rparr>"
    by (simp add: acquire_def or_clock_def get_or_def f Let_def)
  obtain l2 where a2: "acquire ''acc'' ''j'' 10 (Some 20) 0 ?r1 = (fst (acquire ''acc'' ''j'' 10 (Some 20) 0 ?r1), Inr l2)"
    unfolding r1 by (simp add: acquire_def or_clock_def get_or_def f Let_def)
  have "fence_inv ?r1" by (simp add: r1 fence_inv_def)
  then show ?thesis using stale_leader_fenced_out [OF _ _ _ a2, of ?l "''i''" "Some 20" 0 "[Acquire ''acc'' ''i'' 10 (Some 40) 0]"]
    by (simp add: r1)
qed

section \<open>Lots\<close>

lemma own_exit_spec:
  assumes "own_exit s y q price b = (b', Inr pnl)" "dget b (s, y) = Some lot"
  shows "q \<le> lot_quantity lot" "\<exists>lot'. dget b' (s, y) = Some lot' \<and> 0 \<le> lot_quantity lot'"
  using assms by (auto simp: own_exit_def Let_def split: if_splits)

lemma is_blocked_block [simp]: "is_blocked a s (fst (iso_block a' s' r b)) \<longleftrightarrow> (a = a' \<and> upper s = upper s') \<or> is_blocked a s b"
  by (auto simp: is_blocked_def iso_block_def Let_def)

lemma is_blocked_clear [simp]: "is_blocked a s (iso_clear a' s' b) \<longleftrightarrow> \<not> (a = a' \<and> upper s = upper s') \<and> is_blocked a s b"
  by (auto simp: is_blocked_def iso_clear_def)

end
