(* ===== verification/Persistent.thy ===== *)
theory Persistent
  imports Pretrade Capital
begin

text \<open>
  The durable side of execution (\<open>backend/app/execution/persistent.py\<close>): leader leases, capital reservations and the intent
  ledger in database tables, the process-local fencing guard and the fence before a side effect. A transaction is one step
  on the table, an association list on its primary key. Times are integers, microseconds of an aware \<open>datetime\<close>; a value read
  back may have lost its zone, which \<open>aware\<close> repairs as the code's \<open>_aware\<close> does. Three things stand outside
  the repository and are parameters: what a numeric column makes of a number (\<open>col\<close>), the SQL \<open>SUM\<close> (\<open>sqlsum\<close>), and the rows
  that other processes commit between a read and the commit of a transaction (\<open>others\<close>).
\<close>

section \<open>Leases\<close>

definition aware :: "datetime \<Rightarrow> int" where
  "aware dt = (case dt of Aware t \<Rightarrow> t | Naive t \<Rightarrow> t)"

record PersistentLease =
  pl_account_id :: string
  pl_instance_id :: string
  pl_fencing_token :: int
  pl_expires_at :: int

record LeaderLease =
  ll_instance_id :: string
  ll_fencing_token :: int
  ll_expires_at :: datetime
  ll_updated_at :: int

type_synonym lease_table = "(string, LeaderLease) dict"

definition db_acquire :: "string \<Rightarrow> string \<Rightarrow> int \<Rightarrow> int \<Rightarrow> lease_table \<Rightarrow> lease_table \<times> PersistentLease res" where
  "db_acquire account_id instance_id ttl now rows =
     (let expires = now + ttl * 1000000; row = dget rows account_id;
          live = (case row of None \<Rightarrow> False | Some r \<Rightarrow> aware (ll_expires_at r) > now);
          own = (case row of None \<Rightarrow> False | Some r \<Rightarrow> ll_instance_id r = instance_id)
      in if live \<and> \<not> own then (rows, Inl (PermissionError ''leader already active''))
         else
           let token = (case row of None \<Rightarrow> 1
                        | Some r \<Rightarrow> if own \<and> live then ll_fencing_token r else ll_fencing_token r + 1)
           in (dset account_id \<lparr>ll_instance_id = instance_id, ll_fencing_token = token, ll_expires_at = Aware expires,
                               ll_updated_at = now\<rparr> rows,
               Inr \<lparr>pl_account_id = account_id, pl_instance_id = instance_id, pl_fencing_token = token, pl_expires_at = expires\<rparr>))"

definition db_validate :: "string \<Rightarrow> string \<Rightarrow> int \<Rightarrow> int \<Rightarrow> lease_table \<Rightarrow> bool" where
  "db_validate account_id instance_id token now rows =
     (case dget rows account_id of
        None \<Rightarrow> False
      | Some r \<Rightarrow> ll_instance_id r = instance_id \<and> ll_fencing_token r = token \<and> aware (ll_expires_at r) > now)"

definition db_heartbeat ::
  "string \<Rightarrow> string \<Rightarrow> int \<Rightarrow> int \<Rightarrow> int \<Rightarrow> lease_table \<Rightarrow> lease_table \<times> PersistentLease res" where
  "db_heartbeat account_id instance_id token ttl now rows =
     (let expires = now + ttl * 1000000
      in case dget rows account_id of
           None \<Rightarrow> (rows, Inl (PermissionError ''cannot heartbeat stale or expired leader lease''))
         | Some r \<Rightarrow>
             (if ll_instance_id r \<noteq> instance_id \<or> ll_fencing_token r \<noteq> token \<or> aware (ll_expires_at r) \<le> now
              then (rows, Inl (PermissionError ''cannot heartbeat stale or expired leader lease''))
              else (dset account_id (r\<lparr>ll_expires_at := Aware expires, ll_updated_at := now\<rparr>) rows,
                    Inr \<lparr>pl_account_id = account_id, pl_instance_id = instance_id, pl_fencing_token = token,
                         pl_expires_at = expires\<rparr>)))"

section \<open>Capital reservations\<close>

record CapitalReservationRow =
  cr_exchange_account_id :: string
  cr_amount :: rat
  cr_asset :: string
  cr_expires_at :: datetime
  cr_released_at :: "int option"

type_synonym reservation_table = "(string, CapitalReservationRow) dict"

definition row_live :: "int \<Rightarrow> CapitalReservationRow \<Rightarrow> bool" where
  "row_live now r \<longleftrightarrow> cr_released_at r = None \<and> aware (cr_expires_at r) > now"

definition live_amounts :: "string \<Rightarrow> string \<Rightarrow> int \<Rightarrow> reservation_table \<Rightarrow> rat list" where
  "live_amounts account_id asset now rows =
     map cr_amount (filter (\<lambda>r. cr_exchange_account_id r = account_id \<and> cr_asset r = asset \<and> row_live now r) (map snd rows))"

text \<open>The session of \<open>reserve\<close> first reads: the row of the intent and, unless that row is still live, the sum of the live amounts. What it then writes takes
  effect at its commit. A row that was not there is inserted; of a row that was there the columns are updated whose values the call
  has changed. Nothing is locked in between, so that other sessions may commit after the read.\<close>

datatype db_write =
    InsertRow CapitalReservationRow
  | UpdateRow CapitalReservationRow CapitalReservationRow

definition db_reserve_read ::
  "(rat list \<Rightarrow> rat) \<Rightarrow> string \<Rightarrow> rat \<Rightarrow> rat \<Rightarrow> string \<Rightarrow> string \<Rightarrow> int \<Rightarrow> int \<Rightarrow> reservation_table \<Rightarrow> (CapitalReservationRow + db_write) res" where
  "db_reserve_read sqlsum intent_id amount available asset account_id ttl now rows =
     (let expires = now + ttl * 1000000; existing = dget rows intent_id
      in if case existing of None \<Rightarrow> False | Some e \<Rightarrow> row_live now e then Inr (Inl (the existing))
         else if dec (sqlsum (live_amounts account_id asset now rows) + amount) > available
         then Inl (ValueError ''insufficient unreserved capital'')
         else Inr (Inr (case existing of
                None \<Rightarrow> InsertRow \<lparr>cr_exchange_account_id = account_id, cr_amount = amount, cr_asset = asset,
                                   cr_expires_at = Aware expires, cr_released_at = None\<rparr>
              | Some e \<Rightarrow> UpdateRow e (e\<lparr>cr_amount := amount, cr_asset := asset, cr_expires_at := Aware expires, cr_released_at := None\<rparr>))))"

definition column_value :: "'a \<Rightarrow> 'a \<Rightarrow> 'a \<Rightarrow> 'a" where
  "column_value old new stored = (if new = old then stored else new)"

definition store_columns :: "(rat \<Rightarrow> rat) \<Rightarrow> CapitalReservationRow \<Rightarrow> CapitalReservationRow \<Rightarrow> CapitalReservationRow \<Rightarrow> CapitalReservationRow" where
  "store_columns col old new stored =
     stored\<lparr>cr_amount := (if cr_amount new = cr_amount old then cr_amount stored else col (cr_amount new)),
            cr_asset := column_value (cr_asset old) (cr_asset new) (cr_asset stored),
            cr_expires_at := column_value (cr_expires_at old) (cr_expires_at new) (cr_expires_at stored),
            cr_released_at := column_value (cr_released_at old) (cr_released_at new) (cr_released_at stored)\<rparr>"

definition db_reserve_commit ::
  "(rat \<Rightarrow> rat) \<Rightarrow> string \<Rightarrow> db_write \<Rightarrow> reservation_table \<Rightarrow> reservation_table \<times> CapitalReservationRow res" where
  "db_reserve_commit col intent_id w rows =
     (case (w, dget rows intent_id) of
        (InsertRow new, None) \<Rightarrow>
          (let r = new\<lparr>cr_amount := col (cr_amount new)\<rparr> in (dset intent_id r rows, Inr r))
      | (InsertRow new, Some _) \<Rightarrow> (rows, Inl (OtherException ''IntegrityError''))
      | (UpdateRow old new, None) \<Rightarrow> (rows, Inl (OtherException ''StaleDataError''))
      | (UpdateRow old new, Some stored) \<Rightarrow>
          (let r = store_columns col old new stored in (dset intent_id r rows, Inr r)))"

definition db_reserve ::
  "(rat list \<Rightarrow> rat) \<Rightarrow> (rat \<Rightarrow> rat) \<Rightarrow> string \<Rightarrow> rat \<Rightarrow> rat \<Rightarrow> string \<Rightarrow> string \<Rightarrow> int \<Rightarrow> int \<Rightarrow> reservation_table \<Rightarrow>
   reservation_table \<times> CapitalReservationRow res" where
  "db_reserve sqlsum col intent_id amount available asset account_id ttl now rows =
     (case db_reserve_read sqlsum intent_id amount available asset account_id ttl now rows of
        Inl e \<Rightarrow> (rows, Inl e)
      | Inr (Inl existing) \<Rightarrow> (rows, Inr existing)
      | Inr (Inr w) \<Rightarrow> db_reserve_commit col intent_id w rows)"

definition db_items :: "int \<Rightarrow> reservation_table \<Rightarrow> reservation_table" where
  "db_items now rows = filter (\<lambda>(k, r). row_live now r) rows"

definition db_release :: "string \<Rightarrow> int \<Rightarrow> reservation_table \<Rightarrow> reservation_table" where
  "db_release intent_id now rows =
     (case dget rows intent_id of None \<Rightarrow> rows | Some r \<Rightarrow> dset intent_id (r\<lparr>cr_released_at := Some now\<rparr>) rows)"

section \<open>The fencing guard and the fence\<close>

type_synonym fencing_guard = "(string, int) dict"

definition guard_accept :: "string \<Rightarrow> int \<Rightarrow> fencing_guard \<Rightarrow> fencing_guard \<times> bool" where
  "guard_accept account_id token g =
     (case dget g account_id of
        None \<Rightarrow> (dset account_id token g, True)
      | Some highest \<Rightarrow> if token < highest then (g, False) else (dset account_id (max highest token) g, True))"

definition guard_require :: "string \<Rightarrow> int \<Rightarrow> fencing_guard \<Rightarrow> fencing_guard \<times> unit res" where
  "guard_require account_id token g =
     (case guard_accept account_id token g of
        (g', ok) \<Rightarrow> (g', if ok then Inr () else Inl (PermissionError ''stale fencing token'')))"

definition require_current ::
  "(string \<Rightarrow> string \<Rightarrow> int \<Rightarrow> bool) \<Rightarrow> string \<Rightarrow> string \<Rightarrow> int \<Rightarrow> fencing_guard \<Rightarrow> fencing_guard \<times> unit res" where
  "require_current validate account_id instance_id token g =
     (case guard_require account_id token g of
        (g', Inl e) \<Rightarrow> (g', Inl e)
      | (g', Inr _) \<Rightarrow>
          (g', if \<not> validate account_id instance_id token
               then Inl (PermissionError ''stale or expired LIVE fencing token at side-effect boundary'') else Inr ()))"

section \<open>The intent ledger\<close>

record OrderRow =
  ow_exchange_account_id :: string
  ow_symbol :: string
  ow_side :: string
  ow_order_type :: string
  ow_quantity :: rat
  ow_price :: "rat option"
  ow_stop_price :: "rat option"
  ow_status :: OrderState
  ow_exchange_order_id :: "string option"
  ow_client_order_id :: string

text \<open>The table of orders; \<open>intent_id\<close> is unique in it, and so is the pair of account and exchange order id.\<close>

type_synonym order_table = "(string, OrderRow) dict"

definition assert_same_intent :: "OrderRecord \<Rightarrow> OrderIntent \<Rightarrow> unit res" where
  "assert_same_intent record intent =
     (if (or_account_id record, or_symbol record, or_side record, or_order_type record, or_quantity record) \<noteq>
         (oi_account_id intent, oi_symbol intent, oi_side intent, oi_order_type intent, oi_quantity intent)
      then Inl (ValueError ''intent_id collision with different economic order'') else Inr ())"

definition to_record :: "string \<Rightarrow> OrderRow \<Rightarrow> OrderRecord" where
  "to_record intent_id row =
     \<lparr>or_intent_id = intent_id, or_account_id = ow_exchange_account_id row, or_symbol = ow_symbol row, or_side = ow_side row,
      or_order_type = ow_order_type row, or_quantity = ow_quantity row, or_state = ow_status row, or_price = ow_price row,
      or_stop_price = ow_stop_price row, or_exchange_order_id = ow_exchange_order_id row,
      or_client_order_id = Some (ow_client_order_id row), or_filled_quantity = 0, or_average_fill_price = None,
      or_fees = [], or_updated_at = 0\<rparr>"

definition ledger_get :: "string \<Rightarrow> order_table \<Rightarrow> OrderRecord option" where
  "ledger_get intent_id rows = map_option (to_record intent_id) (dget rows intent_id)"

definition new_order_row :: "(rat \<Rightarrow> rat) \<Rightarrow> OrderIntent \<Rightarrow> OrderRow" where
  "new_order_row col intent =
     \<lparr>ow_exchange_account_id = oi_account_id intent, ow_symbol = oi_symbol intent, ow_side = oi_side intent,
      ow_order_type = oi_order_type intent, ow_quantity = col (oi_quantity intent), ow_price = map_option col (oi_price intent),
      ow_stop_price = map_option col (oi_stop_price intent), ow_status = SUBMITTED, ow_exchange_order_id = None,
      ow_client_order_id = (case oi_client_order_id intent of
          None \<Rightarrow> ''ctp-'' @ oi_intent_id intent | Some c \<Rightarrow> if c = [] then ''ctp-'' @ oi_intent_id intent else c)\<rparr>"

definition same_or_collision :: "OrderRow \<Rightarrow> OrderIntent \<Rightarrow> (OrderRecord \<times> bool) res" where
  "same_or_collision row intent =
     bind_res (assert_same_intent (to_record (oi_intent_id intent) row) intent)
       (\<lambda>_. Inr (to_record (oi_intent_id intent) row, False))"

text \<open>\<open>others\<close> are the rows that other processes insert after the first read. The insert fails when one of them
  has the same intent id.\<close>

definition reserve_before_side_effect ::
  "(rat \<Rightarrow> rat) \<Rightarrow> order_table \<Rightarrow> OrderIntent \<Rightarrow> order_table \<Rightarrow> order_table \<times> (OrderRecord \<times> bool) res" where
  "reserve_before_side_effect col others intent rows =
     (case dget rows (oi_intent_id intent) of
        Some row \<Rightarrow> (rows, same_or_collision row intent)
      | None \<Rightarrow>
          (let rows1 = fold (\<lambda>(k, r) d. if dget d k = None then dset k r d else d) others rows
           in case dget rows1 (oi_intent_id intent) of
                Some row \<Rightarrow> (rows1, same_or_collision row intent)
              | None \<Rightarrow> (let row = new_order_row col intent
                        in (dset (oi_intent_id intent) row rows1, Inr (to_record (oi_intent_id intent) row, True)))))"

definition exchange_id_taken :: "string \<Rightarrow> string \<Rightarrow> string option \<Rightarrow> order_table \<Rightarrow> bool" where
  "exchange_id_taken intent_id account_id eid rows =
     (eid \<noteq> None \<and> list_ex (\<lambda>(k, r). k \<noteq> intent_id \<and> ow_exchange_account_id r = account_id \<and> ow_exchange_order_id r = eid) rows)"

definition mark :: "string \<Rightarrow> OrderRecord \<Rightarrow> order_table \<Rightarrow> order_table \<times> unit res" where
  "mark intent_id record rows =
     (case dget rows intent_id of
        None \<Rightarrow> (rows, Inl (LookupError (''unknown durable intent '' @ intent_id)))
      | Some row \<Rightarrow>
          (if exchange_id_taken intent_id (ow_exchange_account_id row) (or_exchange_order_id record) rows
           then (rows, Inl (OtherException ''IntegrityError''))
           else (dset intent_id (row\<lparr>ow_status := or_state record, ow_exchange_order_id := or_exchange_order_id record,
                   ow_client_order_id := (case or_client_order_id record of
                      None \<Rightarrow> ow_client_order_id row | Some c \<Rightarrow> if c = [] then ow_client_order_id row else c)\<rparr>) rows, Inr ())))"

type_synonym order_query = "string \<Rightarrow> string option \<Rightarrow> string option \<Rightarrow> OrderRecord option res"

definition reconcile_existing ::
  "order_query \<Rightarrow> string \<Rightarrow> OrderIntent option \<Rightarrow> order_table \<Rightarrow> order_table \<times> OrderRecord option res" where
  "reconcile_existing get_order intent_id expected_intent rows =
     (case ledger_get intent_id rows of
        None \<Rightarrow> (rows, Inr None)
      | Some current \<Rightarrow>
          (case (case expected_intent of None \<Rightarrow> Inr () | Some i \<Rightarrow> assert_same_intent current i) of
             Inl e \<Rightarrow> (rows, Inl e)
           | Inr _ \<Rightarrow>
               (if or_state current \<notin> {SUBMITTED, UNKNOWN} then (rows, Inr (Some current))
                else case get_order (or_symbol current) (or_exchange_order_id current) (or_client_order_id current) of
                  Inl e \<Rightarrow> (rows, Inl e)
                | Inr remote \<Rightarrow>
                    (let record = (case remote of Some r \<Rightarrow> r | None \<Rightarrow> current\<lparr>or_state := UNKNOWN\<rparr>)
                     in case mark intent_id record rows of (rows', r) \<Rightarrow> (rows', bind_res r (\<lambda>_. Inr (Some record)))))))"

section \<open>The fence keeps deposed leaders out\<close>

datatype db_lease_op =
    DbAcquire string string int int
  | DbHeartbeat string string int int int

fun db_lease_step :: "db_lease_op \<Rightarrow> lease_table \<Rightarrow> lease_table" where
  "db_lease_step (DbAcquire a i ttl now) rows = fst (db_acquire a i ttl now rows)"
| "db_lease_step (DbHeartbeat a i tok ttl now) rows = fst (db_heartbeat a i tok ttl now rows)"

definition db_highest :: "lease_table \<Rightarrow> string \<Rightarrow> int" where
  "db_highest rows a = (case dget rows a of None \<Rightarrow> 0 | Some r \<Rightarrow> ll_fencing_token r)"

lemma db_highest_step: "db_highest rows a \<le> db_highest (db_lease_step op rows) a"
  by (cases op) (auto simp: db_acquire_def db_heartbeat_def db_highest_def Let_def split: option.splits)

lemma db_valid_highest: "db_validate a i tok now rows \<Longrightarrow> tok = db_highest rows a"
  by (simp add: db_validate_def db_highest_def split: option.splits)

interpretation db_leases: lease_store db_lease_step "\<lambda>_. True" db_highest db_validate
  by unfold_locales (simp_all add: db_highest_step db_valid_highest)

definition guard_highest :: "string \<Rightarrow> int \<Rightarrow> fencing_guard \<Rightarrow> bool" where
  "guard_highest a tok g \<longleftrightarrow> (\<exists>h. dget g a = Some h \<and> tok \<le> h)"

lemma guard_accept_highest: "snd (guard_accept a tok g) \<Longrightarrow> guard_highest a tok (fst (guard_accept a tok g))"
  by (auto simp: guard_accept_def guard_highest_def split: option.splits if_splits)

fun fence_check :: "((string \<Rightarrow> string \<Rightarrow> int \<Rightarrow> bool) \<times> string \<times> string \<times> int) \<Rightarrow> fencing_guard \<Rightarrow> fencing_guard" where
  "fence_check (v, a, i, tok) g = fst (require_current v a i tok g)"

lemma require_current_fst: "fst (require_current v a i tok g) = fst (guard_accept a tok g)"
  by (auto simp: require_current_def guard_require_def split: prod.splits sum.splits)

lemma require_current_ok: "snd (require_current v a i tok g) = Inr () \<longleftrightarrow> snd (guard_accept a tok g) \<and> v a i tok"
  by (auto simp: require_current_def guard_require_def split: prod.splits sum.splits if_splits)

interpretation fence_guard: preserved fence_check "guard_highest a tok" for a tok
proof unfold_locales
  fix g op assume "guard_highest a tok g"
  then show "guard_highest a tok (fence_check op g)"
    by (cases op) (auto simp: require_current_fst guard_highest_def guard_accept_def split: option.splits)
qed

text \<open>
  C6: the execution fence. When another instance has acquired the lease of an account, a fence check with the previous leader's
  token fails from then on, whatever acquisitions and heartbeats follow and whatever the worker's guard has seen. And once a worker has
  accepted a token, it never again accepts a smaller one for that account, whatever the registry says.
\<close>

theorem execution_fence_rejects_stale:
  assumes "dget rows a = Some l" "ll_instance_id l \<noteq> j" "db_acquire a j ttl now rows = (rows', Inr l')"
    and "snd (require_current v a i tok g) = Inr ()" "tok' < tok"
  shows "(snd (require_current (\<lambda>a i t. db_validate a i t now' (fold db_lease_step ops rows')) a i' (ll_fencing_token l) g') \<noteq> Inr ()) \<and>
    (snd (require_current v' a i' tok' (fold fence_check checks (fst (require_current v a i tok g)))) \<noteq> Inr ())"
proof -
  have "ll_fencing_token l < db_highest rows' a"
    using assms(1-3) by (auto simp: db_acquire_def db_highest_def Let_def split: if_splits)
  then have p1: "snd (require_current (\<lambda>a i t. db_validate a i t now' (fold db_lease_step ops rows')) a i' (ll_fencing_token l) g') \<noteq> Inr ()"
    using db_leases.stale_invalid by (simp add: require_current_ok)
  have "guard_highest a tok (fst (require_current v a i tok g))"
    using assms(4) by (simp add: require_current_ok require_current_fst guard_accept_highest)
  then have "guard_highest a tok (fold fence_check checks (fst (require_current v a i tok g)))"
    by (rule fence_guard.run_I)
  then have p2: "snd (require_current v' a i' tok' (fold fence_check checks (fst (require_current v a i tok g)))) \<noteq> Inr ()"
    using assms(5) by (auto simp: require_current_ok guard_highest_def guard_accept_def)
  show ?thesis by (rule conjI [OF p1 p2])
qed

definition lease_row :: "string \<Rightarrow> int \<Rightarrow> int \<Rightarrow> LeaderLease" where
  "lease_row i tok t = \<lparr>ll_instance_id = i, ll_fencing_token = tok, ll_expires_at = Naive t, ll_updated_at = 0\<rparr>"

theorem execution_fence_rejects_stale_witness:
  "snd (require_current (\<lambda>a i t. db_validate a i t 7 (fst (db_acquire ''acc'' ''j'' 10 6 [(''acc'', lease_row ''i'' 4 5)]))) ''acc'' ''i'' 4 [])
     \<noteq> Inr ()"
proof -
  obtain l' where a: "db_acquire ''acc'' ''j'' 10 6 [(''acc'', lease_row ''i'' 4 5)] =
      (fst (db_acquire ''acc'' ''j'' 10 6 [(''acc'', lease_row ''i'' 4 5)]), Inr l')"
    by (simp add: db_acquire_def lease_row_def aware_def Let_def)
  have r: "snd (require_current (\<lambda>_ _ _. True) ''acc'' ''i'' 4 []) = Inr ()"
    by (simp add: require_current_ok guard_accept_def)
  from execution_fence_rejects_stale [OF _ _ a r, of "lease_row ''i'' 4 5" 3 7 "[]" "''i''" "[]"]
  show ?thesis by (simp add: lease_row_def)
qed

section \<open>Reserved capital in the database\<close>

definition claim :: "string \<Rightarrow> string \<Rightarrow> int \<Rightarrow> CapitalReservationRow \<Rightarrow> rat" where
  "claim acc asset now r =
     (if cr_exchange_account_id r = acc \<and> cr_asset r = asset \<and> row_live now r then cr_amount r else 0)"

definition db_reserved :: "string \<Rightarrow> string \<Rightarrow> int \<Rightarrow> reservation_table \<Rightarrow> rat" where
  "db_reserved acc asset now rows = sum_list (live_amounts acc asset now rows)"

lemma db_reserved_claims: "db_reserved acc asset now rows = sum_list (map (\<lambda>(k, r). claim acc asset now r) rows)"
  by (induction rows) (auto simp: db_reserved_def live_amounts_def claim_def)

lemma db_reserved_dset:
  "db_reserved acc asset now (dset k r rows) =
     db_reserved acc asset now rows - (case dget rows k of None \<Rightarrow> 0 | Some w \<Rightarrow> claim acc asset now w) + claim acc asset now r"
  unfolding db_reserved_claims by (rule sum_dset)

text \<open>Sessions that reserve run concurrently: a read opens the session with the given number, its commit ends it, and between the two other sessions read and
  commit, rows are released and time passes. A session whose read raises or finds a live row writes nothing at its end.\<close>

record ReservationDb =
  rd_now :: int
  rd_rows :: reservation_table
  rd_sessions :: "(nat, string \<times> db_write) dict"

datatype db_res_op =
    DbRead nat string rat rat string string int
  | DbCommit nat
  | DbRelease string
  | Tick nat

fun db_res_step :: "(rat list \<Rightarrow> rat) \<Rightarrow> (rat \<Rightarrow> rat) \<Rightarrow> db_res_op \<Rightarrow> ReservationDb \<Rightarrow> ReservationDb" where
  "db_res_step sqlsum col (DbRead sid i amount available asset acc ttl) s =
     (case db_reserve_read sqlsum i amount available asset acc ttl (rd_now s) (rd_rows s) of
        Inr (Inr w) \<Rightarrow> s\<lparr>rd_sessions := dset sid (i, w) (rd_sessions s)\<rparr>
      | _ \<Rightarrow> s\<lparr>rd_sessions := ddel sid (rd_sessions s)\<rparr>)"
| "db_res_step sqlsum col (DbCommit sid) s =
     (case dget (rd_sessions s) sid of
        None \<Rightarrow> s
      | Some (i, w) \<Rightarrow> s\<lparr>rd_rows := fst (db_reserve_commit col i w (rd_rows s)), rd_sessions := ddel sid (rd_sessions s)\<rparr>)"
| "db_res_step sqlsum col (DbRelease i) s = s\<lparr>rd_rows := db_release i (rd_now s) (rd_rows s)\<rparr>"
| "db_res_step sqlsum col (Tick n) s = s\<lparr>rd_now := rd_now s + int n\<rparr>"

lemma read_then_commit:
  "rd_rows (fold (db_res_step sqlsum col) [DbRead sid i amount available asset acc ttl, DbCommit sid] s) =
     fst (db_reserve sqlsum col i amount available asset acc ttl (rd_now s) (rd_rows s))"
  by (auto simp: db_reserve_def split: sum.split)

text \<open>What the callers have to keep: amounts that are not negative and fit their column, one account for an intent id, no more than \<open>cap\<close> as
  the available balance of the account in the asset, and no two open sessions that reserve for the account.\<close>

fun db_within :: "(rat \<Rightarrow> rat) \<Rightarrow> (string \<Rightarrow> string) \<Rightarrow> string \<Rightarrow> string \<Rightarrow> rat \<Rightarrow> db_res_op \<Rightarrow> bool" where
  "db_within col owner acc asset cap (DbRead sid i amount available asset' acc' ttl) \<longleftrightarrow>
     0 \<le> amount \<and> col amount = amount \<and> acc' = owner i \<and> (acc' = acc \<and> asset' = asset \<longrightarrow> available \<le> cap)"
| "db_within col owner acc asset cap _ \<longleftrightarrow> True"

fun sessions_apart :: "string \<Rightarrow> nat option \<Rightarrow> db_res_op list \<Rightarrow> bool" where
  "sessions_apart acc busy [] \<longleftrightarrow> True"
| "sessions_apart acc busy (DbRead sid i amount available asset acc' ttl # ops) \<longleftrightarrow>
     (if acc' = acc then busy = None \<and> sessions_apart acc (Some sid) ops else sessions_apart acc busy ops)"
| "sessions_apart acc busy (DbCommit sid # ops) \<longleftrightarrow> sessions_apart acc (if busy = Some sid then None else busy) ops"
| "sessions_apart acc busy (op # ops) \<longleftrightarrow> sessions_apart acc busy ops"

definition rows_ok :: "(string \<Rightarrow> string) \<Rightarrow> reservation_table \<Rightarrow> bool" where
  "rows_ok owner rows \<longleftrightarrow> (\<forall>(k, r) \<in> set rows. 0 \<le> cr_amount r \<and> cr_exchange_account_id r = owner k)"

text \<open>What holds of a row between the read and the commit: an absent row is still absent, and a row that was not live is still not live and has at most been released.\<close>

fun row_kept :: "int \<Rightarrow> db_write \<Rightarrow> CapitalReservationRow option \<Rightarrow> bool" where
  "row_kept now (InsertRow new) stored \<longleftrightarrow> stored = None"
| "row_kept now (UpdateRow old new) stored \<longleftrightarrow>
     (\<exists>r. stored = Some r \<and> \<not> row_live now r \<and> cr_amount r = cr_amount old \<and> cr_asset r = cr_asset old)"

fun written :: "db_write \<Rightarrow> CapitalReservationRow" where
  "written (InsertRow new) = new"
| "written (UpdateRow old new) = new"

definition write_ok :: "(rat \<Rightarrow> rat) \<Rightarrow> (string \<Rightarrow> string) \<Rightarrow> string \<times> db_write \<Rightarrow> bool" where
  "write_ok col owner p \<longleftrightarrow> (let r = written (snd p) in 0 \<le> cr_amount r \<and> col (cr_amount r) = cr_amount r \<and> cr_exchange_account_id r = owner (fst p))"

definition session_safe :: "(string \<Rightarrow> string) \<Rightarrow> string \<Rightarrow> string \<Rightarrow> rat \<Rightarrow> nat option \<Rightarrow> ReservationDb \<Rightarrow> nat \<Rightarrow> string \<times> db_write \<Rightarrow> bool" where
  "session_safe owner acc asset cap busy s sid p \<longleftrightarrow>
     owner (fst p) = acc \<longrightarrow> busy = Some sid \<and> row_kept (rd_now s) (snd p) (dget (rd_rows s) (fst p)) \<and>
       (cr_asset (written (snd p)) = asset \<longrightarrow>
        dec (db_reserved acc asset (rd_now s) (rd_rows s) + cr_amount (written (snd p))) \<le> cap)"

definition db_res_inv :: "(rat \<Rightarrow> rat) \<Rightarrow> (string \<Rightarrow> string) \<Rightarrow> string \<Rightarrow> string \<Rightarrow> rat \<Rightarrow> nat option \<Rightarrow> ReservationDb \<Rightarrow> bool" where
  "db_res_inv col owner acc asset cap busy s \<longleftrightarrow>
     rows_ok owner (rd_rows s) \<and> dec (db_reserved acc asset (rd_now s) (rd_rows s)) \<le> cap \<and>
     (\<forall>sid p. dget (rd_sessions s) sid = Some p \<longrightarrow> write_ok col owner p \<and> session_safe owner acc asset cap busy s sid p)"

lemma db_res_inv_session:
  "db_res_inv col owner acc asset cap busy s \<Longrightarrow> dget (rd_sessions s) sid = Some p \<Longrightarrow>
   write_ok col owner p \<and> session_safe owner acc asset cap busy s sid p"
  by (simp only: db_res_inv_def)

lemma db_res_invI:
  assumes "rows_ok owner (rd_rows s)" "dec (db_reserved acc asset (rd_now s) (rd_rows s)) \<le> cap"
    and "\<And>sid p. dget (rd_sessions s) sid = Some p \<Longrightarrow> write_ok col owner p \<and> session_safe owner acc asset cap busy s sid p"
  shows "db_res_inv col owner acc asset cap busy s"
  using assms by (simp only: db_res_inv_def) blast

lemma session_safe_other: "owner (fst p) \<noteq> acc \<Longrightarrow> session_safe owner acc asset cap busy s sid p"
  by (simp add: session_safe_def)

lemma rows_ok_dset: "rows_ok owner rows \<Longrightarrow> 0 \<le> cr_amount r \<Longrightarrow> cr_exchange_account_id r = owner k \<Longrightarrow> rows_ok owner (dset k r rows)"
  by (fastforce simp: rows_ok_def dest!: dset_set)

lemma rows_ok_get: "rows_ok owner rows \<Longrightarrow> dget rows k = Some r \<Longrightarrow> 0 \<le> cr_amount r \<and> cr_exchange_account_id r = owner k"
  by (fastforce simp: rows_ok_def dest!: map_of_SomeD)

lemma db_reserved_later:
  assumes "rows_ok owner rows" "now \<le> now'"
  shows "db_reserved acc asset now' rows \<le> db_reserved acc asset now rows"
  unfolding db_reserved_claims using assms
  by (intro sum_list_mono) (auto simp: claim_def row_live_def rows_ok_def)

text \<open>Time, releases and the commits for other accounts only shrink what is reserved for the account, and keep what its open session has read.\<close>

lemma db_res_inv_shrink:
  assumes inv: "db_res_inv col owner acc asset cap busy s" and rows: "rows_ok owner (rd_rows t)"
    and less: "db_reserved acc asset (rd_now t) (rd_rows t) \<le> db_reserved acc asset (rd_now s) (rd_rows s)"
    and sub: "\<And>sid p. dget (rd_sessions t) sid = Some p \<Longrightarrow> dget (rd_sessions s) sid = Some p"
    and kept: "\<And>i w. owner i = acc \<Longrightarrow> row_kept (rd_now s) w (dget (rd_rows s) i) \<Longrightarrow> row_kept (rd_now t) w (dget (rd_rows t) i)"
  shows "db_res_inv col owner acc asset cap busy t"
proof -
  have "dec (db_reserved acc asset (rd_now t) (rd_rows t) + x) \<le> dec (db_reserved acc asset (rd_now s) (rd_rows s) + x)" for x
    using less by (intro dec.R_mono) simp
  note mono = order_trans [OF this]
  have "session_safe owner acc asset cap busy t sid p" if "session_safe owner acc asset cap busy s sid p" for sid p
    using that kept [of "fst p" "snd p"] mono [of "cr_amount (written (snd p))" cap] by (simp add: session_safe_def)
  then show ?thesis
    using inv rows mono [of 0 cap] unfolding db_res_inv_def by (auto dest!: sub)
qed

lemma db_tick_inv:
  assumes inv: "db_res_inv col owner acc asset cap busy s"
  shows "db_res_inv col owner acc asset cap busy (db_res_step sqlsum col (Tick n) s)"
  using inv
proof (rule db_res_inv_shrink)
  have "rows_ok owner (rd_rows s)" using inv by (simp add: db_res_inv_def)
  then show "rows_ok owner (rd_rows (db_res_step sqlsum col (Tick n) s))"
    and "db_reserved acc asset (rd_now (db_res_step sqlsum col (Tick n) s)) (rd_rows (db_res_step sqlsum col (Tick n) s))
      \<le> db_reserved acc asset (rd_now s) (rd_rows s)"
    by (simp_all add: db_reserved_later)
  fix i w assume "row_kept (rd_now s) w (dget (rd_rows s) i)"
  then show "row_kept (rd_now (db_res_step sqlsum col (Tick n) s)) w (dget (rd_rows (db_res_step sqlsum col (Tick n) s)) i)"
    by (cases w) (auto simp: row_live_def)
qed simp

lemma db_release_inv:
  assumes inv: "db_res_inv col owner acc asset cap busy s"
  shows "db_res_inv col owner acc asset cap busy (db_res_step sqlsum col (DbRelease i) s)"
proof (cases "dget (rd_rows s) i")
  case None
  then show ?thesis using inv by (simp add: db_release_def)
next
  case (Some r)
  have ok: "rows_ok owner (rd_rows s)" using inv by (simp add: db_res_inv_def)
  note r = rows_ok_get [OF ok Some]
  have e: "rd_rows (db_res_step sqlsum col (DbRelease i) s) = dset i (r\<lparr>cr_released_at := Some (rd_now s)\<rparr>) (rd_rows s)"
    by (simp add: db_release_def Some)
  from inv show ?thesis
  proof (rule db_res_inv_shrink)
    show "rows_ok owner (rd_rows (db_res_step sqlsum col (DbRelease i) s))" unfolding e using ok r by (intro rows_ok_dset) simp_all
    show "db_reserved acc asset (rd_now (db_res_step sqlsum col (DbRelease i) s)) (rd_rows (db_res_step sqlsum col (DbRelease i) s))
        \<le> db_reserved acc asset (rd_now s) (rd_rows s)"
      unfolding e using r by (simp add: db_reserved_dset Some claim_def row_live_def)
    fix j w assume "row_kept (rd_now s) w (dget (rd_rows s) j)"
    then show "row_kept (rd_now (db_res_step sqlsum col (DbRelease i) s)) w (dget (rd_rows (db_res_step sqlsum col (DbRelease i) s)) j)"
      unfolding e using Some by (cases w) (auto simp: row_live_def)
  qed simp
qed

text \<open>A commit stores the written row or raises; a row stored for the account had been dead or absent, and claims at most the amount that was checked.\<close>

lemma db_commit_row:
  assumes "rows_ok owner rows" "write_ok col owner (i, w)"
  shows "fst (db_reserve_commit col i w rows) = rows \<or>
    (\<exists>r. fst (db_reserve_commit col i w rows) = dset i r rows \<and> 0 \<le> cr_amount r \<and> cr_exchange_account_id r = owner i \<and>
       (row_kept now w (dget rows i) \<longrightarrow> cr_amount r = cr_amount (written w) \<and> cr_asset r = cr_asset (written w)))"
proof (cases w)
  case (InsertRow new)
  then show ?thesis using assms by (cases "dget rows i") (auto simp: db_reserve_commit_def write_ok_def Let_def)
next
  case (UpdateRow old new)
  show ?thesis
  proof (cases "dget rows i")
    case (Some r)
    with rows_ok_get [OF assms(1) Some] assms(2) UpdateRow show ?thesis
      by (intro disjI2 exI [of _ "store_columns col old new r"]) (auto simp: db_reserve_commit_def write_ok_def store_columns_def column_value_def Let_def)
  qed (simp add: UpdateRow db_reserve_commit_def)
qed

lemma db_commit_own:
  assumes inv: "db_res_inv col owner acc asset cap busy s" and some: "dget (rd_sessions s) sid = Some (i, w)" and own: "owner i = acc"
    and t: "rd_rows t = fst (db_reserve_commit col i w (rd_rows s))" "rd_now t = rd_now s" "rd_sessions t = ddel sid (rd_sessions s)"
  shows "db_res_inv col owner acc asset cap None t"
proof -
  have ok: "rows_ok owner (rd_rows s)" and cap: "dec (db_reserved acc asset (rd_now s) (rd_rows s)) \<le> cap" using inv by (simp_all only: db_res_inv_def)
  from db_res_inv_session [OF inv some] own have wok: "write_ok col owner (i, w)" and busy: "busy = Some sid"
    and kept: "row_kept (rd_now s) w (dget (rd_rows s) i)"
    and room: "cr_asset (written w) = asset \<Longrightarrow> dec (db_reserved acc asset (rd_now s) (rd_rows s) + cr_amount (written w)) \<le> cap"
    by (simp_all add: session_safe_def)
  have free: "(case dget (rd_rows s) i of None \<Rightarrow> 0 | Some r \<Rightarrow> claim a b (rd_now s) r) = 0" for a b
    using kept by (cases w) (auto simp: claim_def)
  have "rows_ok owner (rd_rows t) \<and> dec (db_reserved acc asset (rd_now t) (rd_rows t)) \<le> cap"
    using db_commit_row [OF ok wok, of "rd_now s"]
  proof (elim disjE exE conjE)
    fix r assume r: "fst (db_reserve_commit col i w (rd_rows s)) = dset i r (rd_rows s)" "0 \<le> cr_amount r" "cr_exchange_account_id r = owner i"
      and k: "row_kept (rd_now s) w (dget (rd_rows s) i) \<longrightarrow> cr_amount r = cr_amount (written w) \<and> cr_asset r = cr_asset (written w)"
    have "db_reserved acc asset (rd_now s) (dset i r (rd_rows s)) \<le>
        db_reserved acc asset (rd_now s) (rd_rows s) + (if cr_asset (written w) = asset then cr_amount (written w) else 0)"
      using k kept r(2) by (simp add: db_reserved_dset free claim_def)
    from dec.R_mono [OF this] room cap have "dec (db_reserved acc asset (rd_now s) (dset i r (rd_rows s))) \<le> cap"
      by (auto split: if_splits)
    with r ok show ?thesis by (simp add: t rows_ok_dset)
  qed (use cap ok in \<open>simp add: t\<close>)
  moreover have "write_ok col owner p \<and> owner (fst p) \<noteq> acc" if "dget (rd_sessions t) k = Some p" for k p
    using db_res_inv_session [OF inv, of k p] that busy by (auto simp: t session_safe_def split: if_splits)
  ultimately show ?thesis by (intro db_res_invI) (simp_all add: session_safe_other)
qed

lemma db_commit_other:
  assumes inv: "db_res_inv col owner acc asset cap busy s" and some: "dget (rd_sessions s) sid = Some (i, w)" and other: "owner i \<noteq> acc"
    and t: "rd_rows t = fst (db_reserve_commit col i w (rd_rows s))" "rd_now t = rd_now s" "rd_sessions t = ddel sid (rd_sessions s)"
  shows "db_res_inv col owner acc asset cap busy t"
proof -
  have ok: "rows_ok owner (rd_rows s)" using inv by (simp only: db_res_inv_def)
  have same: "claim acc asset now r = 0" if "dget (rd_rows s) i = Some r \<or> cr_exchange_account_id r = owner i" for now r
    using that rows_ok_get [OF ok, of i r] other by (auto simp: claim_def)
  note row = db_commit_row [OF ok conjunct1 [OF db_res_inv_session [OF inv some]], of "rd_now s"]
  have "db_reserved acc asset (rd_now t) (rd_rows t) = db_reserved acc asset (rd_now s) (rd_rows s)"
    using row by (elim disjE exE conjE) (simp_all add: t db_reserved_dset same split: option.split)
  moreover have "dget (rd_rows t) j = dget (rd_rows s) j" if "owner j = acc" for j using row that other by (auto simp: t)
  moreover have "rows_ok owner (rd_rows t)" using row ok by (auto simp: t rows_ok_dset)
  ultimately show ?thesis by (intro db_res_inv_shrink [OF inv]) (simp_all add: t split: if_splits)
qed

text \<open>A session that has ended is no longer the open one.\<close>

lemma db_res_inv_ended:
  assumes inv: "db_res_inv col owner acc asset cap busy t" and ended: "dget (rd_sessions t) sid = None"
  shows "db_res_inv col owner acc asset cap (if busy = Some sid then None else busy) t"
proof (rule db_res_invI)
  fix k p assume k: "dget (rd_sessions t) k = Some p"
  with ended have "k \<noteq> sid" by auto
  then show "write_ok col owner p \<and> session_safe owner acc asset cap (if busy = Some sid then None else busy) t k p"
    using db_res_inv_session [OF inv k] by (simp add: session_safe_def)
qed (use inv in \<open>simp_all only: db_res_inv_def\<close>)

lemma db_commit_inv:
  assumes inv: "db_res_inv col owner acc asset cap busy s"
  shows "db_res_inv col owner acc asset cap (if busy = Some sid then None else busy) (db_res_step sqlsum col (DbCommit sid) s)"
proof (cases "dget (rd_sessions s) sid")
  case None
  with db_res_inv_ended [OF inv] show ?thesis by simp
next
  case (Some p)
  obtain i w where p: "p = (i, w)" by (cases p)
  define t where "t = db_res_step sqlsum col (DbCommit sid) s"
  have t: "rd_rows t = fst (db_reserve_commit col i w (rd_rows s))" "rd_now t = rd_now s" "rd_sessions t = ddel sid (rd_sessions s)"
    by (simp_all add: t_def Some p)
  note own = db_commit_own [OF inv Some [unfolded p] _ t] and other = db_commit_other [OF inv Some [unfolded p] _ t]
  have "busy = Some sid" if "owner i = acc" using db_res_inv_session [OF inv Some] that by (simp add: p session_safe_def)
  with own other db_res_inv_ended [OF other, of sid] show ?thesis unfolding t_def [symmetric] by (cases "owner i = acc") (simp_all add: t)
qed

lemma db_read_write:
  assumes "db_reserve_read sqlsum i amount available asset acc ttl now rows = Inr (Inr w)" "\<And>xs. sqlsum xs = sum_list xs"
  shows "row_kept now w (dget rows i)" "dec (db_reserved acc asset now rows + amount) \<le> available"
    and "cr_amount (written w) = amount" "cr_asset (written w) = asset"
    and "rows_ok owner rows \<Longrightarrow> acc = owner i \<Longrightarrow> cr_exchange_account_id (written w) = owner i"
  using assms rows_ok_get [of owner rows i]
  by (auto simp: db_reserve_read_def db_reserved_def Let_def split: if_splits option.splits)

lemma db_res_inv_sessions:
  assumes inv: "db_res_inv col owner acc asset cap busy s" and same: "rd_rows t = rd_rows s" "rd_now t = rd_now s"
    and ok: "\<And>k p. dget (rd_sessions t) k = Some p \<Longrightarrow> write_ok col owner p \<and> session_safe owner acc asset cap busy' s k p"
  shows "db_res_inv col owner acc asset cap busy' t"
proof (rule db_res_invI)
  show "write_ok col owner p \<and> session_safe owner acc asset cap busy' t k p" if "dget (rd_sessions t) k = Some p" for k p
    using ok [OF that] by (simp add: session_safe_def same)
qed (use inv in \<open>simp_all only: db_res_inv_def same\<close>)

lemma db_read_inv:
  assumes inv: "db_res_inv col owner acc asset cap busy s" and sum: "\<And>xs. sqlsum xs = sum_list xs"
    and ok: "db_within col owner acc asset cap (DbRead sid i amount available asset' acc' ttl)"
    and apart: "acc' = acc \<Longrightarrow> busy = None"
  shows "db_res_inv col owner acc asset cap (if acc' = acc then Some sid else busy)
    (db_res_step sqlsum col (DbRead sid i amount available asset' acc' ttl) s)"
proof -
  define b where "b = (if acc' = acc then Some sid else busy)"
  have old: "write_ok col owner p \<and> session_safe owner acc asset cap b s k p" if "dget (rd_sessions s) k = Some p" for k p
    using db_res_inv_session [OF inv that] apart by (auto simp: session_safe_def b_def)
  let ?r = "db_reserve_read sqlsum i amount available asset' acc' ttl (rd_now s) (rd_rows s)"
  show ?thesis unfolding b_def [symmetric]
  proof (cases "\<exists>w. ?r = Inr (Inr w)")
    case True
    then obtain w where w: "?r = Inr (Inr w)" by blast
    note new = db_read_write [OF w sum]
    have "rows_ok owner (rd_rows s)" using inv by (simp only: db_res_inv_def)
    with new(5) ok have "write_ok col owner (i, w)" by (simp add: write_ok_def new)
    moreover have "session_safe owner acc asset cap b s sid (i, w)" using ok new(1,2) by (auto simp: session_safe_def b_def new(3,4))
    ultimately show "db_res_inv col owner acc asset cap b (db_res_step sqlsum col (DbRead sid i amount available asset' acc' ttl) s)"
      using old by (intro db_res_inv_sessions [OF inv]) (simp_all add: w split: if_splits)
  next
    case False
    then have "db_res_step sqlsum col (DbRead sid i amount available asset' acc' ttl) s = s\<lparr>rd_sessions := ddel sid (rd_sessions s)\<rparr>"
      by (auto split: sum.split)
    then show "db_res_inv col owner acc asset cap b (db_res_step sqlsum col (DbRead sid i amount available asset' acc' ttl) s)"
      using old by (intro db_res_inv_sessions [OF inv]) (simp_all split: if_splits)
  qed
qed

lemma db_res_run_inv:
  assumes "db_res_inv col owner acc asset cap busy s" "list_all (db_within col owner acc asset cap) ops" "sessions_apart acc busy ops"
    and "\<And>xs. sqlsum xs = sum_list xs"
  shows "\<exists>busy'. db_res_inv col owner acc asset cap busy' (fold (db_res_step sqlsum col) ops s)"
  using assms(1-3)
proof (induction ops arbitrary: s busy)
  case (Cons op ops)
  have "\<exists>busy'. db_res_inv col owner acc asset cap busy' (db_res_step sqlsum col op s) \<and> sessions_apart acc busy' ops"
  proof (cases op)
    case (DbRead sid i amount available asset' acc' ttl)
    with Cons.prems have "acc' = acc \<Longrightarrow> busy = None" "sessions_apart acc (if acc' = acc then Some sid else busy) ops" by auto
    with db_read_inv [OF Cons.prems(1) assms(4), of sid i amount available asset' acc' ttl] Cons.prems(2) show ?thesis unfolding DbRead list.pred_inject by blast
  next
    case (DbCommit sid)
    with db_commit_inv [OF Cons.prems(1)] Cons.prems(3) show ?thesis unfolding DbCommit sessions_apart.simps by blast
  next
    case (DbRelease i)
    with db_release_inv [OF Cons.prems(1)] Cons.prems(3) show ?thesis unfolding DbRelease sessions_apart.simps by blast
  next
    case (Tick n)
    with db_tick_inv [OF Cons.prems(1)] Cons.prems(3) show ?thesis unfolding Tick sessions_apart.simps by blast
  qed
  with Cons.IH Cons.prems(2) show ?case by (auto simp del: db_res_step.simps)
qed auto

text \<open>
  C7: capital is not overcommitted in the database either, provided the callers of \<open>reserve\<close> keep what it does not enforce: amounts are not negative and fit their
  column, an intent id is always used for the same account, and the sessions that reserve for the account do not overlap. Then, with an exact SQL \<open>SUM\<close>,
  after any interleaving of reading and committing sessions of all accounts, releases and passing time that starts from an empty table, the live
  reservations of the account in an asset round to at most the largest balance that any of them was checked against. The theorems \<open>concurrent_reserve_overcommits\<close> and
  \<open>db_reserve_overcommits\<close> show that each of the conditions on the callers is needed.
\<close>

theorem db_capital_never_overcommitted:
  assumes "0 \<le> cap" "list_all (db_within col owner acc asset cap) ops" "sessions_apart acc None ops" "\<And>xs. sqlsum xs = sum_list xs"
    and "fold (db_res_step sqlsum col) ops \<lparr>rd_now = now, rd_rows = [], rd_sessions = []\<rparr> = s"
  shows "dec (db_reserved acc asset (rd_now s) (rd_rows s)) \<le> cap"
proof -
  have "db_res_inv col owner acc asset cap None \<lparr>rd_now = now, rd_rows = [], rd_sessions = []\<rparr>"
    using assms(1) by (simp add: db_res_inv_def rows_ok_def db_reserved_def live_amounts_def)
  from db_res_run_inv [OF this assms(2-4)] show ?thesis unfolding assms(5) by (auto simp: db_res_inv_def)
qed

theorem db_capital_never_overcommitted_witness:
  "dec (db_reserved ''A'' ''USDT'' 5 (rd_rows (fold (db_res_step sum_list (\<lambda>x. x))
     [DbRead 1 ''i'' 60 100 ''USDT'' ''A'' 60, DbRead 2 ''k'' 70 80 ''USDT'' ''B'' 60, DbCommit 1, Tick 5, DbCommit 2,
      DbRead 3 ''j'' 60 100 ''USDT'' ''A'' 60, DbCommit 3] \<lparr>rd_now = 0, rd_rows = [], rd_sessions = []\<rparr>))) \<le> 100"
proof -
  let ?ops = "[DbRead 1 ''i'' 60 100 ''USDT'' ''A'' 60, DbRead 2 ''k'' 70 80 ''USDT'' ''B'' 60, DbCommit 1, Tick 5, DbCommit 2,
      DbRead 3 ''j'' 60 100 ''USDT'' ''A'' 60, DbCommit 3]"
  let ?s = "fold (db_res_step sum_list (\<lambda>x. x)) ?ops \<lparr>rd_now = 0, rd_rows = [], rd_sessions = []\<rparr>"
  have "rd_now (db_res_step f g op s) = (case op of Tick n \<Rightarrow> rd_now s + int n | _ \<Rightarrow> rd_now s)" for f g op s
    by (cases op) (auto split: sum.split option.split)
  then have "rd_now ?s = 5" by (simp del: db_res_step.simps)
  with db_capital_never_overcommitted [of 100 "\<lambda>x. x" "\<lambda>k. if k = ''k'' then ''B'' else ''A''" "''A''" "''USDT''" ?ops sum_list 0 ?s]
  show ?thesis by (simp del: fold.simps db_res_step.simps)
qed

text \<open>Two sessions that reserve for one account and both read before either commits do not see each other: both reservations of 60 from a balance of 100 are stored.\<close>

theorem concurrent_reserve_overcommits:
  "dec (db_reserved ''A'' ''USDT'' 0 (rd_rows (fold (db_res_step sum_list (\<lambda>x. x))
     [DbRead 1 ''i'' 60 100 ''USDT'' ''A'' 60, DbRead 2 ''j'' 60 100 ''USDT'' ''A'' 60, DbCommit 1, DbCommit 2]
     \<lparr>rd_now = 0, rd_rows = [], rd_sessions = []\<rparr>))) = 120"
  using dec.rnd_of_int [of 60] dec.rnd_of_int [of 120]
  by (simp add: db_reserve_read_def db_reserve_commit_def live_amounts_def db_reserved_def row_live_def aware_def Let_def)

text \<open>Also without overlap the other two rules are needed. An intent id that account A has used and released still carries account A in its row when account B
  reserves under it, so the reservation does not count against B: two reservations of 70 from a balance of 100 both succeed. And a
  reservation of a negative amount succeeds and makes room for more.
\<close>

theorem db_reserve_overcommits:
  "(\<exists>rows rows1 rows2 e1 e2. db_reserve sum_list (\<lambda>x. x) ''i'' 70 100 ''USDT'' ''B'' 60 0 rows = (rows1, Inr e1) \<and>
     db_reserve sum_list (\<lambda>x. x) ''j'' 70 100 ''USDT'' ''B'' 60 0 rows1 = (rows2, Inr e2) \<and> e1 \<noteq> e2) \<and>
    (\<exists>rows1 rows2 e1 e2. db_reserve sum_list (\<lambda>x. x) ''i'' (- 70) 100 ''USDT'' ''B'' 60 0 [] = (rows1, Inr e1) \<and>
     db_reserve sum_list (\<lambda>x. x) ''j'' 170 100 ''USDT'' ''B'' 60 0 rows1 = (rows2, Inr e2))"
proof -
  have d: "dec 70 = 70" "dec (- 70) = - 70" "dec 100 = 100"
    using dec.rnd_of_int [of 70] dec.rnd_of_int [of "- 70"] dec.rnd_of_int [of 100] by simp_all
  let ?old = "\<lparr>cr_exchange_account_id = ''A'', cr_amount = 5, cr_asset = ''USDT'', cr_expires_at = Aware 9, cr_released_at = Some 0\<rparr>"
  have p1: "\<exists>rows rows1 rows2 e1 e2. db_reserve sum_list (\<lambda>x. x) ''i'' 70 100 ''USDT'' ''B'' 60 0 rows = (rows1, Inr e1) \<and>
     db_reserve sum_list (\<lambda>x. x) ''j'' 70 100 ''USDT'' ''B'' 60 0 rows1 = (rows2, Inr e2) \<and> e1 \<noteq> e2"
    by (rule exI [of _ "[(''i'', ?old)]"]) (simp add: db_reserve_def db_reserve_read_def db_reserve_commit_def store_columns_def column_value_def row_live_def live_amounts_def Let_def d)
  have p2: "\<exists>rows1 rows2 e1 e2. db_reserve sum_list (\<lambda>x. x) ''i'' (- 70) 100 ''USDT'' ''B'' 60 0 [] = (rows1, Inr e1) \<and>
     db_reserve sum_list (\<lambda>x. x) ''j'' 170 100 ''USDT'' ''B'' 60 0 rows1 = (rows2, Inr e2)"
    by (simp add: db_reserve_def db_reserve_read_def db_reserve_commit_def store_columns_def column_value_def row_live_def live_amounts_def aware_def Let_def d)
  show ?thesis by (rule conjI [OF p1 p2])
qed

section \<open>An intent is created once\<close>

text \<open>No operation of the ledger removes a row, so the unique intent id is a mutex: of all the processes that ever try to
  create an intent, one is told that it did.\<close>

datatype ledger_op =
    LReserve "rat \<Rightarrow> rat" order_table OrderIntent
  | LMark string OrderRecord
  | LReconcile order_query string "OrderIntent option"

fun ledger_step :: "ledger_op \<Rightarrow> order_table \<Rightarrow> order_table" where
  "ledger_step (LReserve col others intent) rows = fst (reserve_before_side_effect col others intent rows)"
| "ledger_step (LMark i r) rows = fst (mark i r rows)"
| "ledger_step (LReconcile q i e) rows = fst (reconcile_existing q i e rows)"

definition has_intent :: "string \<Rightarrow> order_table \<Rightarrow> bool" where
  "has_intent i rows \<longleftrightarrow> dget rows i \<noteq> None"

lemma has_intent_others:
  "has_intent i rows \<Longrightarrow> has_intent i (fold (\<lambda>(k, r) d. if dget d k = None then dset k r d else d) others rows)"
  by (induction others arbitrary: rows) (auto simp: has_intent_def)

lemma has_intent_mark: "has_intent j rows \<Longrightarrow> has_intent j (fst (mark i r rows))"
  by (auto simp: has_intent_def mark_def split: option.splits)

lemma has_intent_reserve:
  assumes "has_intent j rows" shows "has_intent j (fst (reserve_before_side_effect col others i rows))"
  using assms has_intent_others [OF assms, of others]
  by (auto simp: has_intent_def reserve_before_side_effect_def Let_def split: option.splits)

lemma has_intent_reconcile: "has_intent j rows \<Longrightarrow> has_intent j (fst (reconcile_existing q i e rows))"
  unfolding reconcile_existing_def Let_def
  by (auto simp: has_intent_mark split: option.split sum.split prod.split)
     (metis fst_conv has_intent_mark)+

interpretation ledger: preserved ledger_step "has_intent i" for i
proof unfold_locales
  fix rows op assume "has_intent i rows"
  then show "has_intent i (ledger_step op rows)"
    by (cases op) (simp_all add: has_intent_mark has_intent_reserve has_intent_reconcile)
qed

lemma reserve_creates:
  assumes "reserve_before_side_effect col others intent rows = (rows', Inr (r, c))"
  shows "has_intent (oi_intent_id intent) rows'" "c \<Longrightarrow> \<not> has_intent (oi_intent_id intent) rows"
  using assms
  by (auto simp: reserve_before_side_effect_def same_or_collision_def has_intent_def bind_res_Inr Let_def split: option.splits)

lemma intent_created_once:
  assumes "reserve_before_side_effect col others intent rows = (rows', Inr (r, True))"
    and "oi_intent_id intent' = oi_intent_id intent"
  shows "snd (reserve_before_side_effect col' others' intent' (fold ledger_step ops rows')) \<noteq> Inr (r', True)"
proof
  assume "snd (reserve_before_side_effect col' others' intent' (fold ledger_step ops rows')) = Inr (r', True)"
  then obtain rows2 where "reserve_before_side_effect col' others' intent' (fold ledger_step ops rows') = (rows2, Inr (r', True))"
    by (metis prod.collapse)
  from reserve_creates(2) [OF this] ledger.run_I [OF reserve_creates(1) [OF assms(1)]] assms(2) show False by simp
qed

end
