(* ===== verification/Execution_Service.thy ===== *)
theory Execution_Service
  imports Persistent
begin

text \<open>
  The execution service (\<open>backend/app/execution/service.py\<close>), the one place that sends orders to an exchange. The account
  lock makes a call of \<open>submit\<close> one step. What the call reads from outside the service is in the record \<open>SubmitArgs\<close>: the arguments of the
  call, the answers of the exchange (its filters and capabilities are read twice and may differ), the leader registry's answers,
  the capital reservations and the rows that other processes insert meanwhile. The field \<open>sv_sent\<close> is the sequence of orders that the exchange was
  asked to execute.
\<close>

datatype capital_store =
    Memory reservations
  | Database int reservation_table

record Exchange =
  ex_balance :: "(string, rat) dict res"
  ex_get_order :: order_query
  ex_filters :: "SymbolFilters res"
  ex_capabilities :: "Capabilities res"
  ex_filters_again :: "SymbolFilters res"
  ex_capabilities_again :: "Capabilities res"
  ex_submit_order :: "OrderIntent \<Rightarrow> OrderRecord res"

record SubmitArgs =
  sa_reference_price :: rat
  sa_max_deviation_bps :: rat
  sa_mode :: TradingMode
  sa_instance_id :: "string option"
  sa_fencing_token :: "int option"
  sa_current_position_qty :: "rat option"
  sa_current_available_base_qty :: "rat option"
  sa_pretrade_limits :: "PreTradeLimits option"
  sa_pretrade_context :: "PreTradeContext option"
  sa_now :: datetime
  sa_leader :: "(string \<Rightarrow> string \<Rightarrow> int \<Rightarrow> bool) option"
  sa_fence_validate :: "string \<Rightarrow> string \<Rightarrow> int \<Rightarrow> bool"
  sa_reservations :: "capital_store option"
  sa_exchange :: Exchange
  sa_col :: "rat \<Rightarrow> rat"
  sa_others :: order_table

record ExecutionService =
  sv_risk :: RiskMachine
  sv_isolation :: "isolation option"
  sv_orders :: "order_table option"
  sv_fence :: "fencing_guard option"
  sv_records :: "(string, OrderRecord) dict"
  sv_sent :: "OrderIntent list"

section \<open>Definitions\<close>

definition leader_valid :: "SubmitArgs \<Rightarrow> OrderIntent \<Rightarrow> bool" where
  "leader_valid args intent =
     (case (sa_leader args, sa_instance_id args, sa_fencing_token args) of
        (Some validate, Some i, Some t) \<Rightarrow> validate (oi_account_id intent) i t
      | _ \<Rightarrow> False)"

definition reservation_items :: "capital_store \<Rightarrow> string list" where
  "reservation_items c = (case c of Memory d \<Rightarrow> map fst d | Database now rows \<Rightarrow> map fst (db_items now rows))"

definition live_checks :: "SubmitArgs \<Rightarrow> OrderIntent \<Rightarrow> RiskMachine \<Rightarrow> RiskMachine \<times> unit res" where
  "live_checks args intent risk =
     (if \<not> leader_valid args intent then (risk, Inl (PermissionError ''invalid LIVE leader fencing token''))
      else case sa_reservations args of
        None \<Rightarrow> (risk, Inr ())
      | Some c \<Rightarrow>
          (if oi_reduce_only intent then (risk, Inr ())
           else if oi_intent_id intent \<notin> set (reservation_items c)
           then (risk, Inl (PermissionError ''missing capital reservation''))
           else case c of
             Database now rows \<Rightarrow> (risk, Inr ())
           | Memory d \<Rightarrow>
               (case bind_res (ex_balance (sa_exchange args)) (\<lambda>b. validate_live_balance (oi_intent_id intent) b d) of
                  Inl (PermissionError e) \<Rightarrow> (restrict ''SHARED_BALANCE_CHANGED_BEFORE_SUBMIT'' risk, Inl (PermissionError e))
                | r \<Rightarrow> (risk, r))))"

definition submit_checks :: "SubmitArgs \<Rightarrow> OrderIntent \<Rightarrow> ExecutionService \<Rightarrow> RiskMachine \<times> unit res" where
  "submit_checks args intent s =
     (let risk = sv_risk s in
      if (case sv_isolation s of None \<Rightarrow> False | Some b \<Rightarrow> is_blocked (oi_account_id intent) (oi_symbol intent) b) \<and> \<not> oi_reduce_only intent
      then (risk, Inl (PermissionError ''symbol isolated due to unresolved execution state''))
      else if \<not> allow_new_risk risk \<and> \<not> oi_reduce_only intent
      then (risk, Inl (PermissionError ''risk state blocks new exposure''))
      else case validate_reduce_only intent (sa_current_position_qty args) of
        Inl e \<Rightarrow> (risk, Inl e)
      | Inr _ \<Rightarrow>
          (if (sa_pretrade_limits args = None) \<noteq> (sa_pretrade_context args = None)
           then (risk, Inl (ValueError ''pretrade_limits and pretrade_context must be supplied together''))
           else case (case (sa_pretrade_limits args, sa_pretrade_context args) of
                        (Some l, Some c) \<Rightarrow> bind_res (require_pretrade intent l c (sa_now args)) (\<lambda>_. Inr ())
                      | _ \<Rightarrow> Inr ()) of
             Inl e \<Rightarrow> (risk, Inl e)
           | Inr _ \<Rightarrow>
               (case (if \<not> oi_reduce_only intent \<and> upper (oi_side intent) = ''SELL''
                      then validate_spot_sell_balance intent (sa_current_available_base_qty args) else Inr ()) of
                  Inl e \<Rightarrow> (risk, Inl e)
                | Inr _ \<Rightarrow> if sa_mode args = LIVE then live_checks args intent risk else (risk, Inr ()))))"

definition new_record :: "OrderIntent \<Rightarrow> OrderRecord" where
  "new_record n =
     \<lparr>or_intent_id = oi_intent_id n, or_account_id = oi_account_id n, or_symbol = oi_symbol n, or_side = oi_side n,
      or_order_type = oi_order_type n, or_quantity = oi_quantity n, or_state = SUBMITTED, or_price = oi_price n,
      or_stop_price = oi_stop_price n, or_exchange_order_id = None, or_client_order_id = oi_client_order_id n,
      or_filled_quantity = 0, or_average_fill_price = None, or_fees = [], or_updated_at = 0\<rparr>"

definition prepare_order :: "SubmitArgs \<Rightarrow> OrderIntent \<Rightarrow> RiskMachine \<Rightarrow> RiskMachine \<times> OrderIntent res" where
  "prepare_order args intent risk =
     (let x = sa_exchange args
      in case bind_res (ex_filters x) (\<lambda>f. bind_res (ex_capabilities x) (\<lambda>c.
              bind_res (normalize_and_validate intent f c (sa_reference_price args) (sa_max_deviation_bps args)) (\<lambda>n.
              bind_res (ex_filters_again x) (\<lambda>f2. bind_res (ex_capabilities_again x) (\<lambda>c2. Inr (n, f2 \<noteq> f \<or> c2 \<noteq> c)))))) of
           Inl e \<Rightarrow> (risk, Inl e)
         | Inr (n, changed) \<Rightarrow>
             (if changed
              then (manual_review ''SYMBOL_METADATA_CHANGED_BEFORE_SUBMIT'' risk,
                    Inl (PermissionError ''symbol metadata changed before submit; revalidation required''))
              else (risk, Inr n)))"

text \<open>The fence of \<open>DatabaseExecutionFence\<close>, in mode LIVE and when one is configured.\<close>

definition pass_fence :: "SubmitArgs \<Rightarrow> OrderIntent \<Rightarrow> fencing_guard option \<Rightarrow> fencing_guard option \<times> unit res" where
  "pass_fence args intent fence =
     (case fence of
        None \<Rightarrow> (fence, Inr ())
      | Some g \<Rightarrow>
          (if sa_mode args \<noteq> LIVE then (fence, Inr ())
           else case (sa_instance_id args, sa_fencing_token args) of
             (Some i, Some t) \<Rightarrow>
               (case require_current (sa_fence_validate args) (oi_account_id intent) i t g of (g', r) \<Rightarrow> (Some g', r))
           | _ \<Rightarrow> (fence, Inl (TypeError ''int() argument must not be None''))))"

definition mark_durable :: "string \<Rightarrow> OrderRecord \<Rightarrow> ExecutionService \<Rightarrow> ExecutionService \<times> unit res" where
  "mark_durable i r s =
     (case sv_orders s of
        None \<Rightarrow> (s, Inr ())
      | Some rows \<Rightarrow> (case mark i r rows of (rows', e) \<Rightarrow> (s\<lparr>sv_orders := Some rows'\<rparr>, e)))"

definition unknown_outcome :: "OrderIntent \<Rightarrow> OrderRecord \<Rightarrow> ExecutionService \<Rightarrow> ExecutionService \<times> OrderRecord res" where
  "unknown_outcome intent rec s =
     (let rec' = rec\<lparr>or_state := UNKNOWN\<rparr>; s1 = s\<lparr>sv_records := dset (oi_intent_id intent) rec' (sv_records s)\<rparr>
      in case mark_durable (oi_intent_id intent) rec' s1 of
           (s2, Inl e) \<Rightarrow> (s2, Inl e)
         | (s2, Inr _) \<Rightarrow>
             (case sv_isolation s2 of
                Some b \<Rightarrow> (s2\<lparr>sv_isolation := Some (fst (iso_block (oi_account_id intent) (oi_symbol intent) ''UNKNOWN_ORDER'' b))\<rparr>, Inr rec')
              | None \<Rightarrow> (s2\<lparr>sv_risk := manual_review ''UNKNOWN_ORDER'' (sv_risk s2)\<rparr>, Inr rec')))"

definition send_order :: "SubmitArgs \<Rightarrow> OrderIntent \<Rightarrow> OrderIntent \<Rightarrow> OrderRecord \<Rightarrow> ExecutionService \<Rightarrow> ExecutionService \<times> OrderRecord res" where
  "send_order args intent n rec s =
     (let i = oi_intent_id intent; s1 = s\<lparr>sv_records := dset i rec (sv_records s)\<rparr>
      in case pass_fence args intent (sv_fence s1) of
           (fence, Inl e) \<Rightarrow> (s1\<lparr>sv_fence := fence\<rparr>, Inl e)
         | (fence, Inr _) \<Rightarrow>
             (let s2 = s1\<lparr>sv_fence := fence, sv_sent := sv_sent s1 @ [n]\<rparr>
              in case ex_submit_order (sa_exchange args) n of
                   Inr actual \<Rightarrow>
                     (case mark_durable i actual (s2\<lparr>sv_records := dset i actual (sv_records s2)\<rparr>) of
                        (s3, r) \<Rightarrow> (s3, bind_res r (\<lambda>_. Inr actual)))
                 | Inl AmbiguousExecution \<Rightarrow> unknown_outcome intent rec s2
                 | Inl TimeoutError \<Rightarrow> unknown_outcome intent rec s2
                 | Inl e \<Rightarrow> (s2, Inl e)))"

text \<open>Resolve an intent that the durable ledger knows, and remember the result.\<close>

definition resolve_existing ::
  "SubmitArgs \<Rightarrow> OrderIntent \<Rightarrow> order_table \<Rightarrow> ExecutionService \<Rightarrow> ExecutionService \<times> OrderRecord option res" where
  "resolve_existing args intent rows s =
     (case reconcile_existing (ex_get_order (sa_exchange args)) (oi_intent_id intent) (Some intent) rows of
        (rows', r) \<Rightarrow>
          (let s1 = s\<lparr>sv_orders := Some rows'\<rparr>
           in case r of
                Inr (Some e) \<Rightarrow> (s1\<lparr>sv_records := dset (oi_intent_id intent) e (sv_records s1)\<rparr>, Inr (Some e))
              | _ \<Rightarrow> (s1, r)))"

text \<open>In the last branch the ledger has a row for the intent, so that \<open>resolve_existing\<close> never finds nothing
  (\<open>resolve_existing_found\<close> below).\<close>

definition submit_new :: "SubmitArgs \<Rightarrow> OrderIntent \<Rightarrow> ExecutionService \<Rightarrow> ExecutionService \<times> OrderRecord res" where
  "submit_new args intent s =
     (case prepare_order args intent (sv_risk s) of
        (risk, Inl e) \<Rightarrow> (s\<lparr>sv_risk := risk\<rparr>, Inl e)
      | (risk, Inr n) \<Rightarrow>
          (case sv_orders s of
             None \<Rightarrow> send_order args intent n (new_record n) s
           | Some rows \<Rightarrow>
               (case reserve_before_side_effect (sa_col args) (sa_others args) n rows of
                  (rows', Inl e) \<Rightarrow> (s\<lparr>sv_orders := Some rows'\<rparr>, Inl e)
                | (rows', Inr (durable, True)) \<Rightarrow> send_order args intent n durable (s\<lparr>sv_orders := Some rows'\<rparr>)
                | (rows', Inr (durable, False)) \<Rightarrow>
                    (case resolve_existing args n rows' (s\<lparr>sv_orders := Some rows'\<rparr>) of
                       (s1, Inl e) \<Rightarrow> (s1, Inl e)
                     | (s1, Inr None) \<Rightarrow> (s1, Inl (OtherException ''no durable intent''))
                     | (s1, Inr (Some r)) \<Rightarrow> (s1, Inr r)))))"

definition submit :: "SubmitArgs \<Rightarrow> OrderIntent \<Rightarrow> ExecutionService \<Rightarrow> ExecutionService \<times> OrderRecord res" where
  "submit args intent s0 =
     (case submit_checks args intent s0 of
        (risk, Inl e) \<Rightarrow> (s0\<lparr>sv_risk := risk\<rparr>, Inl e)
      | (risk, Inr _) \<Rightarrow>
          (let s = s0\<lparr>sv_risk := risk\<rparr>
           in case dget (sv_records s) (oi_intent_id intent) of
                Some r \<Rightarrow> (s, Inr r)
              | None \<Rightarrow>
                  (case sv_orders s of
                     None \<Rightarrow> submit_new args intent s
                   | Some rows \<Rightarrow>
                       (case resolve_existing args intent rows s of
                          (s1, Inl e) \<Rightarrow> (s1, Inl e)
                        | (s1, Inr (Some r)) \<Rightarrow> (s1, Inr r)
                        | (s1, Inr None) \<Rightarrow> submit_new args intent s1))))"

section \<open>What each part does to the service\<close>

lemma mark_durable_simps [simp]:
  "sv_sent (fst (mark_durable i r s)) = sv_sent s" "sv_records (fst (mark_durable i r s)) = sv_records s"
  "sv_risk (fst (mark_durable i r s)) = sv_risk s" "sv_isolation (fst (mark_durable i r s)) = sv_isolation s"
  by (auto simp: mark_durable_def split: option.split prod.split)

text \<open>An intent is known when the durable ledger has it, or, without a ledger, when the records have it.\<close>

definition known :: "string \<Rightarrow> ExecutionService \<Rightarrow> bool" where
  "known i s = (case sv_orders s of None \<Rightarrow> dget (sv_records s) i \<noteq> None | Some rows \<Rightarrow> has_intent i rows)"

lemma known_cong: "sv_orders s = sv_orders t \<Longrightarrow> sv_records s = sv_records t \<Longrightarrow> known i s = known i t"
  by (simp add: known_def split: option.split)

lemma known_risk [simp]: "known i (s\<lparr>sv_risk := r\<rparr>) = known i s"
  by (rule known_cong) simp_all

lemma known_mark_durable: "known j s \<Longrightarrow> known j (fst (mark_durable i r s))"
  by (auto simp: known_def mark_durable_def has_intent_mark split: option.splits prod.splits) (metis fst_conv has_intent_mark)

lemma known_record: "known j s \<Longrightarrow> known j (s\<lparr>sv_records := dset i r (sv_records s)\<rparr>)"
  by (auto simp: known_def split: option.splits)

lemma unknown_outcome_sent [simp]: "sv_sent (fst (unknown_outcome intent rec s)) = sv_sent s"
proof -
  let ?s = "s\<lparr>sv_records := dset (oi_intent_id intent) (rec\<lparr>or_state := UNKNOWN\<rparr>) (sv_records s)\<rparr>"
  show ?thesis
    by (cases "mark_durable (oi_intent_id intent) (rec\<lparr>or_state := UNKNOWN\<rparr>) ?s")
      (use mark_durable_simps(1) [of "oi_intent_id intent" "rec\<lparr>or_state := UNKNOWN\<rparr>" ?s] in
        \<open>auto simp: unknown_outcome_def Let_def split: sum.split option.split\<close>)
qed

lemma known_unknown_outcome:
  assumes "known j s" shows "known j (fst (unknown_outcome intent rec s))"
proof -
  let ?r = "rec\<lparr>or_state := UNKNOWN\<rparr>" let ?s = "s\<lparr>sv_records := dset (oi_intent_id intent) ?r (sv_records s)\<rparr>"
  have "known j (fst (mark_durable (oi_intent_id intent) ?r ?s))"
    by (intro known_mark_durable known_record assms)
  then show ?thesis
    by (cases "mark_durable (oi_intent_id intent) ?r ?s")
      (auto simp: unknown_outcome_def Let_def known_def split: sum.split option.splits)
qed

lemma mark_durable_eq:
  assumes "mark_durable i r s = (t, e)"
  shows "sv_sent t = sv_sent s" "sv_records t = sv_records s" "known j s \<Longrightarrow> known j t"
  using mark_durable_simps(1,2) [of i r s] known_mark_durable [of j s i r] assms by simp_all

lemma send_order_sent: "sv_sent (fst (send_order args intent n rec s)) \<in> {sv_sent s, sv_sent s @ [n]}"
  unfolding send_order_def Let_def
  by (auto simp: mark_durable_eq(1) split: prod.split sum.split pyerr.split)

lemma known_send_order:
  assumes "known j s \<or> j = oi_intent_id intent \<and> sv_orders s = None"
  shows "known j (fst (send_order args intent n rec s))"
proof -
  let ?i = "oi_intent_id intent"
  have k: "known j (s\<lparr>sv_records := dset ?i r (sv_records s), sv_fence := f, sv_sent := x\<rparr>)"
       "known j (s\<lparr>sv_records := dset ?i r (sv_records s), sv_fence := f\<rparr>)"
       "known j (s\<lparr>sv_fence := f, sv_sent := x, sv_records := dset ?i r (sv_records s)\<rparr>)" for r f x
    using assms by (auto simp: known_def split: option.splits)
  show ?thesis
    unfolding send_order_def Let_def
    by (auto simp: k mark_durable_eq(3) known_unknown_outcome split: prod.split sum.split pyerr.split)
qed

lemma resolve_existing_sent [simp]: "sv_sent (fst (resolve_existing args intent rows s)) = sv_sent s"
  by (auto simp: resolve_existing_def Let_def split: prod.split sum.split option.split)

lemma resolve_existing_orders:
  "sv_orders (fst (resolve_existing args intent rows s)) =
     Some (fst (reconcile_existing (ex_get_order (sa_exchange args)) (oi_intent_id intent) (Some intent) rows))"
  by (auto simp: resolve_existing_def Let_def split: prod.split sum.split option.split)

text \<open>A row that is in the ledger is found.\<close>

lemma resolve_existing_found:
  "has_intent (oi_intent_id intent) rows \<Longrightarrow> snd (resolve_existing args intent rows s) \<noteq> Inr None"
  by (auto simp: resolve_existing_def reconcile_existing_def ledger_get_def has_intent_def Let_def bind_res_Inr
      split: prod.splits sum.splits option.splits if_splits)

section \<open>No intent is sent twice\<close>

definition sent_once :: "ExecutionService \<Rightarrow> bool" where
  "sent_once s \<longleftrightarrow> distinct (map oi_intent_id (sv_sent s)) \<and> (\<forall>n \<in> set (sv_sent s). known (oi_intent_id n) s)"

lemma sent_once_mono:
  assumes "sent_once s" "sv_sent t = sv_sent s" "\<And>j. known j s \<Longrightarrow> known j t" shows "sent_once t"
  using assms by (auto simp: sent_once_def)

lemma sent_once_send_order:
  assumes "sent_once s" "oi_intent_id n = oi_intent_id intent" "oi_intent_id n \<notin> oi_intent_id ` set (sv_sent s)"
    and "known (oi_intent_id intent) s \<or> sv_orders s = None"
  shows "sent_once (fst (send_order args intent n rec s))"
proof -
  let ?t = "fst (send_order args intent n rec s)"
  have k: "known j ?t" if "known j s \<or> j = oi_intent_id intent" for j
    using that assms(4) by (intro known_send_order) auto
  have "sv_sent ?t \<in> {sv_sent s, sv_sent s @ [n]}" by (rule send_order_sent)
  then show ?thesis using assms(1-3) k by (auto simp: sent_once_def)
qed

lemma prepare_order_id: "prepare_order args intent risk = (r, Inr n) \<Longrightarrow> oi_intent_id n = oi_intent_id intent"
  unfolding prepare_order_def Let_def
  by (auto simp: bind_res_Inr split: sum.splits if_splits elim!: normalize_and_validate_cases)

lemma sent_once_submit_new:
  assumes "sent_once s" "\<not> known (oi_intent_id intent) s"
  shows "sent_once (fst (submit_new args intent s))"
proof -
  have risk: "sent_once (s\<lparr>sv_risk := r\<rparr>)" for r using assms(1) by (rule sent_once_mono) simp_all
  have fresh: "oi_intent_id intent \<notin> oi_intent_id ` set (sv_sent s)" using assms by (auto simp: sent_once_def)
  obtain risk' r where p: "prepare_order args intent (sv_risk s) = (risk', r)" by (cases "prepare_order args intent (sv_risk s)")
  show ?thesis
  proof (cases r)
    case (Inl e)
    then show ?thesis by (simp add: submit_new_def p risk)
  next
    case (Inr n)
    have id: "oi_intent_id n = oi_intent_id intent" using p Inr prepare_order_id by auto
    show ?thesis
    proof (cases "sv_orders s")
      case None
      with Inr id fresh assms(1) show ?thesis by (simp add: submit_new_def p sent_once_send_order)
    next
      case (Some rows)
      obtain rows' q where q: "reserve_before_side_effect (sa_col args) (sa_others args) n rows = (rows', q)"
        by (cases "reserve_before_side_effect (sa_col args) (sa_others args) n rows")
      have keep: "has_intent j rows'" if "has_intent j rows" for j
        using has_intent_reserve [OF that, of "sa_col args" "sa_others args" n] q by simp
      have s': "sent_once (s\<lparr>sv_orders := Some rows'\<rparr>)"
        using assms(1) by (rule sent_once_mono) (simp_all add: known_def Some keep)
      have res: "sent_once (fst (resolve_existing args n rows' (s\<lparr>sv_orders := Some rows'\<rparr>)))"
        using s' by (rule sent_once_mono) (simp_all add: known_def resolve_existing_orders has_intent_reconcile)
      have new: "sent_once (fst (send_order args intent n d (s\<lparr>sv_orders := Some rows'\<rparr>)))" if "q = Inr (d, c)" for d c
        using reserve_creates(1) [of "sa_col args" "sa_others args" n rows rows' d c] q that id fresh s'
        by (intro sent_once_send_order) (simp_all add: known_def)
      show ?thesis
        using s' new res
        by (cases "resolve_existing args n rows' (s\<lparr>sv_orders := Some rows'\<rparr>)")
          (auto simp: submit_new_def p Inr Some q split: sum.split prod.split option.split bool.split)
    qed
  qed
qed

lemma sent_once_submit:
  assumes "sent_once s0" shows "sent_once (fst (submit args intent s0))"
proof -
  obtain risk c where c: "submit_checks args intent s0 = (risk, c)" by (cases "submit_checks args intent s0")
  let ?s = "s0\<lparr>sv_risk := risk\<rparr>"
  have s: "sent_once ?s" using assms by (rule sent_once_mono) simp_all
  show ?thesis
  proof (cases "(\<exists>e. c = Inl e) \<or> dget (sv_records s0) (oi_intent_id intent) \<noteq> None")
    case True
    with s show ?thesis by (auto simp: submit_def c split: sum.split)
  next
    case False
    then have c': "c = Inr ()" and r: "dget (sv_records s0) (oi_intent_id intent) = None" by (cases c; auto)+
    show ?thesis
    proof (cases "sv_orders s0")
      case None
      with s r show ?thesis by (simp add: submit_def c c' sent_once_submit_new known_def)
    next
      case (Some rows)
      obtain s1 q where q: "resolve_existing args intent rows ?s = (s1, q)" by (cases "resolve_existing args intent rows ?s")
      have s1: "sent_once s1"
      proof (rule sent_once_mono [OF s])
        show "sv_sent s1 = sv_sent ?s" using resolve_existing_sent [of args intent rows ?s] q by simp
        show "known j s1" if "known j ?s" for j
          using that resolve_existing_orders [of args intent rows ?s] q Some by (simp add: known_def has_intent_reconcile)
      qed
      have "\<not> known (oi_intent_id intent) s1" if "q = Inr None"
      proof -
        have "\<not> has_intent (oi_intent_id intent) rows" using resolve_existing_found [of intent rows args ?s] q that by auto
        then show ?thesis using resolve_existing_orders [of args intent rows ?s] q
          by (simp add: known_def has_intent_def reconcile_existing_def ledger_get_def)
      qed
      with s1 r Some show ?thesis
        by (auto simp: submit_def c c' q sent_once_submit_new split: sum.split option.split)
    qed
  qed
qed

text \<open>The service keeps its durable ledger: it has one after a call exactly when it had one before.\<close>

lemma mark_durable_ledger: "mark_durable i r s = (t, e) \<Longrightarrow> sv_orders t = None \<longleftrightarrow> sv_orders s = None"
  by (auto simp: mark_durable_def split: option.splits prod.splits)

lemma unknown_outcome_ledger: "sv_orders (fst (unknown_outcome intent rec s)) = None \<longleftrightarrow> sv_orders s = None"
  unfolding unknown_outcome_def Let_def
  by (auto dest: mark_durable_ledger split: prod.split sum.split option.split)

lemma send_order_ledger: "sv_orders (fst (send_order args intent n rec s)) = None \<longleftrightarrow> sv_orders s = None"
  unfolding send_order_def Let_def
  by (auto simp: unknown_outcome_ledger dest: mark_durable_ledger split: prod.split sum.split pyerr.split)

lemma resolve_existing_ledger: "resolve_existing args intent rows s = (t, r) \<Longrightarrow> sv_orders t \<noteq> None"
  using resolve_existing_orders [of args intent rows s] by simp

lemma submit_new_ledger: "sv_orders (fst (submit_new args intent s)) = None \<longleftrightarrow> sv_orders s = None"
  unfolding submit_new_def
  by (auto simp: send_order_ledger simp del: not_None_eq dest: resolve_existing_ledger split: prod.split sum.split option.split bool.split)

lemma submit_ledger: "sv_orders (fst (submit args intent s)) = None \<longleftrightarrow> sv_orders s = None"
  unfolding submit_def Let_def
  by (auto simp: submit_new_ledger simp del: not_None_eq dest: resolve_existing_ledger split: prod.split sum.split option.split)

text \<open>A restart builds the service again: the new process has its own risk machine and isolation, no records and, where it has a guard, an empty one. Only
  the rows of the durable ledger are still there.\<close>

datatype service_op =
    Submit SubmitArgs OrderIntent
  | Restart RiskMachine "isolation option"

fun service_step :: "service_op \<Rightarrow> ExecutionService \<Rightarrow> ExecutionService" where
  "service_step (Submit args intent) s = fst (submit args intent s)"
| "service_step (Restart risk isolation) s =
     s\<lparr>sv_risk := risk, sv_isolation := isolation, sv_fence := map_option (\<lambda>_. []) (sv_fence s), sv_records := []\<rparr>"

fun is_submit :: "service_op \<Rightarrow> bool" where
  "is_submit (Submit args intent) = True"
| "is_submit (Restart risk isolation) = False"

interpretation service: preserved_by service_step sent_once is_submit
proof unfold_locales
  fix s op assume "sent_once s" "is_submit op"
  then show "sent_once (service_step op s)" by (cases op) (simp_all add: sent_once_submit)
qed

interpretation durable_service: preserved service_step "\<lambda>s. sent_once s \<and> sv_orders s \<noteq> None"
proof unfold_locales
  fix s op assume "sent_once s \<and> sv_orders s \<noteq> None"
  then show "sent_once (service_step op s) \<and> sv_orders (service_step op s) \<noteq> None"
    by (cases op) (auto simp: sent_once_submit submit_ledger, auto simp: sent_once_def known_def)
qed

text \<open>
  C1: no intent reaches the exchange twice. Whatever the callers submit and resubmit, whatever the exchange answers (errors, timeouts and
  ambiguous outcomes included) and whichever rows other processes insert, the orders that the service sends have pairwise different intent ids: with
  a durable ledger over every sequence of calls and restarts of the process, and without one over every sequence of calls
  within one process. Without a ledger a restart forgets the orders that were sent (\<open>restart_without_ledger_resends\<close>).
\<close>

theorem submit_at_most_once:
  assumes "sv_sent s = []" "sv_orders s \<noteq> None \<or> list_all is_submit ops"
  shows "distinct (map oi_intent_id (sv_sent (fold service_step ops s)))"
proof -
  have "sent_once s" using assms(1) by (simp add: sent_once_def)
  then have "sent_once (fold service_step ops s)"
    using assms(2) service.run_ok_I [of s ops] durable_service.run_I [of s ops] by blast
  then show ?thesis by (simp add: sent_once_def)
qed

section \<open>Every order sent has passed the checks\<close>

lemma live_checks_ok:
  assumes "live_checks args intent risk = (risk', Inr x)"
  shows "risk' = risk" "leader_valid args intent"
    "\<not> oi_reduce_only intent \<Longrightarrow> sa_reservations args = Some c \<Longrightarrow> oi_intent_id intent \<in> set (reservation_items c)"
  using assms by (auto simp: live_checks_def split: if_splits option.splits capital_store.splits sum.splits pyerr.splits)

definition symbol_free :: "OrderIntent \<Rightarrow> ExecutionService \<Rightarrow> bool" where
  "symbol_free intent s =
     (case sv_isolation s of None \<Rightarrow> True | Some b \<Rightarrow> \<not> is_blocked (oi_account_id intent) (oi_symbol intent) b)"

lemma submit_checks_ok:
  assumes "submit_checks args intent s = (risk, Inr x)"
  shows "risk = sv_risk s" "oi_reduce_only intent \<or> symbol_free intent s \<and> allow_new_risk (sv_risk s)"
    "validate_reduce_only intent (sa_current_position_qty args) = Inr ()"
    "sa_mode args = LIVE \<Longrightarrow> live_checks args intent (sv_risk s) = (risk, Inr ())"
proof -
  have unit: "r = Inr ()" if "r = Inr (y::unit)" for r :: "unit res" and y using that by simp
  show "risk = sv_risk s" "oi_reduce_only intent \<or> symbol_free intent s \<and> allow_new_risk (sv_risk s)"
    "validate_reduce_only intent (sa_current_position_qty args) = Inr ()"
    "sa_mode args = LIVE \<Longrightarrow> live_checks args intent (sv_risk s) = (risk, Inr ())"
    using assms unfolding submit_checks_def Let_def symbol_free_def
    by (auto split: if_splits option.splits sum.splits prod.splits dest: live_checks_ok(1))
qed

lemma prepare_order_ok:
  assumes "prepare_order args intent risk = (risk', Inr n)"
  shows "\<exists>f c. ex_filters (sa_exchange args) = Inr f \<and> ex_capabilities (sa_exchange args) = Inr c \<and>
    ex_filters_again (sa_exchange args) = Inr f \<and> ex_capabilities_again (sa_exchange args) = Inr c \<and>
    normalize_and_validate intent f c (sa_reference_price args) (sa_max_deviation_bps args) = Inr n"
  using assms unfolding prepare_order_def Let_def
  by (auto simp: bind_res_Inr split: sum.splits if_splits)

lemma submit_new_sent:
  assumes "sv_sent (fst (submit_new args intent s)) \<noteq> sv_sent s"
  obtains n rec t where "prepare_order args intent (sv_risk s) = (fst (prepare_order args intent (sv_risk s)), Inr n)"
    "submit_new args intent s = send_order args intent n rec t" "sv_sent t = sv_sent s" "sv_isolation t = sv_isolation s"
    "sv_risk t = sv_risk s" "sv_fence t = sv_fence s" "known (oi_intent_id intent) t \<or> sv_orders t = None"
proof -
  obtain risk r where p: "prepare_order args intent (sv_risk s) = (risk, r)" by (cases "prepare_order args intent (sv_risk s)")
  from assms obtain n where n: "r = Inr n" by (cases r) (auto simp: submit_new_def p)
  have id: "oi_intent_id n = oi_intent_id intent" using p n prepare_order_id by auto
  show thesis
  proof (cases "sv_orders s")
    case None
    then show thesis using that [of n "new_record n" s] by (simp add: submit_new_def p n)
  next
    case (Some rows)
    obtain rows' q where q: "reserve_before_side_effect (sa_col args) (sa_others args) n rows = (rows', q)"
      by (cases "reserve_before_side_effect (sa_col args) (sa_others args) n rows")
    have res: "sv_sent (fst (resolve_existing args n rows' (s\<lparr>sv_orders := Some rows'\<rparr>))) = sv_sent s" by simp
    from assms obtain d where d: "q = Inr (d, True)"
      using res by (cases "resolve_existing args n rows' (s\<lparr>sv_orders := Some rows'\<rparr>)")
        (auto simp: submit_new_def p n Some q split: sum.splits prod.splits option.splits bool.splits)
    have "known (oi_intent_id intent) (s\<lparr>sv_orders := Some rows'\<rparr>)"
      using reserve_creates(1) [of "sa_col args" "sa_others args" n rows rows' d True] q d id by (simp add: known_def)
    then show thesis
      using that [of n d "s\<lparr>sv_orders := Some rows'\<rparr>"] by (simp add: submit_new_def p n Some q d)
  qed
qed

lemma resolve_existing_simps [simp]:
  "sv_isolation (fst (resolve_existing args intent rows s)) = sv_isolation s"
  "sv_risk (fst (resolve_existing args intent rows s)) = sv_risk s"
  "sv_fence (fst (resolve_existing args intent rows s)) = sv_fence s"
  by (auto simp: resolve_existing_def Let_def split: prod.split sum.split option.split)

lemma submit_sent:
  assumes "sv_sent (fst (submit args intent s)) \<noteq> sv_sent s"
  obtains n rec t x where "submit_checks args intent s = (sv_risk s, Inr ())"
    "prepare_order args intent (sv_risk s) = (x, Inr n)"
    "submit args intent s = send_order args intent n rec t" "sv_sent t = sv_sent s" "sv_isolation t = sv_isolation s"
    "sv_risk t = sv_risk s" "sv_fence t = sv_fence s" "known (oi_intent_id intent) t \<or> sv_orders t = None"
proof -
  obtain risk c where c: "submit_checks args intent s = (risk, c)" by (cases "submit_checks args intent s")
  from assms have "c = Inr ()" by (cases c) (auto simp: submit_def c)
  with c have c: "submit_checks args intent s = (sv_risk s, Inr ())" using submit_checks_ok(1) by auto
  from assms have r: "dget (sv_records s) (oi_intent_id intent) = None"
    by (cases "dget (sv_records s) (oi_intent_id intent)") (simp_all add: submit_def c)
  obtain s1 where s1: "submit args intent s = submit_new args intent s1" and f: "sv_sent s1 = sv_sent s"
      "sv_isolation s1 = sv_isolation s" "sv_risk s1 = sv_risk s" "sv_fence s1 = sv_fence s"
  proof (cases "sv_orders s")
    case None
    then show thesis using that [of s] by (simp add: submit_def c r)
  next
    case (Some rows)
    let ?t = "fst (resolve_existing args intent rows s)"
    have "snd (resolve_existing args intent rows s) = Inr None"
      using assms resolve_existing_sent [of args intent rows s]
      by (cases "resolve_existing args intent rows s") (auto simp: submit_def c r Some split: sum.splits option.splits)
    then have "submit args intent s = submit_new args intent ?t"
      by (cases "resolve_existing args intent rows s") (simp add: submit_def c r Some)
    then show thesis using that [of ?t] by simp
  qed
  with assms have "sv_sent (fst (submit_new args intent s1)) \<noteq> sv_sent s1" by simp
  then show thesis using c f s1 by (elim submit_new_sent) (simp add: that)
qed

lemma send_order_fence:
  assumes "sv_sent (fst (send_order args intent n rec s)) \<noteq> sv_sent s"
  shows "sv_sent (fst (send_order args intent n rec s)) = sv_sent s @ [n]" "snd (pass_fence args intent (sv_fence s)) = Inr ()"
  using assms send_order_sent [of args intent n rec s]
  by (auto simp: send_order_def Let_def split: prod.splits sum.splits)

text \<open>
  C2: whenever a call of \<open>submit\<close> reaches the exchange, it sends one order, the caller's intent normalised under filters and capabilities
  that were the same before and after; unless the order is reduce-only, the risk state allowed new risk and the symbol was not quarantined;
  a reduce-only order passed the reduce-only check; and in mode LIVE the leader registry confirmed the
  caller's token, a required reservation was there, and the fence let the token pass.
\<close>

theorem sent_order_passed_checks:
  assumes "sv_sent (fst (submit args intent s)) \<noteq> sv_sent s"
  shows "(\<exists>n f c. sv_sent (fst (submit args intent s)) = sv_sent s @ [n] \<and>
      ex_filters (sa_exchange args) = Inr f \<and> ex_filters_again (sa_exchange args) = Inr f \<and>
      ex_capabilities (sa_exchange args) = Inr c \<and> ex_capabilities_again (sa_exchange args) = Inr c \<and>
      normalize_and_validate intent f c (sa_reference_price args) (sa_max_deviation_bps args) = Inr n) \<and>
    (oi_reduce_only intent \<or> symbol_free intent s \<and> allow_new_risk (sv_risk s)) \<and>
    (validate_reduce_only intent (sa_current_position_qty args) = Inr ()) \<and>
    (sa_mode args = LIVE \<longrightarrow> leader_valid args intent \<and> snd (pass_fence args intent (sv_fence s)) = Inr () \<and>
      (\<forall>c. sa_reservations args = Some c \<and> \<not> oi_reduce_only intent \<longrightarrow> oi_intent_id intent \<in> set (reservation_items c)))"
proof -
  obtain n rec t x where ok: "submit_checks args intent s = (sv_risk s, Inr ())"
    and p: "prepare_order args intent (sv_risk s) = (x, Inr n)"
    and e: "submit args intent s = send_order args intent n rec t" "sv_sent t = sv_sent s" "sv_fence t = sv_fence s"
    using assms by (rule submit_sent)
  have fence: "sv_sent (fst (submit args intent s)) = sv_sent s @ [n]" "snd (pass_fence args intent (sv_fence s)) = Inr ()"
    using send_order_fence [of args intent n rec t] assms e by auto
  have p1: "\<exists>n f c. sv_sent (fst (submit args intent s)) = sv_sent s @ [n] \<and>
      ex_filters (sa_exchange args) = Inr f \<and> ex_filters_again (sa_exchange args) = Inr f \<and>
      ex_capabilities (sa_exchange args) = Inr c \<and> ex_capabilities_again (sa_exchange args) = Inr c \<and>
      normalize_and_validate intent f c (sa_reference_price args) (sa_max_deviation_bps args) = Inr n"
    using prepare_order_ok [OF p] fence(1) by blast
  have p2: "oi_reduce_only intent \<or> symbol_free intent s \<and> allow_new_risk (sv_risk s)"
    and p3: "validate_reduce_only intent (sa_current_position_qty args) = Inr ()"
    using submit_checks_ok(2,3) [OF ok] by simp_all
  have p4: "sa_mode args = LIVE \<longrightarrow> leader_valid args intent \<and> snd (pass_fence args intent (sv_fence s)) = Inr () \<and>
      (\<forall>c. sa_reservations args = Some c \<and> \<not> oi_reduce_only intent \<longrightarrow> oi_intent_id intent \<in> set (reservation_items c))"
    using live_checks_ok(2,3) [OF submit_checks_ok(4) [OF ok]] fence(2) by blast
  show ?thesis by (rule conjI [OF p1 conjI [OF p2 conjI [OF p3 p4]]])
qed

section \<open>An unknown outcome stops further exposure\<close>

lemma unknown_outcome_effect:
  assumes "unknown_outcome intent rec s = (s', Inr r)"
  shows "r = rec\<lparr>or_state := UNKNOWN\<rparr>" "dget (sv_records s') (oi_intent_id intent) = Some r"
    "\<not> symbol_free intent s' \<or> \<not> allow_new_risk (sv_risk s')"
proof -
  let ?r = "rec\<lparr>or_state := UNKNOWN\<rparr>" let ?s = "s\<lparr>sv_records := dset (oi_intent_id intent) ?r (sv_records s)\<rparr>"
  obtain s2 e where m: "mark_durable (oi_intent_id intent) ?r ?s = (s2, e)" by (cases "mark_durable (oi_intent_id intent) ?r ?s")
  with assms have e: "e = Inr ()" by (cases e) (simp_all add: unknown_outcome_def Let_def)
  have rec: "dget (sv_records s2) (oi_intent_id intent) = Some ?r" using mark_durable_eq(2) [OF m] by simp
  have r: "r = ?r" and cases: "case sv_isolation s2 of
      Some b \<Rightarrow> s' = s2\<lparr>sv_isolation := Some (fst (iso_block (oi_account_id intent) (oi_symbol intent) ''UNKNOWN_ORDER'' b))\<rparr>
    | None \<Rightarrow> s' = s2\<lparr>sv_risk := manual_review ''UNKNOWN_ORDER'' (sv_risk s2)\<rparr>"
    using assms by (auto simp: unknown_outcome_def Let_def m e split: option.splits)
  show "r = ?r" by (rule r)
  show "dget (sv_records s') (oi_intent_id intent) = Some r" using cases rec by (auto simp: r split: option.splits)
  show "\<not> symbol_free intent s' \<or> \<not> allow_new_risk (sv_risk s')"
    using cases by (auto simp: symbol_free_def manual_review_def transition_to_def allow_new_risk_def split: option.splits)
qed

lemma submit_blocked:
  assumes "\<not> symbol_free intent s \<or> \<not> allow_new_risk (sv_risk s)" "\<not> oi_reduce_only intent"
  shows "\<exists>e. submit args intent s = (s, Inl (PermissionError e))"
  using assms by (auto simp: submit_def submit_checks_def symbol_free_def Let_def split: option.splits)

text \<open>
  C39: a timeout or an ambiguous answer of the exchange is never mistaken for success or failure. The order is recorded as UNKNOWN, and
  until an operator intervenes every further order that would add exposure in the same symbol and account is refused without reaching the exchange.
\<close>

theorem ambiguous_submit_quarantines:
  assumes "submit args intent s = (s', Inr r)" "sv_sent s' = sv_sent s @ [n]"
    and "ex_submit_order (sa_exchange args) n \<in> {Inl AmbiguousExecution, Inl TimeoutError}"
    and "oi_account_id intent' = oi_account_id intent" "upper (oi_symbol intent') = upper (oi_symbol intent)" "\<not> oi_reduce_only intent'"
  shows "(or_state r = UNKNOWN) \<and>
    (dget (sv_records s') (oi_intent_id intent) = Some r) \<and>
    (\<exists>e. submit args' intent' s' = (s', Inl (PermissionError e)))"
proof -
  have "sv_sent (fst (submit args intent s)) \<noteq> sv_sent s" using assms(1,2) by simp
  then obtain n' rec t where e: "submit args intent s = send_order args intent n' rec t" and t: "sv_sent t = sv_sent s"
    by (rule submit_sent)
  have "n' = n" using send_order_sent [of args intent n' rec t] assms(1,2) e t by auto
  obtain s2 where u: "unknown_outcome intent rec s2 = (s', Inr r)"
    using e assms(1,3) \<open>n' = n\<close> by (auto simp: send_order_def Let_def split: prod.splits sum.splits)
  note eff = unknown_outcome_effect [OF u]
  have p1: "or_state r = UNKNOWN" using eff(1) by simp
  have p2: "dget (sv_records s') (oi_intent_id intent) = Some r" by (rule eff(2))
  have "symbol_free intent' s' = symbol_free intent s'"
    using assms(4,5) by (auto simp: symbol_free_def is_blocked_def split: option.split)
  then have p3: "\<exists>e. submit args' intent' s' = (s', Inl (PermissionError e))"
    using eff(3) assms(6) by (auto intro: submit_blocked)
  show ?thesis by (rule conjI [OF p1 conjI [OF p2 p3]])
qed

section \<open>Examples\<close>

definition demo_exchange :: Exchange where
  "demo_exchange = \<lparr>ex_balance = Inr [], ex_get_order = (\<lambda>_ _ _. Inr None), ex_filters = Inr btc_filters,
     ex_capabilities = Inr spot_capabilities, ex_filters_again = Inr btc_filters, ex_capabilities_again = Inr spot_capabilities,
     ex_submit_order = (\<lambda>_. Inl TimeoutError)\<rparr>"

definition demo_args :: SubmitArgs where
  "demo_args = \<lparr>sa_reference_price = 50000, sa_max_deviation_bps = 100, sa_mode = PAPER, sa_instance_id = None,
     sa_fencing_token = None, sa_current_position_qty = None, sa_current_available_base_qty = None, sa_pretrade_limits = None,
     sa_pretrade_context = None, sa_now = Aware 0, sa_leader = None, sa_fence_validate = (\<lambda>_ _ _. False), sa_reservations = None,
     sa_exchange = demo_exchange, sa_col = (\<lambda>x. x), sa_others = []\<rparr>"

definition demo_service :: ExecutionService where
  "demo_service = \<lparr>sv_risk = \<lparr>rm_state = ACTIVE, rm_reason = [], rm_log = []\<rparr>, sv_isolation = Some [], sv_orders = Some [],
     sv_fence = None, sv_records = [], sv_sent = []\<rparr>"

lemma demo_checks:
  assumes "sv_risk s = sv_risk demo_service" "sv_isolation s = Some []"
  shows "submit_checks demo_args limit_buy s = (sv_risk s, Inr ())"
proof -
  have u: "upper ''BUY'' = ''BUY''" by code_simp
  show ?thesis
    using assms by (simp add: submit_checks_def demo_args_def demo_service_def limit_buy_def is_blocked_def allow_new_risk_def
        validate_reduce_only_def u)
qed

lemma demo_prepares: "\<exists>n. oi_intent_id n = ''i1'' \<and> (\<forall>risk. prepare_order demo_args limit_buy risk = (risk, Inr n))"
proof -
  obtain n where n: "normalize_and_validate limit_buy btc_filters spot_capabilities 50000 100 = Inr n"
    using limit_buy_normalizes by (auto simp: is_ok_iff)
  then have "oi_intent_id n = ''i1''" by (auto simp: limit_buy_def elim!: normalize_and_validate_cases)
  then show ?thesis by (auto simp: prepare_order_def demo_args_def demo_exchange_def n)
qed

lemma demo_answers: "sa_col demo_args = (\<lambda>x. x)" "sa_others demo_args = []" "ex_submit_order (sa_exchange demo_args) n = Inl TimeoutError"
  by (simp_all add: demo_args_def demo_exchange_def)

lemma demo_submit: "\<exists>n s' r. submit demo_args limit_buy demo_service = (s', Inr r) \<and> sv_sent s' = sv_sent demo_service @ [n]"
proof -
  obtain n where i: "oi_intent_id n = ''i1''" and p: "prepare_order demo_args limit_buy risk = (risk, Inr n)" for risk
    using demo_prepares by blast
  have c: "submit_checks demo_args limit_buy demo_service = (sv_risk demo_service, Inr ())" by (rule demo_checks) (simp_all add: demo_service_def)
  have id: "oi_intent_id limit_buy = ''i1''" by (simp add: limit_buy_def)
  have srv: "sv_records demo_service = []" "sv_orders demo_service = Some []" "sv_fence demo_service = None" "sv_isolation demo_service = Some []"
      "sv_sent demo_service = []"
    by (simp_all add: demo_service_def)
  have r: "resolve_existing demo_args limit_buy [] demo_service = (demo_service, Inr None)"
    by (simp add: resolve_existing_def reconcile_existing_def ledger_get_def srv Let_def demo_service_def)
  show ?thesis
    by (simp add: submit_def c id srv r submit_new_def p reserve_before_side_effect_def i Let_def demo_answers send_order_def pass_fence_def
        unknown_outcome_def mark_durable_def mark_def to_record_def exchange_id_taken_def new_order_row_def)
qed

text \<open>Without a ledger the new process has no trace of the order and sends it again.\<close>

lemma ledgerless_submit:
  assumes "sv_risk s = sv_risk demo_service" "sv_isolation s = Some []" "sv_orders s = None" "sv_fence s = None" "sv_records s = []"
  shows "\<exists>n. oi_intent_id n = ''i1'' \<and> sv_sent (fst (submit demo_args limit_buy s)) = sv_sent s @ [n] \<and>
    sv_orders (fst (submit demo_args limit_buy s)) = None \<and> sv_fence (fst (submit demo_args limit_buy s)) = None"
proof -
  obtain n where i: "oi_intent_id n = ''i1''" and p: "prepare_order demo_args limit_buy risk = (risk, Inr n)" for risk
    using demo_prepares by blast
  then show ?thesis
    using assms by (intro exI [of _ n])
      (simp add: submit_def demo_checks submit_new_def Let_def demo_answers send_order_def pass_fence_def unknown_outcome_def mark_durable_def)
qed

lemma restart_without_ledger_resends:
  "map oi_intent_id (sv_sent (fold service_step
     [Submit demo_args limit_buy, Restart (sv_risk demo_service) (Some []), Submit demo_args limit_buy] (demo_service\<lparr>sv_orders := None\<rparr>))) =
   [''i1'', ''i1'']"
proof -
  let ?s = "demo_service\<lparr>sv_orders := None\<rparr>"
  let ?t = "service_step (Restart (sv_risk demo_service) (Some [])) (fst (submit demo_args limit_buy ?s))"
  obtain n where n: "oi_intent_id n = ''i1''" "sv_sent (fst (submit demo_args limit_buy ?s)) = sv_sent ?s @ [n]"
      "sv_orders (fst (submit demo_args limit_buy ?s)) = None" "sv_fence (fst (submit demo_args limit_buy ?s)) = None"
    using ledgerless_submit [of ?s] by (auto simp: demo_service_def)
  obtain m where m: "oi_intent_id m = ''i1''" "sv_sent (fst (submit demo_args limit_buy ?t)) = sv_sent ?t @ [m]"
    using ledgerless_submit [of ?t] n by auto
  have "sv_sent ?t = [n]" using n(2) by (simp add: demo_service_def)
  with m n(1) show ?thesis by simp
qed

theorem ambiguous_submit_quarantines_witness:
  "\<exists>s' r e. submit demo_args limit_buy demo_service = (s', Inr r) \<and> or_state r = UNKNOWN \<and>
     submit demo_args (limit_buy\<lparr>oi_intent_id := ''i2''\<rparr>) s' = (s', Inl (PermissionError e))"
proof -
  obtain n s' r where a: "submit demo_args limit_buy demo_service = (s', Inr r)" "sv_sent s' = sv_sent demo_service @ [n]"
    using demo_submit by blast
  have t: "ex_submit_order (sa_exchange demo_args) n \<in> {Inl AmbiguousExecution, Inl TimeoutError}"
    by (simp add: demo_args_def demo_exchange_def)
  from ambiguous_submit_quarantines [OF a t, of "limit_buy\<lparr>oi_intent_id := ''i2''\<rparr>"] a(1) show ?thesis
    by (fastforce simp: limit_buy_def)
qed

theorem sent_order_passed_checks_witness:
  "sv_sent (fst (submit demo_args limit_buy demo_service)) \<noteq> [] \<and> allow_new_risk (sv_risk demo_service)"
proof -
  have "sv_sent (fst (submit demo_args limit_buy demo_service)) \<noteq> sv_sent demo_service" using demo_submit by auto
  from this sent_order_passed_checks [OF this] show ?thesis by (auto simp: demo_service_def limit_buy_def)
qed

theorem submit_at_most_once_witness:
  "distinct (map oi_intent_id (sv_sent (fold service_step
     [Submit demo_args limit_buy, Restart (sv_risk demo_service) (Some []), Submit demo_args limit_buy,
      Submit demo_args (limit_buy\<lparr>oi_intent_id := ''i2''\<rparr>)] demo_service)))"
  by (rule submit_at_most_once) (simp_all add: demo_service_def)

section \<open>A retry after a restart can be taken for a collision\<close>

lemma stored_type_collides:
  assumes "submit_checks args intent s = (sv_risk s, Inr ())" "dget (sv_records s) (oi_intent_id intent) = None"
    and "sv_orders s = Some rows" "dget rows (oi_intent_id intent) = Some row" "ow_order_type row \<noteq> oi_order_type intent"
  shows "snd (submit args intent s) = Inl (ValueError ''intent_id collision with different economic order'')"
proof -
  have "assert_same_intent (to_record (oi_intent_id intent) row) intent = Inl (ValueError ''intent_id collision with different economic order'')"
    using assms(5) by (simp add: assert_same_intent_def to_record_def)
  then show ?thesis
    using assms(1-4) by (simp add: submit_def resolve_existing_def reconcile_existing_def ledger_get_def)
qed

definition lower_case_buy :: OrderIntent where
  "lower_case_buy = limit_buy\<lparr>oi_order_type := ''limit''\<rparr>"

definition filled_args :: SubmitArgs where
  "filled_args = demo_args\<lparr>sa_exchange := demo_exchange\<lparr>ex_submit_order := (\<lambda>n. Inr (new_record n))\<rparr>\<rparr>"

lemma lower_case_normalizes:
  "\<exists>n. normalize_and_validate lower_case_buy btc_filters spot_capabilities 50000 100 = Inr n \<and>
     oi_intent_id n = ''i1'' \<and> oi_order_type n = ''LIMIT''"
proof -
  have u: "upper ''limit'' = ''LIMIT''" by code_simp
  obtain n where n: "normalize_and_validate lower_case_buy btc_filters spot_capabilities 50000 100 = Inr n"
    using limit_order_normalizes [OF u] by (auto simp: is_ok_iff lower_case_buy_def)
  then have "oi_intent_id n = ''i1'' \<and> oi_order_type n = ''LIMIT''"
    by (rule normalize_and_validate_cases) (simp add: u lower_case_buy_def limit_buy_def)
  with n show ?thesis by blast
qed

text \<open>
  The durable ledger stores the normalised order but compares a retry before it is normalised. An order of type \<open>limit\<close>, stored as \<open>LIMIT\<close> and
  accepted by the exchange, cannot be looked up by submitting it again after a restart: the same intent is refused as a
  collision with a different order.
\<close>

theorem retry_after_restart_collides:
  "\<exists>r. snd (submit filled_args lower_case_buy demo_service) = Inr r \<and>
     snd (submit filled_args lower_case_buy (service_step (Restart (sv_risk demo_service) (Some [])) (fst (submit filled_args lower_case_buy demo_service)))) =
       Inl (ValueError ''intent_id collision with different economic order'')"
proof -
  obtain n where n: "normalize_and_validate lower_case_buy btc_filters spot_capabilities 50000 100 = Inr n"
    and i: "oi_intent_id n = ''i1''" "oi_order_type n = ''LIMIT''" using lower_case_normalizes by blast
  have u: "upper ''BUY'' = ''BUY''" by code_simp
  have c: "submit_checks filled_args lower_case_buy s = (sv_risk s, Inr ())"
    if "sv_risk s = sv_risk demo_service" "sv_isolation s = Some []" for s
    using that by (simp add: submit_checks_def filled_args_def demo_args_def demo_service_def lower_case_buy_def limit_buy_def
        is_blocked_def allow_new_risk_def validate_reduce_only_def u)
  have p: "prepare_order filled_args lower_case_buy risk = (risk, Inr n)" for risk
    by (simp add: prepare_order_def filled_args_def demo_args_def demo_exchange_def n)
  have args: "sa_col filled_args = (\<lambda>x. x)" "sa_others filled_args = []" "ex_submit_order (sa_exchange filled_args) n = Inr (new_record n)"
    by (simp_all add: filled_args_def demo_args_def demo_exchange_def)
  have id: "oi_intent_id lower_case_buy = ''i1''" "oi_order_type lower_case_buy = ''limit''" by (simp_all add: lower_case_buy_def limit_buy_def)
  have srv: "sv_records demo_service = []" "sv_orders demo_service = Some []" "sv_fence demo_service = None" "sv_isolation demo_service = Some []"
    by (simp_all add: demo_service_def)
  have r: "resolve_existing filled_args lower_case_buy [] demo_service = (demo_service, Inr None)"
    by (simp add: resolve_existing_def reconcile_existing_def ledger_get_def srv Let_def demo_service_def)
  let ?s = "fst (submit filled_args lower_case_buy demo_service)" let ?t = "service_step (Restart (sv_risk demo_service) (Some [])) ?s"
  have "\<exists>t r row. submit filled_args lower_case_buy demo_service = (t, Inr r) \<and> sv_orders t = Some [(''i1'', row)] \<and>
      sv_risk t = sv_risk demo_service \<and> sv_isolation t = Some [] \<and> ow_order_type row = ''LIMIT''"
    by (simp add: submit_def c id srv r submit_new_def p reserve_before_side_effect_def i Let_def args send_order_def pass_fence_def
        mark_durable_def mark_def to_record_def exchange_id_taken_def new_order_row_def new_record_def)
  then obtain t r row where s: "submit filled_args lower_case_buy demo_service = (t, Inr r)" "sv_orders t = Some [(''i1'', row)]"
      "sv_risk t = sv_risk demo_service" "sv_isolation t = Some []" "ow_order_type row = ''LIMIT''"
    by blast
  have "snd (submit filled_args lower_case_buy ?t) = Inl (ValueError ''intent_id collision with different economic order'')"
    by (rule stored_type_collides [of _ _ _ "[(''i1'', row)]" row]) (simp_all add: s id c)
  with s(1) show ?thesis by simp
qed

end
