(* ===== verification/Allocation.thy ===== *)
theory Allocation
  imports Money "HOL-Library.Product_Lexorder" "HOL-Library.Multiset"
begin

text \<open>
  How capital is divided: the cycle allocator and its coordinator (\<open>backend/app/risk/allocation.py\<close>) and the portfolio optimiser
  (\<open>risk/portfolio_optimizer.py\<close>). The allocator draws from two budgets, notional and stop risk, in rounded arithmetic; the lemma
  about draws says how far the rounding can carry the sum of the draws past the budget. The fields of the allocator's state are finite
  numbers here, so that its test for finiteness has nothing to do; the coordinator's lock makes a call one step.
\<close>

section \<open>The allocator\<close>

record AllocationCandidate =
  ac_symbol :: string
  ac_requested_notional :: rat
  ac_expected_edge_bps :: rat
  ac_stop_risk_fraction :: rat
  ac_volatility_fraction :: rat
  ac_liquidity_score :: rat
  ac_correlation_penalty :: rat
  ac_strategy_health :: rat
  ac_drawdown_multiplier :: rat
  ac_regime_multiplier :: rat
  ac_quote_asset_multiplier :: rat

record AllocationState =
  as_account_equity :: rat
  as_free_cash :: rat
  as_portfolio_heat_fraction :: rat
  as_max_portfolio_heat_fraction :: rat
  as_risk_budget_remaining :: rat
  as_open_order_reserved :: rat
  as_reserve_fraction :: rat
  as_cost_buffer_fraction :: rat
  as_max_cycle_allocation_fraction :: rat
  as_max_single_candidate_fraction :: rat

record AllocationDecision =
  ad_symbol :: string
  ad_allocated_notional :: rat
  ad_expected_stop_loss :: rat
  ad_score :: rat
  ad_reason :: string

definition clamp01 :: "rat \<Rightarrow> rat" where
  "clamp01 value = min 1 (max 0 value)"

definition alloc_score :: "AllocationCandidate \<Rightarrow> rat" where
  "alloc_score c =
     (if ac_expected_edge_bps c \<le> 0 \<or> ac_stop_risk_fraction c \<le> 0 then 0
      else if ac_requested_notional c \<le> 0 then 0
      else
        let liquidity = clamp01 (ac_liquidity_score c);
            correlation = dec (1 - clamp01 (ac_correlation_penalty c));
            health = clamp01 (ac_strategy_health c);
            drawdown = clamp01 (ac_drawdown_multiplier c);
            regime = clamp01 (ac_regime_multiplier c);
            quote = clamp01 (ac_quote_asset_multiplier c);
            volatility_penalty = dec (1 + max 0 (ac_volatility_fraction c))
        in dec (dec (dec (dec (dec (dec (dec (ac_expected_edge_bps c * liquidity) * correlation) * health) * drawdown) * regime) * quote)
             / volatility_penalty))"

definition validate_state :: "AllocationState \<Rightarrow> unit res" where
  "validate_state s =
     (if as_account_equity s \<le> 0 \<or> as_free_cash s < 0 \<or> as_risk_budget_remaining s < 0
      then Inl (ValueError ''invalid account allocation state'')
      else if as_portfolio_heat_fraction s < 0 \<or> as_max_portfolio_heat_fraction s < 0
      then Inl (ValueError ''portfolio heat cannot be negative'')
      else if list_ex (\<lambda>f. f < 0 \<or> f > 1) [as_reserve_fraction s, as_cost_buffer_fraction s,
                as_max_cycle_allocation_fraction s, as_max_single_candidate_fraction s]
      then Inl (ValueError ''allocation fractions must be within [0, 1]'')
      else Inr ())"

fun alloc_loop :: "rat \<Rightarrow> rat \<Rightarrow> rat \<Rightarrow> AllocationCandidate list \<Rightarrow> AllocationDecision list" where
  "alloc_loop single_cap remaining_notional remaining_risk [] = []"
| "alloc_loop single_cap remaining_notional remaining_risk (c # cs) =
     (let score = alloc_score c;
          skip = (\<lambda>reason. \<lparr>ad_symbol = ac_symbol c, ad_allocated_notional = 0, ad_expected_stop_loss = 0, ad_score = score,
                            ad_reason = reason\<rparr> # alloc_loop single_cap remaining_notional remaining_risk cs)
      in if score \<le> 0 then skip ''NO_POSITIVE_ALLOCATABLE_EDGE''
         else if ac_stop_risk_fraction c \<le> 0 then skip ''INVALID_STOP_RISK''
         else if remaining_notional \<le> 0 \<or> remaining_risk \<le> 0 then skip ''CYCLE_OR_RISK_BUDGET_EXHAUSTED''
         else
           let max_by_risk = dec (remaining_risk / ac_stop_risk_fraction c);
               allocation = min (min (min (ac_requested_notional c) single_cap) remaining_notional) max_by_risk
           in if allocation \<le> 0 then skip ''NO_AVAILABLE_CAPITAL''
              else
                let stop_loss = dec (allocation * ac_stop_risk_fraction c)
                in \<lparr>ad_symbol = ac_symbol c, ad_allocated_notional = allocation, ad_expected_stop_loss = stop_loss, ad_score = score,
                    ad_reason = ''ALLOCATED''\<rparr>
                   # alloc_loop single_cap (dec (remaining_notional - allocation)) (dec (remaining_risk - stop_loss)) cs)"

definition notional_budget :: "AllocationState \<Rightarrow> rat" where
  "notional_budget s =
     (let reserve = dec (as_account_equity s * as_reserve_fraction s);
          cost_buffer = dec (as_account_equity s * as_cost_buffer_fraction s);
          liquid_budget = max 0 (dec (dec (dec (as_free_cash s - as_open_order_reserved s) - reserve) - cost_buffer));
          cycle_cap = dec (as_account_equity s * as_max_cycle_allocation_fraction s)
      in min liquid_budget cycle_cap)"

definition risk_budget :: "AllocationState \<Rightarrow> rat" where
  "risk_budget s =
     (let heat_capacity = max 0 (dec (as_account_equity s * dec (as_max_portfolio_heat_fraction s - as_portfolio_heat_fraction s)))
      in min (as_risk_budget_remaining s) heat_capacity)"

definition rank_candidates :: "AllocationCandidate list \<Rightarrow> AllocationCandidate list" where
  "rank_candidates cs = sort_key (\<lambda>c. (- alloc_score c, ac_symbol c)) cs"

definition allocate_cycle :: "AllocationState \<Rightarrow> AllocationCandidate list \<Rightarrow> AllocationDecision list res" where
  "allocate_cycle s cs =
     bind_res (validate_state s) (\<lambda>_.
       Inr (alloc_loop (dec (as_account_equity s * as_max_single_candidate_fraction s)) (notional_budget s) (risk_budget s)
              (rank_candidates cs)))"

section \<open>The coordinator\<close>

record AllocationCoordinator =
  co_cycle_id :: "string option"
  co_allocated_notional :: rat
  co_allocated_risk :: rat

definition begin_cycle :: "string \<Rightarrow> AllocationCoordinator \<Rightarrow> AllocationCoordinator \<times> unit res" where
  "begin_cycle cycle_id co =
     (if cycle_id = [] then (co, Inl (ValueError ''cycle_id required''))
      else if co_cycle_id co \<noteq> Some cycle_id
      then (\<lparr>co_cycle_id = Some cycle_id, co_allocated_notional = 0, co_allocated_risk = 0\<rparr>, Inr ())
      else (co, Inr ()))"

definition adjusted_state :: "AllocationCoordinator \<Rightarrow> AllocationState \<Rightarrow> AllocationState" where
  "adjusted_state co s =
     s\<lparr>as_free_cash := max 0 (dec (as_free_cash s - co_allocated_notional co)),
       as_risk_budget_remaining := max 0 (dec (as_risk_budget_remaining s - co_allocated_risk co))\<rparr>"

definition reconcile_and_allocate ::
  "string \<Rightarrow> AllocationState \<Rightarrow> AllocationCandidate list \<Rightarrow> AllocationCoordinator \<Rightarrow>
   AllocationCoordinator \<times> AllocationDecision list res" where
  "reconcile_and_allocate cycle_id s cs co =
     (case begin_cycle cycle_id co of
        (co1, Inl e) \<Rightarrow> (co1, Inl e)
      | (co1, Inr _) \<Rightarrow>
          (case allocate_cycle (adjusted_state co1 s) cs of
             Inl e \<Rightarrow> (co1, Inl e)
           | Inr ds \<Rightarrow>
               (co1\<lparr>co_allocated_notional := dec (co_allocated_notional co1 + dsum (map ad_allocated_notional ds)),
                    co_allocated_risk := dec (co_allocated_risk co1 + dsum (map ad_expected_stop_loss ds))\<rparr>, Inr ds)))"

definition coordinator_telemetry :: "AllocationCoordinator \<Rightarrow> string option \<times> rat \<times> rat" where
  "coordinator_telemetry co = (co_cycle_id co, co_allocated_notional co, co_allocated_risk co)"

section \<open>The portfolio optimiser\<close>

record OptimizerPolicy =
  op_max_single_asset_weight :: rat
  op_max_gross_weight :: rat
  op_allow_short :: bool
  op_min_expected_edge_bps :: dnum

record OptimizedPortfolio =
  pf_weights :: "(string, rat) dict"
  pf_cash_weight :: rat
  pf_gross_weight :: rat
  pf_blocked :: "string list"

definition policy_validate :: "OptimizerPolicy \<Rightarrow> rat res" where
  "policy_validate p =
     (if \<not> (0 < op_max_single_asset_weight p \<and> op_max_single_asset_weight p \<le> 1)
      then Inl (ValueError ''max_single_asset_weight must be in (0,1]'')
      else if \<not> (0 < op_max_gross_weight p \<and> op_max_gross_weight p \<le> 1)
      then Inl (ValueError ''max_gross_weight must be in (0,1]'')
      else if op_max_single_asset_weight p > op_max_gross_weight p
      then Inl (ValueError ''single-asset cap cannot exceed gross cap'')
      else case op_min_expected_edge_bps p of
        Num m \<Rightarrow> Inr m
      | _ \<Rightarrow> Inl (ValueError ''min_expected_edge_bps must be finite''))"

fun clean_edges :: "bool \<Rightarrow> rat \<Rightarrow> (string, dnum) dict \<Rightarrow> (string, rat) dict \<times> string list" where
  "clean_edges allow_short min_edge [] = ([], [])"
| "clean_edges allow_short min_edge ((symbol, edge) # rest) =
     (case clean_edges allow_short min_edge rest of
        (clean, blocked) \<Rightarrow>
          (case edge of
             Num e \<Rightarrow>
               (if e \<le> min_edge \<and> \<not> allow_short then (clean, (symbol @ '':NON_POSITIVE_EDGE'') # blocked)
                else ((symbol, if allow_short then dec \<bar>e\<bar> else max 0 e) # clean, blocked))
           | _ \<Rightarrow> (clean, (symbol @ '':NON_FINITE_EDGE'') # blocked)))"

definition tentative_weight :: "OptimizerPolicy \<Rightarrow> rat \<Rightarrow> rat \<Rightarrow> rat" where
  "tentative_weight p total_score score = min (op_max_single_asset_weight p) (dec (dec (op_max_gross_weight p * score) / total_score))"

definition scaled_weight :: "OptimizerPolicy \<Rightarrow> rat \<Rightarrow> rat \<Rightarrow> rat" where
  "scaled_weight p gross w = dec (w * dec (op_max_gross_weight p / gross))"

definition constrained_edge_optimizer :: "(string, dnum) dict \<Rightarrow> OptimizerPolicy \<Rightarrow> OptimizedPortfolio res" where
  "constrained_edge_optimizer edges p =
     bind_res (policy_validate p) (\<lambda>min_edge.
       case clean_edges (op_allow_short p) min_edge edges of
         (clean, blocked) \<Rightarrow>
           (let total_score = dsum (map snd clean)
            in if clean = [] \<or> total_score \<le> 0
               then Inr \<lparr>pf_weights = [], pf_cash_weight = 1, pf_gross_weight = 0, pf_blocked = sort blocked\<rparr>
               else
                 let tentative = map (\<lambda>(s, score). (s, tentative_weight p total_score score)) clean;
                     gross = dsum (map snd tentative)
                 in if gross > op_max_gross_weight p
                    then
                      let scaled = map (\<lambda>(s, w). (s, scaled_weight p gross w)) tentative;
                          gross' = dsum (map snd scaled)
                      in Inr \<lparr>pf_weights = scaled, pf_cash_weight = dec (1 - gross'), pf_gross_weight = gross', pf_blocked = sort blocked\<rparr>
                    else Inr \<lparr>pf_weights = tentative, pf_cash_weight = dec (1 - gross), pf_gross_weight = gross, pf_blocked = sort blocked\<rparr>))"

section \<open>Drawing from a budget in rounded arithmetic\<close>

text \<open>\<open>u\<close> is the relative error of one decimal operation. A sequence of draws takes each time at most \<open>1 + d\<close> times what is
  left and rounds the remainder.\<close>

definition dec_ulp :: rat where
  "dec_ulp = 1 / of_int (2 * 10 ^ 27)"

lemma dec_ulp_bounds: "0 < dec_ulp" "dec_ulp \<le> 1"
  by (simp_all add: dec_ulp_def)

lemma dec_error: "\<bar>dec x - x\<bar> \<le> \<bar>x\<bar> * dec_ulp"
  using dec.rnd_error [of x] by (simp add: dec_ulp_def)

lemma dec_upper: "0 \<le> x \<Longrightarrow> dec x \<le> x * (1 + dec_ulp)"
  using dec_error [of x] by (simp add: algebra_simps abs_le_iff)

fun draws :: "rat \<Rightarrow> rat \<Rightarrow> rat list \<Rightarrow> bool" where
  "draws d budget [] = True"
| "draws d budget (x # xs) =
     (if x = 0 then draws d budget xs
      else 0 < x \<and> 0 < budget \<and> x \<le> (1 + d) * budget \<and> draws d (dec (budget - x)) xs)"

lemma draws_exhausted: "draws d budget xs \<Longrightarrow> budget \<le> 0 \<Longrightarrow> sum_list xs = 0"
  by (induction d budget xs rule: draws.induct) (auto split: if_splits)

lemma draws_bound:
  assumes d: "0 \<le> d"
    and "draws d budget xs" "dec budget = budget" "0 \<le> budget" "budget \<le> B"
  shows "sum_list xs \<le> budget + d * B + of_nat (length xs) * (B * dec_ulp)"
  using assms(2-)
proof (induction xs arbitrary: budget)
  case Nil
  then show ?case using d by simp
next
  case (Cons x xs)
  have B: "0 \<le> B * dec_ulp" using Cons.prems dec_ulp_bounds(1) by (intro mult_nonneg_nonneg) auto
  let ?n = "of_nat (length xs) * (B * dec_ulp)"
  have n: "0 \<le> ?n" using B by simp
  show ?case
  proof (cases "x = 0")
    case True
    with Cons.IH [of budget] Cons.prems B show ?thesis by (simp add: algebra_simps)
  next
    case False
    with Cons.prems have x: "0 < x" "0 < budget" "x \<le> (1 + d) * budget" "draws d (dec (budget - x)) xs" by simp_all
    let ?r = "dec (budget - x)"
    have total_score: "sum_list xs \<le> budget - x + d * B + ?n + B * dec_ulp"
    proof (cases "?r \<le> 0")
      case True
      have "d * budget \<le> d * B" using d Cons.prems by (intro mult_left_mono) auto
      with x(3) draws_exhausted [OF x(4) True] n B show ?thesis by (simp add: algebra_simps)
    next
      case pos: False
      then have lt: "x < budget" using dec.R_nonpos_iff [of "budget - x"] by linarith
      have le: "?r \<le> budget" using x(1) Cons.prems by (intro dec.R_le_fix) auto
      have "?r \<le> (budget - x) * (1 + dec_ulp)" using lt by (intro dec_upper) auto
      moreover have "(budget - x) * dec_ulp \<le> B * dec_ulp"
        using x(1) Cons.prems dec_ulp_bounds by (intro mult_right_mono) auto
      ultimately have "?r \<le> budget - x + B * dec_ulp" by (simp add: algebra_simps)
      moreover have "sum_list xs \<le> ?r + d * B + ?n"
        using Cons.IH [OF x(4)] pos le Cons.prems by (simp add: dec.R_idem)
      ultimately show ?thesis by simp
    qed
    then show ?thesis by (simp add: algebra_simps)
  qed
qed

section \<open>Allocations stay within their budgets\<close>

lemma alloc_score_pos: "0 < alloc_score c \<Longrightarrow> 0 < ac_stop_risk_fraction c \<and> 0 < ac_requested_notional c"
  by (auto simp: alloc_score_def split: if_splits)

lemma stop_loss_bound:
  assumes "0 < f" "0 < rr" "a \<le> dec (rr / f)" "0 < a"
  shows "dec (a * f) \<le> (1 + 3 * dec_ulp) * rr"
proof -
  have u: "0 \<le> dec_ulp" "dec_ulp * dec_ulp \<le> dec_ulp"
    using dec_ulp_bounds mult_left_le [of dec_ulp dec_ulp] by simp_all
  have "a \<le> rr / f * (1 + dec_ulp)" using assms dec_upper [of "rr / f"] by (intro order_trans [OF assms(3)]) simp
  then have "a * f \<le> rr * (1 + dec_ulp)" using assms(1) by (simp add: field_simps)
  then have "a * f * (1 + dec_ulp) \<le> rr * (1 + dec_ulp) * (1 + dec_ulp)" using u by (intro mult_right_mono) auto
  moreover have "dec (a * f) \<le> a * f * (1 + dec_ulp)" using assms by (intro dec_upper) simp
  moreover have "rr * (1 + dec_ulp) * (1 + dec_ulp) \<le> (1 + 3 * dec_ulp) * rr"
  proof -
    have "(1 + dec_ulp) * (1 + dec_ulp) \<le> 1 + 3 * dec_ulp" using u by (simp add: algebra_simps)
    then have "rr * ((1 + dec_ulp) * (1 + dec_ulp)) \<le> rr * (1 + 3 * dec_ulp)" using assms(2) by (intro mult_left_mono) auto
    then show ?thesis by (simp add: ac_simps)
  qed
  ultimately show ?thesis by linarith
qed

text \<open>A step of the loop leaves the budgets alone or draws from both.\<close>

lemma alloc_loop_cases:
  obtains (skip) d where "alloc_loop cap rn rr (c # cs) = d # alloc_loop cap rn rr cs"
      "ad_allocated_notional d = 0" "ad_expected_stop_loss d = 0"
  | (draw) d a x where "alloc_loop cap rn rr (c # cs) = d # alloc_loop cap (dec (rn - a)) (dec (rr - x)) cs"
      "ad_allocated_notional d = a" "ad_expected_stop_loss d = x" "0 < rn" "0 < rr" "0 < a" "a \<le> rn" "a \<le> cap"
      "a \<le> ac_requested_notional c" "0 < x" "x \<le> (1 + 3 * dec_ulp) * rr"
proof -
  let ?f = "ac_stop_risk_fraction c"
  let ?a = "min (min (min (ac_requested_notional c) cap) rn) (dec (rr / ?f))"
  show thesis
  proof (cases "alloc_score c \<le> 0 \<or> ?f \<le> 0 \<or> rn \<le> 0 \<or> rr \<le> 0 \<or> ?a \<le> 0")
    case True
    then have "\<exists>r. alloc_loop cap rn rr (c # cs) = \<lparr>ad_symbol = ac_symbol c, ad_allocated_notional = 0, ad_expected_stop_loss = 0,
        ad_score = alloc_score c, ad_reason = r\<rparr> # alloc_loop cap rn rr cs"
      unfolding alloc_loop.simps Let_def
      by auto
    then show thesis by (auto simp del: alloc_loop.simps intro: skip)
  next
    case False
    then have pos: "0 < alloc_score c" "0 < ?f" "0 < rn" "0 < rr" "0 < ?a" by (simp_all only: not_le de_Morgan_disj)
    show thesis
    proof (rule draw)
      show "alloc_loop cap rn rr (c # cs) =
          \<lparr>ad_symbol = ac_symbol c, ad_allocated_notional = ?a, ad_expected_stop_loss = dec (?a * ?f), ad_score = alloc_score c,
           ad_reason = ''ALLOCATED''\<rparr> # alloc_loop cap (dec (rn - ?a)) (dec (rr - dec (?a * ?f))) cs"
        using pos unfolding alloc_loop.simps Let_def by (simp only: not_le [symmetric] if_False simp_thms)
      show "dec (?a * ?f) \<le> (1 + 3 * dec_ulp) * rr"
        using pos by (intro stop_loss_bound) auto
    qed (use pos in auto)
  qed
qed

lemma alloc_loop_draws:
  "draws 0 rn (map ad_allocated_notional (alloc_loop cap rn rr cs)) \<and>
   draws (3 * dec_ulp) rr (map ad_expected_stop_loss (alloc_loop cap rn rr cs)) \<and>
   (\<forall>d \<in> set (alloc_loop cap rn rr cs). 0 \<le> ad_allocated_notional d \<and> (ad_allocated_notional d = 0 \<or> ad_allocated_notional d \<le> cap))"
proof (induction cs arbitrary: rn rr)
  case (Cons c cs)
  show ?case
    by (rule alloc_loop_cases [of cap rn rr c cs]) (use Cons in \<open>auto simp del: alloc_loop.simps\<close>)
qed simp

text \<open>What one candidate is told: nothing, or no more than it asked for and than one candidate may have, with the loss at its stop.\<close>

definition granted :: "rat \<Rightarrow> AllocationCandidate \<Rightarrow> AllocationDecision \<Rightarrow> bool" where
  "granted cap c d \<longleftrightarrow> ad_symbol d = ac_symbol c \<and> ad_score d = alloc_score c \<and>
     (ad_allocated_notional d = 0 \<and> ad_expected_stop_loss d = 0 \<and> ad_reason d \<noteq> ''ALLOCATED'' \<or>
      0 < ad_allocated_notional d \<and> ad_allocated_notional d \<le> ac_requested_notional c \<and> ad_allocated_notional d \<le> cap \<and>
        ad_expected_stop_loss d = dec (ad_allocated_notional d * ac_stop_risk_fraction c) \<and> ad_reason d = ''ALLOCATED'')"

lemma alloc_loop_granted: "list_all2 (granted cap) cs (alloc_loop cap rn rr cs)"
proof (induction cs arbitrary: rn rr)
  case (Cons c cs)
  let ?a = "min (min (min (ac_requested_notional c) cap) rn) (dec (rr / ac_stop_risk_fraction c))"
  have a: "?a \<le> ac_requested_notional c" "?a \<le> cap" by (simp_all add: min_le_iff_disj)
  show ?case
  proof (cases "alloc_score c \<le> 0 \<or> ac_stop_risk_fraction c \<le> 0 \<or> rn \<le> 0 \<or> rr \<le> 0 \<or> ?a \<le> 0")
    case True
    then show ?thesis using Cons unfolding alloc_loop.simps Let_def by (auto simp: granted_def)
  next
    case False
    then have "0 < ?a" "\<not> alloc_score c \<le> 0" "\<not> ac_stop_risk_fraction c \<le> 0" "\<not> rn \<le> 0" "\<not> rr \<le> 0" by (simp_all only: not_le de_Morgan_disj simp_thms)
    then show ?thesis using Cons a unfolding alloc_loop.simps Let_def
      by (simp only: not_le [symmetric] if_False simp_thms list_all2_Cons) (simp add: granted_def)
  qed
qed simp

lemma length_alloc_loop [simp]: "length (alloc_loop cap rn rr cs) = length cs"
proof (induction cs arbitrary: rn rr)
  case (Cons c cs)
  show ?case
    by (rule alloc_loop_cases [of cap rn rr c cs]) (use Cons in \<open>auto simp del: alloc_loop.simps\<close>)
qed simp

lemma min_dec: "dec x = x \<Longrightarrow> dec y = y \<Longrightarrow> dec (min x y) = min x y"
  by (simp add: min_def)

lemma notional_budget_bounds:
  "dec (notional_budget s) = notional_budget s" "0 \<le> as_account_equity s \<Longrightarrow> 0 \<le> as_max_cycle_allocation_fraction s \<Longrightarrow> 0 \<le> notional_budget s"
  by (simp_all add: notional_budget_def Let_def min_def max_def dec.R_idem)

lemma risk_budget_bounds:
  "dec (as_risk_budget_remaining s) = as_risk_budget_remaining s \<Longrightarrow> dec (risk_budget s) = risk_budget s"
  "0 \<le> as_risk_budget_remaining s \<Longrightarrow> 0 \<le> risk_budget s"
  by (simp_all add: risk_budget_def Let_def min_def max_def dec.R_idem)

text \<open>
  C16: an allocation cycle stays within its budgets. Every candidate gets one decision, in the order of the ranking: nothing, or a positive allocation that exceeds neither
  what the candidate asked for nor the cap for one candidate, with its stop loss; the exact sum of all allocations exceeds the notional budget (free cash less reserves, capped per cycle) by at
  most half a unit in the 28th digit of it per candidate, and the stop losses exceed the risk budget by at most that and three units more.
\<close>

theorem allocation_within_budgets:
  assumes "allocate_cycle s cs = Inr ds" "dec (as_risk_budget_remaining s) = as_risk_budget_remaining s"
  shows "mset (rank_candidates cs) = mset cs \<and>
    list_all2 (granted (dec (as_account_equity s * as_max_single_candidate_fraction s))) (rank_candidates cs) ds \<and>
    sum_list (map ad_allocated_notional ds) \<le> notional_budget s * (1 + of_nat (length cs) * dec_ulp) \<and>
    sum_list (map ad_expected_stop_loss ds) \<le> risk_budget s * (1 + of_nat (length cs + 3) * dec_ulp)"
proof -
  let ?cap = "dec (as_account_equity s * as_max_single_candidate_fraction s)"
  have ds: "ds = alloc_loop ?cap (notional_budget s) (risk_budget s) (rank_candidates cs)"
    and ok: "0 < as_account_equity s" "0 \<le> as_risk_budget_remaining s" "0 \<le> as_max_cycle_allocation_fraction s"
    using assms(1) by (auto simp: allocate_cycle_def bind_res_Inr validate_state_def split: if_splits)
  have len: "length ds = length cs" by (simp add: ds rank_candidates_def)
  have perm: "mset (rank_candidates cs) = mset cs" by (simp add: rank_candidates_def)
  note dr = alloc_loop_draws [of "notional_budget s" ?cap "risk_budget s" "rank_candidates cs", folded ds]
  have n: "sum_list (map ad_allocated_notional ds) \<le> notional_budget s * (1 + of_nat (length cs) * dec_ulp)"
    using draws_bound [of 0 "notional_budget s" "map ad_allocated_notional ds" "notional_budget s"] dr notional_budget_bounds [of s] ok len
    by (simp add: algebra_simps)
  have r: "sum_list (map ad_expected_stop_loss ds) \<le> risk_budget s * (1 + of_nat (length cs + 3) * dec_ulp)"
    using draws_bound [of "3 * dec_ulp" "risk_budget s" "map ad_expected_stop_loss ds" "risk_budget s"] dr risk_budget_bounds [of s]
      ok len assms(2) dec_ulp_bounds by (simp add: algebra_simps)
  show ?thesis using perm alloc_loop_granted [of ?cap "rank_candidates cs" "notional_budget s" "risk_budget s", folded ds] n r by blast
qed

definition demo_state :: AllocationState where
  "demo_state = \<lparr>as_account_equity = 1000, as_free_cash = 1000, as_portfolio_heat_fraction = 0, as_max_portfolio_heat_fraction = 1,
     as_risk_budget_remaining = 1000, as_open_order_reserved = 0, as_reserve_fraction = 0, as_cost_buffer_fraction = 0,
     as_max_cycle_allocation_fraction = 1 / 5, as_max_single_candidate_fraction = 1\<rparr>"

definition demo_candidate :: AllocationCandidate where
  "demo_candidate = \<lparr>ac_symbol = ''BTCUSDT'', ac_requested_notional = 1000, ac_expected_edge_bps = 10, ac_stop_risk_fraction = 1,
     ac_volatility_fraction = 0, ac_liquidity_score = 1, ac_correlation_penalty = 0, ac_strategy_health = 1,
     ac_drawdown_multiplier = 1, ac_regime_multiplier = 1, ac_quote_asset_multiplier = 1\<rparr>"

lemma dec_small: "dec 10 = 10" "dec 1 = 1" "dec 200 = 200" "dec 400 = 400" "dec 800 = 800" "dec 1000 = 1000"
  using dec.rnd_of_int [of 10] dec.rnd_of_int [of 1] dec.rnd_of_int [of 200] dec.rnd_of_int [of 400] dec.rnd_of_int [of 800]
    dec.rnd_of_int [of 1000] by simp_all

lemma demo_score: "alloc_score demo_candidate = 10"
  by (simp add: alloc_score_def demo_candidate_def clamp01_def dec_small)

lemma demo_allocate:
  assumes "cash \<in> {800, 1000}" "risk \<in> {800, 1000}"
  shows "allocate_cycle (demo_state\<lparr>as_free_cash := cash, as_risk_budget_remaining := risk\<rparr>) [demo_candidate] =
    Inr [\<lparr>ad_symbol = ''BTCUSDT'', ad_allocated_notional = 200, ad_expected_stop_loss = 200, ad_score = 10, ad_reason = ''ALLOCATED''\<rparr>]"
proof -
  have v: "validate_state (demo_state\<lparr>as_free_cash := cash, as_risk_budget_remaining := risk\<rparr>) = Inr ()"
    using assms by (auto simp: validate_state_def demo_state_def)
  have b: "notional_budget (demo_state\<lparr>as_free_cash := cash, as_risk_budget_remaining := risk\<rparr>) = 200"
      "risk_budget (demo_state\<lparr>as_free_cash := cash, as_risk_budget_remaining := risk\<rparr>) = risk"
    using assms by (auto simp: notional_budget_def risk_budget_def demo_state_def dec_small)
  have c: "rank_candidates [demo_candidate] = [demo_candidate]" by (simp add: rank_candidates_def)
  show ?thesis
    unfolding allocate_cycle_def v b c bind_res_simps
    using assms by (auto simp: demo_score demo_state_def dec_small) (auto simp: demo_candidate_def dec_small)
qed

theorem allocation_within_budgets_witness:
  "\<exists>d. allocate_cycle demo_state [demo_candidate] = Inr [d] \<and> granted 1000 demo_candidate d \<and> ad_allocated_notional d = 200 \<and>
     ad_allocated_notional d \<le> notional_budget demo_state * (1 + of_nat 1 * dec_ulp)"
proof -
  have "demo_state\<lparr>as_free_cash := 1000, as_risk_budget_remaining := 1000\<rparr> = demo_state" by (simp add: demo_state_def)
  with demo_allocate [of 1000 1000] obtain d where a: "allocate_cycle demo_state [demo_candidate] = Inr [d]" "ad_allocated_notional d = 200" by auto
  have "dec (as_risk_budget_remaining demo_state) = as_risk_budget_remaining demo_state" by (simp add: demo_state_def dec_small)
  from allocation_within_budgets [OF a(1) this] a show ?thesis by (auto simp: rank_candidates_def demo_state_def dec_small)
qed

section \<open>The cycle cap is not shared between the calls of a cycle\<close>

text \<open>The coordinator deducts what a cycle has already allocated from the free cash and from the risk budget, but not from the cycle cap. Two
  calls in the same cycle can together allocate twice the share of the equity that one cycle may use.
\<close>

theorem coordinator_exceeds_cycle_cap:
  "\<exists>co1 co2 d1 d2. reconcile_and_allocate ''c1'' demo_state [demo_candidate] \<lparr>co_cycle_id = None, co_allocated_notional = 0, co_allocated_risk = 0\<rparr>
      = (co1, Inr d1) \<and>
     reconcile_and_allocate ''c1'' demo_state [demo_candidate] co1 = (co2, Inr d2) \<and>
     co_allocated_notional co2 = 2 * dec (as_account_equity demo_state * as_max_cycle_allocation_fraction demo_state)"
proof -
  let ?c = "\<lparr>co_cycle_id = Some ''c1'', co_allocated_notional = 0, co_allocated_risk = 0\<rparr>"
  let ?c2 = "\<lparr>co_cycle_id = Some ''c1'', co_allocated_notional = 200, co_allocated_risk = 200\<rparr>"
  have a: "adjusted_state ?c demo_state = demo_state\<lparr>as_free_cash := 1000, as_risk_budget_remaining := 1000\<rparr>"
      "adjusted_state ?c2 demo_state = demo_state\<lparr>as_free_cash := 800, as_risk_budget_remaining := 800\<rparr>"
    by (simp_all add: adjusted_state_def demo_state_def dec_small)
  have d: "dsum [200] = 200" "dec (200 + 200) = 400" by (simp_all add: dsum_def dec_small)
  show ?thesis
    by (simp add: reconcile_and_allocate_def begin_cycle_def a demo_allocate d dec_small) (simp add: demo_state_def dec_small)?
qed

section \<open>The optimiser respects its caps\<close>

lemma clean_edges_nonneg:
  assumes "clean_edges short m es = (clean, blocked)" shows "\<forall>(s, w) \<in> set clean. 0 \<le> w"
  using assms
  by (induction short m es arbitrary: clean blocked rule: clean_edges.induct) (auto split: prod.splits dnum.splits if_splits)

lemma tentative_weight_bounds:
  assumes "policy_validate p = Inr m" "0 < total_score" "0 \<le> score"
  shows "0 \<le> tentative_weight p total_score score" "tentative_weight p total_score score \<le> op_max_single_asset_weight p"
  using assms by (auto simp: tentative_weight_def policy_validate_def split: if_splits)

lemma scaled_weight_bounds:
  assumes "policy_validate p = Inr m" "op_max_gross_weight p < gross" "0 \<le> w" "w \<le> op_max_single_asset_weight p"
    and "dec (op_max_single_asset_weight p) = op_max_single_asset_weight p"
  shows "0 \<le> scaled_weight p gross w" "scaled_weight p gross w \<le> op_max_single_asset_weight p"
proof -
  let ?k = "dec (op_max_gross_weight p / gross)"
  have "0 < op_max_gross_weight p" using assms(1) by (auto simp: policy_validate_def split: if_splits)
  then have k: "0 \<le> ?k" "?k \<le> 1" using assms(2) dec.rnd_of_int [of 1] by (simp, intro dec.R_le_fix) simp_all
  then have "w * ?k \<le> op_max_single_asset_weight p" using assms(3,4) mult_left_le [of ?k w] by linarith
  with assms(3,5) k show "0 \<le> scaled_weight p gross w" "scaled_weight p gross w \<le> op_max_single_asset_weight p"
    by (simp_all add: scaled_weight_def dec.R_le_fix)
qed

lemma optimizer_weights:
  assumes "constrained_edge_optimizer edges p = Inr r" "(s, w) \<in> set (pf_weights r)"
    and "dec (op_max_single_asset_weight p) = op_max_single_asset_weight p"
  shows "0 \<le> w \<and> w \<le> op_max_single_asset_weight p"
proof -
  obtain m where m: "policy_validate p = Inr m" using assms(1) by (auto simp: constrained_edge_optimizer_def bind_res_Inr)
  obtain clean blocked where c: "clean_edges (op_allow_short p) m edges = (clean, blocked)" by fastforce
  let ?t = "dsum (map snd clean)"
  have t: "0 \<le> tentative_weight p ?t x \<and> tentative_weight p ?t x \<le> op_max_single_asset_weight p" if "0 < ?t" "(s, x) \<in> set clean" for s x
    using clean_edges_nonneg [OF c] that tentative_weight_bounds [OF m] by fastforce
  show ?thesis
    using assms(1,2) t scaled_weight_bounds [OF m _ _ _ assms(3)]
    by (auto simp: constrained_edge_optimizer_def m c Let_def not_le split: if_splits)
qed

end
