(* ===== verification/Risk_Limits.thy ===== *)
theory Risk_Limits
  imports Allocation
begin

text \<open>
  The risk checks on numbers: position sizing and portfolio limits (\<open>backend/app/risk/engine.py\<close>), limits per market type
  (\<open>risk/market_type_guard.py\<close>), perpetual contracts (\<open>risk/perpetual.py\<close>), risk budgets and quote assets
  (\<open>risk/advanced_risk.py\<close>), limits per asset class (\<open>risk/normalization.py\<close>), the trailing stop (\<open>risk/position_view.py\<close>) and the
  staged increase of live risk (\<open>risk/live_ramp.py\<close>). Amounts are decimals or floats as in the code.
\<close>

section \<open>Sizing and portfolio limits\<close>

record RiskLimits =
  rl_risk_per_trade :: rat
  rl_max_daily_loss :: rat
  rl_max_weekly_loss :: rat
  rl_max_drawdown :: rat
  rl_max_portfolio_exposure :: rat
  rl_max_single_asset_exposure :: rat
  rl_max_quote_asset_exposure :: rat
  rl_max_volatility_adjusted_exposure :: rat
  rl_max_open_positions :: int
  rl_max_consecutive_losses :: int

record RiskSnapshot =
  rs_equity :: rat
  rs_daily_pnl :: rat
  rs_weekly_pnl :: rat
  rs_drawdown :: rat
  rs_gross_exposure :: rat
  rs_asset_exposure :: rat
  rs_quote_asset_exposure :: rat
  rs_volatility_adjusted_exposure :: rat
  rs_open_positions :: int
  rs_consecutive_losses :: int

definition effective_loss_per_unit :: "dnum \<Rightarrow> dnum \<Rightarrow> rat list \<Rightarrow> rat res" where
  "effective_loss_per_unit entry0 stop0 costs_bps =
     bind_res (decimal entry0) (\<lambda>entry.
     bind_res (decimal stop0) (\<lambda>stop.
       let base = dec \<bar>dec (entry - stop)\<bar>; bps = dsum costs_bps
       in Inr (dec (base + dec (dec (entry * bps) / 10000)))))"

definition default_costs :: "rat list" where
  "default_costs = [10, 10, 5, 5, 15, 0]"

definition size_position :: "dnum \<Rightarrow> dnum \<Rightarrow> dnum \<Rightarrow> dnum \<Rightarrow> dnum \<Rightarrow> rat res" where
  "size_position equity0 entry0 stop0 step0 risk_fraction0 =
     bind_res (decimal equity0) (\<lambda>equity. bind_res (decimal entry0) (\<lambda>entry. bind_res (decimal stop0) (\<lambda>stop.
     bind_res (decimal step0) (\<lambda>step. bind_res (decimal risk_fraction0) (\<lambda>risk_fraction.
     bind_res (effective_loss_per_unit (Num entry) (Num stop) default_costs) (\<lambda>loss.
       if loss \<le> 0 then Inl (ValueError ''invalid loss distance'')
       else normalize_quantity (Num (dec (dec (equity * risk_fraction) / loss))) (Num step)))))))"

definition validate_portfolio :: "RiskSnapshot \<Rightarrow> RiskLimits \<Rightarrow> string list" where
  "validate_portfolio s l =
     (if rs_equity s \<le> 0 then [''INVALID_EQUITY'']
      else
        flag (- rs_daily_pnl s \<ge> dec (rs_equity s * rl_max_daily_loss l)) ''DAILY_LOSS'' @
        flag (- rs_weekly_pnl s \<ge> dec (rs_equity s * rl_max_weekly_loss l)) ''WEEKLY_LOSS'' @
        flag (rs_drawdown s \<ge> rl_max_drawdown l) ''MAX_DRAWDOWN'' @
        flag (rs_gross_exposure s \<ge> dec (rs_equity s * rl_max_portfolio_exposure l)) ''PORTFOLIO_EXPOSURE'' @
        flag (rs_asset_exposure s \<ge> dec (rs_equity s * rl_max_single_asset_exposure l)) ''SINGLE_ASSET_EXPOSURE'' @
        flag (rs_quote_asset_exposure s \<ge> dec (rs_equity s * rl_max_quote_asset_exposure l)) ''QUOTE_ASSET_EXPOSURE'' @
        flag (rs_volatility_adjusted_exposure s \<ge> dec (rs_equity s * rl_max_volatility_adjusted_exposure l))
          ''VOLATILITY_ADJUSTED_EXPOSURE'' @
        flag (rs_open_positions s \<ge> rl_max_open_positions l) ''MAX_POSITIONS'' @
        flag (rs_consecutive_losses s \<ge> rl_max_consecutive_losses l) ''CONSECUTIVE_LOSSES'')"

section \<open>Limits per market type\<close>

record MarketTypeRiskSnapshot =
  mt_market_type :: string
  mt_gross_exposure :: rat
  mt_equity :: rat
  mt_largest_symbol_exposure :: rat
  mt_quote_asset_exposure :: rat
  mt_liquidation_distance_pct :: "rat option"
  mt_maintenance_margin_ratio :: "rat option"
  mt_leverage :: "rat option"

record RiskDecision =
  rd_allowed :: bool
  rd_reasons :: "string list"

definition decide :: "string list \<Rightarrow> RiskDecision" where
  "decide reasons = \<lparr>rd_allowed = (reasons = []), rd_reasons = reasons\<rparr>"

definition derivative_reasons :: "MarketTypeRiskSnapshot \<Rightarrow> rat \<Rightarrow> rat \<Rightarrow> rat \<Rightarrow> string list" where
  "derivative_reasons s min_liquidation max_maintenance max_leverage =
     (let typ = upper (mt_market_type s)
      in if typ = ''SPOT'' then
           flag (mt_liquidation_distance_pct s \<noteq> None \<or> mt_maintenance_margin_ratio s \<noteq> None \<or> mt_leverage s \<noteq> None)
             ''SPOT_DERIVATIVE_SEMANTICS_FORBIDDEN''
         else if typ \<in> {''FUTURES'', ''PERPETUAL'', ''MARGIN''} then
           (case (mt_liquidation_distance_pct s, mt_maintenance_margin_ratio s, mt_leverage s) of
              (Some liq, Some mm, Some lev) \<Rightarrow>
                flag (liq < min_liquidation) ''LIQUIDATION_BUFFER_TOO_LOW'' @
                flag (mm > max_maintenance) ''MAINTENANCE_MARGIN_TOO_HIGH'' @
                flag (lev > max_leverage) ''LEVERAGE_LIMIT''
            | _ \<Rightarrow> [''DERIVATIVE_RISK_FIELDS_REQUIRED''])
         else [''UNSUPPORTED_MARKET_TYPE''])"

definition evaluate_market_type_risk ::
  "MarketTypeRiskSnapshot \<Rightarrow> rat \<Rightarrow> rat \<Rightarrow> rat \<Rightarrow> rat \<Rightarrow> rat \<Rightarrow> rat \<Rightarrow> RiskDecision" where
  "evaluate_market_type_risk s max_gross max_single max_quote min_liquidation max_maintenance max_leverage =
     (if mt_equity s \<le> 0 then \<lparr>rd_allowed = False, rd_reasons = [''NON_POSITIVE_EQUITY'']\<rparr>
      else decide (
        flag (dec (mt_gross_exposure s / mt_equity s) > max_gross) ''GROSS_EXPOSURE_LIMIT'' @
        flag (dec (mt_largest_symbol_exposure s / mt_equity s) > max_single) ''SINGLE_SYMBOL_CONCENTRATION'' @
        flag (dec (mt_quote_asset_exposure s / mt_equity s) > max_quote) ''QUOTE_ASSET_CONCENTRATION'' @
        derivative_reasons s min_liquidation max_maintenance max_leverage))"

section \<open>Perpetual contracts\<close>

record PerpetualRiskSnapshot =
  pp_symbol :: string
  pp_leverage :: rat
  pp_liquidation_distance_pct :: rat
  pp_maintenance_margin_ratio :: rat
  pp_margin_ratio :: rat
  pp_funding_rate :: rat
  pp_funding_timestamp_ms :: int
  pp_expected_funding_cost :: rat
  pp_mark_price :: rat
  pp_index_price :: rat
  pp_open_interest :: rat
  pp_liquidation_spike_ratio :: rat
  pp_reduce_only :: bool
  pp_position_reducing :: bool

record PerpetualRiskLimits =
  pr_max_leverage :: rat
  pr_leverage_per_symbol :: "(string, rat) dict"
  pr_min_liquidation_distance_pct :: rat
  pr_max_maintenance_margin_ratio :: rat
  pr_max_margin_ratio :: rat
  pr_max_abs_funding_rate :: rat
  pr_max_expected_funding_cost :: rat
  pr_max_mark_index_divergence_pct :: rat
  pr_max_open_interest :: rat
  pr_max_liquidation_spike_ratio :: rat
  pr_max_funding_age_ms :: int

definition evaluate_perpetual_risk :: "PerpetualRiskSnapshot \<Rightarrow> PerpetualRiskLimits \<Rightarrow> int \<Rightarrow> RiskDecision" where
  "evaluate_perpetual_risk s l now_ms =
     (let effective_max = min (pr_max_leverage l) (get_or (pr_leverage_per_symbol l) (upper (pp_symbol s)) (pr_max_leverage l))
      in decide (
        flag (pp_leverage s \<le> 0 \<or> pp_leverage s > effective_max) ''LEVERAGE_LIMIT'' @
        flag (pp_liquidation_distance_pct s < pr_min_liquidation_distance_pct l) ''LIQUIDATION_BUFFER_TOO_LOW'' @
        flag (pp_maintenance_margin_ratio s < 0 \<or> pp_maintenance_margin_ratio s > pr_max_maintenance_margin_ratio l)
          ''MAINTENANCE_MARGIN_TOO_HIGH'' @
        flag (pp_margin_ratio s < 0 \<or> pp_margin_ratio s > pr_max_margin_ratio l) ''MARGIN_RATIO_TOO_HIGH'' @
        flag (dec \<bar>pp_funding_rate s\<bar> > pr_max_abs_funding_rate l) ''FUNDING_RATE_LIMIT'' @
        flag (pp_funding_timestamp_ms s \<le> 0 \<or> now_ms - pp_funding_timestamp_ms s > pr_max_funding_age_ms l) ''FUNDING_DATA_STALE'' @
        flag (pp_expected_funding_cost s < 0 \<or> pp_expected_funding_cost s > pr_max_expected_funding_cost l)
          ''EXPECTED_FUNDING_COST_LIMIT'' @
        (if pp_mark_price s \<le> 0 \<or> pp_index_price s \<le> 0 then [''INVALID_MARK_INDEX_PRICE'']
         else flag (dec (dec \<bar>dec (pp_mark_price s - pp_index_price s)\<bar> / pp_index_price s) > pr_max_mark_index_divergence_pct l)
                ''MARK_INDEX_DIVERGENCE'') @
        flag (pp_open_interest s < 0 \<or> pp_open_interest s > pr_max_open_interest l) ''OPEN_INTEREST_LIMIT'' @
        flag (pp_liquidation_spike_ratio s < 0 \<or> pp_liquidation_spike_ratio s > pr_max_liquidation_spike_ratio l) ''LIQUIDATION_SPIKE'' @
        flag (pp_reduce_only s \<and> \<not> pp_position_reducing s) ''REDUCE_ONLY_WOULD_INCREASE_POSITION''))"

section \<open>Risk budgets and quote assets\<close>

record DynamicRiskBudget =
  db_base_fraction :: rat
  db_realized_volatility_ratio :: rat
  db_drawdown_fraction :: rat
  db_liquidity_score :: rat
  db_strategy_health :: rat
  db_recovery_fraction :: rat

definition clampf :: "rat \<Rightarrow> rat" where
  "clampf x = max 0 (min 1 x)"

definition budget_fraction :: "DynamicRiskBudget \<Rightarrow> rat" where
  "budget_fraction b =
     (let base = clampf (db_base_fraction b);
          vol = flt (1 / max 1 (db_realized_volatility_ratio b));
          dd = max 0 (flt (1 - flt (min 1 (db_drawdown_fraction b) * 2)));
          liq = clampf (db_liquidity_score b); health = clampf (db_strategy_health b); recovery = clampf (db_recovery_fraction b)
      in max 0 (min base (flt (flt (flt (flt (flt (base * vol) * dd) * liq) * health) * recovery))))"

definition bounded_fractional_kelly :: "rat \<Rightarrow> rat \<Rightarrow> bool \<Rightarrow> rat \<Rightarrow> rat \<Rightarrow> rat" where
  "bounded_fractional_kelly win_probability payoff_ratio enabled fraction hard_cap =
     (if \<not> enabled then 0
      else if \<not> (0 < win_probability \<and> win_probability < 1) \<or> payoff_ratio \<le> 0 then 0
      else
        let full = flt (flt (flt (payoff_ratio * win_probability) - flt (1 - win_probability)) / payoff_ratio)
        in max 0 (min hard_cap (flt (full * clampf fraction))))"

definition STRESS_SCENARIOS :: "string list" where
  "STRESS_SCENARIOS = [''FLASH_CRASH'', ''SUDDEN_GAP'', ''SPREAD_WIDENING'', ''LIQUIDITY_COLLAPSE'', ''API_LATENCY_SPIKE'',
     ''PRIVATE_STREAM_DISCONNECT'', ''EXCHANGE_PARTIAL_OUTAGE'', ''STABLECOIN_DEPEG'', ''FUNDING_SPIKE'',
     ''MARK_INDEX_DIVERGENCE'', ''LIQUIDATION_CASCADE'', ''DATABASE_REDIS_FAILURE_OPEN_POSITION'']"

definition stress_loss :: "rat \<Rightarrow> (string, rat) dict \<Rightarrow> rat \<Rightarrow> (string, rat) dict" where
  "stress_loss exposure shocks liquidity_multiplier =
     map (\<lambda>(k, v). (k, flt (flt (\<bar>exposure\<bar> * \<bar>flt v\<bar>) * max 1 liquidity_multiplier)))
       (filter (\<lambda>(k, v). k \<in> set STRESS_SCENARIOS) shocks)"

record QuoteAssetState =
  qa_symbol :: string
  qa_parity :: rat
  qa_venue_dislocation_bps :: rat
  qa_custody_concentration :: rat
  qa_idle_balance_concentration :: rat
  qa_withdrawals_enabled :: "bool option"
  qa_deposits_enabled :: "bool option"

definition quote_asset_policy :: "QuoteAssetState \<Rightarrow> rat \<Rightarrow> rat \<Rightarrow> string \<times> string list" where
  "quote_asset_policy s depeg_threshold concentration_cap =
     (let reasons =
        flag (\<bar>flt (qa_parity s - 1)\<bar> > depeg_threshold) ''DEPEG'' @
        flag (qa_venue_dislocation_bps s > 100) ''VENUE_DISLOCATION'' @
        flag (qa_custody_concentration s > concentration_cap) ''CUSTODY_CONCENTRATION'' @
        flag (qa_idle_balance_concentration s > concentration_cap) ''IDLE_BALANCE_CONCENTRATION'' @
        flag (qa_withdrawals_enabled s = Some False \<or> qa_deposits_enabled s = Some False) ''TRANSFER_STATUS_DEGRADED''
      in if reasons \<noteq> [] then (''REDUCE_ONLY'', reasons) else (''ALLOW_NEW_ENTRY'', []))"

section \<open>Limits per asset class\<close>

datatype AssetLiquidityClass =
    CORE_HIGH_LIQUIDITY | LARGE_CAP | MID_LIQUIDITY | NEW_LISTING | HIGH_VOLATILITY | RESTRICTED_NO_TRADE

record NormalizedMarketFeatures =
  mf_atr_percent :: rat
  mf_spread_bps :: rat
  mf_quote_volume_notional :: rat
  mf_depth_notional :: rat
  mf_standardized_return :: rat
  mf_standardized_volatility :: rat

definition features_ok :: "NormalizedMarketFeatures \<Rightarrow> bool" where
  "features_ok f = (\<not> min (min (min (mf_atr_percent f) (mf_spread_bps f)) (mf_quote_volume_notional f)) (mf_depth_notional f) < 0)"

record SafetyLimits =
  sl_max_position_fraction :: rat
  sl_max_order_notional :: rat
  sl_max_spread_bps :: rat
  sl_min_quote_volume_notional :: rat
  sl_min_depth_notional :: rat

definition new_safety_limits :: "rat \<Rightarrow> rat \<Rightarrow> rat \<Rightarrow> rat \<Rightarrow> rat \<Rightarrow> SafetyLimits res" where
  "new_safety_limits a b c d e =
     (if \<not> (0 < a \<and> a \<le> 1) \<or> b \<le> 0 \<or> c < 0 \<or> d < 0 \<or> e < 0 then Inl (ValueError ''invalid safety limits'')
      else Inr \<lparr>sl_max_position_fraction = a, sl_max_order_notional = b, sl_max_spread_bps = c,
                sl_min_quote_volume_notional = d, sl_min_depth_notional = e\<rparr>)"

record ResolvedAssetPolicy =
  ra_asset_class :: AssetLiquidityClass
  ra_limits :: SafetyLimits
  ra_calibrated_parameters :: "(string, rat) dict"
  ra_trade_allowed :: bool

record AssetParameterPolicy =
  ap_global_limits :: SafetyLimits
  ap_class_limits :: "(AssetLiquidityClass, SafetyLimits) dict"
  ap_strategy_asset_parameters :: "(string \<times> string, (string, rat) dict) dict"

definition resolve_policy ::
  "AssetParameterPolicy \<Rightarrow> string \<Rightarrow> string \<Rightarrow> AssetLiquidityClass \<Rightarrow> NormalizedMarketFeatures \<Rightarrow> ResolvedAssetPolicy res" where
  "resolve_policy p strategy_id symbol asset_class f =
     (let params = get_or (ap_strategy_asset_parameters p) (strategy_id, symbol) []; g = ap_global_limits p
      in if asset_class = RESTRICTED_NO_TRADE
         then Inr \<lparr>ra_asset_class = asset_class, ra_limits = g, ra_calibrated_parameters = params, ra_trade_allowed = False\<rparr>
         else case dget (ap_class_limits p) asset_class of
           None \<Rightarrow> Inl (ValueError ''missing asset/liquidity-class limits'')
         | Some c \<Rightarrow>
             bind_res (new_safety_limits (min (sl_max_position_fraction g) (sl_max_position_fraction c))
                         (min (sl_max_order_notional g) (sl_max_order_notional c))
                         (min (sl_max_spread_bps g) (sl_max_spread_bps c))
                         (max (sl_min_quote_volume_notional g) (sl_min_quote_volume_notional c))
                         (max (sl_min_depth_notional g) (sl_min_depth_notional c)))
               (\<lambda>l. Inr \<lparr>ra_asset_class = asset_class, ra_limits = l, ra_calibrated_parameters = params,
                        ra_trade_allowed = (mf_spread_bps f \<le> sl_max_spread_bps l \<and>
                          mf_quote_volume_notional f \<ge> sl_min_quote_volume_notional l \<and> mf_depth_notional f \<ge> sl_min_depth_notional l)\<rparr>))"

section \<open>Open positions\<close>

record PositionHealth =
  ph_unrealized_pnl :: rat
  ph_current_r :: rat
  ph_distance_to_sl :: rat
  ph_distance_to_tp :: "rat list"
  ph_at_or_below_stop :: bool

definition position_health :: "rat \<Rightarrow> rat \<Rightarrow> rat \<Rightarrow> rat list \<Rightarrow> rat \<Rightarrow> rat \<Rightarrow> PositionHealth res" where
  "position_health entry price stop take_profits quantity fees =
     (if \<not> (entry > 0 \<and> price > 0 \<and> stop > 0 \<and> quantity \<ge> 0) \<or> stop \<ge> entry then Inl (ValueError ''invalid position inputs'')
      else
        let risk = flt (entry - stop)
        in Inr \<lparr>ph_unrealized_pnl = flt (flt (flt (price - entry) * quantity) - fees), ph_current_r = flt (flt (price - entry) / risk),
                ph_distance_to_sl = flt (flt (price - stop) / price),
                ph_distance_to_tp = map (\<lambda>tp. flt (flt (tp - price) / price)) take_profits, ph_at_or_below_stop = (price \<le> stop)\<rparr>)"

record PositionActions =
  pa_volatility_ratio :: rat
  pa_trend_changed :: bool
  pa_trailing_stop :: rat
  pa_partial_tp_due :: bool
  pa_next_take_profit :: "rat option"
  pa_reduce_only_recommended :: bool

definition position_management_actions ::
  "rat \<Rightarrow> rat \<Rightarrow> rat \<Rightarrow> rat \<Rightarrow> rat list \<Rightarrow> int \<Rightarrow> rat \<Rightarrow> bool \<Rightarrow> PositionActions res" where
  "position_management_actions entry price stop atr take_profits filled volatility_ratio trend_changed =
     (if entry \<le> 0 \<or> price \<le> 0 \<or> stop \<le> 0 \<or> atr \<le> 0 \<or> stop \<ge> entry then Inl (ValueError ''invalid position management inputs'')
      else if filled < 0 \<or> filled > int (length take_profits) then Inl (ValueError ''invalid partial TP state'')
      else
        let risk = flt (entry - stop); current_r = flt (flt (price - entry) / risk);
            trail_multiple = max 1 (flt (2 / max volatility_ratio 1));
            candidate = max stop (flt (price - flt (atr * trail_multiple)));
            trailing = (if current_r \<ge> 1 then max candidate entry else candidate);
            next_tp = (if filled < int (length take_profits) then Some (take_profits ! nat filled) else None)
        in Inr \<lparr>pa_volatility_ratio = volatility_ratio, pa_trend_changed = trend_changed, pa_trailing_stop = trailing,
                pa_partial_tp_due = (case next_tp of None \<Rightarrow> False | Some tp \<Rightarrow> price \<ge> tp), pa_next_take_profit = next_tp,
                pa_reduce_only_recommended = trend_changed\<rparr>)"

section \<open>The ramp of live risk\<close>

definition STAGES :: "string list" where
  "STAGES = [''LIVE_STAGE_0'', ''LIVE_STAGE_1'', ''LIVE_STAGE_2'', ''LIVE_STAGE_3'']"

record LiveRampEvidence =
  le_reconciliation_pass :: bool
  le_unresolved_critical_incidents :: int
  le_protective_order_success_rate :: rat
  le_live_slippage_bps :: rat
  le_live_shadow_divergence_bps :: rat
  le_net_expectancy :: rat
  le_expectancy_lower_confidence_bound :: rat
  le_drawdown :: rat
  le_effective_sample_size :: rat
  le_market_conditions_observed :: int
  le_strategy_degraded :: bool

record LiveRampPolicy =
  lp_min_protective_success_rate :: rat
  lp_max_live_slippage_bps :: rat
  lp_max_live_shadow_divergence_bps :: rat
  lp_max_drawdown :: rat
  lp_min_effective_sample_size :: rat
  lp_min_market_conditions :: int
  lp_require_non_negative_expectancy_lcb :: bool
  lp_stage_multipliers :: "(string, rat) dict"

definition policy_error :: "LiveRampPolicy \<Rightarrow> pyerr option" where
  "policy_error p =
     (let values = map snd (lp_stage_multipliers p)
      in if map fst (lp_stage_multipliers p) \<noteq> STAGES
         then Some (ValueError ''stage multipliers must define LIVE_STAGE_0..3 in order'')
         else if list_ex (\<lambda>v. v \<le> 0 \<or> v > 1) values then Some (ValueError ''stage multipliers must be in (0,1]'')
         else if sort values \<noteq> values then Some (ValueError ''stage multipliers must be monotonic'')
         else None)"

definition ramp_blockers :: "LiveRampPolicy \<Rightarrow> LiveRampEvidence \<Rightarrow> string list" where
  "ramp_blockers p e =
     flag (\<not> le_reconciliation_pass e) ''RECONCILIATION_NOT_PASS'' @
     flag (le_unresolved_critical_incidents e \<noteq> 0) ''CRITICAL_INCIDENTS_UNRESOLVED'' @
     flag (le_protective_order_success_rate e < lp_min_protective_success_rate p) ''PROTECTIVE_ORDER_SUCCESS_TOO_LOW'' @
     flag (le_live_slippage_bps e > lp_max_live_slippage_bps p) ''LIVE_SLIPPAGE_TOO_HIGH'' @
     flag (le_live_shadow_divergence_bps e > lp_max_live_shadow_divergence_bps p) ''LIVE_SHADOW_DIVERGENCE_TOO_HIGH'' @
     flag ((if lp_require_non_negative_expectancy_lcb p then le_expectancy_lower_confidence_bound e else le_net_expectancy e) < 0)
       ''NET_EXPECTANCY_UNACCEPTABLE'' @
     flag (le_drawdown e > lp_max_drawdown p) ''DRAWDOWN_TOO_HIGH'' @
     flag (le_effective_sample_size e < lp_min_effective_sample_size p) ''EFFECTIVE_SAMPLE_TOO_SMALL'' @
     flag (le_market_conditions_observed e < lp_min_market_conditions p) ''INSUFFICIENT_MARKET_CONDITIONS'' @
     flag (le_strategy_degraded e) ''STRATEGY_DEGRADED''"

definition ramp_eligible :: "LiveRampPolicy \<Rightarrow> LiveRampEvidence \<Rightarrow> bool" where
  "ramp_eligible p e = (ramp_blockers p e = [])"

record LiveRamp =
  lr_stage :: string
  lr_policy :: LiveRampPolicy

text \<open>The evidence is a record, or a dictionary of flags from older callers.\<close>

datatype ramp_evidence = Evidence LiveRampEvidence | Flags "(string, bool) dict"

definition required_flags :: "string list" where
  "required_flags = [''reconciliation'', ''critical_incidents_clear'', ''protective_success'', ''slippage_bound'',
     ''shadow_divergence_bound'', ''expectancy_acceptable'', ''drawdown_bound'', ''effective_sample'',
     ''multiple_conditions'', ''strategy_healthy'']"

fun stage_index :: "string list \<Rightarrow> string \<Rightarrow> nat option" where
  "stage_index [] s = None"
| "stage_index (x # xs) s = (if x = s then Some 0 else map_option Suc (stage_index xs s))"

definition evidence_error :: "LiveRampPolicy \<Rightarrow> ramp_evidence \<Rightarrow> pyerr option" where
  "evidence_error p ev =
     (case ev of
        Flags d \<Rightarrow> if \<not> list_all (\<lambda>k. get_or d k False) required_flags
                   then Some (PermissionError ''live ramp evidence incomplete'') else None
      | Evidence e \<Rightarrow> if ramp_blockers p e \<noteq> []
                   then Some (PermissionError (''live ramp evidence incomplete: '' @ join '','' (ramp_blockers p e))) else None)"

definition ramp_increase :: "ramp_evidence \<Rightarrow> bool \<Rightarrow> LiveRamp \<Rightarrow> LiveRamp \<times> string res" where
  "ramp_increase ev human_approved r =
     (case evidence_error (lr_policy r) ev of
        Some e \<Rightarrow> (r, Inl e)
      | None \<Rightarrow>
          (if \<not> human_approved then (r, Inl (PermissionError ''automatic live risk increase disabled''))
           else case stage_index STAGES (lr_stage r) of
             None \<Rightarrow> (r, Inl (ValueError ''tuple.index(x): x not in tuple''))
           | Some i \<Rightarrow>
               (let s = (if i < length STAGES - 1 then STAGES ! (i + 1) else lr_stage r)
                in (r\<lparr>lr_stage := s\<rparr>, Inr s))))"

definition ramp_decrease :: "LiveRamp \<Rightarrow> LiveRamp \<times> string res" where
  "ramp_decrease r =
     (case stage_index STAGES (lr_stage r) of
        None \<Rightarrow> (r, Inl (ValueError ''tuple.index(x): x not in tuple''))
      | Some i \<Rightarrow> (let s = STAGES ! (i - 1) in (r\<lparr>lr_stage := s\<rparr>, Inr s)))"

definition risk_multiplier :: "LiveRamp \<Rightarrow> rat res" where
  "risk_multiplier r =
     (case dget (lp_stage_multipliers (lr_policy r)) (lr_stage r) of None \<Rightarrow> Inl (KeyError (lr_stage r)) | Some m \<Rightarrow> Inr m)"

section \<open>A sized position risks what it should\<close>

lemma quantize_down_le:
  assumes "quantize_step (Num x) (Num s) ''down'' = Inr q" "0 \<le> x"
  shows "0 < s" "0 \<le> q" "q \<le> x * (1 + dec_ulp) * (1 + dec_ulp)"
proof -
  let ?n = "round_down (dec (x / s))"
  show s: "0 < s" using assms(1) by (auto simp: quantize_step_def split: if_splits)
  have q: "q = dec (of_int ?n * s)" using assms(1) s by (auto simp: quantize_step_def Let_def split: if_splits)
  have n: "0 \<le> ?n" "of_int ?n \<le> dec (x / s)" using assms(2) s by (auto simp: round_down_def)
  show "0 \<le> q" using n s by (simp add: q)
  have "of_int ?n * s \<le> dec (x / s) * s" using n s by (intro mult_right_mono) auto
  also have "\<dots> \<le> x / s * (1 + dec_ulp) * s" using assms(2) s by (intro mult_right_mono dec_upper) auto
  finally have "of_int ?n * s \<le> x * (1 + dec_ulp)" using s by simp
  then have "of_int ?n * s * (1 + dec_ulp) \<le> x * (1 + dec_ulp) * (1 + dec_ulp)"
    using dec_ulp_bounds by (intro mult_right_mono) auto
  moreover have "q \<le> of_int ?n * s * (1 + dec_ulp)" unfolding q using n s by (intro dec_upper) simp
  ultimately show "q \<le> x * (1 + dec_ulp) * (1 + dec_ulp)" by linarith
qed

lemma dec_lower: "0 \<le> x \<Longrightarrow> x * (1 - dec_ulp) \<le> dec x"
  using dec_error [of x] by (simp add: algebra_simps abs_le_iff)

text \<open>The loss of one unit at its stop in exact arithmetic: the distance to the stop, and 45 basis points of the entry price for the two fees of 10, the spread of 5
  and the slippage of 5 at the entry and 15 at the stop.\<close>

definition exact_loss :: "rat \<Rightarrow> rat \<Rightarrow> rat" where
  "exact_loss entry stop = \<bar>entry - stop\<bar> + entry * (10 + 10 + 5 + 5 + 15) / 10000"

lemma default_costs_sum: "dsum default_costs = 45"
  using dec.rnd_of_int [of 10] dec.rnd_of_int [of 20] dec.rnd_of_int [of 25] dec.rnd_of_int [of 30] dec.rnd_of_int [of 45]
  by (simp add: default_costs_def dsum_def)

lemma effective_loss_lower:
  assumes "effective_loss_per_unit (Num entry) (Num stop) default_costs = Inr loss" "0 \<le> entry"
  shows "exact_loss entry stop * (1 - dec_ulp) ^ 3 \<le> loss"
proof -
  let ?v = "1 - dec_ulp"
  have v: "0 \<le> ?v" "?v \<le> 1" using dec_ulp_bounds by simp_all
  let ?c = "dec (dec (entry * 45) / 10000)"
  have loss: "loss = dec (\<bar>dec (entry - stop)\<bar> + ?c)"
    using assms(1) by (simp add: effective_loss_per_unit_def default_costs_sum Let_def dec.R_abs dec.R_idem)
  have "\<bar>entry - stop\<bar> * ?v \<le> \<bar>dec (entry - stop)\<bar>" using dec_lower [of "\<bar>entry - stop\<bar>"] by (simp add: dec.R_abs)
  moreover have "\<bar>entry - stop\<bar> * ?v * ?v \<le> \<bar>entry - stop\<bar> * ?v" using v by (intro mult_left_le) auto
  ultimately have base: "\<bar>entry - stop\<bar> * ?v * ?v \<le> \<bar>dec (entry - stop)\<bar>" by linarith
  have "entry * 45 * ?v \<le> dec (entry * 45)" using assms(2) by (intro dec_lower) simp
  then have "entry * 45 * ?v / 10000 * ?v \<le> dec (entry * 45) / 10000 * ?v" using v by (intro mult_right_mono divide_right_mono) auto
  also have "\<dots> \<le> ?c" using assms(2) by (intro dec_lower) simp
  finally have cost: "entry * 45 * ?v / 10000 * ?v \<le> ?c" .
  have "exact_loss entry stop * ?v * ?v = \<bar>entry - stop\<bar> * ?v * ?v + entry * 45 * ?v / 10000 * ?v" by (simp add: exact_loss_def field_simps)
  also have "\<dots> \<le> \<bar>dec (entry - stop)\<bar> + ?c" using base cost by linarith
  finally have "exact_loss entry stop * ?v * ?v * ?v \<le> (\<bar>dec (entry - stop)\<bar> + ?c) * ?v" using v by (intro mult_right_mono) auto
  also have "\<dots> \<le> loss" unfolding loss using assms(2) by (intro dec_lower) simp
  finally show ?thesis by (simp add: power3_eq_cube ac_simps)
qed

lemma ulp_power: "(1 + dec_ulp) ^ 4 \<le> (1 + 8 * dec_ulp) * (1 - dec_ulp) ^ 3"
  by (simp add: dec_ulp_def power_def)

text \<open>
  C15: what a position sized by \<open>size_position\<close> loses at its stop, counted exactly with the distance to the stop, two fees of 10 basis points, a spread of 5 and slippage of 5 and 15 basis points of
  the entry price, is the intended fraction of the equity, up to a relative rounding error of eight half units in the 28th digit; and the quantity is not negative. Equity, entry price and
  risk fraction are not negative.
\<close>

theorem size_position_bounds_loss:
  assumes "size_position (Num equity) (Num entry) (Num stop) (Num step) (Num risk_fraction) = Inr q"
    and "0 \<le> equity" "0 \<le> entry" "0 \<le> risk_fraction"
  shows "0 \<le> q \<and> q * exact_loss entry stop \<le> equity * risk_fraction * (1 + 8 * dec_ulp)"
proof -
  obtain loss where loss: "effective_loss_per_unit (Num entry) (Num stop) default_costs = Inr loss" by (simp add: effective_loss_per_unit_def Let_def)
  let ?x = "dec (dec (equity * risk_fraction) / loss)" let ?u = "1 + dec_ulp" let ?v = "1 - dec_ulp"
  have l: "0 < loss" and q: "quantize_step (Num ?x) (Num step) ''down'' = Inr q"
    using assms(1) loss by (auto simp: size_position_def normalize_quantity_def split: if_splits)
  have er: "0 \<le> equity * risk_fraction" and u: "0 \<le> ?u" and v: "0 < ?v ^ 3" using assms(2,4) by (auto simp: dec_ulp_def)
  have x: "0 \<le> ?x" using er l by simp
  note qb = quantize_down_le [OF q x]
  have "?x \<le> dec (equity * risk_fraction) / loss * ?u" using er l by (intro dec_upper) simp
  also have "\<dots> \<le> equity * risk_fraction * ?u / loss * ?u" using er l u by (intro mult_right_mono divide_right_mono dec_upper) auto
  finally have "?x * loss \<le> equity * risk_fraction * ?u * ?u" using l by (simp add: field_simps)
  then have "?x * loss * (?u * ?u) \<le> equity * risk_fraction * ?u * ?u * (?u * ?u)" using u by (intro mult_right_mono) auto
  moreover have "q * loss \<le> ?x * ?u * ?u * loss" using qb(3) l by (intro mult_right_mono) auto
  moreover have "equity * risk_fraction * ?u * ?u * (?u * ?u) \<le> equity * risk_fraction * ((1 + 8 * dec_ulp) * ?v ^ 3)"
    using mult_left_mono [OF ulp_power er] by (simp add: power4_eq_xxxx ac_simps)
  ultimately have "q * loss \<le> equity * risk_fraction * ((1 + 8 * dec_ulp) * ?v ^ 3)" by (simp add: ac_simps)
  moreover have "q * (exact_loss entry stop * ?v ^ 3) \<le> q * loss" using effective_loss_lower [OF loss assms(3)] qb(2) by (rule mult_left_mono)
  ultimately have "q * exact_loss entry stop * ?v ^ 3 \<le> equity * risk_fraction * (1 + 8 * dec_ulp) * ?v ^ 3" by (simp add: ac_simps)
  then show ?thesis using v qb(2) by (simp only: mult_le_cancel_right_pos simp_thms)
qed

section \<open>The trailing stop\<close>

text \<open>The trailing stop never loosens protection: it is never below the current stop; once the position is one risk unit in
  profit it is never below the entry price; and it never lies above the market by more than those two levels require.
\<close>

theorem trailing_stop_never_loosens:
  assumes "position_management_actions entry price stop atr tps filled vol trend = Inr a"
  shows "stop \<le> pa_trailing_stop a \<and>
    (flt (flt (price - entry) / flt (entry - stop)) \<ge> 1 \<longrightarrow> entry \<le> pa_trailing_stop a) \<and>
    (flt price = price \<longrightarrow> pa_trailing_stop a \<le> max (max stop entry) price)"
proof -
  let ?c = "flt (price - flt (atr * max 1 (flt (2 / max vol 1))))"
  have a: "pa_trailing_stop a = (if flt (flt (price - entry) / flt (entry - stop)) \<ge> 1 then max (max stop ?c) entry else max stop ?c)"
    and pos: "0 < atr" "stop < entry"
    using assms unfolding position_management_actions_def Let_def
    by (simp_all only: if_split_asm sum.distinct sum.inject simp_thms split: if_split_asm)
      (auto simp only: PositionActions.simps not_le not_less)
  have "?c \<le> price" if "flt price = price" using that pos by (intro flt.R_le_fix) auto
  then show ?thesis using pos by (auto simp: a)
qed

section \<open>Resolved limits are the stricter ones\<close>

lemma resolve_policy_strict:
  assumes "resolve_policy p s y c f = Inr r" "c \<noteq> RESTRICTED_NO_TRADE" "dget (ap_class_limits p) c = Some l"
  shows "sl_max_order_notional (ra_limits r) \<le> sl_max_order_notional l"
    and "sl_max_order_notional (ra_limits r) \<le> sl_max_order_notional (ap_global_limits p)"
    and "ra_trade_allowed r \<Longrightarrow> mf_spread_bps f \<le> sl_max_spread_bps l \<and> mf_spread_bps f \<le> sl_max_spread_bps (ap_global_limits p)"
  using assms by (auto simp: resolve_policy_def new_safety_limits_def Let_def split: if_splits)

lemma resolve_policy_restricted: "resolve_policy p s y RESTRICTED_NO_TRADE f = Inr r \<Longrightarrow> \<not> ra_trade_allowed r"
  by (auto simp: resolve_policy_def Let_def)

lemma decide_allowed [simp]: "rd_allowed (decide rs) \<longleftrightarrow> rs = []"
  by (simp add: decide_def)

lemma perpetual_allowed:
  assumes "rd_allowed (evaluate_perpetual_risk s l now)"
  shows "0 < pp_leverage s" "pp_leverage s \<le> pr_max_leverage l"
    and "dget (pr_leverage_per_symbol l) (upper (pp_symbol s)) = Some m \<Longrightarrow> pp_leverage s \<le> m"
    and "pp_reduce_only s \<Longrightarrow> pp_position_reducing s"
  using assms by (auto simp: evaluate_perpetual_risk_def Let_def get_or_def not_le not_less)

lemma budget_fraction_bounds: "0 \<le> budget_fraction b \<and> budget_fraction b \<le> clampf (db_base_fraction b)"
proof -
  have *: "0 \<le> max 0 (min b y) \<and> max 0 (min b y) \<le> b" if "0 \<le> b" for b y :: rat using that by simp
  show ?thesis unfolding budget_fraction_def Let_def by (rule *) (simp add: clampf_def)
qed

section \<open>Live risk rises only with approval\<close>

definition ramp_level :: "LiveRamp \<Rightarrow> nat" where
  "ramp_level r = (case stage_index STAGES (lr_stage r) of None \<Rightarrow> 0 | Some i \<Rightarrow> i)"

datatype ramp_op = Increase ramp_evidence bool | Decrease

fun ramp_step :: "ramp_op \<Rightarrow> LiveRamp \<Rightarrow> LiveRamp" where
  "ramp_step (Increase ev ok) r = fst (ramp_increase ev ok r)"
| "ramp_step Decrease r = fst (ramp_decrease r)"

fun ramp_approved :: "LiveRampPolicy \<Rightarrow> ramp_op \<Rightarrow> bool" where
  "ramp_approved p (Increase ev ok) = (ok \<and> evidence_error p ev = None)"
| "ramp_approved p Decrease = False"

lemma stage_index_nth: "distinct xs \<Longrightarrow> i < length xs \<Longrightarrow> stage_index xs (xs ! i) = Some i"
  by (induction xs arbitrary: i) (auto simp: nth_Cons split: nat.split)

lemma stage_index_lt: "stage_index xs s = Some i \<Longrightarrow> i < length xs"
  by (induction xs arbitrary: i) (auto split: if_splits)

lemma distinct_STAGES: "distinct STAGES" by (simp add: STAGES_def)

lemma ramp_policy [simp]: "lr_policy (ramp_step op r) = lr_policy r"
  by (cases op) (auto simp: ramp_increase_def ramp_decrease_def Let_def split: option.split)

lemma ramp_level_step:
  "ramp_level (ramp_step op r) \<le> (if ramp_approved (lr_policy r) op then ramp_level r + 1 else ramp_level r)"
proof (cases op)
  case (Increase ev ok)
  show ?thesis
  proof (cases "stage_index STAGES (lr_stage r)")
    case None
    then show ?thesis by (auto simp: Increase ramp_increase_def ramp_level_def split: option.split)
  next
    case (Some i)
    then have "stage_index STAGES (STAGES ! (i + 1)) = Some (i + 1)" if "i < length STAGES - 1"
      using that by (intro stage_index_nth distinct_STAGES) simp
    with Some show ?thesis by (auto simp: Increase ramp_increase_def ramp_level_def Let_def split: option.split)
  qed
next
  case Decrease
  show ?thesis
  proof (cases "stage_index STAGES (lr_stage r)")
    case (Some i)
    then have "stage_index STAGES (STAGES ! (i - 1)) = Some (i - 1)"
      using stage_index_lt [OF Some] by (intro stage_index_nth distinct_STAGES) simp
    with Some show ?thesis by (simp add: Decrease ramp_decrease_def ramp_level_def Let_def)
  qed (simp add: Decrease ramp_decrease_def ramp_level_def)
qed

interpretation ramp: gated ramp_step "\<lambda>r. lr_policy r = p \<and> ramp_level r \<le> n" "ramp_approved p" for p n
proof unfold_locales
  fix r op assume "lr_policy r = p \<and> ramp_level r \<le> n" "\<not> ramp_approved p op"
  then show "lr_policy (ramp_step op r) = p \<and> ramp_level (ramp_step op r) \<le> n" using ramp_level_step [of op r] by auto
qed

text \<open>The stage of live risk rises only by approval. If after any sequence of increases and decreases the stage is above what it was, some
  operation of the sequence was an increase with human approval and complete evidence, taken when the stage was not yet above;
  and no operation raises the stage by more than one.
\<close>

theorem live_ramp_needs_approval:
  assumes "ramp_level r < ramp_level (fold ramp_step ops r)"
  shows "(\<exists>pre op post. ops = pre @ op # post \<and> ramp_approved (lr_policy r) op \<and> ramp_level (fold ramp_step pre r) \<le> ramp_level r) \<and>
    (\<forall>op s. ramp_level (ramp_step op s) \<le> ramp_level s + 1)"
proof -
  have "\<exists>pre op post. ops = pre @ op # post \<and> ramp_approved (lr_policy r) op \<and>
      (lr_policy (fold ramp_step pre r) = lr_policy r \<and> ramp_level (fold ramp_step pre r) \<le> ramp_level r)"
    using assms by (intro ramp.unblocked_by_approved) auto
  moreover have "ramp_level (ramp_step op s) \<le> ramp_level s + 1" for op s using ramp_level_step [of op s] by (auto split: if_splits)
  ultimately show ?thesis by blast
qed

section \<open>Examples\<close>

theorem size_position_bounds_loss_witness:
  "\<exists>q. size_position (Num 1000) (Num 100) (Num 90) (Num 1) (Num (1 / 10)) = Inr q \<and> q * (10 + 100 * 45 / 10000) \<le> 1000 * (1 / 10) * (1 + 8 * dec_ulp)"
proof -
  have "0 < dec (dec \<bar>dec (100 - 90)\<bar> + dec (dec (100 * dsum default_costs) / 10000))" by (simp add: default_costs_sum add_pos_nonneg)
  then obtain q where q: "size_position (Num 1000) (Num 100) (Num 90) (Num 1) (Num (1 / 10)) = Inr q"
    by (auto simp: size_position_def effective_loss_per_unit_def normalize_quantity_def quantize_step_def Let_def)
  from size_position_bounds_loss [OF q] q show ?thesis by (auto simp: exact_loss_def)
qed

theorem trailing_stop_never_loosens_witness:
  "\<exists>a. position_management_actions 100 110 90 2 [120] 0 1 False = Inr a \<and> 90 \<le> pa_trailing_stop a"
proof -
  obtain a where a: "position_management_actions 100 110 90 2 [120] 0 1 False = Inr a"
    by (simp add: position_management_actions_def Let_def)
  from trailing_stop_never_loosens [OF a] a show ?thesis by blast
qed

definition demo_ramp :: LiveRamp where
  "demo_ramp = \<lparr>lr_stage = ''LIVE_STAGE_0'', lr_policy = \<lparr>lp_min_protective_success_rate = 1, lp_max_live_slippage_bps = 25,
     lp_max_live_shadow_divergence_bps = 35, lp_max_drawdown = 1 / 10, lp_min_effective_sample_size = 30, lp_min_market_conditions = 2,
     lp_require_non_negative_expectancy_lcb = True, lp_stage_multipliers = zip STAGES [1 / 10, 1 / 4, 1 / 2, 1]\<rparr>\<rparr>"

definition all_flags :: ramp_evidence where
  "all_flags = Flags (map (\<lambda>k. (k, True)) required_flags)"

lemma all_flags_ok: "evidence_error p all_flags = None"
proof -
  have "get_or (map (\<lambda>k. (k, True)) ks) k False" if "k \<in> set ks" for k ks
    using that by (induction ks) (auto simp: get_or_def)
  then show ?thesis by (auto simp: evidence_error_def all_flags_def list_all_iff)
qed

theorem live_ramp_needs_approval_witness:
  "\<exists>pre op post. [Decrease, Increase all_flags True] = pre @ op # post \<and> ramp_approved (lr_policy demo_ramp) op \<and>
     ramp_level (fold ramp_step pre demo_ramp) \<le> ramp_level demo_ramp"
proof -
  have "ramp_level demo_ramp < ramp_level (fold ramp_step [Decrease, Increase all_flags True] demo_ramp)"
    by (simp add: ramp_increase_def ramp_decrease_def all_flags_ok ramp_level_def demo_ramp_def STAGES_def Let_def)
  from live_ramp_needs_approval [OF this] show ?thesis by blast
qed

end
