(* ===== verification/Risk_Ledger.thy ===== *)
theory Risk_Ledger
  imports Money
begin

text \<open>
  Accounting and configuration checks: evidence for ledger entries (\<open>backend/app/risk/ledger_policy.py\<close>), double entry
  (\<open>risk/ledger_integrity.py\<close>), references between orders, fills and the ledger (\<open>risk/referential_integrity.py\<close>),
  changes of the live risk configuration (\<open>risk/config_safety.py\<close>), clusters of correlated positions (\<open>risk/portfolio.py\<close>,
  \<open>risk/correlation.py\<close>) and the attribution of profit (\<open>risk/attribution.py\<close>).
\<close>

section \<open>Ledger policy\<close>

record AccountingEvidence =
  ae_order_id :: string
  ae_fill_id :: "string option"
  ae_signal_fingerprint :: "string option"
  ae_fee :: rat
  ae_funding :: rat
  ae_realized_pnl :: rat
  ae_unrealized_pnl :: "rat option"
  ae_transfer_amount :: "rat option"
  ae_transfer_reconciled :: bool

record LedgerLifecyclePolicy =
  lc_native_partitioning :: bool
  lc_retention_days :: int
  lc_archival_after_days :: int
  lc_compression_optional :: bool
  lc_timescaledb_required :: bool

record AccountingValidation =
  av_ok :: bool
  av_reasons :: "string list"

definition accounting :: "string list \<Rightarrow> AccountingValidation" where
  "accounting reasons = \<lparr>av_ok = (reasons = []), av_reasons = reasons\<rparr>"

definition validate_accounting_evidence :: "AccountingEvidence \<Rightarrow> bool \<Rightarrow> AccountingValidation" where
  "validate_accounting_evidence e require_signal_fingerprint =
     accounting (
       flag (ae_order_id e = []) ''ORDER_REFERENCE_REQUIRED'' @
       flag (ae_fill_id e = None \<and> (ae_fee e \<noteq> 0 \<or> ae_funding e \<noteq> 0 \<or> ae_realized_pnl e \<noteq> 0))
         ''FILL_REFERENCE_REQUIRED_FOR_REALIZED_ACTIVITY'' @
       flag (require_signal_fingerprint \<and> (case ae_signal_fingerprint e of None \<Rightarrow> True | Some s \<Rightarrow> s = []))
         ''SIGNAL_FINGERPRINT_REQUIRED'' @
       flag (ae_fee e < 0) ''NEGATIVE_FEE_INVALID'' @
       flag (ae_transfer_amount e \<noteq> None \<and> \<not> ae_transfer_reconciled e) ''MANUAL_TRANSFER_RECONCILIATION_REQUIRED'')"

definition validate_ledger_lifecycle :: "LedgerLifecyclePolicy \<Rightarrow> AccountingValidation" where
  "validate_ledger_lifecycle p =
     accounting (
       flag (\<not> lc_native_partitioning p) ''NATIVE_PARTITIONING_REQUIRED'' @
       flag (lc_retention_days p \<le> 0) ''RETENTION_POLICY_REQUIRED'' @
       flag (lc_archival_after_days p \<le> 0 \<or> lc_archival_after_days p \<ge> lc_retention_days p) ''ARCHIVAL_WINDOW_INVALID'' @
       flag (lc_timescaledb_required p) ''TIMESCALEDB_MUST_REMAIN_OPTIONAL'')"

section \<open>Double entry\<close>

record LedgerPosting =
  lg_asset :: string
  lg_amount :: rat
  lg_reference_id :: string

record LedgerIntegrityResult =
  li_balanced :: bool
  li_imbalances :: "(string, rat) dict"
  li_duplicate_references :: "string list"

fun ledger_totals :: "LedgerPosting list \<Rightarrow> (string, rat) dict \<Rightarrow> (string, rat) dict" where
  "ledger_totals [] t = t"
| "ledger_totals (p # ps) t = ledger_totals ps (dset (lg_asset p) (dec (get_or t (lg_asset p) 0 + lg_amount p)) t)"

fun ledger_refs :: "LedgerPosting list \<Rightarrow> (string, int) dict \<Rightarrow> (string, int) dict" where
  "ledger_refs [] t = t"
| "ledger_refs (p # ps) t = ledger_refs ps (dset (lg_reference_id p) (get_or t (lg_reference_id p) 0 + 1) t)"

definition validate_double_entry :: "LedgerPosting list \<Rightarrow> rat \<Rightarrow> LedgerIntegrityResult" where
  "validate_double_entry postings tolerance =
     (let imbalances = filter (\<lambda>(a, v). dec \<bar>v\<bar> > tolerance) (ledger_totals postings []);
          duplicates = sort (map fst (filter (\<lambda>(k, n). n > 2) (ledger_refs postings [])))
      in \<lparr>li_balanced = (imbalances = [] \<and> duplicates = []), li_imbalances = imbalances, li_duplicate_references = duplicates\<rparr>)"

section \<open>References\<close>

record FillRow =
  fr_id :: string
  fr_order_id :: string
  fr_trade_id :: string
  fr_exchange_account_id :: string

record LedgerEntryRow =
  lx_id :: string
  lx_reference_type :: string
  lx_reference_id :: string
  lx_exchange_account_id :: string

record ReferentialIntegrityResult =
  ri_valid :: bool
  ri_errors :: "string list"

text \<open>The table of orders is the list of their ids and accounts.\<close>

definition validate_execution_references ::
  "(string \<times> string) list \<Rightarrow> FillRow list \<Rightarrow> LedgerEntryRow list \<Rightarrow> string \<Rightarrow> ReferentialIntegrityResult" where
  "validate_execution_references orders0 fills0 ledger0 acc =
     (let orders = map fst (filter (\<lambda>(i, a). a = acc) orders0);
          fills = filter (\<lambda>f. fr_exchange_account_id f = acc) fills0;
          ledger = filter (\<lambda>e. lx_exchange_account_id e = acc) ledger0;
          fill_ids = map fr_id fills; trade_ids = map fr_trade_id fills;
          errors =
            concat (map (\<lambda>f. flag (fr_order_id f \<notin> set orders) (''FILL_ORDER_MISSING:'' @ fr_id f @ '':'' @ fr_order_id f)) fills) @
            concat (map (\<lambda>e.
              let rt = upper (lx_reference_type e)
              in if rt = ''ORDER'' \<and> lx_reference_id e \<notin> set orders
                 then [''LEDGER_ORDER_MISSING:'' @ lx_id e @ '':'' @ lx_reference_id e]
                 else if rt = ''FILL'' \<and> lx_reference_id e \<notin> set fill_ids \<and> lx_reference_id e \<notin> set trade_ids
                 then [''LEDGER_FILL_MISSING:'' @ lx_id e @ '':'' @ lx_reference_id e] else []) ledger)
      in \<lparr>ri_valid = (errors = []), ri_errors = sort errors\<rparr>)"

section \<open>Changes of the risk configuration\<close>

text \<open>A configuration value: the object by its text, and the number that \<open>float\<close> makes of it, if any. The hash
  of a configuration is a parameter.\<close>

datatype cfgval = CVal string "rat option"

type_synonym config = "(string, cfgval) dict"

definition RISK_INCREASING_KEYS :: "string list" where
  "RISK_INCREASING_KEYS = [''risk_per_trade'', ''max_daily_loss'', ''max_weekly_loss'', ''max_drawdown'', ''max_portfolio_exposure'',
     ''max_single_asset_exposure'', ''max_open_positions'']"

record ConfigChangeAssessment =
  ca_risk_increasing :: bool
  ca_changed_keys :: "string list"
  ca_old_hash :: string
  ca_new_hash :: string

fun cfg_float :: "cfgval option \<Rightarrow> rat option" where
  "cfg_float None = Some 0"
| "cfg_float (Some (CVal t n)) = map_option flt n"

definition key_increases :: "config \<Rightarrow> config \<Rightarrow> string \<Rightarrow> bool" where
  "key_increases old new k =
     (k \<in> set RISK_INCREASING_KEYS \<and>
      (case (cfg_float (dget new k), cfg_float (dget old k)) of (Some n, Some m) \<Rightarrow> n > m | _ \<Rightarrow> True))"

definition assess_change :: "(config \<Rightarrow> string) \<Rightarrow> config \<Rightarrow> config \<Rightarrow> ConfigChangeAssessment" where
  "assess_change config_hash old new =
     (let changed = sorted_set (filter (\<lambda>k. dget old k \<noteq> dget new k) (map fst old @ map fst new))
      in \<lparr>ca_risk_increasing = list_ex (key_increases old new) changed, ca_changed_keys = changed,
          ca_old_hash = config_hash old, ca_new_hash = config_hash new\<rparr>)"

record LiveConfigDecision =
  ld_allowed :: bool
  ld_requires_restart :: bool
  ld_requires_human_approval :: bool
  ld_reason :: string
  ld_assessment :: ConfigChangeAssessment

definition config_evaluate :: "(config \<Rightarrow> string) \<Rightarrow> config \<Rightarrow> config \<Rightarrow> LiveConfigDecision" where
  "config_evaluate config_hash active candidate =
     (let a = assess_change config_hash active candidate
      in if ca_changed_keys a = []
         then \<lparr>ld_allowed = True, ld_requires_restart = False, ld_requires_human_approval = False, ld_reason = ''NO_CHANGE'', ld_assessment = a\<rparr>
         else if ca_risk_increasing a
         then \<lparr>ld_allowed = False, ld_requires_restart = True, ld_requires_human_approval = True,
               ld_reason = ''RISK_INCREASING_CONFIG_REQUIRES_APPROVED_RESTART'', ld_assessment = a\<rparr>
         else \<lparr>ld_allowed = False, ld_requires_restart = True, ld_requires_human_approval = False,
               ld_reason = ''LIVE_CONFIG_CHANGE_REQUIRES_RESTART'', ld_assessment = a\<rparr>)"

definition require_unchanged :: "(config \<Rightarrow> string) \<Rightarrow> config \<Rightarrow> config \<Rightarrow> unit res" where
  "require_unchanged config_hash active candidate =
     (if config_hash candidate \<noteq> config_hash active then Inl (PermissionError ''LIVE config mutated at runtime'') else Inr ())"

section \<open>Clusters of correlated positions\<close>

type_synonym correlations = "(string \<times> string, rat) dict"

definition corr_of :: "correlations \<Rightarrow> string \<Rightarrow> string \<Rightarrow> rat" where
  "corr_of cs x b = (case dget cs (x, b) of Some v \<Rightarrow> v | None \<Rightarrow> get_or cs (b, x) 0)"

definition linked :: "correlations \<Rightarrow> rat \<Rightarrow> string list \<Rightarrow> string \<Rightarrow> bool" where
  "linked cs threshold members b = list_ex (\<lambda>x. \<bar>corr_of cs x b\<bar> \<ge> threshold) members"

text \<open>One pass of the inner loop over all positions; a group is the list of its members in the order in which they join.\<close>

fun grow_pass :: "correlations \<Rightarrow> rat \<Rightarrow> string list \<Rightarrow> string list \<Rightarrow> string list" where
  "grow_pass cs th [] members = members"
| "grow_pass cs th (b # bs) members =
     (if b \<in> set members then grow_pass cs th bs members
      else if linked cs th members b then grow_pass cs th bs (members @ [b])
      else grow_pass cs th bs members)"

lemma grow_pass_extends: "\<exists>ext. grow_pass cs th bs members = members @ ext \<and> set ext \<subseteq> set bs \<and> set ext \<inter> set members = {}"
proof (induction bs arbitrary: members)
  case (Cons b bs)
  show ?case
  proof (cases "b \<notin> set members \<and> linked cs th members b")
    case True
    with Cons [of "members @ [b]"] show ?thesis by force
  next
    case False
    with Cons [of members] show ?thesis by force
  qed
qed simp

function grow :: "correlations \<Rightarrow> rat \<Rightarrow> string list \<Rightarrow> string list \<Rightarrow> string list" where
  "grow cs th syms members =
     (let members' = grow_pass cs th syms members
      in if members' = members then members else grow cs th syms members')"
  by pat_completeness auto
termination
proof (relation "measure (\<lambda>(cs, th, syms, members). card (set syms - set members))", simp)
  fix cs th syms members members'
  assume g: "members' = grow_pass cs th syms members" "members' \<noteq> members"
  obtain ext where e: "members' = members @ ext" "set ext \<subseteq> set syms" "set ext \<inter> set members = {}"
    using grow_pass_extends [of cs th syms members] g by blast
  with g(2) have "set syms - set members' \<subset> set syms - set members" by (cases ext) auto
  then show "((cs, th, syms, members'), (cs, th, syms, members)) \<in> measure (\<lambda>(cs, th, syms, members). card (set syms - set members))"
    by (auto intro: psubset_card_mono)
qed

declare grow.simps [simp del]

fun cluster_groups :: "correlations \<Rightarrow> rat \<Rightarrow> string list \<Rightarrow> string list \<Rightarrow> string list \<Rightarrow> string list list" where
  "cluster_groups cs th syms [] seen = []"
| "cluster_groups cs th syms (a # as) seen =
     (if a \<in> set seen then cluster_groups cs th syms as seen
      else let members = grow cs th syms [a] in members # cluster_groups cs th syms as (seen @ members))"

definition cluster_exposure :: "(string, rat) dict \<Rightarrow> correlations \<Rightarrow> rat \<Rightarrow> (string list \<times> rat) list" where
  "cluster_exposure exposures cs th =
     map (\<lambda>g. (g, dsum (map (\<lambda>x. dec \<bar>get_or exposures x 0\<bar>) g))) (cluster_groups cs th (map fst exposures) (map fst exposures) [])"

definition concentration_breaches :: "(string, rat) dict \<Rightarrow> rat \<Rightarrow> rat \<Rightarrow> rat \<Rightarrow> rat \<Rightarrow> rat \<Rightarrow> string list" where
  "concentration_breaches cluster_exposures common_factor stress_cluster max_cluster max_common_factor max_stress_cluster =
     flag (list_ex (\<lambda>(k, v). v > max_cluster) cluster_exposures) ''CORRELATED_CLUSTER_EXPOSURE'' @
     flag (common_factor > max_common_factor) ''COMMON_FACTOR_EXPOSURE'' @
     flag (stress_cluster > max_stress_cluster) ''STRESS_CORRELATION_EXPOSURE''"

section \<open>Attribution\<close>

record PnLAttribution =
  at_signal_alpha :: rat
  at_entry_timing :: rat
  at_exit_timing :: rat
  at_spread_cost :: rat
  at_slippage :: rat
  at_fees :: rat
  at_funding_borrow :: rat
  at_adverse_selection :: rat
  at_missed_fill :: rat
  at_stop_gap :: rat

definition attribution_total :: "PnLAttribution \<Rightarrow> rat" where
  "attribution_total a =
     flt (flt (flt (flt (flt (flt (flt (flt (flt (at_signal_alpha a + at_entry_timing a) + at_exit_timing a) - at_spread_cost a)
       - at_slippage a) - at_fees a) - at_funding_borrow a) - at_adverse_selection a) - at_missed_fill a) - at_stop_gap a)"

definition implementation_shortfall :: "rat \<Rightarrow> rat \<Rightarrow> string \<Rightarrow> rat res" where
  "implementation_shortfall decision_price fill_price side =
     (if decision_price = 0 then Inl ZeroDivisionError
      else let s = (if side = ''BUY'' then 1 else - 1) in Inr (flt (flt (s * flt (fill_price - decision_price)) / decision_price)))"

section \<open>Balanced postings\<close>

lemma ledger_totals_get:
  "get_or (ledger_totals ps t) a 0 = dsum_from (get_or t a 0) (map lg_amount (filter (\<lambda>p. lg_asset p = a) ps))"
  by (induction ps t rule: ledger_totals.induct) (auto simp: get_or_def)

lemma ledger_totals_wf: "wf_dict t \<Longrightarrow> wf_dict (ledger_totals ps t)"
  by (induction ps t rule: ledger_totals.induct) simp_all

lemma ledger_totals_dom: "dget (ledger_totals ps t) a \<noteq> None \<longleftrightarrow> dget t a \<noteq> None \<or> a \<in> lg_asset ` set ps"
  by (induction ps t rule: ledger_totals.induct) auto

lemma ledger_refs_get: "get_or (ledger_refs ps t) r 0 = get_or t r 0 + int (length (filter (\<lambda>p. lg_reference_id p = r) ps))"
  by (induction ps t rule: ledger_refs.induct) (auto simp: get_or_def)

lemma ledger_refs_wf: "wf_dict t \<Longrightarrow> wf_dict (ledger_refs ps t)"
  by (induction ps t rule: ledger_refs.induct) simp_all

lemma dict_all_get:
  assumes "wf_dict d" "P 0"
  shows "(\<forall>(k, v) \<in> set d. P v) \<longleftrightarrow> (\<forall>k. P (get_or d k 0))"
  using assms by (auto simp: wf_dict_mem get_or_def split: option.splits)

text \<open>A ledger passes the double-entry check exactly when it balances. For postings on a common decimal grid whose amounts add up to at most
  28 digits, \<open>validate_double_entry\<close> reports a balanced ledger if and only if in every asset the exact sum of the
  postings is within the tolerance and no reference occurs more than twice.
\<close>

theorem double_entry_balanced_iff:
  assumes "\<And>p. p \<in> set ps \<Longrightarrow> on_grid q (lg_amount p)" "sum_list (map (\<lambda>p. \<bar>lg_amount p\<bar>) ps) \<le> 10 ^ 28 * 10 powi q" "0 \<le> tol"
  shows "li_balanced (validate_double_entry ps tol) \<longleftrightarrow>
    (\<forall>a. \<bar>sum_list (map lg_amount (filter (\<lambda>p. lg_asset p = a) ps))\<bar> \<le> tol) \<and>
    (\<forall>r. length (filter (\<lambda>p. lg_reference_id p = r) ps) \<le> 2)"
proof -
  have part: "sum_list (map abs (map lg_amount (filter P ps))) \<le> 10 ^ 28 * 10 powi q" for P
  proof -
    have "sum_list (map (\<lambda>p. \<bar>lg_amount p\<bar>) (filter P ps)) \<le> sum_list (map (\<lambda>p. \<bar>lg_amount p\<bar>) ps)"
      by (induction ps) auto
    then show ?thesis using assms(2) by (simp add: comp_def)
  qed
  have tot: "get_or (ledger_totals ps []) a 0 = sum_list (map lg_amount (filter (\<lambda>p. lg_asset p = a) ps))" for a
    using dsum_exact [of "map lg_amount (filter (\<lambda>p. lg_asset p = a) ps)" q] assms(1) part
    unfolding ledger_totals_get by (auto simp: get_or_def dsum_def)
  have grid: "dec \<bar>sum_list (map lg_amount (filter (\<lambda>p. lg_asset p = a) ps))\<bar> = \<bar>sum_list (map lg_amount (filter (\<lambda>p. lg_asset p = a) ps))\<bar>" for a
  proof -
    let ?x = "sum_list (map lg_amount (filter (\<lambda>p. lg_asset p = a) ps))"
    have "on_grid q ?x" using assms(1) by (intro on_grid_sum_list) auto
    moreover have "\<bar>?x\<bar> \<le> 10 ^ 28 * 10 powi q" using part sum_list_abs order_trans by blast
    ultimately have "dec ?x = ?x" by (rule dec_on_grid)
    then show ?thesis by (simp add: dec.R_abs)
  qed
  have "filter (\<lambda>(a, v). dec \<bar>v\<bar> > tol) (ledger_totals ps []) = [] \<longleftrightarrow>
      (\<forall>a. \<bar>sum_list (map lg_amount (filter (\<lambda>p. lg_asset p = a) ps))\<bar> \<le> tol)"
    using dict_all_get [OF ledger_totals_wf [OF wf_dict_simps(1)], of "\<lambda>v. \<not> dec \<bar>v\<bar> > tol" ps] assms(3)
    by (simp add: filter_empty_conv case_prod_unfold tot grid not_less)
  moreover have "filter (\<lambda>(k, n). n > 2) (ledger_refs ps []) = [] \<longleftrightarrow> (\<forall>r. length (filter (\<lambda>p. lg_reference_id p = r) ps) \<le> 2)"
    using dict_all_get [OF ledger_refs_wf [OF wf_dict_simps(1)], of "\<lambda>v. \<not> v > 2" ps]
    unfolding ledger_refs_get by (simp add: filter_empty_conv case_prod_unfold get_or_def not_less)
  moreover have "sort xs = [] \<longleftrightarrow> xs = []" for xs :: "string list" by (metis set_sort set_empty)
  ultimately show ?thesis by (simp add: validate_double_entry_def Let_def)
qed

theorem double_entry_balanced_iff_witness:
  "li_balanced (validate_double_entry [\<lparr>lg_asset = ''USDT'', lg_amount = 5, lg_reference_id = ''t1''\<rparr>,
      \<lparr>lg_asset = ''USDT'', lg_amount = - 5, lg_reference_id = ''t1''\<rparr>] 0)"
proof -
  let ?ps = "[\<lparr>lg_asset = ''USDT'', lg_amount = 5, lg_reference_id = ''t1''\<rparr>, \<lparr>lg_asset = ''USDT'', lg_amount = - 5, lg_reference_id = ''t1''\<rparr>]"
  have g: "on_grid 0 5" "on_grid 0 (- 5)" by (auto simp: on_grid_def intro: exI [of _ 5] exI [of _ "- 5"])
  have "li_balanced (validate_double_entry ?ps 0) \<longleftrightarrow>
      (\<forall>a. \<bar>sum_list (map lg_amount (filter (\<lambda>p. lg_asset p = a) ?ps))\<bar> \<le> 0) \<and>
      (\<forall>r. length (filter (\<lambda>p. lg_reference_id p = r) ?ps) \<le> 2)"
    by (rule double_entry_balanced_iff [of ?ps 0 0]) (use g in auto)
  then show ?thesis by simp
qed

section \<open>Clusters are connected components\<close>

definition link_rel :: "correlations \<Rightarrow> rat \<Rightarrow> string list \<Rightarrow> (string \<times> string) set" where
  "link_rel cs th syms = {(x, b). x \<in> set syms \<and> b \<in> set syms \<and> \<bar>corr_of cs x b\<bar> \<ge> th}"

definition component :: "correlations \<Rightarrow> rat \<Rightarrow> string list \<Rightarrow> string \<Rightarrow> string set" where
  "component cs th syms a = {b. (a, b) \<in> (link_rel cs th syms)\<^sup>*}"

lemma grow_pass_sound:
  assumes "set members \<subseteq> component cs th syms a" "set members \<subseteq> set syms" "set bs \<subseteq> set syms"
  shows "set (grow_pass cs th bs members) \<subseteq> component cs th syms a"
  using assms
proof (induction bs arbitrary: members)
  case (Cons b bs)
  have "b \<in> component cs th syms a" if l: "linked cs th members b"
  proof -
    obtain x where x: "x \<in> set members" "\<bar>corr_of cs x b\<bar> \<ge> th" using l by (auto simp: linked_def list_ex_iff)
    then have "(x, b) \<in> link_rel cs th syms" using Cons.prems by (auto simp: link_rel_def)
    then show ?thesis using x Cons.prems(1) by (auto simp: component_def intro: rtrancl_into_rtrancl)
  qed
  with Cons show ?case by auto
qed simp

lemma grow_pass_fixed:
  assumes "grow_pass cs th bs members = members" "b \<in> set bs" shows "b \<in> set members \<or> \<not> linked cs th members b"
  using assms
proof (induction bs arbitrary: members)
  case (Cons c bs)
  show ?case
  proof (cases "c \<notin> set members \<and> linked cs th members c")
    case True
    obtain ext where "grow_pass cs th bs (members @ [c]) = (members @ [c]) @ ext" using grow_pass_extends by blast
    with True Cons.prems(1) show ?thesis by simp
  next
    case False
    with Cons show ?thesis by (auto split: if_splits)
  qed
qed simp

lemma grow_component:
  assumes "set members \<subseteq> component cs th syms a" "a \<in> set members" "set members \<subseteq> set syms"
  shows "set (grow cs th syms members) = component cs th syms a"
  using assms
proof (induction cs th syms members rule: grow.induct)
  case (1 cs th syms members)
  let ?g = "grow_pass cs th syms members"
  obtain ext where e: "?g = members @ ext" "set ext \<subseteq> set syms" using grow_pass_extends by blast
  show ?case
  proof (cases "?g = members")
    case False
    have "set (grow cs th syms ?g) = component cs th syms a"
      using 1(1) [OF refl False grow_pass_sound [OF 1(2,4) order_refl]] 1(3,4) e by auto
    then show ?thesis using False by (subst grow.simps) (simp add: Let_def)
  next
    case True
    have "b \<in> set members" if "(a, b) \<in> (link_rel cs th syms)\<^sup>*" for b
      using that
    proof (induction rule: rtrancl_induct)
      case base
      show ?case by (rule 1(3))
    next
      case (step y z)
      then have "linked cs th members z" "z \<in> set syms" by (auto simp: link_rel_def linked_def list_ex_iff)
      with grow_pass_fixed [OF True] show ?case by blast
    qed
    then have "component cs th syms a \<subseteq> set members" by (auto simp: component_def)
    with 1(2) have "set members = component cs th syms a" by blast
    then show ?thesis using True by (subst grow.simps) (simp add: Let_def)
  qed
qed

lemma component_closed:
  assumes sym: "\<And>x y. corr_of cs x y = corr_of cs y x" and "b \<in> component cs th syms a"
  shows "component cs th syms b = component cs th syms a"
proof -
  have "sym ((link_rel cs th syms)\<^sup>*)" by (intro sym_rtrancl symI) (auto simp: link_rel_def sym)
  with assms(2) show ?thesis by (auto simp: component_def dest: symD intro: rtrancl_trans)
qed

definition components_seen :: "correlations \<Rightarrow> rat \<Rightarrow> string list \<Rightarrow> string list \<Rightarrow> bool" where
  "components_seen cs th syms seen \<longleftrightarrow> (\<forall>x \<in> set seen. component cs th syms x \<subseteq> set seen)"

lemma cluster_groups_components:
  assumes sym: "\<And>x y. corr_of cs x y = corr_of cs y x" and "components_seen cs th syms seen" "set as \<subseteq> set syms"
  shows "\<forall>g \<in> set (cluster_groups cs th syms as seen). \<exists>a \<in> set as. set g = component cs th syms a \<and> set g \<inter> set seen = {}"
    and "set as - set seen \<subseteq> (\<Union>g \<in> set (cluster_groups cs th syms as seen). set g)"
    and "sorted_wrt (\<lambda>g h. set g \<inter> set h = {}) (cluster_groups cs th syms as seen)"
proof -
  have "(\<forall>g \<in> set (cluster_groups cs th syms as seen). \<exists>a \<in> set as. set g = component cs th syms a \<and> set g \<inter> set seen = {}) \<and>
      set as - set seen \<subseteq> (\<Union>g \<in> set (cluster_groups cs th syms as seen). set g) \<and>
      sorted_wrt (\<lambda>g h. set g \<inter> set h = {}) (cluster_groups cs th syms as seen)"
    using assms(2,3)
  proof (induction as arbitrary: seen)
    case (Cons a as)
    show ?case
    proof (cases "a \<in> set seen")
      case True
      with Cons show ?thesis by auto
    next
      case False
      let ?g = "grow cs th syms [a]"
      have g: "set ?g = component cs th syms a"
        using Cons.prems by (intro grow_component) (auto simp: component_def)
      have disj: "set ?g \<inter> set seen = {}"
      proof (rule ccontr)
        assume "set ?g \<inter> set seen \<noteq> {}"
        then obtain x where "x \<in> component cs th syms a" "x \<in> set seen" using g by blast
        then have "component cs th syms a \<subseteq> set seen"
          using component_closed [OF sym] Cons.prems(1) by (fastforce simp: components_seen_def)
        moreover have "a \<in> component cs th syms a" by (simp add: component_def)
        ultimately show False using False by blast
      qed
      have "components_seen cs th syms (seen @ ?g)"
        using Cons.prems(1) component_closed [OF sym] by (auto simp: components_seen_def g)
      note ih = Cons.IH [OF this]
      have "a \<in> set ?g" unfolding g by (simp add: component_def)
      with ih Cons.prems(2) False g disj show ?thesis by (auto simp: Let_def)
    qed
  qed simp
  then show "\<forall>g \<in> set (cluster_groups cs th syms as seen). \<exists>a \<in> set as. set g = component cs th syms a \<and> set g \<inter> set seen = {}"
    "set as - set seen \<subseteq> (\<Union>g \<in> set (cluster_groups cs th syms as seen). set g)"
    "sorted_wrt (\<lambda>g h. set g \<inter> set h = {}) (cluster_groups cs th syms as seen)" by blast+
qed

text \<open>
  C22: the clustering loop ends and finds the connected components. For a symmetric correlation table the groups of \<open>cluster_exposure\<close> are pairwise
  disjoint, cover all positions, and each is the set of everything that is reachable from one of its members through
  correlations of at least the threshold.
\<close>

theorem clusters_are_components:
  assumes "\<And>x y. corr_of cs x y = corr_of cs y x"
  shows "(\<forall>(g, e) \<in> set (cluster_exposure exposures cs th). \<exists>a \<in> fst ` set exposures. set g = component cs th (map fst exposures) a) \<and>
    fst ` set exposures \<subseteq> (\<Union>(g, e) \<in> set (cluster_exposure exposures cs th). set g) \<and>
    sorted_wrt (\<lambda>g h. set g \<inter> set h = {}) (map fst (cluster_exposure exposures cs th))"
proof -
  have "components_seen cs th (map fst exposures) []" by (simp add: components_seen_def)
  note c = cluster_groups_components [OF assms this order_refl]
  show ?thesis using c by (fastforce simp: cluster_exposure_def comp_def)
qed

theorem clusters_are_components_witness:
  "sorted_wrt (\<lambda>g h. set g \<inter> set h = {})
     (map fst (cluster_exposure [(''A'', 1), (''B'', 2), (''C'', 3)] [((''A'', ''B''), 1)] (7 / 10)))"
proof -
  have "corr_of [((''A'', ''B''), 1)] x y = corr_of [((''A'', ''B''), 1)] y x" for x y by (auto simp: corr_of_def get_or_def)
  from clusters_are_components [OF this] show ?thesis by blast
qed

section \<open>Configuration changes\<close>

text \<open>A changed configuration is never applied at run time: the guard allows a candidate only if it gives every key the active value, and a change that
  raises one of the listed limits, or whose value is not a number, needs human approval and a restart.
\<close>

theorem live_config_guard_sound:
  "(ld_allowed (config_evaluate h active candidate) \<longleftrightarrow> (\<forall>k. dget active k = dget candidate k)) \<and>
   (ld_requires_human_approval (config_evaluate h active candidate) \<longleftrightarrow>
     (\<exists>k. dget active k \<noteq> dget candidate k \<and> key_increases active candidate k))"
proof -
  have k: "k \<in> set (ca_changed_keys (assess_change h active candidate)) \<longleftrightarrow> dget active k \<noteq> dget candidate k" for k
    by (auto simp: assess_change_def Let_def map_of_eq_None_iff) (metis map_of_eq_None_iff)+
  then have e: "ca_changed_keys (assess_change h active candidate) = [] \<longleftrightarrow> (\<forall>k. dget active k = dget candidate k)"
    by (metis list.set(1) empty_iff last_in_set)
  have i: "ca_risk_increasing (assess_change h active candidate) \<longleftrightarrow> (\<exists>k. dget active k \<noteq> dget candidate k \<and> key_increases active candidate k)"
  proof -
    have "ca_risk_increasing (assess_change h active candidate) \<longleftrightarrow>
        list_ex (key_increases active candidate) (ca_changed_keys (assess_change h active candidate))"
      by (simp add: assess_change_def Let_def)
    then show ?thesis by (auto simp: list_ex_iff k)
  qed
  show ?thesis using e i by (auto simp: config_evaluate_def Let_def)
qed

text \<open>A limit of \<open>RiskLimits\<close> that is not in the list can be raised without being counted as an increase of risk.\<close>

lemma risk_increase_not_flagged:
  "\<not> ca_risk_increasing (assess_change h [(''max_quote_asset_exposure'', CVal ''0.5'' (Some (1 / 2)))]
     [(''max_quote_asset_exposure'', CVal ''1'' (Some 1))])"
  by (simp add: assess_change_def Let_def list_ex_iff key_increases_def RISK_INCREASING_KEYS_def)

end
