(* ===== verification/Sleeves.thy ===== *)
theory Sleeves
  imports Money
begin

text \<open>
  Positions per strategy inside one account (\<open>backend/app/execution/sleeves.py\<close>) and the paper broker (\<open>paper/engine.py\<close>). The lots of a book
  are objects that a close mutates in place; here the book is the list of lots and a close rebuilds it in the same order. The fresh lot id that
  the code draws from \<open>uuid4\<close> is an argument.
\<close>

section \<open>The sleeve book\<close>

datatype PositionSide = LONG | SHORT

datatype NettingPolicy = FIFO_PER_STRATEGY | REJECT_CROSS_STRATEGY_EXIT

record StrategyAllocationLot =
  sl_lot_id :: string
  sl_strategy_id :: string
  sl_symbol :: string
  sl_side :: PositionSide
  sl_quantity :: rat
  sl_entry_price :: rat
  sl_source_order_id :: string
  sl_source_fill_id :: string
  sl_fees :: rat
  sl_funding :: rat
  sl_realized_pnl :: rat

definition signed_quantity :: "StrategyAllocationLot \<Rightarrow> rat" where
  "signed_quantity l = (if sl_side l = LONG then sl_quantity l else dec (- sl_quantity l))"

record SleeveReconciliation =
  sr_symbol :: string
  sr_account_net_quantity :: rat
  sr_sleeve_net_quantity :: rat
  sr_consistent :: bool

record StrategySleeveBook =
  sb_netting_policy :: NettingPolicy
  sb_hedging_supported :: bool
  sb_ownership_transfer_allowed :: bool
  sb_lots :: "StrategyAllocationLot list"

definition parse_side :: "string \<Rightarrow> PositionSide res" where
  "parse_side s = (if upper s = ''LONG'' then Inr LONG else if upper s = ''SHORT'' then Inr SHORT
                   else Inl (ValueError ''not a valid PositionSide''))"

fun opposite :: "PositionSide \<Rightarrow> PositionSide" where
  "opposite LONG = SHORT"
| "opposite SHORT = LONG"

definition hedge_conflict :: "string \<Rightarrow> PositionSide \<Rightarrow> StrategyAllocationLot list \<Rightarrow> bool" where
  "hedge_conflict symbol side lots =
     list_ex (\<lambda>l. sl_symbol l = upper symbol \<and> sl_quantity l > 0 \<and> sl_side l = opposite side) lots"

definition allocate_fill ::
  "string \<Rightarrow> string \<Rightarrow> string \<Rightarrow> string \<Rightarrow> rat \<Rightarrow> rat \<Rightarrow> string \<Rightarrow> string \<Rightarrow> rat \<Rightarrow> rat \<Rightarrow> StrategySleeveBook \<Rightarrow>
   StrategySleeveBook \<times> StrategyAllocationLot res" where
  "allocate_fill new_id strategy_id symbol side qty price source_order_id source_fill_id fee funding b =
     (if strategy_id = [] \<or> symbol = [] \<or> source_order_id = [] \<or> source_fill_id = []
      then (b, Inl (ValueError ''entry/fill attribution identifiers are required''))
      else if qty \<le> 0 \<or> price \<le> 0 then (b, Inl (ValueError ''quantity and entry price must be positive''))
      else case parse_side side of
        Inl e \<Rightarrow> (b, Inl e)
      | Inr s \<Rightarrow>
          (if \<not> sb_hedging_supported b \<and> hedge_conflict symbol s (sb_lots b)
           then (b, Inl (ValueError ''hedging conflict for account/symbol''))
           else
             let lot = \<lparr>sl_lot_id = new_id, sl_strategy_id = strategy_id, sl_symbol = upper symbol, sl_side = s, sl_quantity = qty,
                        sl_entry_price = price, sl_source_order_id = source_order_id, sl_source_fill_id = source_fill_id,
                        sl_fees = fee, sl_funding = funding, sl_realized_pnl = 0\<rparr>
             in (b\<lparr>sb_lots := sb_lots b @ [lot]\<rparr>, Inr lot)))"

definition is_open_lot :: "string \<Rightarrow> string \<Rightarrow> PositionSide \<Rightarrow> StrategyAllocationLot \<Rightarrow> bool" where
  "is_open_lot strategy_id symbol side l =
     (sl_strategy_id l = strategy_id \<and> sl_symbol l = upper symbol \<and> sl_side l = side \<and> sl_quantity l > 0)"

definition open_lots :: "string \<Rightarrow> string \<Rightarrow> PositionSide \<Rightarrow> StrategyAllocationLot list \<Rightarrow> StrategyAllocationLot list" where
  "open_lots strategy_id symbol side lots = filter (is_open_lot strategy_id symbol side) lots"

definition close_lot ::
  "PositionSide \<Rightarrow> rat \<Rightarrow> rat \<Rightarrow> rat \<Rightarrow> rat \<Rightarrow> rat \<Rightarrow> StrategyAllocationLot \<Rightarrow> StrategyAllocationLot \<times> rat" where
  "close_lot side price total_qty exit_fee funding closed_qty l =
     (let gross0 = dec (dec (price - sl_entry_price l) * closed_qty);
          gross = (if side = SHORT then dec (- gross0) else gross0);
          fee = dec (exit_fee * dec (closed_qty / total_qty));
          fund = dec (funding * dec (closed_qty / total_qty));
          pnl = dec (dec (gross - fee) - fund)
      in (l\<lparr>sl_quantity := dec (sl_quantity l - closed_qty), sl_realized_pnl := dec (sl_realized_pnl l + pnl),
            sl_fees := dec (sl_fees l + fee), sl_funding := dec (sl_funding l + fund)\<rparr>, pnl))"

fun close_walk ::
  "(StrategyAllocationLot \<Rightarrow> bool) \<Rightarrow> (rat \<Rightarrow> StrategyAllocationLot \<Rightarrow> StrategyAllocationLot \<times> rat) \<Rightarrow> StrategyAllocationLot list \<Rightarrow>
   rat \<Rightarrow> rat \<Rightarrow> StrategyAllocationLot list \<times> rat \<times> rat" where
  "close_walk cand close1 [] qty_left realized = ([], qty_left, realized)"
| "close_walk cand close1 (l # ls) qty_left realized =
     (if qty_left \<le> 0 then (l # ls, qty_left, realized)
      else if \<not> cand l then (case close_walk cand close1 ls qty_left realized of (ls', q, r) \<Rightarrow> (l # ls', q, r))
      else
        let closed_qty = min (sl_quantity l) qty_left
        in case close1 closed_qty l of (l', pnl) \<Rightarrow>
             (case close_walk cand close1 ls (dec (qty_left - closed_qty)) (dec (realized + pnl)) of (ls', q, r) \<Rightarrow> (l' # ls', q, r)))"

definition close_position ::
  "string \<Rightarrow> string \<Rightarrow> string \<Rightarrow> rat \<Rightarrow> rat \<Rightarrow> rat \<Rightarrow> rat \<Rightarrow> StrategySleeveBook \<Rightarrow> StrategySleeveBook \<times> rat res" where
  "close_position strategy_id symbol side qty price exit_fee funding b =
     (case parse_side side of
        Inl e \<Rightarrow> (b, Inl e)
      | Inr s \<Rightarrow>
          (if qty \<le> 0 \<or> price \<le> 0 then (b, Inl (ValueError ''close quantity and price must be positive''))
           else if qty > dsum (map sl_quantity (open_lots strategy_id symbol s (sb_lots b)))
           then (b, Inl (ValueError ''strategy cannot exit another strategy's exposure''))
           else case close_walk (is_open_lot strategy_id symbol s) (close_lot s price qty exit_fee funding) (sb_lots b) qty 0 of
             (lots, left, realized) \<Rightarrow> (b\<lparr>sb_lots := lots\<rparr>, Inr realized)))"

fun set_owner :: "string \<Rightarrow> string \<Rightarrow> StrategyAllocationLot list \<Rightarrow> StrategyAllocationLot list" where
  "set_owner lot_id to_strategy [] = []"
| "set_owner lot_id to_strategy (l # ls) =
     (if sl_lot_id l = lot_id then l\<lparr>sl_strategy_id := to_strategy\<rparr> # ls else l # set_owner lot_id to_strategy ls)"

definition transfer_ownership :: "string \<Rightarrow> string \<Rightarrow> string \<Rightarrow> StrategySleeveBook \<Rightarrow> StrategySleeveBook \<times> unit res" where
  "transfer_ownership lot_id from_strategy to_strategy b =
     (if \<not> sb_ownership_transfer_allowed b then (b, Inl (PermissionError ''ownership transfer policy forbids transfer''))
      else case find (\<lambda>l. sl_lot_id l = lot_id) (sb_lots b) of
        None \<Rightarrow> (b, Inl (ValueError ''lot ownership mismatch''))
      | Some l \<Rightarrow>
          (if sl_strategy_id l \<noteq> from_strategy then (b, Inl (ValueError ''lot ownership mismatch''))
           else if to_strategy = [] \<or> to_strategy = from_strategy then (b, Inl (ValueError ''invalid target strategy''))
           else (b\<lparr>sb_lots := set_owner lot_id to_strategy (sb_lots b)\<rparr>, Inr ())))"

definition strategy_virtual_sleeve :: "string \<Rightarrow> string \<Rightarrow> StrategySleeveBook \<Rightarrow> rat" where
  "strategy_virtual_sleeve strategy_id symbol b =
     dsum (map signed_quantity (filter (\<lambda>l. sl_strategy_id l = strategy_id \<and> sl_symbol l = upper symbol) (sb_lots b)))"

definition account_net_position :: "string \<Rightarrow> StrategySleeveBook \<Rightarrow> rat" where
  "account_net_position symbol b = dsum (map signed_quantity (filter (\<lambda>l. sl_symbol l = upper symbol) (sb_lots b)))"

definition reconcile_account_net :: "string \<Rightarrow> rat \<Rightarrow> StrategySleeveBook \<Rightarrow> SleeveReconciliation" where
  "reconcile_account_net symbol account b =
     (let sleeve = account_net_position symbol b
      in \<lparr>sr_symbol = upper symbol, sr_account_net_quantity = account, sr_sleeve_net_quantity = sleeve, sr_consistent = (account = sleeve)\<rparr>)"

section \<open>The paper broker\<close>

record PaperFill =
  pf_side :: string
  pf_qty :: rat
  pf_price :: rat
  pf_fee :: rat
  pf_latency_ms :: int
  pf_status :: string
  pf_reason :: string

record PaperPosition =
  po_symbol :: string
  po_qty :: rat
  po_entry_price :: rat
  po_stop_loss :: rat
  po_take_profits :: "rat list"
  po_remaining_qty :: rat
  po_realized_pnl :: rat
  po_closed :: bool
  po_triggered_tps :: "nat list"

record PaperBroker =
  pb_fee_bps :: rat
  pb_slippage_bps :: rat
  pb_fills :: "PaperFill list"
  pb_positions :: "(string, PaperPosition) dict"

definition paper_fill ::
  "string \<Rightarrow> rat \<Rightarrow> rat \<Rightarrow> int \<Rightarrow> string \<Rightarrow> rat option \<Rightarrow> PaperBroker \<Rightarrow> PaperBroker \<times> PaperFill res" where
  "paper_fill side qty reference_price latency_ms reason requested_qty b =
     (if qty \<le> 0 \<or> reference_price \<le> 0 then (b, Inl (ValueError ''paper fill requires positive quantity and price''))
      else
        let slip = dec (dec (reference_price * pb_slippage_bps b) / 10000);
            fill_price = (if side = ''BUY'' then dec (reference_price + slip) else dec (reference_price - slip));
            fee = dec (dec (dec (fill_price * qty) * pb_fee_bps b) / 10000);
            status = (case requested_qty of None \<Rightarrow> ''FILLED'' | Some r \<Rightarrow> if qty < r then ''PARTIALLY_FILLED'' else ''FILLED'');
            fill = \<lparr>pf_side = side, pf_qty = qty, pf_price = fill_price, pf_fee = fee, pf_latency_ms = latency_ms, pf_status = status,
                    pf_reason = reason\<rparr>
        in (b\<lparr>pb_fills := pb_fills b @ [fill]\<rparr>, Inr fill))"

definition fill_market ::
  "string \<Rightarrow> rat \<Rightarrow> rat \<Rightarrow> rat \<Rightarrow> int \<Rightarrow> rat option \<Rightarrow> PaperBroker \<Rightarrow> PaperBroker \<times> PaperFill res" where
  "fill_market side requested bid ask latency_ms available_qty b =
     (let actual = (case available_qty of None \<Rightarrow> requested | Some a \<Rightarrow> min requested a)
      in if actual \<le> 0 then (b, Inl (ValueError ''no executable paper liquidity''))
         else paper_fill side actual (if side = ''BUY'' then ask else bid) latency_ms ''MARKET'' (Some requested) b)"

definition open_long ::
  "string \<Rightarrow> rat \<Rightarrow> rat \<Rightarrow> rat \<Rightarrow> rat \<Rightarrow> rat \<times> rat \<times> rat \<Rightarrow> int \<Rightarrow> rat option \<Rightarrow> PaperBroker \<Rightarrow> PaperBroker \<times> PaperPosition res" where
  "open_long symbol qty bid ask stop_loss take_profits latency_ms available_qty b =
     (if (case dget (pb_positions b) symbol of None \<Rightarrow> False | Some p \<Rightarrow> \<not> po_closed p)
      then (b, Inl (ValueError ''paper position already open''))
      else case take_profits of (t1, t2, t3) \<Rightarrow>
        (if \<not> (stop_loss < ask \<and> ask < t1 \<and> t1 < t2 \<and> t2 < t3) then (b, Inl (ValueError ''invalid long protective levels''))
         else case fill_market ''BUY'' qty bid ask latency_ms available_qty b of
           (b1, Inl e) \<Rightarrow> (b1, Inl e)
         | (b1, Inr f) \<Rightarrow>
             (let p = \<lparr>po_symbol = symbol, po_qty = pf_qty f, po_entry_price = pf_price f, po_stop_loss = stop_loss,
                       po_take_profits = [t1, t2, t3], po_remaining_qty = pf_qty f, po_realized_pnl = 0, po_closed = False,
                       po_triggered_tps = []\<rparr>
              in (b1\<lparr>pb_positions := dset symbol p (pb_positions b1)\<rparr>, Inr p))))"

text \<open>The state of a running \<open>on_quote\<close>: the broker and the position, which the code mutates together.\<close>

definition close_qty ::
  "rat \<Rightarrow> rat \<Rightarrow> int \<Rightarrow> string \<Rightarrow> PaperBroker \<times> PaperPosition \<Rightarrow> (PaperBroker \<times> PaperPosition) \<times> PaperFill res" where
  "close_qty qty bid latency_ms reason s =
     (case s of (b, p) \<Rightarrow>
        (case paper_fill ''SELL'' qty bid latency_ms reason None b of
           (b1, Inl e) \<Rightarrow> ((b1, p), Inl e)
         | (b1, Inr f) \<Rightarrow>
             (let gross = dec (dec (pf_price f - po_entry_price p) * pf_qty f);
                  p1 = p\<lparr>po_realized_pnl := dec (po_realized_pnl p + dec (gross - pf_fee f)),
                         po_remaining_qty := dec (po_remaining_qty p - pf_qty f)\<rparr>
              in ((b1, p1), if po_remaining_qty p1 < 0 then Inl (RuntimeError ''paper remaining quantity became negative'') else Inr f))))"

definition tp_fraction :: "nat \<Rightarrow> rat" where
  "tp_fraction i = (if i < 2 then 3 / 10 else 4 / 10)"

fun tp_loop ::
  "rat \<Rightarrow> int \<Rightarrow> (nat \<times> rat) list \<Rightarrow> PaperBroker \<times> PaperPosition \<Rightarrow> PaperFill list \<Rightarrow> (PaperBroker \<times> PaperPosition) \<times> PaperFill list res" where
  "tp_loop bid latency_ms [] s generated = (s, Inr generated)"
| "tp_loop bid latency_ms ((i, level) # rest) s generated =
     (if i \<in> set (po_triggered_tps (snd s)) \<or> bid < level \<or> po_remaining_qty (snd s) \<le> 0 then tp_loop bid latency_ms rest s generated
      else
        let p = (snd s)\<lparr>po_triggered_tps := po_triggered_tps (snd s) @ [i]\<rparr>;
            qty0 = (if i = 2 then po_remaining_qty p else dec (po_qty p * tp_fraction i));
            qty = min qty0 (po_remaining_qty p)
        in case close_qty qty bid latency_ms (''TP'' @ [char_of (49 + i)]) (fst s, p) of
             (s1, Inl e) \<Rightarrow> (s1, Inl e)
           | (s1, Inr f) \<Rightarrow> tp_loop bid latency_ms rest s1 (generated @ [f]))"

definition store_position :: "string \<Rightarrow> PaperBroker \<times> PaperPosition \<Rightarrow> PaperBroker" where
  "store_position symbol s = (fst s)\<lparr>pb_positions := dset symbol (snd s) (pb_positions (fst s))\<rparr>"

definition on_quote :: "string \<Rightarrow> rat \<Rightarrow> rat \<Rightarrow> int \<Rightarrow> PaperBroker \<Rightarrow> PaperBroker \<times> PaperFill list res" where
  "on_quote symbol bid ask latency_ms b =
     (case dget (pb_positions b) symbol of
        None \<Rightarrow> (b, Inr [])
      | Some p \<Rightarrow>
          (if po_closed p then (b, Inr [])
           else if bid \<le> po_stop_loss p then
             (case close_qty (po_remaining_qty p) bid latency_ms ''STOP_LOSS'' (b, p) of
                (s, Inl e) \<Rightarrow> (store_position symbol s, Inl e)
              | (s, Inr f) \<Rightarrow> (store_position symbol (fst s, (snd s)\<lparr>po_closed := True\<rparr>), Inr [f]))
           else
             (case tp_loop bid latency_ms (zip [0..<length (po_take_profits p)] (po_take_profits p)) (b, p) [] of
                (s, Inl e) \<Rightarrow> (store_position symbol s, Inl e)
              | (s, Inr fs) \<Rightarrow>
                  (store_position symbol (if po_remaining_qty (snd s) \<le> 0 then (fst s, (snd s)\<lparr>po_closed := True\<rparr>) else s), Inr fs))))"

section \<open>Closing takes exactly what was asked, from one strategy\<close>

definition same_lot :: "StrategyAllocationLot \<Rightarrow> StrategyAllocationLot \<Rightarrow> bool" where
  "same_lot l l' \<longleftrightarrow> sl_lot_id l' = sl_lot_id l \<and> sl_strategy_id l' = sl_strategy_id l \<and> sl_symbol l' = sl_symbol l \<and> sl_side l' = sl_side l"

definition owned :: "string \<Rightarrow> string \<Rightarrow> PositionSide \<Rightarrow> StrategyAllocationLot \<Rightarrow> bool" where
  "owned strategy_id symbol side l \<longleftrightarrow> sl_strategy_id l = strategy_id \<and> sl_symbol l = upper symbol \<and> sl_side l = side"

lemma is_open_lot_owned: "is_open_lot st sy sd l \<longleftrightarrow> owned st sy sd l \<and> 0 < sl_quantity l"
  by (auto simp: is_open_lot_def owned_def)

lemma owned_same: "same_lot l l' \<Longrightarrow> owned st sy sd l' = owned st sy sd l"
  by (simp add: same_lot_def owned_def)

text \<open>What a walk over the lots does to each of them.\<close>

definition lot_step :: "(StrategyAllocationLot \<Rightarrow> bool) \<Rightarrow> StrategyAllocationLot \<Rightarrow> StrategyAllocationLot \<Rightarrow> bool" where
  "lot_step mine l l' \<longleftrightarrow> (\<not> mine l \<longrightarrow> l' = l) \<and> same_lot l l' \<and> (0 \<le> sl_quantity l \<longrightarrow> 0 \<le> sl_quantity l') \<and>
     (0 < sl_quantity l' \<longrightarrow> 0 < sl_quantity l)"

lemma lot_step_refl [simp]: "lot_step mine l l"
  by (simp add: lot_step_def same_lot_def)

lemma close_lot_step:
  "0 < sl_quantity l \<Longrightarrow> c \<le> sl_quantity l \<Longrightarrow> mine l \<Longrightarrow> lot_step mine l (fst (close_lot sd price tot fee fund c l))"
  by (auto simp: close_lot_def lot_step_def same_lot_def Let_def)

lemma close_walk_steps:
  assumes "close_walk (is_open_lot st sy sd) (close_lot sd price tot fee fund) ls left r = (ls', left', r')"
  shows "list_all2 (lot_step (owned st sy sd)) ls ls'"
  using assms
proof (induction ls arbitrary: left r ls')
  case (Cons l ls)
  have refl: "list_all2 (lot_step (owned st sy sd)) xs xs" for xs by (simp add: list_all2_refl)
  show ?case
  proof (cases "left \<le> 0 \<or> \<not> is_open_lot st sy sd l")
    case True
    with Cons refl show ?thesis by (auto split: if_splits prod.splits)
  next
    case False
    then have "lot_step (owned st sy sd) l (fst (close_lot sd price tot fee fund (min (sl_quantity l) left) l))"
      by (intro close_lot_step) (auto simp: is_open_lot_owned)
    with False Cons show ?thesis by (auto simp: Let_def split: prod.splits)
  qed
qed simp

definition held :: "(StrategyAllocationLot \<Rightarrow> bool) \<Rightarrow> StrategyAllocationLot list \<Rightarrow> rat" where
  "held mine ls = sum_list (map sl_quantity (filter mine ls))"

lemma held_simps [simp]: "held mine [] = 0" "held mine (l # ls) = (if mine l then sl_quantity l else 0) + held mine ls"
  by (simp_all add: held_def)

definition grid_lots :: "int \<Rightarrow> StrategyAllocationLot list \<Rightarrow> bool" where
  "grid_lots q ls \<longleftrightarrow> (\<forall>l \<in> set ls. on_grid q (sl_quantity l) \<and> 0 \<le> sl_quantity l \<and> sl_quantity l \<le> 10 ^ 28 * 10 powi q)"

lemma held_nonneg: "grid_lots q ls \<Longrightarrow> 0 \<le> held mine ls"
  by (induction ls) (auto simp: grid_lots_def)

lemma dec_sub_grid:
  assumes "on_grid q x" "on_grid q y" "0 \<le> y" "y \<le> x" "x \<le> 10 ^ 28 * 10 powi q" shows "dec (x - y) = x - y"
  using assms by (intro dec_on_grid on_grid_diff) auto

lemma on_grid_min: "on_grid q x \<Longrightarrow> on_grid q y \<Longrightarrow> on_grid q (min x y)"
  by (simp add: min_def)

lemma close_walk_exact:
  assumes "close_walk (is_open_lot st sy sd) (close_lot sd price tot fee fund) ls left r = (ls', left', r')"
    and "grid_lots q ls" "on_grid q left" "0 \<le> left" "left \<le> 10 ^ 28 * 10 powi q"
  shows "left' = max 0 (left - held (owned st sy sd) ls) \<and> held (owned st sy sd) ls' = held (owned st sy sd) ls - (left - left')"
  using assms
proof (induction ls arbitrary: left r ls')
  case (Cons l ls)
  let ?m = "owned st sy sd"
  have gl: "on_grid q (sl_quantity l)" "0 \<le> sl_quantity l" "sl_quantity l \<le> 10 ^ 28 * 10 powi q" and gs: "grid_lots q ls"
    using Cons.prems(2) by (auto simp: grid_lots_def)
  note pos = held_nonneg [OF gs, of ?m]
  consider (finished) "left \<le> 0" | (skip) "0 < left" "\<not> is_open_lot st sy sd l" | (take) "0 < left" "is_open_lot st sy sd l" by fastforce
  then show ?case
  proof cases
    case finished
    with Cons.prems pos gl show ?thesis by auto
  next
    case skip
    then have z: "(if ?m l then sl_quantity l else 0) = 0" using gl by (auto simp: is_open_lot_owned)
    obtain ls2 where "close_walk (is_open_lot st sy sd) (close_lot sd price tot fee fund) ls left r = (ls2, left', r')" "ls' = l # ls2"
      using skip Cons.prems(1) by (auto split: prod.splits)
    with Cons.IH [OF this(1) gs Cons.prems(3-5)] z show ?thesis by simp
  next
    case take
    let ?c = "min (sl_quantity l) left" let ?l = "fst (close_lot sd price tot fee fund ?c l)"
    have m: "?m l" "0 < sl_quantity l" using take by (auto simp: is_open_lot_owned)
    have c: "on_grid q ?c" "0 \<le> ?c" "?c \<le> sl_quantity l" "?c \<le> left" using gl Cons.prems by (auto intro: on_grid_min)
    have dl: "dec (left - ?c) = left - ?c" by (rule dec_sub_grid [OF Cons.prems(3) c(1,2,4) Cons.prems(5)])
    have ql: "sl_quantity ?l = sl_quantity l - ?c" using dec_sub_grid [OF gl(1) c(1,2,3) gl(3)] by (simp add: close_lot_def Let_def)
    have ml: "?m ?l" using m by (simp add: close_lot_def owned_def Let_def)
    obtain ls2 r2 where w: "close_walk (is_open_lot st sy sd) (close_lot sd price tot fee fund) ls (left - ?c) r2 = (ls2, left', r')" "ls' = ?l # ls2"
      using take Cons.prems(1) dl by (auto simp: Let_def not_le split: prod.splits)
    have "left - ?c \<le> 10 ^ 28 * 10 powi q" "on_grid q (left - ?c)" "0 \<le> left - ?c"
      using c Cons.prems by (auto intro: on_grid_diff)
    note ih = Cons.IH [OF w(1) gs this(2,3,1)]
    show ?thesis using ih m ml w(2) ql pos by (auto simp: min_def)
  qed
qed simp

lemma held_open:
  assumes "grid_lots q ls" shows "sum_list (map sl_quantity (open_lots st sy sd ls)) = held (owned st sy sd) ls"
  using assms by (induction ls) (auto simp: open_lots_def is_open_lot_owned grid_lots_def)

lemma held_le: "grid_lots q ls \<Longrightarrow> held mine ls \<le> sum_list (map sl_quantity ls)"
  by (induction ls) (auto simp: grid_lots_def)

lemma grid_lots_part:
  "grid_lots q ls \<Longrightarrow> sum_list (map abs (map sl_quantity (filter P ls))) \<le> sum_list (map sl_quantity ls)"
  by (induction ls) (auto simp: grid_lots_def)

text \<open>
  C21: a close takes exactly the asked quantity from the open lots of one strategy. For quantities on a common grid whose total has at most 28 digits, a successful
  close lowers the strategy's holding on that side of the symbol by exactly the closed quantity, changes no lot of any
  other strategy, symbol or side, and leaves no lot negative.
\<close>

theorem close_exact_and_isolated:
  assumes "close_position st sy side qty price fee fund b = (b', Inr pnl)" "parse_side side = Inr sd"
    and "grid_lots q (sb_lots b)" "on_grid q qty" "sum_list (map sl_quantity (sb_lots b)) \<le> 10 ^ 28 * 10 powi q"
  shows "held (owned st sy sd) (sb_lots b') = held (owned st sy sd) (sb_lots b) - qty \<and>
    list_all2 (\<lambda>l l'. (\<not> owned st sy sd l \<longrightarrow> l' = l) \<and> same_lot l l' \<and> 0 \<le> sl_quantity l') (sb_lots b) (sb_lots b')"
proof -
  let ?m = "owned st sy sd" let ?ls = "sb_lots b"
  have sum: "dsum (map sl_quantity (open_lots st sy sd ?ls)) = held ?m ?ls"
  proof -
    have "sum_list (map abs (map sl_quantity (open_lots st sy sd ?ls))) \<le> 10 ^ 28 * 10 powi q"
      using grid_lots_part [OF assms(3)] assms(5) unfolding open_lots_def by (rule order_trans)
    then have "dsum (map sl_quantity (open_lots st sy sd ?ls)) = sum_list (map sl_quantity (open_lots st sy sd ?ls))"
      using assms(3) by (intro dsum_exact [of _ q]) (auto simp: grid_lots_def open_lots_def)
    then show ?thesis using held_open [OF assms(3)] by simp
  qed
  have ok: "0 < qty" "qty \<le> held ?m ?ls"
    using assms(1,2) by (auto simp: close_position_def sum split: if_splits prod.splits)
  obtain left r where w: "close_walk (is_open_lot st sy sd) (close_lot sd price qty fee fund) ?ls qty 0 = (sb_lots b', left, r)"
    using assms(1,2) ok by (auto simp: close_position_def sum split: if_splits prod.splits)
  have "qty \<le> 10 ^ 28 * 10 powi q" using ok(2) held_le [OF assms(3), of ?m] assms(5) by linarith
  with close_walk_exact [OF w assms(3,4)] ok have "held ?m (sb_lots b') = held ?m ?ls - qty" by simp
  moreover have "list_all2 (\<lambda>l l'. (\<not> ?m l \<longrightarrow> l' = l) \<and> same_lot l l' \<and> 0 \<le> sl_quantity l') ?ls (sb_lots b')"
    using close_walk_steps [OF w] assms(3)
    by (auto simp: lot_step_def grid_lots_def list_all2_conv_all_nth)
  ultimately show ?thesis by blast
qed

theorem close_exact_and_isolated_witness:
  "\<exists>b' pnl. close_position ''s1'' ''BTC'' ''LONG'' 2 10 0 0
      \<lparr>sb_netting_policy = FIFO_PER_STRATEGY, sb_hedging_supported = False, sb_ownership_transfer_allowed = False,
       sb_lots = [\<lparr>sl_lot_id = ''l1'', sl_strategy_id = ''s1'', sl_symbol = ''BTC'', sl_side = LONG, sl_quantity = 5, sl_entry_price = 9,
         sl_source_order_id = ''o'', sl_source_fill_id = ''f'', sl_fees = 0, sl_funding = 0, sl_realized_pnl = 0\<rparr>]\<rparr> = (b', Inr pnl) \<and>
     held (owned ''s1'' ''BTC'' LONG) (sb_lots b') = 3"
proof -
  let ?l = "\<lparr>sl_lot_id = ''l1'', sl_strategy_id = ''s1'', sl_symbol = ''BTC'', sl_side = LONG, sl_quantity = 5, sl_entry_price = 9,
         sl_source_order_id = ''o'', sl_source_fill_id = ''f'', sl_fees = 0, sl_funding = 0, sl_realized_pnl = 0\<rparr>"
  let ?b = "\<lparr>sb_netting_policy = FIFO_PER_STRATEGY, sb_hedging_supported = False, sb_ownership_transfer_allowed = False, sb_lots = [?l]\<rparr>"
  have u: "upper ''BTC'' = ''BTC''" "upper ''LONG'' = ''LONG''" by code_simp+
  have p: "parse_side ''LONG'' = Inr LONG" by (simp add: parse_side_def u)
  have d: "dec 5 = 5" using dec.rnd_of_int [of 5] by simp
  obtain b' pnl where c: "close_position ''s1'' ''BTC'' ''LONG'' 2 10 0 0 ?b = (b', Inr pnl)"
    by (simp add: close_position_def p open_lots_def is_open_lot_def u dsum_def d close_lot_def Let_def)
  have g: "on_grid 0 5" "on_grid 0 2" by (auto simp: on_grid_def intro: exI [of _ 5] exI [of _ 2])
  have "held (owned ''s1'' ''BTC'' LONG) (sb_lots b') = held (owned ''s1'' ''BTC'' LONG) (sb_lots ?b) - 2"
    using close_exact_and_isolated [OF c p, of 0] g by (simp add: grid_lots_def)
  then show ?thesis using c by (simp add: owned_def u)
qed

section \<open>No opposing lots without hedging\<close>

definition unhedged :: "StrategySleeveBook \<Rightarrow> bool" where
  "unhedged b \<longleftrightarrow> \<not> sb_hedging_supported b \<and>
     (\<forall>l \<in> set (sb_lots b). \<forall>l' \<in> set (sb_lots b). sl_symbol l = sl_symbol l' \<and> 0 < sl_quantity l \<and> 0 < sl_quantity l' \<longrightarrow> sl_side l = sl_side l')"

datatype sleeve_op =
    AllocateFill string string string string rat rat string string rat rat
  | ClosePosition string string string rat rat rat rat
  | TransferOwnership string string string

fun sleeve_step :: "sleeve_op \<Rightarrow> StrategySleeveBook \<Rightarrow> StrategySleeveBook" where
  "sleeve_step (AllocateFill i st sy sd q p so sf fee fu) b = fst (allocate_fill i st sy sd q p so sf fee fu b)"
| "sleeve_step (ClosePosition st sy sd q p fee fu) b = fst (close_position st sy sd q p fee fu b)"
| "sleeve_step (TransferOwnership i f t) b = fst (transfer_ownership i f t b)"

lemma unhedged_image:
  assumes "unhedged b" "sb_hedging_supported b' = sb_hedging_supported b"
    and "\<And>l'. l' \<in> set (sb_lots b') \<Longrightarrow> 0 < sl_quantity l' \<Longrightarrow>
      \<exists>l \<in> set (sb_lots b). 0 < sl_quantity l \<and> sl_symbol l' = sl_symbol l \<and> sl_side l' = sl_side l"
  shows "unhedged b'"
  using assms unfolding unhedged_def by metis

lemma unhedged_close: "unhedged b \<Longrightarrow> unhedged (fst (close_position st sy side q p fee fu b))"
proof -
  assume b: "unhedged b"
  show ?thesis
  proof (cases "fst (close_position st sy side q p fee fu b) = b")
    case False
    then obtain sd lots left r where
      w: "close_walk (is_open_lot st sy sd) (close_lot sd p q fee fu) (sb_lots b) q 0 = (lots, left, r)" and
      e: "fst (close_position st sy side q p fee fu b) = b\<lparr>sb_lots := lots\<rparr>"
      by (auto simp: close_position_def split: sum.splits if_splits prod.splits)
    show ?thesis unfolding e
    proof (rule unhedged_image [OF b])
      fix l' assume "l' \<in> set (sb_lots (b\<lparr>sb_lots := lots\<rparr>))" "0 < sl_quantity l'"
      with close_walk_steps [OF w] show "\<exists>l \<in> set (sb_lots b). 0 < sl_quantity l \<and> sl_symbol l' = sl_symbol l \<and> sl_side l' = sl_side l"
        by (auto simp: list_all2_conv_all_nth lot_step_def same_lot_def in_set_conv_nth) (metis nth_mem)
    qed simp
  qed (use b in simp)
qed

lemma set_owner_mem: "l' \<in> set (set_owner i t ls) \<Longrightarrow> \<exists>l \<in> set ls. sl_quantity l' = sl_quantity l \<and> sl_symbol l' = sl_symbol l \<and> sl_side l' = sl_side l"
  by (induction ls) (auto split: if_splits)

lemma opposite_iff: "x = opposite y \<longleftrightarrow> x \<noteq> y"
  by (cases x; cases y) auto

lemma unhedged_allocate:
  assumes "unhedged b" shows "unhedged (fst (allocate_fill i st sy side q p so sf fee fu b))"
proof (cases "fst (allocate_fill i st sy side q p so sf fee fu b) = b")
  case False
  then have g: "\<not> (st = [] \<or> sy = [] \<or> so = [] \<or> sf = [])" "\<not> (q \<le> 0 \<or> p \<le> 0)" by (auto simp only: allocate_fill_def if_True if_False fst_conv simp_thms split: if_split_asm)
  obtain s where s: "parse_side side = Inr s" using False g by (cases "parse_side side") (simp_all add: allocate_fill_def)
  have h: "\<not> (\<not> sb_hedging_supported b \<and> hedge_conflict sy s (sb_lots b))" using False g s by (auto simp: allocate_fill_def)
  define lot where "lot = \<lparr>sl_lot_id = i, sl_strategy_id = st, sl_symbol = upper sy, sl_side = s, sl_quantity = q,
                        sl_entry_price = p, sl_source_order_id = so, sl_source_fill_id = sf,
                        sl_fees = fee, sl_funding = fu, sl_realized_pnl = 0\<rparr>"
  have e: "fst (allocate_fill i st sy side q p so sf fee fu b) = b\<lparr>sb_lots := sb_lots b @ [lot]\<rparr>"
    unfolding allocate_fill_def s Let_def lot_def by (simp only: g h if_False sum.case fst_conv)
  have l: "sl_side lot = s" "sl_symbol lot = upper sy" by (simp_all add: lot_def)
  have new: "sl_side x = sl_side lot" if "x \<in> set (sb_lots b)" "sl_symbol x = sl_symbol lot" "0 < sl_quantity x" for x
  proof -
    have "\<not> hedge_conflict sy s (sb_lots b)" using h assms by (simp add: unhedged_def)
    then have "sl_side x \<noteq> opposite s" using that l by (auto simp: hedge_conflict_def list_ex_iff)
    then show ?thesis using l by (simp add: opposite_iff)
  qed
  have old: "sl_side x = sl_side y" if "x \<in> set (sb_lots b)" "y \<in> set (sb_lots b)" "sl_symbol x = sl_symbol y" "0 < sl_quantity x" "0 < sl_quantity y" for x y
    using that assms unfolding unhedged_def by blast
  show ?thesis unfolding e unhedged_def
  proof (intro conjI ballI impI)
    show "\<not> sb_hedging_supported (b\<lparr>sb_lots := sb_lots b @ [lot]\<rparr>)" using assms by (simp add: unhedged_def)
    fix x y assume m: "x \<in> set (sb_lots (b\<lparr>sb_lots := sb_lots b @ [lot]\<rparr>))" "y \<in> set (sb_lots (b\<lparr>sb_lots := sb_lots b @ [lot]\<rparr>))"
      and q: "sl_symbol x = sl_symbol y \<and> 0 < sl_quantity x \<and> 0 < sl_quantity y"
    have "x \<in> set (sb_lots b) \<or> x = lot" "y \<in> set (sb_lots b) \<or> y = lot" using m by auto
    then show "sl_side x = sl_side y" using q new [of x] new [of y] old [of x y] by (elim disjE) metis+
  qed
qed (use assms in simp)

interpretation sleeves: preserved sleeve_step unhedged
proof unfold_locales
  fix b op assume b: "unhedged b"
  show "unhedged (sleeve_step op b)"
  proof (cases op)
    case (TransferOwnership i f t)
    show ?thesis
    proof (cases "fst (transfer_ownership i f t b) = b")
      case False
      then have e: "fst (transfer_ownership i f t b) = b\<lparr>sb_lots := set_owner i t (sb_lots b)\<rparr>"
        by (auto simp: transfer_ownership_def split: option.splits if_splits)
      show ?thesis unfolding TransferOwnership sleeve_step.simps e
        by (rule unhedged_image [OF b]) (use set_owner_mem in fastforce)+
    qed (simp add: TransferOwnership b)
  qed (simp_all add: b unhedged_allocate unhedged_close)
qed

text \<open>Without hedging support a book never holds open lots on both sides of a symbol, for any strategies: after every sequence of fills, closes and
  transfers that starts from an empty book.
\<close>

theorem no_opposing_lots:
  assumes "sb_lots b = []" "\<not> sb_hedging_supported b"
    and "l \<in> set (sb_lots (fold sleeve_step ops b))" "l' \<in> set (sb_lots (fold sleeve_step ops b))"
    and "sl_symbol l = sl_symbol l'" "0 < sl_quantity l" "0 < sl_quantity l'"
  shows "sl_side l = sl_side l'"
proof -
  have "unhedged b" using assms(1,2) by (simp add: unhedged_def)
  from sleeves.run_I [OF this] assms(3-) show ?thesis unfolding unhedged_def by blast
qed

theorem no_opposing_lots_witness:
  "\<exists>l l'. sb_lots (fold sleeve_step [AllocateFill ''l1'' ''s1'' ''BTC'' ''LONG'' 1 10 ''o1'' ''f1'' 0 0,
        AllocateFill ''l2'' ''s2'' ''BTC'' ''SHORT'' 1 10 ''o2'' ''f2'' 0 0, AllocateFill ''l3'' ''s2'' ''BTC'' ''LONG'' 2 10 ''o3'' ''f3'' 0 0]
      \<lparr>sb_netting_policy = FIFO_PER_STRATEGY, sb_hedging_supported = False, sb_ownership_transfer_allowed = False, sb_lots = []\<rparr>) = [l, l'] \<and>
     sl_side l = sl_side l'"
proof -
  let ?ops = "[AllocateFill ''l1'' ''s1'' ''BTC'' ''LONG'' 1 10 ''o1'' ''f1'' 0 0,
        AllocateFill ''l2'' ''s2'' ''BTC'' ''SHORT'' 1 10 ''o2'' ''f2'' 0 0, AllocateFill ''l3'' ''s2'' ''BTC'' ''LONG'' 2 10 ''o3'' ''f3'' 0 0]"
  let ?b = "\<lparr>sb_netting_policy = FIFO_PER_STRATEGY, sb_hedging_supported = False, sb_ownership_transfer_allowed = False, sb_lots = []\<rparr>"
  have u: "upper ''BTC'' = ''BTC''" "upper ''LONG'' = ''LONG''" "upper ''SHORT'' = ''SHORT''" by code_simp+
  have p: "parse_side ''LONG'' = Inr LONG" "parse_side ''SHORT'' = Inr SHORT" by (simp_all add: parse_side_def u)
  obtain l l' where e: "sb_lots (fold sleeve_step ?ops ?b) = [l, l']" and q: "sl_symbol l = sl_symbol l'" "0 < sl_quantity l" "0 < sl_quantity l'"
    by (simp add: allocate_fill_def p u hedge_conflict_def Let_def)
  have "sl_side l = sl_side l'" by (rule no_opposing_lots [of ?b l ?ops l']) (simp_all only: e q, simp_all)
  with e show ?thesis by blast
qed

section \<open>The paper broker never oversells\<close>

definition position_ok :: "PaperPosition \<Rightarrow> bool" where
  "position_ok p \<longleftrightarrow> 0 \<le> po_remaining_qty p \<and> po_remaining_qty p \<le> po_qty p \<and> dec (po_qty p) = po_qty p \<and>
     (po_closed p \<longrightarrow> po_remaining_qty p = 0) \<and> distinct (po_triggered_tps p)"

lemma close_qty_ok:
  assumes "close_qty qty bid lat reason (b, p) = (s, r)" "qty \<le> po_remaining_qty p" "position_ok p" "\<not> po_closed p"
  shows "position_ok (snd s)" "\<not> po_closed (snd s)" "r \<noteq> Inl (RuntimeError e)"
    "po_triggered_tps (snd s) = po_triggered_tps p" "is_ok r \<Longrightarrow> po_remaining_qty (snd s) = dec (po_remaining_qty p - qty)"
proof -
  have "dec (po_remaining_qty p - qty) \<le> po_qty p" if "0 < qty" using assms(3) that by (intro dec.R_le_fix) (auto simp: position_ok_def)
  moreover have "0 \<le> dec (po_remaining_qty p - qty)" using assms(2) by simp
  ultimately show "position_ok (snd s)" "\<not> po_closed (snd s)" "r \<noteq> Inl (RuntimeError e)" "po_triggered_tps (snd s) = po_triggered_tps p"
      "is_ok r \<Longrightarrow> po_remaining_qty (snd s) = dec (po_remaining_qty p - qty)"
    using assms by (auto simp: close_qty_def paper_fill_def position_ok_def Let_def split: if_splits)
qed

lemma tp_loop_ok:
  assumes "tp_loop bid lat levels (b, p) gen = (s, r)" "position_ok p" "\<not> po_closed p"
  shows "position_ok (snd s) \<and> \<not> po_closed (snd s) \<and> r \<noteq> Inl (RuntimeError e)"
  using assms
proof (induction levels arbitrary: b p gen)
  case (Cons il levels)
  obtain i level where il: "il = (i, level)" by (cases il)
  show ?case
  proof (cases "i \<in> set (po_triggered_tps p) \<or> bid < level \<or> po_remaining_qty p \<le> 0")
    case True
    with Cons il show ?thesis by auto
  next
    case False
    let ?p = "p\<lparr>po_triggered_tps := po_triggered_tps p @ [i]\<rparr>"
    let ?q = "min (if i = 2 then po_remaining_qty ?p else dec (po_qty ?p * tp_fraction i)) (po_remaining_qty ?p)"
    have ok: "position_ok ?p" "\<not> po_closed ?p" using Cons.prems False by (auto simp: position_ok_def)
    obtain s1 r1 where c: "close_qty ?q bid lat (''TP'' @ [char_of (49 + i)]) (b, ?p) = (s1, r1)"
      by (cases "close_qty ?q bid lat (''TP'' @ [char_of (49 + i)]) (b, ?p)")
    note ok1 = close_qty_ok [OF c _ ok]
    show ?thesis
    proof (cases r1)
      case (Inl x)
      then show ?thesis using Cons.prems(1) False c ok1(1,2,3) by (auto simp: il Let_def)
    next
      case (Inr f)
      obtain b1 p1 where s1: "s1 = (b1, p1)" by (cases s1)
      have "tp_loop bid lat levels (b1, p1) (gen @ [f]) = (s, r)" using Cons.prems(1) False c Inr by (simp add: il Let_def s1)
      from Cons.IH [OF this] ok1(1,2) show ?thesis by (simp add: s1)
    qed
  qed
qed auto

text \<open>The paper broker never oversells. If the position of a symbol is consistent (its remainder lies between zero and its size, and is zero once it is closed), then after any
  quote it is consistent again, whether the call returns or raises; the check against a negative remainder never fires; and a
  quote at or below the stop that is filled closes the position completely.
\<close>

theorem paper_never_oversells:
  assumes "dget (pb_positions b) sy = Some p" "position_ok p" "on_quote sy bid ask lat b = (b', r)"
  shows "\<exists>p'. dget (pb_positions b') sy = Some p' \<and> position_ok p' \<and> r \<noteq> Inl (RuntimeError e) \<and>
    (is_ok r \<and> bid \<le> po_stop_loss p \<longrightarrow> po_closed p' \<and> po_remaining_qty p' = 0)"
proof (cases "po_closed p")
  case True
  then show ?thesis using assms by (auto simp: on_quote_def position_ok_def)
next
  case False
  show ?thesis
  proof (cases "bid \<le> po_stop_loss p")
    case True
    obtain s q where c: "close_qty (po_remaining_qty p) bid lat ''STOP_LOSS'' (b, p) = (s, q)"
      by (cases "close_qty (po_remaining_qty p) bid lat ''STOP_LOSS'' (b, p)")
    note ok = close_qty_ok [OF c order_refl assms(2) False]
    show ?thesis
    proof (cases q)
      case (Inl x)
      then show ?thesis using assms False True c ok by (auto simp: on_quote_def store_position_def)
    next
      case (Inr f)
      then have "po_remaining_qty (snd s) = 0" using ok(5) by simp
      then show ?thesis using assms False True c ok Inr by (auto simp: on_quote_def store_position_def position_ok_def)
    qed
  next
    case stop: False
    let ?lv = "zip [0..<length (po_take_profits p)] (po_take_profits p)"
    obtain s q where c: "tp_loop bid lat ?lv (b, p) [] = (s, q)" by (cases "tp_loop bid lat ?lv (b, p) []")
    note ok = tp_loop_ok [OF c assms(2) False]
    then show ?thesis using assms False stop c
      by (cases q) (auto simp: on_quote_def store_position_def position_ok_def)
  qed
qed

theorem paper_never_oversells_witness:
  "\<exists>p' b' r. on_quote ''BTC'' 90 91 5 \<lparr>pb_fee_bps = 0, pb_slippage_bps = 0, pb_fills = [],
       pb_positions = [(''BTC'', \<lparr>po_symbol = ''BTC'', po_qty = 2, po_entry_price = 100, po_stop_loss = 95, po_take_profits = [110, 120, 130],
         po_remaining_qty = 2, po_realized_pnl = 0, po_closed = False, po_triggered_tps = []\<rparr>)]\<rparr> = (b', r) \<and>
     dget (pb_positions b') ''BTC'' = Some p' \<and> po_closed p'"
proof -
  let ?p = "\<lparr>po_symbol = ''BTC'', po_qty = 2, po_entry_price = 100, po_stop_loss = 95, po_take_profits = [110, 120, 130],
         po_remaining_qty = 2, po_realized_pnl = 0, po_closed = False, po_triggered_tps = []\<rparr>"
  let ?b = "\<lparr>pb_fee_bps = 0, pb_slippage_bps = 0, pb_fills = [], pb_positions = [(''BTC'', ?p)]\<rparr>"
  have ok: "position_ok ?p" using dec.rnd_of_int [of 2] by (simp add: position_ok_def)
  obtain b' r where q: "on_quote ''BTC'' 90 91 5 ?b = (b', r)" and r: "is_ok r"
    by (simp add: on_quote_def close_qty_def paper_fill_def Let_def)
  from paper_never_oversells [OF _ ok q] q r show ?thesis by auto
qed

end
