(* ===== verification/Order_Book.thy ===== *)
theory Order_Book
  imports Money
begin

text \<open>
  The local copy of an exchange's order book (\<open>backend/app/data/orderbook.py\<close>). A snapshot loads the book, deltas with
  consecutive update ids keep it current, a gap, a crossed book or a wrong checksum make it invalid until the next snapshot.
  Levels come as text; a text that \<open>Decimal\<close> refuses is \<open>None\<close>. Both \<open>dict\<close>s are dictionaries on the
  numerical value of the price, as \<open>Decimal\<close> keys are. The clock reading that an operation takes and the SHA-256 function
  are arguments. The property is a refinement: as long as the book is valid it is the exchange's book.
\<close>

section \<open>Numbers as text\<close>

text \<open>\<open>str(x.normalize())\<close> of a decimal: rounded to the context, trailing zeros removed, exponent notation where
  the decimal point would be far from the digits.\<close>

fun strip_zeros :: "nat \<Rightarrow> nat \<Rightarrow> int \<Rightarrow> nat \<times> int" where
  "strip_zeros 0 m e = (m, e)"
| "strip_zeros (Suc k) m e = (if m mod 10 = 0 then strip_zeros k (m div 10) (e + 1) else (m, e))"

definition decimal_str :: "nat \<Rightarrow> int \<Rightarrow> string" where
  "decimal_str m e =
     (let ds = nat_digits m; leftdigits = e + int (length ds);
          dotplace = (if e \<le> 0 \<and> leftdigits > -6 then leftdigits else 1);
          mantissa = (if dotplace \<le> 0 then ''0.'' @ replicate (nat (- dotplace)) (CHR ''0'') @ ds
                      else if int (length ds) \<le> dotplace then ds @ replicate (nat (dotplace - int (length ds))) (CHR ''0'')
                      else take (nat dotplace) ds @ ''.'' @ drop (nat dotplace) ds);
          x = leftdigits - dotplace
      in if x = 0 then mantissa else mantissa @ ''E'' @ (if x > 0 then ''+'' else []) @ int_str x)"

definition normalize_str :: "rat \<Rightarrow> string" where
  "normalize_str x =
     (if x = 0 then ''0''
      else let y = dec x; e = sexp 10 y - 27; (m, e') = strip_zeros 28 (nat \<lfloor>\<bar>y\<bar> * 10 powi (- e)\<rfloor>) e
           in (if y < 0 then ''-'' else []) @ decimal_str m e')"

section \<open>The book\<close>

record LocalOrderBook =
  ob_last_update_id :: "int option"
  ob_bids :: "(rat, rat) dict"
  ob_asks :: "(rat, rat) dict"
  ob_valid :: bool
  ob_gap_count :: nat
  ob_resync_count :: nat
  ob_stale_event_count :: nat
  ob_last_update_at :: "rat option"
  ob_checksum_verified :: "bool option"

definition new_book :: LocalOrderBook where
  "new_book = \<lparr>ob_last_update_id = None, ob_bids = [], ob_asks = [], ob_valid = False, ob_gap_count = 0, ob_resync_count = 0,
     ob_stale_event_count = 0, ob_last_update_at = None, ob_checksum_verified = None\<rparr>"

type_synonym level = "rat option \<times> rat option"

text \<open>The dictionary comprehension of a snapshot side, and the update loop of a delta side, which keeps what it has done when a
  level raises.\<close>

fun snapshot_side :: "(rat, rat) dict \<Rightarrow> level list \<Rightarrow> (rat, rat) dict res" where
  "snapshot_side d [] = Inr d"
| "snapshot_side d ((p, q) # ls) =
     (case q of None \<Rightarrow> Inl InvalidOperation
      | Some y \<Rightarrow> if y > 0 then (case p of None \<Rightarrow> Inl InvalidOperation | Some x \<Rightarrow> snapshot_side (dset x y d) ls)
                 else snapshot_side d ls)"

fun delta_side :: "(rat, rat) dict \<Rightarrow> level list \<Rightarrow> (rat, rat) dict \<times> pyerr option" where
  "delta_side d [] = (d, None)"
| "delta_side d ((p, q) # ls) =
     (case (p, q) of (Some x, Some y) \<Rightarrow> delta_side (if y = 0 then ddel x d else dset x y d) ls
      | _ \<Rightarrow> (d, Some InvalidOperation))"

definition max_key :: "(rat, rat) dict \<Rightarrow> rat" where
  "max_key d = argmax id (map fst d)"

definition min_key :: "(rat, rat) dict \<Rightarrow> rat" where
  "min_key d = argmin id (map fst d)"

definition crossed :: "LocalOrderBook \<Rightarrow> bool" where
  "crossed b \<longleftrightarrow> ob_bids b \<noteq> [] \<and> ob_asks b \<noteq> [] \<and> max_key (ob_bids b) \<ge> min_key (ob_asks b)"

definition load_snapshot :: "rat \<Rightarrow> int \<Rightarrow> level list \<Rightarrow> level list \<Rightarrow> LocalOrderBook \<Rightarrow> LocalOrderBook \<times> unit res" where
  "load_snapshot clock uid bids asks b0 =
     (let b1 = b0\<lparr>ob_last_update_id := Some uid\<rparr> in
      case snapshot_side [] bids of Inl e \<Rightarrow> (b1, Inl e)
      | Inr bs \<Rightarrow>
        let b2 = b1\<lparr>ob_bids := bs\<rparr> in
        case snapshot_side [] asks of Inl e \<Rightarrow> (b2, Inl e)
        | Inr as \<Rightarrow>
          let b3 = b2\<lparr>ob_asks := as\<rparr> in
          if crossed b3 then (b3\<lparr>ob_valid := False\<rparr>, Inl (RuntimeError ''crossed book''))
          else (b3\<lparr>ob_valid := True, ob_resync_count := ob_resync_count b3 + 1, ob_last_update_at := Some clock\<rparr>, Inr ()))"

definition apply_levels :: "level list \<Rightarrow> level list \<Rightarrow> LocalOrderBook \<Rightarrow> LocalOrderBook \<times> pyerr option" where
  "apply_levels bids asks b =
     (case delta_side (ob_bids b) bids of
        (bs, Some e) \<Rightarrow> (b\<lparr>ob_bids := bs\<rparr>, Some e)
      | (bs, None) \<Rightarrow>
        (case delta_side (ob_asks b) asks of (as, r) \<Rightarrow> (b\<lparr>ob_bids := bs, ob_asks := as\<rparr>, r)))"

definition apply_delta ::
  "rat \<Rightarrow> int \<Rightarrow> int \<Rightarrow> level list \<Rightarrow> level list \<Rightarrow> LocalOrderBook \<Rightarrow> LocalOrderBook \<times> bool res" where
  "apply_delta clock first_id last_id bids asks b =
     (case ob_last_update_id b of
        None \<Rightarrow> (b, Inl (RuntimeError ''snapshot required''))
      | Some uid \<Rightarrow>
        if \<not> ob_valid b then (b, Inl (RuntimeError ''snapshot required''))
        else if last_id \<le> uid then (b\<lparr>ob_stale_event_count := ob_stale_event_count b + 1\<rparr>, Inr False)
        else if \<not> (first_id \<le> uid + 1 \<and> uid + 1 \<le> last_id)
        then (b\<lparr>ob_gap_count := ob_gap_count b + 1, ob_valid := False\<rparr>, Inl (RuntimeError ''sequence gap''))
        else (case apply_levels bids asks b of
                (b1, Some e) \<Rightarrow> (b1, Inl e)
              | (b1, None) \<Rightarrow>
                let b2 = b1\<lparr>ob_last_update_id := Some last_id\<rparr> in
                if crossed b2 then (b2\<lparr>ob_valid := False\<rparr>, Inl (RuntimeError ''crossed book''))
                else (b2\<lparr>ob_last_update_at := Some clock\<rparr>, Inr True)))"

definition side_items :: "bool \<Rightarrow> (rat, rat) dict \<Rightarrow> (rat \<times> rat) list" where
  "side_items reverse d = (let s = sort_key fst d in if reverse then rev s else s)"

definition canonical_checksum_payload :: "int option \<Rightarrow> LocalOrderBook \<Rightarrow> string res" where
  "canonical_checksum_payload depth b =
     (let bids = side_items True (ob_bids b); asks = side_items False (ob_asks b);
          part = (\<lambda>side (p, q). side @ '':'' @ normalize_str p @ '':'' @ normalize_str q);
          payload = (\<lambda>bs as. join ''|'' (map (part ''B'') bs @ map (part ''A'') as))
      in case depth of
           None \<Rightarrow> Inr (payload bids asks)
         | Some n \<Rightarrow> if n \<le> 0 then Inl (ValueError ''depth must be positive'')
                    else Inr (payload (take (nat n) bids) (take (nat n) asks)))"

definition verify_exchange_checksum ::
  "(string \<Rightarrow> string) \<Rightarrow> string option \<Rightarrow> int option \<Rightarrow> LocalOrderBook \<Rightarrow> LocalOrderBook \<times> bool res" where
  "verify_exchange_checksum sha256_hex expected_hex depth b =
     (case expected_hex of
        None \<Rightarrow> (b\<lparr>ob_checksum_verified := None\<rparr>, Inr True)
      | Some hex \<Rightarrow>
        if \<not> ob_valid b then (b, Inl (RuntimeError ''cannot checksum INVALID order book''))
        else (case canonical_checksum_payload depth b of
                Inl e \<Rightarrow> (b, Inl e)
              | Inr payload \<Rightarrow>
                let good = (sha256_hex payload = lower hex); b1 = b\<lparr>ob_checksum_verified := Some good\<rparr>
                in if good then (b1, Inr True)
                   else (b1\<lparr>ob_valid := False\<rparr>, Inl (RuntimeError ''exchange checksum mismatch; resync required''))))"

definition require_valid :: "LocalOrderBook \<Rightarrow> LocalOrderBook res" where
  "require_valid b = (if ob_valid b then Inr b else Inl (RuntimeError ''order book is INVALID; resync required''))"

definition age_seconds :: "rat \<Rightarrow> LocalOrderBook \<Rightarrow> rat option res" where
  "age_seconds current b =
     (case ob_last_update_at b of
        None \<Rightarrow> Inr None
      | Some t \<Rightarrow> if current < t then Inl (RuntimeError ''monotonic clock moved backwards'') else Inr (Some (flt (current - t))))"

definition best_bid :: "LocalOrderBook \<Rightarrow> rat option" where
  "best_bid b = (if ob_bids b = [] then None else Some (max_key (ob_bids b)))"

definition best_ask :: "LocalOrderBook \<Rightarrow> rat option" where
  "best_ask b = (if ob_asks b = [] then None else Some (min_key (ob_asks b)))"

definition spread :: "LocalOrderBook \<Rightarrow> rat option" where
  "spread b = (case (best_bid b, best_ask b) of (Some x, Some y) \<Rightarrow> Some (dec (y - x)) | _ \<Rightarrow> None)"

definition locked :: "LocalOrderBook \<Rightarrow> bool" where
  "locked b \<longleftrightarrow> ob_bids b \<noteq> [] \<and> ob_asks b \<noteq> [] \<and> best_bid b = best_ask b"

definition depth_imbalance :: "LocalOrderBook \<Rightarrow> rat" where
  "depth_imbalance b =
     (let bid = dsum (map snd (ob_bids b)); ask = dsum (map snd (ob_asks b)); total = dec (bid + ask)
      in if total = 0 then 0 else dec (dec (bid - ask) / total))"

section \<open>The exchange's side\<close>

text \<open>
  The specification: the exchange's book after update \<open>k\<close> is a pair of maps \<open>E k\<close>. A snapshot shows it, a delta with the
  ids \<open>f..l\<close> takes every book from \<open>E (f - 1)\<close> on to \<open>E l\<close>, as it carries absolute quantities.
\<close>

type_synonym book_map = "(rat \<rightharpoonup> rat) \<times> (rat \<rightharpoonup> rat)"

definition texts :: "(rat \<times> rat) list \<Rightarrow> level list" where
  "texts ls = map (\<lambda>(p, q). (Some p, Some q)) ls"

definition set_level :: "rat \<times> rat \<Rightarrow> (rat \<rightharpoonup> rat) \<Rightarrow> (rat \<rightharpoonup> rat)" where
  "set_level pq m = m(fst pq := (if snd pq = 0 then None else Some (snd pq)))"

definition snapshot_map :: "(rat \<times> rat) list \<Rightarrow> (rat \<rightharpoonup> rat)" where
  "snapshot_map ls = map_of (rev (filter (\<lambda>(p, q). q > 0) ls))"

definition uncrossed :: "book_map \<Rightarrow> bool" where
  "uncrossed e \<longleftrightarrow> (\<forall>p \<in> dom (fst e). \<forall>q \<in> dom (snd e). p < q)"

datatype book_event =
    Snapshot rat int "(rat \<times> rat) list" "(rat \<times> rat) list"
  | Delta rat int int "(rat \<times> rat) list" "(rat \<times> rat) list"
  | Checksum "string option" "int option"

fun book_step :: "(string \<Rightarrow> string) \<Rightarrow> book_event \<Rightarrow> LocalOrderBook \<Rightarrow> LocalOrderBook" where
  "book_step sha (Snapshot t uid bids asks) b = fst (load_snapshot t uid (texts bids) (texts asks) b)"
| "book_step sha (Delta t f l bids asks) b = fst (apply_delta t f l (texts bids) (texts asks) b)"
| "book_step sha (Checksum h d) b = fst (verify_exchange_checksum sha h d b)"

fun faithful :: "(int \<Rightarrow> book_map) \<Rightarrow> book_event \<Rightarrow> bool" where
  "faithful E (Snapshot t uid bids asks) \<longleftrightarrow> (snapshot_map bids, snapshot_map asks) = E uid"
| "faithful E (Delta t f l bids asks) \<longleftrightarrow>
     (\<forall>k. f - 1 \<le> k \<and> k < l \<longrightarrow> (fold set_level bids (fst (E k)), fold set_level asks (snd (E k))) = E l)"
| "faithful E (Checksum h d) \<longleftrightarrow> True"

section \<open>The operations on plain levels\<close>

lemma snapshot_side_texts:
  "\<exists>d'. snapshot_side d (texts ls) = Inr d' \<and> map_of d' = map_of d ++ snapshot_map ls"
proof (induction ls arbitrary: d)
  case (Cons l ls)
  obtain p q where l: "l = (p, q)" by (cases l)
  show ?case
  proof (cases "q > 0")
    case True
    obtain d' where "snapshot_side (dset p q d) (texts ls) = Inr d'" "map_of d' = map_of (dset p q d) ++ snapshot_map ls"
      using Cons by blast
    moreover have "map_of (dset p q d) ++ snapshot_map ls = map_of d ++ snapshot_map (l # ls)"
      using True by (simp add: l snapshot_map_def update_conv' map_add_upd_left)
    ultimately show ?thesis using True by (simp add: l texts_def)
  next
    case False
    then show ?thesis using Cons [of d] by (simp add: l texts_def snapshot_map_def)
  qed
qed (simp add: texts_def snapshot_map_def)

lemma delta_side_texts:
  "\<exists>d'. delta_side d (texts ls) = (d', None) \<and> map_of d' = fold set_level ls (map_of d)"
proof (induction ls arbitrary: d)
  case (Cons l ls)
  obtain p q where l: "l = (p, q)" by (cases l)
  have "map_of (if q = 0 then ddel p d else dset p q d) = set_level l (map_of d)"
    by (rule ext) (simp add: l set_level_def)
  then show ?case using Cons [of "if q = 0 then ddel p d else dset p q d"] by (simp add: l texts_def)
qed (simp add: texts_def)

lemma max_key_less_min_key:
  assumes "d \<noteq> []" "e \<noteq> []"
  shows "max_key d < min_key e \<longleftrightarrow> (\<forall>p \<in> fst ` set d. \<forall>q \<in> fst ` set e. p < q)"
proof -
  have "max_key d \<in> fst ` set d" "min_key e \<in> fst ` set e"
    using argmax_in [of "map fst d" id] argmin_in [of "map fst e" id] assms by (auto simp: max_key_def min_key_def)
  moreover have "p \<le> max_key d" if "p \<in> fst ` set d" for p
    using argmax_max [of p "map fst d" id] that by (simp add: max_key_def)
  moreover have "min_key e \<le> q" if "q \<in> fst ` set e" for q
    using argmin_min [of q "map fst e" id] that by (simp add: min_key_def)
  ultimately show ?thesis by (meson order_le_less_trans order_less_le_trans)
qed

lemma not_crossed_iff: "\<not> crossed b \<longleftrightarrow> uncrossed (map_of (ob_bids b), map_of (ob_asks b))"
proof (cases "ob_bids b = [] \<or> ob_asks b = []")
  case False
  then have "\<not> crossed b \<longleftrightarrow> max_key (ob_bids b) < min_key (ob_asks b)" by (auto simp: crossed_def)
  then show ?thesis using False by (simp add: max_key_less_min_key uncrossed_def dom_map_of_conv_image_fst)
qed (auto simp: crossed_def uncrossed_def)

lemmas crossed_iff = not_crossed_iff [THEN arg_cong [where f = Not], simplified not_not]

text \<open>What the two loading operations do on parsed levels, in terms of the maps.\<close>

definition book_of :: "LocalOrderBook \<Rightarrow> book_map" where
  "book_of b = (map_of (ob_bids b), map_of (ob_asks b))"

lemma load_snapshot_plain:
  assumes "load_snapshot t uid (texts bids) (texts asks) b = (b', r)"
  shows "book_of b' = (snapshot_map bids, snapshot_map asks)" "ob_last_update_id b' = Some uid"
    "ob_valid b' \<longleftrightarrow> uncrossed (snapshot_map bids, snapshot_map asks)"
proof -
  obtain bs as where s: "snapshot_side [] (texts bids) = Inr bs" "snapshot_side [] (texts asks) = Inr as"
    and m: "map_of bs = snapshot_map bids" "map_of as = snapshot_map asks"
    using snapshot_side_texts [of "[]" bids] snapshot_side_texts [of "[]" asks] by auto
  show "book_of b' = (snapshot_map bids, snapshot_map asks)" "ob_last_update_id b' = Some uid"
    "ob_valid b' \<longleftrightarrow> uncrossed (snapshot_map bids, snapshot_map asks)"
    using assms by (auto simp: load_snapshot_def s Let_def book_of_def m crossed_iff split: if_splits)
qed

lemma apply_levels_plain:
  "\<exists>bs as. apply_levels (texts bids) (texts asks) b = (b\<lparr>ob_bids := bs, ob_asks := as\<rparr>, None) \<and>
     map_of bs = fold set_level bids (map_of (ob_bids b)) \<and> map_of as = fold set_level asks (map_of (ob_asks b))"
proof -
  obtain bs as where "delta_side (ob_bids b) (texts bids) = (bs, None)" "delta_side (ob_asks b) (texts asks) = (as, None)"
    "map_of bs = fold set_level bids (map_of (ob_bids b))" "map_of as = fold set_level asks (map_of (ob_asks b))"
    using delta_side_texts [of "ob_bids b" bids] delta_side_texts [of "ob_asks b" asks] by auto
  then show ?thesis by (auto simp: apply_levels_def)
qed

lemma apply_delta_contiguous:
  assumes "ob_last_update_id b = Some uid" "ob_valid b" "f \<le> uid + 1" "uid < l"
    and "apply_delta t f l (texts bids) (texts asks) b = (b', r)"
  shows "book_of b' = (fold set_level bids (fst (book_of b)), fold set_level asks (snd (book_of b)))"
    "ob_last_update_id b' = Some l" "ob_valid b' \<longleftrightarrow> uncrossed (book_of b')"
proof -
  obtain bs as where a: "apply_levels (texts bids) (texts asks) b = (b\<lparr>ob_bids := bs, ob_asks := as\<rparr>, None)"
    and m: "map_of bs = fold set_level bids (map_of (ob_bids b))" "map_of as = fold set_level asks (map_of (ob_asks b))"
    using apply_levels_plain by blast
  show "book_of b' = (fold set_level bids (fst (book_of b)), fold set_level asks (snd (book_of b)))"
    "ob_last_update_id b' = Some l" "ob_valid b' \<longleftrightarrow> uncrossed (book_of b')"
    using assms by (auto simp: apply_delta_def a Let_def book_of_def m crossed_iff split: if_splits)
qed

lemma apply_delta_other:
  assumes "ob_last_update_id b = None \<or> \<not> ob_valid b \<or> l \<le> the (ob_last_update_id b) \<or> the (ob_last_update_id b) + 1 < f"
    and "apply_delta t f l bids asks b = (b', r)"
  shows "book_of b' = book_of b" "ob_last_update_id b' = ob_last_update_id b" "ob_valid b' \<Longrightarrow> ob_valid b"
  using assms by (auto simp: apply_delta_def book_of_def split: option.splits if_splits)

lemma verify_checksum_keeps:
  assumes "verify_exchange_checksum sha h d b = (b', r)"
  shows "book_of b' = book_of b" "ob_last_update_id b' = ob_last_update_id b" "ob_valid b' \<Longrightarrow> ob_valid b"
  using assms by (auto simp: verify_exchange_checksum_def book_of_def Let_def split: option.splits sum.splits if_splits)

section \<open>Refinement\<close>

definition tracks :: "(int \<Rightarrow> book_map) \<Rightarrow> LocalOrderBook \<Rightarrow> bool" where
  "tracks E b \<longleftrightarrow> ob_valid b \<longrightarrow> (\<exists>uid. ob_last_update_id b = Some uid \<and> book_of b = E uid \<and> uncrossed (book_of b))"

lemma book_step_tracks:
  assumes "tracks E b" "faithful E ev" shows "tracks E (book_step sha ev b)"
proof (cases ev)
  case (Snapshot t uid bids asks)
  obtain b' r where "load_snapshot t uid (texts bids) (texts asks) b = (b', r)" by fastforce
  from load_snapshot_plain [OF this] this assms(2) show ?thesis by (auto simp: Snapshot tracks_def)
next
  case (Delta t f l bids asks)
  obtain b' r where r: "apply_delta t f l (texts bids) (texts asks) b = (b', r)" by fastforce
  then have step: "book_step sha ev b = b'" by (simp add: Delta)
  show ?thesis
  proof (cases "\<exists>uid. ob_last_update_id b = Some uid \<and> ob_valid b \<and> f \<le> uid + 1 \<and> uid < l")
    case True
    then obtain uid where u: "ob_last_update_id b = Some uid" "ob_valid b" "f \<le> uid + 1" "uid < l" by blast
    with assms(1) have "book_of b = E uid" by (simp add: tracks_def)
    with apply_delta_contiguous [OF u r] assms(2) u show ?thesis unfolding step by (simp add: tracks_def Delta)
  next
    case False
    then have "ob_last_update_id b = None \<or> \<not> ob_valid b \<or> l \<le> the (ob_last_update_id b) \<or> the (ob_last_update_id b) + 1 < f"
      by (cases "ob_last_update_id b") auto
    from apply_delta_other [OF this r] assms(1) show ?thesis unfolding step by (simp add: tracks_def)
  qed
next
  case (Checksum h d)
  obtain b' r where r: "verify_exchange_checksum sha h d b = (b', r)" by fastforce
  with verify_checksum_keeps [OF r] assms(1) show ?thesis by (simp add: Checksum tracks_def)
qed

interpretation book: preserved_by "book_step sha" "tracks E" "faithful E" for sha E
  by unfold_locales (rule book_step_tracks)

lemma new_book_tracks: "tracks E new_book"
  by (simp add: tracks_def new_book_def)

text \<open>Deltas cut from a history of updates are faithful: applying absolute levels again changes nothing.\<close>

definition after :: "((rat \<times> rat) list \<times> (rat \<times> rat) list) list \<Rightarrow> int \<Rightarrow> book_map" where
  "after h k = (fold set_level (concat (map fst (take (nat k) h))) Map.empty,
                fold set_level (concat (map snd (take (nat k) h))) Map.empty)"

lemma fold_set_level: "fold set_level ls m p = (case map_of (rev ls) p of None \<Rightarrow> m p | Some q \<Rightarrow> if q = 0 then None else Some q)"
proof (induction ls arbitrary: m)
  case (Cons l ls)
  have "fold set_level (l # ls) m p = fold set_level ls (set_level l m) p" by simp
  also have "\<dots> = (case map_of (rev ls) p of None \<Rightarrow> set_level l m p | Some q \<Rightarrow> if q = 0 then None else Some q)"
    by (rule Cons)
  also have "\<dots> = (case map_of (rev (l # ls)) p of None \<Rightarrow> m p | Some q \<Rightarrow> if q = 0 then None else Some q)"
    by (cases l, cases "map_of (rev ls) p") (auto simp: set_level_def map_add_def)
  finally show ?case .
qed simp

lemma fold_set_level_again: "fold set_level (xs @ ys) (fold set_level (us @ xs) m) = fold set_level (us @ xs @ ys) m"
  by (rule ext) (simp add: fold_set_level map_add_def split: option.split)

definition cut :: "nat \<Rightarrow> nat \<Rightarrow> 'a list \<Rightarrow> 'a list" where
  "cut f l xs = drop (f - 1) (take l xs)"

lemma take_cut: "f - 1 \<le> k \<Longrightarrow> take k xs = take (f - 1) xs @ cut f k xs"
  using append_take_drop_id [of "f - 1" "take k xs"] by (simp add: cut_def min_absorb1)

lemma cut_delta_faithful:
  assumes "1 \<le> f" "f \<le> l" "l \<le> length h"
  shows "faithful (after h) (Delta t (int f) (int l) (concat (map fst (cut f l h))) (concat (map snd (cut f l h))))"
proof -
  have key: "fold set_level (concat (map g (cut f l h))) (fold set_level (concat (map g (take k h))) m) =
      fold set_level (concat (map g (take l h))) m" if "f - 1 \<le> k" "k < l" for k m and g :: "_ \<Rightarrow> (rat \<times> rat) list"
  proof -
    have n: "l - (f - 1) = (k - (f - 1)) + (l - k)" "f - 1 + (k - (f - 1)) = k" using that assms by linarith+
    have "cut f l h = take ((k - (f - 1)) + (l - k)) (drop (f - 1) h)" unfolding n(1) [symmetric] by (simp add: cut_def drop_take)
    also have "\<dots> = take (k - (f - 1)) (drop (f - 1) h) @ take (l - k) (drop k h)"
      using n(2) by (simp only: take_add drop_drop add.commute [of "k - (f - 1)" "f - 1"])
    finally have c: "cut f l h = cut f k h @ cut (k + 1) l h" by (simp add: cut_def drop_take)
    have "f - 1 \<le> l" using that by simp
    from take_cut [OF this, of h] take_cut [OF that(1), of h] c show ?thesis
      by (simp only: map_append concat_append fold_set_level_again append_assoc)
  qed
  show ?thesis
  proof (simp, intro allI impI, elim conjE)
    fix k :: int assume k: "int f - 1 \<le> k" "k < int l"
    then have "f - 1 \<le> nat k" "nat k < l" using assms by linarith+
    from key [OF this] show "(fold set_level (concat (map fst (cut f l h))) (fst (after h k)),
        fold set_level (concat (map snd (cut f l h))) (snd (after h k))) = after h (int l)"
      by (simp add: after_def)
  qed
qed

text \<open>
  C5: refinement of the exchange's book. Over any sequence of snapshots, deltas and checksum verifications, with messages lost, repeated or
  out of order, a local book that calls itself valid is exactly the exchange's book at its update id, and is not crossed. The messages are
  what the exchange sends: a snapshot shows the book at its id, a delta takes any book from just before its first id on to its last one.
\<close>

theorem order_book_mirrors_exchange:
  assumes "list_all (faithful E) evs" and "ob_valid (fold (book_step sha) evs new_book)"
  shows "\<exists>uid. ob_last_update_id (fold (book_step sha) evs new_book) = Some uid \<and>
    book_of (fold (book_step sha) evs new_book) = E uid \<and> uncrossed (E uid)"
  using book.run_ok_I [OF new_book_tracks assms(1), of sha] assms(2) unfolding tracks_def by auto

text \<open>A history of three updates; the second arrives twice, then one delta carries the second and the third.\<close>

definition example_history :: "((rat \<times> rat) list \<times> (rat \<times> rat) list) list" where
  "example_history = [([(100, 1)], [(101, 2)]), ([(100, 3)], []), ([(99, 4)], [(101, 0), (102, 5)])]"

definition example_events :: "book_event list" where
  "example_events =
     [Snapshot 0 1 [(100, 1), (98, 0)] [(101, 2)],
      Delta 1 2 2 (concat (map fst (cut 2 2 example_history))) (concat (map snd (cut 2 2 example_history))),
      Delta 2 2 2 (concat (map fst (cut 2 2 example_history))) (concat (map snd (cut 2 2 example_history))),
      Delta 3 2 3 (concat (map fst (cut 2 3 example_history))) (concat (map snd (cut 2 3 example_history)))]"

lemma example_faithful: "list_all (faithful (after example_history)) example_events"
proof -
  have "faithful (after example_history) (Snapshot 0 1 [(100, 1), (98, 0)] [(101, 2)])"
    by (simp add: after_def example_history_def snapshot_map_def set_level_def)
  moreover have "faithful (after example_history)
      (Delta t 2 (int l) (concat (map fst (cut 2 l example_history))) (concat (map snd (cut 2 l example_history))))"
    if "2 \<le> l" "l \<le> 3" for t l
    using cut_delta_faithful [of 2 l example_history t] that by (simp add: example_history_def)
  from this [of 2] this [of 3] have
    "faithful (after example_history) (Delta t 2 2 (concat (map fst (cut 2 2 example_history))) (concat (map snd (cut 2 2 example_history))))"
    "faithful (after example_history) (Delta t 2 3 (concat (map fst (cut 2 3 example_history))) (concat (map snd (cut 2 3 example_history))))"
    for t by simp_all
  ultimately show ?thesis unfolding example_events_def by (simp only: list.pred_inject simp_thms)
qed

lemma example_valid: "ob_valid (fold (book_step (\<lambda>s. s)) example_events new_book)"
  by code_simp

theorem order_book_mirrors_exchange_witness:
  "\<exists>uid. ob_last_update_id (fold (book_step (\<lambda>s. s)) example_events new_book) = Some uid \<and>
    book_of (fold (book_step (\<lambda>s. s)) example_events new_book) = after example_history uid \<and> uncrossed (after example_history uid)"
  by (rule order_book_mirrors_exchange [OF example_faithful example_valid])

section \<open>Recovery\<close>

text \<open>Deltas without a gap after update \<open>uid\<close>, and the update they lead to.\<close>

fun gap_free :: "int \<Rightarrow> book_event list \<Rightarrow> bool" where
  "gap_free uid [] = True"
| "gap_free uid (Delta t f l bids asks # evs) = (f \<le> uid + 1 \<and> gap_free (max uid l) evs)"
| "gap_free uid (Checksum None d # evs) = gap_free uid evs"
| "gap_free uid (_ # evs) = False"

fun reached_id :: "int \<Rightarrow> book_event list \<Rightarrow> int" where
  "reached_id uid [] = uid"
| "reached_id uid (Delta t f l bids asks # evs) = reached_id (max uid l) evs"
| "reached_id uid (_ # evs) = reached_id uid evs"

definition in_sync :: "(int \<Rightarrow> book_map) \<Rightarrow> int \<Rightarrow> LocalOrderBook \<Rightarrow> bool" where
  "in_sync E uid b \<longleftrightarrow> ob_valid b \<and> ob_last_update_id b = Some uid \<and> book_of b = E uid"

lemma delta_in_sync:
  assumes "in_sync E uid b" "faithful E (Delta t f l bids asks)" "f \<le> uid + 1" "uncrossed (E l)"
  shows "in_sync E (max uid l) (book_step sha (Delta t f l bids asks) b)"
proof -
  obtain b' r where r: "apply_delta t f l (texts bids) (texts asks) b = (b', r)" by fastforce
  have b: "ob_valid b" "ob_last_update_id b = Some uid" "book_of b = E uid" using assms(1) by (simp_all add: in_sync_def)
  show ?thesis
  proof (cases "uid < l")
    case True
    with apply_delta_contiguous [OF b(2,1) assms(3) True r] assms b r show ?thesis by (simp add: in_sync_def)
  next
    case False
    with r b have "b' = b\<lparr>ob_stale_event_count := ob_stale_event_count b + 1\<rparr>" by (simp add: apply_delta_def)
    with r b False show ?thesis by (simp add: in_sync_def book_of_def max_def)
  qed
qed

lemma gap_free_in_sync:
  assumes "in_sync E uid b" "list_all (faithful E) evs" "gap_free uid evs" "\<And>k. uncrossed (E k)"
  shows "in_sync E (reached_id uid evs) (fold (book_step sha) evs b)"
  using assms
proof (induction uid evs arbitrary: b rule: gap_free.induct)
  case (2 uid t f l bids asks evs)
  then show ?case using delta_in_sync [of E uid b t f l bids asks sha] by (simp del: book_step.simps faithful.simps)
next
  case (3 uid d evs)
  then show ?case by (simp add: verify_exchange_checksum_def in_sync_def book_of_def)
qed simp_all

text \<open>
  C33: the book recovers. Whatever happened before, a snapshot of an exchange whose book is not crossed, followed by deltas without a gap
  (stale ones included), leaves a valid book at the last update id that is the exchange's book there.
\<close>

theorem order_book_recovers:
  assumes "faithful E (Snapshot t uid bids asks)" "list_all (faithful E) evs" "gap_free uid evs" and "\<And>k. uncrossed (E k)"
  shows "in_sync E (reached_id uid evs) (fold (book_step sha) (Snapshot t uid bids asks # evs) b)"
proof -
  obtain b' r where r: "load_snapshot t uid (texts bids) (texts asks) b = (b', r)" by fastforce
  have "in_sync E uid b'" using load_snapshot_plain [OF r] assms(1) assms(4) [of uid] by (simp add: in_sync_def)
  from gap_free_in_sync [OF this assms(2-4)] r show ?thesis by simp
qed

lemma example_uncrossed: "uncrossed (after example_history k)"
proof -
  have "nat k = 0 \<or> nat k = 1 \<or> nat k = 2 \<or> nat k \<ge> 3" by linarith
  then show ?thesis
    by (elim disjE) (simp_all add: after_def example_history_def uncrossed_def set_level_def numeral_3_eq_3 numeral_2_eq_2)
qed

theorem order_book_recovers_witness:
  "in_sync (after example_history) 3 (fold (book_step (\<lambda>s. s)) example_events (new_book\<lparr>ob_gap_count := 7\<rparr>))"
  using order_book_recovers [of "after example_history" 0 1 "[(100, 1), (98, 0)]" "[(101, 2)]" "tl example_events"
      "\<lambda>s. s" "new_book\<lparr>ob_gap_count := 7\<rparr>"] example_faithful example_uncrossed
  by (simp add: example_events_def)

section \<open>Derived quantities\<close>

lemma dsum_le_add: "0 \<le> x \<Longrightarrow> 0 \<le> y \<Longrightarrow> \<bar>dec (x - y)\<bar> \<le> dec (x + y)"
  using dec.R_mono [of "x - y" "x + y"] dec.R_mono [of "y - x" "x + y"] dec.rnd_minus [of "x - y"] by (simp add: abs_le_iff)

text \<open>On a valid book the spread is positive and the book is never locked; and with no negative quantity on either side the depth imbalance lies in
  \<open>[-1, 1]\<close>, the rounding of every sum and of the quotient included.
\<close>

theorem order_book_quantities:
  assumes "list_all (faithful E) evs" "b = fold (book_step sha) evs new_book" "ob_valid b"
  shows "\<not> locked b \<and> (\<forall>s. spread b = Some s \<longrightarrow> 0 < s) \<and>
    ((\<forall>q \<in> snd ` (set (ob_bids b) \<union> set (ob_asks b)). 0 \<le> q) \<longrightarrow> \<bar>depth_imbalance b\<bar> \<le> 1)"
proof -
  have "uncrossed (book_of b)"
    using book.run_ok_I [OF new_book_tracks assms(1), of sha] assms(2,3) unfolding tracks_def by auto
  then have "\<not> crossed b" by (simp add: not_crossed_iff book_of_def)
  then have "\<not> locked b" "\<forall>s. spread b = Some s \<longrightarrow> 0 < s"
    by (auto simp: crossed_def locked_def spread_def best_bid_def best_ask_def split: if_splits)
  moreover have "\<bar>depth_imbalance b\<bar> \<le> 1" if "\<forall>q \<in> snd ` (set (ob_bids b) \<union> set (ob_asks b)). 0 \<le> q"
  proof -
    let ?x = "dsum (map snd (ob_bids b))" and ?y = "dsum (map snd (ob_asks b))"
    have xy: "0 \<le> ?x" "0 \<le> ?y" using that by (auto intro!: dsum_nonneg)
    show ?thesis
    proof (cases "dec (?x + ?y) = 0")
      case False
      with xy have pos: "0 < dec (?x + ?y)" by (metis add_nonneg_nonneg dec.R_nonneg_iff order_less_le)
      have "\<bar>dec (?x - ?y) / dec (?x + ?y)\<bar> \<le> 1" using dsum_le_add [OF xy] pos by (simp add: abs_divide)
      then have "\<bar>dec (dec (?x - ?y) / dec (?x + ?y))\<bar> \<le> 1"
        using dec.R_le_fix [of 1] dec.R_abs dec.rnd_of_int [of 1] by (metis abs_one dec.rnd_of_int [of 1] of_int_1 one_le_power one_le_numeral)
      with False show ?thesis by (simp add: depth_imbalance_def Let_def)
    qed (simp add: depth_imbalance_def)
  qed
  ultimately show ?thesis by blast
qed

theorem order_book_quantities_witness:
  "\<not> locked (fold (book_step (\<lambda>s. s)) example_events new_book)"
  using order_book_quantities [OF example_faithful refl example_valid] by blast

end
