(* ===== verification/Market_Feed.thy ===== *)
theory Market_Feed
  imports Money "HOL-Library.Product_Lexorder" "HOL-Library.Multiset"
begin

text \<open>
  How market data reaches the platform: the bounded priority buffer (\<open>backend/app/core/backpressure.py\<close>), request budgets
  (\<open>data/rate_limit.py\<close>), the subscription coordinator (\<open>data/coordinator.py\<close>), connection handover
  (\<open>data/websocket_lifecycle.py\<close>) and the envelope with its sequence guard (\<open>data/envelope.py\<close>). The heap of the
  buffer is the list of its items: \<open>heapq\<close> only promises the smallest one, and the items have distinct counters. Budgets are
  floats: every operation rounds. Times that the code reads from a clock are arguments.
\<close>

section \<open>The event buffer\<close>

definition PRIORITY :: "(string, nat) dict" where
  "PRIORITY = [(''private_order_fill'', 0), (''protective_position'', 1), (''best_bid_ask'', 2), (''active_position_market'', 3),
     (''candidate_market'', 4), (''scanner_low'', 5)]"

record 'a QueuedEvent =
  qe_category :: string
  qe_payload :: 'a

type_synonym 'a heap_item = "nat \<times> nat \<times> 'a QueuedEvent"

record 'a PriorityEventBuffer =
  pb_maxsize :: int
  pb_heap :: "'a heap_item list"
  pb_counter :: nat
  pb_dropped :: nat

definition new_buffer :: "int \<Rightarrow> 'a PriorityEventBuffer" where
  "new_buffer maxsize = \<lparr>pb_maxsize = maxsize, pb_heap = [], pb_counter = 0, pb_dropped = 0\<rparr>"

definition rank :: "'a heap_item \<Rightarrow> nat \<times> nat" where
  "rank x = (fst x, fst (snd x))"

definition worst_item :: "'a heap_item list \<Rightarrow> 'a heap_item" where
  "worst_item h = argmax rank h"

definition least_item :: "'a heap_item list \<Rightarrow> 'a heap_item" where
  "least_item h = argmin rank h"

definition buffer_put :: "'a QueuedEvent \<Rightarrow> 'a PriorityEventBuffer \<Rightarrow> 'a PriorityEventBuffer \<times> bool res" where
  "buffer_put event b =
     (case dget PRIORITY (qe_category event) of
        None \<Rightarrow> (b, Inl (KeyError (qe_category event)))
      | Some prio \<Rightarrow>
        let item = (prio, pb_counter b, event); b1 = b\<lparr>pb_counter := pb_counter b + 1\<rparr> in
        if int (length (pb_heap b)) < pb_maxsize b then (b1\<lparr>pb_heap := pb_heap b @ [item]\<rparr>, Inr True)
        else if pb_heap b = [] then (b1, Inl (ValueError ''max() iterable argument is empty''))
        else let worst = worst_item (pb_heap b) in
          if prio < fst worst
          then (b1\<lparr>pb_heap := remove1 worst (pb_heap b) @ [item], pb_dropped := pb_dropped b + 1\<rparr>, Inr True)
          else (b1\<lparr>pb_dropped := pb_dropped b + 1\<rparr>, Inr False))"

definition buffer_get :: "'a PriorityEventBuffer \<Rightarrow> 'a PriorityEventBuffer \<times> 'a QueuedEvent res" where
  "buffer_get b =
     (if pb_heap b = [] then (b, Inl IndexError)
      else let least = least_item (pb_heap b)
           in (b\<lparr>pb_heap := remove1 least (pb_heap b)\<rparr>, Inr (snd (snd least))))"

section \<open>Request budgets\<close>

record Budget =
  bg_limit :: rat
  bg_interval_seconds :: rat
  bg_used :: rat
  bg_window_started :: rat

type_synonym RateLimitBudget = "(string, Budget) dict"

definition rl_configure :: "string \<Rightarrow> rat \<Rightarrow> rat \<Rightarrow> rat \<Rightarrow> RateLimitBudget \<Rightarrow> RateLimitBudget \<times> unit res" where
  "rl_configure key limit interval_seconds now bs =
     (if limit \<le> 0 \<or> interval_seconds \<le> 0 then (bs, Inl (ValueError ''rate limit budget must be positive''))
      else (dset key \<lparr>bg_limit = limit, bg_interval_seconds = interval_seconds, bg_used = 0, bg_window_started = now\<rparr> bs, Inr ()))"

definition roll_window :: "rat \<Rightarrow> Budget \<Rightarrow> Budget" where
  "roll_window now b =
     (if flt (now - bg_window_started b) \<ge> bg_interval_seconds b then b\<lparr>bg_used := 0, bg_window_started := now\<rparr> else b)"

definition budget_reserve :: "string \<Rightarrow> Budget \<Rightarrow> rat" where
  "budget_reserve priority b = (if priority = ''low'' then flt (bg_limit b * flt (15 / 100)) else 0)"

definition budget_allow :: "rat \<Rightarrow> string \<Rightarrow> rat \<Rightarrow> Budget \<Rightarrow> Budget \<times> bool res" where
  "budget_allow weight priority now b =
     (if weight \<le> 0 then (b, Inl (ValueError ''weight must be positive''))
      else if now < bg_window_started b then (b, Inl (ValueError ''rate-limit clock moved backwards''))
      else let b1 = roll_window now b in
        if flt (bg_used b1 + weight) > flt (bg_limit b1 - budget_reserve priority b1) then (b1, Inr False)
        else (b1\<lparr>bg_used := flt (bg_used b1 + weight)\<rparr>, Inr True))"

definition rl_allow :: "string \<Rightarrow> rat \<Rightarrow> string \<Rightarrow> rat \<Rightarrow> RateLimitBudget \<Rightarrow> RateLimitBudget \<times> bool res" where
  "rl_allow key weight priority now bs =
     (case dget bs key of
        None \<Rightarrow> (bs, Inl (KeyError key))
      | Some b \<Rightarrow> (let (b', r) = budget_allow weight priority now b in (dset key b' bs, r)))"

definition rl_remaining :: "string \<Rightarrow> RateLimitBudget \<Rightarrow> rat res" where
  "rl_remaining key bs =
     (case dget bs key of None \<Rightarrow> Inl (KeyError key) | Some b \<Rightarrow> Inr (max 0 (flt (bg_limit b - bg_used b))))"

definition rl_exhausted :: "string \<Rightarrow> rat \<Rightarrow> RateLimitBudget \<Rightarrow> bool res" where
  "rl_exhausted key weight bs =
     (case dget bs key of None \<Rightarrow> Inl (KeyError key) | Some b \<Rightarrow> Inr (flt (bg_used b + weight) > bg_limit b))"

definition allow_with_fallback ::
  "string \<Rightarrow> string \<Rightarrow> rat \<Rightarrow> rat \<Rightarrow> RateLimitBudget \<Rightarrow> RateLimitBudget \<times> string option res" where
  "allow_with_fallback primary_key fallback_key weight now bs =
     (case rl_allow primary_key weight ''normal'' now bs of
        (bs1, Inl e) \<Rightarrow> (bs1, Inl e)
      | (bs1, Inr True) \<Rightarrow> (bs1, Inr (Some ''PRIMARY''))
      | (bs1, Inr False) \<Rightarrow>
        if dget bs1 fallback_key = None then (bs1, Inr None)
        else (case rl_allow fallback_key weight ''normal'' now bs1 of
                (bs2, Inl e) \<Rightarrow> (bs2, Inl e)
              | (bs2, Inr True) \<Rightarrow> (bs2, Inr (Some ''FALLBACK''))
              | (bs2, Inr False) \<Rightarrow> (bs2, Inr None)))"

section \<open>The coordinator\<close>

record MarketSubscription =
  ms_symbol :: string
  ms_stream :: string
  ms_timeframe :: "string option"

definition sub_key :: "MarketSubscription \<Rightarrow> string" where
  "sub_key s =
     (let suffix = (case ms_timeframe s of None \<Rightarrow> [] | Some t \<Rightarrow> if t = [] then [] else CHR ''_'' # t)
      in lower (ms_symbol s) @ ''@'' @ ms_stream s @ suffix)"

record 'a MarketDataCoordinator =
  mc_max_streams :: nat
  mc_queue :: "'a PriorityEventBuffer"
  mc_registry :: "(string, MarketSubscription list) dict"
  mc_freshness :: "(string, rat) dict"
  mc_rate_limits :: RateLimitBudget
  mc_generation :: "(string, nat) dict"

definition new_coordinator :: "int \<Rightarrow> int \<Rightarrow> 'a MarketDataCoordinator res" where
  "new_coordinator max_streams queue_size =
     (if max_streams \<le> 0 \<or> queue_size \<le> 0 then Inl (ValueError ''coordinator capacities must be positive'')
      else Inr \<lparr>mc_max_streams = nat max_streams, mc_queue = new_buffer queue_size, mc_registry = [], mc_freshness = [],
             mc_rate_limits = [], mc_generation = []\<rparr>)"

text \<open>The subscriptions by key, the last of a key winning, in the order of the keys; then one shard per offset of
  \<open>range(0, len(unique), max_streams)\<close>.\<close>

definition unique_subs :: "MarketSubscription list \<Rightarrow> MarketSubscription list" where
  "unique_subs subs = sort_key sub_key (map snd (fold (\<lambda>s d. dset (sub_key s) s d) subs []))"

definition shard_offsets :: "nat \<Rightarrow> nat \<Rightarrow> nat list" where
  "shard_offsets n step = map (\<lambda>i. i * step) [0..<(n + step - 1) div step]"

definition connection_id :: "nat \<Rightarrow> nat \<Rightarrow> string" where
  "connection_id step offset = ''market-'' @ nat_digits (offset div step + 1)"

definition build_registry :: "MarketSubscription list \<Rightarrow> 'a MarketDataCoordinator \<Rightarrow> 'a MarketDataCoordinator" where
  "build_registry subs c =
     (let unique = unique_subs subs; m = mc_max_streams c;
          reg = fold (\<lambda>offset d. dset (connection_id m offset) (take m (drop offset unique)) d) (shard_offsets (length unique) m) []
      in c\<lparr>mc_registry := reg, mc_generation := map (\<lambda>(k, _). (k, get_or (mc_generation c) k 0)) reg\<rparr>)"

definition resubscribe_plan :: "string \<Rightarrow> 'a MarketDataCoordinator \<Rightarrow> string list res" where
  "resubscribe_plan cid c =
     (case dget (mc_registry c) cid of None \<Rightarrow> Inl (KeyError cid) | Some shard \<Rightarrow> Inr (map sub_key shard))"

fun resubscribe_loop :: "string list \<Rightarrow> (string, string list) dict \<Rightarrow> 'a MarketDataCoordinator \<Rightarrow>
    'a MarketDataCoordinator \<times> (string, string list) dict res" where
  "resubscribe_loop [] plans c = (c, Inr plans)"
| "resubscribe_loop (cid # cids) plans c =
     (let c1 = c\<lparr>mc_generation := dset cid (get_or (mc_generation c) cid 0 + 1) (mc_generation c)\<rparr> in
      case resubscribe_plan cid c1 of Inl e \<Rightarrow> (c1, Inl e) | Inr plan \<Rightarrow> resubscribe_loop cids (dset cid plan plans) c1)"

definition reconnect_resubscribe_all :: "'a MarketDataCoordinator \<Rightarrow> 'a MarketDataCoordinator \<times> (string, string list) dict res" where
  "reconnect_resubscribe_all c = resubscribe_loop (sort (map fst (mc_registry c))) [] c"

definition configure_fallback_budget :: "string \<Rightarrow> rat \<Rightarrow> rat \<Rightarrow> rat \<Rightarrow> 'a MarketDataCoordinator \<Rightarrow> 'a MarketDataCoordinator \<times> unit res" where
  "configure_fallback_budget key limit interval_seconds now c =
     (let (bs, r) = rl_configure key limit interval_seconds now (mc_rate_limits c) in (c\<lparr>mc_rate_limits := bs\<rparr>, r))"

definition allow_rest_with_fallback ::
  "string \<Rightarrow> string \<Rightarrow> rat \<Rightarrow> rat \<Rightarrow> 'a MarketDataCoordinator \<Rightarrow> 'a MarketDataCoordinator \<times> string option res" where
  "allow_rest_with_fallback p f weight now c =
     (let (bs, r) = allow_with_fallback p f weight now (mc_rate_limits c) in (c\<lparr>mc_rate_limits := bs\<rparr>, r))"

definition mark_symbol_fresh :: "string \<Rightarrow> rat \<Rightarrow> 'a MarketDataCoordinator \<Rightarrow> 'a MarketDataCoordinator" where
  "mark_symbol_fresh symbol observed_at c = c\<lparr>mc_freshness := dset (upper symbol) observed_at (mc_freshness c)\<rparr>"

definition stale_symbols :: "rat \<Rightarrow> rat \<Rightarrow> 'a MarketDataCoordinator \<Rightarrow> string set res" where
  "stale_symbols now max_age c =
     (if max_age \<le> 0 then Inl (ValueError ''max_age_seconds must be positive'')
      else Inr (fst ` {p \<in> set (mc_freshness c). flt (now - snd p) > max_age}))"

definition enqueue :: "string \<Rightarrow> 'a \<Rightarrow> 'a MarketDataCoordinator \<Rightarrow> 'a MarketDataCoordinator \<times> bool res" where
  "enqueue category payload c =
     (let (q, r) = buffer_put \<lparr>qe_category = category, qe_payload = payload\<rparr> (mc_queue c) in (c\<lparr>mc_queue := q\<rparr>, r))"

definition allow_rest :: "string \<Rightarrow> rat \<Rightarrow> string \<Rightarrow> rat \<Rightarrow> 'a MarketDataCoordinator \<Rightarrow> 'a MarketDataCoordinator \<times> bool res" where
  "allow_rest key weight priority now c =
     (let (bs, r) = rl_allow key weight priority now (mc_rate_limits c) in (c\<lparr>mc_rate_limits := bs\<rparr>, r))"

definition rate_telemetry :: "string \<Rightarrow> 'a MarketDataCoordinator \<Rightarrow> (string, rat) dict res" where
  "rate_telemetry key c =
     (case dget (mc_rate_limits c) key of
        None \<Rightarrow> Inl (KeyError key)
      | Some b \<Rightarrow> bind_res (rl_remaining key (mc_rate_limits c)) (\<lambda>r.
          Inr [(''limit'', bg_limit b), (''used'', bg_used b), (''remaining'', r), (''interval_seconds'', bg_interval_seconds b)]))"

definition reconciliation_delay :: "rat \<Rightarrow> rat \<Rightarrow> rat \<Rightarrow> rat res" where
  "reconciliation_delay base jitter_fraction jitter_value =
     (if base \<le> 0 \<or> \<not> (0 \<le> jitter_fraction \<and> jitter_fraction \<le> 1) \<or> \<not> (0 \<le> jitter_value \<and> jitter_value \<le> 1)
      then Inl (ValueError ''invalid reconciliation schedule parameters'')
      else Inr (flt (base * flt (1 + flt (jitter_fraction * jitter_value)))))"

definition rest_reconciliation_due :: "rat option \<Rightarrow> rat \<Rightarrow> rat \<Rightarrow> bool res" where
  "rest_reconciliation_due last_verified_at now interval_seconds =
     (if interval_seconds \<le> 0 then Inl (ValueError ''interval_seconds must be positive'')
      else case last_verified_at of
             None \<Rightarrow> Inr True
           | Some previous \<Rightarrow> if now < previous then Inl (ValueError ''monotonic clock moved backwards'')
                            else Inr (flt (now - previous) \<ge> interval_seconds))"

definition stale_risk_scope :: "bool \<Rightarrow> bool \<Rightarrow> string" where
  "stale_risk_scope shared_critical_feed_stale symbol_is_stale =
     (if shared_critical_feed_stale then ''GLOBAL_RESTRICT'' else if symbol_is_stale then ''BLOCK_SYMBOL'' else ''NORMAL'')"

definition registered_subs :: "'a MarketDataCoordinator \<Rightarrow> MarketSubscription list" where
  "registered_subs c = concat (map snd (mc_registry c))"

text \<open>The message of the error lists the missing and the unexpected symbols.\<close>

definition validate_subscription_coverage :: "string list \<Rightarrow> 'a MarketDataCoordinator \<Rightarrow> (string list \<times> string list) + bool" where
  "validate_subscription_coverage symbols c =
     (let expected = map upper symbols; actual = map (upper \<circ> ms_symbol) (registered_subs c)
      in if set expected \<noteq> set actual
         then Inl (sorted_set (filter (\<lambda>s. s \<notin> set actual) expected), sorted_set (filter (\<lambda>s. s \<notin> set expected) actual))
         else Inr True)"

definition subscription_telemetry :: "'a MarketDataCoordinator \<Rightarrow> (string, nat) dict" where
  "subscription_telemetry c =
     [(''websocket_subscriptions'', length (registered_subs c)), (''websocket_shards'', length (mc_registry c)),
      (''unique_symbols'', length (remdups (map (upper \<circ> ms_symbol) (registered_subs c))))]"

section \<open>Connection handover\<close>

record WebSocketState =
  ws_connection_started_at :: int
  ws_max_lifetime :: int
  ws_planned_rotation_at :: int
  ws_ping_pong_healthy :: bool
  ws_inbound_rate :: rat
  ws_outbound_rate :: rat
  ws_subscription_count :: int
  ws_reconnect_count :: int
  ws_disconnect_reason :: "string option"
  ws_subscriptions_verified :: bool
  ws_continuity_verified :: bool
  ws_private_state_reconciled :: bool
  ws_healthy :: bool

definition new_ws_state :: "int \<Rightarrow> int \<Rightarrow> WebSocketState" where
  "new_ws_state start max_lifetime =
     \<lparr>ws_connection_started_at = start, ws_max_lifetime = max_lifetime, ws_planned_rotation_at = start + max_lifetime,
      ws_ping_pong_healthy = True, ws_inbound_rate = 0, ws_outbound_rate = 0, ws_subscription_count = 0, ws_reconnect_count = 0,
      ws_disconnect_reason = None, ws_subscriptions_verified = False, ws_continuity_verified = False,
      ws_private_state_reconciled = False, ws_healthy = False\<rparr>"

definition handover :: "WebSocketState \<Rightarrow> WebSocketState \<Rightarrow> bool \<Rightarrow> WebSocketState \<times> bool" where
  "handover old new is_private =
     (let ready = (ws_ping_pong_healthy new \<and> ws_subscriptions_verified new \<and> ws_continuity_verified new \<and>
                   (ws_private_state_reconciled new \<or> \<not> is_private))
      in (new\<lparr>ws_healthy := ready\<rparr>, ready))"

section \<open>The envelope\<close>

record 'a MarketDataEnvelope =
  me_source :: string
  me_symbol :: string
  me_timeframe :: string
  me_exchange_time :: datetime
  me_received_at :: datetime
  me_payload :: 'a
  me_sequence :: "int option"

definition new_envelope :: "'a MarketDataEnvelope \<Rightarrow> 'a MarketDataEnvelope res" where
  "new_envelope e =
     (if strip (me_source e) = [] then Inl (ValueError ''source is required'')
      else if strip (me_symbol e) = [] then Inl (ValueError ''symbol is required'')
      else if strip (me_timeframe e) = [] then Inl (ValueError ''timeframe is required'')
      else if \<not> is_aware (me_exchange_time e) then Inl (ValueError ''exchange_time must be timezone-aware'')
      else if \<not> is_aware (me_received_at e) then Inl (ValueError ''received_at must be timezone-aware'')
      else if micros (me_received_at e) < micros (me_exchange_time e) then Inl (ValueError ''received_at cannot precede exchange_time'')
      else if (case me_sequence e of None \<Rightarrow> False | Some s \<Rightarrow> s < 0) then Inl (ValueError ''sequence must be non-negative'')
      else Inr e)"

definition latency_ms :: "'a MarketDataEnvelope \<Rightarrow> rat" where
  "latency_ms e = flt (total_seconds (micros (me_received_at e) - micros (me_exchange_time e)) * 1000)"

definition envelope_timestamp :: "'a MarketDataEnvelope \<Rightarrow> datetime" where
  "envelope_timestamp e = me_exchange_time e"

text \<open>\<open>datetime.fromtimestamp(t, utc)\<close> of a float: the fraction is scaled to microseconds as a float and rounded half to even.\<close>

definition fromtimestamp :: "rat \<Rightarrow> datetime res" where
  "fromtimestamp t =
     (let whole = round_down t; us = whole * 1000000 + rhe (flt ((t - of_int whole) * 1000000))
      in if us < -62135596800000000 \<or> 253402300799999999 < us then Inl (ValueError ''year is out of range'') else Inr (Aware us))"

definition from_exchange_ms ::
  "string \<Rightarrow> string \<Rightarrow> string \<Rightarrow> int \<Rightarrow> 'a \<Rightarrow> datetime option \<Rightarrow> int \<Rightarrow> int option \<Rightarrow> 'a MarketDataEnvelope res" where
  "from_exchange_ms source symbol timeframe exchange_time_ms payload received_at utcnow sequence =
     bind_res (fromtimestamp (flt (of_int exchange_time_ms / 1000))) (\<lambda>t.
       new_envelope \<lparr>me_source = source, me_symbol = upper symbol, me_timeframe = timeframe, me_exchange_time = t,
         me_received_at = (case received_at of None \<Rightarrow> Aware utcnow | Some r \<Rightarrow> r), me_payload = payload, me_sequence = sequence\<rparr>)"

type_synonym SequenceGuard = "(string, int) dict"

definition seq_observe :: "string \<Rightarrow> int \<Rightarrow> SequenceGuard \<Rightarrow> SequenceGuard \<times> unit res" where
  "seq_observe stream_key sequence g =
     (if sequence < 0 then (g, Inl (ValueError ''sequence must be non-negative''))
      else case dget g stream_key of
             None \<Rightarrow> (dset stream_key sequence g, Inr ())
           | Some previous \<Rightarrow>
             if sequence = previous then (g, Inl (ValueError ''duplicate market-data sequence''))
             else if sequence < previous then (g, Inl (ValueError ''out-of-order market-data sequence''))
             else (dset stream_key sequence g, Inr ()))"

definition seq_last :: "string \<Rightarrow> SequenceGuard \<Rightarrow> int option" where
  "seq_last stream_key g = dget g stream_key"

section \<open>Properties of the buffer\<close>

datatype 'a buffer_op = Put "'a QueuedEvent" | Get

fun buffer_step :: "'a buffer_op \<Rightarrow> 'a PriorityEventBuffer \<Rightarrow> 'a PriorityEventBuffer" where
  "buffer_step (Put e) b = fst (buffer_put e b)"
| "buffer_step Get b = fst (buffer_get b)"

definition buffer_ok :: "int \<Rightarrow> 'a PriorityEventBuffer \<Rightarrow> bool" where
  "buffer_ok n b \<longleftrightarrow> pb_maxsize b = n \<and> int (length (pb_heap b)) \<le> n \<and> distinct (map (\<lambda>x. fst (snd x)) (pb_heap b)) \<and>
     (\<forall>x \<in> set (pb_heap b). fst (snd x) < pb_counter b)"

lemma distinct_counter: "distinct (map (\<lambda>x. fst (snd x)) h) \<Longrightarrow> x \<in> set h \<Longrightarrow> y \<in> set h \<Longrightarrow> rank x = rank y \<Longrightarrow> x = y"
  by (auto simp: rank_def distinct_map dest: inj_onD)

lemma distinct_counters_remove1: "distinct (map f h) \<Longrightarrow> distinct (map f (remove1 x h))"
  by (metis distinct_map distinct_remove1 inj_on_subset set_remove1_subset)

lemma buffer_ok_add:
  fixes h :: "'a heap_item list"
  assumes "distinct (map (\<lambda>x. fst (snd x)) h)" "\<forall>x \<in> set h. fst (snd x) < k"
  shows "distinct (map (\<lambda>x. fst (snd x)) (h @ [(p, k, e)]))" "\<forall>x \<in> set (h @ [(p, k, e)]). fst (snd x) < k + 1"
  using assms by (auto simp: less_Suc_eq dest: bspec)

lemma buffer_put_ok: assumes "buffer_ok n b" "0 < n" shows "buffer_ok n (fst (buffer_put e b))"
proof (cases "dget PRIORITY (qe_category e)")
  case (Some p)
  let ?h = "pb_heap b" and ?w = "worst_item (pb_heap b)"
  have ok: "pb_maxsize b = n" "int (length ?h) \<le> n" "distinct (map (\<lambda>x. fst (snd x)) ?h)" "\<forall>x \<in> set ?h. fst (snd x) < pb_counter b"
    using assms(1) by (simp_all add: buffer_ok_def)
  have w: "?w \<in> set ?h" if "?h \<noteq> []" using argmax_in that by (simp add: worst_item_def)
  have rem1: "distinct (map (\<lambda>x. fst (snd x)) (remove1 ?w ?h))" using ok(3) by (rule distinct_counters_remove1)
  have rem2: "\<forall>x \<in> set (remove1 ?w ?h). fst (snd x) < pb_counter b" using ok(4) set_remove1_subset [of ?w ?h] by (meson subsetD)
  note rem = rem1 rem2
  consider "int (length ?h) < n" | "int (length ?h) = n" using ok(2) by linarith
  then show ?thesis
  proof cases
    case 1
    with ok buffer_ok_add [OF ok(3,4), of p e] show ?thesis by (simp add: buffer_put_def Some Let_def buffer_ok_def del: distinct_append map_append set_append)
  next
    case 2
    with assms(2) have ne: "?h \<noteq> []" by auto
    have len: "int (length (remove1 ?w ?h)) + 1 = n" using w [OF ne] 2 by (simp add: length_remove1) (metis Suc_pred length_pos_if_in_set of_nat_Suc add.commute)
    show ?thesis
    proof (cases "p < fst ?w")
      case True
      with 2 ne ok(1) len buffer_ok_add [OF rem, of p e] show ?thesis
        by (simp add: buffer_put_def Some Let_def buffer_ok_def del: distinct_append map_append set_append)
    next
      case False
      with 2 ne ok show ?thesis by (auto simp: buffer_put_def Some Let_def buffer_ok_def)
    qed
  qed
qed (use assms in \<open>simp add: buffer_put_def\<close>)

lemma buffer_get_ok: assumes "buffer_ok n b" shows "buffer_ok n (fst (buffer_get b))"
  using assms by (auto simp: buffer_ok_def buffer_get_def Let_def length_remove1 distinct_counters_remove1 dest: notin_set_remove1)

interpretation buffer: preserved buffer_step "\<lambda>b. buffer_ok n b \<and> 0 < n" for n
proof
  fix b :: "'a PriorityEventBuffer" and op assume "buffer_ok n b \<and> 0 < n"
  then show "buffer_ok n (buffer_step op b) \<and> 0 < n" by (cases op) (simp_all add: buffer_put_ok buffer_get_ok)
qed

lemma worst_item_max: "x \<in> set h \<Longrightarrow> rank x \<le> rank (worst_item h)"
  by (simp add: worst_item_def argmax_max)

lemma least_item_min: "x \<in> set h \<Longrightarrow> rank (least_item h) \<le> rank x"
  by (simp add: least_item_def argmin_min)

lemma rank_le_priority: "rank x \<le> rank y \<Longrightarrow> fst x \<le> fst y"
  by (auto simp: rank_def less_eq_prod_def)

lemma put_refused:
  assumes "buffer_put e b = (b', Inr False)"
  shows "\<exists>p. dget PRIORITY (qe_category e) = Some p \<and> pb_heap b' = pb_heap b \<and> (\<forall>x \<in> set (pb_heap b). fst x \<le> p)"
proof -
  obtain p where p: "dget PRIORITY (qe_category e) = Some p" using assms by (auto simp: buffer_put_def split: option.splits)
  with assms have "pb_heap b' = pb_heap b" "fst (worst_item (pb_heap b)) \<le> p"
    by (auto simp: buffer_put_def Let_def split: if_splits)
  with p show ?thesis using rank_le_priority [OF worst_item_max] le_trans by blast
qed

lemma put_accepted:
  assumes "buffer_put e b = (b', Inr True)"
  shows "\<exists>item lost. snd (snd item) = e \<and> mset (pb_heap b') + lost = mset (pb_heap b) + {#item#} \<and>
    (lost = {#} \<or> (\<exists>x \<in> set (pb_heap b). lost = {#x#} \<and> fst item < fst x \<and> (\<forall>y \<in> set (pb_heap b). rank y \<le> rank x)))"
proof -
  obtain p where p: "dget PRIORITY (qe_category e) = Some p" using assms by (auto simp: buffer_put_def split: option.splits)
  let ?item = "(p, pb_counter b, e)" and ?w = "worst_item (pb_heap b)"
  show ?thesis
  proof (cases "int (length (pb_heap b)) < pb_maxsize b")
    case True
    with assms p have "pb_heap b' = pb_heap b @ [?item]" by (auto simp: buffer_put_def Let_def)
    then show ?thesis by (intro exI [of _ ?item] exI [of _ "{#}"]) simp
  next
    case False
    with assms p have h: "pb_heap b \<noteq> []" "p < fst ?w" "pb_heap b' = remove1 ?w (pb_heap b) @ [?item]"
      by (auto simp: buffer_put_def Let_def split: if_splits)
    then have w: "?w \<in> set (pb_heap b)" by (simp add: worst_item_def argmax_in)
    then have "mset (pb_heap b') + {#?w#} = mset (pb_heap b) + {#?item#}" by (simp add: h(3))
    then show ?thesis using h(2) w worst_item_max by (intro exI [of _ ?item] exI [of _ "{#?w#}"]) auto
  qed
qed

lemma get_least:
  assumes "buffer_get b = (b', Inr e)"
  shows "\<exists>x \<in> set (pb_heap b). snd (snd x) = e \<and> mset (pb_heap b') = mset (pb_heap b) - {#x#} \<and> (\<forall>y \<in> set (pb_heap b). rank x \<le> rank y)"
proof -
  let ?x = "least_item (pb_heap b)"
  have h: "pb_heap b \<noteq> []" "e = snd (snd ?x)" "pb_heap b' = remove1 ?x (pb_heap b)"
    using assms by (auto simp: buffer_get_def Let_def split: if_splits)
  then have "?x \<in> set (pb_heap b)" by (simp add: least_item_def argmin_in)
  with h show ?thesis using least_item_min by (intro bexI [of _ ?x]) auto
qed

text \<open>
  C32: the event buffer sheds load from the bottom. Over any sequence of puts and gets it never holds more than its capacity; an event is refused only when
  every event held is at least as urgent; an accepted event displaces at most one, which is less urgent and the youngest of the least urgent ones; and a get
  returns the most urgent event, the oldest of its priority.
\<close>

theorem buffer_sheds_least_urgent:
  assumes "b = fold buffer_step ops (new_buffer n)" "0 < n"
  shows "int (length (pb_heap b)) \<le> n \<and>
    (\<forall>e b'. buffer_put e b = (b', Inr False) \<longrightarrow>
       (\<exists>p. dget PRIORITY (qe_category e) = Some p \<and> pb_heap b' = pb_heap b \<and> (\<forall>x \<in> set (pb_heap b). fst x \<le> p))) \<and>
    (\<forall>e b'. buffer_put e b = (b', Inr True) \<longrightarrow>
       (\<exists>item lost. snd (snd item) = e \<and> mset (pb_heap b') + lost = mset (pb_heap b) + {#item#} \<and>
          (lost = {#} \<or> (\<exists>x \<in> set (pb_heap b). lost = {#x#} \<and> fst item < fst x \<and> (\<forall>y \<in> set (pb_heap b). rank y \<le> rank x))))) \<and>
    (\<forall>e b'. buffer_get b = (b', Inr e) \<longrightarrow>
       (\<exists>x \<in> set (pb_heap b). snd (snd x) = e \<and> mset (pb_heap b') = mset (pb_heap b) - {#x#} \<and> (\<forall>y \<in> set (pb_heap b). rank x \<le> rank y)))"
proof -
  have "buffer_ok n (new_buffer n)" using assms(2) by (simp add: buffer_ok_def new_buffer_def)
  then have "buffer_ok n b" using buffer.run_I [of n "new_buffer n" ops] assms by blast
  then have "int (length (pb_heap b)) \<le> n" by (simp add: buffer_ok_def)
  then show ?thesis
    by (intro conjI allI impI) (assumption | erule put_refused put_accepted get_least)+
qed

theorem buffer_sheds_least_urgent_witness:
  "int (length (pb_heap (fold buffer_step [Put \<lparr>qe_category = ''scanner_low'', qe_payload = ()\<rparr>,
     Put \<lparr>qe_category = ''private_order_fill'', qe_payload = ()\<rparr>] (new_buffer 1)))) \<le> 1"
  using buffer_sheds_least_urgent [of _ "[Put \<lparr>qe_category = ''scanner_low'', qe_payload = ()\<rparr>,
     Put \<lparr>qe_category = ''private_order_fill'', qe_payload = ()\<rparr>]" 1, OF refl] by (elim conjE meta_impE) simp_all

section \<open>Properties of the budgets\<close>

fun granted :: "(rat \<times> string \<times> rat) list \<Rightarrow> Budget \<Rightarrow> rat" where
  "granted [] b = 0"
| "granted ((w, prio, t) # cs) b =
     (let (b', r) = budget_allow w prio t b in (if r = Inr True then w else 0) + granted cs b')"

definition whole :: "rat \<Rightarrow> bool" where
  "whole x \<longleftrightarrow> (\<exists>k::int. x = of_int k)"

lemma flt_whole_le:
  assumes "whole x" "whole l" "0 \<le> l" "l < 2 ^ 53" "0 \<le> x" "flt x \<le> l" shows "x \<le> l \<and> flt x = x"
proof -
  obtain k j :: int where k: "x = of_int k" and j: "l = of_int j" using assms(1,2) by (auto simp: whole_def)
  have "(of_int j :: rat) < of_int (2 ^ 53)" using assms(4) by (simp add: j)
  then have j53: "0 \<le> j" "j < 2 ^ 53" using assms(3) by (simp_all only: of_int_less_iff j of_int_0_le_iff)
  have "k \<le> j"
  proof (rule ccontr)
    assume "\<not> k \<le> j"
    then have "(of_int (j + 1) :: rat) \<le> of_int k" by (simp only: of_int_le_iff)
    then have "flt (of_int (j + 1)) \<le> flt (of_int k)" by (rule flt.R_mono)
    moreover have "flt (of_int (j + 1)) = of_int (j + 1)" using j53 by (intro flt.rnd_of_int) simp
    ultimately show False using assms(6) by (simp add: k j)
  qed
  then show ?thesis using assms(5) j53 flt.rnd_of_int [of k] by (simp add: k j)
qed

lemma budget_allow_granted:
  assumes "budget_allow w prio t b = (b', r)" "flt (t - bg_window_started b) < bg_interval_seconds b"
    and "whole w" "whole (bg_used b)" "whole (bg_limit b)" "0 \<le> bg_used b" "bg_used b \<le> bg_limit b" "bg_limit b < 2 ^ 53"
  shows "b' = b\<lparr>bg_used := bg_used b + (if r = Inr True then w else 0)\<rparr>" "0 \<le> bg_used b'" "bg_used b' \<le> bg_limit b" "whole (bg_used b')"
proof -
  have roll: "roll_window t b = b" using assms(2) by (simp add: roll_window_def)
  have res: "flt (bg_limit b - budget_reserve prio b) \<le> bg_limit b"
  proof -
    have "0 \<le> bg_limit b" using assms by linarith
    then have "0 \<le> budget_reserve prio b" by (simp add: budget_reserve_def)
    moreover have "flt (bg_limit b) = bg_limit b" using flt.rnd_of_int assms(5-8) by (auto simp: whole_def)
    ultimately show ?thesis using flt.R_mono [of "bg_limit b - budget_reserve prio b" "bg_limit b"] by simp
  qed
  have exact: "bg_used b + w \<le> bg_limit b \<and> flt (bg_used b + w) = bg_used b + w"
    if "0 < w" "flt (bg_used b + w) \<le> flt (bg_limit b - budget_reserve prio b)"
    using that assms res by (intro flt_whole_le) (auto simp: whole_def simp flip: of_int_add)
  show "b' = b\<lparr>bg_used := bg_used b + (if r = Inr True then w else 0)\<rparr>" "0 \<le> bg_used b'" "bg_used b' \<le> bg_limit b" "whole (bg_used b')"
    using assms exact by (auto simp: budget_allow_def roll Let_def not_less whole_def simp flip: of_int_add split: if_splits)
qed

text \<open>A request budget is never overspent. With a whole limit below \<open>2 ^ 53\<close> and whole weights, the weights granted within one window, by calls of any
  priority, never add up to more than what was left of the limit; the float sums the code keeps are exact.
\<close>

theorem rate_limit_never_exceeded:
  assumes "\<And>w prio t. (w, prio, t) \<in> set calls \<Longrightarrow> whole w \<and> flt (t - bg_window_started b) < bg_interval_seconds b"
    and "whole (bg_used b)" "whole (bg_limit b)" "0 \<le> bg_used b" "bg_used b \<le> bg_limit b" "bg_limit b < 2 ^ 53"
  shows "bg_used b + granted calls b \<le> bg_limit b"
  using assms
proof (induction calls arbitrary: b)
  case (Cons c cs)
  obtain w prio t where c: "c = (w, prio, t)" by (cases c)
  obtain b' r where a: "budget_allow w prio t b = (b', r)" by fastforce
  have "whole w" "flt (t - bg_window_started b) < bg_interval_seconds b" using Cons.prems(1) by (auto simp: c)
  note step = budget_allow_granted [OF a this(2,1) Cons.prems(2-6)]
  have "bg_used b' + granted cs b' \<le> bg_limit b'"
    using Cons.prems step by (intro Cons.IH) (auto simp: step(1))
  then show ?case by (simp add: c a step(1) algebra_simps)
qed simp

theorem rate_limit_never_exceeded_witness:
  "granted [(3, ''normal'', 1), (5, ''low'', 2)] \<lparr>bg_limit = 10, bg_interval_seconds = 60, bg_used = 0, bg_window_started = 0\<rparr> \<le> 10"
proof -
  have "whole (of_int k)" for k :: int by (auto simp: whole_def)
  from this [of 0] this [of 3] this [of 5] this [of 10] have "whole 0" "whole 3" "whole 5" "whole 10" by simp_all
  moreover have "flt 1 < 60" "flt 2 < 60" using flt.rnd_of_int [of 1] flt.rnd_of_int [of 2] by simp_all
  ultimately show ?thesis
    using rate_limit_never_exceeded [of "[(3, ''normal'', 1), (5, ''low'', 2)]"
        "\<lparr>bg_limit = 10, bg_interval_seconds = 60, bg_used = 0, bg_window_started = 0\<rparr>"] by force
qed

section \<open>Properties of the registry\<close>

fun digits_value :: "string \<Rightarrow> nat \<Rightarrow> nat" where
  "digits_value [] a = a"
| "digits_value (c # cs) a = digits_value cs (a * 10 + (of_char c - 48))"

lemma digits_value_append: "digits_value (xs @ ys) a = digits_value ys (digits_value xs a)"
  by (induction xs arbitrary: a) simp_all

lemma digits_value_nat_digits: "digits_value (nat_digits n) 0 = n"
proof (induction n rule: nat_digits.induct)
  case (1 n)
  have d: "of_char (char_of (48 + k)) = 48 + k" if "k < 10" for k :: nat using that by simp
  show ?case
  proof (cases "n < 10")
    case False
    with 1 d [of "n mod 10"] show ?thesis by (simp add: nat_digits.simps [of n] digits_value_append)
  qed (use d [of n] in \<open>simp add: nat_digits.simps [of n]\<close>)
qed

lemma nat_digits_inj: "nat_digits m = nat_digits n \<longleftrightarrow> m = n"
  by (metis digits_value_nat_digits)

lemma dset_new: "k \<notin> fst ` set d \<Longrightarrow> dset k v d = d @ [(k, v)]"
  by (induction d) auto

lemma fold_dset_new:
  assumes "distinct (map f xs)" "f ` set xs \<inter> fst ` set d = {}"
  shows "fold (\<lambda>x d. dset (f x) (g x) d) xs d = d @ map (\<lambda>x. (f x, g x)) xs"
  using assms
proof (induction xs arbitrary: d)
  case (Cons x xs)
  then have "dset (f x) (g x) d = d @ [(f x, g x)]" by (intro dset_new) auto
  with Cons show ?case by (auto simp del: dget_dset)
qed simp

lemma shards_concat: "concat (map (\<lambda>i. take m (drop (i * m) xs)) [0..<n]) = take (n * m) xs"
proof (induction n)
  case (Suc n)
  then show ?case by (simp add: take_add [of "n * m" m, symmetric] add.commute)
qed simp

lemma shards_enough: "0 < (m::nat) \<Longrightarrow> n \<le> (n + m - 1) div m * m"
proof -
  assume "0 < m"
  have "(n + m - 1) div m * m + (n + m - 1) mod m = n + m - 1" by simp
  moreover have "(n + m - 1) mod m < m" using \<open>0 < m\<close> by simp
  ultimately show ?thesis by linarith
qed

lemma shards_nonempty:
  assumes "0 < (m::nat)" "i < (n + m - 1) div m" shows "i * m < n"
proof -
  have "Suc i * m \<le> (n + m - 1) div m * m" using assms(2) by (intro mult_right_mono) simp_all
  also have "\<dots> \<le> n + m - 1" by simp
  finally show ?thesis using assms(1) by simp
qed

lemma connection_ids_distinct: "0 < m \<Longrightarrow> distinct (map (connection_id m) (shard_offsets n m))"
  by (auto simp: distinct_map shard_offsets_def connection_id_def nat_digits_inj inj_on_def)

lemma build_registry_shards:
  fixes c :: "'a MarketDataCoordinator"
  assumes "mc_max_streams c = m" "0 < m"
  shows "mc_registry (build_registry subs c) =
    map (\<lambda>i. (connection_id m (i * m), take m (drop (i * m) (unique_subs subs)))) [0..<(length (unique_subs subs) + m - 1) div m]"
proof -
  have "mc_registry (build_registry subs c) = map (\<lambda>x. (connection_id m x, take m (drop x (unique_subs subs)))) (shard_offsets (length (unique_subs subs)) m)"
    using fold_dset_new [OF connection_ids_distinct [OF assms(2)], of "length (unique_subs subs)" "[]" "\<lambda>x. take m (drop x (unique_subs subs))"] assms(1)
    by (simp add: build_registry_def Let_def)
  then show ?thesis by (simp add: shard_offsets_def comp_def)
qed

text \<open>The dictionary of subscriptions: every key is there with one of its subscriptions.\<close>

definition subs_dict :: "MarketSubscription list \<Rightarrow> (string, MarketSubscription) dict \<Rightarrow> bool" where
  "subs_dict subs d \<longleftrightarrow> wf_dict d \<and> (\<forall>p \<in> set d. fst p = sub_key (snd p)) \<and> snd ` set d \<subseteq> set subs \<and> fst ` set d = sub_key ` set subs"

lemma subs_dict_snoc:
  assumes "subs_dict subs d" shows "subs_dict (subs @ [s]) (dset (sub_key s) s d)"
proof -
  let ?d = "dset (sub_key s) s d"
  have d: "wf_dict d" "\<forall>p \<in> set d. fst p = sub_key (snd p)" "snd ` set d \<subseteq> set subs" "fst ` set d = sub_key ` set subs"
    using assms unfolding subs_dict_def by blast+
  have new: "\<forall>p \<in> set ?d. p = (sub_key s, s) \<or> p \<in> set d" by (metis dset_set surj_pair)
  then have "\<forall>p \<in> set ?d. fst p = sub_key (snd p)" using d(2) by auto
  moreover have "snd ` set ?d \<subseteq> set (subs @ [s])" using new d(3) by fastforce
  moreover have "fst ` set ?d = sub_key ` set (subs @ [s])" using dom_update [of "sub_key s" s d] d(4) by simp
  ultimately show ?thesis using d(1) unfolding subs_dict_def by (intro conjI wf_dict_simps)
qed

lemma subs_dict_fold: "subs_dict subs (fold (\<lambda>s d. dset (sub_key s) s d) subs [])"
  by (induction subs rule: rev_induct) (simp_all add: subs_dict_snoc, simp add: subs_dict_def)

lemma unique_subs_props:
  shows "distinct (map sub_key (unique_subs subs))" "sorted (map sub_key (unique_subs subs))"
    "set (unique_subs subs) \<subseteq> set subs" "sub_key ` set (unique_subs subs) = sub_key ` set subs"
proof -
  define d where "d = fold (\<lambda>s d. dset (sub_key s) s d) subs []"
  have d: "wf_dict d" "\<forall>p \<in> set d. fst p = sub_key (snd p)" "set (map snd d) \<subseteq> set subs" "set (map fst d) = sub_key ` set subs"
    using subs_dict_fold [of subs] unfolding d_def subs_dict_def set_map by blast+
  have keys: "map sub_key (map snd d) = map fst d" using d(2) by simp
  have u: "unique_subs subs = sort_key sub_key (map snd d)" by (simp add: unique_subs_def d_def)
  have "mset (map sub_key (unique_subs subs)) = mset (map fst d)" by (simp only: u mset_map mset_sort flip: keys)
  then show "distinct (map sub_key (unique_subs subs))" using d(1) unfolding wf_dict_def by (metis mset_eq_imp_distinct_iff)
  show "sorted (map sub_key (unique_subs subs))" by (simp add: u)
  show "set (unique_subs subs) \<subseteq> set subs" using d(3) by (simp add: u)
  show "sub_key ` set (unique_subs subs) = sub_key ` set subs"
    using d(4) arg_cong [OF keys, of set] by (simp add: u image_image)
qed

lemma sorted_keys_nodup: "wf_dict d \<Longrightarrow> distinct (sort (map fst d))"
  by (simp add: wf_dict_def)

lemma resubscribe_loop_plans:
  assumes "set cids \<subseteq> fst ` set (mc_registry c)" "distinct cids" "set cids \<inter> fst ` set plans = {}"
  shows "\<exists>c'. resubscribe_loop cids plans c = (c', Inr (plans @ map (\<lambda>k. (k, map sub_key (the (dget (mc_registry c) k)))) cids)) \<and>
    mc_registry c' = mc_registry c \<and>
    (\<forall>k. get_or (mc_generation c') k 0 = get_or (mc_generation c) k 0 + (if k \<in> set cids then 1 else 0))"
  using assms
proof (induction cids arbitrary: plans c)
  case (Cons k cids)
  define c1 where "c1 = c\<lparr>mc_generation := dset k (get_or (mc_generation c) k 0 + 1) (mc_generation c)\<rparr>"
  have reg: "mc_registry c1 = mc_registry c" by (simp add: c1_def)
  have gen: "get_or (mc_generation c1) j 0 = get_or (mc_generation c) j 0 + (if j = k then 1 else 0)" for j
    by (simp add: c1_def get_or_def)
  obtain shard where shard: "dget (mc_registry c) k = Some shard"
    using Cons.prems(1) by (metis list.set_intros(1) map_of_eq_None_iff not_None_eq subsetD)
  have "dset k (map sub_key shard) plans = plans @ [(k, map sub_key shard)]" using Cons.prems(3) by (intro dset_new) auto
  then have "resubscribe_loop (k # cids) plans c = resubscribe_loop cids (plans @ [(k, map sub_key shard)]) c1"
    by (simp add: resubscribe_plan_def shard Let_def c1_def)
  moreover obtain c' where
    "resubscribe_loop cids (plans @ [(k, map sub_key shard)]) c1 =
      (c', Inr ((plans @ [(k, map sub_key shard)]) @ map (\<lambda>k. (k, map sub_key (the (dget (mc_registry c1) k)))) cids))"
    "mc_registry c' = mc_registry c1"
    "\<forall>j. get_or (mc_generation c') j 0 = get_or (mc_generation c1) j 0 + (if j \<in> set cids then 1 else 0)"
    using Cons.IH [of c1 "plans @ [(k, map sub_key shard)]"] Cons.prems by (auto simp: reg)
  ultimately show ?case using Cons.prems(2) by (intro exI [of _ c']) (auto simp: reg shard gen)
qed simp

lemma lower_char_at [simp]: "lower_char c = CHR ''@'' \<longleftrightarrow> c = CHR ''@''"
proof (cases "65 \<le> (of_char c :: int) \<and> (of_char c :: int) \<le> 90")
  case True
  then have "(of_char (lower_char c) :: int) = of_char c + 32" by (simp add: lower_char_def Let_def)
  moreover have "(of_char (CHR ''@'') :: int) = 64" by simp
  ultimately have "lower_char c \<noteq> CHR ''@''" "c \<noteq> CHR ''@''" using True by fastforce+
  then show ?thesis by simp
qed (auto simp: lower_char_def Let_def)

lemma upper_lower_char: "upper_char (lower_char c) = upper_char c"
proof (cases "65 \<le> (of_char c :: int) \<and> (of_char c :: int) \<le> 90")
  case True
  then have "(of_char (lower_char c) :: int) = of_char c + 32" by (simp add: lower_char_def Let_def)
  with True show ?thesis by (simp add: upper_char_def Let_def)
qed (auto simp: lower_char_def Let_def)

lemma upper_of_key:
  assumes "CHR ''@'' \<notin> set (ms_symbol s)"
  shows "upper (ms_symbol s) = upper (takeWhile (\<lambda>c. c \<noteq> CHR ''@'') (sub_key s))"
proof -
  have "\<forall>c \<in> set (lower (ms_symbol s)). c \<noteq> CHR ''@''" using assms by (auto simp: lower_def)
  then have "takeWhile (\<lambda>c. c \<noteq> CHR ''@'') (sub_key s) = lower (ms_symbol s)"
    by (simp add: sub_key_def Let_def takeWhile_append2)
  then show ?thesis by (simp add: upper_def lower_def upper_lower_char)
qed

lemma registered_subs_build:
  assumes "0 < mc_max_streams c" shows "registered_subs (build_registry subs c) = unique_subs subs"
  using shards_concat [of "mc_max_streams c" "unique_subs subs" "(length (unique_subs subs) + mc_max_streams c - 1) div mc_max_streams c"]
    shards_enough [OF assms, of "length (unique_subs subs)"]
  by (simp add: registered_subs_def build_registry_shards [OF refl assms] comp_def)

lemma wf_registry: "0 < mc_max_streams c \<Longrightarrow> wf_dict (mc_registry (build_registry subs c))"
  using connection_ids_distinct [of "mc_max_streams c" "length (unique_subs subs)"]
  by (simp add: build_registry_shards [OF refl] wf_dict_def comp_def shard_offsets_def)

text \<open>Sharding the subscriptions loses none and doubles none. After \<open>build_registry\<close> the shards, in order, are the subscriptions sorted by stream
  key with one per key, every key asked for is there, no shard is empty or larger than a connection carries; and the coverage check accepts exactly the
  symbols that were asked for (symbols contain no \<open>@\<close>).
\<close>

theorem registry_partitions_subscriptions:
  fixes c :: "'a MarketDataCoordinator"
  assumes "0 < mc_max_streams c"
  shows "concat (map snd (mc_registry (build_registry subs c))) = unique_subs subs \<and>
    (\<forall>shard \<in> snd ` set (mc_registry (build_registry subs c)). shard \<noteq> [] \<and> length shard \<le> mc_max_streams c) \<and>
    distinct (map sub_key (unique_subs subs)) \<and> sorted (map sub_key (unique_subs subs)) \<and>
    sub_key ` set (unique_subs subs) = sub_key ` set subs \<and>
    ((\<forall>s \<in> set subs. CHR ''@'' \<notin> set (ms_symbol s)) \<longrightarrow>
      (\<forall>symbols. validate_subscription_coverage symbols (build_registry subs c) = Inr True \<longleftrightarrow>
         upper ` set symbols = (upper \<circ> ms_symbol) ` set subs))"
proof -
  have "concat (map snd (mc_registry (build_registry subs c))) = unique_subs subs"
    using registered_subs_build [OF assms] by (simp add: registered_subs_def)
  moreover have "\<forall>shard \<in> snd ` set (mc_registry (build_registry subs c)). shard \<noteq> [] \<and> length shard \<le> mc_max_streams c"
    using assms shards_nonempty [OF assms] by (fastforce simp: build_registry_shards [OF refl assms])
  moreover have same: "(upper \<circ> ms_symbol) ` set (unique_subs subs) = (upper \<circ> ms_symbol) ` set subs"
    if at: "\<forall>s \<in> set subs. CHR ''@'' \<notin> set (ms_symbol s)"
  proof -
    let ?g = "\<lambda>k. upper (takeWhile (\<lambda>c. c \<noteq> CHR ''@'') k)"
    have "(upper \<circ> ms_symbol) ` set xs = ?g ` sub_key ` set xs" if "set xs \<subseteq> set subs" for xs
      unfolding image_image comp_def by (rule image_cong [OF refl], rule upper_of_key) (use that at in blast)
    from this [OF unique_subs_props(3)] this [of subs] unique_subs_props(4) show ?thesis by simp
  qed
  have "(\<forall>s \<in> set subs. CHR ''@'' \<notin> set (ms_symbol s)) \<longrightarrow>
      (\<forall>symbols. validate_subscription_coverage symbols (build_registry subs c) = Inr True \<longleftrightarrow>
         upper ` set symbols = (upper \<circ> ms_symbol) ` set subs)"
    using same by (simp add: validate_subscription_coverage_def Let_def registered_subs_build [OF assms])
  ultimately show ?thesis using unique_subs_props [of subs] by blast
qed

definition example_subs :: "MarketSubscription list" where
  "example_subs = [\<lparr>ms_symbol = ''BTCUSDT'', ms_stream = ''kline'', ms_timeframe = Some ''1m''\<rparr>,
     \<lparr>ms_symbol = ''ETHUSDT'', ms_stream = ''trade'', ms_timeframe = None\<rparr>]"

definition example_coordinator :: "unit MarketDataCoordinator" where
  "example_coordinator = \<lparr>mc_max_streams = 1, mc_queue = new_buffer 8, mc_registry = [], mc_freshness = [], mc_rate_limits = [], mc_generation = []\<rparr>"

theorem registry_partitions_subscriptions_witness:
  "validate_subscription_coverage [''ethusdt'', ''BTCUSDT''] (build_registry example_subs example_coordinator) = Inr True"
proof -
  have "0 < mc_max_streams example_coordinator" "\<forall>s \<in> set example_subs. CHR ''@'' \<notin> set (ms_symbol s)"
    by (simp_all add: example_coordinator_def example_subs_def)
  moreover have "upper ` set [''ethusdt'', ''BTCUSDT''] = (upper \<circ> ms_symbol) ` set example_subs" by code_simp
  ultimately show ?thesis using registry_partitions_subscriptions [of example_coordinator example_subs] by blast
qed

text \<open>After a reconnect every shard is resubscribed with all of its stream keys, and every connection enters its next generation.\<close>

lemma reconnect_resubscribes_everything:
  assumes "0 < mc_max_streams c"
  shows "\<exists>c' plans. reconnect_resubscribe_all (build_registry subs c) = (c', Inr plans) \<and>
    (\<Union>p \<in> set plans. set (snd p)) = sub_key ` set subs \<and>
    (\<forall>k \<in> fst ` set (mc_registry c'). get_or (mc_generation c') k 0 = get_or (mc_generation (build_registry subs c)) k 0 + 1)"
proof -
  let ?c = "build_registry subs c"
  let ?ids = "sort (map fst (mc_registry ?c))"
  obtain c' where c': "resubscribe_loop ?ids [] ?c = (c', Inr (map (\<lambda>k. (k, map sub_key (the (dget (mc_registry ?c) k)))) ?ids))"
    "mc_registry c' = mc_registry ?c"
    "\<forall>k. get_or (mc_generation c') k 0 = get_or (mc_generation ?c) k 0 + (if k \<in> set ?ids then 1 else 0)"
    using resubscribe_loop_plans [of ?ids ?c "[]"] sorted_keys_nodup [OF wf_registry [OF assms]] by auto
  have "(\<Union>k \<in> fst ` set (mc_registry ?c). set (map sub_key (the (dget (mc_registry ?c) k)))) =
      (\<Union>p \<in> set (mc_registry ?c). sub_key ` set (snd p))"
    using wf_registry [OF assms, of subs] by (auto simp: wf_dict_def)
  also have "\<dots> = sub_key ` set (registered_subs ?c)" by (auto simp: registered_subs_def)
  also have "\<dots> = sub_key ` set subs" by (simp add: registered_subs_build [OF assms] unique_subs_props(4))
  finally show ?thesis using c' by (simp add: reconnect_resubscribe_all_def)
qed

section \<open>Properties of the sequence guard\<close>

fun accepted_seqs :: "string \<Rightarrow> (string \<times> int) list \<Rightarrow> SequenceGuard \<Rightarrow> int list" where
  "accepted_seqs k [] g = []"
| "accepted_seqs k ((j, n) # obs) g =
     (let (g', r) = seq_observe j n g in (if is_ok r \<and> j = k then [n] else []) @ accepted_seqs k obs g')"

lemma seq_observe_get:
  "seq_observe j n g = (g', r) \<Longrightarrow> dget g' k = (if is_ok r \<and> j = k then Some n else dget g k)"
  by (auto simp: seq_observe_def split: if_splits option.splits)

lemma seq_observe_ok: "seq_observe j n g = (g', r) \<Longrightarrow> is_ok r \<Longrightarrow> dget g j = Some m \<Longrightarrow> m < n"
  by (auto simp: seq_observe_def split: if_splits option.splits)

text \<open>Whatever mixture of streams, duplicates and reordered messages arrives, the sequence numbers the guard lets through for one stream are strictly
  increasing, and greater than the last one already seen.
\<close>

theorem sequence_guard_monotonic:
  "sorted_wrt (<) (accepted_seqs k obs g) \<and> (\<forall>m. dget g k = Some m \<longrightarrow> (\<forall>n \<in> set (accepted_seqs k obs g). m < n))"
proof (induction obs arbitrary: g)
  case (Cons o' obs)
  obtain j n where o': "o' = (j, n)" by (cases o')
  obtain g' r where s: "seq_observe j n g = (g', r)" by fastforce
  have IH: "sorted_wrt (<) (accepted_seqs k obs g')" "\<And>m x. dget g' k = Some m \<Longrightarrow> x \<in> set (accepted_seqs k obs g') \<Longrightarrow> m < x"
    using Cons [of g'] by blast+
  show ?case
  proof (cases "is_ok r \<and> j = k")
    case True
    then have "dget g' k = Some n" using seq_observe_get [OF s, of k] by simp
    with IH have "\<forall>x \<in> set (accepted_seqs k obs g'). n < x" by blast
    moreover have "m < n" if "dget g k = Some m" for m using seq_observe_ok [OF s] True that by blast
    moreover have "accepted_seqs k (o' # obs) g = n # accepted_seqs k obs g'" using True s by (simp add: o')
    ultimately show ?thesis using IH(1) by (auto intro: less_trans)
  next
    case False
    then have "dget g' k = dget g k" using seq_observe_get [OF s, of k] by (simp only: if_False)
    with IH False show ?thesis by (auto simp: o' s)
  qed
qed simp

theorem sequence_guard_monotonic_witness:
  "sorted_wrt (<) (accepted_seqs ''btc'' [(''btc'', 3), (''eth'', 9), (''btc'', 3), (''btc'', 2), (''btc'', 7)] [])"
  using sequence_guard_monotonic [of "''btc''" "[(''btc'', 3), (''eth'', 9), (''btc'', 3), (''btc'', 2), (''btc'', 7)]" "[]"] by blast

end
