(* ===== verification/Candles.thy ===== *)
theory Candles
  imports Market_Feed
begin

text \<open>
  What a decision may see: candles that are final at decision time (\<open>backend/app/data/time_alignment.py\<close>), complete and fresh
  series (\<open>data/quality.py\<close>), candles aggregated to larger intervals (\<open>data/candles.py\<close>), external data by the time it became
  available (\<open>data/point_in_time.py\<close>) and the policies of the data providers (\<open>data/providers.py\<close>). Volumes are added in the number
  type of the candles; its rounding is the argument \<open>R\<close>.
\<close>

section \<open>Comparing times\<close>

fun dt_le :: "datetime \<Rightarrow> datetime \<Rightarrow> bool res" where
  "dt_le (Aware a) (Aware b) = Inr (a \<le> b)"
| "dt_le (Naive a) (Naive b) = Inr (a \<le> b)"
| "dt_le _ _ = Inl (TypeError ''can't compare offset-naive and offset-aware datetimes'')"

section \<open>Aligned candles\<close>

record 'a AlignedCandle =
  ac_timeframe :: string
  ac_open_time :: datetime
  ac_close_time :: datetime
  ac_payload :: 'a

definition require_final :: "'a AlignedCandle \<Rightarrow> datetime \<Rightarrow> 'a AlignedCandle res" where
  "require_final c decision_time =
     (if \<not> is_aware (ac_open_time c) \<or> \<not> is_aware (ac_close_time c) \<or> \<not> is_aware decision_time
      then Inl (ValueError ''timezone-aware timestamps required'')
      else if micros (ac_close_time c) \<le> micros (ac_open_time c) then Inl (ValueError ''close_time must be after open_time'')
      else if micros (ac_close_time c) > micros decision_time then Inl (ValueError ''future/non-final candle'')
      else Inr c)"

fun eligible :: "'a AlignedCandle list \<Rightarrow> datetime \<Rightarrow> 'a AlignedCandle list res" where
  "eligible [] dt = Inr []"
| "eligible (c # cs) dt =
     bind_res (dt_le (ac_close_time c) dt) (\<lambda>ok.
       if ok then bind_res (require_final c dt) (\<lambda>x. bind_res (eligible cs dt) (\<lambda>xs. Inr (x # xs))) else eligible cs dt)"

definition align_latest_final :: "'a AlignedCandle list \<Rightarrow> datetime \<Rightarrow> 'a AlignedCandle res" where
  "align_latest_final candles dt =
     bind_res (eligible candles dt) (\<lambda>xs.
       if xs = [] then Inl (ValueError ''no final candle available at decision time'')
       else Inr (argmax (\<lambda>c. micros (ac_close_time c)) xs))"

definition align_multi_timeframe ::
  "(string, 'a AlignedCandle list) dict \<Rightarrow> datetime \<Rightarrow> (string, 'a AlignedCandle) dict res" where
  "align_multi_timeframe series dt =
     map_res (\<lambda>(tf, rows). case align_latest_final rows dt of Inl e \<Rightarrow> Inl e | Inr c \<Rightarrow> Inr (tf, c)) series"

text \<open>The clock of \<open>MonotonicTimer\<close> is read once per sample; the timer keeps the last reading.\<close>

type_synonym MonotonicTimer = "rat option"

definition timer_sample :: "rat \<Rightarrow> MonotonicTimer \<Rightarrow> MonotonicTimer \<times> rat res" where
  "timer_sample value t =
     (case t of Some prev \<Rightarrow> if value < prev then (t, Inl (RuntimeError ''MONOTONIC_CLOCK_REGRESSION'')) else (Some value, Inr value)
      | None \<Rightarrow> (Some value, Inr value))"

definition timer_elapsed :: "rat \<Rightarrow> rat \<Rightarrow> MonotonicTimer \<Rightarrow> MonotonicTimer \<times> rat res" where
  "timer_elapsed value start t =
     (case timer_sample value t of
        (t', Inl e) \<Rightarrow> (t', Inl e)
      | (t', Inr fin) \<Rightarrow> (t', if fin < start then Inl (RuntimeError ''MONOTONIC_CLOCK_REGRESSION'') else Inr (flt (fin - start))))"

section \<open>Quality of a series\<close>

definition ensure_fresh :: "datetime \<Rightarrow> int \<Rightarrow> datetime \<Rightarrow> rat res" where
  "ensure_fresh data_time max_age_seconds now =
     (if \<not> is_aware data_time then Inl (ValueError ''timezone-aware timestamp required'')
      else if \<not> is_aware now then Inl (TypeError ''can't subtract offset-naive and offset-aware datetimes'')
      else let age = total_seconds (micros now - micros data_time) in
        if age < 0 then Inl (ValueError ''future data timestamp'')
        else if age > of_int max_age_seconds then Inl (ValueError ''stale data'')
        else Inr age)"

record candle =
  cd_open_time :: datetime
  cd_close_time :: "datetime option"
  cd_closed :: "bool option"
  cd_open :: rat
  cd_high :: rat
  cd_low :: rat
  cd_close :: rat
  cd_volume :: "rat option"

definition mixed_zones :: "datetime list \<Rightarrow> bool" where
  "mixed_zones ts \<longleftrightarrow> (\<exists>a \<in> set ts. is_aware a) \<and> (\<exists>b \<in> set ts. \<not> is_aware b)"

text \<open>\<open>c.get('closed', c.get('close_time', now) <= now)\<close>: the comparison is made even where the flag is there.\<close>

definition candle_closed :: "datetime \<Rightarrow> candle \<Rightarrow> bool res" where
  "candle_closed now c =
     bind_res (dt_le (case cd_close_time c of None \<Rightarrow> now | Some t \<Rightarrow> t) now) (\<lambda>d.
       Inr (case cd_closed c of None \<Rightarrow> d | Some b \<Rightarrow> b))"

fun any_open :: "datetime \<Rightarrow> candle list \<Rightarrow> bool res" where
  "any_open now [] = Inr False"
| "any_open now (c # cs) = bind_res (candle_closed now c) (\<lambda>closed. if \<not> closed then Inr True else any_open now cs)"

definition whole_seconds :: "int \<Rightarrow> int" where
  "whole_seconds us = round_down (total_seconds us)"

definition validate_candles :: "candle list \<Rightarrow> int \<Rightarrow> int \<Rightarrow> datetime \<Rightarrow> bool res" where
  "validate_candles candles interval_seconds min_bars now =
     (let times = map cd_open_time candles in
      if int (length candles) < min_bars then Inl (ValueError ''insufficient warmup history'')
      else if \<not> distinct times then Inl (ValueError ''duplicate candle'')
      else if mixed_zones times then Inl (TypeError ''can't compare offset-naive and offset-aware datetimes'')
      else if \<not> sorted (map micros times) then Inl (ValueError ''out-of-order candle'')
      else if \<exists>(a, b) \<in> set (zip times (tl times)). whole_seconds (micros b - micros a) \<noteq> interval_seconds
      then Inl (ValueError ''candle gap'')
      else bind_res (any_open now candles) (\<lambda>o'. if o' then Inl (ValueError ''non-final candle'') else Inr True))"

definition spread_bps :: "rat \<Rightarrow> rat \<Rightarrow> rat res" where
  "spread_bps best_bid best_ask =
     (if best_bid \<le> 0 \<or> best_ask \<le> 0 \<or> best_ask < best_bid then Inl (ValueError ''invalid/crossed book'')
      else let mid = dec (dec (best_bid + best_ask) / 2) in Inr (dec (dec (dec (best_ask - best_bid) / mid) * 10000)))"

section \<open>Aggregation\<close>

definition INTERVAL_SECONDS :: "(string, int) dict" where
  "INTERVAL_SECONDS = [(''1m'', 60), (''3m'', 180), (''5m'', 300), (''15m'', 900), (''30m'', 1800), (''1h'', 3600), (''4h'', 14400), (''1d'', 86400)]"

definition is_final :: "datetime \<Rightarrow> datetime \<Rightarrow> bool res" where
  "is_final close_time now = dt_le close_time now"

fun closed_only :: "datetime \<Rightarrow> candle list \<Rightarrow> candle list res" where
  "closed_only now [] = Inr []"
| "closed_only now (c # cs) =
     (case cd_close_time c of
        None \<Rightarrow> Inl (KeyError ''close_time'')
      | Some t \<Rightarrow> bind_res (is_final t now) (\<lambda>d.
          bind_res (closed_only now cs) (\<lambda>xs.
            Inr (if (case cd_closed c of None \<Rightarrow> d | Some b \<Rightarrow> b) then c # xs else xs))))"

record bucket =
  bk_open_time :: datetime
  bk_close_time :: datetime
  bk_open :: rat
  bk_high :: rat
  bk_low :: rat
  bk_close :: rat
  bk_volume :: rat
  bk_closed :: bool

definition vol :: "candle \<Rightarrow> rat" where
  "vol c = (case cd_volume c of None \<Rightarrow> 0 | Some v \<Rightarrow> v)"

definition flagged_closed :: "candle \<Rightarrow> bool" where
  "flagged_closed c = (cd_closed c = Some True)"

definition start_epoch :: "int \<Rightarrow> candle \<Rightarrow> int" where
  "start_epoch seconds c = whole_seconds (micros (cd_open_time c)) div seconds * seconds"

definition fresh_bucket :: "datetime \<Rightarrow> datetime \<Rightarrow> candle \<Rightarrow> bucket" where
  "fresh_bucket start fin c =
     \<lparr>bk_open_time = start, bk_close_time = fin, bk_open = cd_open c, bk_high = cd_high c, bk_low = cd_low c, bk_close = cd_close c,
      bk_volume = vol c, bk_closed = flagged_closed c\<rparr>"

definition extend_bucket :: "(rat \<Rightarrow> rat) \<Rightarrow> candle \<Rightarrow> bucket \<Rightarrow> bucket" where
  "extend_bucket R c b =
     b\<lparr>bk_high := max (bk_high b) (cd_high c), bk_low := min (bk_low b) (cd_low c), bk_close := cd_close c,
       bk_volume := R (bk_volume b + vol c), bk_closed := bk_closed b \<and> flagged_closed c\<rparr>"

definition aggregate_step :: "(rat \<Rightarrow> rat) \<Rightarrow> int \<Rightarrow> candle \<Rightarrow> (datetime, bucket) dict \<Rightarrow> (datetime, bucket) dict res" where
  "aggregate_step R seconds c buckets =
     (if \<not> is_aware (cd_open_time c) then Inl (ValueError ''candle open_time must be timezone-aware'')
      else bind_res (fromtimestamp (of_int (start_epoch seconds c))) (\<lambda>start.
        case dget buckets start of
          None \<Rightarrow> bind_res (fromtimestamp (of_int (start_epoch seconds c + seconds))) (\<lambda>fin.
                    Inr (dset start (fresh_bucket start fin c) buckets))
        | Some b \<Rightarrow> Inr (dset start (extend_bucket R c b) buckets)))"

definition aggregate_ohlcv :: "(rat \<Rightarrow> rat) \<Rightarrow> candle list \<Rightarrow> string \<Rightarrow> bucket list res" where
  "aggregate_ohlcv R candles timeframe =
     (case dget INTERVAL_SECONDS timeframe of
        None \<Rightarrow> Inl (ValueError ''unsupported timeframe'')
      | Some seconds \<Rightarrow>
        bind_res (fold (\<lambda>c r. bind_res r (aggregate_step R seconds c)) candles (Inr [])) (\<lambda>buckets.
          Inr (map snd (sort_key (micros \<circ> fst) buckets))))"

section \<open>Point in time data\<close>

definition ALLOWED_DATA_TYPES :: "string list" where
  "ALLOWED_DATA_TYPES = [''MACRO'', ''ETF_FLOW'', ''FUNDING'', ''OPEN_INTEREST'', ''LIQUIDATION'', ''ONCHAIN'', ''NEWS_SENTIMENT'',
     ''EXCHANGE_STATUS_FILTER'']"

record 'a AvailabilityRecord =
  ar_record_id :: string
  ar_data_type :: string
  ar_key :: string
  ar_value :: 'a
  ar_event_time :: datetime
  ar_published_at :: datetime
  ar_available_at :: datetime
  ar_persisted_at :: datetime
  ar_source :: string
  ar_vintage_id :: "string option"

definition new_availability_record :: "'a AvailabilityRecord \<Rightarrow> 'a AvailabilityRecord res" where
  "new_availability_record r =
     (if ar_data_type r \<notin> set ALLOWED_DATA_TYPES then Inl (ValueError ''unsupported point-in-time data_type'')
      else if \<not> (is_aware (ar_event_time r) \<and> is_aware (ar_published_at r) \<and> is_aware (ar_available_at r) \<and> is_aware (ar_persisted_at r))
      then Inl (ValueError ''all point-in-time timestamps must be timezone-aware'')
      else if \<not> (micros (ar_event_time r) \<le> micros (ar_published_at r) \<and> micros (ar_published_at r) \<le> micros (ar_available_at r) \<and>
                 micros (ar_available_at r) \<le> micros (ar_persisted_at r))
      then Inl (ValueError ''event/published/available/persisted timestamps must be monotonic'')
      else if strip (ar_record_id r) = [] \<or> strip (ar_key r) = [] \<or> strip (ar_source r) = []
      then Inl (ValueError ''record identity/source fields are required'')
      else if ar_data_type r = ''MACRO'' \<and> (case ar_vintage_id r of None \<Rightarrow> True | Some v \<Rightarrow> strip v = [])
      then Inl (ValueError ''macro records require vintage_id/realtime release identity'')
      else Inr r)"

type_synonym 'a PointInTimeStore = "'a AvailabilityRecord list"

definition pit_append :: "'a AvailabilityRecord \<Rightarrow> 'a PointInTimeStore \<Rightarrow> 'a PointInTimeStore \<times> 'a AvailabilityRecord res" where
  "pit_append r st =
     (if list_ex (\<lambda>x. ar_record_id x = ar_record_id r) st then (st, Inl (ValueError ''record id duplicate'')) else (st @ [r], Inr r))"

definition pit_key :: "'a AvailabilityRecord \<Rightarrow> int \<times> int \<times> string" where
  "pit_key r = (micros (ar_event_time r), micros (ar_available_at r), ar_record_id r)"

definition available_as_of :: "datetime \<Rightarrow> string option \<Rightarrow> string option \<Rightarrow> 'a PointInTimeStore \<Rightarrow> 'a AvailabilityRecord list res" where
  "available_as_of as_of data_type key st =
     (if \<not> is_aware as_of then Inl (ValueError ''as_of must be timezone-aware'')
      else Inr (sort_key pit_key (filter (\<lambda>r. micros (ar_available_at r) \<le> micros as_of \<and>
             (case data_type of None \<Rightarrow> True | Some d \<Rightarrow> ar_data_type r = d) \<and> (case key of None \<Rightarrow> True | Some k \<Rightarrow> ar_key r = k)) st)))"

definition latest_available :: "datetime \<Rightarrow> string \<Rightarrow> string \<Rightarrow> 'a PointInTimeStore \<Rightarrow> 'a AvailabilityRecord option res" where
  "latest_available as_of data_type key st =
     bind_res (available_as_of as_of (Some data_type) (Some key) st) (\<lambda>rows. Inr (if rows = [] then None else Some (last rows)))"

section \<open>Data providers\<close>

record DataProviderPolicy =
  dp_provider_id :: string
  dp_data_type :: string
  dp_official_source :: string
  dp_license_tos :: string
  dp_redistribution_allowed :: bool
  dp_attribution_requirements :: string
  dp_retention_restrictions :: string
  dp_rate_limits :: string
  dp_commercial_constraints :: string
  dp_timezone_semantics :: string
  dp_revision_vintage_semantics :: string
  dp_data_quality_owner :: string
  dp_adapter_version :: string

type_synonym DataProviderRegistry = "(string, DataProviderPolicy) dict"

definition dp_register :: "DataProviderPolicy \<Rightarrow> DataProviderRegistry \<Rightarrow> DataProviderRegistry \<times> unit res" where
  "dp_register p items =
     (if dp_provider_id p = [] \<or> dp_official_source p = [] \<or> dp_license_tos p = [] \<or> dp_adapter_version p = []
      then (items, Inl (ValueError ''provider governance metadata incomplete''))
      else if (case dget items (dp_provider_id p) of None \<Rightarrow> False | Some old \<Rightarrow> old \<noteq> p)
      then (items, Inl (ValueError ''provider policy change requires versioned provider_id or explicit migration''))
      else (dset (dp_provider_id p) p items, Inr ()))"

definition dp_get :: "string \<Rightarrow> DataProviderRegistry \<Rightarrow> DataProviderPolicy res" where
  "dp_get provider_id items = (case dget items provider_id of None \<Rightarrow> Inl (KeyError provider_id) | Some p \<Rightarrow> Inr p)"

text \<open>The digest is SHA-256 over the sorted JSON text of the policies.\<close>

definition dp_snapshot :: "(DataProviderPolicy list \<Rightarrow> string) \<Rightarrow> DataProviderRegistry \<Rightarrow> DataProviderPolicy list \<times> string" where
  "dp_snapshot digest items = (let body = map snd (sort_key fst items) in (body, digest body))"

definition assert_usage_allowed :: "string \<Rightarrow> bool \<Rightarrow> bool \<Rightarrow> DataProviderRegistry \<Rightarrow> unit res" where
  "assert_usage_allowed provider_id redistribute commercial items =
     bind_res (dp_get provider_id items) (\<lambda>p.
       if redistribute \<and> \<not> dp_redistribution_allowed p then Inl (PermissionError ''provider policy forbids redistribution'')
       else if commercial \<and> contains (lower (dp_commercial_constraints p)) ''non-commercial''
       then Inl (PermissionError ''provider policy forbids commercial use'')
       else Inr ())"

section \<open>No candle from the future\<close>

lemma eligible_sound:
  assumes "eligible cs dt = Inr xs"
  shows "set xs = {c \<in> set cs. micros (ac_close_time c) \<le> micros dt}"
    "\<forall>c \<in> set xs. is_aware (ac_close_time c) \<and> is_aware dt \<and> micros (ac_open_time c) < micros (ac_close_time c)"
proof -
  have "set xs = {c \<in> set cs. micros (ac_close_time c) \<le> micros dt} \<and>
    (\<forall>c \<in> set xs. is_aware (ac_close_time c) \<and> is_aware dt \<and> micros (ac_open_time c) < micros (ac_close_time c))"
    using assms
  proof (induction cs arbitrary: xs)
    case (Cons c cs)
    then obtain b where b: "dt_le (ac_close_time c) dt = Inr b" by (auto simp: bind_res_Inr)
    then have b': "b \<longleftrightarrow> micros (ac_close_time c) \<le> micros dt" by (cases "ac_close_time c"; cases dt) auto
    show ?case
    proof (cases b)
      case True
      then obtain ys where "require_final c dt = Inr c" and ys: "eligible cs dt = Inr ys" "xs = c # ys"
        using Cons.prems b by (auto simp: bind_res_Inr require_final_def split: if_splits)
      then have "is_aware (ac_close_time c) \<and> is_aware dt \<and> micros (ac_open_time c) < micros (ac_close_time c)"
        by (auto simp: require_final_def split: if_splits)
      with Cons.IH [OF ys(1)] True b' show ?thesis by (auto simp: ys(2))
    next
      case False
      with Cons b b' show ?thesis by auto
    qed
  qed simp
  then show "set xs = {c \<in> set cs. micros (ac_close_time c) \<le> micros dt}"
    "\<forall>c \<in> set xs. is_aware (ac_close_time c) \<and> is_aware dt \<and> micros (ac_open_time c) < micros (ac_close_time c)" by simp_all
qed

definition latest_final :: "'a AlignedCandle list \<Rightarrow> datetime \<Rightarrow> 'a AlignedCandle \<Rightarrow> bool" where
  "latest_final rows dt c \<longleftrightarrow> c \<in> set rows \<and> micros (ac_open_time c) < micros (ac_close_time c) \<and> micros (ac_close_time c) \<le> micros dt \<and>
     (\<forall>c' \<in> set rows. micros (ac_close_time c') \<le> micros dt \<longrightarrow> micros (ac_close_time c') \<le> micros (ac_close_time c))"

lemma align_latest_final_sound:
  assumes "align_latest_final rows dt = Inr c" shows "latest_final rows dt c"
proof -
  let ?f = "\<lambda>c. micros (ac_close_time c)"
  obtain xs where xs: "eligible rows dt = Inr xs" "xs \<noteq> []" "c = argmax ?f xs"
    using assms by (auto simp: align_latest_final_def bind_res_Inr split: if_splits)
  note e = eligible_sound [OF xs(1)]
  have "c \<in> set xs" using xs(2,3) argmax_in by blast
  moreover have "?f c' \<le> ?f c" if "c' \<in> set xs" for c' using argmax_max [of c' xs ?f] that xs(3) by simp
  ultimately show ?thesis using e by (auto simp: latest_final_def)
qed

lemma map_res_list_all2: "map_res f xs = Inr ys \<Longrightarrow> list_all2 (\<lambda>x y. f x = Inr y) xs ys"
  by (induction xs arbitrary: ys) (auto split: sum.splits)

text \<open>No decision sees the future. Every candle that \<open>align_multi_timeframe\<close> returns belongs to its timeframe's series, had closed at decision time, and no
  later final candle of the series was passed over.
\<close>

theorem alignment_no_lookahead:
  assumes "align_multi_timeframe series dt = Inr out"
  shows "list_all2 (\<lambda>s r. fst r = fst s \<and> latest_final (snd s) dt (snd r)) series out"
  using map_res_list_all2 [OF assms [unfolded align_multi_timeframe_def]]
  by (rule list_all2_mono) (auto split: sum.splits dest: align_latest_final_sound)

definition example_series :: "(string, nat AlignedCandle list) dict" where
  "example_series = [(''1m'', [\<lparr>ac_timeframe = ''1m'', ac_open_time = Aware 0, ac_close_time = Aware 60, ac_payload = 1\<rparr>,
     \<lparr>ac_timeframe = ''1m'', ac_open_time = Aware 60, ac_close_time = Aware 120, ac_payload = 2\<rparr>,
     \<lparr>ac_timeframe = ''1m'', ac_open_time = Aware 120, ac_close_time = Aware 180, ac_payload = 3\<rparr>])]"

theorem alignment_no_lookahead_witness:
  "latest_final (snd (hd example_series)) (Aware 130) \<lparr>ac_timeframe = ''1m'', ac_open_time = Aware 60, ac_close_time = Aware 120, ac_payload = 2\<rparr>"
proof -
  have "align_multi_timeframe example_series (Aware 130) =
      Inr [(''1m'', \<lparr>ac_timeframe = ''1m'', ac_open_time = Aware 60, ac_close_time = Aware 120, ac_payload = 2\<rparr>)]"
    by (simp add: example_series_def align_multi_timeframe_def align_latest_final_def require_final_def argmax_def)
  from alignment_no_lookahead [OF this] show ?thesis by (simp add: example_series_def)
qed

section \<open>Aggregation is grouping\<close>

text \<open>The reference: one bucket per start, built from the group of its candles.\<close>

definition group_bucket :: "(rat \<Rightarrow> rat) \<Rightarrow> int \<Rightarrow> int \<Rightarrow> candle list \<Rightarrow> bucket" where
  "group_bucket R seconds e g =
     \<lparr>bk_open_time = Aware (e * 1000000), bk_close_time = Aware ((e + seconds) * 1000000), bk_open = cd_open (hd g),
      bk_high = Max (set (map cd_high g)), bk_low = Min (set (map cd_low g)), bk_close = cd_close (last g),
      bk_volume = foldl (\<lambda>a v. R (a + v)) (vol (hd g)) (map vol (tl g)), bk_closed = list_all flagged_closed g\<rparr>"

definition groups :: "(rat \<Rightarrow> rat) \<Rightarrow> int \<Rightarrow> candle list \<Rightarrow> bucket list" where
  "groups R seconds cs =
     map (\<lambda>e. group_bucket R seconds e (filter (\<lambda>c. start_epoch seconds c = e) cs)) (sorted_set (map (start_epoch seconds) cs))"

lemma fromtimestamp_whole:
  assumes "-62135596800 \<le> e" "e \<le> 253402300799" shows "fromtimestamp (of_int e) = Inr (Aware (e * 1000000))"
  using assms by (simp add: fromtimestamp_def round_down_def Let_def)

definition in_range :: "int \<Rightarrow> candle \<Rightarrow> bool" where
  "in_range seconds c \<longleftrightarrow> is_aware (cd_open_time c) \<and> -62135596800 \<le> start_epoch seconds c \<and> start_epoch seconds c + seconds \<le> 253402300799"

definition grouped :: "(rat \<Rightarrow> rat) \<Rightarrow> int \<Rightarrow> candle list \<Rightarrow> (datetime, bucket) dict \<Rightarrow> bool" where
  "grouped R seconds cs d \<longleftrightarrow> wf_dict d \<and> (\<forall>e. dget d (Aware (e * 1000000)) =
     (let g = filter (\<lambda>c. start_epoch seconds c = e) cs in if g = [] then None else Some (group_bucket R seconds e g))) \<and>
     fst ` set d = (\<lambda>c. Aware (start_epoch seconds c * 1000000)) ` set cs"

lemma group_bucket_snoc: "g \<noteq> [] \<Longrightarrow> group_bucket R s e (g @ [c]) = extend_bucket R c (group_bucket R s e g)"
  by (simp add: group_bucket_def extend_bucket_def max.commute [of "Max _"] min.commute [of "Min _"])

lemma group_bucket_single: "group_bucket R s e [c] = fresh_bucket (Aware (e * 1000000)) (Aware ((e + s) * 1000000)) c"
  by (simp add: group_bucket_def fresh_bucket_def)

lemma aggregate_step_grouped:
  assumes "grouped R seconds cs d" "in_range seconds c" "0 < seconds"
  shows "\<exists>d'. aggregate_step R seconds c d = Inr d' \<and> grouped R seconds (cs @ [c]) d'"
proof -
  let ?e = "start_epoch seconds c"
  let ?g = "filter (\<lambda>x. start_epoch seconds x = ?e) cs"
  let ?b = "group_bucket R seconds ?e (?g @ [c])"
  have ts: "fromtimestamp (of_int ?e) = Inr (Aware (?e * 1000000))"
    "fromtimestamp (of_int ?e + of_int seconds) = Inr (Aware ((?e + seconds) * 1000000))" "is_aware (cd_open_time c)"
    using assms(2,3) fromtimestamp_whole [of ?e] fromtimestamp_whole [of "?e + seconds"] by (simp_all add: in_range_def)
  have d: "wf_dict d" "dget d (Aware (?e * 1000000)) = (if ?g = [] then None else Some (group_bucket R seconds ?e ?g))"
    using assms(1) by (simp_all add: grouped_def Let_def)
  have "aggregate_step R seconds c d = Inr (dset (Aware (?e * 1000000)) ?b d)"
  proof (cases "?g = []")
    case True
    with ts d show ?thesis by (simp add: aggregate_step_def group_bucket_single)
  next
    case False
    with ts d(2) show ?thesis unfolding aggregate_step_def group_bucket_snoc [OF False] by (simp only: if_False bind_res_simps option.case simp_thms)
  qed
  moreover have "grouped R seconds (cs @ [c]) (dset (Aware (?e * 1000000)) ?b d)"
    using assms(1) dom_update [of "Aware (?e * 1000000)" ?b d] unfolding grouped_def by (simp add: Let_def)
  ultimately show ?thesis by blast
qed

lemma aggregate_grouped:
  assumes "\<forall>c \<in> set cs. in_range seconds c" "0 < seconds"
  shows "\<exists>d. fold (\<lambda>c r. bind_res r (aggregate_step R seconds c)) cs (Inr []) = Inr d \<and> grouped R seconds cs d"
  using assms(1)
proof (induction cs rule: rev_induct)
  case (snoc c cs)
  then obtain d where "fold (\<lambda>c r. bind_res r (aggregate_step R seconds c)) cs (Inr []) = Inr d" "grouped R seconds cs d" by auto
  with aggregate_step_grouped [OF this(2), of c] snoc.prems assms(2) show ?case by simp
qed (simp add: grouped_def)

lemma sorted_buckets:
  assumes "grouped R seconds cs d" shows "map snd (sort_key (micros \<circ> fst) d) = groups R seconds cs"
proof -
  let ?es = "sorted_set (map (start_epoch seconds) cs)"
  let ?bucket = "\<lambda>e. group_bucket R seconds e (filter (\<lambda>c. start_epoch seconds c = e) cs)"
  let ?ys = "map (\<lambda>e. (Aware (e * 1000000), ?bucket e)) ?es"
  have wf: "wf_dict d" and get: "\<And>e. dget d (Aware (e * 1000000)) =
     (let g = filter (\<lambda>c. start_epoch seconds c = e) cs in if g = [] then None else Some (group_bucket R seconds e g))"
    and keys: "fst ` set d = (\<lambda>c. Aware (start_epoch seconds c * 1000000)) ` set cs"
    using assms unfolding grouped_def by blast+
  have here: "dget d (Aware (start_epoch seconds c * 1000000)) = Some (?bucket (start_epoch seconds c))" if "c \<in> set cs" for c
    using get [of "start_epoch seconds c"] that by (auto simp: Let_def filter_empty_conv)
  have "p \<in> set ?ys" if p: "p \<in> set d" for p
  proof -
    have "fst p \<in> (\<lambda>c. Aware (start_epoch seconds c * 1000000)) ` set cs" using p unfolding keys [symmetric] by (rule imageI)
    then obtain c where c: "c \<in> set cs" "fst p = Aware (start_epoch seconds c * 1000000)" by (rule imageE)
    have "dget d (fst p) = Some (snd p)" using p wf_dict_mem [OF wf, of "fst p" "snd p"] by simp
    with here [OF c(1)] have "p = (Aware (start_epoch seconds c * 1000000), ?bucket (start_epoch seconds c))"
      by (simp only: c(2) prod_eq_iff fst_conv snd_conv option.inject simp_thms)
    with c(1) show ?thesis by simp
  qed
  moreover have "p \<in> set d" if "p \<in> set ?ys" for p using that here wf by (auto simp: wf_dict_mem)
  ultimately have "set d = set ?ys" by blast
  moreover have "distinct d" using wf unfolding wf_dict_def distinct_map by blast
  moreover have "distinct ?ys" by (auto simp: distinct_map inj_on_def)
  ultimately have ms: "mset d = mset ?ys" using set_eq_iff_mset_eq_distinct by blast
  have "inj_on (micros \<circ> fst) (set d)"
    by (simp add: \<open>set d = set ?ys\<close> inj_on_def)
  moreover have "sorted (map (micros \<circ> fst) ?ys)"
    by (simp add: comp_def sorted_map)
  ultimately have "sort_key (micros \<circ> fst) d = ?ys" using ms by (intro sort_key_inj_key_eq) simp_all
  then show ?thesis by (simp add: groups_def comp_def)
qed

text \<open>
  C31: aggregating candles is grouping them by the start of their interval: for every supported timeframe the result is one candle per start, in the order of
  time, whose open is the first of the group, high and low its extremes, close its last, volume its sum in the candles' arithmetic, and which counts as
  closed when every member is.
\<close>

theorem aggregation_is_grouping:
  assumes "dget INTERVAL_SECONDS tf = Some seconds" "\<forall>c \<in> set cs. in_range seconds c"
  shows "aggregate_ohlcv R cs tf = Inr (groups R seconds cs)"
proof -
  have "0 < seconds" using map_of_SomeD [OF assms(1)] by (auto simp: INTERVAL_SECONDS_def)
  from aggregate_grouped [OF assms(2) this, of R] show ?thesis
    by (auto simp: aggregate_ohlcv_def assms(1) sorted_buckets)
qed

definition example_candle :: "int \<Rightarrow> rat \<Rightarrow> candle" where
  "example_candle t x = \<lparr>cd_open_time = Aware (t * 1000000), cd_close_time = None, cd_closed = Some True, cd_open = x, cd_high = x + 2, cd_low = x - 1,
     cd_close = x + 1, cd_volume = Some 5\<rparr>"

theorem aggregation_is_grouping_witness:
  "aggregate_ohlcv dec [example_candle 60 100, example_candle 360 101, example_candle 120 99] ''5m'' =
   Inr (groups dec 300 [example_candle 60 100, example_candle 360 101, example_candle 120 99])"
proof -
  have "whole_seconds (k * 1000000) = k" if "\<bar>k\<bar> \<le> 2 ^ 53" for k
    using flt.rnd_of_int [of k] that by (simp add: whole_seconds_def total_seconds_def round_down_def)
  from this [of 60] this [of 360] this [of 120] show ?thesis
    by (intro aggregation_is_grouping) (simp_all add: INTERVAL_SECONDS_def in_range_def example_candle_def start_epoch_def)
qed

section \<open>Point in time\<close>

lemma sort_filter_last: "sorted (map f xs) \<Longrightarrow> xs \<noteq> [] \<Longrightarrow> x \<in> set xs \<Longrightarrow> f x \<le> f (last xs)"
  using sorted_le_last [of "map f xs" "f x"] by (simp add: last_map)

text \<open>A backtest at a point in time cannot see later data. What the store returns for a time had been published and available by then, is untouched by every
  record that becomes available later, whenever it is appended, and the latest record is the one with the greatest event time among them.
\<close>

theorem point_in_time_no_lookahead:
  fixes st :: "'a PointInTimeStore"
  assumes "\<forall>r \<in> set st. is_ok (new_availability_record r)" "available_as_of as_of dt key st = Inr rows"
  shows "(\<forall>r \<in> set rows. r \<in> set st \<and> micros (ar_event_time r) \<le> micros (ar_published_at r) \<and> micros (ar_published_at r) \<le> micros as_of) \<and>
    (\<forall>later. (\<forall>r \<in> set later. micros as_of < micros (ar_available_at r)) \<longrightarrow>
       available_as_of as_of dt key (fold (\<lambda>r s. fst (pit_append r s)) later st) = Inr rows) \<and>
    (\<forall>d k r. dt = Some d \<longrightarrow> key = Some k \<longrightarrow> r \<in> set rows \<longrightarrow>
       (\<exists>l. latest_available as_of d k st = Inr (Some l) \<and> l \<in> set rows \<and> micros (ar_event_time r) \<le> micros (ar_event_time l)))"
proof (intro conjI allI impI ballI)
  have aware: "is_aware as_of" and rows: "rows = sort_key pit_key (filter (\<lambda>r. micros (ar_available_at r) \<le> micros as_of \<and>
      (case dt of None \<Rightarrow> True | Some d \<Rightarrow> ar_data_type r = d) \<and> (case key of None \<Rightarrow> True | Some k \<Rightarrow> ar_key r = k)) st)"
    using assms(2) by (simp_all add: available_as_of_def split: if_splits)
  {
    fix r :: "'a AvailabilityRecord" assume "r \<in> set rows"
    then have r: "r \<in> set st" "micros (ar_available_at r) \<le> micros as_of" by (simp_all add: rows)
    then show "r \<in> set st" "micros (ar_event_time r) \<le> micros (ar_published_at r)" "micros (ar_published_at r) \<le> micros as_of"
      using assms(1) by (force simp: new_availability_record_def split: if_splits)+
  next
    fix later :: "'a AvailabilityRecord list" assume "\<forall>r \<in> set later. micros as_of < micros (ar_available_at r)"
    then show "available_as_of as_of dt key (fold (\<lambda>r s. fst (pit_append r s)) later st) = Inr rows"
      using assms(2)
    proof (induction later arbitrary: st)
      case (Cons r later)
      have "available_as_of as_of dt key (fst (pit_append r st)) = available_as_of as_of dt key st"
        using Cons.prems(1) by (simp add: pit_append_def available_as_of_def)
      with Cons show ?case by simp
    qed simp
  next
    fix d k and r :: "'a AvailabilityRecord" assume q: "dt = Some d" "key = Some k" "r \<in> set rows"
    then have "latest_available as_of d k st = Inr (Some (last rows))" using assms(2) by (auto simp: latest_available_def)
    moreover have "last rows \<in> set rows" using q(3) by (metis last_in_set length_greater_0_conv length_pos_if_in_set)
    moreover have "pit_key r \<le> pit_key (last rows)" using q(3) by (intro sort_filter_last) (auto simp: rows simp flip: set_empty)
    ultimately show "\<exists>l. latest_available as_of d k st = Inr (Some l) \<and> l \<in> set rows \<and> micros (ar_event_time r) \<le> micros (ar_event_time l)"
      by (intro exI [of _ "last rows"]) (auto simp: pit_key_def less_eq_prod_def)
  }
qed

definition example_record :: "string \<Rightarrow> int \<Rightarrow> unit AvailabilityRecord" where
  "example_record i t = \<lparr>ar_record_id = i, ar_data_type = ''FUNDING'', ar_key = ''BTC'', ar_value = (), ar_event_time = Aware t, ar_published_at = Aware (t + 1),
     ar_available_at = Aware (t + 2), ar_persisted_at = Aware (t + 3), ar_source = ''x'', ar_vintage_id = None\<rparr>"

theorem point_in_time_no_lookahead_witness:
  "available_as_of (Aware 10) (Some ''FUNDING'') (Some ''BTC'') (fold (\<lambda>r s. fst (pit_append r s)) [example_record ''c'' 9] [example_record ''a'' 5]) =
   Inr [example_record ''a'' 5]"
proof -
  have "\<forall>r \<in> set [example_record ''a'' 5]. is_ok (new_availability_record r)"
    by (simp add: example_record_def new_availability_record_def ALLOWED_DATA_TYPES_def strip_eq_Nil is_space_def)
  moreover have "available_as_of (Aware 10) (Some ''FUNDING'') (Some ''BTC'') [example_record ''a'' 5] = Inr [example_record ''a'' 5]"
    by (simp add: available_as_of_def example_record_def)
  moreover have "\<forall>r \<in> set [example_record ''c'' 9]. micros (Aware 10) < micros (ar_available_at r)" by (simp add: example_record_def)
  ultimately show ?thesis using point_in_time_no_lookahead by blast
qed

section \<open>Provider policies\<close>

text \<open>A provider's policy never changes once it is registered: a registry only grows.\<close>

lemma dp_register_grows:
  assumes "dp_register p items = (items', r)" "dget items k = Some q" shows "dget items' k = Some q"
  using assms by (auto simp: dp_register_def split: if_splits option.splits)

interpretation providers: preserved "\<lambda>p items. fst (dp_register p items)" "\<lambda>items. dget items k = Some q" for k q
  using dp_register_grows by unfold_locales (metis prod.collapse)

end
