(* ===== verification/Audit_Trail.thy ===== *)
theory Audit_Trail
  imports Risk_State "HOL-Library.Product_Lexorder"
begin

text \<open>
  Tamper evidence: the hash chains of \<open>backend/app/core/audit.py\<close>, \<open>audit/worm.py\<close> and \<open>database/audit_store.py\<close>, the Merkle checkpoints
  of \<open>audit/checkpoint.py\<close>, the sink policy of \<open>audit/storage.py\<close> and the failure classes of \<open>core/storage_health.py\<close>. SHA-256 and HMAC over the
  canonical JSON text of a payload are functions of the payload, arguments of the definitions; where a property needs that they do not collide, it says so for the
  payloads at hand. The three chains share one contract, the locale \<open>hash_chain\<close>.
\<close>

section \<open>Chains in general\<close>

fun chained :: "('e \<Rightarrow> string) \<Rightarrow> ('e \<Rightarrow> string) \<Rightarrow> ('e \<Rightarrow> string) \<Rightarrow> string \<Rightarrow> 'e list \<Rightarrow> bool" where
  "chained prv cur dig p [] = True"
| "chained prv cur dig p (e # es) = (prv e = p \<and> cur e = dig e \<and> chained prv cur dig (cur e) es)"

definition head_hash :: "string \<Rightarrow> ('e \<Rightarrow> string) \<Rightarrow> 'e list \<Rightarrow> string" where
  "head_hash genesis cur es = (if es = [] then genesis else cur (last es))"

lemma chained_snoc:
  "chained prv cur dig p (es @ [e]) \<longleftrightarrow> chained prv cur dig p es \<and> prv e = head_hash p cur es \<and> cur e = dig e"
  by (induction es arbitrary: p) (auto simp: head_hash_def)

locale hash_chain =
  fixes prv cur :: "'e \<Rightarrow> string" and body :: "'e \<Rightarrow> 'b"
  assumes same_entry: "body e = body e' \<Longrightarrow> cur e = cur e' \<Longrightarrow> e = e'"
    and same_prv: "body e = body e' \<Longrightarrow> prv e = prv e'"
begin

lemma nonempty_head:
  assumes "chained prv cur (\<lambda>e. h (body e)) g es" "\<forall>e \<in> set es. h (body e) \<noteq> g" "es \<noteq> []"
  shows "head_hash g cur es \<noteq> g"
  using assms by (cases es rule: rev_cases) (simp_all add: chained_snoc head_hash_def)

lemma same_head_same_chain:
  assumes "chained prv cur (\<lambda>e. h (body e)) g xs" "chained prv cur (\<lambda>e. h (body e)) g ys"
    and "inj_on h (body ` (set xs \<union> set ys))" "\<forall>e \<in> set xs \<union> set ys. h (body e) \<noteq> g"
    and "head_hash g cur xs = head_hash g cur ys"
  shows "xs = ys"
  using assms
proof (induction xs arbitrary: ys rule: rev_induct)
  case Nil
  then have "head_hash g cur ys = g" by (simp add: head_hash_def)
  with Nil.prems(2,4) nonempty_head [of h g ys] show ?case by auto
next
  case (snoc x xs)
  show ?case
  proof (cases ys rule: rev_cases)
    case Nil
    then have "head_hash g cur (xs @ [x]) = g" using snoc.prems(5) by (simp add: head_hash_def)
    with snoc.prems(1,4) nonempty_head [of h g "xs @ [x]"] show ?thesis by simp
  next
    case (snoc zs y)
    note zs = this
    have x: "cur x = h (body x)" "prv x = head_hash g cur xs" and y: "cur y = h (body y)" "prv y = head_hash g cur zs"
      using snoc.prems(1,2) by (simp_all add: chained_snoc zs)
    have cur: "cur x = cur y" using snoc.prems(5) by (simp add: head_hash_def zs)
    with x y have body: "body x = body y" using inj_onD [OF snoc.prems(3), of "body x" "body y"] by (simp add: zs)
    have "head_hash g cur xs = head_hash g cur zs" using same_prv [OF body] x(2) y(2) by simp
    with snoc.prems have "xs = zs" by (intro snoc.IH) (auto simp: chained_snoc zs elim: inj_on_subset)
    with same_entry [OF body cur] show ?thesis by (simp add: zs)
  qed
qed

end

section \<open>The in-memory chain\<close>

record AuditEntry =
  au_previous_hash :: string
  au_current_hash :: string
  au_actor :: string
  au_action :: string
  au_object_ref :: string
  au_correlation_id :: string
  au_timestamp :: string
  au_reason :: string
  au_release_version :: string

text \<open>The payload that is hashed: every field but \<open>current_hash\<close>.\<close>

type_synonym audit_payload = "string \<times> string \<times> string \<times> string \<times> string \<times> string \<times> string \<times> string"

definition entry_payload :: "AuditEntry \<Rightarrow> audit_payload" where
  "entry_payload e = (au_previous_hash e, au_actor e, au_action e, au_object_ref e, au_correlation_id e, au_timestamp e, au_reason e, au_release_version e)"

definition audit_append ::
  "(audit_payload \<Rightarrow> string) \<Rightarrow> string \<Rightarrow> string \<Rightarrow> string \<Rightarrow> string \<Rightarrow> string \<Rightarrow> string \<Rightarrow> string \<Rightarrow> AuditEntry list \<Rightarrow> AuditEntry list \<times> AuditEntry" where
  "audit_append h ts actor action object_ref correlation_id reason release_version entries =
     (let prv = (if entries = [] then ''GENESIS'' else au_current_hash (last entries));
          entry = \<lparr>au_previous_hash = prv, au_current_hash = h (prv, actor, action, object_ref, correlation_id, ts, reason, release_version),
                   au_actor = actor, au_action = action, au_object_ref = object_ref, au_correlation_id = correlation_id, au_timestamp = ts,
                   au_reason = reason, au_release_version = release_version\<rparr>
      in (entries @ [entry], entry))"

fun audit_verify_from :: "(audit_payload \<Rightarrow> string) \<Rightarrow> string \<Rightarrow> AuditEntry list \<Rightarrow> bool" where
  "audit_verify_from h prv [] = True"
| "audit_verify_from h prv (e # es) =
     (if au_previous_hash e \<noteq> prv then False
      else if h (entry_payload e) \<noteq> au_current_hash e then False
      else audit_verify_from h (au_current_hash e) es)"

definition audit_verify :: "(audit_payload \<Rightarrow> string) \<Rightarrow> AuditEntry list \<Rightarrow> bool" where
  "audit_verify h entries = audit_verify_from h ''GENESIS'' entries"

section \<open>The signed export chain\<close>

definition CRITICAL_ACTIONS :: "string list" where
  "CRITICAL_ACTIONS = [''LIVE_MODE_CHANGE'', ''RISK_LIMIT_CHANGE'', ''API_CREDENTIAL_METADATA_CHANGE'', ''ORDER_INTENT'', ''ORDER_FILL_RECONCILIATION'',
     ''MANUAL_EXTERNAL_ACTIVITY_ACCEPTANCE'', ''PANIC_CLOSE'', ''STRATEGY_PROMOTION'', ''DEPLOYMENT_RELEASE'']"

record 'p WormAuditRecord =
  wr_sequence :: nat
  wr_action :: string
  wr_payload :: 'p
  wr_previous_hash :: string
  wr_record_hash :: string

definition worm_body :: "'p WormAuditRecord \<Rightarrow> nat \<times> string \<times> 'p \<times> string" where
  "worm_body r = (wr_sequence r, wr_action r, wr_payload r, wr_previous_hash r)"

definition worm_append ::
  "(nat \<times> string \<times> 'p \<times> string \<Rightarrow> string) \<Rightarrow> string \<Rightarrow> 'p \<Rightarrow> 'p WormAuditRecord list \<Rightarrow> 'p WormAuditRecord list \<times> 'p WormAuditRecord res" where
  "worm_append mac action payload records =
     (if action \<notin> set CRITICAL_ACTIONS then (records, Inl (ValueError ''unsupported critical audit action''))
      else let prv = (if records = [] then ''GENESIS'' else wr_record_hash (last records)); n = length records + 1;
               rec = \<lparr>wr_sequence = n, wr_action = action, wr_payload = payload, wr_previous_hash = prv,
                      wr_record_hash = mac (n, action, payload, prv)\<rparr>
           in (records @ [rec], Inr rec))"

fun worm_verify_from :: "(nat \<times> string \<times> 'p \<times> string \<Rightarrow> string) \<Rightarrow> nat \<Rightarrow> string \<Rightarrow> 'p WormAuditRecord list \<Rightarrow> bool" where
  "worm_verify_from mac i prv [] = True"
| "worm_verify_from mac i prv (r # rs) =
     (if wr_sequence r \<noteq> i \<or> wr_previous_hash r \<noteq> prv \<or> wr_action r \<notin> set CRITICAL_ACTIONS then False
      else if wr_record_hash r \<noteq> mac (wr_sequence r, wr_action r, wr_payload r, wr_previous_hash r) then False
      else worm_verify_from mac (i + 1) (wr_record_hash r) rs)"

definition worm_verify :: "(nat \<times> string \<times> 'p \<times> string \<Rightarrow> string) \<Rightarrow> 'p WormAuditRecord list \<Rightarrow> bool" where
  "worm_verify mac records = worm_verify_from mac 1 ''GENESIS'' records"

definition new_exporter :: "nat list \<Rightarrow> nat list res" where
  "new_exporter key = (if length key < 32 then Inl (ValueError ''>=32-byte signing key required'') else Inr key)"

definition export_append_only_jsonl :: "('p WormAuditRecord \<Rightarrow> string) \<Rightarrow> (nat \<times> string \<times> 'p \<times> string \<Rightarrow> string) \<Rightarrow> 'p WormAuditRecord list \<Rightarrow> string res" where
  "export_append_only_jsonl dumps mac records =
     (if \<not> worm_verify mac records then Inl (ValueError ''audit chain invalid'')
      else Inr (join [CHR 0x0A] (map dumps records) @ [CHR 0x0A]))"

section \<open>Sinks and failures\<close>

record AuditStoragePolicy =
  asp_require_append_only :: bool
  asp_require_worm_capable_for_production :: bool

definition validate_sink :: "AuditStoragePolicy \<Rightarrow> bool \<Rightarrow> bool \<Rightarrow> bool \<Rightarrow> unit res" where
  "validate_sink p append_only worm_capable production =
     (if asp_require_append_only p \<and> \<not> append_only then Inl (ValueError ''audit sink must be append-only'')
      else if production \<and> asp_require_worm_capable_for_production p \<and> \<not> worm_capable
      then Inl (ValueError ''production audit sink must be WORM-capable'')
      else Inr ())"

record StorageFailure =
  sf_kind :: string
  sf_detail :: string

text \<open>An exception by its text and the \<open>errno\<close> of its cause; \<open>ENOSPC\<close> is 28.\<close>

definition classify_storage_failure :: "string \<Rightarrow> int option \<Rightarrow> StorageFailure" where
  "classify_storage_failure text_of original_errno =
     (let txt = lower text_of; failure = (\<lambda>k. \<lparr>sf_kind = k, sf_detail = text_of\<rparr>) in
      if original_errno = Some 28 \<or> contains txt ''disk is full'' \<or> contains txt ''no space left on device'' then failure ''DISK_FULL''
      else if contains txt ''readonly'' \<or> contains txt ''read-only'' then failure ''READ_ONLY''
      else if contains txt ''database is locked'' \<or> contains txt ''could not connect'' \<or> contains txt ''connection''
      then failure ''DATABASE_UNAVAILABLE''
      else failure ''PERSISTENCE_WRITE_FAILED'')"

section \<open>The database chain\<close>

record AuditLogRow =
  al_id :: string
  al_previous_hash :: string
  al_current_hash :: string
  al_actor :: string
  al_action :: string
  al_object_ref :: string
  al_correlation_id :: string
  al_reason :: string
  al_release_version :: string
  al_created_at :: datetime

text \<open>The timestamp text of \<open>_ts\<close> stands for the instant; a value that lost its zone counts as UTC.\<close>

definition ts_instant :: "datetime \<Rightarrow> int" where
  "ts_instant dt = micros dt"

type_synonym row_payload = "string \<times> string \<times> string \<times> string \<times> string \<times> int \<times> string \<times> string"

definition row_payload :: "AuditLogRow \<Rightarrow> row_payload" where
  "row_payload r = (al_previous_hash r, al_actor r, al_action r, al_object_ref r, al_correlation_id r, ts_instant (al_created_at r), al_reason r,
     al_release_version r)"

definition row_order :: "AuditLogRow \<Rightarrow> int \<times> string" where
  "row_order r = (micros (al_created_at r), al_id r)"

text \<open>The latest row of \<open>ORDER BY created_at DESC, id DESC\<close>; an empty hash counts as none.\<close>

definition latest_hash :: "AuditLogRow list \<Rightarrow> string" where
  "latest_hash rows =
     (if rows = [] then ''GENESIS''
      else let hsh = al_current_hash (last (sort_key row_order rows)) in if hsh = [] then ''GENESIS'' else hsh)"

text \<open>\<open>commit_error\<close> is the text and the \<open>errno\<close> of the exception of \<open>commit\<close>, if it raises; the optional risk machine is halted then.\<close>

definition db_audit_append ::
  "(row_payload \<Rightarrow> string) \<Rightarrow> int \<Rightarrow> string \<Rightarrow> (string \<times> int option) option \<Rightarrow> string \<Rightarrow> string \<Rightarrow> string \<Rightarrow> string \<Rightarrow> string \<Rightarrow> string \<Rightarrow>
   AuditLogRow list \<times> RiskMachine option \<Rightarrow> (AuditLogRow list \<times> RiskMachine option) \<times> string res" where
  "db_audit_append h now new_id commit_error actor action object_ref correlation_id reason release_version st =
     (let (rows, machine) = st; prv = latest_hash rows;
          cur = h (prv, actor, action, object_ref, correlation_id, now, reason, release_version);
          row = \<lparr>al_id = new_id, al_previous_hash = prv, al_current_hash = cur, al_actor = actor, al_action = action, al_object_ref = object_ref,
                 al_correlation_id = correlation_id, al_reason = reason, al_release_version = release_version, al_created_at = Aware now\<rparr>
      in case commit_error of
           None \<Rightarrow> ((rows @ [row], machine), Inr cur)
         | Some (txt, no) \<Rightarrow>
           let kind = sf_kind (classify_storage_failure txt no)
           in ((rows, map_option (halt (''audit persistence failure: '' @ kind)) machine),
               Inl (RuntimeError (kind @ '': durability-critical audit write failed''))))"

fun db_verify_from :: "(row_payload \<Rightarrow> string) \<Rightarrow> string \<Rightarrow> AuditLogRow list \<Rightarrow> bool" where
  "db_verify_from h prv [] = True"
| "db_verify_from h prv (r # rs) =
     (if al_previous_hash r \<noteq> prv then False
      else if h (prv, al_actor r, al_action r, al_object_ref r, al_correlation_id r, ts_instant (al_created_at r), al_reason r, al_release_version r)
              \<noteq> al_current_hash r then False
      else db_verify_from h (al_current_hash r) rs)"

definition db_audit_verify :: "(row_payload \<Rightarrow> string) \<Rightarrow> AuditLogRow list \<Rightarrow> bool" where
  "db_audit_verify h rows = db_verify_from h ''GENESIS'' (sort_key row_order rows)"

section \<open>Merkle checkpoints\<close>

definition hex_value :: "char \<Rightarrow> nat option" where
  "hex_value c =
     (let n = (of_char c :: nat) in
      if 48 \<le> n \<and> n \<le> 57 then Some (n - 48) else if 97 \<le> n \<and> n \<le> 102 then Some (n - 87)
      else if 65 \<le> n \<and> n \<le> 70 then Some (n - 55) else None)"

text \<open>\<open>bytes.fromhex\<close> skips white space between bytes; \<open>hex()\<close> writes lower case.\<close>

fun fromhex :: "string \<Rightarrow> nat list res" where
  "fromhex [] = Inr []"
| "fromhex [c] = (if is_space c then Inr [] else Inl (ValueError ''non-hexadecimal number found in fromhex() arg''))"
| "fromhex (c # d # cs) =
     (if is_space c then fromhex (d # cs)
      else case (hex_value c, hex_value d) of
             (Some a, Some b) \<Rightarrow> bind_res (fromhex cs) (\<lambda>bs. Inr ((16 * a + b) # bs))
           | _ \<Rightarrow> Inl (ValueError ''non-hexadecimal number found in fromhex() arg''))"

definition hex_digit :: "nat \<Rightarrow> char" where
  "hex_digit n = (if n < 10 then char_of (48 + n) else char_of (87 + n))"

definition tohex :: "nat list \<Rightarrow> string" where
  "tohex bs = concat (map (\<lambda>b. [hex_digit (b div 16), hex_digit (b mod 16)]) bs)"

text \<open>One level of the tree, and the loop over the levels, on any kind of node.\<close>

fun pair_up :: "('n \<Rightarrow> 'n \<Rightarrow> 'n) \<Rightarrow> 'n list \<Rightarrow> 'n list" where
  "pair_up node (x # y # xs) = node x y # pair_up node xs"
| "pair_up node xs = []"

definition pad_level :: "'n list \<Rightarrow> 'n list" where
  "pad_level level = (if length level mod 2 = 1 then level @ [last level] else level)"

lemma length_pair_up [simp]: "length (pair_up node xs) = length xs div 2"
  by (induction node xs rule: pair_up.induct) simp_all

lemma length_pad_level: "length (pad_level xs) = (length xs + 1) div 2 * 2"
  by (simp add: pad_level_def) presburger

function merkle_levels :: "('n \<Rightarrow> 'n \<Rightarrow> 'n) \<Rightarrow> 'n list \<Rightarrow> 'n list" where
  "merkle_levels node level = (if length level > 1 then merkle_levels node (pair_up node (pad_level level)) else level)"
  by auto
termination
  by (relation "measure (length \<circ> snd)") (auto simp: length_pad_level)

declare merkle_levels.simps [simp del]

definition merkle_root :: "(nat list \<Rightarrow> nat list) \<Rightarrow> string list \<Rightarrow> string res" where
  "merkle_root sha record_hashes =
     (if record_hashes = [] then Inr (tohex (sha []))
      else bind_res (map_res fromhex record_hashes) (\<lambda>level. Inr (tohex (hd (merkle_levels (\<lambda>x y. sha (x @ y)) level)))))"

record AuditCheckpoint =
  ck_sequence :: int
  ck_root_hash :: string
  ck_previous_checkpoint_hash :: "string option"
  ck_actor :: string
  ck_action :: string
  ck_object_ref :: string
  ck_correlation_id :: string
  ck_reason :: string
  ck_release_version :: string
  ck_created_at :: string
  ck_signature :: string

type_synonym ck_payload = "int \<times> string \<times> string option \<times> string \<times> string \<times> string \<times> string \<times> string \<times> string \<times> string"

definition ck_unsigned :: "AuditCheckpoint \<Rightarrow> ck_payload" where
  "ck_unsigned c = (ck_sequence c, ck_root_hash c, ck_previous_checkpoint_hash c, ck_actor c, ck_action c, ck_object_ref c, ck_correlation_id c,
     ck_reason c, ck_release_version c, ck_created_at c)"

definition checkpoint_hash :: "(ck_payload \<Rightarrow> string) \<Rightarrow> AuditCheckpoint \<Rightarrow> string" where
  "checkpoint_hash digest c = digest (ck_unsigned c)"

definition create_checkpoint ::
  "(nat list \<Rightarrow> nat list) \<Rightarrow> (nat list \<Rightarrow> ck_payload \<Rightarrow> string) \<Rightarrow> string list \<Rightarrow> int \<Rightarrow> nat list \<Rightarrow> string option \<Rightarrow> string \<Rightarrow> string \<Rightarrow> string \<Rightarrow>
   string \<Rightarrow> string \<Rightarrow> string \<Rightarrow> string \<Rightarrow> AuditCheckpoint res" where
  "create_checkpoint sha mac record_hashes sequence secret previous actor action object_ref correlation_id reason release_version ts =
     (if secret = [] then Inl (ValueError ''checkpoint signing secret required'')
      else bind_res (merkle_root sha record_hashes) (\<lambda>root_hash.
        Inr \<lparr>ck_sequence = sequence, ck_root_hash = root_hash, ck_previous_checkpoint_hash = previous, ck_actor = actor, ck_action = action,
             ck_object_ref = object_ref, ck_correlation_id = correlation_id, ck_reason = reason, ck_release_version = release_version, ck_created_at = ts,
             ck_signature = mac secret (sequence, root_hash, previous, actor, action, object_ref, correlation_id, reason, release_version, ts)\<rparr>))"

definition verify_checkpoint ::
  "(nat list \<Rightarrow> nat list) \<Rightarrow> (nat list \<Rightarrow> ck_payload \<Rightarrow> string) \<Rightarrow> AuditCheckpoint \<Rightarrow> string list \<Rightarrow> nat list \<Rightarrow> string option \<Rightarrow> bool res" where
  "verify_checkpoint sha mac c record_hashes secret expected_previous_hash =
     bind_res (merkle_root sha record_hashes) (\<lambda>root.
       if ck_root_hash c \<noteq> root then Inr False
       else if ck_previous_checkpoint_hash c \<noteq> expected_previous_hash then Inr False
       else Inr (mac secret (ck_unsigned c) = ck_signature c))"

section \<open>The chains are tamper evident\<close>

interpretation audit: hash_chain au_previous_hash au_current_hash entry_payload
  by unfold_locales (auto simp: entry_payload_def)

interpretation worm: hash_chain wr_previous_hash wr_record_hash worm_body
  by unfold_locales (auto simp: worm_body_def)

interpretation db_audit: hash_chain "\<lambda>e :: row_payload \<times> string. fst (fst e)" snd fst
  by unfold_locales auto

lemma audit_verify_chained: "audit_verify_from h p es \<longleftrightarrow> chained au_previous_hash au_current_hash (\<lambda>e. h (entry_payload e)) p es"
  by (induction es arbitrary: p) auto

lemma worm_verify_chained:
  "worm_verify_from mac i p rs \<longleftrightarrow> chained wr_previous_hash wr_record_hash (\<lambda>r. mac (worm_body r)) p rs \<and>
     map wr_sequence rs = [i..<i + length rs] \<and> (\<forall>r \<in> set rs. wr_action r \<in> set CRITICAL_ACTIONS)"
proof (induction rs arbitrary: i p)
  case (Cons r rs)
  have "[i..<i + length (r # rs)] = i # [Suc i..<Suc i + length rs]" by (simp add: upt_conv_Cons del: upt_Suc)
  with Cons [of "Suc i" "wr_record_hash r"] show ?case by (auto simp: worm_body_def simp del: upt_Suc)
qed simp

text \<open>
  C26: the audit trails are tamper evident. Two verified trails with the same last hash are the same trail, entry by entry, unless the hash collides on their entries or
  produces the start marker; this holds for the in-memory chain and for the signed export chain.
\<close>

theorem audit_tamper_evident:
  "(audit_verify h xs \<and> audit_verify h ys \<and> inj_on h (entry_payload ` (set xs \<union> set ys)) \<and> (\<forall>e \<in> set xs \<union> set ys. h (entry_payload e) \<noteq> ''GENESIS'') \<and>
      head_hash ''GENESIS'' au_current_hash xs = head_hash ''GENESIS'' au_current_hash ys \<longrightarrow> xs = ys) \<and>
   (worm_verify mac rs \<and> worm_verify mac ss \<and> inj_on mac (worm_body ` (set rs \<union> set ss)) \<and> (\<forall>e \<in> set rs \<union> set ss. mac (worm_body e) \<noteq> ''GENESIS'') \<and>
      head_hash ''GENESIS'' wr_record_hash rs = head_hash ''GENESIS'' wr_record_hash ss \<longrightarrow> rs = ss)"
  unfolding audit_verify_def audit_verify_chained worm_verify_def worm_verify_chained
  by (blast intro: audit.same_head_same_chain worm.same_head_same_chain)

definition example_hash :: "audit_payload \<Rightarrow> string" where
  "example_hash p = ''h'' @ fst p @ fst (snd p)"

definition example_trail :: "string \<Rightarrow> AuditEntry list" where
  "example_trail actor = fst (audit_append example_hash ''t'' actor ''a'' ''o'' ''c'' ''r'' ''v'' [])"

theorem audit_tamper_evident_witness:
  "head_hash ''GENESIS'' au_current_hash (example_trail ''bob'') \<noteq> head_hash ''GENESIS'' au_current_hash (example_trail ''eve'')"
proof -
  have "audit_verify example_hash (example_trail ''bob'')" "audit_verify example_hash (example_trail ''eve'')" by code_simp+
  moreover have "inj_on example_hash (entry_payload ` (set (example_trail ''bob'') \<union> set (example_trail ''eve'')))"
    by (simp add: example_trail_def audit_append_def Let_def entry_payload_def example_hash_def)
  moreover have "\<forall>e \<in> set (example_trail ''bob'') \<union> set (example_trail ''eve''). example_hash (entry_payload e) \<noteq> ''GENESIS''" by code_simp
  moreover have "example_trail ''bob'' \<noteq> example_trail ''eve''" by (simp add: example_trail_def audit_append_def Let_def)
  ultimately show ?thesis using audit_tamper_evident [of example_hash "example_trail ''bob''" "example_trail ''eve''"] by blast
qed

text \<open>Appending keeps a trail verified.\<close>

lemma audit_append_verifies: "audit_verify h es \<Longrightarrow> audit_verify h (fst (audit_append h ts a b c d e f es))"
  by (simp add: audit_verify_def audit_verify_chained audit_append_def Let_def chained_snoc head_hash_def entry_payload_def)

lemma worm_append_verifies: "worm_verify mac rs \<Longrightarrow> worm_verify mac (fst (worm_append mac action payload rs))"
  by (auto simp: worm_verify_def worm_verify_chained worm_append_def Let_def chained_snoc head_hash_def worm_body_def)

section \<open>The database chain and the clock\<close>

lemma db_verify_chained:
  "db_verify_from h p rs \<longleftrightarrow> chained (\<lambda>e. fst (fst e)) snd (\<lambda>e. h (fst e)) p (map (\<lambda>r. (row_payload r, al_current_hash r)) rs)"
  by (induction rs arbitrary: p) (auto simp: row_payload_def)

definition clocked :: "AuditLogRow list \<Rightarrow> bool" where
  "clocked rows \<longleftrightarrow> sorted_wrt (<) (map (\<lambda>r. micros (al_created_at r)) rows)"

lemma clocked_sorted: assumes "clocked rows" shows "sort_key row_order rows = rows"
proof (rule sort_key_id_if_sorted)
  have "sorted_wrt (\<lambda>r r'. micros (al_created_at r) < micros (al_created_at r')) rows" using assms by (simp add: clocked_def sorted_wrt_map)
  then have "sorted_wrt (\<lambda>r r'. row_order r \<le> row_order r') rows" by (rule sorted_wrt_mono_rel [rotated]) (simp add: row_order_def less_eq_prod_def)
  then show "sorted (map row_order rows)" by (simp add: sorted_map)
qed

datatype audit_op = AuditOp (op_now: int) (op_id: string) (op_error: "(string \<times> int option) option") (op_actor: string) (op_action: string) (op_ref: string)

definition audit_step :: "(row_payload \<Rightarrow> string) \<Rightarrow> audit_op \<Rightarrow> AuditLogRow list \<times> RiskMachine option \<Rightarrow> AuditLogRow list \<times> RiskMachine option" where
  "audit_step h op st = fst (db_audit_append h (op_now op) (op_id op) (op_error op) (op_actor op) (op_action op) (op_ref op) [] [] [] st)"

definition db_chain_ok :: "(row_payload \<Rightarrow> string) \<Rightarrow> int \<Rightarrow> AuditLogRow list \<Rightarrow> bool" where
  "db_chain_ok h now rows \<longleftrightarrow> clocked rows \<and> db_audit_verify h rows \<and> (\<forall>r \<in> set rows. al_current_hash r \<noteq> [] \<and> micros (al_created_at r) < now)"

lemma audit_step_ok:
  assumes "db_chain_ok h (op_now op) (fst st)" "\<And>p. h p \<noteq> []" "op_now op < now'"
  shows "db_chain_ok h now' (fst (audit_step h op st))"
proof -
  obtain rows m where st: "st = (rows, m)" by (cases st)
  have ok: "clocked rows" "db_audit_verify h rows" "\<forall>r \<in> set rows. al_current_hash r \<noteq> [] \<and> micros (al_created_at r) < op_now op"
    using assms(1) by (auto simp: db_chain_ok_def st)
  show ?thesis
  proof (cases "op_error op")
    case None
    let ?h = "latest_hash rows"
    define r where "r = \<lparr>al_id = op_id op, al_previous_hash = ?h, al_current_hash = h (?h, op_actor op, op_action op, op_ref op, [], op_now op, [], []),
      al_actor = op_actor op, al_action = op_action op, al_object_ref = op_ref op, al_correlation_id = [], al_reason = [], al_release_version = [],
      al_created_at = Aware (op_now op)\<rparr>"
    have res: "fst (audit_step h op st) = rows @ [r]" by (simp add: audit_step_def db_audit_append_def st None Let_def r_def)
    have cl: "clocked (rows @ [r])" using ok(1,3) by (auto simp: clocked_def sorted_wrt_append r_def)
    have "?h = head_hash ''GENESIS'' snd (map (\<lambda>r. (row_payload r, al_current_hash r)) rows)"
      using ok(3) by (simp add: latest_hash_def head_hash_def clocked_sorted [OF ok(1)] last_map Let_def)
    then have "db_audit_verify h (rows @ [r])"
      using ok(2) by (simp add: db_audit_verify_def db_verify_chained clocked_sorted [OF cl] clocked_sorted [OF ok(1)] chained_snoc)
        (simp add: r_def row_payload_def ts_instant_def)
    with cl ok(3) assms(2,3) show ?thesis by (auto simp: db_chain_ok_def res r_def)
  next
    case (Some e)
    with ok assms(3) show ?thesis
      by (cases e) (auto simp: db_chain_ok_def audit_step_def db_audit_append_def st Let_def)
  qed
qed

lemma audit_run_ok:
  assumes "db_chain_ok h t (fst st)" "sorted_wrt (<) (map op_now ops)" "\<forall>op \<in> set ops. t \<le> op_now op" "\<And>p. h p \<noteq> []"
  shows "\<exists>t'. db_chain_ok h t' (fst (fold (audit_step h) ops st))"
  using assms(1-3)
proof (induction ops arbitrary: st t)
  case (Cons op ops)
  have "db_chain_ok h (op_now op) (fst st)" using Cons.prems(1,3) by (force simp: db_chain_ok_def)
  then have "db_chain_ok h (op_now op + 1) (fst (audit_step h op st))" by (rule audit_step_ok) (simp_all add: assms(4))
  with Cons.IH [of "op_now op + 1" "audit_step h op st"] Cons.prems show ?case by (auto simp: zless_imp_add1_zle)
qed auto

text \<open>Appends to the database trail under a strictly increasing clock, with commits that succeed or fail in any order, always leave a trail that verifies; a failed commit
  adds nothing and leaves the risk machine halted.
\<close>

theorem db_audit_appends_verify:
  assumes "sorted_wrt (<) (map op_now ops)" "\<And>p. h p \<noteq> []"
  shows "db_audit_verify h (fst (fold (audit_step h) ops ([], machine))) \<and>
    (\<forall>op st m. op_error op \<noteq> None \<and> snd st = Some m \<longrightarrow>
       fst (audit_step h op st) = fst st \<and> (\<exists>m'. snd (audit_step h op st) = Some m' \<and> rm_state m' = HALTED \<and> \<not> allow_new_risk m'))"
proof (intro conjI allI impI)
  define t where "t = (if ops = [] then 0 else op_now (hd ops))"
  have "\<forall>op \<in> set ops. t \<le> op_now op" using assms(1) by (cases ops) (auto simp: t_def less_imp_le)
  moreover have "db_chain_ok h t (fst ([], machine))" by (simp add: db_chain_ok_def clocked_def db_audit_verify_def)
  ultimately show "db_audit_verify h (fst (fold (audit_step h) ops ([], machine)))"
    using audit_run_ok [of h t "([], machine)" ops] assms by (auto simp: db_chain_ok_def)
next
  fix op and st :: "AuditLogRow list \<times> RiskMachine option" and m :: RiskMachine assume "op_error op \<noteq> None \<and> snd st = Some m"
  then show "fst (audit_step h op st) = fst st" "\<exists>m'. snd (audit_step h op st) = Some m' \<and> rm_state m' = HALTED \<and> \<not> allow_new_risk m'"
    by (cases st; auto simp: audit_step_def db_audit_append_def Let_def halt_def transition_to_def allow_new_risk_def)+
qed

definition plain_hash :: "row_payload \<Rightarrow> string" where
  "plain_hash p = ''x'' @ fst p"

theorem db_audit_appends_verify_witness:
  "db_audit_verify plain_hash (fst (fold (audit_step plain_hash)
     [AuditOp 1 ''b'' None ''u'' ''a'' ''o'', AuditOp 2 ''a'' (Some (''disk is full'', None)) ''u'' ''a'' ''o'', AuditOp 3 ''a'' None ''u'' ''a'' ''o''] ([], None)))"
  using db_audit_appends_verify [of "[AuditOp 1 ''b'' None ''u'' ''a'' ''o'', AuditOp 2 ''a'' (Some (''disk is full'', None)) ''u'' ''a'' ''o'',
    AuditOp 3 ''a'' None ''u'' ''a'' ''o'']" plain_hash None] by (simp add: plain_hash_def)

text \<open>The clock condition is needed. Two appends in the same microsecond, where the second draws the smaller random id, leave a trail that no longer verifies
  although nobody touched it: the verification orders equal times by id.
\<close>

theorem db_audit_same_instant_breaks:
  "\<not> db_audit_verify plain_hash (fst (fold (audit_step plain_hash) [AuditOp 1 ''b'' None ''u'' ''a'' ''o'', AuditOp 1 ''a'' None ''u'' ''a'' ''o''] ([], None)))"
  by code_simp

section \<open>Merkle roots\<close>

text \<open>What is hashed on the way to the root.\<close>

fun adjacent :: "'a list list \<Rightarrow> 'a list list" where
  "adjacent (x # y # xs) = (x @ y) # adjacent xs"
| "adjacent xs = []"

function merkle_inputs :: "(nat list \<Rightarrow> nat list) \<Rightarrow> nat list list \<Rightarrow> nat list list" where
  "merkle_inputs sha level =
     (if length level > 1 then adjacent (pad_level level) @ merkle_inputs sha (pair_up (\<lambda>x y. sha (x @ y)) (pad_level level)) else [])"
  by auto
termination
  by (relation "measure (length \<circ> snd)") (auto simp: length_pad_level)

declare merkle_inputs.simps [simp del]

lemma pair_up_adjacent: "pair_up (\<lambda>x y. sha (x @ y)) xs = map sha (adjacent xs)"
  by (induction xs rule: adjacent.induct) simp_all

lemma adjacent_inj:
  assumes "adjacent xs = adjacent ys" "length xs = length ys" "even (length xs)" "\<forall>x \<in> set xs \<union> set ys. length x = n"
  shows "xs = ys"
  using assms
proof (induction xs arbitrary: ys rule: adjacent.induct)
  case (1 x y xs)
  then obtain x' y' ys' where ys: "ys = x' # y' # ys'" by (cases ys; cases "tl ys") auto
  with 1 show ?case by auto
qed auto

lemma pad_level_inj: "length xs = length ys \<Longrightarrow> pad_level xs = pad_level ys \<Longrightarrow> xs = ys"
  by (auto simp: pad_level_def split: if_splits)

lemma set_pad_level: "set (pad_level xs) = set xs"
  by (cases "xs = []") (auto simp: pad_level_def)

lemma even_pad_level: "even (length (pad_level xs))"
  by (simp add: length_pad_level)

lemma merkle_levels_inj:
  assumes "length xs = length ys" "\<forall>x \<in> set xs \<union> set ys. length x = 32" "\<And>m. length (sha m) = 32"
    and "inj_on sha (set (merkle_inputs sha xs) \<union> set (merkle_inputs sha ys))"
    and "merkle_levels (\<lambda>x y. sha (x @ y)) xs = merkle_levels (\<lambda>x y. sha (x @ y)) ys"
  shows "xs = ys"
  using assms
proof (induction sha xs arbitrary: ys rule: merkle_inputs.induct)
  case (1 sha xs)
  show ?case
  proof (cases "length xs > 1")
    case True
    let ?node = "\<lambda>x y. sha (x @ y)"
    let ?up = "\<lambda>xs. pair_up ?node (pad_level xs)"
    have ys: "length ys > 1" using True "1.prems"(1) by simp
    have inp: "merkle_inputs sha xs = adjacent (pad_level xs) @ merkle_inputs sha (?up xs)"
      "merkle_inputs sha ys = adjacent (pad_level ys) @ merkle_inputs sha (?up ys)"
      using True ys by (simp_all add: merkle_inputs.simps [of sha xs] merkle_inputs.simps [of sha ys])
    have len: "length (pad_level xs) = length (pad_level ys)" using "1.prems"(1) by (simp add: length_pad_level)
    have "?up xs = ?up ys"
    proof (rule "1.IH" [OF True])
      show "length (?up xs) = length (?up ys)" by (simp add: len)
      show "\<forall>x \<in> set (?up xs) \<union> set (?up ys). length x = 32" using "1.prems"(3) by (auto simp: pair_up_adjacent)
      show "inj_on sha (set (merkle_inputs sha (?up xs)) \<union> set (merkle_inputs sha (?up ys)))"
        using "1.prems"(4) by (rule inj_on_subset) (auto simp: inp)
      show "merkle_levels ?node (?up xs) = merkle_levels ?node (?up ys)"
        using "1.prems"(5) True ys by (simp add: merkle_levels.simps [of _ xs] merkle_levels.simps [of _ ys])
    qed (rule "1.prems"(3))
    moreover have "inj_on sha (set (adjacent (pad_level xs)) \<union> set (adjacent (pad_level ys)))"
      using "1.prems"(4) by (rule inj_on_subset) (auto simp: inp)
    ultimately have "adjacent (pad_level xs) = adjacent (pad_level ys)"
      by (simp add: pair_up_adjacent inj_on_map_eq_map)
    then have "pad_level xs = pad_level ys"
      by (rule adjacent_inj [where n = 32, OF _ len even_pad_level]) (use "1.prems"(2) in \<open>simp add: set_pad_level\<close>)
    with "1.prems"(1) show ?thesis by (rule pad_level_inj)
  next
    case False
    with "1.prems"(1,5) show ?thesis by (simp add: merkle_levels.simps [of _ xs] merkle_levels.simps [of _ ys])
  qed
qed

lemma merkle_levels_single: "xs \<noteq> [] \<Longrightarrow> length (merkle_levels node xs) = 1"
proof (induction node xs rule: merkle_levels.induct)
  case (1 node level)
  show ?case
  proof (cases "length level > 1")
    case True
    then have "pair_up node (pad_level level) \<noteq> []" by (simp add: length_pad_level flip: length_0_conv)
    with 1 True show ?thesis by (simp add: merkle_levels.simps [of node level])
  next
    case False
    then have "merkle_levels node level = level" by (simp add: merkle_levels.simps [of node level])
    with 1 False show ?thesis by (cases level) simp_all
  qed
qed

lemma hex_digit_inj: assumes "a < 16" "b < 16" "hex_digit a = hex_digit b" shows "a = b"
proof -
  have v: "of_char (hex_digit n) = (if n < 10 then 48 + n else 87 + n)" if "n < 16" for n :: nat
    using that by (simp add: hex_digit_def)
  have "(if a < 10 then 48 + a else 87 + a) = (if b < 10 then 48 + b else 87 + b)"
    using v [OF assms(1)] v [OF assms(2)] by (simp only: assms(3))
  with assms(1,2) show ?thesis by (auto split: if_splits)
qed

lemma tohex_inj: "\<forall>b \<in> set xs \<union> set ys. b < 256 \<Longrightarrow> tohex xs = tohex ys \<Longrightarrow> xs = ys"
proof (induction xs arbitrary: ys)
  case Nil
  then show ?case by (cases ys) (simp_all add: tohex_def)
next
  case (Cons x xs)
  then obtain y ys' where ys: "ys = y # ys'" by (cases ys) (simp_all add: tohex_def)
  have eq: "hex_digit (x div 16) = hex_digit (y div 16)" "hex_digit (x mod 16) = hex_digit (y mod 16)" "tohex xs = tohex ys'"
    using Cons.prems(2) by (simp_all add: tohex_def ys)
  have "x < 256" "y < 256" using Cons.prems(1) by (simp_all add: ys)
  then have "x div 16 = y div 16" "x mod 16 = y mod 16" using eq(1,2) hex_digit_inj by (auto simp: less_mult_imp_div_less)
  then have "x = y" by (metis div_mult_mod_eq)
  with Cons.IH [of ys'] Cons.prems(1) eq(3) show ?case by (simp add: ys)
qed

lemma hex_value_bound: "hex_value c = Some a \<Longrightarrow> a < 16"
  by (auto simp: hex_value_def Let_def split: if_splits)

lemma fromhex_bytes: "fromhex s = Inr bs \<Longrightarrow> \<forall>b \<in> set bs. b < 256"
proof (induction s arbitrary: bs rule: fromhex.induct)
  case (3 c d cs)
  show ?case
  proof (cases "is_space c")
    case False
    then obtain a b bs' where h: "hex_value c = Some a" "hex_value d = Some b" "fromhex cs = Inr bs'" "bs = (16 * a + b) # bs'"
      using "3.prems" by (auto simp: bind_res_Inr split: option.splits)
    have "16 * a + b < 256" using hex_value_bound [OF h(1)] hex_value_bound [OF h(2)] by linarith
    with "3.IH"(2) [OF False refl h(1,2,3)] h show ?thesis by simp
  qed (use 3 in auto)
qed (auto split: if_splits)

lemma merkle_levels_bytes:
  assumes "\<forall>x \<in> set level. \<forall>b \<in> set x. b < 256" "\<And>m. \<forall>b \<in> set (sha m). b < 256" "level \<noteq> []"
  shows "\<forall>b \<in> set (hd (merkle_levels (\<lambda>x y. sha (x @ y)) level)). b < (256 :: nat)"
  using assms(1,3)
proof (induction "\<lambda>x y. sha (x @ y)" level rule: merkle_levels.induct)
  case (1 level)
  show ?case
  proof (cases "length level > 1")
    case True
    then have "pair_up (\<lambda>x y. sha (x @ y)) (pad_level level) \<noteq> []" by (simp add: length_pad_level flip: length_0_conv)
    with 1 True assms(2) show ?thesis by (simp add: merkle_levels.simps [of _ level] pair_up_adjacent)
  next
    case False
    then have "merkle_levels (\<lambda>x y. sha (x @ y)) level = level" by (simp add: merkle_levels.simps [of _ level])
    with 1 show ?thesis by (cases level) simp_all
  qed
qed

lemma map_res_length: "map_res f xs = Inr ys \<Longrightarrow> length ys = length xs"
  by (induction xs arbitrary: ys) (auto split: sum.splits)

lemma map_res_bytes: "map_res fromhex xs = Inr bs \<Longrightarrow> \<forall>x \<in> set bs. \<forall>b \<in> set x. b < 256"
  by (induction xs arbitrary: bs) (auto split: sum.splits dest!: fromhex_bytes)

text \<open>A signed checkpoint pins down the records. Two lists of equally many record hashes that verify against one checkpoint are the same digests in the same order, unless SHA-256
  collides on one of the nodes the two trees hash; and a checkpoint verifies against the records and the predecessor it was created from.
\<close>

theorem checkpoint_tamper_evident:
  assumes "\<And>m. length (sha m) = 32 \<and> (\<forall>b \<in> set (sha m). b < 256)"
  shows "(\<forall>c xs ys bs cs. verify_checkpoint sha mac c xs secret p = Inr True \<and> verify_checkpoint sha mac c ys secret p = Inr True \<and> length xs = length ys \<and>
      map_res fromhex xs = Inr bs \<and> map_res fromhex ys = Inr cs \<and> (\<forall>b \<in> set bs \<union> set cs. length b = 32) \<and>
      inj_on sha (set (merkle_inputs sha bs) \<union> set (merkle_inputs sha cs)) \<longrightarrow> bs = cs) \<and>
    (\<forall>xs n actor action ref corr reason rel ts c. create_checkpoint sha mac xs n secret p actor action ref corr reason rel ts = Inr c \<longrightarrow>
      verify_checkpoint sha mac c xs secret p = Inr True)"
proof (intro conjI allI impI)
  fix c xs ys bs cs
  assume *: "verify_checkpoint sha mac c xs secret p = Inr True \<and> verify_checkpoint sha mac c ys secret p = Inr True \<and> length xs = length ys \<and>
      map_res fromhex xs = Inr bs \<and> map_res fromhex ys = Inr cs \<and> (\<forall>b \<in> set bs \<union> set cs. length b = 32) \<and>
      inj_on sha (set (merkle_inputs sha bs) \<union> set (merkle_inputs sha cs))"
  have len: "length bs = length xs" "length cs = length ys" using * map_res_length by blast+
  show "bs = cs"
  proof (cases "xs = []")
    case True
    with * len show ?thesis by simp
  next
    case False
    let ?m = "merkle_levels (\<lambda>x y. sha (x @ y))"
    have ne: "xs \<noteq> []" "ys \<noteq> []" "bs \<noteq> []" "cs \<noteq> []" using False * len by auto
    have "merkle_root sha xs = merkle_root sha ys" using * by (auto simp: verify_checkpoint_def bind_res_Inr split: if_splits)
    then have "tohex (hd (?m bs)) = tohex (hd (?m cs))" using * ne by (simp add: merkle_root_def)
    moreover have "\<forall>b \<in> set (hd (?m bs)) \<union> set (hd (?m cs)). b < 256"
      using merkle_levels_bytes [of bs sha] merkle_levels_bytes [of cs sha] map_res_bytes * ne assms by blast
    ultimately have "hd (?m bs) = hd (?m cs)" by (intro tohex_inj)
    then have "?m bs = ?m cs" using merkle_levels_single [OF ne(3)] merkle_levels_single [OF ne(4)]
      by (metis One_nat_def length_0_conv length_Suc_conv list.sel(1))
    with * len assms show ?thesis by (intro merkle_levels_inj [of bs cs sha]) simp_all
  qed
next
  fix xs n actor action ref corr reason rel ts c
  assume "create_checkpoint sha mac xs n secret p actor action ref corr reason rel ts = Inr c"
  then show "verify_checkpoint sha mac c xs secret p = Inr True"
    by (auto simp: create_checkpoint_def verify_checkpoint_def bind_res_Inr ck_unsigned_def split: if_splits)
qed

definition example_sha :: "nat list \<Rightarrow> nat list" where
  "example_sha m = replicate 32 (length m mod 256)"

theorem checkpoint_tamper_evident_witness:
  "\<exists>c. create_checkpoint example_sha (\<lambda>k u. ''sig'') [''ab'', ''cd'', ''EF''] 1 [7] None ''u'' ''a'' ''o'' ''c'' ''r'' ''v'' ''t'' = Inr c \<and>
     verify_checkpoint example_sha (\<lambda>k u. ''sig'') c [''ab'', ''cd'', ''EF''] [7] None = Inr True"
proof -
  have "\<And>m. length (example_sha m) = 32 \<and> (\<forall>b \<in> set (example_sha m). b < 256)" by (simp add: example_sha_def)
  moreover obtain c where "create_checkpoint example_sha (\<lambda>k u. ''sig'') [''ab'', ''cd'', ''EF''] 1 [7] None ''u'' ''a'' ''o'' ''c'' ''r'' ''v'' ''t'' = Inr c"
    by (simp add: create_checkpoint_def merkle_root_def hex_value_def is_space_def)
  ultimately show ?thesis using checkpoint_tamper_evident [of example_sha "\<lambda>k u. ''sig''" "[7]" None] by blast
qed

text \<open>Without the count, the root does not pin down the records: a list whose last record hash is repeated verifies against the checkpoint of the shorter list, whatever the hash function,
  because an odd level is padded with its own last node.
\<close>

theorem checkpoint_accepts_duplicated_record:
  "verify_checkpoint sha mac c [x, y, z, z] secret p = verify_checkpoint sha mac c [x, y, z] secret p"
proof -
  have "merkle_levels node [a, b, d, d] = merkle_levels node [a, b, d]" for node :: "nat list \<Rightarrow> nat list \<Rightarrow> nat list" and a b d
    by (simp add: merkle_levels.simps [of node "[a, b, d, d]"] merkle_levels.simps [of node "[a, b, d]"] pad_level_def)
  then have "merkle_root sha [x, y, z, z] = merkle_root sha [x, y, z]"
    by (cases "fromhex x"; cases "fromhex y"; cases "fromhex z") (simp_all add: merkle_root_def)
  then show ?thesis by (simp add: verify_checkpoint_def)
qed

end
