(* ===== verification/Event_Store.thy ===== *)
theory Event_Store
  imports Money "HOL-Library.Multiset"
begin

text \<open>
  Events: deterministic replay (\<open>backend/app/core/events.py\<close>), schema versions (\<open>core/event_schema.py\<close>), exactly-once consumption (\<open>database/idempotent_consumer.py\<close>),
  the outbox and its dead letters (\<open>database/outbox.py\<close>, \<open>database/dlq_operator.py\<close>, \<open>database/outbox_health.py\<close>). Handlers, upcasters and the publisher are arguments.
  A loop that an upcaster can keep running for ever is a \<open>partial_function\<close>: not returning is \<open>None\<close>. Tables are dictionaries on their unique event id.
\<close>

section \<open>Replay\<close>

record 'p DomainEvent =
  ev_event_type :: string
  ev_aggregate_id :: string
  ev_payload :: 'p
  ev_schema_version :: int
  ev_sequence :: int
  ev_event_id :: string
  ev_correlation_id :: string
  ev_causation_id :: "string option"
  ev_event_time :: int
  ev_received_at :: int
  ev_producer_version :: string

type_synonym 'p upcasters = "(string \<times> int, 'p DomainEvent \<Rightarrow> 'p DomainEvent res) dict"
type_synonym ('s, 'p) handlers = "(string, 's \<Rightarrow> 'p DomainEvent \<Rightarrow> 's res) dict"

partial_function (option) upcast :: "'p upcasters \<Rightarrow> 'p DomainEvent \<Rightarrow> 'p DomainEvent res option" where
  "upcast ups e =
     (case map_of ups (ev_event_type e, ev_schema_version e) of
        None \<Rightarrow> Some (Inr e)
      | Some f \<Rightarrow> (case f e of Inl x \<Rightarrow> Some (Inl x) | Inr e' \<Rightarrow> upcast ups e'))"

fun replay_loop :: "('s, 'p) handlers \<Rightarrow> 'p upcasters \<Rightarrow> int \<Rightarrow> 'p DomainEvent list \<Rightarrow> 's \<Rightarrow> 's res option" where
  "replay_loop handlers ups i [] s = Some (Inr s)"
| "replay_loop handlers ups i (e # es) s =
     (if ev_sequence e \<noteq> i then Some (Inl (ReplayError ''sequence gap or duplicate''))
      else case upcast ups e of
             None \<Rightarrow> None
           | Some (Inl x) \<Rightarrow> Some (Inl x)
           | Some (Inr e') \<Rightarrow>
             (case dget handlers (ev_event_type e') of
                None \<Rightarrow> Some (Inl (ReplayError ''unknown event type''))
              | Some f \<Rightarrow> (case f s e' of Inl x \<Rightarrow> Some (Inl x) | Inr s' \<Rightarrow> replay_loop handlers ups (i + 1) es s')))"

definition replay :: "('s, 'p) handlers \<Rightarrow> 'p upcasters \<Rightarrow> 'p DomainEvent list \<Rightarrow> 's \<Rightarrow> 's res option" where
  "replay handlers ups events initial = replay_loop handlers ups 1 (sort_key ev_sequence events) initial"

record ReplayCheckpoint =
  rc_last_sequence :: nat
  rc_state_hash :: string
  rc_event_chain_hash :: string
  rc_producer_version :: string

text \<open>\<open>sha\<close> is SHA-256 of a text, \<open>ph\<close> the hash of a payload, \<open>sh\<close> the hash of a state, each as a hexadecimal text.\<close>

definition event_chain_hash :: "(string \<Rightarrow> string) \<Rightarrow> ('p \<Rightarrow> string) \<Rightarrow> 'p DomainEvent list \<Rightarrow> string" where
  "event_chain_hash sha ph events =
     fold (\<lambda>e h. sha (h @ ph (ev_payload e) @ int_str (ev_sequence e) @ ev_event_type e)) (sort_key ev_sequence events) (replicate 64 (CHR ''0''))"

definition create_replay_checkpoint ::
  "(string \<Rightarrow> string) \<Rightarrow> ('p \<Rightarrow> string) \<Rightarrow> ('s \<Rightarrow> string) \<Rightarrow> 's \<Rightarrow> 'p DomainEvent list \<Rightarrow> string \<Rightarrow> ReplayCheckpoint res" where
  "create_replay_checkpoint sha ph sh state events producer_version =
     (let ordered = sort_key ev_sequence events in
      if ordered \<noteq> [] \<and> map ev_sequence ordered \<noteq> [1..int (length ordered)] then Inl (ReplayError ''sequence gap or duplicate'')
      else Inr \<lparr>rc_last_sequence = length ordered, rc_state_hash = sh state, rc_event_chain_hash = event_chain_hash sha ph ordered,
             rc_producer_version = producer_version\<rparr>)"

definition verify_replay_checkpoint ::
  "(string \<Rightarrow> string) \<Rightarrow> ('p \<Rightarrow> string) \<Rightarrow> ('s \<Rightarrow> string) \<Rightarrow> ReplayCheckpoint \<Rightarrow> 's \<Rightarrow> 'p DomainEvent list \<Rightarrow> bool" where
  "verify_replay_checkpoint sha ph sh c state events =
     (let ordered = sort_key ev_sequence events in
      if length ordered \<noteq> rc_last_sequence c then False
      else rc_state_hash c = sh state \<and> rc_event_chain_hash c = event_chain_hash sha ph ordered)"

section \<open>Schema versions\<close>

record EventSchema =
  es_event_type :: string
  es_version :: int
  es_required_fields :: "string set"
  es_optional_fields :: "string set"

record 'v EventSchemaRegistry =
  sr_schemas :: "(string \<times> int, EventSchema) dict"
  sr_upcasters :: "(string \<times> int, (string, 'v) dict \<Rightarrow> (string, 'v) dict) dict"

definition schema_register :: "EventSchema \<Rightarrow> 'v EventSchemaRegistry \<Rightarrow> 'v EventSchemaRegistry \<times> unit res" where
  "schema_register schema r =
     (let key = (es_event_type schema, es_version schema) in
      if es_version schema < 1 \<or> es_required_fields schema \<inter> es_optional_fields schema \<noteq> {} then (r, Inl (ValueError ''invalid event schema''))
      else if (case dget (sr_schemas r) key of None \<Rightarrow> False | Some old \<Rightarrow> old \<noteq> schema)
      then (r, Inl (RuntimeError ''schema version already registered with different semantics''))
      else (r\<lparr>sr_schemas := dset key schema (sr_schemas r)\<rparr>, Inr ()))"

definition register_upcaster :: "string \<Rightarrow> int \<Rightarrow> ((string, 'v) dict \<Rightarrow> (string, 'v) dict) \<Rightarrow> 'v EventSchemaRegistry \<Rightarrow> 'v EventSchemaRegistry \<times> unit res" where
  "register_upcaster event_type from_version fn r =
     (if dget (sr_upcasters r) (event_type, from_version) \<noteq> None then (r, Inl (RuntimeError ''duplicate upcaster''))
      else (r\<lparr>sr_upcasters := dset (event_type, from_version) fn (sr_upcasters r)\<rparr>, Inr ()))"

definition schema_validate :: "string \<Rightarrow> int \<Rightarrow> (string, 'v) dict \<Rightarrow> 'v EventSchemaRegistry \<Rightarrow> (string, 'v) dict res" where
  "schema_validate event_type version payload r =
     (case dget (sr_schemas r) (event_type, version) of
        None \<Rightarrow> Inl (RuntimeError ''unknown schema'')
      | Some s \<Rightarrow> if es_required_fields s - fst ` set payload \<noteq> {} then Inl (RuntimeError ''missing required fields'') else Inr payload)"

text \<open>The migration loop raises the version by one each round, so it passes each registered upcaster at most once.\<close>

definition upcasters_from :: "('k \<times> int, 'f) dict \<Rightarrow> 'k \<Rightarrow> int \<Rightarrow> ('k \<times> int) set" where
  "upcasters_from ups k v = {p \<in> fst ` set ups. fst p = k \<and> v \<le> snd p}"

lemma upcasters_from_less:
  "map_of ups (k, v) = Some f \<Longrightarrow> card (upcasters_from ups k (v + 1)) < card (upcasters_from ups k v)"
proof (rule psubset_card_mono)
  assume f: "map_of ups (k, v) = Some f"
  show "finite (upcasters_from ups k v)" by (simp add: upcasters_from_def)
  have "(k, v) \<in> upcasters_from ups k v" using map_of_SomeD [OF f] by (force simp: upcasters_from_def)
  moreover have "(k, v) \<notin> upcasters_from ups k (v + 1)" by (simp add: upcasters_from_def)
  moreover have "upcasters_from ups k (v + 1) \<subseteq> upcasters_from ups k v" by (auto simp: upcasters_from_def)
  ultimately show "upcasters_from ups k (v + 1) \<subset> upcasters_from ups k v" by blast
qed

function upcast_loop :: "(string \<times> int, (string, 'v) dict \<Rightarrow> (string, 'v) dict) dict \<Rightarrow> string \<Rightarrow> int \<Rightarrow> (string, 'v) dict \<Rightarrow> int \<times> (string, 'v) dict" where
  "upcast_loop ups event_type v cur =
     (case map_of ups (event_type, v) of None \<Rightarrow> (v, cur) | Some f \<Rightarrow> upcast_loop ups event_type (v + 1) (f cur))"
  by auto
termination
  by (relation "measure (\<lambda>(ups, event_type, v, cur). card (upcasters_from ups event_type v))") (auto simp: upcasters_from_less)

declare upcast_loop.simps [simp del]

definition migrate_to_latest :: "string \<Rightarrow> int \<Rightarrow> (string, 'v) dict \<Rightarrow> 'v EventSchemaRegistry \<Rightarrow> (int \<times> (string, 'v) dict) res" where
  "migrate_to_latest event_type version payload r =
     (let (cur_v, cur) = upcast_loop (sr_upcasters r) event_type version payload
      in bind_res (schema_validate event_type cur_v cur r) (\<lambda>_. Inr (cur_v, cur)))"

section \<open>Exactly-once consumption\<close>

type_synonym InMemoryReceiptStore = "(string \<times> string) list"

definition store_claim :: "string \<Rightarrow> string \<Rightarrow> InMemoryReceiptStore \<Rightarrow> InMemoryReceiptStore \<times> bool" where
  "store_claim consumer_id event_id seen =
     (if (consumer_id, event_id) \<in> set seen then (seen, False) else ((consumer_id, event_id) # seen, True))"

definition store_release :: "string \<Rightarrow> string \<Rightarrow> InMemoryReceiptStore \<Rightarrow> InMemoryReceiptStore" where
  "store_release consumer_id event_id seen = filter (\<lambda>k. k \<noteq> (consumer_id, event_id)) seen"

record ConsumeResult =
  cr_applied :: bool
  cr_duplicate :: bool

definition new_consumer :: "string \<Rightarrow> string res" where
  "new_consumer consumer_id = (if strip consumer_id = [] then Inl (ValueError ''consumer_id is required'') else Inr consumer_id)"

text \<open>The handler works on a world of its own and may raise; the store is any implementation of the receipt protocol.\<close>

definition consume ::
  "(string \<Rightarrow> string \<Rightarrow> 's \<Rightarrow> 's \<times> bool) \<Rightarrow> (string \<Rightarrow> string \<Rightarrow> 's \<Rightarrow> 's) \<Rightarrow> ('p \<Rightarrow> 'w \<Rightarrow> 'w \<times> unit res) \<Rightarrow> string \<Rightarrow> string \<Rightarrow> 'p \<Rightarrow> 's \<times> 'w \<Rightarrow>
   ('s \<times> 'w) \<times> ConsumeResult res" where
  "consume claim release handler cid event_id payload st =
     (if strip event_id = [] then (st, Inl (ValueError ''event_id is required''))
      else let (store, world) = st; (store1, fresh) = claim cid event_id store in
        if \<not> fresh then ((store1, world), Inr \<lparr>cr_applied = False, cr_duplicate = True\<rparr>)
        else case handler payload world of
               (world1, Inl e) \<Rightarrow> ((release cid event_id store1, world1), Inl e)
             | (world1, Inr _) \<Rightarrow> ((store1, world1), Inr \<lparr>cr_applied = True, cr_duplicate = False\<rparr>))"

section \<open>Outbox and dead letters\<close>

record 'p OutboxEvent =
  ox_topic :: string
  ox_payload :: 'p
  ox_published_at :: "int option"
  ox_attempts :: nat
  ox_next_attempt_at :: "int option"
  ox_last_error :: "string option"

record DeadLetterRow =
  dl_event_type :: string
  dl_schema_version :: int
  dl_payload_hash :: string
  dl_failure_reason :: string
  dl_correlation_id :: string
  dl_attempts :: nat
  dl_consumer_version :: string
  dl_first_failed_at :: int
  dl_last_failed_at :: int
  dl_resolution_state :: string

text \<open>The database and, as its environment, the events the publisher has delivered.\<close>

record 'p outbox_db =
  db_outbox :: "(string, 'p OutboxEvent) dict"
  db_dead :: "(string, DeadLetterRow) dict"
  db_sent :: "string list"

text \<open>\<open>timedelta(seconds=x)\<close> of a float, in microseconds.\<close>

definition seconds_us :: "rat \<Rightarrow> int" where
  "seconds_us x = (let whole = round_down x in whole * 1000000 + rhe (flt ((x - of_int whole) * 1000000)))"

definition retry_delay :: "nat \<Rightarrow> rat \<Rightarrow> rat" where
  "retry_delay attempts rand = flt (of_int (min 60 (2 ^ attempts)) + rand)"

text \<open>One row: \<open>outcome\<close> is the exception text of the publisher, if it raises.\<close>

definition dispatch_row ::
  "('p \<Rightarrow> string) \<Rightarrow> nat \<Rightarrow> int \<Rightarrow> string option \<Rightarrow> rat \<Rightarrow> string \<Rightarrow> 'p outbox_db \<times> nat \<times> nat \<Rightarrow> 'p outbox_db \<times> nat \<times> nat" where
  "dispatch_row ph max_attempts now outcome rand event_id st =
     (let (db, published, failed) = st in
      case dget (db_outbox db) event_id of
        None \<Rightarrow> st
      | Some row \<Rightarrow>
        if (case ox_next_attempt_at row of None \<Rightarrow> False | Some t \<Rightarrow> t > now) then st
        else case outcome of
          None \<Rightarrow> (db\<lparr>db_outbox := dset event_id (row\<lparr>ox_published_at := Some now\<rparr>) (db_outbox db), db_sent := db_sent db @ [event_id]\<rparr>, published + 1, failed)
        | Some err \<Rightarrow>
          let row1 = row\<lparr>ox_attempts := ox_attempts row + 1, ox_last_error := Some err\<rparr> in
          if ox_attempts row1 \<ge> max_attempts
          then (let dead = (if dget (db_dead db) event_id = None
                            then dset event_id \<lparr>dl_event_type = ox_topic row, dl_schema_version = 1, dl_payload_hash = ph (ox_payload row), dl_failure_reason = err,
                                   dl_correlation_id = [], dl_attempts = ox_attempts row1, dl_consumer_version = ''0.3.0-local-acceptance'', dl_first_failed_at = now,
                                   dl_last_failed_at = now, dl_resolution_state = ''OPEN''\<rparr> (db_dead db)
                            else db_dead db)
                in (db\<lparr>db_outbox := dset event_id (row1\<lparr>ox_published_at := Some now\<rparr>) (db_outbox db), db_dead := dead\<rparr>, published, failed + 1))
          else (db\<lparr>db_outbox := dset event_id (row1\<lparr>ox_next_attempt_at := Some (now + seconds_us (retry_delay (ox_attempts row1) rand))\<rparr>) (db_outbox db)\<rparr>,
                published, failed + 1))"

definition unpublished :: "'p outbox_db \<Rightarrow> string list" where
  "unpublished db = map fst (filter (\<lambda>(k, row). ox_published_at row = None) (db_outbox db))"

definition dispatch_once ::
  "('p \<Rightarrow> string) \<Rightarrow> nat \<Rightarrow> int \<Rightarrow> (string \<Rightarrow> string option) \<Rightarrow> (string \<Rightarrow> rat) \<Rightarrow> 'p outbox_db \<Rightarrow> 'p outbox_db \<times> nat \<times> nat" where
  "dispatch_once ph max_attempts now outcome rand db =
     fold (\<lambda>k. dispatch_row ph max_attempts now (outcome k) (rand k) k) (unpublished db) (db, 0, 0)"

record 'p DeadLetterInspection =
  di_original_event_id :: string
  di_event_type :: string
  di_schema_version :: int
  di_payload_hash :: string
  di_failure_reason :: string
  di_attempts :: nat
  di_resolution_state :: string
  di_payload :: 'p

definition dlq_rows :: "string \<Rightarrow> 'p outbox_db \<Rightarrow> (DeadLetterRow \<times> 'p OutboxEvent) res" where
  "dlq_rows k db =
     (case (dget (db_dead db) k, dget (db_outbox db) k) of (Some d, Some r) \<Rightarrow> Inr (d, r) | _ \<Rightarrow> Inl (LookupError k))"

definition dlq_inspect :: "('p \<Rightarrow> string) \<Rightarrow> string \<Rightarrow> 'p outbox_db \<Rightarrow> 'p DeadLetterInspection res" where
  "dlq_inspect ph k db =
     bind_res (dlq_rows k db) (\<lambda>(d, r).
       let actual = ph (ox_payload r) in
       if dl_payload_hash d \<noteq> [] \<and> dl_payload_hash d \<noteq> actual then Inl (RuntimeError ''DEAD_LETTER_PAYLOAD_HASH_MISMATCH'')
       else Inr \<lparr>di_original_event_id = k, di_event_type = dl_event_type d, di_schema_version = dl_schema_version d, di_payload_hash = actual,
              di_failure_reason = dl_failure_reason d, di_attempts = dl_attempts d, di_resolution_state = dl_resolution_state d, di_payload = ox_payload r\<rparr>)"

definition open_or_migrated :: "DeadLetterRow \<Rightarrow> bool" where
  "open_or_migrated d \<longleftrightarrow> dl_resolution_state d = ''OPEN'' \<or> dl_resolution_state d = ''MIGRATED''"

definition migrate_payload ::
  "('p \<Rightarrow> string) \<Rightarrow> string \<Rightarrow> string \<Rightarrow> int \<Rightarrow> ('p \<Rightarrow> 'p res) \<Rightarrow> 'p outbox_db \<Rightarrow> 'p outbox_db \<times> 'p DeadLetterInspection res" where
  "migrate_payload ph k expected_hash new_schema_version migrator db =
     (case dlq_rows k db of
        Inl e \<Rightarrow> (db, Inl e)
      | Inr (d, r) \<Rightarrow>
        if \<not> open_or_migrated d then (db, Inl (RuntimeError ''DEAD_LETTER_NOT_MIGRATABLE''))
        else if ph (ox_payload r) \<noteq> expected_hash then (db, Inl (RuntimeError ''DEAD_LETTER_STALE_OPERATOR_VIEW''))
        else case migrator (ox_payload r) of
               Inl e \<Rightarrow> (db, Inl e)
             | Inr migrated \<Rightarrow>
               let db1 = db\<lparr>db_outbox := dset k (r\<lparr>ox_payload := migrated\<rparr>) (db_outbox db),
                            db_dead := dset k (d\<lparr>dl_schema_version := new_schema_version, dl_payload_hash := ph migrated, dl_resolution_state := ''MIGRATED''\<rparr>) (db_dead db)\<rparr>
               in (db1, dlq_inspect ph k db1))"

definition schedule_replay :: "('p \<Rightarrow> string) \<Rightarrow> string \<Rightarrow> string \<Rightarrow> 'p outbox_db \<Rightarrow> 'p outbox_db \<times> unit res" where
  "schedule_replay ph k expected_hash db =
     (case dlq_rows k db of
        Inl e \<Rightarrow> (db, Inl e)
      | Inr (d, r) \<Rightarrow>
        if ph (ox_payload r) \<noteq> expected_hash \<or> dl_payload_hash d \<noteq> expected_hash then (db, Inl (RuntimeError ''DEAD_LETTER_REPLAY_HASH_MISMATCH''))
        else if \<not> open_or_migrated d then (db, Inl (RuntimeError ''DEAD_LETTER_NOT_REPLAYABLE''))
        else (db\<lparr>db_outbox := dset k (r\<lparr>ox_published_at := None, ox_attempts := 0, ox_next_attempt_at := None, ox_last_error := None\<rparr>) (db_outbox db),
                 db_dead := dset k (d\<lparr>dl_resolution_state := ''REPLAY_PENDING''\<rparr>) (db_dead db)\<rparr>, Inr ()))"

definition mark_resolved :: "string \<Rightarrow> 'p outbox_db \<Rightarrow> 'p outbox_db \<times> unit res" where
  "mark_resolved k db =
     (case dlq_rows k db of
        Inl e \<Rightarrow> (db, Inl e)
      | Inr (d, r) \<Rightarrow>
        if dl_resolution_state d \<noteq> ''REPLAY_PENDING'' \<or> ox_published_at r = None then (db, Inl (RuntimeError ''DEAD_LETTER_REPLAY_NOT_CONFIRMED''))
        else (db\<lparr>db_dead := dset k (d\<lparr>dl_resolution_state := ''RESOLVED''\<rparr>) (db_dead db)\<rparr>, Inr ()))"

record OutboxHealth =
  oh_committed_unpublished :: int
  oh_replayable_committed :: int
  oh_critical_alert_delivery_failures :: int
  oh_dead_letter_open :: int

definition outbox_degraded :: "OutboxHealth \<Rightarrow> bool" where
  "outbox_degraded h \<longleftrightarrow> oh_critical_alert_delivery_failures h > 0 \<or> oh_dead_letter_open h > 0"

definition assert_no_event_loss :: "OutboxHealth \<Rightarrow> unit res" where
  "assert_no_event_loss h =
     (if oh_committed_unpublished h < 0 \<or> oh_replayable_committed h < 0 then Inl (ValueError ''invalid counters'')
      else if oh_replayable_committed h < oh_committed_unpublished h then Inl (RuntimeError ''committed event not replayable'')
      else Inr ())"

section \<open>Replay is deterministic and ends\<close>

text \<open>Upcasters that keep the type and raise the version.\<close>

definition raising :: "'p upcasters \<Rightarrow> bool" where
  "raising ups \<longleftrightarrow> (\<forall>p \<in> set ups. \<forall>e e'. snd p e = Inr e' \<longrightarrow> ev_event_type e' = ev_event_type e \<and> ev_schema_version e < ev_schema_version e')"

lemma upcasters_from_mono: "v \<le> w \<Longrightarrow> upcasters_from ups k w \<subseteq> upcasters_from ups k v"
  by (auto simp: upcasters_from_def)

lemma upcast_ends: assumes "raising ups" shows "\<exists>r. upcast ups e = Some r"
proof (induction "card (upcasters_from ups (ev_event_type e) (ev_schema_version e))" arbitrary: e rule: less_induct)
  case less
  show ?case
  proof (cases "map_of ups (ev_event_type e, ev_schema_version e)")
    case (Some f)
    show ?thesis
    proof (cases "f e")
      case (Inr e')
      have "ev_event_type e' = ev_event_type e \<and> ev_schema_version e < ev_schema_version e'"
        using assms map_of_SomeD [OF Some] Inr unfolding raising_def by fastforce
      then have "card (upcasters_from ups (ev_event_type e') (ev_schema_version e')) \<le> card (upcasters_from ups (ev_event_type e) (ev_schema_version e + 1))"
        by (intro card_mono) (auto simp: upcasters_from_def)
      also have "\<dots> < card (upcasters_from ups (ev_event_type e) (ev_schema_version e))" by (rule upcasters_from_less [OF Some])
      finally obtain r where "upcast ups e' = Some r" using less by blast
      then show ?thesis by (subst upcast.simps) (simp add: Some Inr)
    qed (subst upcast.simps, simp add: Some)
  qed (subst upcast.simps, simp)
qed

lemma replay_loop_ends: "raising ups \<Longrightarrow> \<exists>r. replay_loop handlers ups i es s = Some r"
proof (induction es arbitrary: i s)
  case (Cons e es)
  obtain r where r: "upcast ups e = Some r" using upcast_ends [OF Cons.prems] by blast
  show ?case
  proof (cases r)
    case (Inr e')
    show ?thesis
    proof (cases "dget handlers (ev_event_type e')")
      case (Some f)
      with r Inr Cons show ?thesis by (cases "f s e'") auto
    qed (simp add: r Inr)
  qed (simp add: r)
qed simp

lemma replay_loop_sequences:
  "replay_loop handlers ups i es s = Some (Inr s') \<Longrightarrow> map ev_sequence es = [i..i + int (length es) - 1]"
proof (induction es arbitrary: i s)
  case (Cons e es)
  then obtain s1 where "ev_sequence e = i" "replay_loop handlers ups (i + 1) es s1 = Some (Inr s')"
    by (auto split: if_splits option.splits sum.splits)
  with Cons.IH [of "i + 1" s1] show ?case by (simp add: upto_rec1 [of i])
qed simp

text \<open>Replay does not depend on the order of delivery: for events with distinct sequence numbers every permutation gives the same result. It returns whenever the upcasters raise the version,
  and it succeeds only on the complete sequence 1, 2, ..., n. A checkpoint taken after it verifies against the same state and events, in any order.
\<close>

theorem replay_deterministic:
  assumes "mset events' = mset events" "distinct (map ev_sequence events)"
  shows "replay handlers ups events' s = replay handlers ups events s \<and>
    (raising ups \<longrightarrow> (\<exists>r. replay handlers ups events s = Some r)) \<and>
    (\<forall>s'. replay handlers ups events s = Some (Inr s') \<longrightarrow> ev_sequence ` set events = {1..int (length events)}) \<and>
    (\<forall>c version. create_replay_checkpoint sha ph sh s events version = Inr c \<longrightarrow> verify_replay_checkpoint sha ph sh c s events')"
proof -
  have srt: "sort_key ev_sequence events' = sort_key ev_sequence events"
    using assms by (intro sort_key_inj_key_eq) (simp_all add: distinct_map mset_eq_setD [OF assms(1)])
  have "ev_sequence ` set events = {1..int (length events)}" if "replay handlers ups events s = Some (Inr s')" for s'
  proof -
    have "map ev_sequence (sort_key ev_sequence events) = [1..1 + int (length events) - 1]"
      using replay_loop_sequences that unfolding replay_def by fastforce
    from arg_cong [OF this, of set] show ?thesis by simp
  qed
  moreover have "verify_replay_checkpoint sha ph sh c s events'" if "create_replay_checkpoint sha ph sh s events version = Inr c" for c version
  proof -
    have "c = \<lparr>rc_last_sequence = length events, rc_state_hash = sh s, rc_event_chain_hash = event_chain_hash sha ph (sort_key ev_sequence events),
        rc_producer_version = version\<rparr>"
      using that by (simp add: create_replay_checkpoint_def Let_def split: if_splits)
    moreover have "length (sort_key ev_sequence events') = length events" by (simp add: srt)
    ultimately show ?thesis unfolding verify_replay_checkpoint_def Let_def by (simp add: srt)
  qed
  ultimately show ?thesis using replay_loop_ends by (auto simp: replay_def srt)
qed

definition example_event :: "int \<Rightarrow> int \<Rightarrow> int DomainEvent" where
  "example_event n x = \<lparr>ev_event_type = ''FILL'', ev_aggregate_id = ''a'', ev_payload = x, ev_schema_version = 1, ev_sequence = n, ev_event_id = ''e'', ev_correlation_id = ''c'',
     ev_causation_id = None, ev_event_time = 0, ev_received_at = 0, ev_producer_version = ''v''\<rparr>"

theorem replay_deterministic_witness:
  "replay [(''FILL'', \<lambda>s e. Inr (s + ev_payload e))] [] [example_event 2 5, example_event 1 7] (0 :: int) =
   replay [(''FILL'', \<lambda>s e. Inr (s + ev_payload e))] [] [example_event 1 7, example_event 2 5] 0"
  using replay_deterministic [of "[example_event 2 5, example_event 1 7]" "[example_event 1 7, example_event 2 5]" "[(''FILL'', \<lambda>s e. Inr (s + ev_payload e))]" "[]" 0]
  by (simp add: example_event_def)

section \<open>Migration reaches the latest version\<close>

lemma upcast_loop_latest:
  "let (w, q) = upcast_loop ups k v p in v \<le> w \<and> map_of ups (k, w) = None \<and> (\<forall>u. v \<le> u \<and> u < w \<longrightarrow> map_of ups (k, u) \<noteq> None) \<and>
     q = fold (\<lambda>u. the (map_of ups (k, u))) [v..w - 1] p"
proof (induction ups k v p rule: upcast_loop.induct)
  case (1 ups k v p)
  show ?case
  proof (cases "map_of ups (k, v)")
    case None
    then show ?thesis by (subst upcast_loop.simps) auto
  next
    case (Some f)
    obtain w q where w: "upcast_loop ups k (v + 1) (f p) = (w, q)" by fastforce
    have IH: "v + 1 \<le> w" "map_of ups (k, w) = None" "\<forall>u. v + 1 \<le> u \<and> u < w \<longrightarrow> map_of ups (k, u) \<noteq> None"
      "q = fold (\<lambda>u. the (map_of ups (k, u))) [v + 1..w - 1] (f p)"
      using 1 [OF Some] by (simp_all add: w)
    have "upcast_loop ups k v p = (w, q)" by (subst upcast_loop.simps) (simp add: Some w)
    moreover have "map_of ups (k, u) \<noteq> None" if "v \<le> u \<and> u < w" for u using IH(3) Some that by (cases "u = v") auto
    moreover have "q = fold (\<lambda>u. the (map_of ups (k, u))) [v..w - 1] p" using IH(1,4) by (simp add: upto_rec1 [of v] Some)
    ultimately show ?thesis using IH(1,2) by simp
  qed
qed

text \<open>
  C25: migrating an event always ends, at the first version from its own on that has no upcaster; the payload is what the upcasters in between make of it, one after the other, and it is
  returned only when it has every field its latest schema requires.
\<close>

theorem migration_reaches_latest:
  assumes "migrate_to_latest event_type v p r = Inr (w, q)"
  shows "v \<le> w \<and> dget (sr_upcasters r) (event_type, w) = None \<and> (\<forall>u. v \<le> u \<and> u < w \<longrightarrow> dget (sr_upcasters r) (event_type, u) \<noteq> None) \<and>
    q = fold (\<lambda>u. the (dget (sr_upcasters r) (event_type, u))) [v..w - 1] p \<and>
    (\<exists>s. dget (sr_schemas r) (event_type, w) = Some s \<and> es_required_fields s \<subseteq> fst ` set q)"
proof -
  have m: "upcast_loop (sr_upcasters r) event_type v p = (w, q)" "is_ok (schema_validate event_type w q r)"
    using assms by (auto simp: migrate_to_latest_def bind_res_Inr split: prod.splits)
  then have "\<exists>s. dget (sr_schemas r) (event_type, w) = Some s \<and> es_required_fields s \<subseteq> fst ` set q"
    by (auto simp: schema_validate_def is_ok_iff split: option.splits if_splits)
  with upcast_loop_latest [of "sr_upcasters r" event_type v p] show ?thesis by (simp add: m(1))
qed

definition example_registry :: "int EventSchemaRegistry" where
  "example_registry = \<lparr>sr_schemas = [((''FILL'', 2), \<lparr>es_event_type = ''FILL'', es_version = 2, es_required_fields = {''fee''}, es_optional_fields = {}\<rparr>)],
     sr_upcasters = [((''FILL'', 1), \<lambda>d. dset ''fee'' 0 d)]\<rparr>"

theorem migration_reaches_latest_witness:
  "dget (sr_upcasters example_registry) (''FILL'', 2) = None \<and> migrate_to_latest ''FILL'' 1 [] example_registry = Inr (2, [(''fee'', 0)])"
proof -
  have "upcast_loop [((''FILL'', 1), \<lambda>d. dset ''fee'' (0 :: int) d)] ''FILL'' 1 [] = (2, [(''fee'', 0)])"
    by (subst upcast_loop.simps, simp, subst upcast_loop.simps, simp)
  then have "migrate_to_latest ''FILL'' 1 [] example_registry = Inr (2, [(''fee'', 0)])"
    by (simp add: migrate_to_latest_def example_registry_def schema_validate_def)
  from migration_reaches_latest [OF this] this show ?thesis by blast
qed

section \<open>The receipt protocol\<close>

text \<open>What a receipt store promises: a claim succeeds exactly when the receipt is free and then holds it, a release frees it, neither touches another receipt.\<close>

locale receipt_store =
  fixes claim :: "string \<Rightarrow> string \<Rightarrow> 's \<Rightarrow> 's \<times> bool" and release :: "string \<Rightarrow> string \<Rightarrow> 's \<Rightarrow> 's" and held :: "'s \<Rightarrow> (string \<times> string) set"
  assumes claim_held: "claim c e s = (s', ok) \<Longrightarrow> held s' = insert (c, e) (held s) \<and> (ok \<longleftrightarrow> (c, e) \<notin> held s)"
    and release_held: "held (release c e s) = held s - {(c, e)}"
begin

lemma consume_cases:
  assumes "consume claim release handler c e p (s, w) = ((s', w'), r)"
  shows "r = Inr \<lparr>cr_applied = True, cr_duplicate = False\<rparr> \<and> (c, e) \<notin> held s \<and> held s' = insert (c, e) (held s) \<and> handler p w = (w', Inr ()) \<or>
    r = Inr \<lparr>cr_applied = False, cr_duplicate = True\<rparr> \<and> (c, e) \<in> held s \<and> held s' = held s \<and> w' = w \<or>
    (\<exists>x. r = Inl x) \<and> held s' = held s"
proof (cases "strip e = []")
  case False
  obtain s1 ok where s1: "claim c e s = (s1, ok)" by fastforce
  note h = claim_held [OF s1]
  show ?thesis
  proof (cases ok)
    case True
    obtain w1 q where q: "handler p w = (w1, q)" by fastforce
    from True h have new: "(c, e) \<notin> held s" "held s1 = insert (c, e) (held s)" by simp_all
    show ?thesis
      using assms False s1 True q new release_held [of c e s1] by (cases q) (auto simp: consume_def)
  next
    case False
    with \<open>strip e \<noteq> []\<close> assms s1 h show ?thesis by (auto simp: consume_def)
  qed
qed (use assms in \<open>auto simp: consume_def\<close>)

end

interpretation memory: receipt_store store_claim store_release set
  by unfold_locales (auto simp: store_claim_def store_release_def split: if_splits)

text \<open>A run of deliveries of events to one consumer; the results of one event.\<close>

fun deliveries :: "('p \<Rightarrow> 'w \<Rightarrow> 'w \<times> unit res) \<Rightarrow> string \<Rightarrow> (string \<times> 'p) list \<Rightarrow> InMemoryReceiptStore \<times> 'w \<Rightarrow> (string \<times> ConsumeResult res) list" where
  "deliveries handler c [] st = []"
| "deliveries handler c ((e, p) # ds) st =
     (let (st', r) = consume store_claim store_release handler c e p st in (e, r) # deliveries handler c ds st')"

definition applied_to :: "string \<Rightarrow> (string \<times> ConsumeResult res) list \<Rightarrow> nat" where
  "applied_to e rs = length (filter (\<lambda>r. r = (e, Inr \<lparr>cr_applied = True, cr_duplicate = False\<rparr>)) rs)"

definition duplicate_of :: "string \<Rightarrow> (string \<times> ConsumeResult res) list \<Rightarrow> bool" where
  "duplicate_of e rs \<longleftrightarrow> (e, Inr \<lparr>cr_applied = False, cr_duplicate = True\<rparr>) \<in> set rs"

lemma deliveries_held:
  "applied_to e (deliveries handler c ds (s, w)) + (if (c, e) \<in> set s then 1 else 0) \<le> 1 \<and>
   (duplicate_of e (deliveries handler c ds (s, w)) \<longrightarrow> (c, e) \<in> set s \<or> applied_to e (deliveries handler c ds (s, w)) = 1)"
proof (induction ds arbitrary: s w)
  case (Cons d ds)
  obtain k p where d: "d = (k, p)" by (cases d)
  obtain s' w' r where r: "consume store_claim store_release handler c k p (s, w) = ((s', w'), r)" by (metis prod.exhaust)
  have tail: "deliveries handler c (d # ds) (s, w) = (k, r) # deliveries handler c ds (s', w')" by (simp add: d r)
  from memory.consume_cases [OF r] Cons [of s' w'] show ?case
    unfolding tail by (elim disjE conjE exE) (auto simp: applied_to_def duplicate_of_def split: if_splits)
qed (simp add: applied_to_def duplicate_of_def)

text \<open>
  C23: consumption is exactly once. However often and in whatever order events are delivered, and whatever the handler does with each, an event is applied at most once by a consumer; and a
  delivery is dismissed as a duplicate only when the event has been applied, so that failed attempts never use an event up.
\<close>

theorem consumed_exactly_once:
  "applied_to e (deliveries handler c ds ([], w)) \<le> 1 \<and>
   (duplicate_of e (deliveries handler c ds ([], w)) \<longrightarrow> applied_to e (deliveries handler c ds ([], w)) = 1)"
  using deliveries_held [of e handler c ds "[]" w] by simp

theorem consumed_exactly_once_witness:
  "applied_to ''e1'' (deliveries (\<lambda>p w. (w + p, Inr ())) ''c'' [(''e1'', 1), (''e2'', 2), (''e1'', 1)] ([], 0 :: int)) = 1"
proof -
  have "duplicate_of ''e1'' (deliveries (\<lambda>p w. (w + p, Inr ())) ''c'' [(''e1'', 1), (''e2'', 2), (''e1'', 1)] ([], 0 :: int))"
    by (simp add: duplicate_of_def consume_def store_claim_def strip_def is_space_def)
  then show ?thesis
    using consumed_exactly_once [of "''e1''" "\<lambda>p w. (w + p, Inr ())" "''c''" "[(''e1'', 1), (''e2'', 2), (''e1'', 1)]" "0 :: int"] by blast
qed

section \<open>No event is lost\<close>

datatype 'p outbox_op =
    Dispatch int "string \<Rightarrow> string option" "string \<Rightarrow> rat"
  | Migrate string string int "'p \<Rightarrow> 'p res"
  | Replay string string
  | Resolve string

fun outbox_step :: "('p \<Rightarrow> string) \<Rightarrow> nat \<Rightarrow> 'p outbox_op \<Rightarrow> 'p outbox_db \<Rightarrow> 'p outbox_db" where
  "outbox_step ph n (Dispatch now outcome rand) db = fst (dispatch_once ph n now outcome rand db)"
| "outbox_step ph n (Migrate k h v f) db = fst (migrate_payload ph k h v f db)"
| "outbox_step ph n (Replay k h) db = fst (schedule_replay ph k h db)"
| "outbox_step ph n (Resolve k) db = fst (mark_resolved k db)"

text \<open>Every event still waits, or was delivered, or has a dead letter.\<close>

definition accounted :: "'p outbox_db \<Rightarrow> bool" where
  "accounted db \<longleftrightarrow> (\<forall>k row. dget (db_outbox db) k = Some row \<longrightarrow> ox_published_at row = None \<or> k \<in> set (db_sent db) \<or> dget (db_dead db) k \<noteq> None)"

definition same_events :: "string set \<Rightarrow> 'p outbox_db \<Rightarrow> bool" where
  "same_events ks db \<longleftrightarrow> (\<forall>k. k \<in> ks \<longleftrightarrow> dget (db_outbox db) k \<noteq> None)"

lemma dispatch_row_accounted:
  assumes "accounted (fst st)" "same_events ks (fst st)"
  shows "accounted (fst (dispatch_row ph n now outcome rand k st)) \<and> same_events ks (fst (dispatch_row ph n now outcome rand k st))"
proof -
  obtain db a b where st: "st = (db, a, b)" by (cases st)
  show ?thesis
  proof (cases "dget (db_outbox db) k")
    case (Some row)
    show ?thesis
    proof (cases "case ox_next_attempt_at row of None \<Rightarrow> False | Some t \<Rightarrow> t > now")
      case False
      then show ?thesis using assms Some unfolding st accounted_def same_events_def
        by (cases outcome) (auto simp: dispatch_row_def Let_def, metis option.distinct(1))
    qed (use assms Some in \<open>simp add: dispatch_row_def st\<close>)
  qed (use assms in \<open>simp add: dispatch_row_def st\<close>)
qed

lemma dispatch_accounted:
  "accounted (fst st) \<Longrightarrow> same_events ks (fst st) \<Longrightarrow>
   accounted (fst (fold (\<lambda>k. dispatch_row ph n now (outcome k) (rand k) k) xs st)) \<and>
   same_events ks (fst (fold (\<lambda>k. dispatch_row ph n now (outcome k) (rand k) k) xs st))"
proof (induction xs arbitrary: st)
  case (Cons k xs)
  then show ?case using dispatch_row_accounted [OF Cons.prems, of ph n now "outcome k" "rand k" k] by simp
qed simp

lemma dlq_rows_get: "dlq_rows k db = Inr (d, r) \<Longrightarrow> dget (db_dead db) k = Some d \<and> dget (db_outbox db) k = Some r"
  by (auto simp: dlq_rows_def split: option.splits)

lemma outbox_step_accounted:
  assumes "accounted db \<and> same_events ks db" shows "accounted (outbox_step ph n op db) \<and> same_events ks (outbox_step ph n op db)"
proof (cases op)
  case (Dispatch now outcome rand)
  then show ?thesis using dispatch_accounted [of "(db, 0, 0)" ks ph n now outcome rand "unpublished db"] assms by (simp add: dispatch_once_def)
next
  case (Migrate k h v f)
  then show ?thesis using assms
    by (cases "dlq_rows k db") (auto simp: migrate_payload_def accounted_def same_events_def Let_def dest!: dlq_rows_get split: prod.splits sum.splits)
next
  case (Replay k h)
  then show ?thesis using assms
    by (cases "dlq_rows k db") (auto simp: schedule_replay_def accounted_def same_events_def dest!: dlq_rows_get split: prod.splits)
next
  case (Resolve k)
  then show ?thesis using assms
    by (cases "dlq_rows k db") (auto simp: mark_resolved_def accounted_def same_events_def dest!: dlq_rows_get split: prod.splits)
qed

interpretation outbox: preserved "outbox_step ph n" "\<lambda>db. accounted db \<and> same_events ks db" for ph n ks
  by unfold_locales (rule outbox_step_accounted)

text \<open>
  C24: over any sequence of dispatches, with any failures of the publisher, and of operator actions, no event leaves the outbox silently: every event is still there, and it is still unpublished,
  or it was delivered, or it has a dead letter.
\<close>

theorem outbox_no_silent_loss:
  assumes "\<And>k row. dget (db_outbox db) k = Some row \<Longrightarrow> ox_published_at row = None"
  shows "(\<forall>k. dget (db_outbox db) k \<noteq> None \<longrightarrow> (\<exists>row. dget (db_outbox (fold (outbox_step ph n) ops db)) k = Some row \<and>
    (ox_published_at row = None \<or> k \<in> set (db_sent (fold (outbox_step ph n) ops db)) \<or> dget (db_dead (fold (outbox_step ph n) ops db)) k \<noteq> None)))"
proof -
  let ?ks = "{k. dget (db_outbox db) k \<noteq> None}"
  have "accounted db \<and> same_events ?ks db" using assms by (simp add: accounted_def same_events_def)
  from outbox.run_I [OF this, of ph n ops] show ?thesis unfolding accounted_def same_events_def by blast
qed

definition example_outbox :: "unit outbox_db" where
  "example_outbox = \<lparr>db_outbox = [(''e'', \<lparr>ox_topic = ''alerts'', ox_payload = (), ox_published_at = None, ox_attempts = 0, ox_next_attempt_at = None, ox_last_error = None\<rparr>)],
     db_dead = [], db_sent = []\<rparr>"

definition down :: "int \<Rightarrow> unit outbox_op" where
  "down now = Dispatch now (\<lambda>_. Some ''unreachable'') (\<lambda>_. 0)"

theorem outbox_no_silent_loss_witness:
  "\<exists>row. dget (db_outbox (fold (outbox_step (\<lambda>_. ''h'') 1) [down 0] example_outbox)) ''e'' = Some row \<and>
    (ox_published_at row = None \<or> ''e'' \<in> set (db_sent (fold (outbox_step (\<lambda>_. ''h'') 1) [down 0] example_outbox)) \<or>
     dget (db_dead (fold (outbox_step (\<lambda>_. ''h'') 1) [down 0] example_outbox)) ''e'' \<noteq> None)"
  using outbox_no_silent_loss [of example_outbox "\<lambda>_. ''h''" 1 "[down 0]"] by (fastforce simp: example_outbox_def split: if_splits)

text \<open>A replay that fails is counted as confirmed. When the publisher fails again after a dead letter was scheduled for replay, the dispatcher marks the event published because its
  attempts are used up, and the operator's confirmation then resolves the dead letter: the event was never delivered, and nothing waits for it any more.
\<close>

theorem failed_replay_resolves:
  "let db = fold (outbox_step (\<lambda>_. ''h'') 1) [down 0, Replay ''e'' ''h'', down 1, Resolve ''e''] example_outbox in
   db_sent db = [] \<and> unpublished db = [] \<and> map_option dl_resolution_state (dget (db_dead db) ''e'') = Some ''RESOLVED''"
  by (simp add: example_outbox_def down_def dispatch_once_def unpublished_def dispatch_row_def schedule_replay_def mark_resolved_def dlq_rows_def open_or_migrated_def Let_def)

end
