(* ===== verification/Universe.thy ===== *)
theory Universe
  imports Money Trading_Types "HOL-Library.Product_Lexorder" "HOL-Library.Multiset"
begin

text \<open>
  Which markets may be traded (\<open>backend/app/universe/\<close>): eligibility (\<open>manager.py\<close>, \<open>eligibility_engine.py\<close>), membership and metadata as of a time
  (\<open>manager.py\<close>, \<open>asset_metadata.py\<close>, \<open>snapshot_registry.py\<close>), asset events (\<open>lifecycle.py\<close>), the scanner and its rankings (\<open>scanner.py\<close>,
  \<open>ranking.py\<close>), routes (\<open>routing_policy.py\<close>) and asset risk (\<open>risk_context.py\<close>). Scores are floats: every operation on them rounds.
\<close>

section \<open>Eligibility\<close>

record SymbolEligibility =
  se_symbol :: string
  se_listing_age_days :: int
  se_quote_volume_24h :: rat
  se_spread_bps :: rat
  se_depth_notional :: rat
  se_history_bars :: int
  se_data_fresh :: bool
  se_active :: bool
  se_suspended :: bool

definition eligibility :: "SymbolEligibility \<Rightarrow> int \<Rightarrow> rat \<Rightarrow> rat \<Rightarrow> rat \<Rightarrow> int \<Rightarrow> bool \<times> string list" where
  "eligibility x min_age min_volume max_spread min_depth min_history =
     (let reasons =
        flag (\<not> se_active x \<or> se_suspended x) ''NOT_TRADABLE'' @
        flag (se_listing_age_days x < min_age) ''NEW_LISTING_QUARANTINE'' @
        flag (se_quote_volume_24h x < min_volume) ''LOW_VOLUME'' @
        flag (se_spread_bps x > max_spread) ''WIDE_SPREAD'' @
        flag (se_depth_notional x < min_depth) ''THIN_BOOK'' @
        flag (se_history_bars x < min_history) ''INSUFFICIENT_HISTORY'' @
        flag (\<not> se_data_fresh x) ''STALE_DATA''
      in (reasons = [], reasons))"

definition default_eligibility :: "SymbolEligibility \<Rightarrow> bool \<times> string list" where
  "default_eligibility x = eligibility x 30 5000000 20 100000 250"

record EligibilityPolicy =
  ep_supported_market_types :: "string set"
  ep_allowed_base_assets :: "string set option"
  ep_allowed_quote_assets :: "string set"
  ep_min_listing_age_days :: int
  ep_min_history_bars :: int
  ep_min_quote_volume_24h :: rat
  ep_min_rolling_median_volume :: rat
  ep_max_spread_bps :: rat
  ep_min_depth_notional :: rat
  ep_max_expected_slippage_bps :: rat
  ep_min_trade_count_24h :: int
  ep_max_stale_tick_ratio :: rat
  ep_max_missing_candle_ratio :: rat
  ep_max_abnormal_gap_ratio :: rat

record EligibilitySnapshot =
  el_symbol :: string
  el_market_type :: string
  el_base_asset :: string
  el_quote_asset :: string
  el_trading_active :: bool
  el_listing_age_days :: int
  el_history_bars :: int
  el_quote_volume_24h :: rat
  el_rolling_median_volume :: rat
  el_spread_bps :: rat
  el_depth_notional :: rat
  el_expected_slippage_bps :: rat
  el_trade_count_24h :: int
  el_stale_tick_ratio :: rat
  el_missing_candle_ratio :: rat
  el_abnormal_gap_ratio :: rat
  el_exchange_filters_ok :: bool
  el_quote_asset_risk_ok :: bool
  el_venue_healthy :: bool

record EligibilityDecision =
  ed_eligible :: bool
  ed_reasons :: "string list"

definition engine_evaluate :: "EligibilityPolicy \<Rightarrow> EligibilitySnapshot \<Rightarrow> EligibilityDecision" where
  "engine_evaluate p x =
     (let reasons =
        flag (\<not> el_trading_active x) ''SYMBOL_NOT_TRADING'' @
        flag (upper (el_market_type x) \<notin> ep_supported_market_types p) ''MARKET_TYPE_UNSUPPORTED'' @
        flag (case ep_allowed_base_assets p of None \<Rightarrow> False | Some a \<Rightarrow> upper (el_base_asset x) \<notin> a) ''BASE_ASSET_NOT_ALLOWED'' @
        flag (upper (el_quote_asset x) \<notin> ep_allowed_quote_assets p) ''QUOTE_ASSET_NOT_ALLOWED'' @
        flag (el_listing_age_days x < ep_min_listing_age_days p) ''LISTING_TOO_NEW'' @
        flag (el_history_bars x < ep_min_history_bars p) ''INSUFFICIENT_HISTORY'' @
        flag (el_quote_volume_24h x < ep_min_quote_volume_24h p) ''LOW_24H_QUOTE_VOLUME'' @
        flag (el_rolling_median_volume x < ep_min_rolling_median_volume p) ''LOW_ROLLING_MEDIAN_VOLUME'' @
        flag (el_spread_bps x > ep_max_spread_bps p) ''SPREAD_TOO_WIDE'' @
        flag (el_depth_notional x < ep_min_depth_notional p) ''INSUFFICIENT_BOOK_DEPTH'' @
        flag (el_expected_slippage_bps x > ep_max_expected_slippage_bps p) ''SLIPPAGE_TOO_HIGH'' @
        flag (el_trade_count_24h x < ep_min_trade_count_24h p) ''TRADE_COUNT_TOO_LOW'' @
        flag (el_stale_tick_ratio x > ep_max_stale_tick_ratio p) ''STALE_TICK_RATIO_HIGH'' @
        flag (el_missing_candle_ratio x > ep_max_missing_candle_ratio p) ''MISSING_CANDLE_RATIO_HIGH'' @
        flag (el_abnormal_gap_ratio x > ep_max_abnormal_gap_ratio p) ''ABNORMAL_GAP_RATIO_HIGH'' @
        flag (\<not> el_exchange_filters_ok x) ''EXCHANGE_FILTER_MISMATCH'' @
        flag (\<not> el_quote_asset_risk_ok x) ''QUOTE_ASSET_RISK_BLOCK'' @
        flag (\<not> el_venue_healthy x) ''VENUE_UNHEALTHY''
      in \<lparr>ed_eligible = (reasons = []), ed_reasons = reasons\<rparr>)"

section \<open>Membership as of a time\<close>

text \<open>A time without a zone counts as UTC here, so \<open>micros\<close> reads both.\<close>

record UniverseMembership =
  um_symbol :: string
  um_listed_at :: datetime
  um_delisted_at :: "datetime option"
  um_suspended_from :: "datetime option"
  um_suspended_until :: "datetime option"

definition active_at :: "UniverseMembership \<Rightarrow> datetime \<Rightarrow> bool" where
  "active_at m as_of =
     (let t = micros as_of in
      if t < micros (um_listed_at m) then False
      else if (case um_delisted_at m of None \<Rightarrow> False | Some d \<Rightarrow> t \<ge> micros d) then False
      else if (case um_suspended_from m of None \<Rightarrow> False
               | Some sf \<Rightarrow> (case um_suspended_until m of None \<Rightarrow> t \<ge> micros sf | Some su \<Rightarrow> micros sf \<le> t \<and> t < micros su)) then False
      else True)"

definition universe_members :: "UniverseMembership list \<Rightarrow> datetime \<Rightarrow> string list" where
  "universe_members ms as_of = sort (map um_symbol (filter (\<lambda>m. active_at m as_of) ms))"

definition universe_contains :: "UniverseMembership list \<Rightarrow> string \<Rightarrow> datetime \<Rightarrow> bool" where
  "universe_contains ms symbol as_of = list_ex (\<lambda>m. um_symbol m = symbol \<and> active_at m as_of) ms"

section \<open>Metadata history\<close>

record SymbolMetadataVersion =
  sm_symbol :: string
  sm_effective_at :: int
  sm_version :: string
  sm_metadata_source :: string
  sm_price_precision :: "int option"
  sm_quantity_precision :: "int option"
  sm_filters :: "(string \<times> string) list"

type_synonym SymbolMetadataHistory = "(string, SymbolMetadataVersion list) dict"

text \<open>Filters as the exchange sends them: one dictionary, or a list of dictionaries and plain values; all values as text.\<close>

datatype filter_item = FilterDict "(string, string) dict" | FilterValue string
datatype filters = FDict "(string, string) dict" | FList "filter_item list"

definition item_filters :: "filter_item \<Rightarrow> (string \<times> string) list" where
  "item_filters it =
     (case it of
        FilterDict d \<Rightarrow> (let prefix = get_or d ''filterType'' ''FILTER'' in map (\<lambda>(k, v). (prefix @ ''.'' @ k, v)) (sort d))
      | FilterValue v \<Rightarrow> [(''value'', v)])"

definition canonical_filters :: "filters \<Rightarrow> (string \<times> string) list" where
  "canonical_filters fs = sort (case fs of FDict d \<Rightarrow> d | FList items \<Rightarrow> concat (map item_filters items))"

type_synonym metadata_payload = "string \<times> string \<times> int option \<times> int option \<times> (string \<times> string) list"

definition record_metadata ::
  "(metadata_payload \<Rightarrow> string) \<Rightarrow> string \<Rightarrow> datetime \<Rightarrow> string \<Rightarrow> filters \<Rightarrow> int option \<Rightarrow> int option \<Rightarrow> SymbolMetadataHistory \<Rightarrow>
   SymbolMetadataHistory \<times> SymbolMetadataVersion res" where
  "record_metadata digest symbol effective_at metadata_source filters price_precision quantity_precision hist =
     (let effective = micros effective_at; canonical = canonical_filters filters; sym = upper symbol;
          version = take 16 (digest (sym, metadata_source, price_precision, quantity_precision, canonical));
          entry = \<lparr>sm_symbol = sym, sm_effective_at = effective, sm_version = version, sm_metadata_source = metadata_source,
                   sm_price_precision = price_precision, sm_quantity_precision = quantity_precision, sm_filters = canonical\<rparr>;
          bucket = get_or hist sym []; hist1 = dset sym bucket hist
      in if list_ex (\<lambda>x. sm_effective_at x = effective \<and> sm_version x \<noteq> version) bucket
         then (hist1, Inl (ValueError ''conflicting metadata for same effective timestamp''))
         else if \<not> list_ex (\<lambda>x. sm_effective_at x = effective \<and> sm_version x = version) bucket
         then (dset sym (sort_key sm_effective_at (bucket @ [entry])) hist, Inr entry)
         else (hist1, Inr entry))"

definition version_at :: "string \<Rightarrow> datetime \<Rightarrow> SymbolMetadataHistory \<Rightarrow> SymbolMetadataVersion res" where
  "version_at symbol as_of hist =
     (let eligible = filter (\<lambda>x. sm_effective_at x \<le> micros as_of) (get_or hist (upper symbol) [])
      in if eligible = [] then Inl (LookupError (''no metadata version available as_of for '' @ upper symbol)) else Inr (last eligible))"

definition changed_between :: "string \<Rightarrow> datetime \<Rightarrow> datetime \<Rightarrow> SymbolMetadataHistory \<Rightarrow> bool res" where
  "changed_between symbol earlier later hist =
     bind_res (version_at symbol earlier hist) (\<lambda>a. bind_res (version_at symbol later hist) (\<lambda>b. Inr (sm_version a \<noteq> sm_version b)))"

section \<open>Asset and market identities\<close>

definition TRUSTED_CONTRACT_SOURCES :: "string list" where
  "TRUSTED_CONTRACT_SOURCES = [''EXCHANGE_OFFICIAL'', ''PROJECT_OFFICIAL'', ''CHAIN_REGISTRY'']"

definition aware_utc :: "datetime \<Rightarrow> int res" where
  "aware_utc x = (if is_aware x then Inr (micros x) else Inl (ValueError ''timezone-aware timestamp required''))"

definition aware_opt :: "datetime option \<Rightarrow> int option res" where
  "aware_opt x = (case x of None \<Rightarrow> Inr None | Some d \<Rightarrow> bind_res (aware_utc d) (\<lambda>t. Inr (Some t)))"

record AssetIdentityVersion =
  ai_asset_id :: string
  ai_canonical_symbol :: string
  ai_display_name :: string
  ai_active_from :: int
  ai_active_to :: "int option"
  ai_chain_network :: "string option"
  ai_contract_identifier :: "string option"
  ai_contract_source :: "string option"

definition given :: "string option \<Rightarrow> bool" where
  "given x \<longleftrightarrow> (case x of None \<Rightarrow> False | Some s \<Rightarrow> s \<noteq> [])"

definition new_asset_identity ::
  "string \<Rightarrow> string \<Rightarrow> string \<Rightarrow> datetime \<Rightarrow> datetime option \<Rightarrow> string option \<Rightarrow> string option \<Rightarrow> string option \<Rightarrow> AssetIdentityVersion res" where
  "new_asset_identity asset_id symbol name active_from active_to chain contract source =
     bind_res (aware_utc active_from) (\<lambda>f. bind_res (aware_opt active_to) (\<lambda>t.
       if asset_id = [] \<or> symbol = [] \<or> name = [] then Inl (ValueError ''asset identity fields required'')
       else if (case t of None \<Rightarrow> False | Some t' \<Rightarrow> t' \<le> f) then Inl (ValueError ''invalid asset validity range'')
       else if given contract \<and> (case source of None \<Rightarrow> True | Some s \<Rightarrow> s \<notin> set TRUSTED_CONTRACT_SOURCES)
       then Inl (ValueError ''contract identifier requires trusted source'')
       else if given contract \<and> \<not> given chain then Inl (ValueError ''contract identifier requires chain/network'')
       else Inr \<lparr>ai_asset_id = asset_id, ai_canonical_symbol = symbol, ai_display_name = name, ai_active_from = f, ai_active_to = t,
              ai_chain_network = chain, ai_contract_identifier = contract, ai_contract_source = source\<rparr>))"

record MarketIdentityVersion =
  mi_exchange :: string
  mi_market_type :: string
  mi_symbol :: string
  mi_base_asset_id :: string
  mi_quote_asset_id :: string
  mi_contract_type :: string
  mi_status :: string
  mi_onboard_open_time :: int
  mi_version_valid_from :: int
  mi_expire_delist_time :: "int option"
  mi_version_valid_to :: "int option"

definition new_market_identity ::
  "string \<Rightarrow> string \<Rightarrow> string \<Rightarrow> string \<Rightarrow> string \<Rightarrow> string \<Rightarrow> string \<Rightarrow> datetime \<Rightarrow> datetime \<Rightarrow> datetime option \<Rightarrow> datetime option \<Rightarrow> MarketIdentityVersion res" where
  "new_market_identity exchange market_type symbol base quote contract_type status onboard valid_from delist valid_to =
     (if [] \<in> set [exchange, market_type, symbol, base, quote, contract_type, status] then Inl (ValueError ''field required'')
      else bind_res (aware_utc onboard) (\<lambda>o'. bind_res (aware_utc valid_from) (\<lambda>f. bind_res (aware_opt delist) (\<lambda>d. bind_res (aware_opt valid_to) (\<lambda>t.
        if (case t of None \<Rightarrow> False | Some t' \<Rightarrow> t' \<le> f) then Inl (ValueError ''invalid market validity range'')
        else if (case d of None \<Rightarrow> False | Some d' \<Rightarrow> d' < o') then Inl (ValueError ''delist before onboard'')
        else Inr \<lparr>mi_exchange = exchange, mi_market_type = market_type, mi_symbol = symbol, mi_base_asset_id = base, mi_quote_asset_id = quote,
               mi_contract_type = contract_type, mi_status = status, mi_onboard_open_time = o', mi_version_valid_from = f,
               mi_expire_delist_time = d, mi_version_valid_to = t\<rparr>)))))"

text \<open>\<open>datetime.max\<close> in UTC.\<close>

definition datetime_max :: int where
  "datetime_max = 253402300799999999"

definition until :: "int option \<Rightarrow> int" where
  "until t = (case t of None \<Rightarrow> datetime_max | Some x \<Rightarrow> x)"

definition validity_contains :: "int \<Rightarrow> int option \<Rightarrow> int \<Rightarrow> bool" where
  "validity_contains start fin now \<longleftrightarrow> start \<le> now \<and> (case fin of None \<Rightarrow> True | Some e \<Rightarrow> now < e)"

definition add_asset :: "AssetIdentityVersion \<Rightarrow> AssetIdentityVersion list \<Rightarrow> AssetIdentityVersion list \<times> unit res" where
  "add_asset v assets =
     (if list_ex (\<lambda>e. ai_asset_id e = ai_asset_id v \<and>
           max (ai_active_from e) (ai_active_from v) < min (until (ai_active_to e)) (until (ai_active_to v))) assets
      then (assets, Inl (ValueError ''overlapping asset identity versions'')) else (assets @ [v], Inr ()))"

definition market_key :: "MarketIdentityVersion \<Rightarrow> string \<times> string \<times> string" where
  "market_key v = (mi_exchange v, mi_market_type v, mi_symbol v)"

definition add_market :: "MarketIdentityVersion \<Rightarrow> MarketIdentityVersion list \<Rightarrow> MarketIdentityVersion list \<times> unit res" where
  "add_market v markets =
     (if list_ex (\<lambda>e. market_key e = market_key v \<and>
           max (mi_version_valid_from e) (mi_version_valid_from v) < min (until (mi_version_valid_to e)) (until (mi_version_valid_to v))) markets
      then (markets, Inl (ValueError ''overlapping market identity versions'')) else (markets @ [v], Inr ()))"

definition asset_as_of :: "string \<Rightarrow> datetime \<Rightarrow> AssetIdentityVersion list \<Rightarrow> AssetIdentityVersion res" where
  "asset_as_of asset_id now assets =
     bind_res (aware_utc now) (\<lambda>t.
       case filter (\<lambda>v. ai_asset_id v = asset_id \<and> validity_contains (ai_active_from v) (ai_active_to v) t) assets of
         [v] \<Rightarrow> Inr v
       | _ \<Rightarrow> Inl (LookupError ''asset identity unavailable or ambiguous as-of timestamp''))"

definition market_as_of :: "string \<Rightarrow> string \<Rightarrow> string \<Rightarrow> datetime \<Rightarrow> MarketIdentityVersion list \<Rightarrow> MarketIdentityVersion res" where
  "market_as_of exchange market_type symbol now markets =
     bind_res (aware_utc now) (\<lambda>t.
       case filter (\<lambda>v. market_key v = (exchange, market_type, symbol) \<and> validity_contains (mi_version_valid_from v) (mi_version_valid_to v) t) markets of
         [v] \<Rightarrow> Inr v
       | _ \<Rightarrow> Inl (LookupError ''market identity unavailable or ambiguous as-of timestamp''))"

section \<open>Identities are unambiguous\<close>

text \<open>What the two registries of versions promise: a version is added when its validity overlaps none of the same key.\<close>

locale version_registry =
  fixes key :: "'v \<Rightarrow> 'k" and start :: "'v \<Rightarrow> int" and fin :: "'v \<Rightarrow> int option" and add :: "'v \<Rightarrow> 'v list \<Rightarrow> 'v list"
  assumes add_version: "add v vs =
    (if \<exists>e \<in> set vs. key e = key v \<and> max (start e) (start v) < min (until (fin e)) (until (fin v)) then vs else vs @ [v])"
begin

definition apart :: "'v \<Rightarrow> 'v \<Rightarrow> bool" where
  "apart e v \<longleftrightarrow> (key e = key v \<longrightarrow> \<not> max (start e) (start v) < min (until (fin e)) (until (fin v)))"

definition disjoint_versions :: "'v list \<Rightarrow> bool" where
  "disjoint_versions vs \<longleftrightarrow> sorted_wrt apart vs"

lemma add_disjoint: "disjoint_versions vs \<Longrightarrow> disjoint_versions (add v vs)"
  by (auto simp: disjoint_versions_def add_version sorted_wrt_append apart_def)

lemma run_disjoint: "disjoint_versions (fold add ops [])"
proof -
  have "disjoint_versions vs \<Longrightarrow> disjoint_versions (fold add ops vs)" for vs
    by (induction ops arbitrary: vs) (simp_all add: add_disjoint)
  then show ?thesis by (simp add: disjoint_versions_def)
qed

definition covers_time :: "'k \<Rightarrow> int \<Rightarrow> 'v \<Rightarrow> bool" where
  "covers_time k t v \<longleftrightarrow> key v = k \<and> validity_contains (start v) (fin v) t"

lemma covering_not_apart: "covers_time k t e \<Longrightarrow> covers_time k t v \<Longrightarrow> t < datetime_max \<Longrightarrow> \<not> apart e v"
  by (auto simp: covers_time_def validity_contains_def apart_def until_def split: option.splits)

lemma at_most_one:
  assumes "disjoint_versions vs" "t < datetime_max"
  shows "(\<exists>v. filter (covers_time k t) vs = [v]) \<or> filter (covers_time k t) vs = []"
  using assms(1)
proof (induction vs)
  case (Cons v vs)
  have "filter (covers_time k t) vs = []" if "covers_time k t v"
    using Cons.prems covering_not_apart [OF that _ assms(2)] by (auto simp: disjoint_versions_def filter_empty_conv)
  with Cons show ?case by (auto simp: disjoint_versions_def)
qed simp

lemma lookup_iff:
  assumes "disjoint_versions vs" "t < datetime_max"
  shows "filter (covers_time k t) vs = [v] \<longleftrightarrow> v \<in> set vs \<and> covers_time k t v"
proof
  assume "filter (covers_time k t) vs = [v]"
  then have "v \<in> set (filter (covers_time k t) vs)" by simp
  then show "v \<in> set vs \<and> covers_time k t v" by simp
next
  assume "v \<in> set vs \<and> covers_time k t v"
  then have "v \<in> set (filter (covers_time k t) vs)" by simp
  with at_most_one [OF assms, of k] show "filter (covers_time k t) vs = [v]"
    by (metis empty_iff empty_set set_ConsD)
qed

end

interpretation assets: version_registry ai_asset_id ai_active_from ai_active_to "\<lambda>v vs. fst (add_asset v vs)"
  by unfold_locales (auto simp: add_asset_def list_ex_iff)

interpretation markets: version_registry market_key mi_version_valid_from mi_version_valid_to "\<lambda>v vs. fst (add_market v vs)"
  by unfold_locales (auto simp: add_market_def list_ex_iff)

lemma single_case: "(case xs of [v] \<Rightarrow> Inr v | _ \<Rightarrow> Inl e) = Inr v \<longleftrightarrow> xs = [v]"
  by (auto split: list.splits)

text \<open>Identities are never ambiguous. After any sequence of additions, accepted or refused, an asset and a market have at most one identity at any time before the end of
  the calendar, and the lookup returns exactly the version whose validity covers the time.
\<close>

theorem identities_unambiguous:
  assumes "t < datetime_max"
  shows "(asset_as_of i (Aware t) (fold (\<lambda>v vs. fst (add_asset v vs)) assets []) = Inr a \<longleftrightarrow>
      a \<in> set (fold (\<lambda>v vs. fst (add_asset v vs)) assets []) \<and> ai_asset_id a = i \<and> validity_contains (ai_active_from a) (ai_active_to a) t) \<and>
    (market_as_of x y z (Aware t) (fold (\<lambda>v vs. fst (add_market v vs)) markets []) = Inr m \<longleftrightarrow>
      m \<in> set (fold (\<lambda>v vs. fst (add_market v vs)) markets []) \<and> market_key m = (x, y, z) \<and> validity_contains (mi_version_valid_from m) (mi_version_valid_to m) t)"
  using assets.lookup_iff [OF assets.run_disjoint [of assets] assms, of i a] markets.lookup_iff [OF markets.run_disjoint [of markets] assms, of "(x, y, z)" m]
  unfolding assets.covers_time_def markets.covers_time_def asset_as_of_def market_as_of_def aware_utc_def
  by (simp add: single_case)

definition example_asset :: "string \<Rightarrow> int \<Rightarrow> int option \<Rightarrow> AssetIdentityVersion" where
  "example_asset name f t = \<lparr>ai_asset_id = ''eth'', ai_canonical_symbol = ''ETH'', ai_display_name = name, ai_active_from = f, ai_active_to = t,
     ai_chain_network = None, ai_contract_identifier = None, ai_contract_source = None\<rparr>"

theorem identities_unambiguous_witness:
  "asset_as_of ''eth'' (Aware 50) (fold (\<lambda>v vs. fst (add_asset v vs)) [example_asset ''a'' 0 (Some 40), example_asset ''b'' 30 (Some 60), example_asset ''c'' 40 None] []) =
   Inr (example_asset ''c'' 40 None)"
proof -
  let ?vs = "[example_asset ''a'' 0 (Some 40), example_asset ''b'' 30 (Some 60), example_asset ''c'' 40 None]"
  have "example_asset ''c'' 40 None \<in> set (fold (\<lambda>v vs. fst (add_asset v vs)) ?vs [])"
    by (simp add: add_asset_def example_asset_def until_def datetime_max_def)
  then show ?thesis
    using identities_unambiguous [of 50 "''eth''" ?vs "example_asset ''c'' 40 None"] by (simp add: datetime_max_def example_asset_def validity_contains_def)
qed

section \<open>Metadata does not leak back in time\<close>

definition history_ok :: "SymbolMetadataHistory \<Rightarrow> bool" where
  "history_ok hist \<longleftrightarrow> (\<forall>sy. sorted_wrt (\<lambda>a b. sm_effective_at a < sm_effective_at b) (get_or hist sy []))"

lemma sort_key_insert_distinct:
  assumes "sorted_wrt (\<lambda>a b. f a < f b) xs" "f x \<notin> f ` set xs"
  shows "sorted_wrt (\<lambda>a b. (f a :: int) < f b) (sort_key f (xs @ [x]))"
proof -
  have "distinct (map f xs)" using assms(1) by (metis (mono_tags) sorted_wrt_map strict_sorted_iff)
  then have "distinct (map f (xs @ [x]))" using assms(2) by auto
  then have "distinct (map f (sort_key f (xs @ [x])))" by (metis mset_eq_imp_distinct_iff mset_map mset_sort)
  moreover have "sorted (map f (sort_key f (xs @ [x])))" by simp
  ultimately show ?thesis by (metis (mono_tags) sorted_wrt_map strict_sorted_iff)
qed

lemma filter_sort_key_irrelevant:
  assumes "sorted_wrt (\<lambda>a b. f a < f b) xs" "f x \<notin> f ` set xs" "\<not> P x"
  shows "filter P (sort_key (f :: 'a \<Rightarrow> int) (xs @ [x])) = filter P xs"
proof -
  have "sorted (map f xs)" using assms(1) by (metis (mono_tags) sorted_wrt_map strict_sorted_iff)
  then have "sorted (map f (filter P xs))" by (rule sorted_filter)
  then have "sort_key f (filter P xs) = filter P xs" by (rule sort_key_id_if_sorted)
  with assms(3) show ?thesis by (simp add: filter_sort)
qed

lemma record_metadata_bucket:
  assumes "record_metadata digest symbol e src fs pp qp hist = (hist', r)" "history_ok hist"
  shows "get_or hist' sy [] = get_or hist sy [] \<or>
    (\<exists>x. sm_effective_at x = micros e \<and> micros e \<notin> sm_effective_at ` set (get_or hist sy []) \<and>
       get_or hist' sy [] = sort_key sm_effective_at (get_or hist sy [] @ [x]))"
proof (cases "sy = upper symbol")
  case False
  with assms show ?thesis by (auto simp: record_metadata_def Let_def get_or_def split: if_splits)
next
  case True
  define version where "version = take 16 (digest (upper symbol, src, pp, qp, canonical_filters fs))"
  let ?b = "get_or hist (upper symbol) []"
  show ?thesis
  proof (cases "list_ex (\<lambda>x. sm_effective_at x = micros e \<and> sm_version x \<noteq> version) ?b \<or> list_ex (\<lambda>x. sm_effective_at x = micros e \<and> sm_version x = version) ?b")
    case hit: True
    then have "get_or hist' (upper symbol) [] = ?b"
      using assms(1) by (auto simp: record_metadata_def Let_def version_def get_or_def split: if_splits)
    with True show ?thesis by simp
  next
    case miss: False
    then have "micros e \<notin> sm_effective_at ` set ?b" by (auto simp: list_ex_iff)
    moreover define entry where "entry = \<lparr>sm_symbol = upper symbol, sm_effective_at = micros e, sm_version = version, sm_metadata_source = src,
      sm_price_precision = pp, sm_quantity_precision = qp, sm_filters = canonical_filters fs\<rparr>"
    moreover have "hist' = dset (upper symbol) (sort_key sm_effective_at (?b @ [entry])) hist"
      using assms(1) miss by (simp add: record_metadata_def Let_def version_def entry_def)
    then have "get_or hist' (upper symbol) [] = sort_key sm_effective_at (?b @ [entry])" by (simp add: get_or_def)
    moreover have "sm_effective_at entry = micros e" by (simp add: entry_def)
    ultimately show ?thesis using True by blast
  qed
qed

lemma record_metadata_ok:
  assumes "record_metadata digest symbol e src fs pp qp hist = (hist', r)" "history_ok hist" shows "history_ok hist'"
  unfolding history_ok_def
proof
  fix sy
  let ?sorted = "sorted_wrt (\<lambda>a b. sm_effective_at a < sm_effective_at b)"
  have "?sorted (get_or hist sy [])" using assms(2) by (simp add: history_ok_def)
  with record_metadata_bucket [OF assms, of sy] sort_key_insert_distinct [of sm_effective_at "get_or hist sy []"]
  show "?sorted (get_or hist' sy [])" by metis
qed

datatype metadata_op = MetadataOp string datetime string filters "int option" "int option"

fun metadata_step :: "(metadata_payload \<Rightarrow> string) \<Rightarrow> metadata_op \<Rightarrow> SymbolMetadataHistory \<Rightarrow> SymbolMetadataHistory" where
  "metadata_step digest (MetadataOp sy e src fs pp qp) hist = fst (record_metadata digest sy e src fs pp qp hist)"

fun op_effective :: "metadata_op \<Rightarrow> int" where
  "op_effective (MetadataOp sy e src fs pp qp) = micros e"

interpretation metadata: preserved "metadata_step digest" history_ok for digest
proof
  fix hist op assume "history_ok hist"
  then show "history_ok (metadata_step digest op hist)" by (cases op) (auto intro: record_metadata_ok [OF surjective_pairing])
qed

lemma version_at_later:
  assumes "history_ok hist" "micros t < op_effective op"
  shows "version_at symbol t (metadata_step digest op hist) = version_at symbol t hist"
proof -
  obtain sy e src fs pp qp where op: "op = MetadataOp sy e src fs pp qp" by (cases op)
  obtain hist' r where r: "record_metadata digest sy e src fs pp qp hist = (hist', r)" by fastforce
  have "filter (\<lambda>x. sm_effective_at x \<le> micros t) (get_or hist' (upper symbol) []) = filter (\<lambda>x. sm_effective_at x \<le> micros t) (get_or hist (upper symbol) [])"
    (is "?f (get_or hist' ?s []) = ?f (get_or hist ?s [])")
  proof -
    have "sorted_wrt (\<lambda>a b. sm_effective_at a < sm_effective_at b) (get_or hist ?s [])" using assms(1) by (simp add: history_ok_def)
    then have "?f (sort_key sm_effective_at (get_or hist ?s [] @ [x])) = ?f (get_or hist ?s [])"
      if "sm_effective_at x = micros e" "micros e \<notin> sm_effective_at ` set (get_or hist ?s [])" for x
      by (rule filter_sort_key_irrelevant) (use that assms(2) in \<open>simp_all add: op\<close>)
    with record_metadata_bucket [OF r assms(1), of ?s] show ?thesis by metis
  qed
  then show ?thesis by (simp add: version_at_def op r)
qed

text \<open>Symbol metadata is read as of a time. After any sequence of recordings, the version returned for a time was effective by then, no later effective version was
  passed over, and recordings that take effect after that time never change it.
\<close>

theorem metadata_no_lookahead:
  assumes "hist = fold (metadata_step digest) ops []" "version_at symbol t hist = Inr v"
  shows "sm_effective_at v \<le> micros t \<and>
    (\<forall>w \<in> set (get_or hist (upper symbol) []). sm_effective_at w \<le> micros t \<longrightarrow> sm_effective_at w \<le> sm_effective_at v) \<and>
    (\<forall>later. (\<forall>op \<in> set later. micros t < op_effective op) \<longrightarrow> version_at symbol t (fold (metadata_step digest) later hist) = Inr v)"
proof -
  let ?b = "filter (\<lambda>x. sm_effective_at x \<le> micros t) (get_or hist (upper symbol) [])"
  have ok: "history_ok hist" using metadata.run_I [of "[]" digest ops] by (simp add: assms(1) history_ok_def get_or_def)
  have v: "?b \<noteq> []" "v = last ?b" using assms(2) by (auto simp: version_at_def Let_def split: if_splits)
  have "sorted (map sm_effective_at ?b)"
    using ok unfolding history_ok_def by (metis (mono_tags) sorted_filter sorted_wrt_map strict_sorted_iff)
  then have le: "sm_effective_at w \<le> sm_effective_at v" if "w \<in> set ?b" for w
    using sorted_le_last [of "map sm_effective_at ?b" "sm_effective_at w"] that v by (simp add: last_map)
  have "v \<in> set ?b" using v last_in_set by blast
  moreover have "version_at symbol t (fold (metadata_step digest) later hist) = Inr v" if "\<forall>op \<in> set later. micros t < op_effective op" for later
    using that ok assms(2)
  proof (induction later arbitrary: hist)
    case (Cons op later)
    then show ?case using version_at_later [of hist t op symbol digest] metadata.step_I [of hist digest op] by simp
  qed simp
  ultimately show ?thesis using le by simp
qed

theorem metadata_no_lookahead_witness:
  "version_at ''btcusdt'' (Aware 5) (fold (metadata_step (\<lambda>p. fst p)) [MetadataOp ''BTCUSDT'' (Aware 9) ''x'' (FDict []) None None]
     (fold (metadata_step (\<lambda>p. fst p)) [MetadataOp ''BTCUSDT'' (Aware 1) ''x'' (FDict []) None None] [])) =
   version_at ''btcusdt'' (Aware 5) (fold (metadata_step (\<lambda>p. fst p)) [MetadataOp ''BTCUSDT'' (Aware 1) ''x'' (FDict []) None None] [])"
proof -
  let ?hist = "fold (metadata_step (\<lambda>p. fst p)) [MetadataOp ''BTCUSDT'' (Aware 1) ''x'' (FDict []) None None] []"
  have "upper ''btcusdt'' = ''BTCUSDT''" "upper ''BTCUSDT'' = ''BTCUSDT''" by code_simp+
  then obtain v where v: "version_at ''btcusdt'' (Aware 5) ?hist = Inr v"
    by (simp add: record_metadata_def version_at_def get_or_def Let_def)
  moreover have "\<forall>op \<in> set [MetadataOp ''BTCUSDT'' (Aware 9) ''x'' (FDict []) None None]. micros (Aware 5) < op_effective op" by simp
  ultimately show ?thesis using metadata_no_lookahead [OF refl v] by metis
qed

end
