(* ===== verification/Selection.thy ===== *)
theory Selection
  imports Universe
begin

text \<open>
  Choosing among the eligible markets: rankings (\<open>backend/app/universe/ranking.py\<close>), the scanner (\<open>universe/scanner.py\<close>), routes (\<open>universe/routing_policy.py\<close>), asset
  events (\<open>universe/lifecycle.py\<close>), universe snapshots (\<open>universe/snapshot_registry.py\<close>), asset risk and market breadth (\<open>universe/risk_context.py\<close>), execution quality
  (\<open>execution/quality.py\<close>), the execution policy (\<open>execution/smart_execution.py\<close>) and the capabilities of a symbol (\<open>exchange/capability_policy.py\<close>).
  \<open>statistics.mean\<close> of floats is the exact mean, rounded once; \<open>statistics.median\<close> takes the middle or the mean of the middle two.
\<close>

section \<open>Rankings\<close>

record RankedCandidate =
  rk_symbol :: string
  rk_score :: rat
  rk_confidence :: rat
  rk_net_edge_bps :: rat
  rk_listed_age_hours :: rat
  rk_data_fresh :: bool
  rk_risk_blocked :: bool

definition rank_key :: "RankedCandidate \<Rightarrow> rat \<times> rat \<times> rat \<times> string" where
  "rank_key x = (- rk_score x, - rk_confidence x, - rk_net_edge_bps x, rk_symbol x)"

definition rank_with_quarantine :: "rat \<Rightarrow> int \<Rightarrow> RankedCandidate list \<Rightarrow> RankedCandidate list res" where
  "rank_with_quarantine min_listing_age_hours limit items =
     (if min_listing_age_hours < 0 \<or> limit \<le> 0 then Inl (ValueError ''invalid scanner ranking policy'')
      else Inr (take (nat limit) (sort_key rank_key
        (filter (\<lambda>x. rk_data_fresh x \<and> \<not> rk_risk_blocked x \<and> rk_net_edge_bps x > 0 \<and> rk_listed_age_hours x \<ge> min_listing_age_hours) items))))"

record CrossSectionalRankInput =
  ci_symbol :: string
  ci_calibrated_net_expectancy :: rat
  ci_signal_confidence :: rat
  ci_regime_alignment :: rat
  ci_liquidity_quality :: rat
  ci_expected_slippage_bps :: rat
  ci_risk_reward :: rat
  ci_volatility_suitability :: rat
  ci_strategy_health :: rat
  ci_diversification_benefit :: rat
  ci_data_quality :: rat
  ci_risk_budget :: rat
  ci_eligible :: bool
  ci_signal :: string
  ci_blocking_reasons :: "string list"

record CrossSectionalRankResult =
  cs_symbol :: string
  cs_rank :: nat
  cs_rank_score :: rat
  cs_eligible :: bool
  cs_signal :: string
  cs_net_expected_edge :: rat
  cs_risk_budget :: rat
  cs_blocking_reasons :: "string list"
  cs_correlation_penalty :: rat
  cs_liquidity_penalty :: rat
  cs_data_quality_score :: rat

definition unit_clamp :: "rat \<Rightarrow> rat" where
  "unit_clamp x = max 0 (min 1 x)"

definition corr_penalty :: "CrossSectionalRankInput \<Rightarrow> rat" where
  "corr_penalty x = max 0 (flt (1 - unit_clamp (ci_diversification_benefit x)))"

definition liq_penalty :: "CrossSectionalRankInput \<Rightarrow> rat" where
  "liq_penalty x = max 0 (flt (1 - unit_clamp (ci_liquidity_quality x)))"

text \<open>The sum of the formula, from left to right, rounded after each operation.\<close>

definition cross_score :: "CrossSectionalRankInput \<Rightarrow> rat" where
  "cross_score x =
     (let terms = [flt (flt (12 / 10) * unit_clamp (ci_signal_confidence x)), unit_clamp (ci_regime_alignment x), unit_clamp (ci_liquidity_quality x),
                   flt (flt (flt (8 / 10) * max 0 (ci_risk_reward x)) / 5), unit_clamp (ci_volatility_suitability x), unit_clamp (ci_strategy_health x),
                   unit_clamp (ci_diversification_benefit x), unit_clamp (ci_data_quality x), - corr_penalty x, - liq_penalty x,
                   - flt (max 0 (ci_expected_slippage_bps x) / 100)];
          score = fold (\<lambda>t a. flt (a + t)) terms (flt (flt (18 / 10) * ci_calibrated_net_expectancy x))
      in if \<not> ci_eligible x \<or> ci_blocking_reasons x \<noteq> [] then flt (score - 1000) else score)"

definition rank_cross_sectional :: "CrossSectionalRankInput list \<Rightarrow> CrossSectionalRankResult list" where
  "rank_cross_sectional items =
     (let staged = sort_key (\<lambda>x. (- cross_score x, ci_symbol x)) items
      in map (\<lambda>(i, x). \<lparr>cs_symbol = ci_symbol x, cs_rank = i + 1, cs_rank_score = cross_score x,
                cs_eligible = (ci_eligible x \<and> ci_blocking_reasons x = []), cs_signal = ci_signal x, cs_net_expected_edge = ci_calibrated_net_expectancy x,
                cs_risk_budget = ci_risk_budget x, cs_blocking_reasons = ci_blocking_reasons x, cs_correlation_penalty = corr_penalty x,
                cs_liquidity_penalty = liq_penalty x, cs_data_quality_score = unit_clamp (ci_data_quality x)\<rparr>) (enumerate 0 staged))"

section \<open>The scanner\<close>

record Candidate =
  cn_symbol :: string
  cn_score :: rat
  cn_confidence :: rat
  cn_net_edge_bps :: rat
  cn_risk_blocked :: bool

definition scan_rank :: "int \<Rightarrow> Candidate list \<Rightarrow> Candidate list" where
  "scan_rank limit items =
     take (nat limit) (sort_key (\<lambda>x. (- cn_score x, - cn_confidence x, - cn_net_edge_bps x, cn_symbol x))
       (filter (\<lambda>x. \<not> cn_risk_blocked x \<and> cn_net_edge_bps x > 0) items))"

definition scanner_signal :: "Candidate list \<Rightarrow> Signal \<times> Candidate option" where
  "scanner_signal items = (let ranked = scan_rank 10 items in if ranked = [] then (NO_TRADE, None) else (WATCH, Some (hd ranked)))"

definition trend_breadth :: "(string, string) dict \<Rightarrow> rat \<times> rat \<times> nat" where
  "trend_breadth states =
     (let n = (if length states = 0 then 1 else length states);
          pct = (\<lambda>v. flt (of_nat (length (filter (\<lambda>p. snd p = v) states)) / of_nat n))
      in (pct ''BULLISH_TREND'', pct ''BEARISH_TREND'', length states))"

record ScannerCycleTelemetry =
  sc_universe_size :: nat
  sc_eligible_size :: nat
  sc_candidates_total :: nat
  sc_refresh_failures :: nat
  sc_cycle_duration_seconds :: rat
  sc_snapshot_id :: string
  sc_completed_at :: rat
  sc_excluded_size :: nat
  sc_stale_symbols :: nat

record DynamicUniverseScanner =
  us_configured_max_symbols :: nat
  us_last_cycle :: "ScannerCycleTelemetry option"
  us_refresh_failures :: nat

definition new_scanner :: "int \<Rightarrow> DynamicUniverseScanner res" where
  "new_scanner configured_max_symbols =
     (if configured_max_symbols \<le> 0 then Inl (ValueError ''configured_max_symbols must be positive'')
      else Inr \<lparr>us_configured_max_symbols = nat configured_max_symbols, us_last_cycle = None, us_refresh_failures = 0\<rparr>)"

definition endswith :: "string \<Rightarrow> string \<Rightarrow> bool" where
  "endswith s q = startswith (rev s) (rev q)"

definition policy_ok :: "string set option \<Rightarrow> string set \<Rightarrow> string list \<Rightarrow> string \<Rightarrow> bool" where
  "policy_ok allow block quotes symbol \<longleftrightarrow>
     (case allow of None \<Rightarrow> True | Some a \<Rightarrow> symbol \<in> a) \<and> symbol \<notin> block \<and> list_ex (endswith symbol) quotes"

text \<open>The loop over the states; a state that raises when it is read is \<open>None\<close>. The counters are failures, excluded, stale.\<close>

fun scan_loop :: "(string \<Rightarrow> bool) \<Rightarrow> SymbolEligibility option list \<Rightarrow> string list \<times> nat \<times> nat \<times> nat \<Rightarrow> string list \<times> nat \<times> nat \<times> nat" where
  "scan_loop pol [] acc = acc"
| "scan_loop pol (None # states) (symbols, failures, excluded, stale) = scan_loop pol states (symbols, failures + 1, excluded, stale)"
| "scan_loop pol (Some x # states) (symbols, failures, excluded, stale) =
     (let symbol = upper (se_symbol x); stale1 = (if se_data_fresh x then stale else stale + 1) in
      if fst (default_eligibility x) \<and> pol symbol then scan_loop pol states (symbols @ [symbol], failures, excluded, stale1)
      else scan_loop pol states (symbols, failures, excluded + 1, stale1))"

definition discover ::
  "SymbolEligibility option list \<Rightarrow> string \<Rightarrow> rat \<Rightarrow> rat \<Rightarrow> string set option \<Rightarrow> string set option \<Rightarrow> string list \<Rightarrow> DynamicUniverseScanner \<Rightarrow>
   DynamicUniverseScanner \<times> (string list \<times> ScannerCycleTelemetry) res" where
  "discover states snapshot_id now started_at allowlist blocklist approved_quotes s =
     (if now < started_at then (s, Inl (ValueError ''monotonic clock moved backwards''))
      else let allow = (case allowlist of None \<Rightarrow> None | Some a \<Rightarrow> if a = {} then None else Some (upper ` a));
               block = (case blocklist of None \<Rightarrow> {} | Some b \<Rightarrow> upper ` b);
               (symbols, failures, excluded, stale) = scan_loop (policy_ok allow block (map upper approved_quotes)) states ([], 0, 0, 0);
               eligible_symbols = take (us_configured_max_symbols s) (sorted_set symbols);
               telemetry = \<lparr>sc_universe_size = length states, sc_eligible_size = length eligible_symbols, sc_candidates_total = length eligible_symbols,
                            sc_refresh_failures = failures, sc_cycle_duration_seconds = flt (now - started_at), sc_snapshot_id = snapshot_id,
                            sc_completed_at = now, sc_excluded_size = excluded, sc_stale_symbols = stale\<rparr>
           in (s\<lparr>us_last_cycle := Some telemetry, us_refresh_failures := us_refresh_failures s + failures\<rparr>, Inr (eligible_symbols, telemetry)))"

definition scanner_healthy :: "rat \<Rightarrow> rat \<Rightarrow> DynamicUniverseScanner \<Rightarrow> bool res" where
  "scanner_healthy now max_cycle_age_seconds s =
     (if max_cycle_age_seconds \<le> 0 then Inl (ValueError ''max_cycle_age_seconds must be positive'')
      else case us_last_cycle s of
             None \<Rightarrow> Inr False
           | Some c \<Rightarrow> if now < sc_completed_at c then Inr False
                      else Inr (sc_refresh_failures c = 0 \<and> flt (now - sc_completed_at c) \<le> max_cycle_age_seconds))"

section \<open>Routes\<close>

record RouteCandidate =
  rt_venue :: string
  rt_symbol :: string
  rt_quote :: string
  rt_market_type :: string
  rt_venue_healthy :: bool
  rt_quote_depeg_risk :: rat
  rt_spread_bps :: rat
  rt_fee_bps :: rat
  rt_slippage_bps :: rat
  rt_funding_or_basis_bps :: rat
  rt_account_capable :: bool
  rt_depth_score :: rat

record RouteDecision =
  rd_selected :: RouteCandidate
  rd_total_cost_bps :: rat
  rd_reasons :: "string list"

definition route_safe :: "string list \<Rightarrow> rat \<Rightarrow> string list \<Rightarrow> RouteCandidate \<Rightarrow> bool" where
  "route_safe approved_quotes max_depeg_risk allowed_market_types x \<longleftrightarrow>
     rt_venue_healthy x \<and> rt_account_capable x \<and> rt_quote x \<in> set approved_quotes \<and> rt_market_type x \<in> set allowed_market_types \<and>
     \<not> rt_quote_depeg_risk x > max_depeg_risk"

definition route_cost :: "RouteCandidate \<Rightarrow> rat" where
  "route_cost x = dec (dec (dec (rt_spread_bps x + rt_fee_bps x) + rt_slippage_bps x) + \<bar>dec (rt_funding_or_basis_bps x)\<bar>)"

definition route_key :: "RouteCandidate \<Rightarrow> rat \<times> rat \<times> string \<times> string" where
  "route_key x = (route_cost x, dec (- rt_depth_score x), rt_venue x, rt_symbol x)"

text \<open>\<open>min\<close> over the tuples: with equal keys the candidates themselves are compared, which raises unless they are equal.\<close>

fun min_route :: "RouteCandidate \<Rightarrow> RouteCandidate list \<Rightarrow> RouteCandidate res" where
  "min_route best [] = Inr best"
| "min_route best (x # xs) =
     (if route_key x < route_key best then min_route x xs
      else if route_key x = route_key best \<and> x \<noteq> best then Inl (TypeError ''not supported between instances of RouteCandidate'')
      else min_route best xs)"

definition choose_route :: "RouteCandidate list \<Rightarrow> string list \<Rightarrow> rat \<Rightarrow> string list \<Rightarrow> RouteDecision res" where
  "choose_route items approved_quotes max_depeg_risk allowed_market_types =
     (case filter (route_safe approved_quotes max_depeg_risk allowed_market_types) items of
        [] \<Rightarrow> Inl (RuntimeError ''no safe route'')
      | x # xs \<Rightarrow> bind_res (min_route x xs) (\<lambda>b.
          Inr \<lparr>rd_selected = b, rd_total_cost_bps = route_cost b,
             rd_reasons = [''VENUE_HEALTH_OK'', ''QUOTE_DEPEG_RISK_OK'', ''MARKET_TYPE_ALLOWED'', ''ACCOUNT_CAPABILITY_OK'', ''TOTAL_COST_MINIMIZED'']\<rparr>))"

section \<open>Asset events\<close>

definition MATERIAL_EVENTS :: "string list" where
  "MATERIAL_EVENTS = [''SCHEDULED_LISTING'', ''TRADING_ENABLED'', ''TRADING_DISABLED'', ''SUSPENSION'', ''DELISTING'', ''QUOTE_PAIR_REMOVAL'', ''TOKEN_RENAME'',
     ''REDENOMINATION'', ''CONTRACT_MIGRATION'', ''CHAIN_MIGRATION'', ''HARD_FORK'', ''TICKER_CHANGE'', ''MERGE_SPLIT_REBASE'']"

record AssetLifecycleEvent =
  le_asset_id :: string
  le_symbol :: string
  le_event_type :: string
  le_effective_at :: datetime
  le_source :: string
  le_details :: "(string, string) dict"

record LifecycleDecision =
  ld_mode :: string
  ld_warn_user :: bool
  ld_verify_venue_rules :: bool
  ld_reducing_only :: bool
  ld_allow_new_risk :: bool
  ld_automatic_transfer_withdrawal :: bool
  ld_reasons :: "string list"
  ld_mapping_version :: nat

record AssetLifecycleManager =
  lm_events :: "AssetLifecycleEvent list"
  lm_versions :: "(string, nat) dict"

definition severe_event :: "string \<Rightarrow> bool" where
  "severe_event t \<longleftrightarrow> t \<in> set [''TRADING_DISABLED'', ''SUSPENSION'', ''DELISTING'', ''QUOTE_PAIR_REMOVAL'', ''CONTRACT_MIGRATION'', ''CHAIN_MIGRATION'', ''MERGE_SPLIT_REBASE'']"

definition metadata_change :: "string \<Rightarrow> bool" where
  "metadata_change t \<longleftrightarrow> t \<in> set [''TOKEN_RENAME'', ''REDENOMINATION'', ''CONTRACT_MIGRATION'', ''CHAIN_MIGRATION'', ''TICKER_CHANGE'', ''MERGE_SPLIT_REBASE'']"

definition record_event :: "AssetLifecycleEvent \<Rightarrow> AssetLifecycleManager \<Rightarrow> AssetLifecycleManager \<times> LifecycleDecision res" where
  "record_event e m =
     (if le_event_type e \<notin> set MATERIAL_EVENTS then (m, Inl (ValueError ''unsupported lifecycle event''))
      else if \<not> is_aware (le_effective_at e) then (m, Inl (ValueError ''effective_at must be timezone-aware''))
      else if le_source e = [] then (m, Inl (ValueError ''source required''))
      else let v = get_or (lm_versions m) (le_asset_id e) 0 + 1; t = le_event_type e; severe = severe_event t
           in (m\<lparr>lm_events := lm_events m @ [e], lm_versions := dset (le_asset_id e) v (lm_versions m)\<rparr>,
               Inr \<lparr>ld_mode = (if severe then ''EXIT_OR_REDUCING_ONLY'' else ''REVALIDATE_BEFORE_NEW_RISK''), ld_warn_user = True, ld_verify_venue_rules = True,
                    ld_reducing_only = severe, ld_allow_new_risk = (\<not> severe \<and> t \<noteq> ''SCHEDULED_LISTING''), ld_automatic_transfer_withdrawal = False,
                    ld_reasons = t # flag (metadata_change t) ''VERSIONED_MAPPING_CHANGE'', ld_mapping_version = v\<rparr>))"

definition event_history :: "string \<Rightarrow> AssetLifecycleManager \<Rightarrow> AssetLifecycleEvent list" where
  "event_history asset_id m = filter (\<lambda>e. le_asset_id e = asset_id) (lm_events m)"

section \<open>Universe snapshots\<close>

record UniverseMemberRecord =
  mr_exchange :: string
  mr_market_type :: string
  mr_symbol :: string
  mr_base_asset :: string
  mr_first_seen_at :: datetime
  mr_observed_at :: datetime
  mr_available_at :: datetime
  mr_listing_open_time :: "datetime option"
  mr_inclusion_reason :: "string option"
  mr_exclusion_reason :: "string option"

definition new_member_record :: "UniverseMemberRecord \<Rightarrow> UniverseMemberRecord res" where
  "new_member_record r =
     (if mr_exchange r = [] \<or> mr_market_type r = [] \<or> mr_symbol r = [] \<or> mr_base_asset r = [] then Inl (ValueError ''required'')
      else if \<not> (is_aware (mr_first_seen_at r) \<and> is_aware (mr_observed_at r) \<and> is_aware (mr_available_at r) \<and>
                 (case mr_listing_open_time r of None \<Rightarrow> True | Some t \<Rightarrow> is_aware t)) then Inl (ValueError ''timezone-aware timestamps required'')
      else if micros (mr_available_at r) < micros (mr_observed_at r) then Inl (ValueError ''available_at before observed_at'')
      else if given (mr_inclusion_reason r) = given (mr_exclusion_reason r) then Inl (ValueError ''exactly one inclusion/exclusion reason required'')
      else Inr r)"

record UniverseSnapshotRecord =
  ur_snapshot_id :: string
  ur_mode :: string
  ur_as_of :: datetime
  ur_members :: "UniverseMemberRecord list"

type_synonym PointInTimeUniverseRegistry = "(string, UniverseSnapshotRecord) dict"

definition create_snapshot ::
  "string \<Rightarrow> string \<Rightarrow> datetime \<Rightarrow> UniverseMemberRecord list \<Rightarrow> PointInTimeUniverseRegistry \<Rightarrow> PointInTimeUniverseRegistry \<times> UniverseSnapshotRecord res" where
  "create_snapshot snapshot_id mode as_of records snaps =
     (if mode \<notin> {''DYNAMIC_EXCHANGE_UNIVERSE'', ''RESEARCH_SNAPSHOT''} then (snaps, Inl (ValueError ''unsupported universe mode''))
      else if \<not> is_aware as_of then (snaps, Inl (ValueError ''as_of timezone required''))
      else if dget snaps snapshot_id \<noteq> None then (snaps, Inl (ValueError ''snapshot immutable''))
      else if list_ex (\<lambda>r. micros (mr_available_at r) > micros as_of) records
      then (snaps, Inl (ValueError ''future membership evidence unavailable as-of''))
      else let s = \<lparr>ur_snapshot_id = snapshot_id, ur_mode = mode, ur_as_of = as_of, ur_members = records\<rparr> in (dset snapshot_id s snaps, Inr s))"

definition eligible_symbols :: "string \<Rightarrow> PointInTimeUniverseRegistry \<Rightarrow> string list res" where
  "eligible_symbols snapshot_id snaps =
     (case dget snaps snapshot_id of
        None \<Rightarrow> Inl (KeyError snapshot_id)
      | Some s \<Rightarrow> Inr (sort (map mr_symbol (filter (\<lambda>r. given (mr_inclusion_reason r)) (ur_members s)))))"

section \<open>Asset risk and breadth\<close>

record AssetRiskDecision =
  rx_risk_class :: string
  rx_max_position_multiplier :: rat
  rx_min_edge_multiplier :: rat
  rx_max_slippage_multiplier :: rat
  rx_stricter_liquidity_filter :: bool
  rx_manual_confirmation :: bool
  rx_paper_only :: bool
  rx_no_trade :: bool
  rx_reasons :: "string list"

definition risk_class_of :: "int \<Rightarrow> rat \<Rightarrow> rat \<Rightarrow> bool \<Rightarrow> bool \<Rightarrow> bool \<Rightarrow> string \<times> string list" where
  "risk_class_of listing_age_days volatility_ratio liquidity_score quote_risky venue_healthy restricted =
     (if restricted then (''RESTRICTED'', [''RESTRICTED_ASSET''])
      else if \<not> venue_healthy then (''VENUE_RISK'', [''VENUE_UNHEALTHY''])
      else if quote_risky then (''QUOTE_RISK'', [''QUOTE_ASSET_RISK''])
      else if listing_age_days < 30 then (''NEW_LISTING'', [''NEW_LISTING_QUARANTINE''])
      else if volatility_ratio \<ge> 2 then (''ELEVATED_VOLATILITY'', [''ELEVATED_VOLATILITY''])
      else if liquidity_score < 35 / 100 then (''THIN_LIQUIDITY'', [''THIN_LIQUIDITY''])
      else (''NORMAL'', []))"

definition classify_asset_risk :: "int \<Rightarrow> rat \<Rightarrow> rat \<Rightarrow> bool \<Rightarrow> bool \<Rightarrow> bool \<Rightarrow> AssetRiskDecision" where
  "classify_asset_risk listing_age_days volatility_ratio liquidity_score quote_risky venue_healthy restricted =
     (let (cls, reasons) = risk_class_of listing_age_days volatility_ratio liquidity_score quote_risky venue_healthy restricted;
          no_trade = (cls \<in> set [''RESTRICTED'', ''VENUE_RISK'']); normal = (cls = ''NORMAL'')
      in \<lparr>rx_risk_class = cls, rx_max_position_multiplier = (if no_trade then 0 else if \<not> normal then 1 / 4 else 1),
          rx_min_edge_multiplier = (if \<not> normal then 2 else 1), rx_max_slippage_multiplier = (if \<not> normal then 1 / 2 else 1),
          rx_stricter_liquidity_filter = (\<not> normal), rx_manual_confirmation = (cls \<in> set [''NEW_LISTING'', ''QUOTE_RISK'', ''THIN_LIQUIDITY'']),
          rx_paper_only = (cls \<in> set [''NEW_LISTING'', ''QUOTE_RISK'']), rx_no_trade = no_trade, rx_reasons = reasons\<rparr>)"

record breadth_row =
  br_symbol :: string
  br_return :: rat
  br_realized_volatility :: rat
  br_momentum :: "rat option"
  br_above_ma :: bool

record BreadthSnapshot =
  bs_advancers_ratio :: rat
  bs_median_return :: rat
  bs_median_realized_volatility :: rat
  bs_percent_above_ma :: rat
  bs_btc_leadership :: "rat option"
  bs_eth_leadership :: "rat option"
  bs_altcoin_breadth :: rat
  bs_dispersion :: rat
  bs_cross_sectional_momentum_dispersion :: rat
  bs_universe_version :: string

definition med :: "rat list \<Rightarrow> rat" where
  "med xs =
     (let s = sort xs; n = length xs; k = n div 2
      in if n mod 2 = 1 then s ! k else dec (dec (s ! (k - 1) + s ! k) / 2))"

definition share :: "('a \<Rightarrow> bool) \<Rightarrow> 'a list \<Rightarrow> rat" where
  "share p xs = dec (of_nat (length (filter p xs)) / of_nat (length xs))"

definition market_breadth :: "breadth_row list \<Rightarrow> string \<Rightarrow> BreadthSnapshot res" where
  "market_breadth rows universe_version =
     (if universe_version = [] then Inl (ValueError ''point-in-time universe version required'')
      else if rows = [] then Inl (ValueError ''eligible universe rows required'')
      else let returns = map br_return rows; momenta = map (\<lambda>r. case br_momentum r of None \<Rightarrow> br_return r | Some m \<Rightarrow> m) rows;
               mret = med returns; mmom = med momenta;
               by_symbol = fold (\<lambda>r d. dset (upper (br_symbol r)) (br_return r) d) rows [];
               alts = filter (\<lambda>r. upper (br_symbol r) \<notin> set [''BTCUSDT'', ''ETHUSDT'']) rows
           in Inr \<lparr>bs_advancers_ratio = share (\<lambda>x. x > 0) returns, bs_median_return = mret, bs_median_realized_volatility = med (map br_realized_volatility rows),
                bs_percent_above_ma = share br_above_ma rows, bs_btc_leadership = dget by_symbol ''BTCUSDT'', bs_eth_leadership = dget by_symbol ''ETHUSDT'',
                bs_altcoin_breadth = (if alts = [] then 0 else share (\<lambda>r. br_return r > 0) alts), bs_dispersion = med (map (\<lambda>x. \<bar>dec (x - mret)\<bar>) returns),
                bs_cross_sectional_momentum_dispersion = med (map (\<lambda>x. \<bar>dec (x - mmom)\<bar>) momenta), bs_universe_version = universe_version\<rparr>)"

section \<open>Execution quality\<close>

record ExecutionObservation =
  eo_side :: string
  eo_reference_price :: rat
  eo_quoted_bid :: rat
  eo_quoted_ask :: rat
  eo_expected_price :: rat
  eo_fill_price :: "rat option"
  eo_quantity :: rat
  eo_requested_quantity :: rat
  eo_ack_ms :: rat
  eo_fill_ms :: "rat option"
  eo_cancelled :: bool
  eo_rejected :: bool
  eo_maker :: bool
  eo_post_fill_mark :: "rat option"

record ExecutionQuality =
  xq_quoted_spread_bps :: rat
  xq_effective_spread_bps :: rat
  xq_realized_slippage_bps :: rat
  xq_expected_slippage_bps :: rat
  xq_fill_ratio :: rat
  xq_partial_fill_ratio :: rat
  xq_cancel_ratio :: rat
  xq_reject_ratio :: rat
  xq_avg_ack_ms :: rat
  xq_avg_fill_ms :: rat
  xq_market_impact_bps :: rat
  xq_adverse_selection_bps :: rat
  xq_maker_ratio :: rat

definition signed_cost_bps :: "string \<Rightarrow> rat \<Rightarrow> rat \<Rightarrow> rat res" where
  "signed_cost_bps side px ref =
     (let sign = (if upper side = ''BUY'' then 1 else -1)
      in bind_res (ddiv (dec (sign * dec (px - ref))) ref) (\<lambda>q. Inr (flt (dec (q * 10000)))))"

definition fmean :: "rat list \<Rightarrow> rat" where
  "fmean xs = flt (sum_list xs / of_nat (length xs))"

definition fmean_or_zero :: "rat list \<Rightarrow> rat" where
  "fmean_or_zero xs = (if xs = [] then 0 else fmean xs)"

text \<open>One observation contributes to each list; the fill-dependent contributions are options.\<close>

record observed =
  ob_spread :: rat
  ob_ratio :: rat
  ob_partial :: rat
  ob_expected :: rat
  ob_eff :: "rat option"
  ob_impact :: "rat option"
  ob_slip :: "rat option"
  ob_adverse :: "rat option"

definition observe_fill :: "ExecutionObservation \<Rightarrow> (rat option \<times> rat option \<times> rat option \<times> rat option) res" where
  "observe_fill r =
     (case eo_fill_price r of
        None \<Rightarrow> Inr (None, None, None, None)
      | Some px \<Rightarrow>
        bind_res (signed_cost_bps (eo_side r) px (eo_reference_price r)) (\<lambda>c.
        bind_res (signed_cost_bps (eo_side r) px (eo_expected_price r)) (\<lambda>sl.
        case eo_post_fill_mark r of
          None \<Rightarrow> Inr (Some (flt (c * 2)), Some c, Some sl, None)
        | Some mk \<Rightarrow> bind_res (signed_cost_bps (eo_side r) mk px) (\<lambda>a. Inr (Some (flt (c * 2)), Some c, Some sl, Some (- a))))))"

definition observe_row :: "ExecutionObservation \<Rightarrow> observed res" where
  "observe_row r =
     (let ref = eo_reference_price r in
      if ref \<le> 0 \<or> eo_requested_quantity r \<le> 0 then Inl (ValueError ''invalid execution observation'')
      else bind_res (signed_cost_bps (eo_side r) (eo_expected_price r) ref) (\<lambda>expected.
           bind_res (observe_fill r) (\<lambda>(eff, impact, slip, adverse).
             Inr \<lparr>ob_spread = flt (dec (dec (dec (eo_quoted_ask r - eo_quoted_bid r) / ref) * 10000)),
                  ob_ratio = flt (max 0 (min 1 (dec (eo_quantity r / eo_requested_quantity r)))),
                  ob_partial = (if 0 < eo_quantity r \<and> eo_quantity r < eo_requested_quantity r then 1 else 0),
                  ob_expected = expected, ob_eff = eff, ob_impact = impact, ob_slip = slip, ob_adverse = adverse\<rparr>)))"

definition count_ratio :: "(ExecutionObservation \<Rightarrow> bool) \<Rightarrow> ExecutionObservation list \<Rightarrow> rat" where
  "count_ratio p rows = flt (of_nat (length (filter p rows)) / of_nat (length rows))"

definition summarize_execution_quality :: "ExecutionObservation list \<Rightarrow> ExecutionQuality res" where
  "summarize_execution_quality rows =
     (if rows = [] then Inl (ValueError ''execution observations required'')
      else bind_res (map_res observe_row rows) (\<lambda>obs.
        Inr \<lparr>xq_quoted_spread_bps = fmean (map ob_spread obs), xq_effective_spread_bps = fmean_or_zero (List.map_filter ob_eff obs),
           xq_realized_slippage_bps = fmean_or_zero (List.map_filter ob_slip obs), xq_expected_slippage_bps = fmean (map ob_expected obs),
           xq_fill_ratio = fmean (map ob_ratio obs), xq_partial_fill_ratio = fmean (map ob_partial obs), xq_cancel_ratio = count_ratio eo_cancelled rows,
           xq_reject_ratio = count_ratio eo_rejected rows, xq_avg_ack_ms = fmean (map eo_ack_ms rows), xq_avg_fill_ms = fmean_or_zero (List.map_filter eo_fill_ms rows),
           xq_market_impact_bps = fmean_or_zero (List.map_filter ob_impact obs), xq_adverse_selection_bps = fmean_or_zero (List.map_filter ob_adverse obs),
           xq_maker_ratio = count_ratio eo_maker rows\<rparr>))"

definition quality_penalties :: "ExecutionQuality \<Rightarrow> rat \<Rightarrow> rat list" where
  "quality_penalties q available_liquidity_ratio =
     [min 20 (flt (max 0 (xq_quoted_spread_bps q) * flt (40 / 100))), min 15 (flt (\<bar>xq_realized_slippage_bps q\<bar> * (1 / 2))),
      min 10 (flt (\<bar>xq_expected_slippage_bps q\<bar> * (1 / 4))), min 10 (flt (max 0 (xq_market_impact_bps q) * (1 / 4))),
      min 10 (flt (max 0 (xq_adverse_selection_bps q) * (1 / 4))), flt (15 * max 0 (flt (1 - xq_fill_ratio q))), flt (5 * max 0 (xq_partial_fill_ratio q)),
      flt (15 / 2 * max 0 (xq_cancel_ratio q)), flt (25 / 2 * max 0 (xq_reject_ratio q)), min 5 (flt (max 0 (flt (xq_avg_ack_ms q - 250)) / 250)),
      min 5 (flt (max 0 (flt (xq_avg_fill_ms q - 1000)) / 1000)), flt (10 * flt (1 - available_liquidity_ratio))]"

definition execution_quality_score :: "ExecutionQuality \<Rightarrow> rat \<Rightarrow> rat res" where
  "execution_quality_score q available_liquidity_ratio =
     (if \<not> (0 \<le> available_liquidity_ratio \<and> available_liquidity_ratio \<le> 1) then Inl (ValueError ''available_liquidity_ratio must be in [0,1]'')
      else Inr (max 0 (min 100 (flt (100 - fold (\<lambda>x a. flt (a + x)) (quality_penalties q available_liquidity_ratio) 0)))))"

section \<open>Execution policy and capabilities\<close>

record ExecutionContext =
  xc_urgency :: rat
  xc_alpha_half_life_seconds :: rat
  xc_spread_bps :: rat
  xc_depth_score :: rat
  xc_expected_slippage_bps :: rat
  xc_adverse_selection :: rat
  xc_maker_taker_fee_diff_bps :: rat
  xc_fill_probability :: rat
  xc_time_to_fill_seconds :: rat
  xc_rejection_risk :: rat
  xc_volatility :: rat
  xc_notional :: rat

definition choose_policy :: "ExecutionContext \<Rightarrow> rat \<Rightarrow> string" where
  "choose_policy x slice_threshold =
     (if xc_rejection_risk x > 1 / 2 \<or> xc_depth_score x < flt (1 / 10) then ''NO_TRADE''
      else if xc_urgency x > flt (8 / 10) \<or> xc_alpha_half_life_seconds x < max 1 (xc_time_to_fill_seconds x) then ''AGGRESSIVE_LIMIT''
      else if xc_fill_probability x > 3 / 4 \<and> xc_maker_taker_fee_diff_bps x > 0 \<and> xc_adverse_selection x < flt (4 / 10) then ''PASSIVE_POST_ONLY''
      else if xc_urgency x > flt (6 / 10) then ''IOC''
      else if xc_notional x > slice_threshold then ''SLICED_LIMIT'' else ''LIMIT'')"

record ProtectiveOrderSpec =
  ps_trigger_source :: string
  ps_trigger_direction :: string
  ps_reduce_only :: bool
  ps_close_position :: bool
  ps_working_type :: "string option"
  ps_quantity :: rat
  ps_protected_position_quantity :: rat

definition new_protective_spec :: "ProtectiveOrderSpec \<Rightarrow> ProtectiveOrderSpec res" where
  "new_protective_spec p =
     (if ps_trigger_source p \<notin> set [''LAST'', ''MARK'', ''INDEX'', ''BID'', ''ASK'', ''MID''] then Inl (ValueError ''invalid trigger source'')
      else if ps_trigger_direction p \<notin> set [''ABOVE'', ''BELOW''] then Inl (ValueError ''invalid trigger direction'')
      else if \<not> ps_reduce_only p then Inl (ValueError ''protective order must be reduce-only'')
      else if ps_quantity p \<le> 0 \<or> ps_protected_position_quantity p \<le> 0 \<or> ps_quantity p > ps_protected_position_quantity p
      then Inl (ValueError ''invalid protective quantity'')
      else Inr p)"

text \<open>A rate limit is a dictionary with an optional \<open>limit\<close>.\<close>

record SymbolCapabilityProfile =
  sy_symbol :: string
  sy_order_types :: "string list"
  sy_oco_or_order_list :: bool
  sy_order_book_depth_supported :: bool
  sy_cancel_replace_supported :: bool
  sy_precision_mode :: string
  sy_min_price :: rat
  sy_max_price :: "rat option"
  sy_min_qty :: rat
  sy_max_qty :: rat
  sy_min_notional :: rat
  sy_max_notional :: "rat option"
  sy_max_open_orders :: "int option"
  sy_rate_limits :: "int option list"

definition assert_pretrade_supported :: "SymbolCapabilityProfile \<Rightarrow> unit res" where
  "assert_pretrade_supported p =
     (if strip (sy_symbol p) = [] then Inl (RuntimeError ''symbol required'')
      else if sy_precision_mode p \<noteq> ''TICK_STEP_FILTERS'' then Inl (RuntimeError ''unsupported precision mode'')
      else if sy_order_types p = [] then Inl (RuntimeError ''no supported order types'')
      else if sy_min_price p \<le> 0 \<or> sy_min_qty p \<le> 0 then Inl (RuntimeError ''invalid exchange filters'')
      else if (case sy_max_price p of None \<Rightarrow> False | Some x \<Rightarrow> x < sy_min_price p) then Inl (RuntimeError ''max price below min price'')
      else if sy_max_qty p < sy_min_qty p then Inl (RuntimeError ''max quantity below min quantity'')
      else if sy_min_notional p < 0 then Inl (RuntimeError ''negative min notional'')
      else if (case sy_max_notional p of None \<Rightarrow> False | Some x \<Rightarrow> x < sy_min_notional p) then Inl (RuntimeError ''max notional below min notional'')
      else if (case sy_max_open_orders p of None \<Rightarrow> False | Some n \<Rightarrow> n \<le> 0) then Inl (RuntimeError ''invalid max open orders'')
      else if list_ex (\<lambda>l. case l of None \<Rightarrow> False | Some n \<Rightarrow> n \<le> 0) (sy_rate_limits p) then Inl (RuntimeError ''invalid exchange rate limit'')
      else Inr ())"

section \<open>Properties\<close>

lemma min_route_min:
  assumes "min_route best xs = Inr b"
  shows "b \<in> insert best (set xs) \<and> (\<forall>y \<in> insert best (set xs). route_key b \<le> route_key y)"
  using assms
proof (induction best xs rule: min_route.induct)
  case (2 best x xs)
  show ?case
  proof (cases "route_key x < route_key best")
    case True
    with 2 have "b \<in> insert x (set xs)" "\<forall>y \<in> insert x (set xs). route_key b \<le> route_key y" by simp_all
    with True show ?thesis by (auto intro: order_trans less_imp_le)
  next
    case False
    then have "min_route best xs = Inr b" "\<not> (route_key x = route_key best \<and> x \<noteq> best)" using "2.prems" by (simp_all split: if_splits)
    with 2(2) False have "b \<in> insert best (set xs)" "\<forall>y \<in> insert best (set xs). route_key b \<le> route_key y" by simp_all
    moreover have "route_key best \<le> route_key x" using False by simp
    ultimately show ?thesis by (auto intro: order_trans)
  qed
qed simp

text \<open>A chosen route is one of the offered ones, passes every safety condition, and no safe route costs less; at equal cost none has more depth.
\<close>

theorem route_is_cheapest_safe:
  assumes "choose_route items quotes depeg types = Inr d"
  shows "rd_selected d \<in> set items \<and> route_safe quotes depeg types (rd_selected d) \<and> rd_total_cost_bps d = route_cost (rd_selected d) \<and>
    (\<forall>y \<in> set items. route_safe quotes depeg types y \<longrightarrow> route_cost (rd_selected d) \<le> route_cost y \<and>
       (route_cost y = route_cost (rd_selected d) \<longrightarrow> dec (rt_depth_score y) \<le> dec (rt_depth_score (rd_selected d))))"
proof -
  let ?safe = "filter (route_safe quotes depeg types) items"
  obtain x xs b where x: "?safe = x # xs" "min_route x xs = Inr b" "rd_selected d = b" "rd_total_cost_bps d = route_cost b"
    using assms by (auto simp: choose_route_def bind_res_Inr split: list.splits)
  have b: "b \<in> set ?safe" "\<forall>y \<in> set ?safe. route_key b \<le> route_key y" using min_route_min [OF x(2)] by (simp_all add: x(1))
  have "route_cost b \<le> route_cost y \<and> (route_cost y = route_cost b \<longrightarrow> dec (rt_depth_score y) \<le> dec (rt_depth_score b))"
    if "y \<in> set items" "route_safe quotes depeg types y" for y
    using b(2) that by (auto simp: route_key_def less_eq_prod_def dec.rnd_minus)
  with b(1) x(3,4) show ?thesis by auto
qed

definition example_route :: "string \<Rightarrow> rat \<Rightarrow> bool \<Rightarrow> RouteCandidate" where
  "example_route venue fee healthy = \<lparr>rt_venue = venue, rt_symbol = ''BTCUSDT'', rt_quote = ''USDT'', rt_market_type = ''SPOT'', rt_venue_healthy = healthy,
     rt_quote_depeg_risk = 0, rt_spread_bps = 1, rt_fee_bps = fee, rt_slippage_bps = 0, rt_funding_or_basis_bps = 0, rt_account_capable = True, rt_depth_score = 1\<rparr>"

theorem route_is_cheapest_safe_witness:
  "\<exists>d. choose_route [example_route ''a'' 1 False, example_route ''b'' 9 True, example_route ''c'' 4 True] [''USDT''] 0 [''SPOT''] = Inr d \<and>
     route_cost (rd_selected d) \<le> route_cost (example_route ''b'' 9 True)"
proof -
  have r: "dec 2 = 2" "dec 10 = 10" "dec 5 = 5" using dec.rnd_of_int [of 2] dec.rnd_of_int [of 10] dec.rnd_of_int [of 5] by simp_all
  then have c: "route_cost (example_route ''b'' 9 True) = 10" "route_cost (example_route ''c'' 4 True) = 5"
    by (simp_all add: route_cost_def example_route_def)
  then have "\<exists>d. choose_route [example_route ''a'' 1 False, example_route ''b'' 9 True, example_route ''c'' 4 True] [''USDT''] 0 [''SPOT''] = Inr d"
    by (simp add: choose_route_def route_safe_def example_route_def route_key_def less_prod_def)
  then obtain d where d: "choose_route [example_route ''a'' 1 False, example_route ''b'' 9 True, example_route ''c'' 4 True] [''USDT''] 0 [''SPOT''] = Inr d" by blast
  moreover have "route_safe [''USDT''] 0 [''SPOT''] (example_route ''b'' 9 True)" by (simp add: route_safe_def example_route_def)
  ultimately show ?thesis using route_is_cheapest_safe [OF d] by auto
qed

definition tradable_state :: "(string \<Rightarrow> bool) \<Rightarrow> SymbolEligibility option \<Rightarrow> bool" where
  "tradable_state pol st \<longleftrightarrow> (\<exists>x. st = Some x \<and> fst (default_eligibility x) \<and> pol (upper (se_symbol x)))"

lemma tradable_state_simps [simp]:
  "\<not> tradable_state pol None" "tradable_state pol (Some x) \<longleftrightarrow> fst (default_eligibility x) \<and> pol (upper (se_symbol x))"
  by (simp_all add: tradable_state_def)

lemma scan_loop_result:
  "scan_loop pol states (symbols, failures, excluded, stale) = (syms, f, e, st) \<Longrightarrow>
   syms = symbols @ map (\<lambda>x. upper (se_symbol (the x))) (filter (tradable_state pol) states) \<and>
   f = failures + length (filter (\<lambda>x. x = None) states) \<and>
   e + f + length syms = excluded + failures + length symbols + length states"
proof (induction pol states "(symbols, failures, excluded, stale)" arbitrary: symbols failures excluded stale rule: scan_loop.induct)
  case (3 pol x states symbols failures excluded stale)
  show ?case
  proof (cases "fst (default_eligibility x) \<and> pol (upper (se_symbol x))")
    case True
    with 3(1) [OF refl refl True] 3(3) show ?thesis by (auto simp: Let_def)
  next
    case False
    with 3(2) [OF refl refl False] 3(3) show ?thesis by (auto simp: Let_def)
  qed
qed auto

text \<open>The symbols that may be traded, from the specification's side.\<close>

definition scan_policy :: "string set option \<Rightarrow> string set option \<Rightarrow> string list \<Rightarrow> string \<Rightarrow> bool" where
  "scan_policy allowlist blocklist quotes =
     policy_ok (case allowlist of None \<Rightarrow> None | Some a \<Rightarrow> if a = {} then None else Some (upper ` a)) (case blocklist of None \<Rightarrow> {} | Some b \<Rightarrow> upper ` b) (map upper quotes)"

text \<open>A scan accounts for every symbol. The symbols it returns are distinct, in order and at most as many as configured; each belongs to an eligible state that the allow and block
  lists and the approved quotes admit; unless the limit cuts, every such symbol is returned; and failures, exclusions and admitted states add up to the universe. An invalid state makes the
  scanner unhealthy.
\<close>

theorem scan_accounts_for_every_symbol:
  assumes "discover states sid now started allowlist blocklist quotes s = (s', Inr (syms, tel))"
  shows "distinct syms \<and> sorted syms \<and> length syms \<le> us_configured_max_symbols s \<and>
    set syms \<subseteq> {upper (se_symbol x) | x. Some x \<in> set states \<and> fst (default_eligibility x) \<and> scan_policy allowlist blocklist quotes (upper (se_symbol x))} \<and>
    (length syms < us_configured_max_symbols s \<longrightarrow>
      set syms = {upper (se_symbol x) | x. Some x \<in> set states \<and> fst (default_eligibility x) \<and> scan_policy allowlist blocklist quotes (upper (se_symbol x))}) \<and>
    sc_excluded_size tel + sc_refresh_failures tel + length (filter (tradable_state (scan_policy allowlist blocklist quotes)) states) = sc_universe_size tel \<and>
    (None \<in> set states \<longrightarrow> (\<forall>t age. 0 < age \<longrightarrow> scanner_healthy t age s' = Inr False))"
proof -
  let ?pol = "scan_policy allowlist blocklist quotes"
  let ?good = "{upper (se_symbol x) | x. Some x \<in> set states \<and> fst (default_eligibility x) \<and> ?pol (upper (se_symbol x))}"
  obtain symbols f e st where loop: "scan_loop ?pol states ([], 0, 0, 0) = (symbols, f, e, st)" by (metis prod.exhaust)
  have res: "syms = take (us_configured_max_symbols s) (sorted_set symbols)" "sc_excluded_size tel = e" "sc_refresh_failures tel = f"
    "sc_universe_size tel = length states" "us_last_cycle s' = Some tel"
    using assms loop by (auto simp: discover_def scan_policy_def Let_def split: if_splits prod.splits)
  note r = scan_loop_result [OF loop]
  have good: "set symbols = ?good" using r by (auto simp: tradable_state_def image_iff) force+
  have "set syms \<subseteq> set symbols" unfolding res(1) by (metis set_take_subset sorted_set_simps(1))
  moreover have "set syms = set symbols" if "length syms < us_configured_max_symbols s"
    using that unfolding res(1) by (simp add: take_all_iff)
  moreover have "scanner_healthy t age s' = Inr False" if "None \<in> set states" "0 < age" for t age
  proof -
    have "sc_refresh_failures tel \<noteq> 0" using that(1) r res(3) by (auto simp: filter_empty_conv)
    with that(2) res(5) show ?thesis by (simp add: scanner_healthy_def)
  qed
  moreover have "e + f + length (filter (tradable_state ?pol) states) = length states" using r by auto
  moreover have "distinct syms" "sorted syms" "length syms \<le> us_configured_max_symbols s" unfolding res(1) by (simp_all add: sorted_wrt_take)
  ultimately show ?thesis using good res(2-4) by simp
qed

definition example_state :: "string \<Rightarrow> SymbolEligibility" where
  "example_state sy = \<lparr>se_symbol = sy, se_listing_age_days = 100, se_quote_volume_24h = 9000000, se_spread_bps = 2, se_depth_notional = 500000, se_history_bars = 900,
     se_data_fresh = True, se_active = True, se_suspended = False\<rparr>"

definition example_scanner :: DynamicUniverseScanner where
  "example_scanner = \<lparr>us_configured_max_symbols = 5, us_last_cycle = None, us_refresh_failures = 0\<rparr>"

theorem scan_accounts_for_every_symbol_witness:
  "\<exists>s' syms tel. discover [Some (example_state ''ethusdt''), None] ''id'' 2 1 None None [''USDT''] example_scanner = (s', Inr (syms, tel)) \<and>
     scanner_healthy 3 10 s' = Inr False"
proof -
  obtain s' r where d: "discover [Some (example_state ''ethusdt''), None] ''id'' 2 1 None None [''USDT''] example_scanner = (s', r)" by fastforce
  then obtain syms tel where r: "r = Inr (syms, tel)" by (auto simp: discover_def Let_def split: prod.splits)
  show ?thesis using scan_accounts_for_every_symbol [OF d [unfolded r]] d r by auto
qed

text \<open>The mapping version of an asset counts its recorded events, and a severe event never leaves new risk allowed.\<close>

definition versions_ok :: "AssetLifecycleManager \<Rightarrow> bool" where
  "versions_ok m \<longleftrightarrow> (\<forall>i. get_or (lm_versions m) i 0 = length (event_history i m))"

lemma record_event_ok: "versions_ok m \<Longrightarrow> versions_ok (fst (record_event e m))"
  by (auto simp: versions_ok_def record_event_def event_history_def Let_def get_or_def)

interpretation lifecycle: preserved "\<lambda>e m. fst (record_event e m)" versions_ok
  by unfold_locales (rule record_event_ok)

lemma lifecycle_decision:
  assumes "versions_ok m" "record_event e m = (m', Inr d)"
  shows "ld_mapping_version d = length (event_history (le_asset_id e) m')" "severe_event (le_event_type e) \<Longrightarrow> ld_reducing_only d \<and> \<not> ld_allow_new_risk d"
    "\<not> ld_automatic_transfer_withdrawal d"
  using assms by (auto simp: versions_ok_def record_event_def event_history_def Let_def get_or_def split: if_splits)

text \<open>A snapshot, once created, never changes, and holds no evidence from after its time.\<close>

lemma create_snapshot_keeps: "create_snapshot i mode t rs snaps = (snaps', r) \<Longrightarrow> dget snaps k = Some s \<Longrightarrow> dget snaps' k = Some s"
  by (auto simp: create_snapshot_def Let_def split: if_splits)

interpretation snapshots: preserved "\<lambda>(i, mode, t, rs) snaps. fst (create_snapshot i mode t rs snaps)" "\<lambda>snaps. dget snaps k = Some s" for k s
  using create_snapshot_keeps by unfold_locales (auto split: prod.splits, metis prod.collapse)

end
