(* ===== verification/Access_Control.thy ===== *)
theory Access_Control
  imports Prelude "HOL-Library.Word"
begin

unbundle bit_operations_syntax

text \<open>
  Who may act: accounts, sessions, multi-factor codes and password resets
  (\<open>backend/app/auth/db_service.py\<close>, \<open>auth/mfa.py\<close>, \<open>auth/service.py\<close>, \<open>auth/password_policy.py\<close>),
  role-aware recovery grants (\<open>auth/recovery_policy.py\<close>), confirmations (\<open>core/security.py\<close>) and the inbound command policy
  (\<open>monitoring/telegram_security.py\<close>). Hashes, the password hasher, encryption and randomness are arguments;
  tables are dictionaries on their primary key, with their unique columns checked on insertion. Times of the database are
  instants in microseconds.
\<close>

section \<open>Parameters: hashing, encryption, randomness\<close>

text \<open>
  \<open>cx_sha\<close> is the hexadecimal SHA-256, \<open>cx_hash salt\<close>, \<open>cx_verify\<close> and \<open>cx_needs_rehash\<close> are the password hasher (an
  exception counts as a failed verification, and as a hash to be upgraded), \<open>cx_encrypt nonce\<close> and \<open>cx_decrypt\<close> the secret box,
  \<open>cx_b32decode\<close> and \<open>cx_hmac_sha1\<close> the primitives of the one-time passwords.
\<close>

record Crypto =
  cx_sha :: "string \<Rightarrow> string"
  cx_hash :: "string \<Rightarrow> string \<Rightarrow> string"
  cx_verify :: "string \<Rightarrow> string \<Rightarrow> bool"
  cx_needs_rehash :: "string \<Rightarrow> bool"
  cx_encrypt :: "string \<Rightarrow> string \<Rightarrow> string"
  cx_decrypt :: "string \<Rightarrow> string option"
  cx_b32decode :: "string \<Rightarrow> 8 word list option"
  cx_hmac_sha1 :: "8 word list \<Rightarrow> 64 word \<Rightarrow> 8 word list"

definition hash_password :: "Crypto \<Rightarrow> string \<Rightarrow> string \<Rightarrow> string res" where
  "hash_password cx salt password =
     (if length password < 12 then Inl (ValueError ''password too short'') else Inr (cx_hash cx salt password))"

section \<open>One-time passwords\<close>

definition decode_secret :: "Crypto \<Rightarrow> string \<Rightarrow> 8 word list res" where
  "decode_secret cx secret =
     (case cx_b32decode cx (secret @ replicate ((8 - length secret mod 8) mod 8) CHR ''='') of
        None \<Rightarrow> Inl (ValueError ''binascii.Error'') | Some k \<Rightarrow> Inr k)"

definition be32 :: "8 word list \<Rightarrow> 32 word" where
  "be32 bs = word_of_int (horner_sum uint 256 (rev bs))"

definition zfill :: "nat \<Rightarrow> string \<Rightarrow> string" where
  "zfill n s = replicate (n - length s) CHR ''0'' @ s"

definition totp :: "Crypto \<Rightarrow> string \<Rightarrow> int \<Rightarrow> string res" where
  "totp cx secret t =
     (let counter = t div 30
      in bind_res (decode_secret cx secret) (\<lambda>key.
         if counter < 0 \<or> 2 ^ 64 \<le> counter then Inl (OtherException ''struct.error'')
         else let digest = cx_hmac_sha1 cx key (word_of_int counter)
              in if digest = [] then Inl IndexError
                 else let offset = unat (last digest AND 15); chunk = take 4 (drop offset digest)
                      in if length chunk \<noteq> 4 then Inl (OtherException ''struct.error'')
                         else let code = unat (be32 chunk AND 0x7FFFFFFF) mod 10 ^ 6
                              in Inr (zfill 6 (nat_digits code))))"

fun any_code :: "Crypto \<Rightarrow> string \<Rightarrow> string \<Rightarrow> int list \<Rightarrow> bool res" where
  "any_code cx secret code [] = Inr False"
| "any_code cx secret code (t # ts) =
     bind_res (totp cx secret t) (\<lambda>c. if c = code then Inr True else any_code cx secret code ts)"

definition verify_totp :: "Crypto \<Rightarrow> string \<Rightarrow> string \<Rightarrow> int \<Rightarrow> bool res" where
  "verify_totp cx secret code t = any_code cx secret code (map (\<lambda>i. t + i * 30) [-1, 0, 1])"

definition recovery_code :: "string \<Rightarrow> string" where
  "recovery_code raw = map (\<lambda>c. if c = CHR ''-'' then CHR ''A'' else if c = CHR ''_'' then CHR ''B'' else c) raw"

section \<open>Tables\<close>

record User =
  us_username :: string
  us_password_hash :: string
  us_role :: string
  us_mfa_enabled :: bool
  us_mfa_secret :: "string option"

record SessionRow =
  se_user_id :: string
  se_token_hash :: string
  se_csrf_hash :: string
  se_expires_at :: int
  se_last_seen_at :: int
  se_revoked_at :: "int option"

record MfaRecoveryCode =
  rc_user_id :: string
  rc_code_hash :: string
  rc_used_at :: "int option"

record PasswordResetToken =
  pt_user_id :: string
  pt_token_hash :: string
  pt_expires_at :: int
  pt_used_at :: "int option"

record SystemEvent =
  sy_event_type :: string
  sy_severity :: string
  sy_user_id :: "string option"
  sy_payload :: "(string, string) dict"

record AuthDb =
  au_users :: "(string, User) dict"
  au_sessions :: "(string, SessionRow) dict"
  au_codes :: "(string, MfaRecoveryCode) dict"
  au_resets :: "(string, PasswordResetToken) dict"
  au_events :: "SystemEvent list"

definition ROLE_LEVEL :: "(string, int) dict" where
  "ROLE_LEVEL = [(''viewer'', 1), (''trader'', 2), (''admin'', 3)]"

text \<open>\<open>s.scalar(select(T).where(P))\<close>: the first row that satisfies the condition.\<close>

definition select_row :: "('v \<Rightarrow> bool) \<Rightarrow> (string, 'v) dict \<Rightarrow> (string \<times> 'v) option" where
  "select_row P d = List.find (\<lambda>(k, v). P v) d"

text \<open>An update of every row that satisfies a condition.\<close>

definition update_rows :: "('v \<Rightarrow> bool) \<Rightarrow> ('v \<Rightarrow> 'v) \<Rightarrow> (string, 'v) dict \<Rightarrow> (string, 'v) dict" where
  "update_rows P f d = map (\<lambda>(k, v). (k, if P v then f v else v)) d"

text \<open>An insertion that the primary key and the unique column \<open>u\<close> guard.\<close>

definition insert_row :: "('v \<Rightarrow> string) \<Rightarrow> string \<Rightarrow> 'v \<Rightarrow> (string, 'v) dict \<Rightarrow> (string, 'v) dict res" where
  "insert_row u k v d =
     (if dget d k \<noteq> None \<or> (\<exists>w \<in> set (map snd d). u w = u v) then Inl (OtherException ''IntegrityError'')
      else Inr (dset k v d))"

definition log_event :: "string \<Rightarrow> string \<Rightarrow> string option \<Rightarrow> (string, string) dict \<Rightarrow> AuthDb \<Rightarrow> AuthDb" where
  "log_event event_type severity user_id payload db =
     db\<lparr>au_events := au_events db @ [\<lparr>sy_event_type = event_type, sy_severity = severity, sy_user_id = user_id, sy_payload = payload\<rparr>]\<rparr>"

section \<open>Accounts\<close>

definition create_user :: "Crypto \<Rightarrow> string \<Rightarrow> string \<Rightarrow> string \<Rightarrow> string \<Rightarrow> string \<Rightarrow> AuthDb \<Rightarrow> AuthDb \<times> string res" where
  "create_user cx uid salt username password role db =
     (if dget ROLE_LEVEL role = None then (db, Inl (ValueError ''invalid role''))
      else if select_row (\<lambda>u. us_username u = username) (au_users db) \<noteq> None then (db, Inl (ValueError ''username exists''))
      else case bind_res (hash_password cx salt password) (\<lambda>h.
             insert_row us_username uid \<lparr>us_username = username, us_password_hash = h, us_role = role, us_mfa_enabled = False, us_mfa_secret = None\<rparr> (au_users db)) of
             Inl e \<Rightarrow> (db, Inl e)
           | Inr us \<Rightarrow> (log_event ''USER_CREATED'' ''INFO'' (Some uid) [(''role'', role)] (db\<lparr>au_users := us\<rparr>), Inr uid))"

definition bootstrap_admin :: "Crypto \<Rightarrow> string \<Rightarrow> string \<Rightarrow> string \<Rightarrow> string \<Rightarrow> AuthDb \<Rightarrow> AuthDb \<times> string res" where
  "bootstrap_admin cx uid salt username password db =
     (if au_users db \<noteq> [] then (db, Inl (PermissionError ''admin already exists''))
      else create_user cx uid salt username password ''admin'' db)"

definition password_ok :: "Crypto \<Rightarrow> User option \<Rightarrow> string \<Rightarrow> bool" where
  "password_ok cx u password = (case u of None \<Rightarrow> False | Some u \<Rightarrow> cx_verify cx (us_password_hash u) password)"

definition reauthenticate :: "Crypto \<Rightarrow> string \<Rightarrow> string \<Rightarrow> AuthDb \<Rightarrow> AuthDb \<times> (string \<times> string) res" where
  "reauthenticate cx user_id password db =
     (case dget (au_users db) user_id of
        Some u \<Rightarrow> if cx_verify cx (us_password_hash u) password
                  then (log_event ''HIGH_RISK_REAUTH_SUCCEEDED'' ''INFO'' (Some user_id) [] db, Inr (user_id, us_role u))
                  else (log_event ''HIGH_RISK_REAUTH_FAILED'' ''WARN'' (Some user_id) [] db, Inl (PermissionError ''re-authentication failed''))
      | None \<Rightarrow> (log_event ''HIGH_RISK_REAUTH_FAILED'' ''WARN'' (Some user_id) [] db, Inl (PermissionError ''re-authentication failed'')))"

section \<open>Multi-factor enrolment\<close>

definition begin_mfa_enrollment :: "Crypto \<Rightarrow> string \<Rightarrow> string \<Rightarrow> string \<Rightarrow> string \<Rightarrow> AuthDb \<Rightarrow> AuthDb \<times> string res" where
  "begin_mfa_enrollment cx secret nonce user_id password db =
     (case dget (au_users db) user_id of
        Some u \<Rightarrow> if cx_verify cx (us_password_hash u) password
                  then (log_event ''MFA_ENROLLMENT_STARTED'' ''INFO'' (Some user_id) []
                          (db\<lparr>au_users := dset user_id (u\<lparr>us_mfa_secret := Some (cx_encrypt cx nonce secret)\<rparr>) (au_users db)\<rparr>), Inr secret)
                  else (log_event ''MFA_ENROLLMENT_REAUTH_FAILED'' ''WARN'' (Some user_id) [] db, Inl (PermissionError ''re-authentication failed''))
      | None \<Rightarrow> (log_event ''MFA_ENROLLMENT_REAUTH_FAILED'' ''WARN'' (Some user_id) [] db, Inl (PermissionError ''re-authentication failed'')))"

fun add_codes :: "Crypto \<Rightarrow> string \<Rightarrow> (string \<times> string) list \<Rightarrow> (string, MfaRecoveryCode) dict \<Rightarrow> (string, MfaRecoveryCode) dict res" where
  "add_codes cx user_id [] d = Inr d"
| "add_codes cx user_id ((k, c) # cs) d =
     bind_res (insert_row rc_code_hash k \<lparr>rc_user_id = user_id, rc_code_hash = cx_sha cx c, rc_used_at = None\<rparr> d) (add_codes cx user_id cs)"

definition stored_secret :: "Crypto \<Rightarrow> User \<Rightarrow> string option res" where
  "stored_secret cx u =
     (case us_mfa_secret u of
        None \<Rightarrow> Inr None
      | Some c \<Rightarrow> if c = [] then Inr None
                  else (case cx_decrypt cx c of None \<Rightarrow> Inl (OtherException ''InvalidToken'') | Some s \<Rightarrow> Inr (Some s)))"

definition confirm_mfa_enrollment ::
  "Crypto \<Rightarrow> (string \<times> string) list \<Rightarrow> string \<Rightarrow> string \<Rightarrow> int \<Rightarrow> AuthDb \<Rightarrow> AuthDb \<times> string list res" where
  "confirm_mfa_enrollment cx fresh user_id code t db =
     (case dget (au_users db) user_id of
        None \<Rightarrow> (db, Inl (PermissionError ''no pending MFA enrollment''))
      | Some u \<Rightarrow>
        (case stored_secret cx u of
           Inl e \<Rightarrow> (db, Inl e)
         | Inr None \<Rightarrow> (db, Inl (PermissionError ''no pending MFA enrollment''))
         | Inr (Some secret) \<Rightarrow>
           (case verify_totp cx secret code t of
              Inl e \<Rightarrow> (db, Inl e)
            | Inr False \<Rightarrow> (log_event ''MFA_ENROLLMENT_FAILED'' ''WARN'' (Some user_id) [] db, Inl (PermissionError ''invalid MFA code''))
            | Inr True \<Rightarrow>
              let codes = map (\<lambda>(k, raw). (k, recovery_code raw)) fresh in
              (case add_codes cx user_id codes (au_codes db) of
                 Inl e \<Rightarrow> (db, Inl e)
               | Inr cs \<Rightarrow> (log_event ''MFA_ENABLED'' ''INFO'' (Some user_id) []
                              (db\<lparr>au_codes := cs, au_users := dset user_id (u\<lparr>us_mfa_enabled := True\<rparr>) (au_users db)\<rparr>),
                            Inr (map snd codes))))))"

definition reset_mfa :: "Crypto \<Rightarrow> string \<Rightarrow> string \<Rightarrow> string \<Rightarrow> int \<Rightarrow> AuthDb \<Rightarrow> AuthDb \<times> unit res" where
  "reset_mfa cx user_id actor_user_id actor_password now db =
     (let actor = dget (au_users db) actor_user_id
      in if \<not> password_ok cx actor actor_password \<or> map_option us_role actor \<noteq> Some ''admin''
         then (log_event ''MFA_RESET_DENIED'' ''WARN'' (Some user_id) [(''actor_user_id'', actor_user_id)] db,
               Inl (PermissionError ''admin re-authentication required''))
         else case dget (au_users db) user_id of
                None \<Rightarrow> (db, Inl (ValueError ''user not found''))
              | Some target \<Rightarrow>
                (log_event ''MFA_RESET'' ''WARN'' (Some user_id) [(''actor_user_id'', actor_user_id)]
                   (db\<lparr>au_users := dset user_id (target\<lparr>us_mfa_enabled := False, us_mfa_secret := None\<rparr>) (au_users db),
                       au_codes := update_rows (\<lambda>c. rc_user_id c = user_id \<and> rc_used_at c = None) (\<lambda>c. c\<lparr>rc_used_at := Some now\<rparr>) (au_codes db)\<rparr>),
                 Inr ()))"

section \<open>Password resets\<close>

definition issue_password_reset :: "Crypto \<Rightarrow> string \<Rightarrow> string \<Rightarrow> string \<Rightarrow> int \<Rightarrow> int \<Rightarrow> AuthDb \<Rightarrow> AuthDb \<times> string res" where
  "issue_password_reset cx k raw user_id ttl_seconds now db =
     (if dget (au_users db) user_id = None then (db, Inl (ValueError ''user not found''))
      else case insert_row pt_token_hash k \<lparr>pt_user_id = user_id, pt_token_hash = cx_sha cx raw, pt_expires_at = now + ttl_seconds * 1000000, pt_used_at = None\<rparr> (au_resets db) of
             Inl e \<Rightarrow> (db, Inl e)
           | Inr rs \<Rightarrow> (log_event ''PASSWORD_RESET_ISSUED'' ''WARN'' (Some user_id) [] (db\<lparr>au_resets := rs\<rparr>), Inr raw))"

definition revoke_sessions :: "string \<Rightarrow> int \<Rightarrow> (string, SessionRow) dict \<Rightarrow> (string, SessionRow) dict" where
  "revoke_sessions user_id now d =
     update_rows (\<lambda>r. se_user_id r = user_id \<and> se_revoked_at r = None) (\<lambda>r. r\<lparr>se_revoked_at := Some now\<rparr>) d"

definition consume_password_reset :: "Crypto \<Rightarrow> string \<Rightarrow> string \<Rightarrow> string \<Rightarrow> int \<Rightarrow> AuthDb \<Rightarrow> AuthDb \<times> string res" where
  "consume_password_reset cx salt raw_token new_password now db =
     (case select_row (\<lambda>p. pt_token_hash p = cx_sha cx raw_token \<and> pt_used_at p = None) (au_resets db) of
        None \<Rightarrow> (db, Inl (PermissionError ''invalid or expired password reset token''))
      | Some (k, row) \<Rightarrow>
        if pt_expires_at row \<le> now then (db, Inl (PermissionError ''invalid or expired password reset token''))
        else case dget (au_users db) (pt_user_id row) of
               None \<Rightarrow> (db, Inl (PermissionError ''invalid password reset token''))
             | Some user \<Rightarrow>
               (case hash_password cx salt new_password of
                  Inl e \<Rightarrow> (db, Inl e)
                | Inr h \<Rightarrow>
                  (log_event ''PASSWORD_RESET_COMPLETED'' ''WARN'' (Some (pt_user_id row)) []
                     (db\<lparr>au_users := dset (pt_user_id row) (user\<lparr>us_password_hash := h\<rparr>) (au_users db),
                         au_resets := dset k (row\<lparr>pt_used_at := Some now\<rparr>) (au_resets db),
                         au_sessions := revoke_sessions (pt_user_id row) now (au_sessions db)\<rparr>),
                   Inr (pt_user_id row))))"

section \<open>Login throttle\<close>

record LoginThrottle =
  lt_max_attempts :: nat
  lt_window_seconds :: rat
  lt_attempts :: "(string, rat list) dict"

definition recent :: "LoginThrottle \<Rightarrow> string \<Rightarrow> rat \<Rightarrow> rat list" where
  "recent th key now = filter (\<lambda>x. flt (now - x) < lt_window_seconds th) (get_or (lt_attempts th) key [])"

definition throttle_check :: "string \<Rightarrow> rat \<Rightarrow> LoginThrottle \<Rightarrow> LoginThrottle \<times> unit res" where
  "throttle_check key now th =
     (let xs = recent th key now
      in (th\<lparr>lt_attempts := dset key xs (lt_attempts th)\<rparr>,
          if lt_max_attempts th \<le> length xs then Inl (PermissionError ''login throttled'') else Inr ()))"

definition throttle_fail :: "string \<Rightarrow> rat \<Rightarrow> LoginThrottle \<Rightarrow> LoginThrottle" where
  "throttle_fail key now th = th\<lparr>lt_attempts := dset key (get_or (lt_attempts th) key [] @ [now]) (lt_attempts th)\<rparr>"

definition throttle_success :: "string \<Rightarrow> LoginThrottle \<Rightarrow> LoginThrottle" where
  "throttle_success key th = th\<lparr>lt_attempts := ddel key (lt_attempts th)\<rparr>"

section \<open>Sessions\<close>

record DatabaseAuthService =
  sa_db :: AuthDb
  sa_ttl :: int
  sa_inactivity_timeout :: int
  sa_throttle :: LoginThrottle

record LoginResult =
  lr_session_token :: string
  lr_csrf_token :: string
  lr_user_id :: string
  lr_role :: string

text \<open>What one call of \<open>login\<close> reads from outside: clocks and fresh random values.\<close>

record LoginInputs =
  li_check_clock :: rat
  li_fail_clock :: rat
  li_totp_clock :: int
  li_now :: int
  li_salt :: string
  li_session_id :: string
  li_raw :: string
  li_csrf :: string

text \<open>The second factor: a one-time password or an unused recovery code, with the table after it and whether a code was spent.\<close>

definition totp_factor :: "Crypto \<Rightarrow> LoginInputs \<Rightarrow> User \<Rightarrow> string option \<Rightarrow> bool res" where
  "totp_factor cx inp u mfa_code =
     (case mfa_code of
        None \<Rightarrow> Inr False
      | Some c \<Rightarrow> if c = [] then Inr False
                  else bind_res (stored_secret cx u) (\<lambda>s. case s of None \<Rightarrow> Inr False | Some secret \<Rightarrow> verify_totp cx secret c (li_totp_clock inp)))"

definition second_factor ::
  "Crypto \<Rightarrow> LoginInputs \<Rightarrow> string \<Rightarrow> User \<Rightarrow> string option \<Rightarrow> string option \<Rightarrow> (string, MfaRecoveryCode) dict \<Rightarrow>
   ((string, MfaRecoveryCode) dict \<times> bool \<times> bool) res" where
  "second_factor cx inp uid u mfa_code recovery codes =
     bind_res (totp_factor cx inp u mfa_code)
       (\<lambda>ok. case recovery of
          None \<Rightarrow> Inr (codes, ok, False)
        | Some r \<Rightarrow>
          if r = [] \<or> ok then Inr (codes, ok, False)
          else case select_row (\<lambda>c. rc_user_id c = uid \<and> rc_code_hash c = cx_sha cx r \<and> rc_used_at c = None) codes of
                 None \<Rightarrow> Inr (codes, False, False)
               | Some (k, row) \<Rightarrow> Inr (dset k (row\<lparr>rc_used_at := Some (li_now inp)\<rparr>) codes, True, True))"

definition open_session :: "Crypto \<Rightarrow> LoginInputs \<Rightarrow> string \<Rightarrow> User \<Rightarrow> int \<Rightarrow> AuthDb \<Rightarrow> AuthDb \<times> LoginResult res" where
  "open_session cx inp uid u ttl db =
     (case insert_row se_token_hash (li_session_id inp)
             \<lparr>se_user_id = uid, se_token_hash = cx_sha cx (li_raw inp), se_csrf_hash = cx_sha cx (li_csrf inp),
              se_expires_at = li_now inp + ttl * 1000000, se_last_seen_at = li_now inp, se_revoked_at = None\<rparr> (au_sessions db) of
        Inl e \<Rightarrow> (db, Inl e)
      | Inr ss \<Rightarrow> (log_event ''LOGIN_SUCCEEDED'' ''INFO'' (Some uid) [] (db\<lparr>au_sessions := ss\<rparr>),
                   Inr \<lparr>lr_session_token = li_raw inp, lr_csrf_token = li_csrf inp, lr_user_id = uid, lr_role = us_role u\<rparr>))"

definition upgrade_hash :: "Crypto \<Rightarrow> string \<Rightarrow> string \<Rightarrow> User \<Rightarrow> User res" where
  "upgrade_hash cx salt password u =
     (if cx_needs_rehash cx (us_password_hash u)
      then bind_res (hash_password cx salt password) (\<lambda>h. Inr (u\<lparr>us_password_hash := h\<rparr>)) else Inr u)"

definition check_credentials ::
  "Crypto \<Rightarrow> LoginInputs \<Rightarrow> int \<Rightarrow> string \<Rightarrow> string \<Rightarrow> string option \<Rightarrow> string option \<Rightarrow> AuthDb \<Rightarrow> AuthDb \<times> bool \<times> LoginResult res" where
  "check_credentials cx inp ttl username password mfa_code recovery db =
     (case select_row (\<lambda>u. us_username u = username) (au_users db) of
        None \<Rightarrow> (log_event ''SUSPICIOUS_LOGIN_FAILED'' ''WARN'' None [(''username'', username)] db, True, Inl (PermissionError ''invalid credentials''))
      | Some (uid, u) \<Rightarrow>
        if \<not> cx_verify cx (us_password_hash u) password
        then (log_event ''SUSPICIOUS_LOGIN_FAILED'' ''WARN'' (Some uid) [(''username'', username)] db, True, Inl (PermissionError ''invalid credentials''))
        else case upgrade_hash cx (li_salt inp) password u of
          Inl e \<Rightarrow> (db, False, Inl e)
        | Inr u1 \<Rightarrow>
          let db1 = db\<lparr>au_users := dset uid u1 (au_users db)\<rparr> in
          if \<not> us_mfa_enabled u
          then (case open_session cx inp uid u1 ttl db1 of (db2, Inr r) \<Rightarrow> (db2, False, Inr r) | (_, Inl e) \<Rightarrow> (db, False, Inl e))
          else case second_factor cx inp uid u1 mfa_code recovery (au_codes db1) of
            Inl e \<Rightarrow> (db, False, Inl e)
          | Inr (codes, False, spent) \<Rightarrow>
              (log_event ''SUSPICIOUS_LOGIN_MFA_FAILED'' ''WARN'' (Some uid) [] db1, True, Inl (PermissionError ''MFA required''))
          | Inr (codes, True, spent) \<Rightarrow>
              let db2 = db1\<lparr>au_codes := codes\<rparr>;
                  db3 = (if spent then log_event ''MFA_RECOVERY_CODE_USED'' ''WARN'' (Some uid) [] db2 else db2)
              in (case open_session cx inp uid u1 ttl db3 of (db4, Inr r) \<Rightarrow> (db4, False, Inr r) | (_, Inl e) \<Rightarrow> (db, False, Inl e)))"

definition login ::
  "Crypto \<Rightarrow> LoginInputs \<Rightarrow> string \<Rightarrow> string \<Rightarrow> string option \<Rightarrow> string option \<Rightarrow> DatabaseAuthService \<Rightarrow> DatabaseAuthService \<times> LoginResult res" where
  "login cx inp username password mfa_code recovery s =
     (let key = lower username
      in case throttle_check key (li_check_clock inp) (sa_throttle s) of
           (th, Inl e) \<Rightarrow> (s\<lparr>sa_throttle := th\<rparr>, Inl e)
         | (th, Inr _) \<Rightarrow>
           (case check_credentials cx inp (sa_ttl s) username password mfa_code recovery (sa_db s) of
              (db, counted, Inl e) \<Rightarrow>
                (s\<lparr>sa_db := db, sa_throttle := (if counted then throttle_fail key (li_fail_clock inp) th else th)\<rparr>, Inl e)
            | (db, _, Inr r) \<Rightarrow> (s\<lparr>sa_db := db, sa_throttle := throttle_success key th\<rparr>, Inr r)))"

record AuthContext =
  ac_user_id :: string
  ac_username :: string
  ac_role :: string
  ac_csrf_hash :: string

definition live_session :: "string \<Rightarrow> SessionRow \<Rightarrow> bool" where
  "live_session h r \<longleftrightarrow> se_token_hash r = h \<and> se_revoked_at r = None"

definition authenticate :: "Crypto \<Rightarrow> int \<Rightarrow> string \<Rightarrow> string \<Rightarrow> int \<Rightarrow> AuthDb \<Rightarrow> AuthDb \<times> AuthContext res" where
  "authenticate cx inactivity_timeout session_token required_role now db =
     (case select_row (live_session (cx_sha cx session_token)) (au_sessions db) of
        None \<Rightarrow> (db, Inl (PermissionError ''invalid session''))
      | Some (k, row) \<Rightarrow>
        let inactive = (se_last_seen_at row + inactivity_timeout * 1000000 \<le> now) in
        if se_expires_at row \<le> now \<or> inactive
        then (log_event ''SESSION_EXPIRED'' ''INFO'' (Some (se_user_id row)) [(''reason'', if inactive then ''INACTIVITY'' else ''ABSOLUTE_EXPIRY'')]
                (db\<lparr>au_sessions := dset k (row\<lparr>se_revoked_at := Some now\<rparr>) (au_sessions db)\<rparr>),
              Inl (PermissionError ''invalid session''))
        else case dget (au_users db) (se_user_id row) of
               None \<Rightarrow> (db, Inl (PermissionError ''insufficient role''))
             | Some u \<Rightarrow>
               (case (dget ROLE_LEVEL (us_role u), dget ROLE_LEVEL required_role) of
                  (None, _) \<Rightarrow> (db, Inl (KeyError (us_role u)))
                | (_, None) \<Rightarrow> (db, Inl (KeyError required_role))
                | (Some have_level, Some need_level) \<Rightarrow>
                  if have_level < need_level then (db, Inl (PermissionError ''insufficient role''))
                  else (db\<lparr>au_sessions := dset k (row\<lparr>se_last_seen_at := now\<rparr>) (au_sessions db)\<rparr>,
                        Inr \<lparr>ac_user_id = se_user_id row, ac_username = us_username u, ac_role = us_role u, ac_csrf_hash = se_csrf_hash row\<rparr>)))"

definition verify_csrf :: "Crypto \<Rightarrow> int \<Rightarrow> string \<Rightarrow> string \<Rightarrow> int \<Rightarrow> AuthDb \<Rightarrow> AuthDb \<times> bool res" where
  "verify_csrf cx inactivity_timeout session_token csrf_token now db =
     (case authenticate cx inactivity_timeout session_token ''viewer'' now db of
        (db', r) \<Rightarrow> (db', bind_res r (\<lambda>c. Inr (ac_csrf_hash c = cx_sha cx csrf_token))))"

definition rotate_csrf :: "Crypto \<Rightarrow> string \<Rightarrow> string \<Rightarrow> AuthDb \<Rightarrow> AuthDb \<times> string res" where
  "rotate_csrf cx raw session_token db =
     (case select_row (live_session (cx_sha cx session_token)) (au_sessions db) of
        None \<Rightarrow> (db, Inl (PermissionError ''invalid session''))
      | Some (k, row) \<Rightarrow>
        (log_event ''CSRF_ROTATED'' ''INFO'' (Some (se_user_id row)) []
           (db\<lparr>au_sessions := dset k (row\<lparr>se_csrf_hash := cx_sha cx raw\<rparr>) (au_sessions db)\<rparr>), Inr raw))"

definition revoke :: "Crypto \<Rightarrow> string \<Rightarrow> int \<Rightarrow> AuthDb \<Rightarrow> AuthDb" where
  "revoke cx session_token now db =
     (case select_row (\<lambda>r. se_token_hash r = cx_sha cx session_token) (au_sessions db) of
        None \<Rightarrow> db
      | Some (k, row) \<Rightarrow>
        log_event ''SESSION_REVOKED'' ''INFO'' (Some (se_user_id row)) []
          (db\<lparr>au_sessions := dset k (row\<lparr>se_revoked_at := Some now\<rparr>) (au_sessions db)\<rparr>))"

text \<open>Every operation of the service, as a step.\<close>

datatype auth_op =
    BootstrapAdmin string string string string
  | CreateUser string string string string string
  | BeginMfa string string string string
  | ConfirmMfa "(string \<times> string) list" string string int
  | ResetMfa string string string int
  | IssueReset string string string int int
  | ConsumeReset string string string int
  | Login LoginInputs string string "string option" "string option"
  | Reauthenticate string string
  | Authenticate string string int
  | VerifyCsrf string string int
  | RotateCsrf string string
  | Revoke string int

definition on_db :: "(AuthDb \<Rightarrow> AuthDb) \<Rightarrow> DatabaseAuthService \<Rightarrow> DatabaseAuthService" where
  "on_db f s = s\<lparr>sa_db := f (sa_db s)\<rparr>"

definition auth_step :: "Crypto \<Rightarrow> auth_op \<Rightarrow> DatabaseAuthService \<Rightarrow> DatabaseAuthService" where
  "auth_step cx op s =
     (let idle = sa_inactivity_timeout s in case op of
        BootstrapAdmin uid salt name pw \<Rightarrow> on_db (fst \<circ> bootstrap_admin cx uid salt name pw) s
      | CreateUser uid salt name pw role \<Rightarrow> on_db (fst \<circ> create_user cx uid salt name pw role) s
      | BeginMfa secret nonce uid pw \<Rightarrow> on_db (fst \<circ> begin_mfa_enrollment cx secret nonce uid pw) s
      | ConfirmMfa fresh uid code t \<Rightarrow> on_db (fst \<circ> confirm_mfa_enrollment cx fresh uid code t) s
      | ResetMfa uid actor pw now \<Rightarrow> on_db (fst \<circ> reset_mfa cx uid actor pw now) s
      | IssueReset k raw uid ttl now \<Rightarrow> on_db (fst \<circ> issue_password_reset cx k raw uid ttl now) s
      | ConsumeReset salt raw pw now \<Rightarrow> on_db (fst \<circ> consume_password_reset cx salt raw pw now) s
      | Login inp name pw mfa rc \<Rightarrow> fst (login cx inp name pw mfa rc s)
      | Reauthenticate uid pw \<Rightarrow> on_db (fst \<circ> reauthenticate cx uid pw) s
      | Authenticate tok role now \<Rightarrow> on_db (fst \<circ> authenticate cx idle tok role now) s
      | VerifyCsrf tok csrf now \<Rightarrow> on_db (fst \<circ> verify_csrf cx idle tok csrf now) s
      | RotateCsrf raw tok \<Rightarrow> on_db (fst \<circ> rotate_csrf cx raw tok) s
      | Revoke tok now \<Rightarrow> on_db (revoke cx tok now) s)"

section \<open>How tables evolve\<close>

lemma select_row_SomeD: "select_row P d = Some (k, v) \<Longrightarrow> P v \<and> (k, v) \<in> set d"
  unfolding select_row_def by (induction d) (auto split: if_splits)

lemma select_row_None: "select_row P d = None \<longleftrightarrow> (\<forall>(k, v) \<in> set d. \<not> P v)"
  unfolding select_row_def by (auto simp: find_None_iff)

definition unique_col :: "('v \<Rightarrow> string) \<Rightarrow> (string, 'v) dict \<Rightarrow> bool" where
  "unique_col u d \<longleftrightarrow> wf_dict d \<and> (\<forall>k v k' v'. dget d k = Some v \<longrightarrow> dget d k' = Some v' \<longrightarrow> u v = u v' \<longrightarrow> k = k')"

definition evolves :: "('v \<Rightarrow> 'v \<Rightarrow> bool) \<Rightarrow> (string, 'v) dict \<Rightarrow> (string, 'v) dict \<Rightarrow> bool" where
  "evolves R d d' \<longleftrightarrow> (\<forall>k v. dget d k = Some v \<longrightarrow> (\<exists>v'. dget d' k = Some v' \<and> R v v'))"

definition grows :: "('v \<Rightarrow> string) \<Rightarrow> ('v \<Rightarrow> 'v \<Rightarrow> bool) \<Rightarrow> (string, 'v) dict \<Rightarrow> (string, 'v) dict \<Rightarrow> bool" where
  "grows u R d d' \<longleftrightarrow> (unique_col u d \<longrightarrow> unique_col u d' \<and> evolves R d d')"

lemma select_row_unique:
  assumes "unique_col u d" shows "select_row P d = Some (k, v) \<Longrightarrow> P v \<and> dget d k = Some v"
  using assms select_row_SomeD [of P d k v] by (auto simp: unique_col_def wf_dict_mem)

lemma dget_update_rows [simp]: "dget (update_rows P f d) k = map_option (\<lambda>v. if P v then f v else v) (dget d k)"
  by (induction d) (auto simp: update_rows_def)

lemma wf_update_rows [simp]: "wf_dict (update_rows P f d) = wf_dict d"
  by (simp add: wf_dict_def update_rows_def comp_def case_prod_beta)

locale table =
  fixes u :: "'v \<Rightarrow> string" and R :: "'v \<Rightarrow> 'v \<Rightarrow> bool"
  assumes R_same: "R v w \<Longrightarrow> u v = u w" and R_refl [simp]: "R v v" and R_trans: "R v w \<Longrightarrow> R w x \<Longrightarrow> R v x"
begin

lemma grows_refl [simp]: "grows u R d d"
  by (auto simp: grows_def evolves_def)

lemma grows_trans: "grows u R d d' \<Longrightarrow> grows u R d' d'' \<Longrightarrow> grows u R d d''"
  unfolding grows_def evolves_def by (meson R_trans)

lemma grows_insert:
  assumes "insert_row u k v d = Inr d'" shows "grows u R d d'"
proof -
  have fresh: "u w \<noteq> u v" if "dget d j = Some w" for j w
    using assms that by (auto simp: insert_row_def split: if_splits dest!: map_of_SomeD)
  have "d' = dset k v d" "dget d k = None" using assms by (auto simp: insert_row_def split: if_splits)
  then show ?thesis
    unfolding grows_def evolves_def unique_col_def by (auto dest: fresh)
qed

lemma grows_dset: "(k, v) \<in> set d \<Longrightarrow> R v w \<Longrightarrow> grows u R d (dset k w d)"
  unfolding grows_def evolves_def unique_col_def by (auto simp: wf_dict_mem dest: R_same)

lemma grows_dget: "dget d k = Some v \<Longrightarrow> R v w \<Longrightarrow> grows u R d (dset k w d)"
  by (intro grows_dset) (auto dest: map_of_SomeD)

lemma grows_select: "select_row P d = Some (k, v) \<Longrightarrow> R v w \<Longrightarrow> grows u R d (dset k w d)"
  by (auto intro: grows_dset dest: select_row_SomeD)

lemma grows_update_rows:
  assumes R: "\<And>v. R v (f v)" shows "grows u R d (update_rows P f d)"
proof -
  let ?g = "\<lambda>v. if P v then f v else v"
  have g: "R v (?g v)" "u (?g v) = u v" for v using R R_same [OF R] by simp_all
  have "evolves R d (update_rows P f d)" unfolding evolves_def
  proof (intro allI impI)
    fix k v assume "dget d k = Some v"
    then have "dget (update_rows P f d) k = Some (?g v)" by simp
    with g(1) [of v] show "\<exists>v'. dget (update_rows P f d) k = Some v' \<and> R v v'" by blast
  qed
  moreover have "unique_col u (update_rows P f d)" if un: "unique_col u d"
    unfolding unique_col_def wf_update_rows
  proof (intro conjI allI impI)
    show "wf_dict d" using un by (simp add: unique_col_def)
    fix k v k' v' assume "dget (update_rows P f d) k = Some v" "dget (update_rows P f d) k' = Some v'" "u v = u v'"
    moreover from this(1,2) obtain w w' where w: "dget d k = Some w" "v = ?g w" "dget d k' = Some w'" "v' = ?g w'"
      unfolding dget_update_rows map_option_eq_Some by blast
    ultimately have "u w = u w'" using g(2) [of w] g(2) [of w'] by simp
    with un w(1,3) show "k = k'" unfolding unique_col_def by blast
  qed
  ultimately show ?thesis by (simp add: grows_def)
qed

end

definition user_le :: "User \<Rightarrow> User \<Rightarrow> bool" where
  "user_le u w \<longleftrightarrow> us_username u = us_username w \<and> us_role u = us_role w"

definition session_le :: "SessionRow \<Rightarrow> SessionRow \<Rightarrow> bool" where
  "session_le r w \<longleftrightarrow> se_user_id r = se_user_id w \<and> se_token_hash r = se_token_hash w \<and> se_expires_at r = se_expires_at w \<and>
     (se_revoked_at r \<noteq> None \<longrightarrow> se_revoked_at w \<noteq> None)"

definition code_le :: "MfaRecoveryCode \<Rightarrow> MfaRecoveryCode \<Rightarrow> bool" where
  "code_le r w \<longleftrightarrow> rc_user_id r = rc_user_id w \<and> rc_code_hash r = rc_code_hash w \<and> (rc_used_at r \<noteq> None \<longrightarrow> rc_used_at w \<noteq> None)"

definition reset_le :: "PasswordResetToken \<Rightarrow> PasswordResetToken \<Rightarrow> bool" where
  "reset_le r w \<longleftrightarrow> pt_user_id r = pt_user_id w \<and> pt_token_hash r = pt_token_hash w \<and> pt_expires_at r = pt_expires_at w \<and>
     (pt_used_at r \<noteq> None \<longrightarrow> pt_used_at w \<noteq> None)"

interpretation ut: table us_username user_le
  by unfold_locales (auto simp: user_le_def)

interpretation st: table se_token_hash session_le
  by unfold_locales (auto simp: session_le_def)

interpretation ct: table rc_code_hash code_le
  by unfold_locales (auto simp: code_le_def)

interpretation rt: table pt_token_hash reset_le
  by unfold_locales (auto simp: reset_le_def)

definition db_grows :: "AuthDb \<Rightarrow> AuthDb \<Rightarrow> bool" where
  "db_grows db db' \<longleftrightarrow> grows us_username user_le (au_users db) (au_users db') \<and> grows se_token_hash session_le (au_sessions db) (au_sessions db') \<and>
     grows rc_code_hash code_le (au_codes db) (au_codes db') \<and> grows pt_token_hash reset_le (au_resets db) (au_resets db')"

lemma log_event_simps [simp]:
  "au_users (log_event t sv u p db) = au_users db" "au_sessions (log_event t sv u p db) = au_sessions db"
  "au_codes (log_event t sv u p db) = au_codes db" "au_resets (log_event t sv u p db) = au_resets db"
  by (simp_all add: log_event_def)

lemma db_grows_refl [simp]: "db_grows db db"
  by (simp add: db_grows_def)

lemma db_grows_trans: "db_grows a b \<Longrightarrow> db_grows b c \<Longrightarrow> db_grows a c"
  unfolding db_grows_def by (blast intro: ut.grows_trans st.grows_trans ct.grows_trans rt.grows_trans)

lemmas grow_rules = ut.grows_insert st.grows_insert rt.grows_insert ut.grows_dget ut.grows_select st.grows_select ct.grows_select
  rt.grows_select st.grows_update_rows ct.grows_update_rows

lemmas le_defs = user_le_def session_le_def code_le_def reset_le_def

lemma create_user_grows: "db_grows db (fst (create_user cx uid salt username password role db))"
  by (auto simp: create_user_def db_grows_def bind_res_Inr intro: grow_rules split: sum.splits)

lemma bootstrap_admin_grows: "db_grows db (fst (bootstrap_admin cx uid salt username password db))"
  by (simp add: bootstrap_admin_def create_user_grows)

lemma begin_mfa_grows: "db_grows db (fst (begin_mfa_enrollment cx secret nonce user_id password db))"
  by (auto simp: begin_mfa_enrollment_def db_grows_def le_defs intro!: ut.grows_dget split: option.splits)

lemma reauthenticate_grows: "db_grows db (fst (reauthenticate cx user_id password db))"
  by (auto simp: reauthenticate_def db_grows_def split: option.splits)

lemma add_codes_grows: "add_codes cx user_id cs d = Inr d' \<Longrightarrow> grows rc_code_hash code_le d d'"
  by (induction cs arbitrary: d) (auto simp: bind_res_Inr, metis ct.grows_trans ct.grows_insert)

lemma confirm_mfa_grows: "db_grows db (fst (confirm_mfa_enrollment cx fresh user_id code t db))"
  by (auto simp: confirm_mfa_enrollment_def db_grows_def le_defs Let_def intro!: ut.grows_dget add_codes_grows
      split: option.splits sum.splits bool.splits)

lemma reset_mfa_grows: "db_grows db (fst (reset_mfa cx user_id actor_user_id actor_password now db))"
  by (auto simp: reset_mfa_def db_grows_def le_defs Let_def intro!: ut.grows_dget ct.grows_update_rows split: option.splits)

lemma issue_reset_grows: "db_grows db (fst (issue_password_reset cx k raw user_id ttl now db))"
  by (auto simp: issue_password_reset_def db_grows_def intro: rt.grows_insert split: sum.splits)

lemma consume_reset_grows: "db_grows db (fst (consume_password_reset cx salt raw pw now db))"
  by (auto simp: consume_password_reset_def revoke_sessions_def db_grows_def le_defs
      intro!: ut.grows_dget st.grows_update_rows rt.grows_select split: option.splits sum.splits prod.splits)

lemma authenticate_grows: "db_grows db (fst (authenticate cx idle tok role now db))"
  by (auto simp: authenticate_def db_grows_def le_defs Let_def live_session_def intro!: st.grows_select split: option.splits prod.splits)

lemma verify_csrf_grows: "db_grows db (fst (verify_csrf cx idle tok csrf now db))"
  using authenticate_grows [of db cx idle tok "''viewer''" now] by (simp add: verify_csrf_def case_prod_beta)

lemma rotate_csrf_grows: "db_grows db (fst (rotate_csrf cx raw tok db))"
  by (auto simp: rotate_csrf_def db_grows_def le_defs intro!: st.grows_select split: option.splits prod.splits)

lemma revoke_grows: "db_grows db (revoke cx tok now db)"
  by (auto simp: revoke_def db_grows_def le_defs intro!: st.grows_select split: option.splits prod.splits)

lemma second_factor_cases:
  assumes "second_factor cx inp uid u mfa rc codes = Inr (codes', ok, spent)"
  shows "\<not> spent \<and> codes' = codes \<and> (ok \<longrightarrow> totp_factor cx inp u mfa = Inr True) \<or>
    spent \<and> ok \<and> (\<exists>r k row. rc = Some r \<and> select_row (\<lambda>c. rc_user_id c = uid \<and> rc_code_hash c = cx_sha cx r \<and> rc_used_at c = None) codes = Some (k, row) \<and>
      codes' = dset k (row\<lparr>rc_used_at := Some (li_now inp)\<rparr>) codes)"
proof (cases "totp_factor cx inp u mfa")
  case (Inr ok0)
  show ?thesis
  proof (cases "\<exists>x. rc = Some x \<and> x \<noteq> [] \<and> \<not> ok0")
    case True
    then obtain x where x: "rc = Some x" "x \<noteq> []" "\<not> ok0" by blast
    then show ?thesis using assms Inr
      by (cases "select_row (\<lambda>c. rc_user_id c = uid \<and> rc_code_hash c = cx_sha cx x \<and> rc_used_at c = None) codes") (auto simp: second_factor_def)
  next
    case False
    then show ?thesis using assms Inr by (cases rc) (auto simp: second_factor_def split: if_splits)
  qed
qed (use assms in \<open>simp add: second_factor_def\<close>)

lemma totp_factor_True:
  "totp_factor cx inp u mfa = Inr True \<longleftrightarrow>
     (\<exists>c secret. mfa = Some c \<and> c \<noteq> [] \<and> stored_secret cx u = Inr (Some secret) \<and> verify_totp cx secret c (li_totp_clock inp) = Inr True)"
  by (auto simp: totp_factor_def bind_res_Inr split: option.splits)

lemma second_factor_grows:
  assumes "second_factor cx inp uid u mfa rc codes = Inr (codes', ok, spent)" shows "grows rc_code_hash code_le codes codes'"
  using second_factor_cases [OF assms] by (auto simp: code_le_def intro!: ct.grows_select)

lemma open_session_grows: "db_grows db (fst (open_session cx inp uid u ttl db))"
  by (auto simp: open_session_def db_grows_def intro: st.grows_insert split: sum.splits)

lemma upgrade_hash_le: "upgrade_hash cx salt password u = Inr u' \<Longrightarrow> user_le u u' \<and> us_mfa_enabled u' = us_mfa_enabled u \<and> us_mfa_secret u' = us_mfa_secret u"
  by (auto simp: upgrade_hash_def bind_res_Inr le_defs split: if_splits)

text \<open>A login as one of three outcomes: a failure that the throttle counts, an exception that leaves the database alone, or a new session.\<close>

definition mfa_tables :: "Crypto \<Rightarrow> LoginInputs \<Rightarrow> string \<Rightarrow> User \<Rightarrow> string option \<Rightarrow> string option \<Rightarrow> AuthDb \<Rightarrow> AuthDb \<Rightarrow> bool" where
  "mfa_tables cx inp uid u mfa rc db db' \<longleftrightarrow>
     (\<exists>codes spent. (if us_mfa_enabled u then second_factor cx inp uid u mfa rc (au_codes db) = Inr (codes, True, spent)
                     else codes = au_codes db \<and> \<not> spent) \<and>
        db' = (if spent then log_event ''MFA_RECOVERY_CODE_USED'' ''WARN'' (Some uid) [] (db\<lparr>au_codes := codes\<rparr>) else db\<lparr>au_codes := codes\<rparr>))"

lemma check_credentials_cases:
  assumes "check_credentials cx inp ttl username password mfa rc db = (db', counted, r)"
  obtains (failed) u1 uid where "r = Inl (PermissionError ''invalid credentials'') \<or> r = Inl (PermissionError ''MFA required'')" counted
      "db' = log_event ''SUSPICIOUS_LOGIN_FAILED'' ''WARN'' (map_option fst (select_row (\<lambda>u. us_username u = username) (au_users db))) [(''username'', username)] db \<or>
       (select_row (\<lambda>u. us_username u = username) (au_users db) = Some (uid, u1) \<and>
        (\<exists>u2. user_le u1 u2 \<and> db' = log_event ''SUSPICIOUS_LOGIN_MFA_FAILED'' ''WARN'' (Some uid) [] (db\<lparr>au_users := dset uid u2 (au_users db)\<rparr>)))"
  | (raised) e where "r = Inl e" "\<not> counted" "db' = db"
  | (opened) uid u u1 db1 res where "select_row (\<lambda>u. us_username u = username) (au_users db) = Some (uid, u)" "cx_verify cx (us_password_hash u) password"
      "upgrade_hash cx (li_salt inp) password u = Inr u1" "mfa_tables cx inp uid u1 mfa rc (db\<lparr>au_users := dset uid u1 (au_users db)\<rparr>) db1"
      "open_session cx inp uid u1 ttl db1 = (db', Inr res)" "r = Inr res" "\<not> counted"
proof -
  show thesis
  proof (cases "select_row (\<lambda>u. us_username u = username) (au_users db)")
    case None
    with assms show thesis by (intro failed) (auto simp: check_credentials_def)
  next
    case (Some p)
    obtain uid u where p: "p = (uid, u)" by (cases p)
    show thesis
    proof (cases "cx_verify cx (us_password_hash u) password")
      case False
      with assms Some p show thesis by (intro failed) (auto simp: check_credentials_def)
    next
      case ver: True
      show thesis
      proof (cases "upgrade_hash cx (li_salt inp) password u")
        case (Inl e)
        with assms Some p ver show thesis by (intro raised [of e]) (auto simp: check_credentials_def)
      next
        case (Inr u1)
        let ?db1 = "db\<lparr>au_users := dset uid u1 (au_users db)\<rparr>"
        note up = upgrade_hash_le [OF Inr]
        show thesis
        proof (cases "us_mfa_enabled u")
          case False
          then have "mfa_tables cx inp uid u1 mfa rc ?db1 ?db1" using up unfolding mfa_tables_def
            by (intro exI [of _ "au_codes db"] exI [of _ False]) simp
          with assms Some p ver Inr False raised opened [of uid u u1 ?db1] show thesis
            by (auto simp: check_credentials_def Let_def split: prod.splits sum.splits)
        next
          case mfa: True
          show thesis
          proof (cases "second_factor cx inp uid u1 mfa rc (au_codes db)")
            case (Inl e)
            with assms Some p ver Inr mfa show thesis by (intro raised [of e]) (auto simp: check_credentials_def Let_def)
          next
            case sf: (Inr q)
            obtain codes ok spent where q: "q = (codes, ok, spent)" by (cases q) auto
            let ?db2 = "if spent then log_event ''MFA_RECOVERY_CODE_USED'' ''WARN'' (Some uid) [] (?db1\<lparr>au_codes := codes\<rparr>) else ?db1\<lparr>au_codes := codes\<rparr>"
            show thesis
            proof (cases ok)
              case False
              with assms Some p ver Inr mfa sf q up show thesis
                by (intro failed [of uid u]) (auto simp: check_credentials_def Let_def)
            next
              case True
              then have "mfa_tables cx inp uid u1 mfa rc ?db1 ?db2" using up mfa sf q unfolding mfa_tables_def
                by (intro exI [of _ codes] exI [of _ spent]) simp
              with assms Some p ver Inr mfa sf q True raised opened [of uid u u1 ?db2] show thesis
                by (auto simp: check_credentials_def Let_def split: prod.splits sum.splits)
            qed
          qed
        qed
      qed
    qed
  qed
qed

lemma mfa_tables_grows: "mfa_tables cx inp uid u mfa rc db db' \<Longrightarrow> db_grows db db' \<and> au_sessions db' = au_sessions db \<and> au_users db' = au_users db"
  unfolding mfa_tables_def db_grows_def by (auto intro: second_factor_grows split: if_splits)

lemma check_credentials_grows: "db_grows db (fst (check_credentials cx inp ttl username password mfa rc db))"
proof -
  obtain db' counted r where c: "check_credentials cx inp ttl username password mfa rc db = (db', counted, r)" by (cases rule: prod_cases3)
  then have "db_grows db db'"
  proof (cases rule: check_credentials_cases)
    case (failed u1 uid)
    then show ?thesis by (auto simp: db_grows_def intro: ut.grows_select)
  next
    case (opened uid u u1 db1 res)
    have "db_grows db (db\<lparr>au_users := dset uid u1 (au_users db)\<rparr>)"
      using opened(1) upgrade_hash_le [OF opened(3)] by (auto simp: db_grows_def intro: ut.grows_select)
    moreover have "db_grows db1 db'" using open_session_grows [of db1 cx inp uid u1 ttl] opened(5) by simp
    ultimately show ?thesis using mfa_tables_grows [OF opened(4)] db_grows_trans by blast
  qed simp
  with c show ?thesis by simp
qed

lemma login_db: "sa_db (fst (login cx inp username password mfa rc s)) = sa_db s \<or>
    sa_db (fst (login cx inp username password mfa rc s)) = fst (check_credentials cx inp (sa_ttl s) username password mfa rc (sa_db s))"
  by (auto simp: login_def throttle_check_def Let_def split: sum.splits prod.splits if_splits)

lemma login_grows: "db_grows (sa_db s) (sa_db (fst (login cx inp username password mfa rc s)))"
  using login_db [of cx inp username password mfa rc s] check_credentials_grows [of "sa_db s"] by (metis db_grows_refl)

lemma login_frame [simp]:
  "sa_ttl (fst (login cx inp username password mfa rc s)) = sa_ttl s"
  "sa_inactivity_timeout (fst (login cx inp username password mfa rc s)) = sa_inactivity_timeout s"
  by (auto simp: login_def Let_def split: sum.splits prod.splits)

lemma on_db_simps [simp]:
  "sa_db (on_db f s) = f (sa_db s)" "sa_ttl (on_db f s) = sa_ttl s"
  "sa_inactivity_timeout (on_db f s) = sa_inactivity_timeout s" "sa_throttle (on_db f s) = sa_throttle s"
  by (simp_all add: on_db_def)

lemma auth_step_frame [simp]:
  "sa_ttl (auth_step cx op s) = sa_ttl s" "sa_inactivity_timeout (auth_step cx op s) = sa_inactivity_timeout s"
  by (cases op; simp add: auth_step_def)+

lemma auth_run_frame [simp]:
  "sa_ttl (fold (auth_step cx) ops s) = sa_ttl s" "sa_inactivity_timeout (fold (auth_step cx) ops s) = sa_inactivity_timeout s"
  by (induction ops arbitrary: s) simp_all

lemmas op_grows = create_user_grows bootstrap_admin_grows begin_mfa_grows confirm_mfa_grows reset_mfa_grows issue_reset_grows
  consume_reset_grows login_grows reauthenticate_grows authenticate_grows verify_csrf_grows rotate_csrf_grows revoke_grows

lemma auth_step_grows: "db_grows (sa_db s) (sa_db (auth_step cx op s))"
  by (cases op) (simp_all add: auth_step_def op_grows)

lemma auth_run_grows: "db_grows (sa_db s) (sa_db (fold (auth_step cx) ops s))"
  by (induction ops rule: rev_induct) (auto intro: db_grows_trans auth_step_grows)

definition auth_ok :: "AuthDb \<Rightarrow> bool" where
  "auth_ok db \<longleftrightarrow> unique_col us_username (au_users db) \<and> unique_col se_token_hash (au_sessions db) \<and>
     unique_col rc_code_hash (au_codes db) \<and> unique_col pt_token_hash (au_resets db)"

lemma auth_ok_grows:
  assumes "auth_ok db" "db_grows db db'"
  shows "auth_ok db'" "evolves user_le (au_users db) (au_users db')" "evolves session_le (au_sessions db) (au_sessions db')"
    "evolves code_le (au_codes db) (au_codes db')" "evolves reset_le (au_resets db) (au_resets db')"
  using assms by (auto simp: auth_ok_def db_grows_def grows_def)

section \<open>Revocation is final\<close>

lemma unique_row:
  assumes "unique_col u d" "dget d k = Some v" "u v = h" shows "select_row (\<lambda>w. u w = h) d = Some (k, v)"
proof (cases "select_row (\<lambda>w. u w = h) d")
  case None
  then show ?thesis using assms(2,3) map_of_SomeD [OF assms(2)] unfolding select_row_None by blast
next
  case (Some p)
  obtain j w where p: "p = (j, w)" by (cases p)
  have "u w = h" "dget d j = Some w" using select_row_unique [OF assms(1), of "\<lambda>w. u w = h" j w] Some p by auto
  moreover from this have "j = k" using assms unfolding unique_col_def by blast
  ultimately show ?thesis using Some p assms(2) by simp
qed

lemma revoked_blocks:
  assumes ok: "auth_ok db" and r: "dget (au_sessions db) k = Some r" "se_token_hash r = cx_sha cx tok" "se_revoked_at r \<noteq> None"
  shows "authenticate cx idle tok role now db = (db, Inl (PermissionError ''invalid session''))"
proof -
  have "select_row (live_session (cx_sha cx tok)) (au_sessions db) = None"
  proof (rule ccontr)
    assume "select_row (live_session (cx_sha cx tok)) (au_sessions db) \<noteq> None"
    then obtain k' r' where "select_row (live_session (cx_sha cx tok)) (au_sessions db) = Some (k', r')" by auto
    from select_row_unique [OF _ this, of se_token_hash] ok have "live_session (cx_sha cx tok) r'" "dget (au_sessions db) k' = Some r'"
      by (auto simp: auth_ok_def)
    moreover from this ok r have "k' = k" unfolding auth_ok_def unique_col_def live_session_def by metis
    ultimately show False using r by (simp add: live_session_def)
  qed
  then show ?thesis by (simp add: authenticate_def)
qed

lemma revoke_revokes:
  assumes "auth_ok db" "dget (au_sessions db) k = Some r" "se_token_hash r = cx_sha cx tok"
  shows "dget (au_sessions (revoke cx tok now db)) k = Some (r\<lparr>se_revoked_at := Some now\<rparr>)"
  using unique_row [of se_token_hash "au_sessions db" k r "cx_sha cx tok"] assms by (simp add: auth_ok_def revoke_def)

lemma reset_revokes:
  assumes "consume_password_reset cx salt raw pw now db = (db', Inr uid)" "dget (au_sessions db) k = Some r" "se_user_id r = uid"
  shows "\<exists>r'. dget (au_sessions db') k = Some r' \<and> se_token_hash r' = se_token_hash r \<and> se_revoked_at r' \<noteq> None"
  using assms by (auto simp: consume_password_reset_def revoke_sessions_def split: option.splits prod.splits sum.splits if_splits)

text \<open>Once a session is revoked, directly or because its user's password was reset, its token never authenticates again, for any
  role and at any time, whatever logins, resets, enrolments and other operations follow.
\<close>

theorem revocation_is_final:
  assumes ok: "auth_ok (sa_db s)" and r: "dget (au_sessions (sa_db s)) k = Some r" "se_token_hash r = cx_sha cx tok"
    and op: "op = Revoke tok t0 \<or> op = ConsumeReset salt raw pw t0 \<and> snd (consume_password_reset cx salt raw pw t0 (sa_db s)) = Inr (se_user_id r)"
  shows "snd (authenticate cx idle tok role now (sa_db (fold (auth_step cx) ops (auth_step cx op s)))) = Inl (PermissionError ''invalid session'')"
proof -
  let ?s1 = "auth_step cx op s"
  obtain r1 where r1: "dget (au_sessions (sa_db ?s1)) k = Some r1" "se_token_hash r1 = cx_sha cx tok" "se_revoked_at r1 \<noteq> None"
    using op revoke_revokes [OF ok r] reset_revokes [OF _ r(1)] r(2)
    by (auto simp: auth_step_def prod_eq_iff) (metis prod.collapse)
  have ok1: "auth_ok (sa_db ?s1)" using auth_ok_grows(1) [OF ok auth_step_grows] .
  note g = auth_ok_grows [OF ok1 auth_run_grows [of ?s1 cx ops]]
  from g(3) r1(1) obtain r2 where "dget (au_sessions (sa_db (fold (auth_step cx) ops ?s1))) k = Some r2" "session_le r1 r2"
    unfolding evolves_def by blast
  with revoked_blocks [OF g(1), of k r2 cx tok] r1(2,3) show ?thesis by (auto simp: session_le_def)
qed

section \<open>Every session comes from checked credentials\<close>

lemma dom_dset_select:
  assumes "select_row P d = Some (k, v)" shows "dom (dget (dset k w d)) = dom (dget d)"
proof -
  have "dget d k \<noteq> None" using select_row_SomeD [OF assms] weak_map_of_SomeI [of k v d] by auto
  then show ?thesis by (auto simp: dom_def)
qed

lemma dom_update_rows [simp]: "dom (dget (update_rows P f d)) = dom (dget d)"
  by (simp add: dom_def)

lemma same_sessions [simp]:
  "au_sessions (fst (create_user cx uid salt name pw role db)) = au_sessions db"
  "au_sessions (fst (bootstrap_admin cx uid salt name pw db)) = au_sessions db"
  "au_sessions (fst (begin_mfa_enrollment cx secret nonce uid pw db)) = au_sessions db"
  "au_sessions (fst (confirm_mfa_enrollment cx fresh uid code t db)) = au_sessions db"
  "au_sessions (fst (reset_mfa cx uid actor pw now db)) = au_sessions db"
  "au_sessions (fst (issue_password_reset cx k raw uid ttl now db)) = au_sessions db"
  "au_sessions (fst (reauthenticate cx uid pw db)) = au_sessions db"
  by (auto simp: create_user_def bootstrap_admin_def begin_mfa_enrollment_def confirm_mfa_enrollment_def reset_mfa_def
      issue_password_reset_def reauthenticate_def Let_def split: sum.splits option.splits bool.splits)

lemma dom_sessions [simp]:
  "dom (dget (au_sessions (fst (consume_password_reset cx salt raw pw now db)))) = dom (dget (au_sessions db))"
  "dom (dget (au_sessions (fst (authenticate cx idle tok role now db)))) = dom (dget (au_sessions db))"
  "dom (dget (au_sessions (fst (verify_csrf cx idle tok csrf now db)))) = dom (dget (au_sessions db))"
  "dom (dget (au_sessions (fst (rotate_csrf cx raw tok db)))) = dom (dget (au_sessions db))"
  "dom (dget (au_sessions (revoke cx tok now db))) = dom (dget (au_sessions db))"
proof -
  show a: "dom (dget (au_sessions (fst (authenticate cx idle tok role now db)))) = dom (dget (au_sessions db))" for role
    unfolding authenticate_def Let_def by (simp del: dget_dset add: dom_dset_select split: option.split prod.split)
  show "dom (dget (au_sessions (fst (verify_csrf cx idle tok csrf now db)))) = dom (dget (au_sessions db))"
    by (simp add: verify_csrf_def case_prod_beta a)
qed (simp_all del: dget_dset add: consume_password_reset_def revoke_sessions_def rotate_csrf_def revoke_def dom_dset_select
      split: option.split prod.split sum.split)

definition second_factor_given :: "Crypto \<Rightarrow> LoginInputs \<Rightarrow> string \<Rightarrow> User \<Rightarrow> string option \<Rightarrow> string option \<Rightarrow> AuthDb \<Rightarrow> bool" where
  "second_factor_given cx inp uid u mfa rc db \<longleftrightarrow>
     (\<exists>c secret. mfa = Some c \<and> stored_secret cx u = Inr (Some secret) \<and> verify_totp cx secret c (li_totp_clock inp) = Inr True) \<or>
     (\<exists>c k row. rc = Some c \<and> dget (au_codes db) k = Some row \<and> rc_user_id row = uid \<and> rc_code_hash row = cx_sha cx c \<and> rc_used_at row = None)"

definition credentials_ok :: "Crypto \<Rightarrow> LoginInputs \<Rightarrow> string \<Rightarrow> string \<Rightarrow> string option \<Rightarrow> string option \<Rightarrow> DatabaseAuthService \<Rightarrow> string \<Rightarrow> bool" where
  "credentials_ok cx inp name pw mfa rc s uid \<longleftrightarrow>
     (\<exists>u. dget (au_users (sa_db s)) uid = Some u \<and> us_username u = name \<and> cx_verify cx (us_password_hash u) pw \<and>
        (us_mfa_enabled u \<longrightarrow> second_factor_given cx inp uid u mfa rc (sa_db s))) \<and>
     length (recent (sa_throttle s) (lower name) (li_check_clock inp)) < lt_max_attempts (sa_throttle s)"

lemma second_factor_ok:
  assumes un: "unique_col rc_code_hash codes" and sf: "second_factor cx inp uid u mfa rc codes = Inr (codes', True, spent)"
  shows "(\<exists>c secret. mfa = Some c \<and> stored_secret cx u = Inr (Some secret) \<and> verify_totp cx secret c (li_totp_clock inp) = Inr True) \<or>
    (\<exists>c k row. rc = Some c \<and> dget codes k = Some row \<and> rc_user_id row = uid \<and> rc_code_hash row = cx_sha cx c \<and> rc_used_at row = None)"
  using second_factor_cases [OF sf] select_row_unique [OF un] totp_factor_True by blast

lemma open_session_ok:
  assumes "open_session cx inp uid u ttl db = (db', Inr res)"
  shows "lr_user_id res = uid \<and> dget (au_sessions db) (li_session_id inp) = None \<and>
    au_sessions db' = dset (li_session_id inp) \<lparr>se_user_id = uid, se_token_hash = cx_sha cx (li_raw inp), se_csrf_hash = cx_sha cx (li_csrf inp),
      se_expires_at = li_now inp + ttl * 1000000, se_last_seen_at = li_now inp, se_revoked_at = None\<rparr> (au_sessions db)"
  using assms by (auto simp: open_session_def insert_row_def split: sum.splits if_splits)

lemma login_ok:
  assumes "snd (login cx inp name pw mfa rc s) = Inr res" "auth_ok (sa_db s)"
  shows "credentials_ok cx inp name pw mfa rc s (lr_user_id res) \<and>
    au_sessions (sa_db (fst (login cx inp name pw mfa rc s))) =
      dset (li_session_id inp) \<lparr>se_user_id = lr_user_id res, se_token_hash = cx_sha cx (li_raw inp), se_csrf_hash = cx_sha cx (li_csrf inp),
        se_expires_at = li_now inp + sa_ttl s * 1000000, se_last_seen_at = li_now inp, se_revoked_at = None\<rparr> (au_sessions (sa_db s))"
proof -
  have th: "length (recent (sa_throttle s) (lower name) (li_check_clock inp)) < lt_max_attempts (sa_throttle s)"
    using assms(1) by (auto simp: login_def throttle_check_def Let_def split: if_splits)
  obtain db' c where cc: "check_credentials cx inp (sa_ttl s) name pw mfa rc (sa_db s) = (db', c, Inr res)"
      and db': "sa_db (fst (login cx inp name pw mfa rc s)) = db'"
    using assms(1) th by (auto simp: login_def throttle_check_def Let_def split: prod.splits sum.splits)
  from cc show ?thesis
  proof (cases rule: check_credentials_cases)
    case (opened uid u u1 db1 r)
    have u: "dget (au_users (sa_db s)) uid = Some u" "us_username u = name"
      using select_row_unique [OF _ opened(1), of us_username] assms(2) by (auto simp: auth_ok_def)
    have up: "us_mfa_enabled u1 = us_mfa_enabled u" "stored_secret cx u1 = stored_secret cx u"
      using upgrade_hash_le [OF opened(3)] by (simp_all add: stored_secret_def)
    have "second_factor_given cx inp uid u mfa rc (sa_db s)" if m: "us_mfa_enabled u"
    proof -
      obtain codes spent where "second_factor cx inp uid u1 mfa rc (au_codes (sa_db s)) = Inr (codes, True, spent)"
        using opened(4) m up(1) by (auto simp: mfa_tables_def split: if_splits)
      from second_factor_ok [OF _ this] assms(2) up(2) show ?thesis unfolding second_factor_given_def auth_ok_def by metis
    qed
    with u opened(2) th have "credentials_ok cx inp name pw mfa rc s uid" unfolding credentials_ok_def by blast
    then show ?thesis using open_session_ok [OF opened(5)] mfa_tables_grows [OF opened(4)] opened(6) db' by simp
  qed auto
qed

lemma login_fails_sessions:
  assumes "snd (login cx inp name pw mfa rc s) = Inl e"
  shows "au_sessions (sa_db (fst (login cx inp name pw mfa rc s))) = au_sessions (sa_db s)"
proof (cases "sa_db (fst (login cx inp name pw mfa rc s)) = sa_db s")
  case False
  then obtain db' c e' where cc: "check_credentials cx inp (sa_ttl s) name pw mfa rc (sa_db s) = (db', c, Inl e')"
      and "sa_db (fst (login cx inp name pw mfa rc s)) = db'"
    using assms by (auto simp: login_def throttle_check_def Let_def split: prod.splits sum.splits if_splits)
  from cc this(2) show ?thesis by (cases rule: check_credentials_cases) auto
qed simp

lemma session_step_origin:
  assumes ok: "auth_ok (sa_db s)" and r: "dget (au_sessions (sa_db (auth_step cx op s))) k = Some r"
  shows "(\<exists>r0. dget (au_sessions (sa_db s)) k = Some r0 \<and> session_le r0 r) \<or>
    (\<exists>inp name pw mfa rc. op = Login inp name pw mfa rc \<and> credentials_ok cx inp name pw mfa rc s (se_user_id r) \<and>
       se_token_hash r = cx_sha cx (li_raw inp) \<and> se_expires_at r = li_now inp + sa_ttl s * 1000000)"
proof (cases "k \<in> dom (dget (au_sessions (sa_db s)))")
  case True
  then show ?thesis using auth_ok_grows(3) [OF ok auth_step_grows [of s cx op]] r unfolding evolves_def by fastforce
next
  case False
  show ?thesis
  proof (cases "\<exists>inp name pw mfa rc. op = Login inp name pw mfa rc")
    case True
    then obtain inp name pw mfa rc where op: "op = Login inp name pw mfa rc" by blast
    have s': "auth_step cx op s = fst (login cx inp name pw mfa rc s)" by (simp add: auth_step_def op)
    show ?thesis
    proof (cases "snd (login cx inp name pw mfa rc s)")
      case (Inl e)
      then show ?thesis using False r login_fails_sessions [OF Inl] s' by (auto simp: dom_def)
    next
      case (Inr res)
      note l = login_ok [OF Inr ok]
      from l r False s' have "r = \<lparr>se_user_id = lr_user_id res, se_token_hash = cx_sha cx (li_raw inp), se_csrf_hash = cx_sha cx (li_csrf inp),
        se_expires_at = li_now inp + sa_ttl s * 1000000, se_last_seen_at = li_now inp, se_revoked_at = None\<rparr>"
        by (auto split: if_splits simp: dom_def)
      then show ?thesis using l op by simp
    qed
  next
    case no_login: False
    have "dom (dget (au_sessions (sa_db (auth_step cx op s)))) = dom (dget (au_sessions (sa_db s)))"
      using no_login by (cases op) (simp_all add: auth_step_def)
    then show ?thesis using False r by (metis domI)
  qed
qed

lemma session_origin:
  assumes "auth_ok (sa_db s)" "au_sessions (sa_db s) = []" "dget (au_sessions (sa_db (fold (auth_step cx) ops s))) k = Some r"
  shows "\<exists>pre inp name pw mfa rc post. ops = pre @ Login inp name pw mfa rc # post \<and>
    credentials_ok cx inp name pw mfa rc (fold (auth_step cx) pre s) (se_user_id r) \<and>
    se_token_hash r = cx_sha cx (li_raw inp) \<and> se_expires_at r = li_now inp + sa_ttl s * 1000000"
  using assms(3)
proof (induction ops arbitrary: r rule: rev_induct)
  case Nil
  then show ?case using assms(2) by simp
next
  case (snoc op ops)
  have ok: "auth_ok (sa_db (fold (auth_step cx) ops s))" using auth_ok_grows(1) [OF assms(1) auth_run_grows] .
  have "dget (au_sessions (sa_db (auth_step cx op (fold (auth_step cx) ops s)))) k = Some r" using snoc.prems by simp
  from session_step_origin [OF ok this] show ?case
  proof (elim disjE exE conjE)
    fix r0 assume r0: "dget (au_sessions (sa_db (fold (auth_step cx) ops s))) k = Some r0" "session_le r0 r"
    from snoc.IH [OF r0(1)] obtain pre inp name pw mfa rc post where "ops = pre @ Login inp name pw mfa rc # post"
      "credentials_ok cx inp name pw mfa rc (fold (auth_step cx) pre s) (se_user_id r0)"
      "se_token_hash r0 = cx_sha cx (li_raw inp)" "se_expires_at r0 = li_now inp + sa_ttl s * 1000000" by blast
    then show ?thesis using r0(2)
      by (intro exI [of _ pre] exI [of _ inp] exI [of _ name] exI [of _ pw] exI [of _ mfa] exI [of _ rc] exI [of _ "post @ [op]"])
        (simp add: session_le_def)
  next
    fix inp name pw mfa rc
    assume "op = Login inp name pw mfa rc" "credentials_ok cx inp name pw mfa rc (fold (auth_step cx) ops s) (se_user_id r)"
      "se_token_hash r = cx_sha cx (li_raw inp)" "se_expires_at r = li_now inp + sa_ttl (fold (auth_step cx) ops s) * 1000000"
    then show ?thesis
      by (intro exI [of _ ops] exI [of _ inp] exI [of _ name] exI [of _ pw] exI [of _ mfa] exI [of _ rc] exI [of _ "[]"]) simp
  qed
qed

lemma authenticate_ok:
  assumes "snd (authenticate cx idle tok role now db) = Inr ctx" "auth_ok db"
  shows "\<exists>k r u have_level need_level. dget (au_sessions db) k = Some r \<and> se_token_hash r = cx_sha cx tok \<and> se_revoked_at r = None \<and>
    now < se_expires_at r \<and> now < se_last_seen_at r + idle * 1000000 \<and> ac_user_id ctx = se_user_id r \<and>
    dget (au_users db) (se_user_id r) = Some u \<and> ac_role ctx = us_role u \<and>
    dget ROLE_LEVEL (us_role u) = Some have_level \<and> dget ROLE_LEVEL role = Some need_level \<and> need_level \<le> have_level"
proof -
  obtain k r where sel: "select_row (live_session (cx_sha cx tok)) (au_sessions db) = Some (k, r)"
    using assms(1) by (auto simp: authenticate_def split: option.splits)
  have "live_session (cx_sha cx tok) r" "dget (au_sessions db) k = Some r"
    using select_row_unique [OF _ sel, of se_token_hash] assms(2) by (auto simp: auth_ok_def)
  then show ?thesis using assms(1) sel
    by (auto simp: authenticate_def live_session_def Let_def split: option.splits if_splits intro!: exI [of _ k])
qed

text \<open>C8: access only by credentials. Starting without sessions, whatever operations run, a token that authenticates was issued by a login of the
  same account whose password verified, with a valid one-time password or an unused recovery code when the account had a second factor, and
  which the throttle let pass; less than the session's lifetime has passed since, less than the idle timeout since its last use, and the
  account's role reaches the one required.
\<close>

theorem access_needs_credentials:
  assumes "auth_ok (sa_db s)" "au_sessions (sa_db s) = []"
    and "snd (authenticate cx idle tok role now (sa_db (fold (auth_step cx) ops s))) = Inr ctx"
  shows "(\<exists>pre inp name pw mfa rc post. ops = pre @ Login inp name pw mfa rc # post \<and> cx_sha cx (li_raw inp) = cx_sha cx tok \<and>
      credentials_ok cx inp name pw mfa rc (fold (auth_step cx) pre s) (ac_user_id ctx) \<and> now < li_now inp + sa_ttl s * 1000000) \<and>
    (\<exists>k r. dget (au_sessions (sa_db (fold (auth_step cx) ops s))) k = Some r \<and> se_token_hash r = cx_sha cx tok \<and> se_revoked_at r = None \<and>
      now < se_last_seen_at r + idle * 1000000) \<and>
    (\<exists>have_level need_level. dget ROLE_LEVEL (ac_role ctx) = Some have_level \<and> dget ROLE_LEVEL role = Some need_level \<and> need_level \<le> have_level)"
proof -
  have ok: "auth_ok (sa_db (fold (auth_step cx) ops s))" using auth_ok_grows(1) [OF assms(1) auth_run_grows] .
  from authenticate_ok [OF assms(3) ok] obtain k r and u :: User and l1 l2 where r:
    "dget (au_sessions (sa_db (fold (auth_step cx) ops s))) k = Some r" "se_token_hash r = cx_sha cx tok" "se_revoked_at r = None"
    "now < se_last_seen_at r + idle * 1000000" "now < se_expires_at r" "ac_user_id ctx = se_user_id r"
    "ac_role ctx = us_role u" "dget ROLE_LEVEL (us_role u) = Some l1" "dget ROLE_LEVEL role = Some l2" "l2 \<le> l1"
    by blast
  from session_origin [OF assms(1,2) r(1)] obtain pre inp name pw mfa rc post where
    "ops = pre @ Login inp name pw mfa rc # post" "credentials_ok cx inp name pw mfa rc (fold (auth_step cx) pre s) (se_user_id r)"
    "se_token_hash r = cx_sha cx (li_raw inp)" "se_expires_at r = li_now inp + sa_ttl s * 1000000" by blast
  with r show ?thesis by (intro conjI) (metis+)
qed

section \<open>The tables stay well typed\<close>

definition all_rows :: "('v \<Rightarrow> bool) \<Rightarrow> (string, 'v) dict \<Rightarrow> bool" where
  "all_rows Q d \<longleftrightarrow> (\<forall>p \<in> set d. Q (snd p))"

lemma all_rows_dset: "all_rows Q d \<Longrightarrow> Q v \<Longrightarrow> all_rows Q (dset k v d)"
  by (auto simp: all_rows_def dest!: dset_set)

lemma all_rows_insert: "insert_row u k v d = Inr d' \<Longrightarrow> all_rows Q d \<Longrightarrow> Q v \<Longrightarrow> all_rows Q d'"
  by (auto simp: insert_row_def intro: all_rows_dset split: if_splits)

lemma all_rows_update: "all_rows Q d \<Longrightarrow> (\<And>v. Q v \<Longrightarrow> Q (f v)) \<Longrightarrow> all_rows Q (update_rows P f d)"
  by (auto simp: all_rows_def update_rows_def split: if_splits)

lemma all_rows_mono: "all_rows Q d \<Longrightarrow> (\<And>v. Q v \<Longrightarrow> Q' v) \<Longrightarrow> all_rows Q' d"
  by (simp add: all_rows_def)

lemma all_rows_select: "select_row P d = Some (k, v) \<Longrightarrow> all_rows Q d \<Longrightarrow> Q v"
  using select_row_SomeD [of P d k v] by (force simp: all_rows_def)

lemma all_rows_dget: "dget d k = Some v \<Longrightarrow> all_rows Q d \<Longrightarrow> Q v"
  using map_of_SomeD [of d k v] by (force simp: all_rows_def)

definition users_typed :: "(string, User) dict \<Rightarrow> bool" where
  "users_typed us \<longleftrightarrow> all_rows (\<lambda>u. dget ROLE_LEVEL (us_role u) \<noteq> None) us"

definition refers :: "('v \<Rightarrow> string) \<Rightarrow> (string, User) dict \<Rightarrow> (string, 'v) dict \<Rightarrow> bool" where
  "refers f us d \<longleftrightarrow> all_rows (\<lambda>v. dget us (f v) \<noteq> None) d"

lemma refers_users: "refers f us d \<Longrightarrow> refers f (dset k u us) d"
  unfolding refers_def by (erule all_rows_mono) simp

lemma refers_users_insert: "insert_row c k u us = Inr us' \<Longrightarrow> refers f us d \<Longrightarrow> refers f us' d"
  by (auto simp: insert_row_def refers_users split: if_splits)

lemma refers_dset: "refers f us d \<Longrightarrow> dget us (f v) \<noteq> None \<Longrightarrow> refers f us (dset k v d)"
  unfolding refers_def by (rule all_rows_dset)

lemma refers_select: "select_row P d = Some (k, v) \<Longrightarrow> refers f us d \<Longrightarrow> f w = f v \<Longrightarrow> refers f us (dset k w d)"
  by (rule refers_dset) (auto simp: refers_def dest: all_rows_select)

lemma refers_insert: "insert_row c k v d = Inr d' \<Longrightarrow> refers f us d \<Longrightarrow> dget us (f v) \<noteq> None \<Longrightarrow> refers f us d'"
  unfolding refers_def by (rule all_rows_insert)

lemma refers_update: "refers f us d \<Longrightarrow> (\<And>v. f (g v) = f v) \<Longrightarrow> refers f us (update_rows P g d)"
  unfolding refers_def by (rule all_rows_update) simp_all

lemma users_typed_dset: "users_typed us \<Longrightarrow> dget us k = Some u \<Longrightarrow> us_role w = us_role u \<Longrightarrow> users_typed (dset k w us)"
  unfolding users_typed_def by (rule all_rows_dset) (auto dest: all_rows_dget)

lemma users_typed_insert: "insert_row c k u us = Inr us' \<Longrightarrow> users_typed us \<Longrightarrow> dget ROLE_LEVEL (us_role u) \<noteq> None \<Longrightarrow> users_typed us'"
  unfolding users_typed_def by (rule all_rows_insert)

lemma add_codes_refers:
  "add_codes cx uid cs d = Inr d' \<Longrightarrow> refers rc_user_id us d \<Longrightarrow> dget us uid \<noteq> None \<Longrightarrow> refers rc_user_id us d'"
  by (induction cs arbitrary: d) (auto simp: bind_res_Inr dest!: refers_insert [where f = rc_user_id])

definition refs_ok :: "AuthDb \<Rightarrow> bool" where
  "refs_ok db \<longleftrightarrow> users_typed (au_users db) \<and> refers se_user_id (au_users db) (au_sessions db) \<and>
     refers rc_user_id (au_users db) (au_codes db) \<and> refers pt_user_id (au_users db) (au_resets db)"

definition auth_typed :: "AuthDb \<Rightarrow> bool" where
  "auth_typed db \<longleftrightarrow> auth_ok db \<and> refs_ok db"

lemma refs_ok_log [simp]: "refs_ok (log_event t sv u p db) = refs_ok db"
  by (simp add: refs_ok_def)

lemma refs_ok_user:
  "refs_ok db \<Longrightarrow> dget (au_users db) k = Some u \<Longrightarrow> us_role w = us_role u \<Longrightarrow> refs_ok (db\<lparr>au_users := dset k w (au_users db)\<rparr>)"
  by (auto simp: refs_ok_def intro: users_typed_dset refers_users)

lemma refs_ok_sessions: "refs_ok db \<Longrightarrow> refers se_user_id (au_users db) ss \<Longrightarrow> refs_ok (db\<lparr>au_sessions := ss\<rparr>)"
  by (simp add: refs_ok_def)

lemma refs_ok_codes: "refs_ok db \<Longrightarrow> refers rc_user_id (au_users db) cs \<Longrightarrow> refs_ok (db\<lparr>au_codes := cs\<rparr>)"
  by (simp add: refs_ok_def)

lemma refs_ok_D: "refs_ok db \<Longrightarrow> refers se_user_id (au_users db) (au_sessions db)" "refs_ok db \<Longrightarrow> refers rc_user_id (au_users db) (au_codes db)"
  "refs_ok db \<Longrightarrow> refers pt_user_id (au_users db) (au_resets db)"
  by (simp_all add: refs_ok_def)

lemma create_user_refs: "refs_ok db \<Longrightarrow> refs_ok (fst (create_user cx uid salt name pw role db))"
  by (auto simp: create_user_def refs_ok_def bind_res_Inr intro: refers_users_insert users_typed_insert split: sum.splits)

lemma enrol_refs:
  "refs_ok db \<Longrightarrow> refs_ok (fst (begin_mfa_enrollment cx secret nonce uid pw db))"
  "refs_ok db \<Longrightarrow> refs_ok (fst (reauthenticate cx uid pw db))"
  by (auto simp: begin_mfa_enrollment_def reauthenticate_def intro: refs_ok_user split: option.splits)

lemma confirm_refs: "refs_ok db \<Longrightarrow> refs_ok (fst (confirm_mfa_enrollment cx fresh uid code t db))"
  by (auto simp: confirm_mfa_enrollment_def refs_ok_def Let_def intro: users_typed_dset refers_users add_codes_refers
      split: option.splits sum.splits bool.splits)

lemma reset_mfa_refs: "refs_ok db \<Longrightarrow> refs_ok (fst (reset_mfa cx uid actor pw now db))"
  by (auto simp: reset_mfa_def refs_ok_def Let_def intro: users_typed_dset refers_users refers_update split: option.splits)

lemma issue_reset_refs: "refs_ok db \<Longrightarrow> refs_ok (fst (issue_password_reset cx k raw uid ttl now db))"
  by (auto simp: issue_password_reset_def refs_ok_def intro: refers_insert split: sum.splits)

lemma consume_reset_refs: "refs_ok db \<Longrightarrow> refs_ok (fst (consume_password_reset cx salt raw pw now db))"
  by (auto simp: consume_password_reset_def refs_ok_def revoke_sessions_def
      intro: users_typed_dset refers_users refers_update refers_select split: option.splits sum.splits prod.splits)

lemma authenticate_refs: "refs_ok db \<Longrightarrow> refs_ok (fst (authenticate cx idle tok role now db))"
  by (auto simp: authenticate_def Let_def intro!: refs_ok_sessions elim!: refers_select dest: refs_ok_D split: option.splits prod.splits)

lemma session_refs:
  "refs_ok db \<Longrightarrow> refs_ok (fst (rotate_csrf cx raw tok db))" "refs_ok db \<Longrightarrow> refs_ok (revoke cx tok now db)"
  by (auto simp: rotate_csrf_def revoke_def intro!: refs_ok_sessions elim!: refers_select dest: refs_ok_D split: option.splits prod.splits)

lemma open_session_refs: "refs_ok db \<Longrightarrow> dget (au_users db) uid \<noteq> None \<Longrightarrow> refs_ok (fst (open_session cx inp uid u ttl db))"
  by (auto simp: open_session_def intro!: refs_ok_sessions elim!: refers_insert dest: refs_ok_D split: sum.splits)

lemma second_factor_refs:
  assumes "second_factor cx inp uid u mfa rc codes = Inr (codes', ok, spent)" "refers rc_user_id us codes"
  shows "refers rc_user_id us codes'"
  using second_factor_cases [OF assms(1)] assms(2) by (auto elim!: refers_select)

lemma mfa_tables_refs: "mfa_tables cx inp uid u mfa rc db db' \<Longrightarrow> refs_ok db \<Longrightarrow> refs_ok db'"
  unfolding mfa_tables_def by (auto intro!: refs_ok_codes intro: second_factor_refs dest: refs_ok_D split: if_splits)

lemma check_credentials_refs:
  assumes ok: "auth_typed db" shows "refs_ok (fst (check_credentials cx inp ttl username password mfa rc db))"
proof -
  obtain db' counted r where c: "check_credentials cx inp ttl username password mfa rc db = (db', counted, r)" by (cases rule: prod_cases3)
  have get: "dget (au_users db) uid = Some u" if "select_row (\<lambda>u. us_username u = username) (au_users db) = Some (uid, u)" for uid u
    using select_row_unique [OF _ that, of us_username] ok by (simp add: auth_typed_def auth_ok_def)
  have refs: "refs_ok db" using ok by (simp add: auth_typed_def)
  from c have "refs_ok db'"
  proof (cases rule: check_credentials_cases)
    case (failed u1 uid)
    then show ?thesis using refs get refs_ok_user [OF refs, of uid u1] by (auto simp: user_le_def)
  next
    case (opened uid u u1 db1 res)
    have "refs_ok (db\<lparr>au_users := dset uid u1 (au_users db)\<rparr>)"
      using refs_ok_user [OF refs get [OF opened(1)]] upgrade_hash_le [OF opened(3)] by (simp add: user_le_def)
    from mfa_tables_refs [OF opened(4) this] mfa_tables_grows [OF opened(4)] open_session_refs [of db1 uid cx inp u1 ttl] opened(5)
    show ?thesis by simp
  qed (use refs in simp)
  with c show ?thesis by simp
qed

lemma auth_step_typed: "auth_typed (sa_db s) \<Longrightarrow> auth_typed (sa_db (auth_step cx op s))"
proof -
  assume t: "auth_typed (sa_db s)"
  then have refs: "refs_ok (sa_db s)" by (simp add: auth_typed_def)
  have login: "refs_ok (sa_db (fst (login cx inp name pw mfa rc s)))" for inp name pw mfa rc
    using login_db [of cx inp name pw mfa rc s] check_credentials_refs [OF t] refs by metis
  have "refs_ok (sa_db (auth_step cx op s))"
    by (cases op) (simp_all add: auth_step_def refs login create_user_refs enrol_refs confirm_refs reset_mfa_refs issue_reset_refs
        consume_reset_refs authenticate_refs session_refs bootstrap_admin_def verify_csrf_def case_prod_beta)
  moreover have "auth_ok (sa_db (auth_step cx op s))"
    using auth_ok_grows(1) [OF _ auth_step_grows] t by (simp add: auth_typed_def)
  ultimately show ?thesis by (simp add: auth_typed_def)
qed

interpretation auth: preserved "auth_step cx" "\<lambda>s. auth_typed (sa_db s)"
  by unfold_locales (rule auth_step_typed)

lemma authenticate_typed:
  assumes t: "auth_typed db" and role: "dget ROLE_LEVEL role \<noteq> None" and e: "snd (authenticate cx idle tok role now db) = Inl e"
  shows "\<exists>m. e = PermissionError m"
proof -
  have known: False if "dget (au_users db) uid = Some u" "dget ROLE_LEVEL (us_role u) = None" for uid u
    using all_rows_dget [OF that(1)] that(2) t unfolding auth_typed_def refs_ok_def users_typed_def by blast
  from e role show ?thesis by (auto simp: authenticate_def Let_def split: option.splits prod.splits if_splits dest: known)
qed

text \<open>C30: whatever operations run, keys, unique columns and foreign keys of the tables hold and every role is a known one; so checking a
  session for a known role either succeeds or refuses access, and never raises a lookup error.
\<close>

theorem auth_tables_well_typed:
  assumes "auth_typed (sa_db s)" "dget ROLE_LEVEL role \<noteq> None"
  shows "auth_typed (sa_db (fold (auth_step cx) ops s)) \<and>
    (\<forall>e. snd (authenticate cx idle tok role now (sa_db (fold (auth_step cx) ops s))) = Inl e \<longrightarrow> (\<exists>m. e = PermissionError m))"
  using auth.run_I [OF assms(1)] authenticate_typed [OF auth.run_I [OF assms(1)] assms(2)] by blast

section \<open>One-time passwords have six digits\<close>

lemma nat_digits_length: "n < 10 ^ k \<Longrightarrow> 0 < k \<Longrightarrow> length (nat_digits n) \<le> k"
proof (induction n arbitrary: k rule: nat_digits.induct)
  case (1 n)
  show ?case
  proof (cases "n < 10")
    case True
    then show ?thesis using 1 by (simp add: nat_digits.simps [of n])
  next
    case False
    with "1.prems" obtain j where j: "k = Suc j" "0 < j" by (cases k) (auto, cases "k - 1", auto)
    then have "n div 10 < 10 ^ j" using "1.prems" by (simp add: less_mult_imp_div_less mult.commute)
    with False "1.IH" [of j] j show ?thesis by (simp add: nat_digits.simps [of n])
  qed
qed

text \<open>With a 20-byte HMAC, as SHA-1 gives, the dynamic truncation never reads outside the digest, and for every instant from 1970 on whose
  counter fits 64 bits the one-time password exists and has exactly six characters.
\<close>

theorem totp_six_digits:
  assumes "\<And>k c. length (cx_hmac_sha1 cx k c) = 20" "decode_secret cx secret = Inr key" "0 \<le> t" "t < 30 * 2 ^ 64"
  shows "\<exists>code. totp cx secret t = Inr code \<and> length code = 6"
proof -
  let ?d = "cx_hmac_sha1 cx key (word_of_int (t div 30))"
  have d: "length ?d = 20" "?d \<noteq> []" using assms(1) [of key] by (auto simp flip: length_greater_0_conv)
  have "last ?d AND 15 \<le> 15" by (rule word_and_le1)
  then have "unat (last ?d AND 15) \<le> 15" by (simp add: word_le_nat_alt)
  then have l: "length (take 4 (drop (unat (last ?d AND 15)) ?d)) = 4" using d(1) by simp
  have c: "\<not> (t div 30 < 0 \<or> 2 ^ 64 \<le> t div 30)" using assms(3,4) by auto
  have z: "length (zfill 6 (nat_digits (n mod 10 ^ 6))) = 6" for n
    using nat_digits_length [of "n mod 10 ^ 6" 6] by (simp add: zfill_def)
  show ?thesis using c d l z by (simp add: totp_def assms(2) Let_def del: power_numeral)
qed

section \<open>Witnesses\<close>

definition demo_crypto :: Crypto where
  "demo_crypto = \<lparr>cx_sha = (\<lambda>x. x), cx_hash = (\<lambda>salt pw. pw), cx_verify = (\<lambda>h pw. h = pw), cx_needs_rehash = (\<lambda>h. False),
     cx_encrypt = (\<lambda>nonce x. x), cx_decrypt = Some, cx_b32decode = (\<lambda>x. Some []), cx_hmac_sha1 = (\<lambda>k c. replicate 20 0)\<rparr>"

definition demo_session :: SessionRow where
  "demo_session = \<lparr>se_user_id = ''u1'', se_token_hash = ''tok'', se_csrf_hash = ''csrf'', se_expires_at = 3600000000, se_last_seen_at = 0, se_revoked_at = None\<rparr>"

definition demo_auth :: "(string, SessionRow) dict \<Rightarrow> DatabaseAuthService" where
  "demo_auth sessions =
     \<lparr>sa_db = \<lparr>au_users = [(''u1'', \<lparr>us_username = ''ann'', us_password_hash = ''pw'', us_role = ''trader'', us_mfa_enabled = False, us_mfa_secret = None\<rparr>)],
        au_sessions = sessions, au_codes = [], au_resets = [], au_events = []\<rparr>,
      sa_ttl = 3600, sa_inactivity_timeout = 900, sa_throttle = \<lparr>lt_max_attempts = 5, lt_window_seconds = 300, lt_attempts = []\<rparr>\<rparr>"

definition demo_login :: LoginInputs where
  "demo_login = \<lparr>li_check_clock = 0, li_fail_clock = 0, li_totp_clock = 0, li_now = 0, li_salt = ''s'', li_session_id = ''k'', li_raw = ''tok'', li_csrf = ''csrf''\<rparr>"

text \<open>The same account with MFA enabled and one recovery code.\<close>

definition demo_mfa_auth :: DatabaseAuthService where
  "demo_mfa_auth = on_db (\<lambda>db. db\<lparr>
     au_users := [(''u1'', \<lparr>us_username = ''ann'', us_password_hash = ''pw'', us_role = ''trader'', us_mfa_enabled = True, us_mfa_secret = Some ''sec''\<rparr>)],
     au_codes := [(''c1'', \<lparr>rc_user_id = ''u1'', rc_code_hash = ''t'', rc_used_at = None\<rparr>)]\<rparr>) (demo_auth [])"

lemma demo_mfa_ok: "auth_ok (sa_db demo_mfa_auth)"
  by (simp add: auth_ok_def demo_mfa_auth_def on_db_def demo_auth_def unique_col_def wf_dict_def)

lemma demo_typed: "auth_typed (sa_db (demo_auth []))" "auth_typed (sa_db (demo_auth [(''k'', demo_session)]))"
  by (simp_all add: auth_typed_def auth_ok_def refs_ok_def demo_auth_def demo_session_def unique_col_def wf_dict_def users_typed_def refers_def
      all_rows_def ROLE_LEVEL_def)

lemma demo_ok: "auth_ok (sa_db (demo_auth []))" "auth_ok (sa_db (demo_auth [(''k'', demo_session)]))"
  using demo_typed by (simp_all add: auth_typed_def)

theorem revocation_is_final_witness:
  "snd (authenticate demo_crypto 900 ''tok'' ''viewer'' 7
     (sa_db (fold (auth_step demo_crypto) [RotateCsrf ''x'' ''tok'', Login demo_login ''ann'' ''pw'' None None]
       (auth_step demo_crypto (Revoke ''tok'' 5) (demo_auth [(''k'', demo_session)]))))) = Inl (PermissionError ''invalid session'')"
  by (rule revocation_is_final [OF demo_ok(2), where k = "''k''" and r = demo_session])
    (simp_all add: demo_auth_def demo_session_def demo_crypto_def)

text \<open>A login of an account with MFA enabled, with a recovery code as the second factor.\<close>

theorem access_needs_credentials_witness:
  "\<exists>ctx. snd (authenticate demo_crypto 900 ''tok'' ''viewer'' 7
       (sa_db (fold (auth_step demo_crypto) [Login demo_login ''ann'' ''pw'' None (Some ''t'')] demo_mfa_auth))) = Inr ctx \<and>
     ac_role ctx = ''trader'' \<and> credentials_ok demo_crypto demo_login ''ann'' ''pw'' None (Some ''t'') demo_mfa_auth (ac_user_id ctx)"
proof -
  let ?ops = "[Login demo_login ''ann'' ''pw'' None (Some ''t'')]"
  let ?r = "snd (authenticate demo_crypto 900 ''tok'' ''viewer'' 7 (sa_db (fold (auth_step demo_crypto) ?ops demo_mfa_auth)))"
  have "map_sum id ac_role ?r = Inr ''trader''" by code_simp
  then obtain ctx where c: "?r = Inr ctx" "ac_role ctx = ''trader''" by (cases ?r) auto
  have "au_sessions (sa_db demo_mfa_auth) = []" by (simp add: demo_mfa_auth_def on_db_def demo_auth_def)
  from access_needs_credentials [OF demo_mfa_ok this c(1)] obtain pre inp name pw mfa rc post where
    "?ops = pre @ Login inp name pw mfa rc # post" "credentials_ok demo_crypto inp name pw mfa rc (fold (auth_step demo_crypto) pre demo_mfa_auth) (ac_user_id ctx)" by blast
  then have "credentials_ok demo_crypto demo_login ''ann'' ''pw'' None (Some ''t'') demo_mfa_auth (ac_user_id ctx)" by (cases pre) auto
  with c show ?thesis by blast
qed

theorem auth_tables_well_typed_witness:
  "auth_typed (sa_db (fold (auth_step demo_crypto) [Login demo_login ''ann'' ''pw'' None None, Revoke ''tok'' 5] (demo_auth [])))"
  using auth_tables_well_typed [OF demo_typed(1), of "''admin''" demo_crypto "[Login demo_login ''ann'' ''pw'' None None, Revoke ''tok'' 5]"]
  by (simp add: ROLE_LEVEL_def)

theorem totp_six_digits_witness: "\<exists>code. totp demo_crypto ''secret'' 1000000000 = Inr code \<and> length code = 6"
  by (rule totp_six_digits) (simp_all add: demo_crypto_def decode_secret_def)

end
