(* ===== verification/Tokens.thy ===== *)
theory Tokens
  imports Access_Control
begin

text \<open>
  Tokens that may be used once: confirmations (\<open>backend/app/core/security.py\<close>), recovery grants (\<open>auth/recovery_policy.py\<close>), the inbound
  command policy with its LIVE confirmations (\<open>monitoring/telegram_security.py\<close>), and the password resets and recovery codes of
  \<open>Access_Control\<close>; the in-memory sessions (\<open>auth/service.py\<close>) and the password policy (\<open>auth/password_policy.py\<close>).
  One contract, the locale \<open>one_time\<close>, covers all of them. Hash functions, clocks and random values are arguments.
\<close>

section \<open>The contract of one-time tokens\<close>

text \<open>
  \<open>hits step hit t ops s\<close> counts the operations of a run that successfully consume the token \<open>t\<close>;
  \<open>run_ok good step ops s\<close> says that every operation is good in the state it meets.
\<close>

fun hits :: "('op \<Rightarrow> 's \<Rightarrow> 's) \<Rightarrow> ('t \<Rightarrow> 'op \<Rightarrow> 's \<Rightarrow> bool) \<Rightarrow> 't \<Rightarrow> 'op list \<Rightarrow> 's \<Rightarrow> nat" where
  "hits step hit t [] s = 0"
| "hits step hit t (op # ops) s = (if hit t op s then 1 else 0) + hits step hit t ops (step op s)"

fun run_ok :: "('op \<Rightarrow> 's \<Rightarrow> bool) \<Rightarrow> ('op \<Rightarrow> 's \<Rightarrow> 's) \<Rightarrow> 'op list \<Rightarrow> 's \<Rightarrow> bool" where
  "run_ok good step [] s = True"
| "run_ok good step (op # ops) s = (good op s \<and> run_ok good step ops (step op s))"

locale one_time =
  fixes step :: "'op \<Rightarrow> 's \<Rightarrow> 's" and hit :: "'t \<Rightarrow> 'op \<Rightarrow> 's \<Rightarrow> bool" and spent :: "'t \<Rightarrow> 's \<Rightarrow> bool"
    and good :: "'op \<Rightarrow> 's \<Rightarrow> bool" and I :: "'s \<Rightarrow> bool"
  assumes hit_unspent: "I s \<Longrightarrow> hit t op s \<Longrightarrow> \<not> spent t s"
    and hit_spends: "I s \<Longrightarrow> good op s \<Longrightarrow> hit t op s \<Longrightarrow> spent t (step op s)"
    and stays_spent: "I s \<Longrightarrow> good op s \<Longrightarrow> spent t s \<Longrightarrow> spent t (step op s)"
    and keeps: "I s \<Longrightarrow> good op s \<Longrightarrow> I (step op s)"
begin

lemma spent_no_hits: "I s \<Longrightarrow> run_ok good step ops s \<Longrightarrow> spent t s \<Longrightarrow> hits step hit t ops s = 0"
  by (induction ops arbitrary: s) (auto simp: keeps stays_spent dest: hit_unspent)

lemma at_most_once: "I s \<Longrightarrow> run_ok good step ops s \<Longrightarrow> hits step hit t ops s \<le> 1"
  by (induction ops arbitrary: s) (auto simp: keeps hit_spends spent_no_hits)

end

section \<open>Confirmations\<close>

record Confirmation =
  cf_nonce_hash :: string
  cf_action :: string
  cf_expires_at :: rat
  cf_used :: bool

type_synonym ConfirmationStore = "(string, Confirmation) dict"

definition cs_issue :: "(string \<Rightarrow> string) \<Rightarrow> string \<Rightarrow> string \<Rightarrow> int \<Rightarrow> rat \<Rightarrow> ConfirmationStore \<Rightarrow> ConfirmationStore \<times> string" where
  "cs_issue sha raw action ttl_seconds now items =
     (dset (sha raw) \<lparr>cf_nonce_hash = sha raw, cf_action = action, cf_expires_at = flt (now + of_int ttl_seconds), cf_used = False\<rparr> items, raw)"

definition cs_consume :: "(string \<Rightarrow> string) \<Rightarrow> string \<Rightarrow> string \<Rightarrow> rat \<Rightarrow> ConfirmationStore \<Rightarrow> ConfirmationStore \<times> bool" where
  "cs_consume sha raw action now items =
     (case dget items (sha raw) of
        None \<Rightarrow> (items, False)
      | Some item \<Rightarrow>
        if cf_used item \<or> cf_action item \<noteq> action \<or> cf_expires_at item < now then (items, False)
        else (dset (sha raw) (item\<lparr>cf_used := True\<rparr>) items, True))"

datatype confirmation_op = IssueConfirmation string string int rat | ConsumeConfirmation string string rat

fun cs_step :: "(string \<Rightarrow> string) \<Rightarrow> confirmation_op \<Rightarrow> ConfirmationStore \<Rightarrow> ConfirmationStore" where
  "cs_step sha (IssueConfirmation raw action ttl now) items = fst (cs_issue sha raw action ttl now items)"
| "cs_step sha (ConsumeConfirmation raw action now) items = fst (cs_consume sha raw action now items)"

fun cs_hit :: "(string \<Rightarrow> string) \<Rightarrow> string \<Rightarrow> confirmation_op \<Rightarrow> ConfirmationStore \<Rightarrow> bool" where
  "cs_hit sha h (IssueConfirmation raw action ttl now) items = False"
| "cs_hit sha h (ConsumeConfirmation raw action now) items = (sha raw = h \<and> snd (cs_consume sha raw action now items))"

text \<open>A fresh random value has a hash that is not in the store yet.\<close>

fun cs_fresh :: "(string \<Rightarrow> string) \<Rightarrow> confirmation_op \<Rightarrow> ConfirmationStore \<Rightarrow> bool" where
  "cs_fresh sha (IssueConfirmation raw action ttl now) items = (dget items (sha raw) = None)"
| "cs_fresh sha (ConsumeConfirmation raw action now) items = True"

definition cs_spent :: "string \<Rightarrow> ConfirmationStore \<Rightarrow> bool" where
  "cs_spent h items \<longleftrightarrow> (\<exists>c. dget items h = Some c \<and> cf_used c)"

interpretation confirmations: one_time "cs_step sha" "cs_hit sha" cs_spent "cs_fresh sha" "\<lambda>_. True"
proof
  fix t op s
  show "cs_hit sha t op s \<Longrightarrow> \<not> cs_spent t s"
    by (cases op) (auto simp: cs_consume_def cs_spent_def split: option.splits if_splits)
  show "cs_hit sha t op s \<Longrightarrow> cs_spent t (cs_step sha op s)"
    by (cases op) (auto simp: cs_consume_def cs_spent_def split: option.splits if_splits)
  show "cs_fresh sha op s \<Longrightarrow> cs_spent t s \<Longrightarrow> cs_spent t (cs_step sha op s)"
    by (cases op) (auto simp: cs_issue_def cs_consume_def cs_spent_def split: option.splits if_splits)
qed simp_all

section \<open>Recovery grants\<close>

definition PRIVILEGED :: "string list" where
  "PRIVILEGED = [''admin'', ''trader'']"

record RecoveryPolicy =
  rp_require_mfa_for_privileged :: bool
  rp_require_admin_approval_for_admin_reset :: bool
  rp_token_ttl_seconds :: int
  rp_max_attempts :: int

record RecoveryGrant =
  gr_token_hash :: string
  gr_user_id :: string
  gr_role :: string
  gr_expires_at :: rat
  gr_attempts :: int
  gr_used :: bool
  gr_approved_by :: "string option"

definition grant_issue ::
  "RecoveryPolicy \<Rightarrow> (string \<Rightarrow> string) \<Rightarrow> string \<Rightarrow> string \<Rightarrow> string \<Rightarrow> bool \<Rightarrow> string option \<Rightarrow> rat \<Rightarrow> RecoveryGrant list \<Rightarrow> RecoveryGrant list \<times> string res" where
  "grant_issue pol sha raw user_id role0 mfa_verified approved_by now gs =
     (let role = lower role0 in
      if role \<in> set PRIVILEGED \<and> rp_require_mfa_for_privileged pol \<and> \<not> mfa_verified
      then (gs, Inl (PermissionError ''privileged recovery requires MFA evidence''))
      else if role = ''admin'' \<and> rp_require_admin_approval_for_admin_reset pol \<and> (approved_by = None \<or> approved_by = Some [])
      then (gs, Inl (PermissionError ''admin recovery requires independent approval''))
      else (gs @ [\<lparr>gr_token_hash = sha raw, gr_user_id = user_id, gr_role = role, gr_expires_at = flt (now + of_int (rp_token_ttl_seconds pol)),
                   gr_attempts = 0, gr_used = False, gr_approved_by = approved_by\<rparr>], Inr raw))"

text \<open>The loop over all grants keeps the last one whose hash matches.\<close>

fun last_match :: "string \<Rightarrow> RecoveryGrant list \<Rightarrow> nat option" where
  "last_match h [] = None"
| "last_match h (g # gs) =
     (case last_match h gs of Some i \<Rightarrow> Some (Suc i) | None \<Rightarrow> if gr_token_hash g = h then Some 0 else None)"

definition grant_consume ::
  "RecoveryPolicy \<Rightarrow> (string \<Rightarrow> string) \<Rightarrow> string \<Rightarrow> string \<Rightarrow> rat \<Rightarrow> RecoveryGrant list \<Rightarrow> RecoveryGrant list \<times> RecoveryGrant res" where
  "grant_consume pol sha raw user_id now gs =
     (case last_match (sha raw) gs of
        None \<Rightarrow> (gs, Inl (PermissionError ''invalid or expired recovery token''))
      | Some i \<Rightarrow>
        let g = gs ! i in
        if gr_user_id g \<noteq> user_id \<or> gr_used g \<or> gr_expires_at g \<le> now then (gs, Inl (PermissionError ''invalid or expired recovery token''))
        else if rp_max_attempts pol \<le> gr_attempts g then (gs, Inl (PermissionError ''recovery attempts exhausted''))
        else let g' = g\<lparr>gr_attempts := gr_attempts g + 1, gr_used := True\<rparr> in (gs[i := g'], Inr g'))"

datatype grant_op = IssueGrant string string string bool "string option" rat | ConsumeGrant string string rat

fun grant_step :: "RecoveryPolicy \<Rightarrow> (string \<Rightarrow> string) \<Rightarrow> grant_op \<Rightarrow> RecoveryGrant list \<Rightarrow> RecoveryGrant list" where
  "grant_step pol sha (IssueGrant raw uid role mfa appr now) gs = fst (grant_issue pol sha raw uid role mfa appr now gs)"
| "grant_step pol sha (ConsumeGrant raw uid now) gs = fst (grant_consume pol sha raw uid now gs)"

fun grant_hit :: "RecoveryPolicy \<Rightarrow> (string \<Rightarrow> string) \<Rightarrow> string \<Rightarrow> grant_op \<Rightarrow> RecoveryGrant list \<Rightarrow> bool" where
  "grant_hit pol sha h (IssueGrant raw uid role mfa appr now) gs = False"
| "grant_hit pol sha h (ConsumeGrant raw uid now) gs = (sha raw = h \<and> is_ok (snd (grant_consume pol sha raw uid now gs)))"

fun grant_fresh :: "(string \<Rightarrow> string) \<Rightarrow> grant_op \<Rightarrow> RecoveryGrant list \<Rightarrow> bool" where
  "grant_fresh sha (IssueGrant raw uid role mfa appr now) gs = (sha raw \<notin> gr_token_hash ` set gs)"
| "grant_fresh sha (ConsumeGrant raw uid now) gs = True"

definition grant_spent :: "string \<Rightarrow> RecoveryGrant list \<Rightarrow> bool" where
  "grant_spent h gs \<longleftrightarrow> (\<exists>i. last_match h gs = Some i \<and> gr_used (gs ! i))"

lemma last_match_Some: "last_match h gs = Some i \<Longrightarrow> i < length gs \<and> gr_token_hash (gs ! i) = h"
  by (induction gs arbitrary: i) (auto split: option.splits if_splits)

lemma last_match_None: "last_match h gs = None \<longleftrightarrow> h \<notin> gr_token_hash ` set gs"
  by (induction gs) (auto split: option.splits)

lemma last_match_update: "gr_token_hash g = gr_token_hash (gs ! i) \<Longrightarrow> last_match h (gs[i := g]) = last_match h gs"
  by (induction gs arbitrary: i) (auto split: option.splits nat.splits)

lemma last_match_snoc: "last_match h (gs @ [g]) = (if gr_token_hash g = h then Some (length gs) else last_match h gs)"
  by (induction gs) auto

lemma grant_consume_ok:
  assumes "grant_consume pol sha raw uid now gs = (gs', Inr g')"
  obtains i where "last_match (sha raw) gs = Some i" "\<not> gr_used (gs ! i)" "gs' = gs[i := (gs ! i)\<lparr>gr_attempts := gr_attempts (gs ! i) + 1, gr_used := True\<rparr>]"
    "gr_user_id (gs ! i) = uid" "now < gr_expires_at (gs ! i)"
  using assms by (auto simp: grant_consume_def Let_def split: option.splits if_splits)

lemma grant_consume_err: "snd (grant_consume pol sha raw uid now gs) = Inl e \<Longrightarrow> fst (grant_consume pol sha raw uid now gs) = gs"
  by (auto simp: grant_consume_def Let_def split: option.splits if_splits)

lemma grant_consume_spends:
  assumes "grant_consume pol sha raw uid now gs = (gs', Inr g')" shows "grant_spent (sha raw) gs'"
proof -
  obtain i where i: "last_match (sha raw) gs = Some i" "gs' = gs[i := (gs ! i)\<lparr>gr_attempts := gr_attempts (gs ! i) + 1, gr_used := True\<rparr>]"
    using assms by (rule grant_consume_ok)
  then show ?thesis using last_match_Some [OF i(1)] by (auto simp: grant_spent_def last_match_update)
qed

lemma grant_stays_spent: "grant_spent h gs \<Longrightarrow> grant_fresh sha op gs \<Longrightarrow> grant_spent h (grant_step pol sha op gs)"
proof (cases op)
  case (IssueGrant raw uid role mfa appr now)
  assume s: "grant_spent h gs" "grant_fresh sha op gs"
  from s(1) obtain j where j: "last_match h gs = Some j" "gr_used (gs ! j)" by (auto simp: grant_spent_def)
  note l = last_match_Some [OF j(1)]
  then have "h \<in> gr_token_hash ` set gs" by (metis image_eqI nth_mem)
  then have "sha raw \<noteq> h" using s(2) IssueGrant by auto
  then show ?thesis using j l IssueGrant by (auto simp: grant_issue_def grant_spent_def last_match_snoc nth_append Let_def)
next
  case (ConsumeGrant raw uid now)
  assume s: "grant_spent h gs"
  show ?thesis
  proof (cases "snd (grant_consume pol sha raw uid now gs)")
    case (Inr g')
    then have "grant_consume pol sha raw uid now gs = (fst (grant_consume pol sha raw uid now gs), Inr g')" by (simp add: prod_eq_iff)
    then obtain i where i: "last_match (sha raw) gs = Some i"
      "fst (grant_consume pol sha raw uid now gs) = gs[i := (gs ! i)\<lparr>gr_attempts := gr_attempts (gs ! i) + 1, gr_used := True\<rparr>]"
      by (rule grant_consume_ok)
    from s obtain j where j: "last_match h gs = Some j" "gr_used (gs ! j)" by (auto simp: grant_spent_def)
    have "last_match h (grant_step pol sha op gs) = Some j" "gr_used (grant_step pol sha op gs ! j)"
      using i(2) j last_match_Some [OF j(1)] ConsumeGrant by (cases "i = j"; auto simp: last_match_update)+
    then show ?thesis by (auto simp: grant_spent_def)
  qed (use s ConsumeGrant grant_consume_err in auto)
qed

interpretation grants: one_time "grant_step pol sha" "grant_hit pol sha" grant_spent "grant_fresh sha" "\<lambda>_. True"
proof
  fix t op s
  show "grant_hit pol sha t op s \<Longrightarrow> \<not> grant_spent t s"
    by (cases op) (auto simp: grant_consume_def grant_spent_def Let_def split: option.splits if_splits)
  show "grant_hit pol sha t op s \<Longrightarrow> grant_spent t (grant_step pol sha op s)"
    by (cases op) (auto simp: is_ok_iff prod_eq_iff intro: grant_consume_spends)
  show "grant_fresh sha op s \<Longrightarrow> grant_spent t s \<Longrightarrow> grant_spent t (grant_step pol sha op s)"
    by (rule grant_stays_spent)
qed simp_all

section \<open>LIVE confirmations by chat\<close>

record TelegramCommandContext =
  tc_chat_id :: string
  tc_user_id :: string
  tc_command :: string
  tc_now_epoch :: int

record LiveConfirmation =
  lc_nonce :: string
  lc_chat_id :: string
  lc_user_id :: string
  lc_symbol :: string
  lc_side :: string
  lc_max_notional :: string
  lc_mode :: string
  lc_expires_at_epoch :: int
  lc_digest :: string

record TelegramCommandSecurity =
  ts_allowed_chats :: "string list"
  ts_allowed_users :: "string list"
  ts_key :: string
  ts_state_enabled :: bool
  ts_ttl :: int
  ts_issued :: "(string, LiveConfirmation) dict"
  ts_consumed :: "string list"

definition new_telegram_security :: "string list \<Rightarrow> string list \<Rightarrow> string \<Rightarrow> bool \<Rightarrow> int \<Rightarrow> TelegramCommandSecurity res" where
  "new_telegram_security chats users signing_key enabled ttl =
     (if length signing_key < 16 then Inl (ValueError ''telegram signing key must be at least 16 bytes'')
      else if ttl \<le> 0 \<or> 600 < ttl then Inl (ValueError ''live nonce ttl must be within 1..600 seconds'')
      else Inr \<lparr>ts_allowed_chats = chats, ts_allowed_users = users, ts_key = signing_key, ts_state_enabled = enabled, ts_ttl = ttl,
                ts_issued = [], ts_consumed = []\<rparr>)"

definition summary :: "LiveConfirmation \<Rightarrow> string" where
  "summary c = lc_symbol c @ '' '' @ lc_side c @ '' max_notional='' @ lc_max_notional c @ '' mode='' @ lc_mode c"

definition authorize :: "TelegramCommandContext \<Rightarrow> bool \<Rightarrow> TelegramCommandSecurity \<Rightarrow> unit res" where
  "authorize ctx state_changing s =
     (if tc_chat_id ctx \<notin> set (ts_allowed_chats s) then Inl (RuntimeError ''TELEGRAM_CHAT_NOT_ALLOWED'')
      else if tc_user_id ctx \<notin> set (ts_allowed_users s) then Inl (RuntimeError ''TELEGRAM_USER_NOT_ALLOWED'')
      else if state_changing \<and> \<not> ts_state_enabled s then Inl (RuntimeError ''TELEGRAM_STATE_CHANGING_COMMANDS_DISABLED'')
      else Inr ())"

definition material :: "LiveConfirmation \<Rightarrow> string" where
  "material c = join ''|'' [lc_nonce c, lc_chat_id c, lc_user_id c, lc_symbol c, lc_side c, lc_max_notional c, ''LIVE'', int_str (lc_expires_at_epoch c)]"

definition issue_live_confirmation ::
  "(string \<Rightarrow> string \<Rightarrow> string) \<Rightarrow> string \<Rightarrow> TelegramCommandContext \<Rightarrow> string \<Rightarrow> string \<Rightarrow> string \<Rightarrow> string \<Rightarrow> TelegramCommandSecurity \<Rightarrow>
   TelegramCommandSecurity \<times> LiveConfirmation res" where
  "issue_live_confirmation hmac nonce ctx symbol side max_notional mode s =
     (case authorize ctx True s of
        Inl e \<Rightarrow> (s, Inl e)
      | Inr _ \<Rightarrow>
        if upper mode \<noteq> ''LIVE'' then (s, Inl (RuntimeError ''LIVE_CONFIRMATION_REQUIRES_LIVE_MODE''))
        else let normalized_side = upper side in
        if normalized_side \<notin> {''BUY'', ''SELL''} then (s, Inl (RuntimeError ''INVALID_SIDE''))
        else if nonce = [] \<or> dget (ts_issued s) nonce \<noteq> None \<or> nonce \<in> set (ts_consumed s) then (s, Inl (RuntimeError ''NONCE_COLLISION''))
        else let c0 = \<lparr>lc_nonce = nonce, lc_chat_id = tc_chat_id ctx, lc_user_id = tc_user_id ctx, lc_symbol = upper symbol, lc_side = normalized_side,
                       lc_max_notional = max_notional, lc_mode = ''LIVE'', lc_expires_at_epoch = tc_now_epoch ctx + ts_ttl s, lc_digest = []\<rparr>;
                 c = c0\<lparr>lc_digest := hmac (ts_key s) (material c0)\<rparr>
             in (s\<lparr>ts_issued := dset nonce c (ts_issued s)\<rparr>, Inr c))"

definition consume_live_confirmation ::
  "TelegramCommandContext \<Rightarrow> string \<Rightarrow> string \<Rightarrow> TelegramCommandSecurity \<Rightarrow> TelegramCommandSecurity \<times> LiveConfirmation res" where
  "consume_live_confirmation ctx nonce digest s =
     (case authorize ctx True s of
        Inl e \<Rightarrow> (s, Inl e)
      | Inr _ \<Rightarrow>
        if nonce \<in> set (ts_consumed s) then (s, Inl (RuntimeError ''LIVE_CONFIRMATION_REPLAY''))
        else case dget (ts_issued s) nonce of
          None \<Rightarrow> (s, Inl (RuntimeError ''LIVE_CONFIRMATION_UNKNOWN''))
        | Some c \<Rightarrow>
          if lc_chat_id c \<noteq> tc_chat_id ctx \<or> lc_user_id c \<noteq> tc_user_id ctx then (s, Inl (RuntimeError ''LIVE_CONFIRMATION_PRINCIPAL_MISMATCH''))
          else if lc_expires_at_epoch c < tc_now_epoch ctx
          then (s\<lparr>ts_issued := ddel nonce (ts_issued s)\<rparr>, Inl (RuntimeError ''LIVE_CONFIRMATION_EXPIRED''))
          else if lc_digest c \<noteq> digest then (s, Inl (RuntimeError ''LIVE_CONFIRMATION_DIGEST_INVALID''))
          else (s\<lparr>ts_issued := ddel nonce (ts_issued s), ts_consumed := nonce # ts_consumed s\<rparr>, Inr c))"

datatype telegram_op = IssueLive string TelegramCommandContext string string string string | ConsumeLive TelegramCommandContext string string

fun telegram_step :: "(string \<Rightarrow> string \<Rightarrow> string) \<Rightarrow> telegram_op \<Rightarrow> TelegramCommandSecurity \<Rightarrow> TelegramCommandSecurity" where
  "telegram_step hmac (IssueLive nonce ctx sy sd mx mode) s = fst (issue_live_confirmation hmac nonce ctx sy sd mx mode s)"
| "telegram_step hmac (ConsumeLive ctx nonce digest) s = fst (consume_live_confirmation ctx nonce digest s)"

fun telegram_hit :: "string \<Rightarrow> telegram_op \<Rightarrow> TelegramCommandSecurity \<Rightarrow> bool" where
  "telegram_hit t (IssueLive nonce ctx sy sd mx mode) s = False"
| "telegram_hit t (ConsumeLive ctx nonce digest) s = (nonce = t \<and> is_ok (snd (consume_live_confirmation ctx nonce digest s)))"

interpretation telegram: one_time "telegram_step hmac" telegram_hit "\<lambda>t s. t \<in> set (ts_consumed s)" "\<lambda>_ _. True" "\<lambda>_. True"
proof
  fix t op s
  show "telegram_hit t op s \<Longrightarrow> t \<notin> set (ts_consumed s)"
    by (cases op) (auto simp: consume_live_confirmation_def split: sum.splits if_splits)
  show "telegram_hit t op s \<Longrightarrow> t \<in> set (ts_consumed (telegram_step hmac op s))"
    by (cases op) (auto simp: consume_live_confirmation_def split: sum.splits if_splits option.splits)
  show "t \<in> set (ts_consumed s) \<Longrightarrow> t \<in> set (ts_consumed (telegram_step hmac op s))"
    by (cases op) (auto simp: consume_live_confirmation_def issue_live_confirmation_def Let_def split: sum.splits if_splits option.splits)
qed simp_all

section \<open>Password resets and recovery codes\<close>

fun reset_hit :: "Crypto \<Rightarrow> string \<Rightarrow> auth_op \<Rightarrow> DatabaseAuthService \<Rightarrow> bool" where
  "reset_hit cx h (ConsumeReset salt raw pw now) s = (cx_sha cx raw = h \<and> is_ok (snd (consume_password_reset cx salt raw pw now (sa_db s))))"
| "reset_hit cx h op s = False"

definition reset_spent :: "string \<Rightarrow> DatabaseAuthService \<Rightarrow> bool" where
  "reset_spent h s \<longleftrightarrow> (\<exists>k row. dget (au_resets (sa_db s)) k = Some row \<and> pt_token_hash row = h \<and> pt_used_at row \<noteq> None)"

text \<open>A login of an account with MFA enabled that succeeds with a recovery code of hash \<open>h\<close> and without a valid one-time password: none was given, the one given is wrong, or
  the account has no stored secret.\<close>

definition uses_code :: "Crypto \<Rightarrow> string \<Rightarrow> LoginInputs \<Rightarrow> string \<Rightarrow> string \<Rightarrow> string option \<Rightarrow> string option \<Rightarrow> DatabaseAuthService \<Rightarrow> bool" where
  "uses_code cx h inp name pw mfa rc s \<longleftrightarrow> map_option (cx_sha cx) rc = Some h \<and>
     (case snd (login cx inp name pw mfa rc s) of Inl e \<Rightarrow> False
      | Inr res \<Rightarrow> (case dget (au_users (sa_db s)) (lr_user_id res) of None \<Rightarrow> False
                   | Some u \<Rightarrow> us_mfa_enabled u \<and> totp_factor cx inp u mfa \<noteq> Inr True))"

fun code_hit :: "Crypto \<Rightarrow> string \<Rightarrow> auth_op \<Rightarrow> DatabaseAuthService \<Rightarrow> bool" where
  "code_hit cx h (Login inp name pw mfa rc) s = uses_code cx h inp name pw mfa rc s"
| "code_hit cx h op s = False"

definition code_spent :: "string \<Rightarrow> DatabaseAuthService \<Rightarrow> bool" where
  "code_spent h s \<longleftrightarrow> (\<exists>k row. dget (au_codes (sa_db s)) k = Some row \<and> rc_code_hash row = h \<and> rc_used_at row \<noteq> None)"

lemma reset_hit_row:
  assumes ok: "auth_ok (sa_db s)" and hit: "reset_hit cx h op s"
  shows "\<exists>k row. dget (au_resets (sa_db s)) k = Some row \<and> pt_token_hash row = h \<and> pt_used_at row = None \<and> reset_spent h (auth_step cx op s)"
proof (cases op)
  case (ConsumeReset salt raw pw now)
  let ?P = "\<lambda>p. pt_token_hash p = cx_sha cx raw \<and> pt_used_at p = None"
  have h: "cx_sha cx raw = h" using hit ConsumeReset by simp
  obtain uid where c: "snd (consume_password_reset cx salt raw pw now (sa_db s)) = Inr uid" using hit ConsumeReset by (auto simp: is_ok_iff)
  obtain k row where sel: "select_row ?P (au_resets (sa_db s)) = Some (k, row)" using c by (auto simp: consume_password_reset_def split: option.splits)
  have row: "?P row" "dget (au_resets (sa_db s)) k = Some row"
    using select_row_unique [OF _ sel, of pt_token_hash] ok by (auto simp: auth_ok_def)
  have "dget (au_resets (fst (consume_password_reset cx salt raw pw now (sa_db s)))) k = Some (row\<lparr>pt_used_at := Some now\<rparr>)"
    using c sel by (auto simp: consume_password_reset_def split: option.splits sum.splits if_splits)
  then have "reset_spent h (auth_step cx op s)" using row(1) h ConsumeReset unfolding reset_spent_def
    by (intro exI [of _ k] exI [of _ "row\<lparr>pt_used_at := Some now\<rparr>"]) (simp add: auth_step_def)
  with row h show ?thesis by blast
qed (use hit in simp_all)

lemma code_hit_row:
  assumes ok: "auth_ok (sa_db s)" and hit: "code_hit cx h op s"
  shows "\<exists>k row. dget (au_codes (sa_db s)) k = Some row \<and> rc_code_hash row = h \<and> rc_used_at row = None \<and> code_spent h (auth_step cx op s)"
proof (cases op)
  case (Login inp name pw mfa rc)
  obtain c res v where rc: "rc = Some c" "cx_sha cx c = h" "snd (login cx inp name pw mfa rc s) = Inr res"
      and v: "dget (au_users (sa_db s)) (lr_user_id res) = Some v" "us_mfa_enabled v" "totp_factor cx inp v mfa \<noteq> Inr True"
    using hit Login by (auto simp: uses_code_def split: sum.splits option.splits)
  obtain db' n where cc: "check_credentials cx inp (sa_ttl s) name pw mfa rc (sa_db s) = (db', n, Inr res)"
      and db': "sa_db (fst (login cx inp name pw mfa rc s)) = db'"
    using rc(3) by (auto simp: login_def throttle_check_def Let_def split: prod.splits sum.splits if_splits)
  from cc show ?thesis
  proof (cases rule: check_credentials_cases)
    case (opened uid u u1 db1 r)
    let ?P = "\<lambda>w. rc_user_id w = uid \<and> rc_code_hash w = cx_sha cx c \<and> rc_used_at w = None"
    have "dget (au_users (sa_db s)) uid = Some u" using select_row_unique [OF _ opened(1), of us_username] ok by (auto simp: auth_ok_def)
    moreover have "lr_user_id res = uid" using open_session_ok [OF opened(5)] opened(6) by simp
    moreover have up: "totp_factor cx inp u1 mfa = totp_factor cx inp u mfa"
    proof -
      have "stored_secret cx u1 = stored_secret cx u" using upgrade_hash_le [OF opened(3)] by (simp add: stored_secret_def)
      then show ?thesis unfolding totp_factor_def by (simp only:)
    qed
    ultimately have m: "us_mfa_enabled u1" and no_totp: "totp_factor cx inp u1 mfa \<noteq> Inr True"
      using v up upgrade_hash_le [OF opened(3)] by simp_all
    then obtain codes spent where sf: "second_factor cx inp uid u1 mfa rc (au_codes (sa_db s)) = Inr (codes, True, spent)"
        and db1: "au_codes db1 = codes" using opened(4) by (auto simp: mfa_tables_def split: if_splits)
    from second_factor_cases [OF sf] rc(1) no_totp obtain k row where sel: "select_row ?P (au_codes (sa_db s)) = Some (k, row)"
        and codes: "codes = dset k (row\<lparr>rc_used_at := Some (li_now inp)\<rparr>) (au_codes (sa_db s))" by auto
    have row: "?P row" "dget (au_codes (sa_db s)) k = Some row"
      using select_row_unique [OF _ sel, of rc_code_hash] ok by (auto simp: auth_ok_def)
    have "au_codes db' = codes" using opened(5) db1 by (auto simp: open_session_def split: sum.splits)
    then have "code_spent h (auth_step cx op s)" using codes db' Login rc(2) row(1) unfolding code_spent_def
      by (intro exI [of _ k] exI [of _ "row\<lparr>rc_used_at := Some (li_now inp)\<rparr>"]) (simp add: auth_step_def)
    with row rc(2) show ?thesis by blast
  qed auto
qed (use hit in simp_all)

interpretation resets: one_time "auth_step cx" "reset_hit cx" reset_spent "\<lambda>_ _. True" "\<lambda>s. auth_ok (sa_db s)"
proof
  fix t op and s :: DatabaseAuthService assume ok: "auth_ok (sa_db s)"
  note g = auth_ok_grows [OF ok auth_step_grows [of s cx op]]
  show "reset_hit cx t op s \<Longrightarrow> \<not> reset_spent t s"
    using reset_hit_row [OF ok, of cx t op] ok unfolding reset_spent_def auth_ok_def unique_col_def by (metis option.inject)
  show "reset_hit cx t op s \<Longrightarrow> reset_spent t (auth_step cx op s)" using reset_hit_row [OF ok] by blast
  show "reset_spent t s \<Longrightarrow> reset_spent t (auth_step cx op s)"
  proof -
    assume "reset_spent t s"
    then obtain k row where r: "dget (au_resets (sa_db s)) k = Some row" "pt_token_hash row = t" "pt_used_at row \<noteq> None" unfolding reset_spent_def by blast
    from g(5) r(1) obtain row' where "dget (au_resets (sa_db (auth_step cx op s))) k = Some row'" "reset_le row row'" unfolding evolves_def by blast
    with r show ?thesis unfolding reset_spent_def reset_le_def by (intro exI [of _ k] exI [of _ row']) simp
  qed
  show "auth_ok (sa_db (auth_step cx op s))" by (rule g(1))
qed

interpretation codes: one_time "auth_step cx" "code_hit cx" code_spent "\<lambda>_ _. True" "\<lambda>s. auth_ok (sa_db s)"
proof
  fix t op and s :: DatabaseAuthService assume ok: "auth_ok (sa_db s)"
  note g = auth_ok_grows [OF ok auth_step_grows [of s cx op]]
  show "code_hit cx t op s \<Longrightarrow> \<not> code_spent t s"
    using code_hit_row [OF ok, of cx t op] ok unfolding code_spent_def auth_ok_def unique_col_def by (metis option.inject)
  show "code_hit cx t op s \<Longrightarrow> code_spent t (auth_step cx op s)" using code_hit_row [OF ok] by blast
  show "code_spent t s \<Longrightarrow> code_spent t (auth_step cx op s)"
  proof -
    assume "code_spent t s"
    then obtain k row where r: "dget (au_codes (sa_db s)) k = Some row" "rc_code_hash row = t" "rc_used_at row \<noteq> None" unfolding code_spent_def by blast
    from g(4) r(1) obtain row' where "dget (au_codes (sa_db (auth_step cx op s))) k = Some row'" "code_le row row'" unfolding evolves_def by blast
    with r show ?thesis unfolding code_spent_def code_le_def by (intro exI [of _ k] exI [of _ row']) simp
  qed
  show "auth_ok (sa_db (auth_step cx op s))" by (rule g(1))
qed

lemma run_ok_True [simp]: "run_ok (\<lambda>_ _. True) step ops s"
  by (induction ops arbitrary: s) simp_all

text \<open>C29: no token works twice. However confirmations, recovery grants, LIVE confirmations, password resets and recovery codes are issued and
  presented, in whatever order and interleaving, at most one presentation of each token succeeds; for a recovery code that is a login which no valid one-time
  password supports, also when a wrong one is given with it. For confirmations and recovery grants, whose
  stores do not check it themselves, a newly issued random value must hash to a value not yet in the store; the database of the accounts starts with its keys unique.
\<close>

theorem tokens_used_once:
  "(run_ok (cs_fresh sha) (cs_step sha) cops cs \<longrightarrow> hits (cs_step sha) (cs_hit sha) t cops cs \<le> 1) \<and>
   (run_ok (grant_fresh sha) (grant_step pol sha) gops gs \<longrightarrow> hits (grant_step pol sha) (grant_hit pol sha) t gops gs \<le> 1) \<and>
   hits (telegram_step hmac) telegram_hit t tops ts \<le> 1 \<and>
   (auth_ok (sa_db s) \<longrightarrow> hits (auth_step cx) (reset_hit cx) t aops s \<le> 1 \<and> hits (auth_step cx) (code_hit cx) t aops s \<le> 1)"
  using confirmations.at_most_once [of sha cops cs t] grants.at_most_once [of sha pol gops gs t]
    telegram.at_most_once [of hmac tops ts t] resets.at_most_once [of s cx aops t] codes.at_most_once [of s cx aops t] by simp

section \<open>A LIVE confirmation binds its order\<close>

lemma telegram_frame [simp]:
  "ts_allowed_chats (telegram_step hmac op s) = ts_allowed_chats s" "ts_allowed_users (telegram_step hmac op s) = ts_allowed_users s"
  "ts_key (telegram_step hmac op s) = ts_key s" "ts_state_enabled (telegram_step hmac op s) = ts_state_enabled s" "ts_ttl (telegram_step hmac op s) = ts_ttl s"
  by (cases op; auto simp: issue_live_confirmation_def consume_live_confirmation_def Let_def split: sum.splits option.splits)+

lemma telegram_run_frame [simp]:
  "ts_allowed_chats (fold (telegram_step hmac) ops s) = ts_allowed_chats s" "ts_allowed_users (fold (telegram_step hmac) ops s) = ts_allowed_users s"
  "ts_key (fold (telegram_step hmac) ops s) = ts_key s" "ts_state_enabled (fold (telegram_step hmac) ops s) = ts_state_enabled s"
  "ts_ttl (fold (telegram_step hmac) ops s) = ts_ttl s"
  by (induction ops arbitrary: s) simp_all

lemma material_digest [simp]: "material (c\<lparr>lc_digest := d\<rparr>) = material c"
  by (simp add: material_def)

text \<open>What an issued confirmation records of the call that issued it.\<close>

definition records :: "(string \<Rightarrow> string \<Rightarrow> string) \<Rightarrow> TelegramCommandSecurity \<Rightarrow> string \<Rightarrow> telegram_op \<Rightarrow> LiveConfirmation \<Rightarrow> bool" where
  "records hmac s nonce op c \<longleftrightarrow> (\<exists>ctx sy sd mx mode. op = IssueLive nonce ctx sy sd mx mode \<and> lc_chat_id c = tc_chat_id ctx \<and> lc_user_id c = tc_user_id ctx \<and>
     lc_symbol c = upper sy \<and> lc_side c = upper sd \<and> upper sd \<in> {''BUY'', ''SELL''} \<and> lc_max_notional c = mx \<and> upper mode = ''LIVE'' \<and>
     lc_expires_at_epoch c = tc_now_epoch ctx + ts_ttl s \<and> lc_digest c = hmac (ts_key s) (material c))"

lemma issued_step:
  assumes "dget (ts_issued (telegram_step hmac op s)) nonce = Some c"
  shows "dget (ts_issued s) nonce = Some c \<or> records hmac s nonce op c"
proof (cases op)
  case (IssueLive n ctx sy sd mx mode)
  with assms show ?thesis
    by (auto simp: issue_live_confirmation_def records_def material_def Let_def split: sum.splits if_splits)
next
  case (ConsumeLive ctx n digest)
  with assms show ?thesis
    by (auto simp: consume_live_confirmation_def split: sum.splits if_splits option.splits)
qed

lemma issued_origin:
  assumes "ts_issued s = []" "dget (ts_issued (fold (telegram_step hmac) ops s)) nonce = Some c"
  shows "\<exists>op \<in> set ops. records hmac s nonce op c"
  using assms(2)
proof (induction ops rule: rev_induct)
  case Nil
  with assms(1) show ?case by simp
next
  case (snoc op ops)
  from issued_step [of hmac op "fold (telegram_step hmac) ops s" nonce c] snoc show ?case
    by (auto simp: records_def)
qed

text \<open>A LIVE confirmation that is accepted was issued in this process to the same chat and the same user, both on the allow lists, for exactly the
  symbol, side and maximal notional it returns, at most ten minutes before; and the digest presented is the keyed hash of these values.
\<close>

theorem live_confirmation_bound:
  assumes new: "new_telegram_security chats users key enabled ttl = Inr s"
    and c: "snd (consume_live_confirmation ctx nonce digest (fold (telegram_step hmac) ops s)) = Inr c"
  shows "enabled \<and> tc_chat_id ctx \<in> set chats \<and> tc_user_id ctx \<in> set users \<and> digest = hmac key (material c) \<and>
    (\<exists>ctx0 sy sd mx mode. IssueLive nonce ctx0 sy sd mx mode \<in> set ops \<and> tc_chat_id ctx0 = tc_chat_id ctx \<and> tc_user_id ctx0 = tc_user_id ctx \<and>
       lc_symbol c = upper sy \<and> lc_side c = upper sd \<and> lc_max_notional c = mx \<and> tc_now_epoch ctx \<le> tc_now_epoch ctx0 + 600)"
proof -
  have s: "s = \<lparr>ts_allowed_chats = chats, ts_allowed_users = users, ts_key = key, ts_state_enabled = enabled, ts_ttl = ttl, ts_issued = [], ts_consumed = []\<rparr>" "ttl \<le> 600"
    using new by (auto simp: new_telegram_security_def split: if_splits)
  let ?s = "fold (telegram_step hmac) ops s"
  have c': "authorize ctx True ?s = Inr ()" "dget (ts_issued ?s) nonce = Some c" "lc_chat_id c = tc_chat_id ctx" "lc_user_id c = tc_user_id ctx"
    "tc_now_epoch ctx \<le> lc_expires_at_epoch c" "lc_digest c = digest"
    using c by (auto simp: consume_live_confirmation_def split: sum.splits option.splits if_splits)
  have a: "enabled" "tc_chat_id ctx \<in> set chats" "tc_user_id ctx \<in> set users" using c'(1) s(1) by (auto simp: authorize_def split: if_splits)
  obtain op where "op \<in> set ops" "records hmac s nonce op c" using issued_origin [OF _ c'(2)] s(1) by auto
  then obtain ctx0 sy sd mx mode where o: "IssueLive nonce ctx0 sy sd mx mode \<in> set ops" "lc_chat_id c = tc_chat_id ctx0" "lc_user_id c = tc_user_id ctx0"
    "lc_symbol c = upper sy" "lc_side c = upper sd" "lc_max_notional c = mx" "lc_expires_at_epoch c = tc_now_epoch ctx0 + ttl" "lc_digest c = hmac key (material c)"
    using s(1) unfolding records_def by auto
  have "tc_now_epoch ctx \<le> tc_now_epoch ctx0 + 600" using c'(5) o(7) s(2) by linarith
  with a c'(3,4,6) o show ?thesis by metis
qed

section \<open>The attempt limit of recovery grants never bites\<close>

lemma grants_unused_zero:
  assumes "list_all (\<lambda>g. \<not> gr_used g \<longrightarrow> gr_attempts g = 0) gs"
  shows "list_all (\<lambda>g. \<not> gr_used g \<longrightarrow> gr_attempts g = 0) (grant_step pol sha op gs)"
proof (cases op)
  case (IssueGrant raw uid role mfa appr now)
  with assms show ?thesis by (auto simp: grant_issue_def Let_def)
next
  case (ConsumeGrant raw uid now)
  with assms show ?thesis
    by (auto simp: grant_consume_def Let_def list_all_iff split: option.splits dest!: set_update_subset_insert [THEN subsetD])
qed

interpretation grant_counts: preserved "grant_step pol sha" "list_all (\<lambda>g. \<not> gr_used g \<longrightarrow> gr_attempts g = 0)"
  by unfold_locales (rule grants_unused_zero)

text \<open>The attempt limit of recovery grants is never enforced: an attempt is only counted when it succeeds, which also uses the grant up, so with
  any positive limit no sequence of calls is ever answered with the exhausted-attempts error, however many wrong presentations it holds.
\<close>

theorem recovery_attempts_never_exhausted:
  assumes "0 < rp_max_attempts pol"
  shows "snd (grant_consume pol sha raw uid now (fold (grant_step pol sha) ops [])) \<noteq> Inl (PermissionError ''recovery attempts exhausted'')"
proof -
  let ?gs = "fold (grant_step pol sha) ops []"
  have inv: "list_all (\<lambda>g. \<not> gr_used g \<longrightarrow> gr_attempts g = 0) ?gs" by (rule grant_counts.run_I) simp
  have "gr_attempts (?gs ! i) = 0" if "last_match (sha raw) ?gs = Some i" "\<not> gr_used (?gs ! i)" for i
    using inv [unfolded list_all_length] last_match_Some [OF that(1)] that(2) by blast
  with assms show ?thesis by (auto simp: grant_consume_def Let_def split: option.splits)
qed

section \<open>Sessions in memory and the password policy\<close>

record SessionInfo =
  si_user_id :: string
  si_role :: string
  si_expires_at :: rat
  si_csrf :: string

definition ss_create :: "(string \<Rightarrow> string) \<Rightarrow> string \<Rightarrow> string \<Rightarrow> string \<Rightarrow> string \<Rightarrow> rat \<Rightarrow> rat \<Rightarrow> (string, SessionInfo) dict \<Rightarrow> (string, SessionInfo) dict \<times> string" where
  "ss_create sha raw csrf user_id role ttl now items =
     (dset (sha raw) \<lparr>si_user_id = user_id, si_role = role, si_expires_at = flt (now + ttl), si_csrf = csrf\<rparr> items, raw)"

definition ss_get :: "(string \<Rightarrow> string) \<Rightarrow> string \<Rightarrow> rat \<Rightarrow> (string, SessionInfo) dict \<Rightarrow> SessionInfo option" where
  "ss_get sha raw now items = (case dget items (sha raw) of None \<Rightarrow> None | Some x \<Rightarrow> if now < si_expires_at x then Some x else None)"

definition ss_revoke :: "(string \<Rightarrow> string) \<Rightarrow> string \<Rightarrow> (string, SessionInfo) dict \<Rightarrow> (string, SessionInfo) dict" where
  "ss_revoke sha raw items = ddel (sha raw) items"

lemma session_store_laws:
  "ss_get sha raw now (ss_revoke sha raw items) = None"
  "ss_get sha raw t (fst (ss_create sha raw csrf uid role ttl now items)) =
     (if t < flt (now + ttl) then Some \<lparr>si_user_id = uid, si_role = role, si_expires_at = flt (now + ttl), si_csrf = csrf\<rparr> else None)"
  by (simp_all add: ss_get_def ss_revoke_def ss_create_def)

record PasswordHashPolicy =
  hp_algorithm :: string
  hp_memory_cost_kib :: int
  hp_time_cost :: int
  hp_parallelism :: int
  hp_min_password_length :: int
  hp_upgrade_on_login :: bool

definition validate_password_policy :: "PasswordHashPolicy \<Rightarrow> PasswordHashPolicy res" where
  "validate_password_policy p =
     (if lower (hp_algorithm p) \<noteq> ''argon2id'' then Inl (ValueError ''argon2id required'')
      else if hp_memory_cost_kib p < 65536 then Inl (ValueError ''argon2 memory cost too low'')
      else if hp_time_cost p < 2 then Inl (ValueError ''argon2 time cost too low'')
      else if hp_parallelism p < 1 then Inl (ValueError ''argon2 parallelism invalid'')
      else if hp_min_password_length p < 12 then Inl (ValueError ''minimum password length too low'')
      else if \<not> hp_upgrade_on_login p then Inl (ValueError ''hash upgrade-on-login required'')
      else Inr p)"

section \<open>Witnesses\<close>

definition demo_policy :: RecoveryPolicy where
  "demo_policy = \<lparr>rp_require_mfa_for_privileged = True, rp_require_admin_approval_for_admin_reset = True, rp_token_ttl_seconds = 900, rp_max_attempts = 5\<rparr>"

definition demo_context :: TelegramCommandContext where
  "demo_context = \<lparr>tc_chat_id = ''c'', tc_user_id = ''u'', tc_command = ''/live'', tc_now_epoch = 100\<rparr>"

definition demo_telegram :: TelegramCommandSecurity where
  "demo_telegram = \<lparr>ts_allowed_chats = [''c''], ts_allowed_users = [''u''], ts_key = ''0123456789abcdef'', ts_state_enabled = True, ts_ttl = 90, ts_issued = [], ts_consumed = []\<rparr>"

definition demo_auth_ops :: "auth_op list" where
  "demo_auth_ops =
     [IssueReset ''k'' ''t'' ''u1'' 900 0, ConsumeReset ''s'' ''t'' ''long password'' 1, ConsumeReset ''s'' ''t'' ''long password'' 2,
      Login demo_login ''ann'' ''long password'' (Some ''wrong'') (Some ''t''),
      Login (demo_login\<lparr>li_session_id := ''k2'', li_raw := ''tok2''\<rparr>) ''ann'' ''long password'' (Some ''wrong'') (Some ''t''),
      Login (demo_login\<lparr>li_session_id := ''k3'', li_raw := ''tok3''\<rparr>) ''ann'' ''long password'' None (Some ''t'')]"

text \<open>Of the presentations of each token one is accepted, the recovery code in a login that also gives a wrong one-time password.\<close>

theorem tokens_used_once_witness:
  "hits (cs_step (\<lambda>x. x)) (cs_hit (\<lambda>x. x)) ''t'' [IssueConfirmation ''t'' ''go'' 120 0, ConsumeConfirmation ''t'' ''go'' 1, ConsumeConfirmation ''t'' ''go'' 1] [] = 1 \<and>
   hits (grant_step demo_policy (\<lambda>x. x)) (grant_hit demo_policy (\<lambda>x. x)) ''t''
     [IssueGrant ''t'' ''u'' ''viewer'' False None 0, ConsumeGrant ''t'' ''u'' 1, ConsumeGrant ''t'' ''u'' 1] [] = 1 \<and>
   hits (telegram_step (\<lambda>k x. x)) telegram_hit ''t''
     [IssueLive ''t'' demo_context ''btc'' ''buy'' ''100'' ''live'', ConsumeLive demo_context ''t'' ''t|c|u|BTC|BUY|100|LIVE|190'',
      ConsumeLive demo_context ''t'' ''t|c|u|BTC|BUY|100|LIVE|190''] demo_telegram = 1 \<and>
   hits (auth_step demo_crypto) (reset_hit demo_crypto) ''t'' demo_auth_ops demo_mfa_auth = 1 \<and>
   hits (auth_step demo_crypto) (code_hit demo_crypto) ''t'' demo_auth_ops demo_mfa_auth = 1"
proof -
  let ?cops = "[IssueConfirmation ''t'' ''go'' 120 0, ConsumeConfirmation ''t'' ''go'' 1, ConsumeConfirmation ''t'' ''go'' 1]"
  let ?gops = "[IssueGrant ''t'' ''u'' ''viewer'' False None 0, ConsumeGrant ''t'' ''u'' 1, ConsumeGrant ''t'' ''u'' 1]"
  let ?tops = "[IssueLive ''t'' demo_context ''btc'' ''buy'' ''100'' ''live'', ConsumeLive demo_context ''t'' ''t|c|u|BTC|BUY|100|LIVE|190'',
      ConsumeLive demo_context ''t'' ''t|c|u|BTC|BUY|100|LIVE|190'']"
  have "run_ok (cs_fresh (\<lambda>x. x)) (cs_step (\<lambda>x. x)) ?cops []" "run_ok (grant_fresh (\<lambda>x. x)) (grant_step demo_policy (\<lambda>x. x)) ?gops []" by code_simp+
  note at_most = tokens_used_once [of "\<lambda>x. x" ?cops "[]" "''t''" demo_policy ?gops "[]" "\<lambda>k x. x" ?tops demo_telegram demo_mfa_auth demo_crypto demo_auth_ops]
  have "1 \<le> hits (cs_step (\<lambda>x. x)) (cs_hit (\<lambda>x. x)) ''t'' ?cops []" by code_simp
  moreover have "1 \<le> hits (grant_step demo_policy (\<lambda>x. x)) (grant_hit demo_policy (\<lambda>x. x)) ''t'' ?gops []" by code_simp
  moreover have "1 \<le> hits (telegram_step (\<lambda>k x. x)) telegram_hit ''t'' ?tops demo_telegram" by code_simp
  moreover have "1 \<le> hits (auth_step demo_crypto) (reset_hit demo_crypto) ''t'' demo_auth_ops demo_mfa_auth" by code_simp
  moreover have "1 \<le> hits (auth_step demo_crypto) (code_hit demo_crypto) ''t'' demo_auth_ops demo_mfa_auth" by code_simp
  ultimately show ?thesis using at_most demo_mfa_ok \<open>run_ok (cs_fresh _) _ _ _\<close> \<open>run_ok (grant_fresh _) _ _ _\<close>
    by (simp only: le_antisym simp_thms)
qed

theorem live_confirmation_bound_witness:
  "\<exists>c. snd (consume_live_confirmation demo_context ''n'' ''n|c|u|BTC|BUY|100|LIVE|190''
       (fold (telegram_step (\<lambda>k x. x)) [IssueLive ''n'' demo_context ''btc'' ''buy'' ''100'' ''live''] demo_telegram)) = Inr c \<and>
     material c = ''n|c|u|BTC|BUY|100|LIVE|190''"
proof -
  let ?s = "fold (telegram_step (\<lambda>k x. x)) [IssueLive ''n'' demo_context ''btc'' ''buy'' ''100'' ''live''] demo_telegram"
  have "is_ok (snd (consume_live_confirmation demo_context ''n'' ''n|c|u|BTC|BUY|100|LIVE|190'' ?s))" by code_simp
  then obtain c where c: "snd (consume_live_confirmation demo_context ''n'' ''n|c|u|BTC|BUY|100|LIVE|190'' ?s) = Inr c" by (auto simp: is_ok_iff)
  have "new_telegram_security [''c''] [''u''] ''0123456789abcdef'' True 90 = Inr demo_telegram"
    by (simp add: new_telegram_security_def demo_telegram_def)
  from live_confirmation_bound [OF this c] c show ?thesis by auto
qed

theorem recovery_attempts_never_exhausted_witness:
  "snd (grant_consume demo_policy (\<lambda>x. x) ''t'' ''u'' 1 (fold (grant_step demo_policy (\<lambda>x. x))
     (IssueGrant ''t'' ''u'' ''viewer'' False None 0 # replicate 100 (ConsumeGrant ''t'' ''guess'' 1)) [])) \<noteq> Inl (PermissionError ''recovery attempts exhausted'')"
  by (rule recovery_attempts_never_exhausted) (simp add: demo_policy_def)

end
