(* ===== verification/Governance.thy ===== *)
theory Governance
  imports Risk_State Event_Store "HOL-Library.Product_Lexorder"
begin

text \<open>
  The gates around the trading core: incidents (\<open>backend/app/core/incident.py\<close>), the gate to LIVE (\<open>core/live_gate.py\<close>), configuration
  migrations (\<open>core/config_compat.py\<close>), separation of environments (\<open>core/environment_isolation.py\<close>), the live profile
  (\<open>core/live_config.py\<close>), retries (\<open>core/retry.py\<close>), recovery policy and runbook (\<open>recovery/policy.py\<close>, \<open>recovery/operator_runbook.py\<close>), the
  strategy lifecycle (\<open>strategies/lifecycle.py\<close>), decision evidence (\<open>audit/decision_evidence.py\<close>), alert escalation
  (\<open>monitoring/escalation.py\<close>), the external watchdog (\<open>monitoring/watchdog.py\<close>) and the health snapshot (\<open>monitoring/health.py\<close>).
  Hashes, clocks, random values, migrations and probes are arguments.
\<close>

section \<open>Incidents\<close>

definition SEV1_TYPES :: "string list" where
  "SEV1_TYPES = [''ORPHAN_ORDER'', ''UNPROTECTED_POSITION'', ''EXTERNAL_ACCOUNT_ACTIVITY'', ''VENUE_DIVERGENCE'', ''DB_OUTAGE'', ''REDIS_OUTAGE'',
     ''SECURITY_COMPROMISE'', ''BAD_DEPLOYMENT'', ''DATA_CORRUPTION'', ''BACKUP_RESTORE'']"

record IncidentRecord =
  in_severity :: string
  in_affected_scope :: string
  in_automatic_action :: string
  in_risk_state :: string
  in_evidence :: "string list"
  in_incident_type :: string
  in_correlation_ids :: "string list"
  in_detected_at :: int
  in_operator_actions :: "string list"
  in_resolved_at :: "int option"
  in_recovery_validation :: "(string, bool) dict"

type_synonym IncidentManager = "(string, IncidentRecord) dict"

definition open_incident ::
  "string \<Rightarrow> int \<Rightarrow> string \<Rightarrow> string \<Rightarrow> string \<Rightarrow> string \<Rightarrow> string list \<Rightarrow> string \<Rightarrow> string list \<Rightarrow> IncidentManager \<Rightarrow> IncidentManager \<times> IncidentRecord res" where
  "open_incident uid now severity scope automatic_action risk_state evidence incident_type correlation_ids d =
     (if severity \<notin> {''SEV1'', ''SEV2'', ''SEV3''} then (d, Inl (ValueError ''invalid severity''))
      else if severity = ''SEV1'' \<and> incident_type \<notin> set SEV1_TYPES \<and> incident_type \<noteq> ''GENERAL'' then (d, Inl (ValueError ''unknown SEV1 incident type''))
      else if severity = ''SEV1'' \<and> (scope = [] \<or> automatic_action = [] \<or> risk_state = [] \<or> evidence = []) then (d, Inl (ValueError ''SEV1 incident evidence incomplete''))
      else let x = \<lparr>in_severity = severity, in_affected_scope = scope, in_automatic_action = automatic_action, in_risk_state = risk_state, in_evidence = evidence,
                    in_incident_type = incident_type, in_correlation_ids = correlation_ids, in_detected_at = now, in_operator_actions = [], in_resolved_at = None,
                    in_recovery_validation = []\<rparr>
           in (dset uid x d, Inr x))"

definition validated :: "(string, bool) dict \<Rightarrow> string \<Rightarrow> bool" where
  "validated v k = get_or v k False"

definition resolve_incident :: "string \<Rightarrow> string \<Rightarrow> (string, bool) dict \<Rightarrow> int \<Rightarrow> IncidentManager \<Rightarrow> IncidentManager \<times> IncidentRecord res" where
  "resolve_incident incident_id operator_action v now d =
     (case dget d incident_id of
        None \<Rightarrow> (d, Inl (KeyError incident_id))
      | Some x \<Rightarrow>
        if in_severity x = ''SEV1'' \<and> in_incident_type x \<noteq> ''GENERAL'' \<and> \<not> list_all (validated v) [''reconciliation_pass'', ''risk_state_verified'', ''evidence_preserved'']
        then (d, Inl (PermissionError ''SEV1 recovery requires reconciliation, risk-state and evidence validation''))
        else if in_severity x = ''SEV1'' \<and> in_incident_type x = ''GENERAL'' \<and> \<not> validated v ''reconciliation_pass''
        then (d, Inl (PermissionError ''SEV1 recovery requires reconciliation validation''))
        else let x' = x\<lparr>in_operator_actions := in_operator_actions x @ [operator_action], in_recovery_validation := v, in_resolved_at := Some now\<rparr>
             in (dset incident_id x' d, Inr x'))"

section \<open>The gate to LIVE\<close>

definition MANDATORY_GATES :: "string list" where
  "MANDATORY_GATES = [''BACKTEST'', ''OOS'', ''WALK_FORWARD'', ''PURGED_EMBARGO'', ''ROBUSTNESS'', ''PAPER'', ''TESTNET'', ''LIVE_SHADOW'', ''EXECUTION_QUALITY'',
     ''RISK'', ''RECONCILIATION'', ''SECURITY'', ''HUMAN_APPROVAL'']"

record LiveGateEvidence =
  lg_release_id :: string
  lg_gates :: "(string, bool) dict"

definition gates_approved :: "LiveGateEvidence \<Rightarrow> bool" where
  "gates_approved e = list_all (\<lambda>k. get_or (lg_gates e) k False) MANDATORY_GATES"

definition gate_blockers :: "LiveGateEvidence \<Rightarrow> string list" where
  "gate_blockers e = filter (\<lambda>k. \<not> get_or (lg_gates e) k False) MANDATORY_GATES"

definition require_live_gate :: "TradingMode \<Rightarrow> LiveGateEvidence option \<Rightarrow> bool \<Rightarrow> unit res" where
  "require_live_gate mode evidence confirmation_ok =
     (if mode \<noteq> LIVE then Inr ()
      else if (case evidence of None \<Rightarrow> True | Some e \<Rightarrow> \<not> gates_approved e) then Inl (PermissionError ''LIVE evidence gates incomplete'')
      else if \<not> confirmation_ok then Inl (PermissionError ''LIVE human confirmation missing'')
      else Inr ())"

section \<open>Configuration migrations\<close>

text \<open>A configuration: its \<open>schema_version\<close>, when it has one, and the rest.\<close>

record 'c Config =
  cg_schema_version :: "int option"
  cg_rest :: 'c

record 'c ConfigMigrationResult =
  mr_source_version :: int
  mr_target_version :: int
  mr_config :: "'c Config"
  mr_config_hash :: string
  mr_applied_migrations :: "string list"

record 'c ConfigCompatibilityRegistry =
  cr_current_version :: int
  cr_migrations :: "(int, int \<times> string \<times> ('c Config \<Rightarrow> 'c Config res)) dict"

definition new_config_registry :: "int \<Rightarrow> 'c ConfigCompatibilityRegistry res" where
  "new_config_registry v = (if v < 1 then Inl (ValueError ''current_version must be >= 1'') else Inr \<lparr>cr_current_version = v, cr_migrations = []\<rparr>)"

definition register_migration ::
  "int \<Rightarrow> int \<Rightarrow> string \<Rightarrow> ('c Config \<Rightarrow> 'c Config res) \<Rightarrow> 'c ConfigCompatibilityRegistry \<Rightarrow> 'c ConfigCompatibilityRegistry res" where
  "register_migration source target name f r =
     (if target \<noteq> source + 1 then Inl (ValueError ''config migrations must be sequential'')
      else if dget (cr_migrations r) source \<noteq> None then Inl (ValueError ''duplicate source version migration'')
      else Inr (r\<lparr>cr_migrations := dset source (target, name, f) (cr_migrations r)\<rparr>))"

text \<open>
  The loop runs while the version is below the current one. A registered target is the source plus one, which ends the loop; a
  registry that was not built by \<open>register_migration\<close> could run for ever, so not returning is \<open>None\<close>.
\<close>

partial_function (option) migrate_loop ::
  "int \<Rightarrow> (int, int \<times> string \<times> ('c Config \<Rightarrow> 'c Config res)) dict \<Rightarrow> int \<Rightarrow> 'c Config \<Rightarrow> string list \<Rightarrow> (int \<times> 'c Config \<times> string list) res option" where
  "migrate_loop current ms version config applied =
     (if \<not> version < current then Some (Inr (version, config, applied))
      else case dget ms version of
             None \<Rightarrow> Some (Inl (ValueError (''missing config migration from version '' @ int_str version)))
           | Some (target, name, f) \<Rightarrow>
             (case f config of
                Inl e \<Rightarrow> Some (Inl e)
              | Inr c \<Rightarrow> migrate_loop current ms target (c\<lparr>cg_schema_version := Some target\<rparr>) (applied @ [name])))"

definition migrate :: "('c Config \<Rightarrow> string) \<Rightarrow> 'c ConfigCompatibilityRegistry \<Rightarrow> 'c Config \<Rightarrow> 'c ConfigMigrationResult res option" where
  "migrate digest r raw =
     (case cg_schema_version raw of
        None \<Rightarrow> Some (Inl (ValueError ''schema_version is required''))
      | Some source \<Rightarrow>
        if cr_current_version r < source then Some (Inl (ValueError ''future config schema is not supported''))
        else map_option (\<lambda>x. bind_res x (\<lambda>(v, c, names).
               Inr \<lparr>mr_source_version = source, mr_target_version = v, mr_config = c, mr_config_hash = digest c, mr_applied_migrations = names\<rparr>))
             (migrate_loop (cr_current_version r) (cr_migrations r) source raw []))"

section \<open>Environments\<close>

record EnvironmentBoundary =
  eb_name :: string
  eb_database_namespace :: string
  eb_redis_namespace :: string
  eb_exchange_key_identity :: string
  eb_webhook_endpoint_id :: string
  eb_encryption_key_id :: string
  eb_uses_real_capital :: bool

definition boundary_fields :: "(string \<times> (EnvironmentBoundary \<Rightarrow> string)) list" where
  "boundary_fields = [(''database_namespace'', eb_database_namespace), (''redis_namespace'', eb_redis_namespace), (''exchange_key_identity'', eb_exchange_key_identity),
     (''webhook_endpoint_id'', eb_webhook_endpoint_id), (''encryption_key_id'', eb_encryption_key_id)]"

fun field_issues :: "string \<Rightarrow> (EnvironmentBoundary \<Rightarrow> string) \<Rightarrow> (string, string) dict \<Rightarrow> EnvironmentBoundary list \<Rightarrow> string list" where
  "field_issues field get seen [] = []"
| "field_issues field get seen (e # es) =
     (if get e = [] then (''MISSING_'' @ upper field @ '':'' @ eb_name e) # field_issues field get seen es
      else case dget seen (get e) of
             Some other \<Rightarrow> (''SHARED_'' @ upper field @ '':'' @ other @ '':'' @ eb_name e) # field_issues field get seen es
           | None \<Rightarrow> field_issues field get (dset (get e) (eb_name e) seen) es)"

definition validate_environment_isolation :: "EnvironmentBoundary list \<Rightarrow> string list res" where
  "validate_environment_isolation envs =
     (if \<not> distinct (map eb_name envs) then Inl (ValueError ''duplicate environment name'')
      else Inr (sort (concat (map (\<lambda>(field, get). field_issues field get [] envs) boundary_fields) @
                      concat (map (\<lambda>e. flag (upper (eb_name e) \<in> {''DEV'', ''STAGING''} \<and> eb_uses_real_capital e)
                                            (''NON_PROD_REAL_CAPITAL_FORBIDDEN:'' @ eb_name e)) envs))))"

section \<open>The live profile\<close>

record LiveProfile =
  lp_timeframe :: string
  lp_market_type :: string
  lp_symbol :: string
  lp_symbol_filter_version :: string
  lp_max_risk_fraction :: rat

record ConfigChange =
  cc_old_value :: rat
  cc_new_value :: rat
  cc_actor :: string
  cc_reason :: string
  cc_timestamp :: int
  cc_config_hash :: string

definition validate_profile :: "LiveProfile \<Rightarrow> string list \<Rightarrow> string list \<Rightarrow> string list \<Rightarrow> bool" where
  "validate_profile p timeframes market_types symbols \<longleftrightarrow>
     lp_timeframe p \<in> set timeframes \<and> lp_market_type p \<in> set market_types \<and> lp_symbol p \<in> set symbols \<and>
     0 < lp_max_risk_fraction p \<and> lp_max_risk_fraction p \<le> flt (1/10)"

definition emergency_risk_change ::
  "(LiveProfile \<Rightarrow> string) \<Rightarrow> LiveProfile \<Rightarrow> rat \<Rightarrow> string \<Rightarrow> string \<Rightarrow> int \<Rightarrow> (LiveProfile \<times> ConfigChange) res" where
  "emergency_risk_change digest p new_risk actor reason ts =
     (if \<not> (0 \<le> new_risk \<and> new_risk \<le> lp_max_risk_fraction p) then Inl (ValueError ''emergency change may only reduce risk'')
      else let n = p\<lparr>lp_max_risk_fraction := new_risk\<rparr>
           in Inr (n, \<lparr>cc_old_value = lp_max_risk_fraction p, cc_new_value = new_risk, cc_actor = actor, cc_reason = reason, cc_timestamp = ts, cc_config_hash = digest n\<rparr>))"

section \<open>Retries\<close>

record RetryDecision =
  rd_retryable :: bool
  rd_attempt :: int
  rd_next_attempt_at :: "int option"
  rd_reason :: string

record RetryPolicy =
  ry_max_attempts :: int
  ry_base_seconds :: rat
  ry_max_seconds :: rat
  ry_jitter_fraction :: rat

text \<open>An exception: the name of its class, its message, and whether it is a timeout, connection or operating-system error.\<close>

record PyException =
  px_name :: string
  px_message :: string
  px_is_os_error :: bool

definition new_retry_policy :: "int \<Rightarrow> rat \<Rightarrow> rat \<Rightarrow> rat \<Rightarrow> RetryPolicy res" where
  "new_retry_policy max_attempts base max_seconds jitter =
     (if max_attempts < 1 \<or> base \<le> 0 \<or> max_seconds < base then Inl (ValueError ''invalid retry policy'')
      else Inr \<lparr>ry_max_attempts = max_attempts, ry_base_seconds = base, ry_max_seconds = max_seconds, ry_jitter_fraction = jitter\<rparr>)"

definition retry_classify :: "PyException \<Rightarrow> bool" where
  "retry_classify exc =
     (let name = lower (px_name exc); msg = lower (px_message exc);
          non_retry = [''valueerror'', ''permissionerror'', ''authentication'', ''validation'', ''schema'', ''forbidden'', ''unauthorized'']
      in if list_ex (\<lambda>x. contains name x \<or> contains msg x) non_retry then False
         else px_is_os_error exc \<or> contains msg ''temporar'' \<or> contains msg ''rate limit'')"

definition backoff_base :: "RetryPolicy \<Rightarrow> int \<Rightarrow> rat" where
  "backoff_base p attempt = min (ry_max_seconds p) (flt (ry_base_seconds p * 2 ^ nat (max 0 (attempt - 1))))"

definition retry_decide :: "RetryPolicy \<Rightarrow> PyException \<Rightarrow> int \<Rightarrow> int \<Rightarrow> rat \<Rightarrow> RetryDecision" where
  "retry_decide p exc attempt now rnd_value =
     (if \<not> retry_classify exc \<or> ry_max_attempts p \<le> attempt
      then \<lparr>rd_retryable = False, rd_attempt = attempt, rd_next_attempt_at = None,
            rd_reason = (if \<not> retry_classify exc then ''NON_RETRYABLE'' else ''RETRY_BUDGET_EXHAUSTED'')\<rparr>
      else let base = backoff_base p attempt; jitter = flt (flt (base * ry_jitter_fraction p) * rnd_value)
           in \<lparr>rd_retryable = True, rd_attempt = attempt, rd_next_attempt_at = Some (now + seconds_us (flt (base + jitter))), rd_reason = ''RETRYABLE''\<rparr>)"

section \<open>Backup and operator recovery\<close>

record BackupRecoveryPolicy =
  bp_rpo_minutes :: int
  bp_rto_minutes :: int
  bp_backup_frequency_minutes :: int
  bp_retention_days :: int
  bp_off_host_copy_required :: bool
  bp_encryption_at_rest_required :: bool
  bp_checksum_verification_required :: bool
  bp_access_control_required :: bool
  bp_pitr_or_managed_equivalent_required :: bool
  bp_restore_drill_frequency_days :: int

definition validate_recovery_policy :: "BackupRecoveryPolicy \<Rightarrow> unit res" where
  "validate_recovery_policy p =
     (if min (bp_rpo_minutes p) (min (bp_rto_minutes p) (min (bp_backup_frequency_minutes p) (min (bp_retention_days p) (bp_restore_drill_frequency_days p)))) \<le> 0
      then Inl (ValueError ''recovery targets must be positive'')
      else if bp_rpo_minutes p < bp_backup_frequency_minutes p then Inl (ValueError ''backup frequency cannot exceed RPO'')
      else if \<not> (bp_off_host_copy_required p \<and> bp_encryption_at_rest_required p \<and> bp_checksum_verification_required p \<and> bp_access_control_required p \<and>
                 bp_pitr_or_managed_equivalent_required p)
      then Inl (ValueError ''production recovery controls are mandatory'')
      else Inr ())"

record RestoreDrillEvidence =
  dr_isolated_environment :: bool
  dr_backup_or_pitr_restored :: bool
  dr_schema_validated :: bool
  dr_referential_integrity_validated :: bool
  dr_checksum_validated :: bool
  dr_read_only_smoke_passed :: bool
  dr_report_reference :: "string option"

definition drill_checks :: "RestoreDrillEvidence \<Rightarrow> (string, bool) dict" where
  "drill_checks e =
     [(''isolated_environment'', dr_isolated_environment e), (''backup_or_pitr_restored'', dr_backup_or_pitr_restored e), (''schema_validated'', dr_schema_validated e),
      (''referential_integrity_validated'', dr_referential_integrity_validated e), (''checksum_validated'', dr_checksum_validated e),
      (''read_only_smoke_passed'', dr_read_only_smoke_passed e), (''report_reference'', dr_report_reference e \<noteq> None \<and> dr_report_reference e \<noteq> Some [])]"

definition assert_drill_complete :: "RestoreDrillEvidence \<Rightarrow> unit res" where
  "assert_drill_complete e =
     (let missing = map fst (filter (\<lambda>(k, ok). \<not> ok) (drill_checks e))
      in if missing \<noteq> [] then Inl (ValueError (''incomplete restore drill evidence: '' @ join '','' missing)) else Inr ())"

datatype RecoveryStep =
    RESTART_SERVICES | READ_DURABLE_DATABASE | FETCH_EXCHANGE_TRUTH | RECONCILE | IDENTIFY_OPEN_RISK | VERIFY_PROTECTIVE_ORDERS
  | REQUIRE_HUMAN_APPROVAL | RESUME_REDUCING_ONLY | RESUME_ACTIVE

record RecoveryEvidence =
  re_database_read_ok :: bool
  re_exchange_truth_ok :: bool
  re_reconciliation_drift :: "string list"
  re_open_risk_identified :: bool
  re_protective_orders_ok :: bool
  re_clock_ok :: bool
  re_data_ok :: bool
  re_human_approved :: bool

record RecoveryPlan =
  pl_steps :: "RecoveryStep list"
  pl_target_state :: string
  pl_reasons :: "string list"

definition recovery_reasons :: "RecoveryEvidence \<Rightarrow> string list" where
  "recovery_reasons e =
     flag (\<not> re_database_read_ok e) ''DATABASE_READ_FAILED'' @ flag (\<not> re_exchange_truth_ok e) ''EXCHANGE_TRUTH_UNAVAILABLE'' @
     flag (re_reconciliation_drift e \<noteq> []) ''RECONCILIATION_DRIFT'' @ flag (\<not> re_open_risk_identified e) ''OPEN_RISK_NOT_IDENTIFIED'' @
     flag (\<not> re_protective_orders_ok e) ''PROTECTIVE_ORDERS_NOT_VERIFIED'' @ flag (\<not> re_clock_ok e) ''CLOCK_NOT_HEALTHY'' @
     flag (\<not> re_data_ok e) ''MARKET_DATA_NOT_HEALTHY''"

definition plan_operator_recovery :: "RecoveryEvidence \<Rightarrow> RecoveryPlan" where
  "plan_operator_recovery e =
     (let steps = [RESTART_SERVICES, READ_DURABLE_DATABASE, FETCH_EXCHANGE_TRUTH, RECONCILE, IDENTIFY_OPEN_RISK, VERIFY_PROTECTIVE_ORDERS];
          reasons = recovery_reasons e
      in if reasons \<noteq> [] then \<lparr>pl_steps = steps, pl_target_state = ''MANUAL_REVIEW_REQUIRED'', pl_reasons = reasons\<rparr>
         else if \<not> re_human_approved e
         then \<lparr>pl_steps = steps @ [REQUIRE_HUMAN_APPROVAL], pl_target_state = ''RECOVERY_PENDING'', pl_reasons = [''HUMAN_APPROVAL_REQUIRED'']\<rparr>
         else \<lparr>pl_steps = steps @ [REQUIRE_HUMAN_APPROVAL, RESUME_REDUCING_ONLY, RESUME_ACTIVE], pl_target_state = ''ACTIVE'', pl_reasons = []\<rparr>)"

section \<open>The strategy lifecycle\<close>

definition STATES :: "string list" where
  "STATES = [''DRAFT'', ''BACKTEST_VALIDATED'', ''OOS_VALIDATED'', ''PAPER_VALIDATED'', ''TESTNET_VALIDATED'', ''SHADOW_VALIDATED'', ''LIVE_APPROVED'']"

definition EVIDENCE_BY_TARGET :: "(string, string) dict" where
  "EVIDENCE_BY_TARGET = [(''BACKTEST_VALIDATED'', ''backtest''), (''OOS_VALIDATED'', ''oos''), (''PAPER_VALIDATED'', ''paper''),
     (''TESTNET_VALIDATED'', ''testnet''), (''SHADOW_VALIDATED'', ''live_shadow''), (''LIVE_APPROVED'', ''final_profitability'')]"

fun index_of :: "'a list \<Rightarrow> 'a \<Rightarrow> nat option" where
  "index_of [] x = None"
| "index_of (y # ys) x = (if y = x then Some 0 else map_option Suc (index_of ys x))"

definition promote :: "string \<Rightarrow> (string, bool) dict \<Rightarrow> bool \<Rightarrow> string \<Rightarrow> string \<times> string res" where
  "promote target evidence human_approved state =
     (case index_of STATES target of
        None \<Rightarrow> (state, Inl (ValueError ''invalid lifecycle target''))
      | Some nxt \<Rightarrow>
        (case index_of STATES state of
           None \<Rightarrow> (state, Inl (ValueError ''tuple.index(x): x not in tuple''))
         | Some cur \<Rightarrow>
           if nxt \<noteq> cur + 1 then (state, Inl (PermissionError ''strategy lifecycle cannot skip validation stages''))
           else case dget EVIDENCE_BY_TARGET target of
             None \<Rightarrow> (state, Inl (KeyError target))
           | Some key \<Rightarrow>
             if \<not> get_or evidence key False then (state, Inl (PermissionError (''missing '' @ key @ '' evidence'')))
             else if target = ''LIVE_APPROVED'' \<and> \<not> human_approved then (state, Inl (PermissionError ''human approval required''))
             else (target, Inr target)))"

record StrategyVersionManifest =
  sm_strategy_version :: string
  sm_config_hash :: string
  sm_git_commit_sha :: string
  sm_dataset_version :: string
  sm_indicator_version :: string
  sm_execution_model_version :: string
  sm_risk_model_version :: string

definition validate_manifest :: "StrategyVersionManifest \<Rightarrow> StrategyVersionManifest res" where
  "validate_manifest x =
     (if list_ex (\<lambda>v. strip v = []) [sm_strategy_version x, sm_config_hash x, sm_git_commit_sha x, sm_dataset_version x, sm_indicator_version x,
           sm_execution_model_version x, sm_risk_model_version x]
      then Inl (ValueError ''strategy promotion provenance is incomplete'') else Inr x)"

section \<open>Decision evidence\<close>

record DecisionEvidence =
  de_symbol :: string
  de_decision :: string
  de_reasons :: "string list"
  de_indicators :: "(string, rat) dict"
  de_parameters :: "(string, string) dict"
  de_market_price :: rat
  de_data_timestamp :: datetime
  de_risk :: "(string, string) dict"
  de_order_reason :: "string option"
  de_exchange_response :: "(string, string) dict option"
  de_portfolio_state :: "(string, string) dict"
  de_universe_snapshot_id :: "string option"
  de_metadata_version :: "string option"
  de_model_version :: string
  de_config_hash :: string

definition validate_decision_evidence :: "DecisionEvidence \<Rightarrow> DecisionEvidence res" where
  "validate_decision_evidence e =
     (if de_symbol e = [] \<or> de_decision e = [] \<or> de_reasons e = [] then Inl (ValueError ''decision evidence missing identity/reasons'')
      else if de_indicators e = [] then Inl (ValueError ''indicator evidence required'')
      else if de_parameters e = [] then Inl (ValueError ''parameter evidence required'')
      else if de_market_price e \<le> 0 then Inl (ValueError ''market price must be positive'')
      else if \<not> is_aware (de_data_timestamp e) then Inl (ValueError ''timezone-aware data timestamp required'')
      else if de_risk e = [] then Inl (ValueError ''risk evidence required'')
      else if dget (de_portfolio_state e) ''correlation'' = None \<or> dget (de_portfolio_state e) ''concentration'' = None
      then Inl (ValueError ''portfolio correlation/concentration evidence required'')
      else if de_model_version e = [] \<or> de_config_hash e = [] then Inl (ValueError ''version/config evidence required'')
      else if de_order_reason e \<noteq> None \<and> de_exchange_response e = None then Inl (ValueError ''exchange response required for order decision'')
      else Inr e)"

section \<open>Alert escalation\<close>

record EscalationState =
  es_severity :: string
  es_first_seen_at :: rat
  es_last_seen_at :: rat
  es_next_escalation_at :: rat
  es_attempts :: int
  es_acknowledged :: bool
  es_resolved :: bool
  es_evidence_json :: string

type_synonym escalation_table = "(string, EscalationState) dict"

definition esc_get :: "string \<Rightarrow> escalation_table \<Rightarrow> EscalationState res" where
  "esc_get k d = (case dget d k of None \<Rightarrow> Inl (LookupError k) | Some r \<Rightarrow> Inr r)"

definition esc_record :: "string \<Rightarrow> string \<Rightarrow> rat \<Rightarrow> rat \<Rightarrow> string \<Rightarrow> escalation_table \<Rightarrow> escalation_table \<times> EscalationState res" where
  "esc_record k severity now escalation_seconds evidence_json d =
     (if escalation_seconds \<le> 0 then (d, Inl (ValueError ''escalation_seconds must be positive''))
      else let fresh = \<lparr>es_severity = severity, es_first_seen_at = now, es_last_seen_at = now, es_next_escalation_at = flt (now + escalation_seconds),
                        es_attempts = 0, es_acknowledged = False, es_resolved = False, es_evidence_json = evidence_json\<rparr>;
               d' = (case dget d k of
                       None \<Rightarrow> dset k fresh d
                     | Some row \<Rightarrow> if es_resolved row then dset k fresh d
                                   else dset k (row\<lparr>es_severity := severity, es_last_seen_at := now, es_evidence_json := evidence_json\<rparr>) d)
           in (d', esc_get k d'))"

definition esc_due :: "rat \<Rightarrow> escalation_table \<Rightarrow> (string \<times> EscalationState) list" where
  "esc_due now d =
     sort_key (\<lambda>(k, r). (es_next_escalation_at r, k)) (filter (\<lambda>(k, r). \<not> es_resolved r \<and> \<not> es_acknowledged r \<and> es_next_escalation_at r \<le> now) d)"

definition mark_escalated :: "string \<Rightarrow> rat \<Rightarrow> rat \<Rightarrow> escalation_table \<Rightarrow> escalation_table \<times> EscalationState res" where
  "mark_escalated k now escalation_seconds d =
     (if escalation_seconds \<le> 0 then (d, Inl (ValueError ''escalation_seconds must be positive''))
      else case dget d k of
             None \<Rightarrow> (d, Inl (LookupError ''active unacknowledged alert not found''))
           | Some row \<Rightarrow>
             if es_resolved row \<or> es_acknowledged row then (d, Inl (LookupError ''active unacknowledged alert not found''))
             else let d' = dset k (row\<lparr>es_attempts := es_attempts row + 1, es_last_seen_at := now, es_next_escalation_at := flt (now + escalation_seconds)\<rparr>) d
                  in (d', esc_get k d'))"

definition esc_acknowledge :: "string \<Rightarrow> escalation_table \<Rightarrow> escalation_table \<times> EscalationState res" where
  "esc_acknowledge k d =
     (case dget d k of
        None \<Rightarrow> (d, Inl (LookupError ''active alert not found''))
      | Some row \<Rightarrow> if es_resolved row then (d, Inl (LookupError ''active alert not found''))
                    else let d' = dset k (row\<lparr>es_acknowledged := True\<rparr>) d in (d', esc_get k d'))"

definition esc_resolve :: "string \<Rightarrow> escalation_table \<Rightarrow> escalation_table \<times> EscalationState res" where
  "esc_resolve k d =
     (case dget d k of
        None \<Rightarrow> (d, Inl (LookupError ''alert not found''))
      | Some row \<Rightarrow> let d' = dset k (row\<lparr>es_resolved := True\<rparr>) d in (d', esc_get k d'))"

section \<open>The external watchdog\<close>

text \<open>A heartbeat, any field of which may be missing.\<close>

record HeartbeatPayload =
  hb_timestamp :: "rat option"
  hb_process_id :: "string option"
  hb_health :: "string option"
  hb_ready :: "bool option"
  hb_last_market_data_age :: "rat option"
  hb_private_stream_age :: "rat option"
  hb_outbox_backlog :: "int option"
  hb_risk_state :: "string option"
  hb_last_reconciliation :: "string option"

record WatchdogAssessment =
  wa_healthy :: bool
  wa_severity :: string
  wa_reasons :: "string list"

record ExternalWatchdog =
  wd_max_heartbeat_age :: rat
  wd_max_market_data_age :: rat
  wd_max_private_stream_age :: rat
  wd_max_outbox_backlog :: int

definition or_default :: "'a option \<Rightarrow> 'a \<Rightarrow> 'a" where
  "or_default x d = (case x of None \<Rightarrow> d | Some v \<Rightarrow> v)"

definition heartbeat_payload :: "rat \<Rightarrow> string \<Rightarrow> string \<Rightarrow> int \<Rightarrow> string \<Rightarrow> bool \<Rightarrow> rat \<Rightarrow> rat \<Rightarrow> string \<Rightarrow> HeartbeatPayload" where
  "heartbeat_payload clock risk_state last_reconciliation outbox_backlog health ready market_age stream_age process_id =
     \<lparr>hb_timestamp = Some clock, hb_process_id = Some process_id, hb_health = Some health, hb_ready = Some ready, hb_last_market_data_age = Some market_age,
      hb_private_stream_age = Some stream_age, hb_outbox_backlog = Some outbox_backlog, hb_risk_state = Some risk_state, hb_last_reconciliation = Some last_reconciliation\<rparr>"

definition watchdog_reasons :: "ExternalWatchdog \<Rightarrow> HeartbeatPayload \<Rightarrow> rat \<Rightarrow> string list" where
  "watchdog_reasons w p now =
     (let age = flt (now - or_default (hb_timestamp p) 0)
      in (if age < 0 then [''CLOCK_REGRESSION''] else flag (wd_max_heartbeat_age w < age) ''PROCESS_HEARTBEAT_STALE'') @
         flag (hb_health p \<noteq> Some ''UP'') ''HEALTH_DOWN'' @ flag (hb_ready p \<noteq> Some True) ''NOT_READY'' @
         flag (wd_max_market_data_age w < or_default (hb_last_market_data_age p) (10 ^ 18)) ''MARKET_DATA_STALE'' @
         flag (wd_max_private_stream_age w < or_default (hb_private_stream_age p) (10 ^ 18)) ''PRIVATE_STREAM_STALE'' @
         flag (wd_max_outbox_backlog w < or_default (hb_outbox_backlog p) (10 ^ 9)) ''OUTBOX_BACKLOG_HIGH'' @
         flag (hb_risk_state p \<notin> Some ` {''ACTIVE'', ''REDUCING_ONLY'', ''HALTED''}) ''UNKNOWN_RISK_STATE'')"

definition watchdog_assess :: "(HeartbeatPayload \<Rightarrow> string) \<Rightarrow> ExternalWatchdog \<Rightarrow> HeartbeatPayload \<Rightarrow> string \<Rightarrow> rat \<Rightarrow> WatchdogAssessment" where
  "watchdog_assess sign w p signature now =
     (if sign p \<noteq> signature then \<lparr>wa_healthy = False, wa_severity = ''SEV1'', wa_reasons = [''INVALID_HEARTBEAT_SIGNATURE'']\<rparr>
      else let reasons = watchdog_reasons w p now
           in \<lparr>wa_healthy = (reasons = []), wa_severity = (if reasons = [] then ''OK'' else ''SEV1''), wa_reasons = reasons\<rparr>)"

section \<open>The health snapshot\<close>

record ProbeResult =
  pr_status :: string
  pr_latency_ms :: "rat option"
  pr_detail :: "string option"

definition probe_healthy :: "ProbeResult \<Rightarrow> bool" where
  "probe_healthy r = (pr_status r \<in> {''UP'', ''MOCK_UP''})"

datatype probe = Returns ProbeResult | Truth bool | Raises

definition run_probe :: "bool \<Rightarrow> probe option \<Rightarrow> ProbeResult" where
  "run_probe fail_closed p =
     (case p of
        None \<Rightarrow> \<lparr>pr_status = (if fail_closed then ''UNCONFIGURED'' else ''MOCK_UP''), pr_latency_ms = None, pr_detail = Some ''probe not configured''\<rparr>
      | Some (Returns r) \<Rightarrow> r
      | Some (Truth b) \<Rightarrow> \<lparr>pr_status = (if b then ''UP'' else ''DOWN''), pr_latency_ms = None, pr_detail = None\<rparr>
      | Some Raises \<Rightarrow> \<lparr>pr_status = ''DOWN'', pr_latency_ms = None, pr_detail = Some ''probe raised exception''\<rparr>)"

datatype health_value = HText string | HNumber "rat option" | HFlag bool

definition put_result :: "string \<Rightarrow> ProbeResult \<Rightarrow> (string, health_value) dict \<Rightarrow> (string, health_value) dict" where
  "put_result component r status =
     (let s1 = dset component (HText (pr_status r)) status;
          s2 = dset (component @ ''_latency_ms'') (HNumber (pr_latency_ms r)) s1
      in case pr_detail r of None \<Rightarrow> s2 | Some d \<Rightarrow> if d = [] then s2 else dset (component @ ''_detail'') (HText d) s2)"

fun snapshot_loop :: "bool \<Rightarrow> (string, probe) dict \<Rightarrow> string list \<Rightarrow> (string, health_value) dict \<Rightarrow> bool \<Rightarrow> (string, health_value) dict \<times> bool" where
  "snapshot_loop fail_closed probes [] status ready = (status, ready)"
| "snapshot_loop fail_closed probes (c # cs) status ready =
     (let r = run_probe fail_closed (dget probes c)
      in snapshot_loop fail_closed probes cs (put_result c r status) (ready \<and> probe_healthy r))"

definition health_snapshot :: "bool \<Rightarrow> (string, probe) dict \<Rightarrow> string list \<Rightarrow> string \<Rightarrow> (string, health_value) dict" where
  "health_snapshot fail_closed probes required now =
     (case snapshot_loop fail_closed probes required [] True of (status, ready) \<Rightarrow>
        dset ''checked_at'' (HText now) (dset ''ready_for_new_risk'' (HFlag ready) status))"

definition CORE_COMPONENTS :: "string list" where
  "CORE_COMPONENTS = [''database'', ''redis'', ''exchange'', ''clock'']"

definition OPERATIONAL_COMPONENTS :: "string list" where
  "OPERATIONAL_COMPONENTS = CORE_COMPONENTS @ [''websocket'', ''data_freshness'', ''trading_engine'', ''telegram'', ''strategy_engine'', ''risk_configuration'',
     ''disk_space'', ''memory'', ''stale_blocked_symbols'', ''portfolio_concentration'']"

definition required_components :: "(string, probe) dict \<Rightarrow> string list option \<Rightarrow> string list" where
  "required_components probes req =
     (case req of Some (c # cs) \<Rightarrow> c # cs | _ \<Rightarrow> if probes = [] then CORE_COMPONENTS else map fst probes)"

text \<open>The production service: the probes of the database, the cache and the exchange where they are configured, every operational component required.\<close>

definition production_snapshot :: "probe option \<Rightarrow> probe option \<Rightarrow> probe option \<Rightarrow> string \<Rightarrow> (string, health_value) dict" where
  "production_snapshot database redis exchange now =
     (let probes = (case database of None \<Rightarrow> [] | Some p \<Rightarrow> [(''database'', p)]) @ (case redis of None \<Rightarrow> [] | Some p \<Rightarrow> [(''redis'', p)]) @
                   (case exchange of None \<Rightarrow> [] | Some p \<Rightarrow> [(''exchange'', p), (''clock'', p)])
      in health_snapshot True probes OPERATIONAL_COMPONENTS now)"

section \<open>Migrations end at the current version\<close>

inductive registry :: "int \<Rightarrow> 'c ConfigCompatibilityRegistry \<Rightarrow> bool" where
  new: "new_config_registry v = Inr r \<Longrightarrow> registry v r"
| register: "registry v r \<Longrightarrow> register_migration source target name f r = Inr r' \<Longrightarrow> registry v r'"

lemma registry_sequential: "registry v r \<Longrightarrow> cr_current_version r = v \<and> (\<forall>w t n f. dget (cr_migrations r) w = Some (t, n, f) \<longrightarrow> t = w + 1)"
proof (induction rule: registry.induct)
  case (new v r)
  then show ?case by (auto simp: new_config_registry_def split: if_splits)
next
  case (register v r source target name f r')
  then show ?case by (auto simp: register_migration_def split: if_splits)
qed

text \<open>The registered migrations applied one after the other, from version \<open>v\<close> and configuration \<open>c\<close> to version \<open>w\<close> and configuration \<open>d\<close>: each one gets what the one before it made,
  stamped with its target version.\<close>

inductive migration_run ::
  "(int, int \<times> string \<times> ('c Config \<Rightarrow> 'c Config res)) dict \<Rightarrow> int \<Rightarrow> 'c Config \<Rightarrow> string list \<Rightarrow> int \<Rightarrow> 'c Config \<Rightarrow> bool"
  for ms where
  start: "migration_run ms v c [] v c"
| apply_one: "dget ms v = Some (t, n, f) \<Longrightarrow> f c = Inr c1 \<Longrightarrow> migration_run ms t (c1\<lparr>cg_schema_version := Some t\<rparr>) ns w d \<Longrightarrow>
    migration_run ms v c (n # ns) w d"

text \<open>Every migration up to a version below the current one succeeds, and the one of that version is missing or raises on the configuration that the others made.\<close>

definition migration_fails :: "int \<Rightarrow> (int, int \<times> string \<times> ('c Config \<Rightarrow> 'c Config res)) dict \<Rightarrow> int \<Rightarrow> 'c Config \<Rightarrow> pyerr \<Rightarrow> bool" where
  "migration_fails current ms v c e \<longleftrightarrow> (\<exists>ns w d. migration_run ms v c ns w d \<and> w < current \<and>
     (dget ms w = None \<and> e = ValueError (''missing config migration from version '' @ int_str w) \<or>
      (\<exists>t n f. dget ms w = Some (t, n, f) \<and> f d = Inl e)))"

lemma migration_run_version: "migration_run ms v c ns w d \<Longrightarrow> cg_schema_version c = Some v \<Longrightarrow> cg_schema_version d = Some w"
  by (induction rule: migration_run.induct) simp_all

lemma migration_run_length:
  "migration_run ms v c ns w d \<Longrightarrow> \<forall>w t n f. dget ms w = Some (t, n, f) \<longrightarrow> t = w + 1 \<Longrightarrow> w = v + int (length ns)"
  by (induction rule: migration_run.induct) auto

lemma migrate_loop_ends:
  assumes seq: "\<forall>w t n f. dget ms w = Some (t, n, f) \<longrightarrow> t = w + 1" and "v \<le> current"
  shows "\<exists>res. migrate_loop current ms v c names = Some res \<and>
    (case res of Inr (v', c', names') \<Rightarrow> v' = current \<and> (\<exists>ns. names' = names @ ns \<and> migration_run ms v c ns current c')
     | Inl e \<Rightarrow> migration_fails current ms v c e)"
  using assms(2)
proof (induction "nat (current - v)" arbitrary: v c names)
  case 0
  then have "\<not> v < current" "v = current" by simp_all
  then show ?case by (subst migrate_loop.simps) (auto intro: migration_run.start)
next
  case (Suc k)
  then have v: "v < current" by simp
  show ?case
  proof (cases "dget ms v")
    case None
    then have "migration_fails current ms v c (ValueError (''missing config migration from version '' @ int_str v))"
      using v unfolding migration_fails_def by (blast intro: migration_run.start)
    then show ?thesis using v None by (subst migrate_loop.simps) simp
  next
    case (Some q)
    obtain t n f where q: "q = (t, n, f)" by (cases q)
    with Some seq have t: "t = v + 1" by blast
    show ?thesis
    proof (cases "f c")
      case (Inl e)
      then have "migration_fails current ms v c e" using v Some q unfolding migration_fails_def by (blast intro: migration_run.start)
      then show ?thesis using v Some q Inl by (subst migrate_loop.simps) simp
    next
      case (Inr c1)
      have "k = nat (current - t)" "t \<le> current" using Suc v t by simp_all
      from Suc(1) [OF this, of "c1\<lparr>cg_schema_version := Some t\<rparr>" "names @ [n]"] obtain res
        where r: "migrate_loop current ms t (c1\<lparr>cg_schema_version := Some t\<rparr>) (names @ [n]) = Some res"
          "case res of Inr (v', c', names') \<Rightarrow> v' = current \<and> (\<exists>ns. names' = (names @ [n]) @ ns \<and> migration_run ms t (c1\<lparr>cg_schema_version := Some t\<rparr>) ns current c')
           | Inl e \<Rightarrow> migration_fails current ms t (c1\<lparr>cg_schema_version := Some t\<rparr>) e" by blast
      have one: "migration_run ms v c (n # ns) w d" if "migration_run ms t (c1\<lparr>cg_schema_version := Some t\<rparr>) ns w d" for ns w d
        using migration_run.apply_one [of ms v t n f c c1, OF _ Inr that] Some q by simp
      then have "migration_fails current ms v c e" if "migration_fails current ms t (c1\<lparr>cg_schema_version := Some t\<rparr>) e" for e
        using that unfolding migration_fails_def by blast
      moreover have "migrate_loop current ms v c names = Some res" using v Some q Inr r(1) by (subst migrate_loop.simps) simp
      ultimately show ?thesis using r(2) one by (fastforce split: sum.splits prod.splits)
    qed
  qed
qed

text \<open>C38: with a registry built by its own operations, migrating a configuration of a version up to the current one always ends. It either yields
  what the registered migrations make of the configuration when they are applied one after the other, one per version step, with the current version, the
  hash and the names of exactly those migrations in order; or it fails with the error of the first one that is missing, or that raises on what the migrations before
  it made. A newer configuration is refused.
\<close>

theorem config_migration_ends:
  assumes reg: "registry current r" and v: "cg_schema_version raw = Some v"
  shows "\<exists>res. migrate digest r raw = Some res \<and>
    (case res of
       Inr x \<Rightarrow> migration_run (cr_migrations r) v raw (mr_applied_migrations x) current (mr_config x) \<and>
         int (length (mr_applied_migrations x)) = current - v \<and> mr_source_version x = v \<and> mr_target_version x = current \<and>
         cg_schema_version (mr_config x) = Some current \<and> mr_config_hash x = digest (mr_config x)
     | Inl e \<Rightarrow> if current < v then e = ValueError ''future config schema is not supported'' else migration_fails current (cr_migrations r) v raw e)"
proof (cases "current < v")
  case True
  then show ?thesis using registry_sequential [OF reg] v by (auto simp: migrate_def)
next
  case False
  note seq = registry_sequential [OF reg]
  from migrate_loop_ends [OF conjunct2 [OF seq], of v current raw "[]"] False obtain res
    where r: "migrate_loop current (cr_migrations r) v raw [] = Some res"
      "case res of Inr (v', c', names') \<Rightarrow> v' = current \<and> (\<exists>ns. names' = [] @ ns \<and> migration_run (cr_migrations r) v raw ns current c')
       | Inl e \<Rightarrow> migration_fails current (cr_migrations r) v raw e" by auto
  show ?thesis
  proof (cases res)
    case (Inl e)
    then show ?thesis using r v False seq by (auto simp: migrate_def)
  next
    case (Inr x)
    obtain v' c' names' where x: "x = (v', c', names')" by (cases x)
    with r(2) Inr have run: "v' = current" "migration_run (cr_migrations r) v raw names' current c'" by simp_all
    from migration_run_version [OF run(2) v] migration_run_length [OF run(2) conjunct2 [OF seq]]
    show ?thesis using r(1) v False seq Inr x run by (auto simp: migrate_def)
  qed
qed

section \<open>No strategy skips a stage\<close>

datatype promotion = Promotion string "(string, bool) dict" bool

fun promote_step :: "promotion \<Rightarrow> string \<Rightarrow> string" where
  "promote_step (Promotion target evidence human) state = fst (promote target evidence human state)"

fun promotions :: "promotion list \<Rightarrow> string \<Rightarrow> promotion list" where
  "promotions [] state = []"
| "promotions (Promotion target evidence human # ops) state =
     (if is_ok (snd (promote target evidence human state)) then [Promotion target evidence human] else []) @
     promotions ops (promote_step (Promotion target evidence human) state)"

fun backed :: "promotion \<Rightarrow> bool" where
  "backed (Promotion target evidence human) \<longleftrightarrow>
     (\<exists>key. dget EVIDENCE_BY_TARGET target = Some key \<and> get_or evidence key False) \<and> (target = ''LIVE_APPROVED'' \<longrightarrow> human)"

fun promotion_target :: "promotion \<Rightarrow> string" where
  "promotion_target (Promotion target evidence human) = target"

lemma index_of_Some: "index_of xs x = Some i \<Longrightarrow> i < length xs \<and> xs ! i = x"
  by (induction xs arbitrary: i) (auto split: if_splits)

lemma index_of_nth: "distinct xs \<Longrightarrow> i < length xs \<Longrightarrow> index_of xs (xs ! i) = Some i"
  by (induction xs arbitrary: i) (auto simp: nth_Cons split: nat.splits)

lemma promote_ok:
  assumes "promote target evidence human state = (state', Inr x)"
  shows "\<exists>i. index_of STATES state = Some i \<and> index_of STATES target = Some (Suc i) \<and> state' = target \<and> backed (Promotion target evidence human)"
  using assms by (auto simp: promote_def split: option.splits if_splits)

lemma promote_err: "snd (promote target evidence human state) = Inl e \<Longrightarrow> fst (promote target evidence human state) = state"
  by (auto simp: promote_def split: option.splits if_splits)

lemma states_distinct [simp]: "distinct STATES"
  by (simp add: STATES_def)

lemma promotions_path:
  assumes "i < length STATES"
  shows "\<exists>n. i + n < length STATES \<and> fold promote_step ops (STATES ! i) = STATES ! (i + n) \<and>
    map promotion_target (promotions ops (STATES ! i)) = take n (drop (Suc i) STATES) \<and> list_all backed (promotions ops (STATES ! i))"
  using assms
proof (induction ops arbitrary: i)
  case Nil
  then show ?case by (intro exI [of _ 0]) simp
next
  case (Cons op ops)
  obtain target evidence human where op: "op = Promotion target evidence human" by (cases op)
  show ?case
  proof (cases "snd (promote target evidence human (STATES ! i))")
    case (Inl e)
    then show ?thesis using Cons op promote_err [OF Inl] by simp
  next
    case (Inr x)
    then have "promote target evidence human (STATES ! i) = (fst (promote target evidence human (STATES ! i)), Inr x)" by (simp add: prod_eq_iff)
    from promote_ok [OF this] have p: "index_of STATES target = Some (Suc i)" "fst (promote target evidence human (STATES ! i)) = target"
      "backed (Promotion target evidence human)" using index_of_nth [OF states_distinct Cons.prems] by auto
    note t = index_of_Some [OF p(1)]
    from Cons.IH [of "Suc i"] t obtain n where n: "Suc i + n < length STATES" "fold promote_step ops target = STATES ! (Suc i + n)"
      "map promotion_target (promotions ops target) = take n (drop (Suc (Suc i)) STATES)" "list_all backed (promotions ops target)" by auto
    show ?thesis
    proof (intro exI [of _ "Suc n"] conjI)
      have "drop (Suc i) STATES = target # drop (Suc (Suc i)) STATES" using t by (metis Cons_nth_drop_Suc)
      then show "map promotion_target (promotions (op # ops) (STATES ! i)) = take (Suc n) (drop (Suc i) STATES)"
        using op Inr p(2) n(3) by simp
    qed (use n op Inr p in auto)
  qed
qed

text \<open>Whatever promotions are requested, a strategy that started as a draft passes the validation stages strictly in their order, each accepted promotion
  carried the evidence its stage demands, and the last one a human approval; so a live approval follows six backed promotions.
\<close>

theorem lifecycle_skips_no_stage:
  "\<exists>n < length STATES. fold promote_step ops ''DRAFT'' = STATES ! n \<and>
     map promotion_target (promotions ops ''DRAFT'') = take n (tl STATES) \<and> list_all backed (promotions ops ''DRAFT'')"
proof -
  have "0 < length STATES" "''DRAFT'' = STATES ! 0" "tl STATES = drop (Suc 0) STATES" by (simp_all add: STATES_def)
  then show ?thesis using promotions_path [of 0 ops] by (metis add_0)
qed

section \<open>Alerts stay due until someone handles them\<close>

datatype escalation_op = Sighted string string rat rat string | Escalated string rat rat | Acknowledged string | Resolved string

fun escalation_step :: "escalation_op \<Rightarrow> escalation_table \<Rightarrow> escalation_table" where
  "escalation_step (Sighted k sev now secs ev) d = fst (esc_record k sev now secs ev d)"
| "escalation_step (Escalated k now secs) d = fst (mark_escalated k now secs d)"
| "escalation_step (Acknowledged k) d = fst (esc_acknowledge k d)"
| "escalation_step (Resolved k) d = fst (esc_resolve k d)"

fun handles :: "string \<Rightarrow> escalation_op \<Rightarrow> bool" where
  "handles k (Sighted j sev now secs ev) = False"
| "handles k (Escalated j now secs) = (j = k)"
| "handles k (Acknowledged j) = (j = k)"
| "handles k (Resolved j) = (j = k)"

definition pending :: "string \<Rightarrow> rat \<Rightarrow> rat \<Rightarrow> escalation_table \<Rightarrow> bool" where
  "pending k first next d \<longleftrightarrow> wf_dict d \<and> (\<exists>r. dget d k = Some r \<and> \<not> es_resolved r \<and> \<not> es_acknowledged r \<and> es_next_escalation_at r = next \<and> es_first_seen_at r = first)"

lemma escalation_step_wf: "wf_dict d \<Longrightarrow> wf_dict (escalation_step op d)"
  by (cases op) (auto simp: esc_record_def mark_escalated_def esc_acknowledge_def esc_resolve_def Let_def split: option.splits)

lemma pending_step:
  assumes "pending k first next d" "\<not> handles k op" shows "pending k first next (escalation_step op d)"
proof -
  obtain r where r: "wf_dict d" "dget d k = Some r" "\<not> es_resolved r" "\<not> es_acknowledged r" "es_next_escalation_at r = next" "es_first_seen_at r = first"
    using assms(1) unfolding pending_def by blast
  have "\<exists>r'. dget (escalation_step op d) k = Some r' \<and> \<not> es_resolved r' \<and> \<not> es_acknowledged r' \<and> es_next_escalation_at r' = next \<and> es_first_seen_at r' = first"
    using assms(2) r(2-) by (cases op) (auto simp: esc_record_def mark_escalated_def esc_acknowledge_def esc_resolve_def Let_def split: option.splits)
  with escalation_step_wf [OF r(1)] show ?thesis unfolding pending_def by blast
qed

interpretation alerts: gated escalation_step "pending k first next" "handles k"
  by unfold_locales (rule pending_step)

lemma due_iff:
  "wf_dict d \<Longrightarrow> (k, r) \<in> set (esc_due now d) \<longleftrightarrow> dget d k = Some r \<and> \<not> es_resolved r \<and> \<not> es_acknowledged r \<and> es_next_escalation_at r \<le> now"
  by (auto simp: esc_due_def wf_dict_mem)

text \<open>An alert never slips away. Once it is open, it keeps its escalation time however often it is seen again and whatever happens to other alerts, and from
  that time on it is on the list of due alerts; it leaves the list only by being escalated, acknowledged or resolved itself.
\<close>

theorem alerts_stay_due:
  assumes d: "wf_dict d" "dget d k = Some r" "\<not> es_resolved r" "\<not> es_acknowledged r" and now: "es_next_escalation_at r \<le> now"
  shows "(list_all (\<lambda>op. \<not> handles k op) ops \<longrightarrow>
      (\<exists>r'. (k, r') \<in> set (esc_due now (fold escalation_step ops d)) \<and> es_first_seen_at r' = es_first_seen_at r)) \<and>
    (k \<notin> fst ` set (esc_due now (fold escalation_step ops d)) \<longrightarrow> (\<exists>pre op post. ops = pre @ op # post \<and> handles k op))"
proof -
  let ?P = "pending k (es_first_seen_at r) (es_next_escalation_at r)"
  have p: "?P d" unfolding pending_def using d by blast
  have due: "\<exists>r'. (k, r') \<in> set (esc_due now d') \<and> es_first_seen_at r' = es_first_seen_at r" if "?P d'" for d'
    using that now unfolding pending_def by (auto simp: due_iff)
  have "k \<in> fst ` set (esc_due now (fold escalation_step ops d))" if "?P (fold escalation_step ops d)"
    using due [OF that] by force
  then show ?thesis using due alerts.run_stays_blocked [OF p, of ops] alerts.unblocked_by_approved [OF p, of ops] by blast
qed

section \<open>Environments share nothing\<close>

lemma field_issues_Nil:
  "field_issues field get seen es = [] \<longleftrightarrow> distinct (map get es) \<and> (\<forall>e \<in> set es. get e \<noteq> [] \<and> dget seen (get e) = None)"
  by (induction es arbitrary: seen) (auto split: option.splits, metis imageI)

text \<open>The check of the environments reports no issue exactly when, for each of the five namespaces and keys, every environment has one and no two
  share it, and no development or staging environment uses real capital.
\<close>

theorem isolation_clean_iff:
  "validate_environment_isolation envs = Inr [] \<longleftrightarrow>
     distinct (map eb_name envs) \<and>
     (\<forall>(field, get) \<in> set boundary_fields. distinct (map get envs) \<and> [] \<notin> get ` set envs) \<and>
     (\<forall>e \<in> set envs. upper (eb_name e) \<in> {''DEV'', ''STAGING''} \<longrightarrow> \<not> eb_uses_real_capital e)"
proof -
  have sort: "sort xs = [] \<longleftrightarrow> xs = []" for xs :: "string list" by (metis set_empty set_sort)
  have "field_issues field get [] envs = [] \<longleftrightarrow> distinct (map get envs) \<and> [] \<notin> get ` set envs" for field get
    unfolding field_issues_Nil by (auto simp: image_iff)
  then have "concat (map (\<lambda>(field, get). field_issues field get [] envs) boundary_fields) = [] \<longleftrightarrow>
      (\<forall>(field, get) \<in> set boundary_fields. distinct (map get envs) \<and> [] \<notin> get ` set envs)"
    unfolding concat_eq_Nil_conv set_map ball_simps by (simp only: case_prod_unfold)
  moreover have "concat (map (\<lambda>e. flag (upper (eb_name e) \<in> {''DEV'', ''STAGING''} \<and> eb_uses_real_capital e) (''NON_PROD_REAL_CAPITAL_FORBIDDEN:'' @ eb_name e)) envs) = [] \<longleftrightarrow>
      (\<forall>e \<in> set envs. upper (eb_name e) \<in> {''DEV'', ''STAGING''} \<longrightarrow> \<not> eb_uses_real_capital e)"
    unfolding concat_eq_Nil_conv set_map ball_simps flag_simps by blast
  ultimately show ?thesis unfolding validate_environment_isolation_def by (simp add: sort del: concat_eq_Nil_conv)
qed

section \<open>Incidents keep their evidence\<close>

definition incident_ok :: "IncidentRecord \<Rightarrow> bool" where
  "incident_ok x \<longleftrightarrow> in_severity x = ''SEV1'' \<longrightarrow>
     in_affected_scope x \<noteq> [] \<and> in_automatic_action x \<noteq> [] \<and> in_risk_state x \<noteq> [] \<and> in_evidence x \<noteq> [] \<and>
     (in_resolved_at x \<noteq> None \<longrightarrow>
        (if in_incident_type x = ''GENERAL'' then validated (in_recovery_validation x) ''reconciliation_pass''
         else list_all (validated (in_recovery_validation x)) [''reconciliation_pass'', ''risk_state_verified'', ''evidence_preserved'']))"

lemma open_incident_ok:
  assumes "open_incident uid now sev scope act st ev ty cids d = (d', Inr x)" shows "d' = dset uid x d \<and> incident_ok x"
proof -
  let ?A = "sev \<notin> {''SEV1'', ''SEV2'', ''SEV3''}" and ?B = "sev = ''SEV1'' \<and> ty \<notin> set SEV1_TYPES \<and> ty \<noteq> ''GENERAL''"
  let ?C = "sev = ''SEV1'' \<and> (scope = [] \<or> act = [] \<or> st = [] \<or> ev = [])"
  have "\<not> ?A" "\<not> ?B" "\<not> ?C" using assms unfolding open_incident_def by (cases ?A; cases ?B; cases ?C; simp only: if_True if_False prod.inject sum.distinct simp_thms)+
  then show ?thesis using assms unfolding open_incident_def Let_def by (auto simp only: if_False incident_ok_def prod.inject sum.inject IncidentRecord.simps simp_thms)
qed

lemma resolve_incident_ok:
  assumes "resolve_incident i act v now d = (d', Inr x)"
  shows "\<exists>x0. dget d i = Some x0 \<and> d' = dset i x d \<and> (incident_ok x0 \<longrightarrow> incident_ok x) \<and> in_resolved_at x = Some now"
proof -
  obtain x0 where x0: "dget d i = Some x0" using assms by (cases "dget d i") (simp_all add: resolve_incident_def)
  let ?A = "in_severity x0 = ''SEV1'' \<and> in_incident_type x0 \<noteq> ''GENERAL'' \<and> \<not> list_all (validated v) [''reconciliation_pass'', ''risk_state_verified'', ''evidence_preserved'']"
  let ?B = "in_severity x0 = ''SEV1'' \<and> in_incident_type x0 = ''GENERAL'' \<and> \<not> validated v ''reconciliation_pass''"
  let ?x = "x0\<lparr>in_operator_actions := in_operator_actions x0 @ [act], in_recovery_validation := v, in_resolved_at := Some now\<rparr>"
  have n: "\<not> ?A" "\<not> ?B" using assms unfolding resolve_incident_def x0 option.case
    by (cases ?A; cases ?B; simp only: if_True if_False prod.inject sum.distinct simp_thms)+
  then have "x = ?x" "d' = dset i ?x d" using assms unfolding resolve_incident_def x0 option.case Let_def
    by (auto simp only: if_False prod.inject sum.inject)
  moreover have sel: "in_severity ?x = in_severity x0" "in_affected_scope ?x = in_affected_scope x0" "in_automatic_action ?x = in_automatic_action x0"
    "in_risk_state ?x = in_risk_state x0" "in_evidence ?x = in_evidence x0" "in_incident_type ?x = in_incident_type x0" "in_recovery_validation ?x = v"
    by simp_all
  have "incident_ok x0 \<longrightarrow> incident_ok ?x" using n unfolding incident_ok_def sel by presburger
  with calculation show ?thesis using x0 by simp
qed

section \<open>The gate, the runbook and the watchdog\<close>

lemma gate_open_iff: "require_live_gate mode evidence ok = Inr () \<longleftrightarrow> mode \<noteq> LIVE \<or> (ok \<and> (\<exists>e. evidence = Some e \<and> gate_blockers e = []))"
  by (auto simp: require_live_gate_def gates_approved_def gate_blockers_def filter_empty_conv list_all_iff split: option.splits)

lemma plan_active_iff:
  "pl_target_state (plan_operator_recovery e) = ''ACTIVE'' \<longleftrightarrow> recovery_reasons e = [] \<and> re_human_approved e"
  "RESUME_ACTIVE \<in> set (pl_steps (plan_operator_recovery e)) \<longleftrightarrow> recovery_reasons e = [] \<and> re_human_approved e"
  by (auto simp: plan_operator_recovery_def Let_def)

text \<open>The watchdog does not know the risk machine's own vocabulary. A recovery that succeeds with its default target leaves the machine in the
  state NORMAL, and every correctly signed heartbeat that reports this state is assessed as unhealthy, severity 1, with an unknown risk state; the same
  holds for every other state but ACTIVE, REDUCING_ONLY and HALTED.
\<close>

theorem watchdog_rejects_known_states:
  assumes "hb_risk_state p = Some (risk_value st)" "sign p = signature" "st \<notin> {ACTIVE, REDUCING_ONLY, HALTED}"
  shows "\<not> wa_healthy (watchdog_assess sign w p signature now) \<and> wa_severity (watchdog_assess sign w p signature now) = ''SEV1'' \<and>
    ''UNKNOWN_RISK_STATE'' \<in> set (wa_reasons (watchdog_assess sign w p signature now)) \<and>
    rm_state (fst (recover True (Some True) None None m)) = NORMAL"
proof -
  have "hb_risk_state p \<notin> Some ` {''ACTIVE'', ''REDUCING_ONLY'', ''HALTED''}" using assms(1,3) by (cases st) auto
  then have "''UNKNOWN_RISK_STATE'' \<in> set (watchdog_reasons w p now)" by (simp add: watchdog_reasons_def Let_def)
  then show ?thesis using assms(2) by (auto simp: watchdog_assess_def Let_def recover_def recover_green_def transition_to_def)
qed

lemma snapshot_loop_ready: "snd (snapshot_loop fc probes cs status ready) \<longleftrightarrow> ready \<and> (\<forall>c \<in> set cs. probe_healthy (run_probe fc (dget probes c)))"
  by (induction cs arbitrary: status ready) (auto simp: Let_def)

lemma snapshot_ready:
  "dget (health_snapshot fc probes cs now) ''ready_for_new_risk'' = Some (HFlag (\<forall>c \<in> set cs. probe_healthy (run_probe fc (dget probes c))))"
  using snapshot_loop_ready [of fc probes cs "[]" True] by (auto simp: health_snapshot_def split: prod.splits)

text \<open>The health service that the application builds for production never reports readiness. Whatever its database, cache and exchange probes answer, it requires
  components for which it configures no probe, and a missing probe counts as unhealthy there.
\<close>

theorem production_never_ready:
  "dget (production_snapshot database redis exchange now) ''ready_for_new_risk'' = Some (HFlag False)"
proof -
  let ?probes = "(case database of None \<Rightarrow> [] | Some p \<Rightarrow> [(''database'', p)]) @ (case redis of None \<Rightarrow> [] | Some p \<Rightarrow> [(''redis'', p)]) @
    (case exchange of None \<Rightarrow> [] | Some p \<Rightarrow> [(''exchange'', p), (''clock'', p)])"
  have ws: "dget ?probes ''websocket'' = None" by (cases database; cases redis; cases exchange) simp_all
  have "\<not> probe_healthy (run_probe True (dget ?probes ''websocket''))" unfolding ws by (simp add: run_probe_def probe_healthy_def)
  moreover have "''websocket'' \<in> set OPERATIONAL_COMPONENTS" by (simp add: OPERATIONAL_COMPONENTS_def)
  ultimately have "\<not> (\<forall>c \<in> set OPERATIONAL_COMPONENTS. probe_healthy (run_probe True (dget ?probes c)))" by blast
  then show ?thesis unfolding production_snapshot_def Let_def snapshot_ready by (simp only:)
qed

section \<open>Retries and the live profile\<close>

lemma retry_bounded:
  assumes "new_retry_policy n base mx jit = Inr p" "rd_retryable (retry_decide p exc attempt now rv)"
  shows "attempt < n" "retry_classify exc" "backoff_base p attempt \<le> mx"
  using assms by (auto simp: retry_decide_def new_retry_policy_def backoff_base_def Let_def split: if_splits)

lemma emergency_only_reduces:
  "emergency_risk_change digest p x actor reason ts = Inr (n, c) \<Longrightarrow>
     lp_max_risk_fraction n \<le> lp_max_risk_fraction p \<and> cc_old_value c = lp_max_risk_fraction p \<and> cc_config_hash c = digest n"
  by (auto simp: emergency_risk_change_def Let_def split: if_splits)

section \<open>Witnesses\<close>

definition demo_registry :: "string ConfigCompatibilityRegistry" where
  "demo_registry = \<lparr>cr_current_version = 3,
     cr_migrations = [(1, 2, ''add_a'', \<lambda>c. Inr (c\<lparr>cg_rest := cg_rest c @ ''a''\<rparr>)), (2, 3, ''add_b'', \<lambda>c. Inr (c\<lparr>cg_rest := cg_rest c @ ''b''\<rparr>))]\<rparr>"

lemma demo_registry_built: "registry 3 demo_registry"
proof -
  have a: "registry 3 (\<lparr>cr_current_version = 3, cr_migrations = []\<rparr> :: string ConfigCompatibilityRegistry)"
    by (rule registry.new) (simp add: new_config_registry_def)
  have b: "registry 3 (\<lparr>cr_current_version = 3, cr_migrations = [(1, 2, ''add_a'', \<lambda>c. Inr (c\<lparr>cg_rest := cg_rest c @ ''a''\<rparr>))]\<rparr> :: string ConfigCompatibilityRegistry)"
    by (rule registry.register [OF a, of 1 2 "''add_a''"]) (simp add: register_migration_def)
  show ?thesis by (rule registry.register [OF b, of 2 3 "''add_b''"]) (simp add: register_migration_def demo_registry_def)
qed

theorem config_migration_ends_witness:
  "\<exists>x. migrate cg_rest demo_registry \<lparr>cg_schema_version = Some 1, cg_rest = ''c''\<rparr> = Some (Inr x) \<and>
     migration_run (cr_migrations demo_registry) 1 \<lparr>cg_schema_version = Some 1, cg_rest = ''c''\<rparr> [''add_a'', ''add_b''] 3 \<lparr>cg_schema_version = Some 3, cg_rest = ''cab''\<rparr>"
proof -
  let ?raw = "\<lparr>cg_schema_version = Some 1, cg_rest = ''c''\<rparr>"
  have v: "cg_schema_version ?raw = Some 1" by simp
  have "migrate cg_rest demo_registry ?raw = Some (Inr \<lparr>mr_source_version = 1, mr_target_version = 3, mr_config = \<lparr>cg_schema_version = Some 3, cg_rest = ''cab''\<rparr>,
      mr_config_hash = ''cab'', mr_applied_migrations = [''add_a'', ''add_b'']\<rparr>)"
    by (simp add: migrate_def demo_registry_def migrate_loop.simps [of 3 _ 1] migrate_loop.simps [of 3 _ 2] migrate_loop.simps [of 3 _ 3])
  with config_migration_ends [OF demo_registry_built v, of cg_rest] show ?thesis by auto
qed

theorem alerts_stay_due_witness:
  "\<exists>r'. (''k'', r') \<in> set (esc_due 500 (fold escalation_step [Sighted ''k'' ''SEV1'' 400 300 ''e'', Acknowledged ''j'']
     [(''k'', \<lparr>es_severity = ''SEV1'', es_first_seen_at = 0, es_last_seen_at = 0, es_next_escalation_at = 300, es_attempts = 0, es_acknowledged = False,
       es_resolved = False, es_evidence_json = ''e''\<rparr>)]))"
proof -
  let ?r = "\<lparr>es_severity = ''SEV1'', es_first_seen_at = 0, es_last_seen_at = 0, es_next_escalation_at = 300, es_attempts = 0, es_acknowledged = False,
       es_resolved = False, es_evidence_json = ''e''\<rparr>"
  have "wf_dict [(''k'', ?r)]" by (simp add: wf_dict_def)
  from alerts_stay_due [OF this, of "''k''" ?r 500 "[Sighted ''k'' ''SEV1'' 400 300 ''e'', Acknowledged ''j'']"] show ?thesis by auto
qed

theorem isolation_clean_iff_witness:
  "validate_environment_isolation [\<lparr>eb_name = ''PROD'', eb_database_namespace = ''d'', eb_redis_namespace = ''r'', eb_exchange_key_identity = ''x'',
     eb_webhook_endpoint_id = ''w'', eb_encryption_key_id = ''k'', eb_uses_real_capital = True\<rparr>] = Inr []"
  by (subst isolation_clean_iff) (simp add: boundary_fields_def upper_def upper_char_def)

theorem watchdog_rejects_known_states_witness:
  "\<not> wa_healthy (watchdog_assess (\<lambda>p. ''sig'') \<lparr>wd_max_heartbeat_age = 30, wd_max_market_data_age = 5, wd_max_private_stream_age = 30, wd_max_outbox_backlog = 100\<rparr>
     (heartbeat_payload 0 ''NORMAL'' ''t'' 0 ''UP'' True 0 0 ''engine'') ''sig'' 0)"
  using watchdog_rejects_known_states [of "heartbeat_payload 0 ''NORMAL'' ''t'' 0 ''UP'' True 0 0 ''engine''" NORMAL "\<lambda>p. ''sig''" "''sig''"]
  by (simp add: heartbeat_payload_def)

end
