(* ===== verification/Private_Stream.thy ===== *)
theory Private_Stream
  imports Tokens Reconcile
begin

text \<open>
  The projection of the exchange's private stream (\<open>backend/app/exchange/private_stream.py\<close>) onto order, balance and position state, the payload contracts
  of the exchange interface (\<open>exchange/contract_compat.py\<close>) and the account snapshot read from the database (\<open>execution/local_snapshot.py\<close>).
  Events arrive parsed; a payload of a result keeps decimals as numbers.
\<close>

section \<open>Events\<close>

record ExecutionReport =
  xr_symbol :: string
  xr_client_order_id :: string
  xr_side :: string
  xr_order_type :: string
  xr_execution_type :: string
  xr_order_status :: string
  xr_exchange_order_id :: string
  xr_last_qty :: rat
  xr_cumulative_qty :: rat
  xr_last_price :: rat
  xr_fee :: rat
  xr_fee_asset :: "string option"
  xr_trade_id :: "string option"
  xr_event_time_ms :: int
  xr_stp_prevented_match_id :: "string option"

record BalancePosition =
  bp_balances :: "(string, rat \<times> rat) dict"
  bp_event_time_ms :: int

record BalanceUpdate =
  bu_asset :: string
  bu_delta :: rat
  bu_clear_time_ms :: int
  bu_event_time_ms :: int

record FuturesPositionUpdate =
  fp_positions :: "(string, rat) dict"
  fp_balances :: "(string, rat) dict"
  fp_event_time_ms :: int

datatype user_event =
    ExecutionEvent ExecutionReport
  | BalanceEvent BalancePosition
  | FuturesEvent FuturesPositionUpdate
  | BalanceChange BalanceUpdate
  | StreamTerminated int
  | UnknownUserEvent string

datatype payload_value = PText string | PNone | PDec rat | PInt nat

record ProjectionResult =
  pj_classification :: string
  pj_action :: string
  pj_payload :: "(string, payload_value) dict"

record PrivateStreamProjector =
  ps_prefix :: string
  ps_seen_trades :: "string list"
  ps_order_states :: "(string, string) dict"
  ps_balances :: "(string, rat \<times> rat) dict"
  ps_positions :: "(string, rat) dict"
  ps_terminated :: bool
  ps_order_progress :: "(string, string \<times> rat \<times> int) dict"

definition TERMINAL :: "string list" where
  "TERMINAL = [''FILLED'', ''CANCELED'', ''CANCELLED'', ''REJECTED'', ''EXPIRED'', ''EXPIRED_IN_MATCH'']"

definition RANK :: "(string, int) dict" where
  "RANK = [(''NEW'', 1), (''PENDING_NEW'', 1), (''PARTIALLY_FILLED'', 2), (''PENDING_CANCEL'', 3), (''FILLED'', 4), (''CANCELED'', 4), (''CANCELLED'', 4),
     (''REJECTED'', 4), (''EXPIRED'', 4), (''EXPIRED_IN_MATCH'', 4)]"

definition new_projector :: "string \<Rightarrow> PrivateStreamProjector" where
  "new_projector prefix = \<lparr>ps_prefix = prefix, ps_seen_trades = [], ps_order_states = [], ps_balances = [], ps_positions = [], ps_terminated = False, ps_order_progress = []\<rparr>"

section \<open>Projection\<close>

definition opt_text :: "string option \<Rightarrow> payload_value" where
  "opt_text x = (case x of None \<Rightarrow> PNone | Some t \<Rightarrow> PText t)"

text \<open>Why a report for a known order is not applied, if so.\<close>

definition refusal :: "ExecutionReport \<Rightarrow> string \<times> rat \<times> int \<Rightarrow> ProjectionResult option" where
  "refusal e previous =
     (case previous of (prev_status, prev_qty, prev_time) \<Rightarrow>
        let both = [(''status'', PText (xr_order_status e)), (''previous_status'', PText prev_status)] in
        if xr_event_time_ms e < prev_time \<or> xr_cumulative_qty e < prev_qty
        then Some \<lparr>pj_classification = ''STALE_ORDER_EVENT'', pj_action = ''IGNORE_AND_RECONCILE'', pj_payload = both\<rparr>
        else if prev_status \<in> set TERMINAL \<and> xr_order_status e \<noteq> prev_status
        then Some \<lparr>pj_classification = ''TERMINAL_ORDER_REGRESSION'', pj_action = ''MANUAL_REVIEW_REQUIRED'', pj_payload = both\<rparr>
        else if get_or RANK (xr_order_status e) 0 < get_or RANK prev_status 0 \<and> xr_cumulative_qty e \<le> prev_qty
        then Some \<lparr>pj_classification = ''OUT_OF_ORDER_ORDER_EVENT'', pj_action = ''IGNORE_AND_RECONCILE'', pj_payload = both\<rparr>
        else if xr_event_time_ms e = prev_time \<and> xr_order_status e = prev_status \<and> xr_cumulative_qty e = prev_qty
        then Some \<lparr>pj_classification = ''DUPLICATE_ORDER_EVENT'', pj_action = ''IGNORE_IDEMPOTENT'', pj_payload = [(''status'', PText (xr_order_status e))]\<rparr>
        else None)"

definition has_trade :: "ExecutionReport \<Rightarrow> bool" where
  "has_trade e = (case xr_trade_id e of None \<Rightarrow> False | Some t \<Rightarrow> t \<noteq> [])"

definition apply_report :: "ExecutionReport \<Rightarrow> PrivateStreamProjector \<Rightarrow> PrivateStreamProjector \<times> ProjectionResult" where
  "apply_report e s =
     (let c = xr_client_order_id e
      in (s\<lparr>ps_seen_trades := (if has_trade e then the (xr_trade_id e) # ps_seen_trades s else ps_seen_trades s),
            ps_order_states := dset c (xr_order_status e) (ps_order_states s),
            ps_order_progress := dset c (xr_order_status e, xr_cumulative_qty e, xr_event_time_ms e) (ps_order_progress s)\<rparr>,
          \<lparr>pj_classification = ''KNOWN_PLATFORM_ACTIVITY'', pj_action = ''APPLY_ORDER_EVENT'',
           pj_payload = [(''status'', PText (xr_order_status e)), (''last_qty'', PDec (xr_last_qty e)), (''trade_id'', opt_text (xr_trade_id e))]\<rparr>))"

definition project_report :: "ExecutionReport \<Rightarrow> PrivateStreamProjector \<Rightarrow> PrivateStreamProjector \<times> ProjectionResult" where
  "project_report e s =
     (if \<not> startswith (xr_client_order_id e) (ps_prefix s)
      then (s, \<lparr>pj_classification = ''UNKNOWN_ORDER'', pj_action = ''MANUAL_REVIEW_REQUIRED'',
                pj_payload = [(''client_order_id'', PText (xr_client_order_id e)), (''symbol'', PText (xr_symbol e))]\<rparr>)
      else if has_trade e \<and> the (xr_trade_id e) \<in> set (ps_seen_trades s)
      then (s, \<lparr>pj_classification = ''DUPLICATE_FILL'', pj_action = ''IGNORE_IDEMPOTENT'', pj_payload = [(''trade_id'', opt_text (xr_trade_id e))]\<rparr>)
      else case dget (ps_order_progress s) (xr_client_order_id e) of
             None \<Rightarrow> apply_report e s
           | Some previous \<Rightarrow> (case refusal e previous of Some r \<Rightarrow> (s, r) | None \<Rightarrow> apply_report e s))"

definition dupdate :: "('k, 'v) dict \<Rightarrow> ('k, 'v) dict \<Rightarrow> ('k, 'v) dict" where
  "dupdate new d = fold (\<lambda>(k, v). dset k v) new d"

definition project :: "user_event \<Rightarrow> PrivateStreamProjector \<Rightarrow> PrivateStreamProjector \<times> ProjectionResult" where
  "project event s =
     (case event of
        ExecutionEvent e \<Rightarrow> project_report e s
      | BalanceEvent b \<Rightarrow> (s\<lparr>ps_balances := dupdate (bp_balances b) (ps_balances s)\<rparr>,
          \<lparr>pj_classification = ''KNOWN_ACCOUNT_SNAPSHOT'', pj_action = ''APPLY_BALANCE_SNAPSHOT'', pj_payload = [(''assets'', PInt (length (bp_balances b)))]\<rparr>)
      | FuturesEvent f \<Rightarrow> (s\<lparr>ps_positions := dupdate (fp_positions f) (ps_positions s)\<rparr>,
          \<lparr>pj_classification = ''KNOWN_POSITION_SNAPSHOT'', pj_action = ''APPLY_POSITION_AND_BALANCE_SNAPSHOT'',
           pj_payload = [(''positions'', PInt (length (fp_positions f))), (''balances'', PInt (length (fp_balances f)))]\<rparr>)
      | BalanceChange b \<Rightarrow> (s, \<lparr>pj_classification = ''UNKNOWN_BALANCE_CHANGE'', pj_action = ''MANUAL_REVIEW_REQUIRED'',
          pj_payload = [(''asset'', PText (bu_asset b)), (''delta'', PDec (bu_delta b))]\<rparr>)
      | StreamTerminated t \<Rightarrow> (s\<lparr>ps_terminated := True\<rparr>, \<lparr>pj_classification = ''PRIVATE_STREAM_TERMINATED'', pj_action = ''HALT_NEW_RISK'', pj_payload = []\<rparr>)
      | UnknownUserEvent t \<Rightarrow> (s, \<lparr>pj_classification = ''UNKNOWN_EVENT'', pj_action = ''QUARANTINE'', pj_payload = [(''event_type'', PText t)]\<rparr>))"

definition project_step :: "user_event \<Rightarrow> PrivateStreamProjector \<Rightarrow> PrivateStreamProjector" where
  "project_step event s = fst (project event s)"

section \<open>Payload contracts and the local snapshot\<close>

record ApiSchema =
  ap_version :: string
  ap_required_fields :: "string list"
  ap_optional_fields :: "string list"

record SchemaCompatibility =
  sc_compatible :: bool
  sc_missing_required :: "string list"
  sc_unknown_fields :: "string list"
  sc_version :: string

definition validate_payload :: "string list \<Rightarrow> ApiSchema \<Rightarrow> bool \<Rightarrow> SchemaCompatibility" where
  "validate_payload keys schema reject_unknown =
     (let missing = sorted_set (filter (\<lambda>k. k \<notin> set keys) (ap_required_fields schema));
          unknown = sorted_set (filter (\<lambda>k. k \<notin> set (ap_required_fields schema) \<union> set (ap_optional_fields schema)) keys)
      in \<lparr>sc_compatible = (missing = [] \<and> (\<not> reject_unknown \<or> unknown = [])), sc_missing_required = missing, sc_unknown_fields = unknown, sc_version = ap_version schema\<rparr>)"

definition changelog_requires_review :: "ApiSchema \<Rightarrow> ApiSchema \<Rightarrow> bool" where
  "changelog_requires_review old new \<longleftrightarrow>
     set (ap_required_fields new) - set (ap_required_fields old) \<noteq> {} \<or> set (ap_required_fields old) - set (ap_required_fields new) \<noteq> {}"

text \<open>Rows of the account tables: asset, free and locked; symbol and quantity; status and exchange order id.\<close>

definition ACTIVE_STATUSES :: "string list" where
  "ACTIVE_STATUSES = [''CREATED'', ''SUBMITTED'', ''ACKNOWLEDGED'', ''PARTIALLY_FILLED'', ''CANCEL_PENDING'', ''UNKNOWN'']"

definition local_snapshot ::
  "(string \<times> string \<times> rat \<times> rat) list \<Rightarrow> (string \<times> string \<times> rat) list \<Rightarrow> (string \<times> string \<times> string option) list \<Rightarrow> string \<Rightarrow> AccountSnapshot" where
  "local_snapshot balance_rows position_rows order_rows account_id =
     \<lparr>as_balances = fold (\<lambda>(acct, asset, free, locked) d. if acct = account_id then dset asset (dec (free + locked)) d else d) balance_rows [],
      as_positions = fold (\<lambda>(acct, symbol, qty) d. if acct = account_id \<and> qty \<noteq> 0 then dset symbol qty d else d) position_rows [],
      as_open_order_ids = remdups (concat (map (\<lambda>(acct, status, oid). if acct = account_id \<and> status \<in> set ACTIVE_STATUSES
         then (case oid of None \<Rightarrow> [] | Some i \<Rightarrow> if i = [] then [] else [i]) else []) order_rows))\<rparr>"

section \<open>Progress never goes back\<close>

fun fill_hit :: "string \<Rightarrow> user_event \<Rightarrow> PrivateStreamProjector \<Rightarrow> bool" where
  "fill_hit t (ExecutionEvent e) s = (t \<noteq> [] \<and> xr_trade_id e = Some t \<and> pj_action (snd (project (ExecutionEvent e) s)) = ''APPLY_ORDER_EVENT'')"
| "fill_hit t event s = False"

lemma refusal_action: "refusal e p = Some r \<Longrightarrow> pj_action r \<noteq> ''APPLY_ORDER_EVENT''"
  by (auto simp: refusal_def Let_def split: prod.splits if_splits)

lemma refusal_None: "refusal e (st, q, t) = None \<Longrightarrow> t \<le> xr_event_time_ms e \<and> q \<le> xr_cumulative_qty e \<and> (st \<in> set TERMINAL \<longrightarrow> xr_order_status e = st)"
  by (auto simp: refusal_def Let_def split: if_splits)

lemma project_report_applied:
  assumes "pj_action (snd (project_report e s)) = ''APPLY_ORDER_EVENT''"
  shows "fst (project_report e s) = fst (apply_report e s) \<and> \<not> (has_trade e \<and> the (xr_trade_id e) \<in> set (ps_seen_trades s))"
  using assms refusal_action by (auto simp: project_report_def split: if_splits option.splits)

lemma project_report_cases:
  "fst (project_report e s) = s \<or>
   fst (project_report e s) = fst (apply_report e s) \<and> (\<forall>p. dget (ps_order_progress s) (xr_client_order_id e) = Some p \<longrightarrow> refusal e p = None)"
  by (auto simp: project_report_def split: option.splits)

interpretation fills: one_time project_step fill_hit "\<lambda>t s. t \<in> set (ps_seen_trades s)" "\<lambda>_ _. True" "\<lambda>_. True"
proof
  fix t op s
  show "fill_hit t op s \<Longrightarrow> t \<notin> set (ps_seen_trades s)"
    by (cases op) (auto simp: project_def has_trade_def dest: project_report_applied)
  show "fill_hit t op s \<Longrightarrow> t \<in> set (ps_seen_trades (project_step op s))"
    by (cases op) (auto simp: project_step_def project_def apply_report_def has_trade_def Let_def dest: project_report_applied)
  show "t \<in> set (ps_seen_trades s) \<Longrightarrow> t \<in> set (ps_seen_trades (project_step op s))"
  proof (cases op)
    case (ExecutionEvent e)
    assume "t \<in> set (ps_seen_trades s)"
    then show ?thesis using project_report_cases [of e s] ExecutionEvent by (auto simp: project_step_def project_def apply_report_def Let_def)
  qed (simp_all add: project_step_def project_def)
qed simp_all

definition progress_le :: "string \<times> rat \<times> int \<Rightarrow> string \<times> rat \<times> int \<Rightarrow> bool" where
  "progress_le p p' \<longleftrightarrow> snd (snd p) \<le> snd (snd p') \<and> fst (snd p) \<le> fst (snd p') \<and> (fst p \<in> set TERMINAL \<longrightarrow> fst p' = fst p)"

lemma progress_step:
  assumes "dget (ps_order_progress s) c = Some p"
  shows "\<exists>p'. dget (ps_order_progress (project_step op s)) c = Some p' \<and> progress_le p p'"
proof (cases op)
  case (ExecutionEvent e)
  obtain st q t where p: "p = (st, q, t)" by (cases p)
  from project_report_cases [of e s] show ?thesis
  proof
    assume "fst (project_report e s) = s"
    then show ?thesis using assms ExecutionEvent by (auto simp: project_step_def project_def progress_le_def)
  next
    assume a: "fst (project_report e s) = fst (apply_report e s) \<and> (\<forall>p. dget (ps_order_progress s) (xr_client_order_id e) = Some p \<longrightarrow> refusal e p = None)"
    show ?thesis
    proof (cases "xr_client_order_id e = c")
      case True
      with a assms p have "refusal e (st, q, t) = None" by blast
      from refusal_None [OF this] True a p ExecutionEvent show ?thesis
        by (auto simp: project_step_def project_def apply_report_def progress_le_def Let_def)
    next
      case False
      then show ?thesis using a assms ExecutionEvent by (auto simp: project_step_def project_def apply_report_def progress_le_def Let_def)
    qed
  qed
qed (use assms in \<open>auto simp: project_step_def project_def progress_le_def\<close>)

lemma progress_run:
  assumes "dget (ps_order_progress s) c = Some p"
  shows "\<exists>p'. dget (ps_order_progress (fold project_step evs s)) c = Some p' \<and> progress_le p p'"
  using assms
proof (induction evs arbitrary: s p)
  case Nil
  then show ?case by (auto simp: progress_le_def)
next
  case (Cons ev evs)
  from progress_step [OF Cons.prems, of ev] obtain p1 where p1: "dget (ps_order_progress (project_step ev s)) c = Some p1" "progress_le p p1" by blast
  from Cons.IH [OF p1(1)] obtain p2 where "dget (ps_order_progress (fold project_step evs (project_step ev s))) c = Some p2" "progress_le p1 p2" by blast
  moreover from this(2) p1(2) have "progress_le p p2" unfolding progress_le_def by (auto intro: order_trans)
  ultimately show ?case by auto
qed

text \<open>C9: whatever the private stream delivers, repeats or reorders, every fill is applied at most once, and what has been applied of an order never goes
  back: neither its time nor its cumulative quantity decreases, and a terminal status never changes.
\<close>

theorem stream_never_regresses:
  "hits project_step fill_hit t evs s \<le> 1 \<and>
   (dget (ps_order_progress s) c = Some (st, q, tm) \<longrightarrow>
      (\<exists>st' q' tm'. dget (ps_order_progress (fold project_step evs s)) c = Some (st', q', tm') \<and> tm \<le> tm' \<and> q \<le> q' \<and> (st \<in> set TERMINAL \<longrightarrow> st' = st)))"
  using fills.at_most_once [of evs s t] progress_run [of s c "(st, q, tm)" evs] by (auto simp: progress_le_def)

definition demo_report :: ExecutionReport where
  "demo_report = \<lparr>xr_symbol = ''BTC'', xr_client_order_id = ''ctp-1'', xr_side = ''BUY'', xr_order_type = ''LIMIT'', xr_execution_type = ''TRADE'',
     xr_order_status = ''FILLED'', xr_exchange_order_id = ''9'', xr_last_qty = 1, xr_cumulative_qty = 1, xr_last_price = 10, xr_fee = 0, xr_fee_asset = None,
     xr_trade_id = Some ''7'', xr_event_time_ms = 5, xr_stp_prevented_match_id = None\<rparr>"

theorem stream_never_regresses_witness:
  "\<exists>st q tm. dget (ps_order_progress (project_step (ExecutionEvent demo_report) (new_projector ''ctp-''))) ''ctp-1'' = Some (''FILLED'', 1, 5) \<and>
     dget (ps_order_progress (fold project_step [ExecutionEvent demo_report, ExecutionEvent (demo_report\<lparr>xr_order_status := ''NEW'', xr_trade_id := None\<rparr>)]
       (project_step (ExecutionEvent demo_report) (new_projector ''ctp-'')))) ''ctp-1'' = Some (st, q, tm) \<and> st = ''FILLED''"
proof -
  have a: "dget (ps_order_progress (project_step (ExecutionEvent demo_report) (new_projector ''ctp-''))) ''ctp-1'' = Some (''FILLED'', 1, 5)"
    by (simp add: project_step_def project_def project_report_def apply_report_def new_projector_def demo_report_def has_trade_def Let_def)
  have "''FILLED'' \<in> set TERMINAL" by (simp add: TERMINAL_def)
  then show ?thesis using a
    stream_never_regresses [of "''7''" "[ExecutionEvent demo_report, ExecutionEvent (demo_report\<lparr>xr_order_status := ''NEW'', xr_trade_id := None\<rparr>)]"
      "project_step (ExecutionEvent demo_report) (new_projector ''ctp-'')" "''ctp-1''" "''FILLED''" 1 5] by blast
qed

end
