(* ===== verification/Backtest.thy ===== *)
theory Backtest
  imports Money "HOL-Library.Sublist" "HOL-Library.Product_Lexorder"
begin

text \<open>
  Backtests (\<open>backend/app/backtest/engine.py\<close>) in decimal arithmetic, the conservative fill model (\<open>backtest/execution_model.py\<close>), dataset manifests
  (\<open>backtest/dataset.py\<close>) and the temporal splits (\<open>backtest/validation.py\<close>, \<open>research/time_validation.py\<close>). Prices of a bar are the exact decimals of their
  text, the signal function, the universe function and hashes are arguments. A loop that a zero step can keep running for ever
  is a \<open>partial_function\<close>.
\<close>

section \<open>One symbol\<close>

record Bar =
  br_open_time :: int
  br_open :: rat
  br_high :: rat
  br_low :: rat
  br_atr :: "rat option"

record CostModel =
  cm_risk_fraction :: rat
  cm_fee_bps :: rat
  cm_slippage_bps :: rat
  cm_spread_bps :: rat

record BtPosition =
  po_entry :: rat
  po_stop :: rat
  po_tp :: rat
  po_qty :: rat
  po_time :: int

record Trade =
  tr_entry_time :: int
  tr_exit_time :: int
  tr_side :: string
  tr_qty :: rat
  tr_entry :: rat
  tr_exit :: rat
  tr_fee :: rat
  tr_slippage :: rat
  tr_pnl :: rat
  tr_exit_reason :: string
  tr_symbol :: string

definition crossing :: "CostModel \<Rightarrow> rat" where
  "crossing c = dec (dec (dec (cm_spread_bps c / 2) + cm_slippage_bps c) / 10000)"

definition buy_price :: "CostModel \<Rightarrow> rat \<Rightarrow> rat" where
  "buy_price c px = dec (px * dec (1 + crossing c))"

definition sell_price :: "CostModel \<Rightarrow> rat \<Rightarrow> rat" where
  "sell_price c px = dec (px * dec (1 - crossing c))"

definition slipped :: "CostModel \<Rightarrow> rat \<Rightarrow> rat" where
  "slipped c px = dec (px * dec (1 - dec (cm_slippage_bps c / 10000)))"

definition bar_atr :: "Bar \<Rightarrow> rat" where
  "bar_atr b = (case br_atr b of Some a \<Rightarrow> a | None \<Rightarrow> max (dec (br_high b - br_low b)) (1 / 100))"

definition open_position :: "CostModel \<Rightarrow> rat \<Rightarrow> Bar \<Rightarrow> Bar \<Rightarrow> BtPosition res" where
  "open_position c equity prev bar =
     (let entry = buy_price c (br_open bar); stop = dec (entry - dec (bar_atr prev * 2));
          costs = dec (dec (dec (cm_fee_bps c * 2) + cm_spread_bps c) + dec (cm_slippage_bps c * 2));
          risk_per_unit = dec (dec (entry - stop) + dec (dec (entry * costs) / 10000))
      in bind_res (ddiv (dec (equity * cm_risk_fraction c)) risk_per_unit) (\<lambda>qty.
           Inr \<lparr>po_entry = entry, po_stop = stop, po_tp = dec (entry + dec (dec (entry - stop) * 2)), po_qty = qty, po_time = br_open_time bar\<rparr>))"

definition exit_decision :: "CostModel \<Rightarrow> BtPosition \<Rightarrow> Bar \<Rightarrow> string \<Rightarrow> (rat \<times> string) option" where
  "exit_decision c pos bar signal =
     (if br_low bar \<le> po_stop pos then Some (slipped c (po_stop pos), ''STOP'')
      else if po_tp pos \<le> br_high bar then Some (slipped c (po_tp pos), ''TP'')
      else if signal = ''SELL'' then Some (sell_price c (br_open bar), ''SIGNAL'')
      else None)"

definition close_trade :: "CostModel \<Rightarrow> BtPosition \<Rightarrow> Bar \<Rightarrow> rat \<Rightarrow> string \<Rightarrow> string \<Rightarrow> Trade" where
  "close_trade c pos bar exit_price reason symbol =
     (let notional = dec (dec (po_entry pos + exit_price) * po_qty pos); fee = dec (dec (notional * cm_fee_bps c) / 10000);
          slip = dec (dec (notional * cm_slippage_bps c) / 10000); pnl = dec (dec (dec (exit_price - po_entry pos) * po_qty pos) - fee)
      in \<lparr>tr_entry_time = po_time pos, tr_exit_time = br_open_time bar, tr_side = ''LONG'', tr_qty = po_qty pos, tr_entry = po_entry pos, tr_exit = exit_price,
          tr_fee = fee, tr_slippage = slip, tr_pnl = pnl, tr_exit_reason = reason, tr_symbol = symbol\<rparr>)"

definition drawdown_of :: "rat \<Rightarrow> rat \<Rightarrow> rat" where
  "drawdown_of peak equity = (if peak = 0 then 0 else dec (dec (peak - equity) / peak))"

record BtState =
  bs_equity :: rat
  bs_peak :: rat
  bs_maxdd :: rat
  bs_trades :: "Trade list"
  bs_pos :: "BtPosition option"

definition mark_to_peak :: "BtState \<Rightarrow> BtState" where
  "mark_to_peak s =
     (let peak = max (bs_peak s) (bs_equity s) in s\<lparr>bs_peak := peak, bs_maxdd := max (bs_maxdd s) (drawdown_of peak (bs_equity s))\<rparr>)"

definition bar_step :: "CostModel \<Rightarrow> (Bar list \<Rightarrow> string) \<Rightarrow> Bar list \<Rightarrow> nat \<Rightarrow> BtState \<Rightarrow> BtState res" where
  "bar_step c signal_fn candles i s =
     (let prev = candles ! (i - 1); bar = candles ! i; signal = signal_fn (take i candles)
      in case bs_pos s of
           None \<Rightarrow> if signal = ''BUY'' then bind_res (open_position c (bs_equity s) prev bar) (\<lambda>p. Inr (mark_to_peak (s\<lparr>bs_pos := Some p\<rparr>)))
                   else Inr (mark_to_peak s)
         | Some pos \<Rightarrow>
           (case exit_decision c pos bar signal of
              None \<Rightarrow> Inr (mark_to_peak s)
            | Some (exit_price, reason) \<Rightarrow>
              if exit_price = 0 then Inr (mark_to_peak s)
              else let t = close_trade c pos bar exit_price reason []
                   in Inr (mark_to_peak (s\<lparr>bs_equity := dec (bs_equity s + tr_pnl t), bs_trades := bs_trades s @ [t], bs_pos := None\<rparr>))))"

fun bar_loop :: "CostModel \<Rightarrow> (Bar list \<Rightarrow> string) \<Rightarrow> Bar list \<Rightarrow> nat list \<Rightarrow> BtState \<Rightarrow> BtState res" where
  "bar_loop c f candles [] s = Inr s"
| "bar_loop c f candles (i # is) s = bind_res (bar_step c f candles i s) (bar_loop c f candles is)"

definition start_state :: "rat \<Rightarrow> BtState" where
  "start_state equity = \<lparr>bs_equity = equity, bs_peak = equity, bs_maxdd = 0, bs_trades = [], bs_pos = None\<rparr>"

definition run_backtest :: "CostModel \<Rightarrow> rat \<Rightarrow> (Bar list \<Rightarrow> string) \<Rightarrow> Bar list \<Rightarrow> BtState res" where
  "run_backtest c initial_equity signal_fn candles = bar_loop c signal_fn candles [1..<length candles] (start_state initial_equity)"

section \<open>Many symbols on shared equity\<close>

record MaState =
  ms_equity :: rat
  ms_peak :: rat
  ms_maxdd :: rat
  ms_positions :: "(string, BtPosition) dict"
  ms_trades :: "Trade list"
  ms_curve :: "(int \<times> rat) list"

type_synonym candle_sets = "(string, Bar list) dict"

definition timeline :: "candle_sets \<Rightarrow> (int \<times> string \<times> nat) list" where
  "timeline cs = concat (map (\<lambda>(sy, rows). map (\<lambda>i. (br_open_time (rows ! i), sy, i)) [1..<length rows]) cs)"

definition entries_at :: "candle_sets \<Rightarrow> int \<Rightarrow> (string \<times> nat) list" where
  "entries_at cs ts = sort (map snd (filter (\<lambda>e. fst e = ts) (timeline cs)))"

definition rows_of :: "candle_sets \<Rightarrow> string \<Rightarrow> Bar list" where
  "rows_of cs sy = get_or cs sy []"

definition exit_one ::
  "CostModel \<Rightarrow> (string \<Rightarrow> Bar list \<Rightarrow> string) \<Rightarrow> candle_sets \<Rightarrow> string list \<Rightarrow> string \<times> nat \<Rightarrow> MaState \<Rightarrow> MaState" where
  "exit_one c signal_fn cs active e s =
     (case e of (sy, i) \<Rightarrow>
        case dget (ms_positions s) sy of
          None \<Rightarrow> s
        | Some pos \<Rightarrow>
          let bar = rows_of cs sy ! i; signal = signal_fn sy (take i (rows_of cs sy));
              d = (if sy \<notin> set active then Some (sell_price c (br_open bar), ''UNIVERSE_EXIT'') else exit_decision c pos bar signal)
          in case d of
               None \<Rightarrow> s
             | Some (exit_price, reason) \<Rightarrow>
               let t = close_trade c pos bar exit_price reason sy
               in s\<lparr>ms_equity := dec (ms_equity s + tr_pnl t), ms_trades := ms_trades s @ [t], ms_positions := ddel sy (ms_positions s)\<rparr>)"

definition enter_one ::
  "CostModel \<Rightarrow> (string \<Rightarrow> Bar list \<Rightarrow> string) \<Rightarrow> candle_sets \<Rightarrow> int \<Rightarrow> string list \<Rightarrow> string \<times> nat \<Rightarrow> MaState \<Rightarrow> MaState res" where
  "enter_one c signal_fn cs max_positions active e s =
     (case e of (sy, i) \<Rightarrow>
        if dget (ms_positions s) sy \<noteq> None \<or> sy \<notin> set active \<or> max_positions \<le> int (length (ms_positions s)) then Inr s
        else let rows = rows_of cs sy in
          if signal_fn sy (take i rows) \<noteq> ''BUY'' then Inr s
          else bind_res (open_position c (ms_equity s) (rows ! (i - 1)) (rows ! i)) (\<lambda>p. Inr (s\<lparr>ms_positions := dset sy p (ms_positions s)\<rparr>)))"

fun enter_all ::
  "CostModel \<Rightarrow> (string \<Rightarrow> Bar list \<Rightarrow> string) \<Rightarrow> candle_sets \<Rightarrow> int \<Rightarrow> string list \<Rightarrow> (string \<times> nat) list \<Rightarrow> MaState \<Rightarrow> MaState res" where
  "enter_all c f cs m active [] s = Inr s"
| "enter_all c f cs m active (e # es) s = bind_res (enter_one c f cs m active e s) (enter_all c f cs m active es)"

definition time_step ::
  "CostModel \<Rightarrow> (string \<Rightarrow> Bar list \<Rightarrow> string) \<Rightarrow> (int \<Rightarrow> string list) option \<Rightarrow> candle_sets \<Rightarrow> int \<Rightarrow> int \<Rightarrow> MaState \<Rightarrow> MaState res" where
  "time_step c f universe cs m ts s =
     (let active = (case universe of None \<Rightarrow> map fst cs | Some u \<Rightarrow> u ts); es = entries_at cs ts
      in bind_res (enter_all c f cs m active es (fold (exit_one c f cs active) es s)) (\<lambda>s1.
           let peak = max (ms_peak s1) (ms_equity s1)
           in Inr (s1\<lparr>ms_peak := peak, ms_maxdd := max (ms_maxdd s1) (drawdown_of peak (ms_equity s1)), ms_curve := ms_curve s1 @ [(ts, flt (ms_equity s1))]\<rparr>)))"

fun time_loop ::
  "CostModel \<Rightarrow> (string \<Rightarrow> Bar list \<Rightarrow> string) \<Rightarrow> (int \<Rightarrow> string list) option \<Rightarrow> candle_sets \<Rightarrow> int \<Rightarrow> int list \<Rightarrow> MaState \<Rightarrow> MaState res" where
  "time_loop c f u cs m [] s = Inr s"
| "time_loop c f u cs m (ts # tss) s = bind_res (time_step c f u cs m ts s) (time_loop c f u cs m tss)"

definition run_multi_asset ::
  "CostModel \<Rightarrow> rat \<Rightarrow> (string \<Rightarrow> Bar list \<Rightarrow> string) \<Rightarrow> (int \<Rightarrow> string list) option \<Rightarrow> int \<Rightarrow> candle_sets \<Rightarrow> MaState res" where
  "run_multi_asset c initial_equity f u m cs =
     time_loop c f u cs m (sorted_set (map fst (timeline cs)))
       \<lparr>ms_equity = initial_equity, ms_peak = initial_equity, ms_maxdd = 0, ms_positions = [], ms_trades = [], ms_curve = []\<rparr>"

section \<open>Fills\<close>

record FillDecision =
  fd_filled :: bool
  fd_price :: "rat option"
  fd_reason :: string

definition fill :: "rat \<Rightarrow> string \<Rightarrow> FillDecision" where
  "fill px reason = \<lparr>fd_filled = True, fd_price = Some px, fd_reason = reason\<rparr>"

definition no_fill :: "string \<Rightarrow> FillDecision" where
  "no_fill reason = \<lparr>fd_filled = False, fd_price = None, fd_reason = reason\<rparr>"

definition next_bar_market_fill :: "string \<Rightarrow> rat \<Rightarrow> rat \<Rightarrow> FillDecision res" where
  "next_bar_market_fill side px slippage_bps =
     (let slip = dec (slippage_bps / 10000)
      in if px \<le> 0 then Inl (ValueError ''next open must be positive'')
         else Inr (fill (dec (px * (if upper side = ''BUY'' then dec (1 + slip) else dec (1 - slip)))) ''NEXT_BAR_MARKET''))"

definition conservative_exit_long :: "rat \<Rightarrow> rat \<Rightarrow> rat \<Rightarrow> rat \<Rightarrow> rat \<Rightarrow> rat \<Rightarrow> FillDecision" where
  "conservative_exit_long op h l st t slippage_bps =
     (let keep = dec (1 - dec (slippage_bps / 10000))
      in if op \<le> st then fill (dec (op * keep)) ''STOP_GAP_THROUGH''
         else if l \<le> st then fill (dec (st * keep)) ''STOP_CONSERVATIVE''
         else if t \<le> h then fill (dec (t * keep)) ''TAKE_PROFIT''
         else no_fill ''NO_EXIT'')"

definition conservative_limit_fill :: "string \<Rightarrow> rat \<Rightarrow> rat \<Rightarrow> rat \<Rightarrow> bool \<Rightarrow> rat \<Rightarrow> rat option \<Rightarrow> FillDecision" where
  "conservative_limit_fill side lp h l require_penetration queue_fill_ratio available_liquidity =
     (let buy = (upper side = ''BUY''); touched = (if buy then l \<le> lp else lp \<le> h); penetrated = (if buy then l < lp else lp < h)
      in if \<not> touched then no_fill ''LIMIT_NOT_TOUCHED''
         else if require_penetration \<and> \<not> penetrated then no_fill ''TOUCH_NOT_GUARANTEED''
         else if queue_fill_ratio \<le> 0 then no_fill ''QUEUE_NO_FILL''
         else if (case available_liquidity of None \<Rightarrow> False | Some q \<Rightarrow> q \<le> 0) then no_fill ''NO_LIQUIDITY''
         else fill lp ''LIMIT_CONSERVATIVE'')"

record IntrabarEvidence =
  ie_lower_timeframe_order :: "string option"
  ie_tick_trade_order :: "string option"
  ie_orderbook_order :: "string option"

fun first_evidence :: "(string \<times> string option) list \<Rightarrow> (string \<times> string) option" where
  "first_evidence [] = None"
| "first_evidence ((source, x) # xs) = (case x of None \<Rightarrow> first_evidence xs | Some w \<Rightarrow> if w = [] then first_evidence xs else Some (source, upper w))"

definition resolve_long_stop_take_profit :: "rat \<Rightarrow> rat \<Rightarrow> rat \<Rightarrow> rat \<Rightarrow> rat \<Rightarrow> IntrabarEvidence option \<Rightarrow> rat \<Rightarrow> FillDecision res" where
  "resolve_long_stop_take_profit op h l st t evidence slippage_bps =
     (if \<not> (l \<le> st \<and> t \<le> h) then Inr (conservative_exit_long op h l st t slippage_bps)
      else let ev = (case evidence of None \<Rightarrow> \<lparr>ie_lower_timeframe_order = None, ie_tick_trade_order = None, ie_orderbook_order = None\<rparr> | Some e \<Rightarrow> e)
           in case first_evidence [(''LOWER_TIMEFRAME'', ie_lower_timeframe_order ev), (''TICK_TRADE'', ie_tick_trade_order ev), (''ORDER_BOOK'', ie_orderbook_order ev)] of
                None \<Rightarrow> Inr (conservative_exit_long op h l st t slippage_bps)
              | Some (source, x) \<Rightarrow>
                if x \<noteq> ''STOP_FIRST'' \<and> x \<noteq> ''TP_FIRST'' then Inl (ValueError (''invalid '' @ source @ '' intrabar ordering''))
                else if x = ''STOP_FIRST'' then Inr (fill (dec (st * dec (1 - dec (slippage_bps / 10000)))) (''STOP_'' @ source @ ''_EVIDENCE''))
                else Inr (fill t (''TAKE_PROFIT_'' @ source @ ''_EVIDENCE'')))"

section \<open>Temporal splits\<close>

partial_function (option) walk_forward_loop :: "int \<Rightarrow> int \<Rightarrow> int \<Rightarrow> int \<Rightarrow> (int list \<times> int list) list \<Rightarrow> (int list \<times> int list) list option" where
  "walk_forward_loop n train test start out =
     (if start + train + test \<le> n
      then walk_forward_loop n train test (start + test) (out @ [([start..start + train - 1], [start + train..start + train + test - 1])])
      else Some out)"

definition walk_forward_splits :: "int \<Rightarrow> int \<Rightarrow> int \<Rightarrow> (int list \<times> int list) list option" where
  "walk_forward_splits n train test = walk_forward_loop n train test 0 []"

definition purged_embargo_train :: "int \<Rightarrow> int \<Rightarrow> int \<Rightarrow> int \<Rightarrow> int \<Rightarrow> int list \<times> int list" where
  "purged_embargo_train n test_start test_end purge embargo =
     (filter (\<lambda>i. i \<notin> set [test_start..test_end - 1] \<and> \<not> (test_start - purge \<le> i \<and> i < test_start) \<and> \<not> (test_end \<le> i \<and> i < test_end + embargo)) [0..n - 1],
      [test_start..test_end - 1])"

record Split =
  sp_train :: "int list"
  sp_validation :: "int list"
  sp_test :: "int list"

definition purged_embargo_split :: "int \<Rightarrow> int \<Rightarrow> int \<Rightarrow> int \<Rightarrow> int \<Rightarrow> int \<Rightarrow> Split res" where
  "purged_embargo_split n train_end validation_start validation_end purge embargo =
     (if \<not> (0 < train_end \<and> train_end \<le> validation_start \<and> validation_start < validation_end \<and> validation_end \<le> n) then Inl (ValueError ''invalid temporal boundaries'')
      else let train = [0..max 0 (train_end - purge) - 1]; validation = [min n (validation_start + purge)..validation_end - 1]; test = [min n (validation_end + embargo)..n - 1]
           in if set train \<inter> set validation \<noteq> {} \<or> set validation \<inter> set test \<noteq> {} then Inl (OtherException ''split leakage'')
              else Inr \<lparr>sp_train = train, sp_validation = validation, sp_test = test\<rparr>)"

partial_function (option) nested_loop :: "int \<Rightarrow> int \<Rightarrow> int \<Rightarrow> int \<Rightarrow> Split list \<Rightarrow> Split list option" where
  "nested_loop holdout_start validation step finish folds =
     (if finish + validation \<le> holdout_start
      then nested_loop holdout_start validation step (finish + step)
             (folds @ [\<lparr>sp_train = [0..finish - 1], sp_validation = [finish..finish + validation - 1], sp_test = []\<rparr>])
      else Some folds)"

definition nested_walk_forward :: "int \<Rightarrow> int \<Rightarrow> int \<Rightarrow> int \<Rightarrow> int \<Rightarrow> Split list option" where
  "nested_walk_forward n initial_train validation step final_holdout = nested_loop (n - final_holdout) validation step initial_train []"

section \<open>Dataset manifests\<close>

record DatasetManifest =
  dm_dataset_id :: string
  dm_provider_id :: string
  dm_symbols :: "string list"
  dm_start :: string
  dm_end :: string
  dm_universe_version :: string
  dm_metadata_versions :: "(string, string) dict"
  dm_cost_model_version :: string
  dm_row_count :: nat
  dm_content_sha256 :: string

definition manifest :: "('r list \<Rightarrow> string) \<Rightarrow> string \<Rightarrow> string \<Rightarrow> string list \<Rightarrow> string \<Rightarrow> string \<Rightarrow> string \<Rightarrow> (string, string) dict \<Rightarrow> string \<Rightarrow> 'r list \<Rightarrow> DatasetManifest" where
  "manifest digest dataset_id provider_id symbols start finish universe_version metadata_versions cost_model_version rows =
     \<lparr>dm_dataset_id = dataset_id, dm_provider_id = provider_id, dm_symbols = symbols, dm_start = start, dm_end = finish, dm_universe_version = universe_version,
      dm_metadata_versions = metadata_versions, dm_cost_model_version = cost_model_version, dm_row_count = length rows, dm_content_sha256 = digest rows\<rparr>"

definition verify_manifest :: "('r list \<Rightarrow> string) \<Rightarrow> DatasetManifest \<Rightarrow> 'r list \<Rightarrow> bool" where
  "verify_manifest digest m rows =
     (dm_content_sha256 (manifest digest (dm_dataset_id m) (dm_provider_id m) (dm_symbols m) (dm_start m) (dm_end m) (dm_universe_version m)
        (dm_metadata_versions m) (dm_cost_model_version m) rows) = dm_content_sha256 m)"

section \<open>No look-ahead\<close>

lemma bar_step_take: "i < n \<Longrightarrow> n \<le> length cs \<Longrightarrow> bar_step c f (take n cs) i s = bar_step c f cs i s"
  by (simp add: bar_step_def Let_def min_def)

lemma bar_loop_take: "\<forall>i \<in> set is. i < n \<Longrightarrow> n \<le> length cs \<Longrightarrow> bar_loop c f (take n cs) is s = bar_loop c f cs is s"
proof (induction "is" arbitrary: s)
  case (Cons i "is")
  then have "bar_step c f (take n cs) i s = bar_step c f cs i s" by (intro bar_step_take) simp_all
  with Cons show ?case by (cases "bar_step c f cs i s") simp_all
qed simp

lemma bar_loop_append: "bar_loop c f cs (is @ js) s = bind_res (bar_loop c f cs is s) (bar_loop c f cs js)"
proof (induction "is" arbitrary: s)
  case (Cons i "is")
  then show ?case by (cases "bar_step c f cs i s") simp_all
qed simp

lemma mark_to_peak_simps [simp]:
  "bs_trades (mark_to_peak s) = bs_trades s" "bs_equity (mark_to_peak s) = bs_equity s" "bs_pos (mark_to_peak s) = bs_pos s"
  by (simp_all add: mark_to_peak_def Let_def)

lemma bar_step_trades: "bar_step c f cs i s = Inr s' \<Longrightarrow> \<exists>ts. bs_trades s' = bs_trades s @ ts \<and> bs_equity s' = fold (\<lambda>t e. dec (e + tr_pnl t)) ts (bs_equity s)"
  by (auto simp: bar_step_def Let_def bind_res_Inr split: option.splits if_splits prod.splits)

lemma bar_loop_trades:
  "bar_loop c f cs is s = Inr s' \<Longrightarrow> \<exists>ts. bs_trades s' = bs_trades s @ ts \<and> bs_equity s' = fold (\<lambda>t e. dec (e + tr_pnl t)) ts (bs_equity s)"
proof (induction "is" arbitrary: s)
  case (Cons i "is")
  then obtain s1 where s1: "bar_step c f cs i s = Inr s1" "bar_loop c f cs is s1 = Inr s'" by (auto simp: bind_res_Inr)
  from bar_step_trades [OF s1(1)] obtain a where a: "bs_trades s1 = bs_trades s @ a" "bs_equity s1 = fold (\<lambda>t e. dec (e + tr_pnl t)) a (bs_equity s)" by blast
  from Cons.IH [OF s1(2)] obtain b where "bs_trades s' = bs_trades s1 @ b" "bs_equity s' = fold (\<lambda>t e. dec (e + tr_pnl t)) b (bs_equity s1)" by blast
  with a show ?case by (intro exI [of _ "a @ b"]) simp
qed auto

text \<open>The run on the first \<open>n\<close> bars ends in the state in which the full run goes on with bar \<open>n\<close>.\<close>

lemma run_backtest_prefix:
  assumes "0 < n" "n \<le> length cs" "run_backtest c e f (take n cs) = Inr s"
  shows "run_backtest c e f cs = bar_loop c f cs [n..<length cs] s"
proof -
  have split: "[1..<length cs] = [1..<n] @ [n..<length cs]" using assms(1,2) by (metis le_add_diff_inverse upt_add_eq_append Suc_leI One_nat_def)
  have "bar_loop c f cs [1..<n] (start_state e) = Inr s"
    using assms(2,3) bar_loop_take [of "[1..<n]" n cs c f "start_state e"] by (simp add: run_backtest_def min_absorb2)
  then show ?thesis unfolding run_backtest_def split bar_loop_append by simp
qed

text \<open>The two bars touch the stop and the target of a position in the same way.\<close>

definition same_touch :: "BtPosition \<Rightarrow> Bar \<Rightarrow> Bar \<Rightarrow> bool" where
  "same_touch pos b b' \<longleftrightarrow> (br_low b \<le> po_stop pos \<longleftrightarrow> br_low b' \<le> po_stop pos) \<and> (po_tp pos \<le> br_high b \<longleftrightarrow> po_tp pos \<le> br_high b')"

lemma bar_step_past:
  assumes "0 < n" "take n cs = take n cs'" "br_open (cs ! n) = br_open (cs' ! n)" "br_open_time (cs ! n) = br_open_time (cs' ! n)"
    and "\<And>pos. bs_pos s = Some pos \<Longrightarrow> same_touch pos (cs ! n) (cs' ! n)"
  shows "bar_step c f cs n s = bar_step c f cs' n s"
proof -
  have prev: "cs ! (n - 1) = cs' ! (n - 1)" using assms(1,2) by (metis diff_less less_numeral_extra(1) nth_take)
  show ?thesis
  proof (cases "bs_pos s")
    case None
    then show ?thesis by (simp add: bar_step_def open_position_def assms(2-4) prev [unfolded One_nat_def])
  next
    case (Some pos)
    from assms(5) [OF this] have "exit_decision c pos (cs ! n) x = exit_decision c pos (cs' ! n) x" for x
      by (simp add: exit_decision_def same_touch_def assms(3))
    moreover have "close_trade c pos (cs ! n) x r y = close_trade c pos (cs' ! n) x r y" for x r y
      by (simp add: close_trade_def assms(4))
    ultimately show ?thesis by (simp add: bar_step_def Some assms(2) Let_def split: option.split)
  qed
qed

text \<open>C34: a backtest does not look ahead. Let two series of candles agree in their first \<open>n\<close> bars and in the opening time and price of the next one. The run on the first \<open>n\<close> bars
  ends in the state in which each full run goes on with the next bar; in that bar both runs decide and trade alike, whatever else the bar and the later ones
  hold, unless there is an open position whose stop or target the bar reaches in one series and not in the other. And every run
  keeps the trades made so far and books the profit and loss of each later trade on the equity in order.
\<close>

theorem backtest_no_lookahead:
  assumes n: "0 < n" "n < length cs" "n < length cs'" and past: "take n cs = take n cs'"
    and run: "run_backtest c e f (take n cs) = Inr s"
    and entry: "br_open (cs ! n) = br_open (cs' ! n)" "br_open_time (cs ! n) = br_open_time (cs' ! n)"
    and touch: "\<And>pos. bs_pos s = Some pos \<Longrightarrow> same_touch pos (cs ! n) (cs' ! n)"
  shows "run_backtest c e f cs = bar_loop c f cs [n..<length cs] s \<and> run_backtest c e f cs' = bar_loop c f cs' [n..<length cs'] s \<and>
    run_backtest c e f (take (Suc n) cs) = run_backtest c e f (take (Suc n) cs') \<and>
    (\<forall>s'. run_backtest c e f cs = Inr s' \<longrightarrow>
       (\<exists>ts. bs_trades s' = bs_trades s @ ts \<and> bs_equity s' = fold (\<lambda>t eq. dec (eq + tr_pnl t)) ts (bs_equity s)))"
proof -
  have full: "run_backtest c e f cs = bar_loop c f cs [n..<length cs] s" using run_backtest_prefix [OF n(1) _ run] n(2) by simp
  have full': "run_backtest c e f cs' = bar_loop c f cs' [n..<length cs'] s"
    using run_backtest_prefix [of n cs' c e f s] n(1,3) run past by simp
  have next_bar: "run_backtest c e f (take (Suc n) ds) = bar_step c f ds n s" if "n < length ds" "take n ds = take n cs" for ds
  proof -
    have "run_backtest c e f (take (Suc n) ds) = bar_step c f (take (Suc n) ds) n s"
      using run_backtest_prefix [of n "take (Suc n) ds" c e f s] that n(1) run by (simp add: min_absorb1 min_absorb2 bind_res_def split: sum.split)
    also have "\<dots> = bar_step c f ds n s" using that by (intro bar_step_take) simp_all
    finally show ?thesis .
  qed
  have "run_backtest c e f (take (Suc n) cs) = run_backtest c e f (take (Suc n) cs')"
    using next_bar [OF n(2)] next_bar [OF n(3)] past bar_step_past [OF n(1) past entry touch] by simp
  then show ?thesis using full full' bar_loop_trades [of c f cs "[n..<length cs]" s] by simp
qed

definition example_bars :: "Bar list" where
  "example_bars = [\<lparr>br_open_time = 0, br_open = 100, br_high = 105, br_low = 95, br_atr = Some 10\<rparr>, \<lparr>br_open_time = 1, br_open = 100, br_high = 105, br_low = 95, br_atr = Some 10\<rparr>,
     \<lparr>br_open_time = 2, br_open = 110, br_high = 115, br_low = 105, br_atr = Some 10\<rparr>]"

definition example_costs :: CostModel where
  "example_costs = \<lparr>cm_risk_fraction = 1, cm_fee_bps = 0, cm_slippage_bps = 0, cm_spread_bps = 0\<rparr>"

definition example_signal :: "Bar list \<Rightarrow> string" where
  "example_signal h = (if length h = 1 then ''BUY'' else ''SELL'')"

lemma example_decimals: "dec 0 = 0" "dec 1 = 1" "dec 10 = 10" "dec 20 = 20" "dec 40 = 40" "dec 80 = 80" "dec 100 = 100" "dec 110 = 110" "dec 140 = 140" "dec 210 = 210" "dec 1000 = 1000"
  "dec 2000 = 2000" "dec 3000 = 3000" "dec 21000 = 21000"
  using dec.rnd_of_int [of 0] dec.rnd_of_int [of 1] dec.rnd_of_int [of 10] dec.rnd_of_int [of 20] dec.rnd_of_int [of 40] dec.rnd_of_int [of 80] dec.rnd_of_int [of 100]
    dec.rnd_of_int [of 110] dec.rnd_of_int [of 140] dec.rnd_of_int [of 210] dec.rnd_of_int [of 1000] dec.rnd_of_int [of 2000] dec.rnd_of_int [of 3000] dec.rnd_of_int [of 21000]
  by simp_all

lemmas example_defs = example_bars_def example_costs_def example_signal_def example_decimals crossing_def buy_price_def sell_price_def slipped_def bar_atr_def open_position_def
  exit_decision_def close_trade_def mark_to_peak_def drawdown_of_def ddiv_def Let_def

definition other_bars :: "Bar list" where
  "other_bars = take 2 example_bars @ [\<lparr>br_open_time = 2, br_open = 110, br_high = 130, br_low = 81, br_atr = None\<rparr>, \<lparr>br_open_time = 3, br_open = 7, br_high = 9, br_low = 1, br_atr = None\<rparr>]"

lemma example_prefix: "run_backtest example_costs 2000 example_signal (take 2 example_bars) =
  Inr \<lparr>bs_equity = 2000, bs_peak = 2000, bs_maxdd = 0, bs_trades = [], bs_pos = Some \<lparr>po_entry = 100, po_stop = 80, po_tp = 140, po_qty = 100, po_time = 1\<rparr>\<rparr>"
  by (simp add: run_backtest_def bar_step_def start_state_def upt_rec example_defs)

lemma example_run: "\<exists>s t. run_backtest example_costs 2000 example_signal example_bars = Inr s \<and> bs_trades s = [t] \<and> tr_pnl t = 1000"
  by (simp add: run_backtest_def bar_step_def start_state_def upt_rec example_defs)

theorem backtest_no_lookahead_witness:
  "\<exists>s. run_backtest example_costs 2000 example_signal (take 3 other_bars) = Inr s \<and> map tr_pnl (bs_trades s) = [1000] \<and> bs_equity s = 3000"
proof -
  from example_run obtain s t where s: "run_backtest example_costs 2000 example_signal example_bars = Inr s" "bs_trades s = [t]" "tr_pnl t = 1000" by blast
  have len: "take (Suc 2) example_bars = example_bars" "take 3 other_bars = take (Suc 2) other_bars" by (simp_all add: example_bars_def)
  have "run_backtest example_costs 2000 example_signal (take (Suc 2) example_bars) = run_backtest example_costs 2000 example_signal (take (Suc 2) other_bars) \<and>
    bs_equity s = 3000"
    using backtest_no_lookahead [OF _ _ _ _ example_prefix, of other_bars] s
    by (fastforce simp: other_bars_def example_bars_def same_touch_def example_decimals)
  with s len show ?thesis by (intro exI [of _ s]) simp
qed

section \<open>The portfolio stays within its limits\<close>

definition ma_ok :: "rat \<Rightarrow> int \<Rightarrow> MaState \<Rightarrow> bool" where
  "ma_ok e m s \<longleftrightarrow> wf_dict (ms_positions s) \<and> length (ms_positions s) \<le> nat m \<and> ms_equity s = fold (\<lambda>t eq. dec (eq + tr_pnl t)) (ms_trades s) e"

lemma exit_one_ok: "ma_ok e m s \<Longrightarrow> ma_ok e m (exit_one c f cs active x s)"
  by (auto simp: exit_one_def ma_ok_def Let_def split: prod.splits option.splits if_splits intro: order_trans [OF length_delete_le])

lemma exit_all_ok: "ma_ok e m s \<Longrightarrow> ma_ok e m (fold (exit_one c f cs active) es s)"
  by (induction es arbitrary: s) (simp_all add: exit_one_ok)

lemma length_dset_le: "length (dset k v d) \<le> Suc (length d)"
  by (induction d) auto

lemma length_dset_room: "int (length d) < m \<Longrightarrow> length (dset k v d) \<le> nat m"
  using length_dset_le [of k v d] by linarith

lemma enter_one_ok: "ma_ok e m s \<Longrightarrow> enter_one c f cs m active x s = Inr s' \<Longrightarrow> ma_ok e m s'"
  by (auto simp: enter_one_def ma_ok_def Let_def bind_res_Inr not_le split: prod.splits if_splits intro: length_dset_room)

lemma enter_all_ok: "ma_ok e m s \<Longrightarrow> enter_all c f cs m active es s = Inr s' \<Longrightarrow> ma_ok e m s'"
  by (induction es arbitrary: s) (auto simp: bind_res_Inr dest: enter_one_ok)

lemma exit_one_curve [simp]: "ms_curve (exit_one c f cs active x s) = ms_curve s"
  by (auto simp: exit_one_def Let_def split: prod.splits option.splits)

lemma exit_all_curve [simp]: "ms_curve (fold (exit_one c f cs active) es s) = ms_curve s"
  by (induction es arbitrary: s) simp_all

lemma enter_all_curve: "enter_all c f cs m active es s = Inr s' \<Longrightarrow> ms_curve s' = ms_curve s"
proof (induction es arbitrary: s)
  case (Cons x es)
  then obtain s1 where s1: "enter_one c f cs m active x s = Inr s1" "enter_all c f cs m active es s1 = Inr s'" by (auto simp: bind_res_Inr)
  have "ms_curve s1 = ms_curve s" using s1(1) by (auto simp: enter_one_def Let_def bind_res_Inr split: prod.splits if_splits)
  with Cons.IH [OF s1(2)] show ?case by simp
qed simp

lemma time_step_ok:
  assumes ok: "ma_ok e m s" and t: "time_step c f u cs m ts s = Inr s'"
  shows "ma_ok e m s' \<and> ms_curve s' = ms_curve s @ [(ts, flt (ms_equity s'))]"
proof -
  let ?a = "case u of None \<Rightarrow> map fst cs | Some u \<Rightarrow> u ts" let ?s0 = "fold (exit_one c f cs ?a) (entries_at cs ts) s"
  obtain s1 where s1: "enter_all c f cs m ?a (entries_at cs ts) ?s0 = Inr s1"
    "s' = s1\<lparr>ms_peak := max (ms_peak s1) (ms_equity s1), ms_maxdd := max (ms_maxdd s1) (drawdown_of (max (ms_peak s1) (ms_equity s1)) (ms_equity s1)),
       ms_curve := ms_curve s1 @ [(ts, flt (ms_equity s1))]\<rparr>"
    using t unfolding time_step_def Let_def bind_res_Inr by auto
  have "ma_ok e m s1" by (rule enter_all_ok [OF exit_all_ok [OF ok] s1(1)])
  then show ?thesis using enter_all_curve [OF s1(1)] s1(2) by (simp add: ma_ok_def)
qed

lemma time_loop_ok: "ma_ok e m s \<Longrightarrow> time_loop c f u cs m tss s = Inr s' \<Longrightarrow> ma_ok e m s' \<and> map fst (ms_curve s') = map fst (ms_curve s) @ tss"
proof (induction tss arbitrary: s)
  case (Cons ts tss)
  then obtain s1 where s1: "time_step c f u cs m ts s = Inr s1" "time_loop c f u cs m tss s1 = Inr s'" by (auto simp: bind_res_Inr)
  with Cons.IH [of s1] time_step_ok [OF Cons.prems(1) s1(1)] show ?case by simp
qed simp

text \<open>A portfolio backtest over shared equity ends with at most \<open>max_positions\<close> open positions, each for a different symbol, an equity that is
  the initial one with the profit and loss of every trade booked in order, and an equity curve with exactly one point per decision time,
  in increasing order.
\<close>

theorem portfolio_within_limits:
  assumes "run_multi_asset c e f u m cs = Inr s"
  shows "distinct (map fst (ms_positions s)) \<and> int (length (ms_positions s)) \<le> max 0 m \<and>
    ms_equity s = fold (\<lambda>t eq. dec (eq + tr_pnl t)) (ms_trades s) e \<and> map fst (ms_curve s) = sorted_set (map fst (timeline cs))"
proof -
  have "ma_ok e m \<lparr>ms_equity = e, ms_peak = e, ms_maxdd = 0, ms_positions = [], ms_trades = [], ms_curve = []\<rparr>" by (simp add: ma_ok_def)
  from time_loop_ok [OF this assms [unfolded run_multi_asset_def]] show ?thesis by (auto simp: ma_ok_def wf_dict_def)
qed

definition example_sets :: candle_sets where
  "example_sets = [(''BTC'', example_bars)]"

lemma example_times: "sorted_set (map fst (timeline example_sets)) = [1, 2]" "entries_at example_sets 1 = [(''BTC'', 1)]" "entries_at example_sets 2 = [(''BTC'', 2)]"
  by code_simp+

lemma example_sets_simps: "rows_of example_sets ''BTC'' = example_bars" "map fst example_sets = [''BTC'']"
  by (simp_all add: example_sets_def rows_of_def get_or_def)

theorem portfolio_within_limits_witness:
  "\<exists>s. run_multi_asset example_costs 2000 (\<lambda>sy. example_signal) None 1 example_sets = Inr s \<and> length (ms_positions s) \<le> 1 \<and> map fst (ms_curve s) = [1, 2]"
proof -
  have "\<exists>s. run_multi_asset example_costs 2000 (\<lambda>sy. example_signal) None 1 example_sets = Inr s"
    unfolding run_multi_asset_def example_times
    by (simp add: time_step_def example_times enter_one_def exit_one_def example_sets_simps example_defs)
  then obtain s where s: "run_multi_asset example_costs 2000 (\<lambda>sy. example_signal) None 1 example_sets = Inr s" by blast
  from portfolio_within_limits [OF s] s show ?thesis by (auto simp: example_times)
qed

section \<open>Walk-forward splits\<close>

definition fold_at :: "int \<Rightarrow> int \<Rightarrow> int \<Rightarrow> int list \<times> int list" where
  "fold_at train test start = ([start..start + train - 1], [start + train..start + train + test - 1])"

lemma walk_forward_loop_step:
  "walk_forward_loop n train test start out =
     (if start + train + test \<le> n then walk_forward_loop n train test (start + test) (out @ [fold_at train test start]) else Some out)"
  by (subst walk_forward_loop.simps) (simp add: fold_at_def)

lemma walk_forward_loop_ends:
  "0 < test \<Longrightarrow> \<exists>k. walk_forward_loop n train test start out = Some (out @ map (\<lambda>j. fold_at train test (start + int j * test)) [0..<k]) \<and>
     n < start + train + int (Suc k) * test \<and> (0 < k \<longrightarrow> start + train + int k * test \<le> n)"
proof (induction "nat (n - start - train)" arbitrary: start out rule: less_induct)
  case less
  show ?case
  proof (cases "start + train + test \<le> n")
    case False
    then show ?thesis by (intro exI [of _ 0]) (simp add: walk_forward_loop_step)
  next
    case True
    have "nat (n - (start + test) - train) < nat (n - start - train)" using True less.prems by simp
    from less.hyps [OF this less.prems, of "out @ [fold_at train test start]"] obtain k where
      k: "walk_forward_loop n train test (start + test) (out @ [fold_at train test start]) =
            Some ((out @ [fold_at train test start]) @ map (\<lambda>j. fold_at train test (start + test + int j * test)) [0..<k])"
         "n < start + test + train + int (Suc k) * test" "0 < k \<longrightarrow> start + test + train + int k * test \<le> n" by blast
    have "map (\<lambda>j. fold_at train test (start + int j * test)) [0..<Suc k] =
      fold_at train test start # map (\<lambda>j. fold_at train test (start + test + int j * test)) [0..<k]"
      by (simp add: upt_conv_Cons map_Suc_upt [symmetric] algebra_simps del: upt_Suc)
    then show ?thesis using k True by (intro exI [of _ "Suc k"]) (auto simp: walk_forward_loop_step [of n train test start] algebra_simps)
  qed
qed

lemma walk_forward_loop_diverges: "walk_forward_loop n train test start out = Some y \<Longrightarrow> test \<le> 0 \<longrightarrow> n < start + train + test"
  by (rule walk_forward_loop.raw_induct [of "\<lambda>n train test start out y. test \<le> 0 \<longrightarrow> n < start + train + test", rotated]) (assumption, fastforce split: if_splits)

lemma upto_append: "i \<le> j + 1 \<Longrightarrow> j \<le> k \<Longrightarrow> [i..j] @ [j + 1..k] = [i..k]"
  by (rule sorted_distinct_set_unique) (auto simp: sorted_append)

lemma tests_contiguous: "0 \<le> test \<Longrightarrow> concat (map (\<lambda>j. snd (fold_at train test (int j * test))) [0..<k]) = [train..train + int k * test - 1]"
proof (induction k)
  case (Suc k)
  then show ?case using upto_append [of train "train + int k * test - 1" "train + int k * test + test - 1"]
    by (simp add: fold_at_def algebra_simps)
qed simp

lemma fold_at_ok:
  assumes "0 \<le> train" "0 \<le> test" "0 \<le> a" "a + train + test \<le> n"
  shows "case fold_at train test a of (tr, te) \<Rightarrow>
    int (length tr) = train \<and> int (length te) = test \<and> set (tr @ te) \<subseteq> {0..<n} \<and> (\<forall>i \<in> set tr. \<forall>j \<in> set te. i < j)"
  using assms by (auto simp: fold_at_def)

text \<open>
  C35: the walk-forward splits. A positive test length makes the loop end, with folds whose training indices all come just before their test
  indices and lie in the data; the test blocks of the successive folds cover the data from \<open>train\<close> on without a gap or an overlap, and less than
  one test block is left over. A test length of zero or less, with room for a fold, makes the loop run for ever.
\<close>

theorem walk_forward_ends:
  "(0 < test \<and> 0 \<le> train \<longrightarrow> (\<exists>folds. walk_forward_splits n train test = Some folds \<and>
      concat (map snd folds) = [train..train + int (length folds) * test - 1] \<and> n - (train + int (length folds) * test) < test \<and>
      (\<forall>(tr, te) \<in> set folds. int (length tr) = train \<and> int (length te) = test \<and> set (tr @ te) \<subseteq> {0..<n} \<and> (\<forall>i \<in> set tr. \<forall>j \<in> set te. i < j)))) \<and>
   (test \<le> 0 \<and> train + test \<le> n \<longrightarrow> walk_forward_splits n train test = None)"
proof (intro conjI impI)
  assume "0 < test \<and> 0 \<le> train"
  then have t: "0 < test" "0 \<le> train" by auto
  from walk_forward_loop_ends [OF t(1), of n train 0 "[]"] obtain k where
    k: "walk_forward_loop n train test 0 [] = Some (map (\<lambda>j. fold_at train test (int j * test)) [0..<k])"
       "n < train + int (Suc k) * test" "0 < k \<longrightarrow> train + int k * test \<le> n" by auto
  have inside: "int j * test + train + test \<le> n" if "j < k" for j
  proof -
    have "int (Suc j) * test \<le> int k * test" using that t by (intro mult_right_mono) auto
    then show ?thesis using that k(3) by (auto simp: algebra_simps)
  qed
  have nonneg: "0 \<le> int j * test" for j using t by simp
  let ?F = "map (\<lambda>j. fold_at train test (int j * test)) [0..<k]"
  have folds: "\<forall>(tr, te) \<in> set ?F. int (length tr) = train \<and> int (length te) = test \<and> set (tr @ te) \<subseteq> {0..<n} \<and> (\<forall>i \<in> set tr. \<forall>j \<in> set te. i < j)"
    using fold_at_ok [OF t(2) _ nonneg inside] t(1) by auto
  show "\<exists>folds. walk_forward_splits n train test = Some folds \<and>
      concat (map snd folds) = [train..train + int (length folds) * test - 1] \<and> n - (train + int (length folds) * test) < test \<and>
      (\<forall>(tr, te) \<in> set folds. int (length tr) = train \<and> int (length te) = test \<and> set (tr @ te) \<subseteq> {0..<n} \<and> (\<forall>i \<in> set tr. \<forall>j \<in> set te. i < j))"
  proof (intro exI [of _ ?F] conjI)
    show "walk_forward_splits n train test = Some ?F" using k(1) by (simp only: walk_forward_splits_def)
    show "concat (map snd ?F) = [train..train + int (length ?F) * test - 1]" using tests_contiguous [of test train k] t by (simp add: o_def)
    show "n - (train + int (length ?F) * test) < test" using k(2) by (simp add: algebra_simps)
    show "\<forall>(tr, te) \<in> set ?F. int (length tr) = train \<and> int (length te) = test \<and> set (tr @ te) \<subseteq> {0..<n} \<and> (\<forall>i \<in> set tr. \<forall>j \<in> set te. i < j)" by (rule folds)
  qed
next
  assume "test \<le> 0 \<and> train + test \<le> n"
  then show "walk_forward_splits n train test = None"
    using walk_forward_loop_diverges [of n train test 0 "[]"] by (cases "walk_forward_loop n train test 0 []") (auto simp: walk_forward_splits_def)
qed

theorem walk_forward_ends_witness:
  "(\<exists>folds. walk_forward_splits 5 2 1 = Some folds \<and> concat (map snd folds) = [2..2 + int (length folds) * 1 - 1]) \<and> walk_forward_splits 5 2 0 = None"
  using walk_forward_ends [of 1 2 5] walk_forward_ends [of 0 2 5] by auto

end
