(* ===== verification/Strategy.thy ===== *)
theory Strategy
  imports Trading_Types
begin

text \<open>
  Strategies: the specification and the path from a signal to an order intent (\<open>backend/app/strategies/spec.py\<close>), the levels of a long trade
  (\<open>strategies/levels.py\<close>), the regime classifiers (\<open>strategies/regime.py\<close>, \<open>strategies/regime_extended.py\<close>), the signal engine (\<open>signals/engine.py\<close>),
  the quality gate (\<open>signals/decision_quality.py\<close>) and the abstention rules (\<open>strategies/ensemble.py\<close>). Features are finite floats; the decimal of a
  float's text is an argument (\<open>dstr\<close>).
\<close>

section \<open>Specification and decision flow\<close>

datatype PositionSide = LONG | SHORT

fun side_value :: "PositionSide \<Rightarrow> string" where
  "side_value LONG = ''LONG''"
| "side_value SHORT = ''SHORT''"

datatype TradeAction = INCREASE_LONG | REDUCE_LONG_OR_EXIT | INCREASE_SHORT | REDUCE_SHORT_OR_EXIT | NO_ACTION

record SignalContext =
  sc_signal :: string
  sc_market_type :: MarketType
  sc_position_side :: PositionSide
  sc_current_position_qty :: rat

definition new_signal_context :: "string \<Rightarrow> MarketType \<Rightarrow> PositionSide \<Rightarrow> rat \<Rightarrow> SignalContext res" where
  "new_signal_context signal market_type position_side qty =
     (if signal \<notin> {''BUY'', ''SELL''} then Inl (ValueError ''signal must be BUY or SELL'')
      else if qty < 0 then Inl (ValueError ''current_position_qty must be non-negative absolute quantity'')
      else Inr \<lparr>sc_signal = signal, sc_market_type = market_type, sc_position_side = position_side, sc_current_position_qty = qty\<rparr>)"

record StrategySpec =
  ss_strategy_id :: string
  ss_strategy_version :: string
  ss_hypothesis :: string
  ss_supported_market_types :: "string list"
  ss_supported_symbols :: "string list"
  ss_allowed_direction :: "string list"
  ss_required_timeframes :: "string list"
  ss_required_features :: "string list"
  ss_warmup :: int
  ss_valid_regimes :: "string list"
  ss_invalid_regimes :: "string list"
  ss_entry_rule :: string
  ss_confirmation_rule :: string
  ss_invalidation_rule :: string
  ss_exit_rule :: string
  ss_stop_rule :: string
  ss_take_profit_rule :: string
  ss_max_holding_time_seconds :: int
  ss_cooldown_seconds :: int
  ss_order_policy :: "(string, string) dict"
  ss_position_sizing_policy :: "(string, string) dict"
  ss_risk_limits :: "(string, string) dict"
  ss_assumptions :: "string list"
  ss_known_failure_modes :: "string list"
  ss_allow_short :: bool
  ss_short_validation :: "(string, rat) dict option"

definition required_strings :: "StrategySpec \<Rightarrow> string list" where
  "required_strings s = [ss_strategy_id s, ss_strategy_version s, ss_hypothesis s, ss_entry_rule s, ss_confirmation_rule s, ss_invalidation_rule s,
     ss_exit_rule s, ss_stop_rule s, ss_take_profit_rule s]"

definition required_sequences :: "StrategySpec \<Rightarrow> string list list" where
  "required_sequences s = [ss_supported_market_types s, ss_supported_symbols s, ss_allowed_direction s, ss_required_timeframes s, ss_required_features s,
     ss_assumptions s, ss_known_failure_modes s]"

definition required_short :: "string list" where
  "required_short = [''max_short_exposure'', ''liquidation_buffer'']"

definition short_limits :: "StrategySpec \<Rightarrow> rat option list" where
  "short_limits s = map (dget (case ss_short_validation s of None \<Rightarrow> [] | Some d \<Rightarrow> d)) required_short"

definition check_short :: "StrategySpec \<Rightarrow> StrategySpec res" where
  "check_short s =
     (if \<not> ss_allow_short s then Inr s
      else if None \<in> set (short_limits s) then Inl (ValueError ''short trading requires separate short_validation limits'')
      else if list_ex (\<lambda>v. the v \<le> 0) (short_limits s) then Inl (ValueError ''short_validation limits must be positive'')
      else Inr s)"

definition new_strategy_spec :: "StrategySpec \<Rightarrow> StrategySpec res" where
  "new_strategy_spec s =
     (if list_ex (\<lambda>x. strip x = []) (required_strings s) then Inl (ValueError ''strategy specification contains empty required text'')
      else if [] \<in> set (required_sequences s) then Inl (ValueError ''strategy specification contains empty required collection'')
      else if \<not> set (ss_supported_market_types s) \<subseteq> {market_value SPOT, market_value PERPETUAL} then Inl (ValueError ''unsupported market type'')
      else if \<not> set (ss_allowed_direction s) \<subseteq> {side_value LONG, side_value SHORT} then Inl (ValueError ''allowed_direction must contain only LONG/SHORT'')
      else if set (ss_valid_regimes s) \<inter> set (ss_invalid_regimes s) \<noteq> {} then Inl (ValueError ''valid and invalid regimes cannot overlap'')
      else if ss_warmup s < 1 \<or> ss_max_holding_time_seconds s < 1 \<or> ss_cooldown_seconds s < 0 then Inl (ValueError ''warmup/holding/cooldown values are invalid'')
      else if ss_order_policy s = [] \<or> ss_position_sizing_policy s = [] \<or> ss_risk_limits s = [] then Inl (ValueError ''order, sizing and risk policies are required'')
      else if side_value SHORT \<in> set (ss_allowed_direction s) \<and> \<not> ss_allow_short s then Inl (ValueError ''SHORT direction requires allow_short=true'')
      else check_short s)"

definition interpret_signal :: "StrategySpec \<Rightarrow> SignalContext \<Rightarrow> TradeAction res" where
  "interpret_signal s c =
     (if market_value (sc_market_type c) \<notin> set (ss_supported_market_types s) then Inl (PermissionError ''market type not supported by strategy'')
      else if sc_market_type c = SPOT then
        (if sc_position_side c \<noteq> LONG then Inl (PermissionError ''SPOT position side must be LONG inventory'')
         else if sc_signal c = ''BUY'' then Inr INCREASE_LONG
         else if 0 < sc_current_position_qty c then Inr REDUCE_LONG_OR_EXIT else Inr NO_ACTION)
      else if sc_position_side c = LONG then
        (if sc_signal c = ''BUY'' then Inr INCREASE_LONG
         else if 0 < sc_current_position_qty c then Inr REDUCE_LONG_OR_EXIT else Inr NO_ACTION)
      else if \<not> ss_allow_short s then Inl (PermissionError ''short trading is disabled'')
      else if sc_signal c = ''SELL'' then Inr INCREASE_SHORT
      else if 0 < sc_current_position_qty c then Inr REDUCE_SHORT_OR_EXIT else Inr NO_ACTION)"

record SignalDecision =
  sd_strategy_id :: string
  sd_symbol :: string
  sd_context :: SignalContext
  sd_action :: TradeAction

record RiskApprovedDecision =
  rd_signal :: SignalDecision
  rd_approved :: bool
  rd_reason :: string

definition flow_signal :: "StrategySpec \<Rightarrow> string \<Rightarrow> SignalContext \<Rightarrow> SignalDecision res" where
  "flow_signal s symbol c =
     (if symbol \<notin> set (ss_supported_symbols s) then Inl (PermissionError ''symbol not supported by strategy'')
      else bind_res (interpret_signal s c) (\<lambda>a. Inr \<lparr>sd_strategy_id = ss_strategy_id s, sd_symbol = symbol, sd_context = c, sd_action = a\<rparr>))"

definition approve_risk :: "SignalDecision \<Rightarrow> bool \<Rightarrow> string \<Rightarrow> RiskApprovedDecision res" where
  "approve_risk sd approved reason =
     (if strip reason = [] then Inl (ValueError ''risk decision reason is required'')
      else Inr \<lparr>rd_signal = sd, rd_approved = approved, rd_reason = reason\<rparr>)"

definition to_order_intent :: "RiskApprovedDecision \<Rightarrow> string \<Rightarrow> string \<Rightarrow> rat \<Rightarrow> string \<Rightarrow> OrderIntent res" where
  "to_order_intent d intent_id account_id quantity order_type =
     (if \<not> rd_approved d then Inl (PermissionError ''Signal -> RiskApproved -> OrderIntent transition requires approval'')
      else if quantity \<le> 0 then Inl (ValueError ''quantity must be positive'')
      else let action = sd_action (rd_signal d); c = sd_context (rd_signal d)
           in if action = NO_ACTION then Inl (PermissionError ''NO_ACTION cannot become OrderIntent'')
              else Inr \<lparr>oi_intent_id = intent_id, oi_account_id = account_id, oi_symbol = sd_symbol (rd_signal d),
                oi_side = (if action \<in> {INCREASE_LONG, REDUCE_SHORT_OR_EXIT} then ''BUY'' else ''SELL''), oi_order_type = order_type, oi_quantity = quantity,
                oi_price = None, oi_stop_price = None, oi_market_type = sc_market_type c, oi_strategy_id = sd_strategy_id (rd_signal d),
                oi_reduce_only = (sc_market_type c = PERPETUAL \<and> action \<in> {REDUCE_LONG_OR_EXIT, REDUCE_SHORT_OR_EXIT}), oi_client_order_id = Some intent_id\<rparr>)"

section \<open>Levels of a long trade\<close>

record TradeLevelConfig =
  tl_atr_multiple :: rat
  tl_percent_stop :: rat
  tl_swing_buffer_atr :: rat
  tl_max_stop_fraction :: rat
  tl_take_profit_rr :: "rat list"
  tl_break_even_at_rr :: rat
  tl_trail_atr_multiple :: rat

definition default_levels :: TradeLevelConfig where
  "default_levels = \<lparr>tl_atr_multiple = 2, tl_percent_stop = 2 / 100, tl_swing_buffer_atr = 1 / 4, tl_max_stop_fraction = 6 / 100, tl_take_profit_rr = [1, 2, 3],
     tl_break_even_at_rr = 1, tl_trail_atr_multiple = 2\<rparr>"

record TradeLevels =
  lv_entry :: rat
  lv_stop :: rat
  lv_take_profits :: "rat list"
  lv_risk_per_unit :: rat
  lv_stop_method :: string

definition stop_candidates :: "TradeLevelConfig \<Rightarrow> rat \<Rightarrow> rat \<Rightarrow> rat option \<Rightarrow> (string \<times> rat) list" where
  "stop_candidates c price atr swing_low =
     [(''ATR'', dec (price - dec (atr * tl_atr_multiple c))), (''PERCENT'', dec (price * dec (1 - tl_percent_stop c)))] @
     (case swing_low of None \<Rightarrow> [] | Some l \<Rightarrow> if l < price then [(''SWING'', dec (l - dec (atr * tl_swing_buffer_atr c)))] else [])"

definition stop_floor :: "TradeLevelConfig \<Rightarrow> rat \<Rightarrow> rat" where
  "stop_floor c price = dec (price * dec (1 - tl_max_stop_fraction c))"

definition valid_stops :: "TradeLevelConfig \<Rightarrow> rat \<Rightarrow> rat \<Rightarrow> rat option \<Rightarrow> (string \<times> rat) list" where
  "valid_stops c price atr swing_low =
     map (\<lambda>(name, level). (name, max level (stop_floor c price))) (filter (\<lambda>(name, level). 0 < level \<and> level < price) (stop_candidates c price atr swing_low))"

definition build_long_levels :: "TradeLevelConfig \<Rightarrow> rat \<Rightarrow> rat \<Rightarrow> rat option \<Rightarrow> TradeLevels res" where
  "build_long_levels c price atr swing_low =
     (if price \<le> 0 \<or> atr \<le> 0 then Inl (ValueError ''price and atr must be positive'')
      else if valid_stops c price atr swing_low = [] then Inl (ValueError ''no valid stop candidate'')
      else let best = argmax snd (valid_stops c price atr swing_low); risk = dec (price - snd best)
           in Inr \<lparr>lv_entry = price, lv_stop = snd best, lv_take_profits = map (\<lambda>rr. dec (price + dec (risk * rr))) (tl_take_profit_rr c),
                lv_risk_per_unit = risk, lv_stop_method = fst best\<rparr>)"

definition update_protective_stop :: "TradeLevelConfig \<Rightarrow> rat \<Rightarrow> rat \<Rightarrow> rat \<Rightarrow> rat \<Rightarrow> rat res" where
  "update_protective_stop c current_stop entry price atr =
     (if \<not> (0 < current_stop \<and> current_stop < price) \<or> entry \<le> 0 \<or> atr \<le> 0 then Inl (ValueError ''invalid stop update inputs'')
      else let initial_risk = max (dec (entry - current_stop)) 0;
               break_even = (if 0 < initial_risk \<and> dec (entry + dec (initial_risk * tl_break_even_at_rr c)) \<le> price then entry else current_stop);
               trailing = dec (price - dec (atr * tl_trail_atr_multiple c))
           in Inr (max (max current_stop break_even) trailing))"

section \<open>Regimes and signals\<close>

record Features =
  fe_price :: "rat option"
  fe_volume_ratio :: "rat option"
  fe_bb_width :: "rat option"
  fe_ema21 :: rat
  fe_ema50 :: rat
  fe_ema200 :: rat
  fe_atr :: rat
  fe_rsi :: rat
  fe_macd :: rat
  fe_macd_signal :: rat
  fe_trend_slope :: rat

definition or_else :: "'a option \<Rightarrow> 'a \<Rightarrow> 'a" where
  "or_else x d = (case x of None \<Rightarrow> d | Some y \<Rightarrow> y)"

definition detect_regime :: "Features \<Rightarrow> string" where
  "detect_regime f =
     (if 0 < fe_atr f \<and> flt (8 / 100) < or_else (fe_bb_width f) 0 then ''HIGH_VOLATILITY''
      else if fe_ema50 f < fe_ema21 f \<and> fe_ema200 f < fe_ema50 f \<and> 0 < fe_trend_slope f then ''BULLISH_TREND''
      else if fe_ema21 f < fe_ema50 f \<and> fe_ema50 f < fe_ema200 f \<and> fe_trend_slope f < 0 then ''BEARISH_TREND''
      else ''SIDEWAYS'')"

definition falling_knife_blocked :: "Features \<Rightarrow> string \<Rightarrow> bool" where
  "falling_knife_blocked f regime \<longleftrightarrow>
     regime \<in> {''BEARISH_TREND'', ''HIGH_VOLATILITY''} \<and>
     (or_else (fe_price f) (fe_ema50 f) < fe_ema50 f \<or> fe_trend_slope f < 0 \<or> flt (18 / 10) < or_else (fe_volume_ratio f) 1)"

definition signal_score :: "Features \<Rightarrow> rat \<Rightarrow> string \<Rightarrow> int" where
  "signal_score f volume_ratio regime =
     (let trend = (if fe_ema50 f < fe_ema21 f then 20 else - 20); mom = (if 50 \<le> fe_rsi f \<and> fe_macd_signal f \<le> fe_macd f then 15 else - 10);
          volume = (if 1 \<le> volume_ratio then 10 else 0); struct = (if 0 < fe_trend_slope f then 10 else - 10);
          regime_score = (if regime = ''BULLISH_TREND'' then 15 else if regime = ''BEARISH_TREND'' then - 20 else 0)
      in max 0 (min 100 (50 + trend + mom + volume + struct + regime_score)))"

definition score_signal :: "int \<Rightarrow> Signal" where
  "score_signal score =
     (if 80 \<le> score then STRONG_BUY else if 65 \<le> score then BUY else if 55 \<le> score then WATCH
      else if score \<le> 20 then STRONG_SELL else if score \<le> 35 then SELL else if score \<le> 45 then REDUCE else HOLD)"

text \<open>\<open>fixed n x\<close> is Python's fixed-point text of a float with \<open>n\<close> decimals: the exact value, rounded half to even.\<close>

definition fixed :: "nat \<Rightarrow> rat \<Rightarrow> string" where
  "fixed n x =
     (let ds = nat_digits (nat (rhe (\<bar>x\<bar> * 10 ^ n))); padded = replicate (Suc n - length ds) CHR ''0'' @ ds; k = length padded - n
      in (if x < 0 then ''-'' else []) @ take k padded @ ''.'' @ drop k padded)"

lemma fixed_example: "fixed 1 (1 / 4) = ''0.2''" "fixed 2 (- 3 / 200) = ''-0.02''" "fixed 1 (123 / 10) = ''12.3''"
  by code_simp+

record EngineDecision =
  ed_signal :: Signal
  ed_score :: int
  ed_confidence :: rat
  ed_reasons :: "string list"
  ed_risks :: "string list"
  ed_invalidation :: string
  ed_entry :: "rat option"
  ed_stop_loss :: "rat option"
  ed_take_profits :: "rat list"
  ed_risk_reward :: "rat option"
  ed_regime :: string
  ed_data_timestamp :: string

definition engine_stop :: "rat \<Rightarrow> rat \<Rightarrow> rat" where
  "engine_stop price atr = dec (price - dec (atr * 2))"

definition engine_targets :: "rat \<Rightarrow> rat \<Rightarrow> rat list" where
  "engine_targets price risk = [dec (price + risk), dec (price + dec (risk * 2)), dec (price + dec (risk * 3))]"

definition engine_signal :: "string \<Rightarrow> bool \<Rightarrow> int \<Rightarrow> rat \<Rightarrow> rat \<Rightarrow> Signal" where
  "engine_signal regime blocked score rr min_rr =
     (if regime = ''BEARISH_TREND'' \<and> blocked then (if score \<le> 20 then STRONG_SELL else SELL)
      else if blocked \<or> rr < min_rr then NO_TRADE
      else score_signal score)"

definition engine_rr :: "rat \<Rightarrow> rat \<Rightarrow> rat" where
  "engine_rr price risk = (if 0 < risk then dec (dec (engine_targets price risk ! 1 - price) / risk) else 0)"

definition engine_decision :: "Features \<Rightarrow> string \<Rightarrow> string \<Rightarrow> rat \<Rightarrow> rat \<Rightarrow> rat \<Rightarrow> rat \<Rightarrow> EngineDecision" where
  "engine_decision f regime data_timestamp min_rr price atr vr =
     (let score = signal_score f vr regime; blocked = falling_knife_blocked f regime;
          stop = engine_stop price atr; risk = dec (price - stop); tp = engine_targets price risk; rr = engine_rr price risk;
          sig = engine_signal regime blocked score rr min_rr; buys = sig \<in> {BUY, STRONG_BUY}
      in \<lparr>ed_signal = sig, ed_score = score, ed_confidence = min (flt (99 / 100)) (max (flt (1 / 100)) (flt (of_int score / 100))),
          ed_reasons = [''regime='' @ regime, ''score='' @ int_str score, ''rsi='' @ fixed 1 (fe_rsi f), ''volume_ratio='' @ fixed 2 vr],
          ed_risks = flag blocked ''falling_knife'' @ flag (regime = ''HIGH_VOLATILITY'') ''high_volatility'', ed_invalidation = ''close below stop'',
          ed_entry = (if buys then Some price else None), ed_stop_loss = (if buys then Some stop else None), ed_take_profits = (if buys then tp else []),
          ed_risk_reward = (if buys then Some rr else None), ed_regime = regime, ed_data_timestamp = data_timestamp\<rparr>)"

definition decide :: "(rat \<Rightarrow> rat) \<Rightarrow> Features \<Rightarrow> string \<Rightarrow> string \<Rightarrow> rat \<Rightarrow> EngineDecision res" where
  "decide dstr f regime data_timestamp min_rr =
     (case fe_price f of
        None \<Rightarrow> Inl (KeyError ''price'')
      | Some px \<Rightarrow>
        (case fe_volume_ratio f of
           None \<Rightarrow> Inl (KeyError ''volume_ratio'')
         | Some vr \<Rightarrow> Inr (engine_decision f regime data_timestamp min_rr (dstr px) (dstr (max (fe_atr f) (flt (1 / 10 ^ 9)))) vr)))"

section \<open>Extended regimes, quality gate and abstention\<close>

record RegimeAssessment =
  ra_regime :: string
  ra_reasons :: "string list"
  ra_risk_multiplier :: rat

definition truthy :: "(string, rat) dict \<Rightarrow> string \<Rightarrow> bool \<Rightarrow> bool" where
  "truthy f k d = (case dget f k of None \<Rightarrow> d | Some v \<Rightarrow> v \<noteq> 0)"

definition assess :: "string \<Rightarrow> string list \<Rightarrow> rat \<Rightarrow> RegimeAssessment" where
  "assess regime reasons m = \<lparr>ra_regime = regime, ra_reasons = reasons, ra_risk_multiplier = m\<rparr>"

definition detect_extended_regime :: "(string, rat) dict \<Rightarrow> RegimeAssessment" where
  "detect_extended_regime f =
     (let vol = get_or f ''historical_volatility'' 0; bb = get_or f ''bb_width'' 0; vr = get_or f ''volume_ratio'' 1; price = get_or f ''price'' 0;
          support = get_or f ''support'' 0; ema21 = get_or f ''ema21'' price; ema50 = get_or f ''ema50'' price; slope = get_or f ''trend_slope'' 0;
          above = (case dget f ''resistance'' of None \<Rightarrow> False | Some r \<Rightarrow> 0 < r \<and> r < price)
      in if truthy f ''liquidation_panic'' False \<or> (flt (12 / 100) \<le> bb \<and> 2 \<le> vr \<and> slope < 0) then assess ''PANIC'' [''PANIC_VOLATILITY'', ''NEGATIVE_STRUCTURE''] 0
         else if 0 < price \<and> above \<and> 5 / 4 \<le> vr then assess ''BREAKOUT'' [''RESISTANCE_BREAK'', ''VOLUME_CONFIRMATION''] (flt (8 / 10))
         else if 0 < price \<and> 0 < support \<and> price < support \<and> 5 / 4 \<le> vr then assess ''BREAKDOWN'' [''SUPPORT_BREAK'', ''VOLUME_CONFIRMATION''] 0
         else if vol \<le> get_or f ''low_vol_threshold'' (flt (5 / 1000)) \<and> bb \<le> get_or f ''low_bb_threshold'' (flt (2 / 100))
           then assess ''LOW_VOLATILITY'' [''LOW_REALIZED_VOL'', ''NARROW_BANDS''] (flt (6 / 10))
         else if flt (8 / 100) \<le> bb then assess ''HIGH_VOLATILITY'' [''WIDE_BANDS''] (flt (4 / 10))
         else if ema50 < ema21 \<and> 0 < slope \<and> truthy f ''higher_high'' True then assess ''BULLISH_TREND'' [''MOVING_AVERAGE_ALIGNMENT'', ''BULLISH_MARKET_STRUCTURE''] 1
         else if ema21 < ema50 \<and> slope < 0 \<and> truthy f ''lower_low'' True then assess ''BEARISH_TREND'' [''MOVING_AVERAGE_ALIGNMENT'', ''BEARISH_MARKET_STRUCTURE''] 0
         else assess ''SIDEWAYS'' [''MIXED_STRUCTURE''] (flt (7 / 10)))"

record SignalWeights =
  sw_higher_tf_trend :: rat
  sw_ema_alignment :: rat
  sw_rsi_momentum :: rat
  sw_volume_confirmation :: rat
  sw_market_structure :: rat
  sw_pullback_completion :: rat
  sw_atr_normality :: rat
  sw_btc_volatility_penalty :: rat

definition default_weights :: SignalWeights where
  "default_weights = \<lparr>sw_higher_tf_trend = 20, sw_ema_alignment = 15, sw_rsi_momentum = 12, sw_volume_confirmation = 10, sw_market_structure = 12,
     sw_pullback_completion = 10, sw_atr_normality = 8, sw_btc_volatility_penalty = 12\<rparr>"

record QualityDecision =
  qd_score :: rat
  qd_allowed :: bool
  qd_blockers :: "string list"
  qd_contributors :: "string list"

definition add_factor :: "bool \<times> rat \<times> string \<Rightarrow> rat \<times> string list \<Rightarrow> rat \<times> string list" where
  "add_factor x acc = (case x of (cond, w, name) \<Rightarrow> case acc of (score, contributors) \<Rightarrow>
     (flt (score + (if cond then w else flt (- \<bar>w\<bar> * (1 / 2)))), contributors @ [name @ '':'' @ (if cond then ''PASS'' else ''FAIL'')]))"

definition setup_factors :: "SignalWeights \<Rightarrow> (string, rat) dict \<Rightarrow> (bool \<times> rat \<times> string) list" where
  "setup_factors w f =
     [(truthy f ''higher_tf_bullish'' False, sw_higher_tf_trend w, ''4H_BULLISH_TREND''),
      (get_or f ''ema50'' 0 < get_or f ''ema21'' 0, sw_ema_alignment w, ''EMA21_GT_EMA50''),
      (get_or f ''rsi_threshold'' 54 \<le> get_or f ''rsi'' 0 \<and> 0 < get_or f ''rsi_slope'' 0, sw_rsi_momentum w, ''RSI_54_RISING''),
      (flt (128 / 100) \<le> get_or f ''volume_ratio'' 0, sw_volume_confirmation w, ''VOLUME_PLUS_28''),
      (truthy f ''bullish_structure'' False, sw_market_structure w, ''BULLISH_STRUCTURE''),
      (truthy f ''pullback_completed'' False, sw_pullback_completion w, ''15M_PULLBACK_COMPLETE''),
      (\<not> truthy f ''atr_spike'' False, sw_atr_normality w, ''ATR_NORMAL'')]"

definition setup_blockers :: "(string, rat) dict \<Rightarrow> rat \<Rightarrow> string list" where
  "setup_blockers f min_rr =
     flag (truthy f ''lower_low_continuing'' False) ''LOWER_LOW_CONTINUING'' @
     flag (truthy f ''negative_volume_expansion'' False) ''NEGATIVE_VOLUME_EXPANSION'' @
     flag (truthy f ''breakdown'' False) ''BREAKDOWN'' @
     flag (truthy f ''atr_spike'' False) ''ATR_SPIKE'' @
     flag (truthy f ''liquidation_panic'' False) ''LIQUIDATION_PANIC'' @
     flag (truthy f ''higher_tf_bearish'' False) ''HIGHER_TF_BEARISH'' @
     flag (get_or f ''max_stop_distance_fraction'' (flt (6 / 100)) < get_or f ''stop_distance_fraction'' 0) ''STOP_TOO_WIDE'' @
     flag (get_or f ''risk_reward'' 0 < min_rr) ''RISK_REWARD_INSUFFICIENT''"

definition score_long_setup :: "(string, rat) dict \<Rightarrow> SignalWeights \<Rightarrow> rat \<Rightarrow> rat \<Rightarrow> QualityDecision" where
  "score_long_setup f w min_score min_rr =
     (let (score, contributors) = fold add_factor (setup_factors w f) (0, []); elevated = truthy f ''btc_volatility_elevated'' False;
          score1 = (if elevated then flt (score - \<bar>sw_btc_volatility_penalty w\<bar>) else score);
          blockers = setup_blockers f min_rr; score2 = max 0 (min 100 score1)
      in \<lparr>qd_score = score2, qd_allowed = (min_score \<le> score2 \<and> blockers = []), qd_blockers = blockers,
          qd_contributors = contributors @ flag elevated ''BTC_VOLATILITY_ELEVATED:PENALTY''\<rparr>)"

record AbstentionInputs =
  ai_net_edge_bps :: rat
  ai_confidence_calibrated :: bool
  ai_mtf_conflict :: bool
  ai_regime_clear :: bool
  ai_spread_ok :: bool
  ai_liquidity_ok :: bool
  ai_slippage_ok :: bool
  ai_data_fresh_complete :: bool
  ai_venue_consistent :: bool
  ai_macro_event_safe :: bool
  ai_protected_positions :: bool
  ai_strategy_healthy :: bool
  ai_execution_healthy :: bool
  ai_risk_budget_available :: bool
  ai_cooling_period :: bool

definition abstention_reasons :: "AbstentionInputs \<Rightarrow> rat \<Rightarrow> string list" where
  "abstention_reasons x min_edge_bps =
     flag (ai_net_edge_bps x < min_edge_bps) ''EDGE_TOO_LOW'' @
     flag (\<not> ai_confidence_calibrated x) ''CONFIDENCE_UNCALIBRATED'' @
     flag (ai_mtf_conflict x) ''MTF_CONFLICT'' @
     flag (\<not> ai_regime_clear x) ''REGIME_UNCLEAR'' @
     flag (\<not> ai_spread_ok x) ''SPREAD_HIGH'' @
     flag (\<not> ai_liquidity_ok x) ''LIQUIDITY_INSUFFICIENT'' @
     flag (\<not> ai_slippage_ok x) ''SLIPPAGE_TOO_HIGH'' @
     flag (\<not> ai_data_fresh_complete x) ''DATA_STALE_OR_INCOMPLETE'' @
     flag (\<not> ai_venue_consistent x) ''CROSS_VENUE_DIVERGENCE'' @
     flag (\<not> ai_macro_event_safe x) ''MACRO_EVENT_RISK'' @
     flag (\<not> ai_protected_positions x) ''UNPROTECTED_POSITION'' @
     flag (\<not> ai_strategy_healthy x) ''STRATEGY_DEGRADED'' @
     flag (\<not> ai_execution_healthy x) ''EXECUTION_DEGRADED'' @
     flag (\<not> ai_risk_budget_available x) ''RISK_BUDGET_LOW'' @
     flag (ai_cooling_period x) ''DRAWDOWN_COOLING''"

section \<open>From a signal to an order\<close>

lemma guard_Inr: "(if b then Inl e else r) = Inr x \<longleftrightarrow> \<not> b \<and> r = Inr x"
  by simp

lemma new_strategy_spec_short:
  assumes "new_strategy_spec s0 = Inr s"
  shows "s = s0 \<and> (ss_allow_short s \<longrightarrow> (\<forall>v \<in> set (short_limits s). \<exists>x. v = Some x \<and> 0 < x))"
proof -
  have c: "check_short s0 = Inr s" using assms unfolding new_strategy_spec_def guard_Inr by blast
  then have s: "s = s0" unfolding check_short_def by (metis sum.distinct(1) sum.inject(2))
  moreover have "\<exists>x. v = Some x \<and> 0 < x" if a: "ss_allow_short s" and v: "v \<in> set (short_limits s)" for v
  proof -
    have "None \<notin> set (short_limits s)" "\<not> list_ex (\<lambda>v. the v \<le> 0) (short_limits s)"
      using c a unfolding check_short_def s by (auto simp only: if_True if_False sum.distinct not_True_eq_False split: if_split_asm)
    then have "v \<noteq> None" "0 < the v" using v by (metis, simp add: list_ex_iff not_le)
    then show ?thesis by auto
  qed
  ultimately show ?thesis by blast
qed

lemma new_signal_context_ok:
  "new_signal_context sg mt side q = Inr c \<longleftrightarrow>
     sg \<in> {''BUY'', ''SELL''} \<and> 0 \<le> q \<and> c = \<lparr>sc_signal = sg, sc_market_type = mt, sc_position_side = side, sc_current_position_qty = q\<rparr>"
  by (auto simp: new_signal_context_def)

lemma flow_signal_ok:
  assumes "flow_signal s symbol c = Inr sd"
  shows "symbol \<in> set (ss_supported_symbols s) \<and> sd_symbol sd = symbol \<and> sd_context sd = c \<and> sd_strategy_id sd = ss_strategy_id s \<and> interpret_signal s c = Inr (sd_action sd)"
  using assms by (auto simp: flow_signal_def bind_res_Inr split: if_splits)

lemma interpret_signal_cases:
  assumes "interpret_signal s c = Inr a"
  shows "market_value (sc_market_type c) \<in> set (ss_supported_market_types s) \<and>
    (sc_position_side c = SHORT \<longrightarrow> sc_market_type c = PERPETUAL \<and> ss_allow_short s) \<and>
    (a = INCREASE_LONG \<longleftrightarrow> sc_position_side c = LONG \<and> sc_signal c = ''BUY'') \<and>
    (a = REDUCE_LONG_OR_EXIT \<longleftrightarrow> sc_position_side c = LONG \<and> sc_signal c \<noteq> ''BUY'' \<and> 0 < sc_current_position_qty c) \<and>
    (a = INCREASE_SHORT \<longleftrightarrow> sc_position_side c = SHORT \<and> sc_signal c = ''SELL'') \<and>
    (a = REDUCE_SHORT_OR_EXIT \<longleftrightarrow> sc_position_side c = SHORT \<and> sc_signal c \<noteq> ''SELL'' \<and> 0 < sc_current_position_qty c)"
  using assms unfolding interpret_signal_def
  by (cases "sc_market_type c"; cases "sc_position_side c") (simp_all split: if_splits)

lemma to_order_intent_ok:
  assumes "to_order_intent d iid acc qty ot = Inr oi"
  shows "rd_approved d \<and> 0 < qty \<and> oi_quantity oi = qty \<and> oi_symbol oi = sd_symbol (rd_signal d) \<and> oi_market_type oi = sc_market_type (sd_context (rd_signal d)) \<and>
    sd_action (rd_signal d) \<noteq> NO_ACTION \<and> (oi_side oi = ''BUY'' \<longleftrightarrow> sd_action (rd_signal d) \<in> {INCREASE_LONG, REDUCE_SHORT_OR_EXIT}) \<and>
    (oi_reduce_only oi \<longleftrightarrow> oi_market_type oi = PERPETUAL \<and> sd_action (rd_signal d) \<in> {REDUCE_LONG_OR_EXIT, REDUCE_SHORT_OR_EXIT})"
  using assms by (auto simp: to_order_intent_def Let_def split: if_splits)

text \<open>
  C10: an order intent that comes out of the decision flow of a validated specification was approved by risk with a stated reason, is for a positive
  quantity of a symbol and market type the strategy supports, and follows its signal: it sells on the spot market only out of a position that is held, it is reduce-only exactly when it reduces
  a perpetual position that is held, and it adds to a short only where shorts are allowed with positive exposure and liquidation limits.
\<close>

theorem orders_need_approval:
  assumes spec: "new_strategy_spec s0 = Inr s" and ctx: "new_signal_context sg mt side q = Inr c" and sd: "flow_signal s symbol c = Inr sd"
    and ap: "approve_risk sd ok why = Inr d" and oi: "to_order_intent d iid acc qty ot = Inr oi"
  shows "ok \<and> strip why \<noteq> [] \<and> 0 < oi_quantity oi \<and> oi_symbol oi \<in> set (ss_supported_symbols s) \<and> market_value (oi_market_type oi) \<in> set (ss_supported_market_types s) \<and>
    (oi_side oi = ''BUY'' \<longleftrightarrow> sg = ''BUY'') \<and> (oi_market_type oi = SPOT \<and> oi_side oi \<noteq> ''BUY'' \<longrightarrow> 0 < q) \<and>
    (oi_reduce_only oi \<longleftrightarrow> mt = PERPETUAL \<and> 0 < q \<and> (side = LONG \<longleftrightarrow> sg = ''SELL'')) \<and>
    (side = SHORT \<longrightarrow> mt = PERPETUAL \<and> ss_allow_short s \<and> (\<forall>v \<in> set (short_limits s). \<exists>x. v = Some x \<and> 0 < x))"
proof -
  have d: "strip why \<noteq> []" "rd_approved d = ok" "rd_signal d = sd" using ap by (auto simp: approve_risk_def split: if_splits)
  have c: "sg \<in> {''BUY'', ''SELL''}" "sc_signal c = sg" "sc_market_type c = mt" "sc_position_side c = side" "sc_current_position_qty c = q"
    using ctx unfolding new_signal_context_ok by auto
  note f = flow_signal_ok [OF sd] and t = to_order_intent_ok [OF oi] and sh = new_strategy_spec_short [OF spec]
  have i: "interpret_signal s c = Inr (sd_action sd)" using f by blast
  note ia = interpret_signal_cases [OF i, unfolded c]
  have mt: "oi_market_type oi = mt" using t f c(3) d(3) by simp
  have bs: "sg = ''SELL'' \<longleftrightarrow> sg \<noteq> ''BUY''" using c(1) by auto
  have "oi_side oi = ''BUY'' \<longleftrightarrow> sg = ''BUY''" "oi_market_type oi = SPOT \<and> oi_side oi \<noteq> ''BUY'' \<longrightarrow> 0 < q"
    "oi_reduce_only oi \<longleftrightarrow> mt = PERPETUAL \<and> 0 < q \<and> (side = LONG \<longleftrightarrow> sg = ''SELL'')"
    using ia t mt unfolding d c bs by (cases "sd_action sd"; cases side; cases mt; auto)+
  moreover have "ok \<and> 0 < oi_quantity oi \<and> oi_symbol oi \<in> set (ss_supported_symbols s) \<and> market_value (oi_market_type oi) \<in> set (ss_supported_market_types s)"
    using t f ia mt unfolding d c by simp
  moreover have "side = SHORT \<longrightarrow> mt = PERPETUAL \<and> ss_allow_short s" using ia by blast
  ultimately show ?thesis using d(1) sh by blast
qed

definition example_spec :: StrategySpec where
  "example_spec = \<lparr>ss_strategy_id = ''s'', ss_strategy_version = ''1'', ss_hypothesis = ''h'', ss_supported_market_types = [''PERPETUAL''], ss_supported_symbols = [''BTC''],
     ss_allowed_direction = [''LONG''], ss_required_timeframes = [''1h''], ss_required_features = [''ema''], ss_warmup = 1, ss_valid_regimes = [], ss_invalid_regimes = [],
     ss_entry_rule = ''e'', ss_confirmation_rule = ''c'', ss_invalidation_rule = ''i'', ss_exit_rule = ''x'', ss_stop_rule = ''st'', ss_take_profit_rule = ''tp'',
     ss_max_holding_time_seconds = 60, ss_cooldown_seconds = 0, ss_order_policy = [(''k'', ''v'')], ss_position_sizing_policy = [(''k'', ''v'')], ss_risk_limits = [(''k'', ''v'')],
     ss_assumptions = [''a''], ss_known_failure_modes = [''f''], ss_allow_short = True, ss_short_validation = Some [(''max_short_exposure'', 1), (''liquidation_buffer'', 1)]\<rparr>"

definition example_context :: "string \<Rightarrow> PositionSide \<Rightarrow> SignalContext" where
  "example_context sg side = \<lparr>sc_signal = sg, sc_market_type = PERPETUAL, sc_position_side = side, sc_current_position_qty = 1\<rparr>"

definition example_decision :: "string \<Rightarrow> PositionSide \<Rightarrow> TradeAction \<Rightarrow> SignalDecision" where
  "example_decision sg side a = \<lparr>sd_strategy_id = ''s'', sd_symbol = ''BTC'', sd_context = example_context sg side, sd_action = a\<rparr>"

lemma example_spec_ok: "new_strategy_spec example_spec = Inr example_spec"
  by code_simp

lemma example_short: "flow_signal example_spec ''BTC'' (example_context ''SELL'' SHORT) = Inr (example_decision ''SELL'' SHORT INCREASE_SHORT)"
  by code_simp

theorem orders_need_approval_witness:
  "\<exists>oi. to_order_intent \<lparr>rd_signal = example_decision ''SELL'' SHORT INCREASE_SHORT, rd_approved = True, rd_reason = ''ok''\<rparr> ''i'' ''a'' 2 ''MARKET'' = Inr oi \<and>
     0 < oi_quantity oi \<and> \<not> oi_reduce_only oi"
proof -
  let ?d = "\<lparr>rd_signal = example_decision ''SELL'' SHORT INCREASE_SHORT, rd_approved = True, rd_reason = ''ok''\<rparr>"
  have "\<exists>oi. to_order_intent ?d ''i'' ''a'' 2 ''MARKET'' = Inr oi" by (simp add: to_order_intent_def Let_def example_decision_def)
  then obtain oi where oi: "to_order_intent ?d ''i'' ''a'' 2 ''MARKET'' = Inr oi" by blast
  have "new_signal_context ''SELL'' PERPETUAL SHORT 1 = Inr (example_context ''SELL'' SHORT)" by (simp add: new_signal_context_def example_context_def)
  moreover have "approve_risk (example_decision ''SELL'' SHORT INCREASE_SHORT) True ''ok'' = Inr ?d" by (simp add: approve_risk_def strip_eq_Nil is_space_def)
  ultimately show ?thesis using orders_need_approval [OF example_spec_ok _ example_short _ oi] oi by auto
qed

text \<open>\<open>allowed_direction\<close> is not enforced: a specification that only allows the LONG direction, and passes validation because \<open>allow_short\<close> is set with its limits,
  still turns a SELL signal with position side SHORT into an order that opens a short.
\<close>

theorem direction_not_enforced:
  "\<exists>s c sd. new_strategy_spec s = Inr s \<and> ss_allowed_direction s = [side_value LONG] \<and> flow_signal s ''BTC'' c = Inr sd \<and> sd_action sd = INCREASE_SHORT"
  using example_spec_ok example_short by (intro exI [of _ example_spec] exI [of _ "example_context ''SELL'' SHORT"] exI [of _ "example_decision ''SELL'' SHORT INCREASE_SHORT"])
    (simp_all add: example_spec_def example_decision_def)

section \<open>Protective levels\<close>

lemma dec_fraction_below:
  assumes p: "0 < (p::rat)" and f: "1 / 10 ^ 6 \<le> f" "f \<le> 1"
  shows "dec (p * dec (1 - f)) < p"
proof -
  let ?e = "1 / of_int (2 * 10 ^ 27) :: rat"
  have err: "dec x \<le> x * (1 + ?e)" if "0 \<le> x" for x using abs_le_D1 [OF dec.rnd_error [of x]] that by (simp add: field_simps)
  have k: "0 \<le> dec (1 - f)" "dec (1 - f) \<le> (1 - f) * (1 + ?e)" using f err [of "1 - f"] by auto
  have "(1 - f) * (1 + ?e) \<le> (1 - 1 / 10 ^ 6) * (1 + ?e)" using f by (intro mult_right_mono) simp_all
  then have "dec (1 - f) * (1 + ?e) \<le> (1 - 1 / 10 ^ 6) * (1 + ?e) * (1 + ?e)" using k by (intro mult_right_mono) (linarith, simp)
  also have "\<dots> < 1" by simp
  finally have "p * (dec (1 - f) * (1 + ?e)) < p" using p by simp
  moreover have "dec (p * dec (1 - f)) \<le> p * dec (1 - f) * (1 + ?e)" using err [of "p * dec (1 - f)"] p k by simp
  ultimately show ?thesis by (simp add: mult.assoc)
qed

lemma valid_stops_range: "(n, l) \<in> set (valid_stops c price atr sw) \<Longrightarrow> stop_floor c price \<le> l \<and> 0 < l \<and> (stop_floor c price < price \<longrightarrow> l < price)"
  by (auto simp: valid_stops_def)

lemma build_long_levels_ok:
  assumes "build_long_levels c price atr sw = Inr l"
  shows "0 < price \<and> 0 < atr \<and> lv_entry l = price \<and> (lv_stop_method l, lv_stop l) \<in> set (valid_stops c price atr sw) \<and>
    (\<forall>x \<in> set (valid_stops c price atr sw). snd x \<le> lv_stop l) \<and> lv_risk_per_unit l = dec (price - lv_stop l) \<and>
    lv_take_profits l = map (\<lambda>rr. dec (price + dec (lv_risk_per_unit l * rr))) (tl_take_profit_rr c)"
proof -
  from assms have *: "0 < price" "0 < atr" "valid_stops c price atr sw \<noteq> []" by (auto simp: build_long_levels_def split: if_splits)
  moreover from assms * have "l = \<lparr>lv_entry = price, lv_stop = snd (argmax snd (valid_stops c price atr sw)),
    lv_take_profits = map (\<lambda>rr. dec (price + dec (dec (price - snd (argmax snd (valid_stops c price atr sw))) * rr))) (tl_take_profit_rr c),
    lv_risk_per_unit = dec (price - snd (argmax snd (valid_stops c price atr sw))), lv_stop_method = fst (argmax snd (valid_stops c price atr sw))\<rparr>"
    by (simp add: build_long_levels_def Let_def)
  ultimately show ?thesis using argmax_in [of "valid_stops c price atr sw" snd] argmax_max [of _ "valid_stops c price atr sw" snd] by simp
qed

text \<open>
  C37: the levels of a long trade. With a maximal stop fraction between a millionth and one, the stop is positive and strictly below the entry, no lower than the
  floor of the maximal fraction and the closest of the valid candidates; the risk per unit is positive, and for an entry of at most 28 digits and non-negative
  reward multiples every take-profit is at or above the entry, in increasing order when the multiples are.
\<close>

theorem levels_protect_long:
  assumes l: "build_long_levels c price atr sw = Inr l" and f: "1 / 10 ^ 6 \<le> tl_max_stop_fraction c" "tl_max_stop_fraction c \<le> 1"
    and rr: "list_all (\<lambda>r. 0 \<le> r) (tl_take_profit_rr c)" and digits: "dec price = price"
  shows "0 < lv_stop l \<and> lv_stop l < lv_entry l \<and> stop_floor c price \<le> lv_stop l \<and> (\<forall>x \<in> set (valid_stops c price atr sw). snd x \<le> lv_stop l) \<and>
    0 < lv_risk_per_unit l \<and> list_all (\<lambda>tp. lv_entry l \<le> tp) (lv_take_profits l) \<and> (sorted (tl_take_profit_rr c) \<longrightarrow> sorted (lv_take_profits l))"
proof -
  note b = build_long_levels_ok [OF l]
  have fl: "stop_floor c price < price" unfolding stop_floor_def using dec_fraction_below f b by blast
  have s: "stop_floor c price \<le> lv_stop l" "0 < lv_stop l" "lv_stop l < price" using valid_stops_range b fl by blast+
  have r: "0 < lv_risk_per_unit l" using b s(3) by simp
  have tp: "price \<le> dec (price + dec (lv_risk_per_unit l * x))" if "0 \<le> x" for x using r that digits by (intro dec.R_ge_fix) simp_all
  have mono: "x \<le> y \<Longrightarrow> dec (price + dec (lv_risk_per_unit l * x)) \<le> dec (price + dec (lv_risk_per_unit l * y))" for x y
    using r by (intro dec.rnd_mono add_left_mono mult_left_mono) simp_all
  have "list_all (\<lambda>tp. lv_entry l \<le> tp) (lv_take_profits l)" using rr tp b by (simp add: list_all_iff)
  moreover have "sorted (tl_take_profit_rr c) \<longrightarrow> sorted (lv_take_profits l)" using mono b by (auto simp: sorted_map intro: sorted_wrt_mono_rel [rotated])
  ultimately show ?thesis using s r b by simp
qed

lemma update_protective_stop_ok:
  assumes "update_protective_stop c st entry price atr = Inr s'"
  shows "0 < st \<and> st < price \<and> 0 < entry \<and> 0 < atr \<and>
    s' = max (max st (if 0 < max (dec (entry - st)) 0 \<and> dec (entry + dec (max (dec (entry - st)) 0 * tl_break_even_at_rr c)) \<le> price then entry else st))
      (dec (price - dec (atr * tl_trail_atr_multiple c)))"
  using assms by (auto simp: update_protective_stop_def Let_def split: if_splits)

fun stop_path :: "TradeLevelConfig \<Rightarrow> rat \<Rightarrow> rat \<Rightarrow> (rat \<times> rat) list \<Rightarrow> rat res" where
  "stop_path c entry st [] = Inr st"
| "stop_path c entry st ((price, atr) # ps) = bind_res (update_protective_stop c st entry price atr) (\<lambda>s. stop_path c entry s ps)"

lemma update_protective_stop_bounds:
  assumes u: "update_protective_stop c st entry price atr = Inr s'" and c: "0 \<le> tl_break_even_at_rr c" "0 \<le> tl_trail_atr_multiple c"
    and d: "dec entry = entry" "dec price = price"
  shows "st \<le> s' \<and> s' \<le> price"
proof -
  note o = update_protective_stop_ok [OF u]
  let ?r = "max (dec (entry - st)) 0"
  have "dec (price - dec (atr * tl_trail_atr_multiple c)) \<le> price" using o c by (intro dec.R_le_fix [OF d(2)]) simp
  moreover have "entry \<le> dec (entry + dec (?r * tl_break_even_at_rr c))" using c by (intro dec.R_ge_fix [OF d(1)]) simp
  ultimately show ?thesis using o by (auto simp: max_def)
qed

text \<open>A protective stop only tightens. Along any sequence of accepted updates, with non-negative multiples, it never moves down, and it never passes the price of an update.
\<close>

theorem stop_only_tightens:
  assumes "stop_path c entry st ps = Inr s'" and "0 \<le> tl_break_even_at_rr c" and "0 \<le> tl_trail_atr_multiple c" and "dec entry = entry"
    and "list_all (\<lambda>(price, atr). dec price = price) ps"
  shows "st \<le> s' \<and> (ps \<noteq> [] \<longrightarrow> s' \<le> fst (last ps))"
  using assms
proof (induction ps arbitrary: st)
  case (Cons x ps)
  obtain price atr where x: "x = (price, atr)" by (cases x)
  with Cons.prems obtain s1 where s1: "update_protective_stop c st entry price atr = Inr s1" "stop_path c entry s1 ps = Inr s'" by (auto simp: bind_res_Inr)
  have b: "st \<le> s1" "s1 \<le> price" using update_protective_stop_bounds [OF s1(1)] Cons.prems x by auto
  have "s1 \<le> s' \<and> (ps \<noteq> [] \<longrightarrow> s' \<le> fst (last ps))" using Cons.IH [OF s1(2)] Cons.prems by simp
  then show ?case using b s1(2) x by (cases ps) auto
qed simp

section \<open>Signals\<close>

lemma engine_signal_buys: "engine_signal regime blocked score rr min_rr \<in> {BUY, STRONG_BUY} \<longleftrightarrow> 65 \<le> score \<and> \<not> blocked \<and> min_rr \<le> rr"
  by (cases blocked) (auto simp: engine_signal_def score_signal_def)

lemma signal_score_range: "0 \<le> signal_score f vr regime" "signal_score f vr regime \<le> 100"
  unfolding signal_score_def Let_def by (simp_all only: max.cobounded1 max.bounded_iff min.cobounded1 zero_le_numeral simp_thms)

lemma decide_ok:
  assumes "decide dstr f regime ts min_rr = Inr d"
  obtains price atr vr where "d = engine_decision f regime ts min_rr price atr vr"
  using assms unfolding decide_def by (auto split: option.splits)

text \<open>The signal engine. Its score is between 0 and 100; it gives an entry, a stop and targets exactly with a BUY or \<open>STRONG_BUY\<close>, which it gives exactly when the score
  is at least 65, the falling-knife block is off and the reward-to-risk ratio reaches the minimum; it never buys in a high-volatility or bearish
  regime while the price is under its average, the trend falls or volume spikes.
\<close>

theorem engine_buys_iff:
  assumes "decide dstr f regime ts min_rr = Inr d"
  shows "0 \<le> ed_score d \<and> ed_score d \<le> 100 \<and>
    (ed_signal d \<in> {BUY, STRONG_BUY} \<longleftrightarrow> ed_entry d \<noteq> None) \<and> (ed_entry d \<noteq> None \<longleftrightarrow> ed_stop_loss d \<noteq> None) \<and>
    (ed_entry d \<noteq> None \<longrightarrow> 65 \<le> ed_score d \<and> \<not> falling_knife_blocked f regime \<and> (\<exists>rr. ed_risk_reward d = Some rr \<and> min_rr \<le> rr) \<and> length (ed_take_profits d) = 3) \<and>
    (falling_knife_blocked f regime \<longrightarrow> ed_entry d = None \<and> ed_take_profits d = [] \<and> ''falling_knife'' \<in> set (ed_risks d))"
proof -
  from assms obtain price atr vr where d: "d = engine_decision f regime ts min_rr price atr vr" by (rule decide_ok)
  define blocked where "blocked = falling_knife_blocked f regime"
  define risk where "risk = dec (price - engine_stop price atr)"
  define sig where "sig = engine_signal regime blocked (signal_score f vr regime) (engine_rr price risk) min_rr"
  have b: "sig \<in> {BUY, STRONG_BUY} \<longleftrightarrow> 65 \<le> signal_score f vr regime \<and> \<not> blocked \<and> min_rr \<le> engine_rr price risk"
    unfolding sig_def by (rule engine_signal_buys)
  have "length (engine_targets price risk) = 3" by (simp add: engine_targets_def)
  then show ?thesis using b signal_score_range [of f vr regime]
    unfolding d engine_decision_def Let_def blocked_def [symmetric] risk_def [symmetric] sig_def [symmetric] EngineDecision.select_convs
    by (cases "sig \<in> {BUY, STRONG_BUY}") simp_all
qed

section \<open>Examples\<close>

definition example_levels :: TradeLevelConfig where
  "example_levels = \<lparr>tl_atr_multiple = 2, tl_percent_stop = 1, tl_swing_buffer_atr = 1, tl_max_stop_fraction = 1, tl_take_profit_rr = [1, 2],
     tl_break_even_at_rr = 1, tl_trail_atr_multiple = 2\<rparr>"

lemma example_level_decimals: "dec 0 = 0" "dec 4 = 4" "dec 5 = 5" "dec 10 = 10" "dec 20 = 20" "dec 80 = 80" "dec 100 = 100" "dec 110 = 110" "dec 120 = 120" "dec 114 = 114" "dec 116 = 116"
  using dec.rnd_of_int [of 0] dec.rnd_of_int [of 4] dec.rnd_of_int [of 5] dec.rnd_of_int [of 10] dec.rnd_of_int [of 20] dec.rnd_of_int [of 80] dec.rnd_of_int [of 100] dec.rnd_of_int [of 110]
    dec.rnd_of_int [of 120] dec.rnd_of_int [of 114] dec.rnd_of_int [of 116] by simp_all

theorem levels_protect_long_witness:
  "\<exists>l. build_long_levels example_levels 100 10 None = Inr l \<and> 0 < lv_stop l \<and> lv_stop l < lv_entry l \<and> list_all (\<lambda>tp. lv_entry l \<le> tp) (lv_take_profits l)"
proof -
  have "\<exists>l. build_long_levels example_levels 100 10 None = Inr l"
    by (simp add: build_long_levels_def valid_stops_def stop_candidates_def example_levels_def example_level_decimals Let_def)
  then obtain l where l: "build_long_levels example_levels 100 10 None = Inr l" by blast
  have "1 / 10 ^ 6 \<le> tl_max_stop_fraction example_levels" "tl_max_stop_fraction example_levels \<le> 1" "list_all (\<lambda>r. 0 \<le> r) (tl_take_profit_rr example_levels)"
    by (simp_all add: example_levels_def)
  from levels_protect_long [OF l this] l show ?thesis by (auto simp: example_level_decimals)
qed

theorem stop_only_tightens_witness:
  "\<exists>s'. stop_path example_levels 100 80 [(120, 2), (120, 5)] = Inr s' \<and> 80 \<le> s'"
proof -
  have "\<exists>s'. stop_path example_levels 100 80 [(120, 2), (120, 5)] = Inr s'"
    by (simp add: update_protective_stop_def example_levels_def example_level_decimals Let_def)
  then obtain s' where s': "stop_path example_levels 100 80 [(120, 2), (120, 5)] = Inr s'" by blast
  have "80 \<le> s' \<and> ([(120, 2), (120::rat, 5::rat)] \<noteq> [] \<longrightarrow> s' \<le> fst (last [(120, 2), (120, 5::rat)]))"
    by (rule stop_only_tightens [OF s']) (simp_all add: example_levels_def example_level_decimals)
  with s' show ?thesis by blast
qed

definition example_features :: Features where
  "example_features = \<lparr>fe_price = Some 100, fe_volume_ratio = Some 2, fe_bb_width = None, fe_ema21 = 90, fe_ema50 = 110, fe_ema200 = 120, fe_atr = 5, fe_rsi = 40, fe_macd = 0,
     fe_macd_signal = 1, fe_trend_slope = - 1\<rparr>"

theorem engine_buys_iff_witness:
  "\<exists>d. decide (\<lambda>x. x) example_features (detect_regime example_features) ''t'' 2 = Inr d \<and> ed_entry d = None \<and> ''falling_knife'' \<in> set (ed_risks d)"
proof -
  have r: "detect_regime example_features = ''BEARISH_TREND''" by (simp add: detect_regime_def example_features_def or_else_def)
  have "\<exists>d. decide (\<lambda>x. x) example_features (detect_regime example_features) ''t'' 2 = Inr d" by (simp add: decide_def example_features_def)
  then obtain d where d: "decide (\<lambda>x. x) example_features (detect_regime example_features) ''t'' 2 = Inr d" by blast
  have "falling_knife_blocked example_features (detect_regime example_features)" unfolding r by (simp add: falling_knife_blocked_def example_features_def or_else_def)
  with engine_buys_iff [OF d] d show ?thesis by blast
qed

section \<open>Regimes and gates\<close>

lemma extended_regime_multiplier:
  "0 \<le> ra_risk_multiplier (detect_extended_regime f) \<and> ra_risk_multiplier (detect_extended_regime f) \<le> 1"
proof -
  have "flt (8 / 10) \<le> 1" "flt (6 / 10) \<le> 1" "flt (4 / 10) \<le> 1" "flt (7 / 10) \<le> 1"
    using flt.rnd_of_int [of 1] by (auto intro!: flt.R_le_fix)
  then show ?thesis unfolding detect_extended_regime_def Let_def assess_def by (auto simp only: if_split RegimeAssessment.select_convs flt.R_nonneg_iff, simp_all)
qed

lemma quality_allowed:
  assumes "qd_allowed (score_long_setup f w min_score min_rr)"
  shows "\<not> truthy f ''breakdown'' False \<and> \<not> truthy f ''liquidation_panic'' False \<and> \<not> truthy f ''higher_tf_bearish'' False \<and> min_rr \<le> get_or f ''risk_reward'' 0 \<and>
    min_score \<le> qd_score (score_long_setup f w min_score min_rr)"
proof -
  have "setup_blockers f min_rr = []" "min_score \<le> qd_score (score_long_setup f w min_score min_rr)"
    using assms unfolding score_long_setup_def Let_def by (auto split: prod.splits)
  then show ?thesis unfolding setup_blockers_def by (simp add: not_less)
qed

end
