(* ===== verification/Evidence_Ledger.thy ===== *)
theory Evidence_Ledger
  imports Prelude "HOL-Library.Word"
begin

text \<open>
  The append-only evidence ledger (\<open>backend/app/release/evidence_ledger.py\<close>) and the signed runtime checkpoint (\<open>backend/app/recovery/runtime_checkpoint.py\<close>).
  A document read by \<open>json.loads\<close> is a value of the type \<open>json\<close>; SHA-256 of a canonical document (a 256-bit word, whose text \<open>hexdigest()\<close> is modelled), HMAC and the
  text \<open>str(v)\<close> of a value that is no string are arguments.
\<close>

section \<open>JSON values\<close>

datatype json = JNull | JBool bool | JNum rat | JNonFinite | JStr string | JList "json list" | JObj "(string \<times> json) list"

fun jget :: "json \<Rightarrow> string \<Rightarrow> json" where
  "jget (JObj d) k = get_or d k JNull"
| "jget _ k = JNull"

fun is_obj :: "json \<Rightarrow> bool" where
  "is_obj (JObj d) = True"
| "is_obj _ = False"

text \<open>\<open>v == n\<close> for an integer: booleans are the integers 0 and 1.\<close>

fun jeq_int :: "json \<Rightarrow> int \<Rightarrow> bool" where
  "jeq_int (JNum r) n = (r = of_int n)"
| "jeq_int (JBool b) n = ((if b then 1 else 0) = n)"
| "jeq_int _ n = False"

fun jtrue :: "json \<Rightarrow> bool" where
  "jtrue JNull = False"
| "jtrue (JBool b) = b"
| "jtrue (JNum r) = (r \<noteq> 0)"
| "jtrue JNonFinite = True"
| "jtrue (JStr s) = (s \<noteq> [])"
| "jtrue (JList xs) = (xs \<noteq> [])"
| "jtrue (JObj d) = (d \<noteq> [])"

definition jtext :: "(json \<Rightarrow> string) \<Rightarrow> json \<Rightarrow> string" where
  "jtext str v = (case v of JStr s \<Rightarrow> s | _ \<Rightarrow> str v)"

fun hashable :: "json \<Rightarrow> bool" where
  "hashable (JList xs) = False"
| "hashable (JObj d) = False"
| "hashable _ = True"

lemma jget_simps [simp]: "jget (JObj ((j, v) # d)) k = (if j = k then v else jget (JObj d) k)" "jget (JObj []) k = JNull"
  by (auto simp: get_or_def)

declare jget.simps(1) [simp del]

section \<open>Digests\<close>

definition hex_digit :: "nat \<Rightarrow> char" where
  "hex_digit n = char_of (if n < 10 then 48 + n else 87 + n)"

definition hexdigest :: "256 word \<Rightarrow> string" where
  "hexdigest w = map (\<lambda>i. hex_digit (unat (take_bit 4 (drop_bit (4 * (63 - i)) w)))) [0..<64]"

definition canonical_hash :: "(json \<Rightarrow> 256 word) \<Rightarrow> json \<Rightarrow> string" where
  "canonical_hash sha p = hexdigest (sha p)"

lemma nibble_digit_inj: "m < 16 \<Longrightarrow> n < 16 \<Longrightarrow> hex_digit m = hex_digit n \<Longrightarrow> m = n"
  unfolding hex_digit_def by (auto simp: char_of_eq_iff take_bit_nat_eq_self split: if_splits)

lemma nibble_less: "unat (take_bit 4 (w :: 256 word)) < 16"
  by (simp add: take_bit_eq_mod unat_mod)

lemma hexdigest_inj: "hexdigest v = hexdigest w \<longleftrightarrow> v = w"
proof
  assume eq: "hexdigest v = hexdigest w"
  show "v = w"
  proof (rule bit_word_eqI)
    fix k assume "k < LENGTH(256)"
    then have k: "63 - k div 4 < 64" "63 - (63 - k div 4) = k div 4" by auto
    have "hexdigest v ! (63 - k div 4) = hexdigest w ! (63 - k div 4)" using eq by simp
    then have "hex_digit (unat (take_bit 4 (drop_bit (4 * (k div 4)) v))) = hex_digit (unat (take_bit 4 (drop_bit (4 * (k div 4)) w)))"
      using k by (simp add: hexdigest_def)
    then have "unat (take_bit 4 (drop_bit (4 * (k div 4)) v)) = unat (take_bit 4 (drop_bit (4 * (k div 4)) w))"
      by (intro nibble_digit_inj nibble_less)
    then have "take_bit 4 (drop_bit (4 * (k div 4)) v) = take_bit 4 (drop_bit (4 * (k div 4)) w)" by (rule word_unat_eq_iff [THEN iffD2])
    then have "bit (take_bit 4 (drop_bit (4 * (k div 4)) v)) (k mod 4) = bit (take_bit 4 (drop_bit (4 * (k div 4)) w)) (k mod 4)" by simp
    then show "bit v k = bit w k" by (simp add: bit_take_bit_iff bit_drop_bit_eq)
  qed
qed simp

lemma canonical_hash_eq: "canonical_hash sha p = canonical_hash sha q \<longleftrightarrow> sha p = sha q"
  by (simp add: canonical_hash_def hexdigest_inj)

section \<open>The ledger\<close>

definition GENESIS :: string where
  "GENESIS = replicate 64 CHR ''0''"

datatype ledger_file = Symlink | Absent | Unparsable string | Document json

record LedgerReport =
  lr_verified :: bool
  lr_problems :: "string list"
  lr_entries :: nat
  lr_head_hash :: "string option"

definition rejected :: "string list \<Rightarrow> LedgerReport" where
  "rejected ps = \<lparr>lr_verified = False, lr_problems = ps, lr_entries = 0, lr_head_hash = None\<rparr>"

definition core_keys :: "string list" where
  "core_keys = [''sequence'', ''observed_at'', ''manifest_sha256'', ''challenge_id'', ''git_commit_sha'', ''profile'', ''previous_hash'']"

definition entry_core :: "json \<Rightarrow> json" where
  "entry_core e = JObj (map (\<lambda>k. (k, jget e k)) core_keys)"

record VerifyState =
  vs_prev :: string
  vs_seen :: "string list"
  vs_problems :: "string list"

definition numbered :: "string \<Rightarrow> nat \<Rightarrow> string" where
  "numbered name idx = name @ '':'' @ int_str (int idx)"

definition add_seen :: "json \<Rightarrow> string list \<Rightarrow> string list" where
  "add_seen v seen = (case v of JStr s \<Rightarrow> s # seen | _ \<Rightarrow> seen)"

definition entry_problems :: "(json \<Rightarrow> string) \<Rightarrow> nat \<Rightarrow> json \<Rightarrow> VerifyState \<Rightarrow> string list" where
  "entry_problems digest idx e s =
     flag (\<not> jeq_int (jget e ''sequence'') (int idx)) (numbered ''LEDGER_SEQUENCE_INVALID'' idx) @
     flag (jget e ''previous_hash'' \<noteq> JStr (vs_prev s)) (numbered ''LEDGER_PREVIOUS_HASH_MISMATCH'' idx) @
     flag (jget e ''entry_hash'' \<noteq> JStr (digest (entry_core e))) (numbered ''LEDGER_ENTRY_HASH_MISMATCH'' idx) @
     flag (\<exists>m \<in> set (vs_seen s). jget e ''manifest_sha256'' = JStr m) (numbered ''LEDGER_MANIFEST_REPLAY'' idx)"

definition verify_entry :: "(json \<Rightarrow> string) \<Rightarrow> (json \<Rightarrow> string) \<Rightarrow> nat \<Rightarrow> json \<Rightarrow> VerifyState \<Rightarrow> VerifyState res" where
  "verify_entry digest str idx e s =
     (if \<not> is_obj e then Inr (s\<lparr>vs_problems := vs_problems s @ [numbered ''LEDGER_ENTRY_INVALID'' idx]\<rparr>)
      else if \<not> hashable (jget e ''manifest_sha256'') then Inl (TypeError ''unhashable type'')
      else Inr (s\<lparr>vs_problems := vs_problems s @ entry_problems digest idx e s, vs_seen := add_seen (jget e ''manifest_sha256'') (vs_seen s),
        vs_prev := (let h = jget e ''entry_hash'' in if jtrue h then jtext str h else vs_prev s)\<rparr>))"

fun verify_entries :: "(json \<Rightarrow> string) \<Rightarrow> (json \<Rightarrow> string) \<Rightarrow> nat \<Rightarrow> json list \<Rightarrow> VerifyState \<Rightarrow> VerifyState res" where
  "verify_entries digest str idx [] s = Inr s"
| "verify_entries digest str idx (e # es) s = bind_res (verify_entry digest str idx e s) (verify_entries digest str (Suc idx) es)"

definition CLASSIFICATION :: string where
  "CLASSIFICATION = ''EXTERNAL_ACCEPTANCE_APPEND_ONLY_EVIDENCE_LEDGER''"

definition verify_payload :: "(json \<Rightarrow> string) \<Rightarrow> (json \<Rightarrow> string) \<Rightarrow> json \<Rightarrow> LedgerReport res" where
  "verify_payload digest str p =
     (if \<not> is_obj p then Inl (OtherException ''AttributeError'')
      else let problems = flag (jget p ''schema_version'' \<noteq> JStr ''1.0'') ''LEDGER_SCHEMA_VERSION_INVALID'' @
                          flag (jget p ''classification'' \<noteq> JStr CLASSIFICATION) ''LEDGER_INVALID_CLASSIFICATION''
           in case jget p ''entries'' of
                JList es \<Rightarrow>
                  bind_res (verify_entries digest str 1 es \<lparr>vs_prev = GENESIS, vs_seen = [], vs_problems = problems\<rparr>) (\<lambda>s.
                    Inr \<lparr>lr_verified = (vs_problems s = []), lr_problems = vs_problems s, lr_entries = length es, lr_head_hash = Some (vs_prev s)\<rparr>)
              | _ \<Rightarrow> Inr (rejected (problems @ [''LEDGER_ENTRIES_NOT_LIST''])))"

definition verify_ledger :: "(json \<Rightarrow> string) \<Rightarrow> (json \<Rightarrow> string) \<Rightarrow> ledger_file \<Rightarrow> LedgerReport res" where
  "verify_ledger digest str file =
     (case file of
        Symlink \<Rightarrow> Inr (rejected [''LEDGER_SYMLINK_NOT_ALLOWED''])
      | Absent \<Rightarrow> Inr (rejected [''LEDGER_MISSING''])
      | Unparsable exc \<Rightarrow> Inr (rejected [''LEDGER_INVALID_JSON:'' @ exc])
      | Document p \<Rightarrow> verify_payload digest str p)"

record AppendRequest =
  aq_manifest_sha256 :: string
  aq_challenge_id :: string
  aq_git_commit_sha :: string
  aq_profile :: string
  aq_observed_at :: string

definition new_core :: "AppendRequest \<Rightarrow> nat \<Rightarrow> string \<Rightarrow> (string \<times> json) list" where
  "new_core q n prev =
     [(''sequence'', JNum (of_nat n)), (''observed_at'', JStr (aq_observed_at q)), (''manifest_sha256'', JStr (aq_manifest_sha256 q)),
      (''challenge_id'', JStr (aq_challenge_id q)), (''git_commit_sha'', JStr (aq_git_commit_sha q)), (''profile'', JStr (aq_profile q)), (''previous_hash'', JStr prev)]"

definition new_entry :: "(json \<Rightarrow> string) \<Rightarrow> AppendRequest \<Rightarrow> nat \<Rightarrow> string \<Rightarrow> json" where
  "new_entry digest q n prev = JObj (new_core q n prev @ [(''entry_hash'', JStr (digest (JObj (new_core q n prev))))])"

definition ledger_document :: "json list \<Rightarrow> json" where
  "ledger_document es = JObj [(''schema_version'', JStr ''1.0''), (''classification'', JStr CLASSIFICATION), (''entries'', JList es)]"

definition stored_entries :: "(json \<Rightarrow> string) \<Rightarrow> (json \<Rightarrow> string) \<Rightarrow> ledger_file \<Rightarrow> json list res" where
  "stored_entries digest str file =
     (case file of
        Absent \<Rightarrow> Inr []
      | Symlink \<Rightarrow> Inl (ValueError ''ledger path must not be a symlink'')
      | _ \<Rightarrow> bind_res (verify_ledger digest str file) (\<lambda>r.
          if \<not> lr_verified r then Inl (ValueError (''refusing to append to invalid evidence ledger: '' @ join '','' (lr_problems r)))
          else case file of Document p \<Rightarrow> (case jget p ''entries'' of JList es \<Rightarrow> Inr es | _ \<Rightarrow> Inr []) | _ \<Rightarrow> Inr []))"

definition last_hash :: "json list \<Rightarrow> json" where
  "last_hash es = (if es = [] then JStr GENESIS else jget (last es) ''entry_hash'')"

definition append_entry :: "(json \<Rightarrow> string) \<Rightarrow> (json \<Rightarrow> string) \<Rightarrow> AppendRequest \<Rightarrow> ledger_file \<Rightarrow> (json \<times> ledger_file) res" where
  "append_entry digest str q file =
     bind_res (stored_entries digest str file) (\<lambda>es.
       let e = new_entry digest q (Suc (length es)) (jtext str (last_hash es)) in Inr (e, Document (ledger_document (es @ [e]))))"

section \<open>What verification means\<close>

text \<open>A chain: sequence numbers, links and digests are right and no manifest is repeated.\<close>

fun chain :: "(json \<Rightarrow> string) \<Rightarrow> nat \<Rightarrow> string \<Rightarrow> string list \<Rightarrow> json list \<Rightarrow> bool" where
  "chain digest idx prev seen [] = True"
| "chain digest idx prev seen (e # es) \<longleftrightarrow>
     is_obj e \<and> hashable (jget e ''manifest_sha256'') \<and> jeq_int (jget e ''sequence'') (int idx) \<and> jget e ''previous_hash'' = JStr prev \<and>
     jget e ''entry_hash'' = JStr (digest (entry_core e)) \<and> (\<forall>m \<in> set seen. jget e ''manifest_sha256'' \<noteq> JStr m) \<and>
     chain digest (Suc idx) (digest (entry_core e)) (add_seen (jget e ''manifest_sha256'') seen) es"

definition chain_head :: "(json \<Rightarrow> string) \<Rightarrow> string \<Rightarrow> json list \<Rightarrow> string" where
  "chain_head digest prev es = (if es = [] then prev else digest (entry_core (last es)))"

lemma verify_entries_grows: "verify_entries digest str idx es s = Inr s' \<Longrightarrow> \<exists>ps. vs_problems s' = vs_problems s @ ps"
proof (induction es arbitrary: idx s)
  case (Cons e es)
  then obtain s1 where s1: "verify_entry digest str idx e s = Inr s1" "verify_entries digest str (Suc idx) es s1 = Inr s'" by (auto simp: bind_res_Inr)
  have "\<exists>ps. vs_problems s1 = vs_problems s @ ps" using s1(1) by (auto simp: verify_entry_def split: if_splits)
  with Cons.IH [OF s1(2)] show ?case by auto
qed simp

lemma verify_entry_clean:
  assumes h: "digest (entry_core e) \<noteq> []"
  shows "verify_entry digest str idx e s = Inr s' \<and> vs_problems s' = [] \<longleftrightarrow>
    vs_problems s = [] \<and> is_obj e \<and> hashable (jget e ''manifest_sha256'') \<and> jeq_int (jget e ''sequence'') (int idx) \<and> jget e ''previous_hash'' = JStr (vs_prev s) \<and>
    jget e ''entry_hash'' = JStr (digest (entry_core e)) \<and> (\<forall>m \<in> set (vs_seen s). jget e ''manifest_sha256'' \<noteq> JStr m) \<and>
    s' = s\<lparr>vs_problems := [], vs_seen := add_seen (jget e ''manifest_sha256'') (vs_seen s), vs_prev := digest (entry_core e)\<rparr>"
  unfolding verify_entry_def entry_problems_def Let_def using h
  by (cases "is_obj e"; cases "hashable (jget e ''manifest_sha256'')") (auto simp: jtext_def)

definition seen_after :: "string list \<Rightarrow> json list \<Rightarrow> string list" where
  "seen_after seen es = fold (\<lambda>e. add_seen (jget e ''manifest_sha256'')) es seen"

lemma seen_after_simps [simp]:
  "seen_after seen [] = seen" "seen_after seen (e # es) = seen_after (add_seen (jget e ''manifest_sha256'') seen) es"
  "seen_after seen (es @ [e]) = add_seen (jget e ''manifest_sha256'') (seen_after seen es)"
  by (simp_all add: seen_after_def)

lemma set_add_seen: "m \<in> set (add_seen v seen) \<longleftrightarrow> v = JStr m \<or> m \<in> set seen"
  by (cases v) (auto simp: add_seen_def)

lemma set_seen_after: "m \<in> set (seen_after seen es) \<longleftrightarrow> m \<in> set seen \<or> (\<exists>e \<in> set es. jget e ''manifest_sha256'' = JStr m)"
  by (induction es arbitrary: seen) (auto simp: set_add_seen)

lemma chain_snoc:
  "chain digest idx prev seen (es @ [e]) \<longleftrightarrow>
     chain digest idx prev seen es \<and> is_obj e \<and> hashable (jget e ''manifest_sha256'') \<and> jeq_int (jget e ''sequence'') (int (idx + length es)) \<and>
     jget e ''previous_hash'' = JStr (chain_head digest prev es) \<and> jget e ''entry_hash'' = JStr (digest (entry_core e)) \<and>
     (\<forall>m \<in> set (seen_after seen es). jget e ''manifest_sha256'' \<noteq> JStr m)"
proof (induction es arbitrary: idx prev seen)
  case (Cons x es)
  have "chain_head digest prev (x # es) = chain_head digest (digest (entry_core x)) es" by (simp add: chain_head_def)
  then show ?case using Cons.IH [of "Suc idx" "digest (entry_core x)"] by auto
qed (simp add: chain_head_def)

text \<open>The interface the ledger uses of SHA-256: a digest is never empty.\<close>

locale digests =
  fixes digest :: "json \<Rightarrow> string" and str :: "json \<Rightarrow> string"
  assumes nonempty: "digest p \<noteq> []"
begin

lemma verify_entries_chain:
  "verify_entries digest str idx es s = Inr s' \<and> vs_problems s' = [] \<longleftrightarrow>
     vs_problems s = [] \<and> chain digest idx (vs_prev s) (vs_seen s) es \<and>
     s' = s\<lparr>vs_problems := [], vs_seen := seen_after (vs_seen s) es, vs_prev := chain_head digest (vs_prev s) es\<rparr>"
proof (induction es arbitrary: idx s)
  case Nil
  then show ?case by (auto simp: chain_head_def)
next
  case (Cons e es)
  let ?s1 = "s\<lparr>vs_problems := [], vs_seen := add_seen (jget e ''manifest_sha256'') (vs_seen s), vs_prev := digest (entry_core e)\<rparr>"
  have head: "chain_head digest prev (e # es) = chain_head digest (digest (entry_core e)) es" for prev by (simp add: chain_head_def)
  have "verify_entries digest str idx (e # es) s = Inr s' \<and> vs_problems s' = [] \<longleftrightarrow>
    (\<exists>s1. (verify_entry digest str idx e s = Inr s1 \<and> vs_problems s1 = []) \<and> verify_entries digest str (Suc idx) es s1 = Inr s' \<and> vs_problems s' = [])"
    using verify_entries_grows by (fastforce simp: bind_res_Inr)
  also have "\<dots> \<longleftrightarrow> (\<exists>s1. (verify_entry digest str idx e s = Inr s1 \<and> vs_problems s1 = []) \<and> chain digest (Suc idx) (vs_prev s1) (vs_seen s1) es \<and>
    s' = s1\<lparr>vs_problems := [], vs_seen := seen_after (vs_seen s1) es, vs_prev := chain_head digest (vs_prev s1) es\<rparr>)"
    using Cons.IH by blast
  also have "\<dots> \<longleftrightarrow> vs_problems s = [] \<and> chain digest idx (vs_prev s) (vs_seen s) (e # es) \<and>
    s' = s\<lparr>vs_problems := [], vs_seen := seen_after (vs_seen s) (e # es), vs_prev := chain_head digest (vs_prev s) (e # es)\<rparr>"
    unfolding verify_entry_clean [OF nonempty] head chain.simps by (auto simp: seen_after_def)
  finally show ?case .
qed

lemma verified_iff:
  "(\<exists>r. verify_ledger digest str f = Inr r \<and> lr_verified r \<and> lr_entries r = n \<and> lr_head_hash r = h) \<longleftrightarrow>
     (\<exists>p es. f = Document p \<and> is_obj p \<and> jget p ''schema_version'' = JStr ''1.0'' \<and> jget p ''classification'' = JStr CLASSIFICATION \<and> jget p ''entries'' = JList es \<and>
       chain digest 1 GENESIS [] es \<and> n = length es \<and> h = Some (chain_head digest GENESIS es))"
proof (cases f)
  case (Document p)
  let ?b = "flag (jget p ''schema_version'' \<noteq> JStr ''1.0'') ''LEDGER_SCHEMA_VERSION_INVALID'' @ flag (jget p ''classification'' \<noteq> JStr CLASSIFICATION) ''LEDGER_INVALID_CLASSIFICATION''"
  show ?thesis
  proof (cases "\<exists>es. is_obj p \<and> jget p ''entries'' = JList es")
    case True
    then obtain es where es: "is_obj p" "jget p ''entries'' = JList es" by blast
    let ?s0 = "\<lparr>vs_prev = GENESIS, vs_seen = [], vs_problems = ?b\<rparr>"
    have b: "?b = [] \<longleftrightarrow> jget p ''schema_version'' = JStr ''1.0'' \<and> jget p ''classification'' = JStr CLASSIFICATION" by simp
    have "(\<exists>r. verify_ledger digest str f = Inr r \<and> lr_verified r \<and> lr_entries r = n \<and> lr_head_hash r = h) \<longleftrightarrow>
      (\<exists>s. (verify_entries digest str 1 es ?s0 = Inr s \<and> vs_problems s = []) \<and> length es = n \<and> Some (vs_prev s) = h)"
      unfolding verify_ledger_def Document verify_payload_def Let_def es ledger_file.case json.case
      by (auto simp: es bind_res_Inr simp del: append_is_Nil_conv)
    also have "\<dots> \<longleftrightarrow> ?b = [] \<and> chain digest 1 GENESIS [] es \<and> length es = n \<and> Some (chain_head digest GENESIS es) = h"
      unfolding verify_entries_chain by auto
    finally show ?thesis unfolding b using es Document by auto
  next
    case False
    then show ?thesis unfolding Document verify_ledger_def ledger_file.case verify_payload_def Let_def
      by (cases "jget p ''entries''") (auto simp: rejected_def)
  qed
qed (auto simp: verify_ledger_def rejected_def)

definition holds :: "ledger_file \<Rightarrow> json list \<Rightarrow> bool" where
  "holds f es \<longleftrightarrow> f = Absent \<and> es = [] \<or>
     (\<exists>p. f = Document p \<and> is_obj p \<and> jget p ''schema_version'' = JStr ''1.0'' \<and> jget p ''classification'' = JStr CLASSIFICATION \<and> jget p ''entries'' = JList es \<and>
       chain digest 1 GENESIS [] es)"

lemma holds_chain: "holds f es \<Longrightarrow> chain digest 1 GENESIS [] es"
  by (auto simp: holds_def)

lemma holds_document: "holds (Document (ledger_document es)) es \<longleftrightarrow> chain digest 1 GENESIS [] es"
  by (auto simp: holds_def ledger_document_def)

lemma holds_verified:
  "f \<noteq> Absent \<Longrightarrow> holds f es \<Longrightarrow> \<exists>r. verify_ledger digest str f = Inr r \<and> lr_verified r \<and> lr_entries r = length es \<and> lr_head_hash r = Some (chain_head digest GENESIS es)"
  unfolding verified_iff holds_def by blast

lemma stored_entries_iff: "stored_entries digest str f = Inr es \<longleftrightarrow> holds f es"
proof (cases f)
  case (Document p)
  have "stored_entries digest str f = Inr es \<longleftrightarrow>
    (\<exists>r. verify_ledger digest str f = Inr r \<and> lr_verified r) \<and> (case jget p ''entries'' of JList xs \<Rightarrow> xs = es | _ \<Rightarrow> es = [])"
    unfolding Document stored_entries_def by (cases "verify_ledger digest str (Document p)"; cases "jget p ''entries''") auto
  also have "(\<exists>r. verify_ledger digest str f = Inr r \<and> lr_verified r) \<longleftrightarrow> (\<exists>n h. \<exists>r. verify_ledger digest str f = Inr r \<and> lr_verified r \<and> lr_entries r = n \<and> lr_head_hash r = h)"
    by blast
  also have "\<dots> \<longleftrightarrow> (\<exists>xs. holds f xs)" unfolding verified_iff holds_def Document by auto
  finally show ?thesis unfolding Document holds_def by (auto split: json.splits)
next
  case (Unparsable exc)
  then show ?thesis by (simp add: stored_entries_def verify_ledger_def rejected_def holds_def)
qed (auto simp: stored_entries_def holds_def)

lemma chain_last_hash: "chain digest 1 GENESIS [] es \<Longrightarrow> last_hash es = JStr (chain_head digest GENESIS es)"
  by (cases es rule: rev_cases) (auto simp: last_hash_def chain_head_def chain_snoc)

lemma append_entry_iff:
  "append_entry digest str q f = Inr (e, f') \<longleftrightarrow>
     (\<exists>es. holds f es \<and> e = new_entry digest q (Suc (length es)) (chain_head digest GENESIS es) \<and> f' = Document (ledger_document (es @ [e])))"
  unfolding append_entry_def bind_res_Inr stored_entries_iff Let_def by (auto simp: chain_last_hash [OF holds_chain] jtext_def)

lemma new_entry_get [simp]:
  "jget (new_entry digest q n prev) ''sequence'' = JNum (of_nat n)" "jget (new_entry digest q n prev) ''previous_hash'' = JStr prev"
  "jget (new_entry digest q n prev) ''manifest_sha256'' = JStr (aq_manifest_sha256 q)" "is_obj (new_entry digest q n prev)"
  "entry_core (new_entry digest q n prev) = JObj (new_core q n prev)" "jget (new_entry digest q n prev) ''entry_hash'' = JStr (digest (JObj (new_core q n prev)))"
  by (simp_all add: new_entry_def new_core_def entry_core_def core_keys_def)

lemma appended_chain:
  "chain digest 1 GENESIS [] es \<Longrightarrow> chain digest 1 GENESIS [] (es @ [new_entry digest q (Suc (length es)) (chain_head digest GENESIS es)]) \<longleftrightarrow>
     (\<forall>x \<in> set es. jget x ''manifest_sha256'' \<noteq> JStr (aq_manifest_sha256 q))"
  unfolding chain_snoc by (auto simp: set_seen_after)

end

section \<open>Appending\<close>

fun append_all :: "(json \<Rightarrow> string) \<Rightarrow> (json \<Rightarrow> string) \<Rightarrow> AppendRequest list \<Rightarrow> ledger_file \<Rightarrow> ledger_file res" where
  "append_all digest str [] f = Inr f"
| "append_all digest str (q # qs) f = bind_res (append_entry digest str q f) (\<lambda>(e, f'). append_all digest str qs f')"

context digests
begin

lemma append_all_ok:
  "holds f es \<Longrightarrow> distinct (map aq_manifest_sha256 qs) \<Longrightarrow> (\<forall>q \<in> set qs. \<forall>x \<in> set es. jget x ''manifest_sha256'' \<noteq> JStr (aq_manifest_sha256 q)) \<Longrightarrow>
     \<exists>f' es'. append_all digest str qs f = Inr f' \<and> holds f' (es @ es') \<and> map (\<lambda>e. jget e ''manifest_sha256'') es' = map (\<lambda>q. JStr (aq_manifest_sha256 q)) qs \<and> (qs \<noteq> [] \<longrightarrow> f' \<noteq> Absent)"
proof (induction qs arbitrary: f es)
  case (Cons q qs)
  let ?e = "new_entry digest q (Suc (length es)) (chain_head digest GENESIS es)"
  let ?f = "Document (ledger_document (es @ [?e]))"
  have a: "append_entry digest str q f = Inr (?e, ?f)" unfolding append_entry_iff using Cons.prems(1) by blast
  have "holds ?f (es @ [?e])" unfolding holds_document using appended_chain [OF holds_chain [OF Cons.prems(1)]] Cons.prems(3) by simp
  moreover have "\<forall>q \<in> set qs. \<forall>x \<in> set (es @ [?e]). jget x ''manifest_sha256'' \<noteq> JStr (aq_manifest_sha256 q)" using Cons.prems by auto
  ultimately obtain f' es' where *: "append_all digest str qs ?f = Inr f'" "holds f' ((es @ [?e]) @ es')"
    "map (\<lambda>e. jget e ''manifest_sha256'') es' = map (\<lambda>q. JStr (aq_manifest_sha256 q)) qs" "qs \<noteq> [] \<longrightarrow> f' \<noteq> Absent"
    using Cons.IH [of ?f "es @ [?e]"] Cons.prems(2) by auto
  have "qs = [] \<Longrightarrow> f' \<noteq> Absent" using *(1) by auto
  with * a show ?case by (intro exI [of _ f'] exI [of _ "?e # es'"]) auto
qed auto

end

interpretation ledger: digests "canonical_hash sha" str for sha str
  by unfold_locales (simp add: canonical_hash_def hexdigest_def)

text \<open>Appending evidence with manifests that are all different to a ledger that does not exist yet always succeeds, and leaves a ledger that verifies
  and has exactly one entry per append.
\<close>

theorem ledger_appends_verify:
  assumes "distinct (map aq_manifest_sha256 qs)" and "qs \<noteq> []"
  shows "\<exists>f r. append_all (canonical_hash sha) str qs Absent = Inr f \<and> verify_ledger (canonical_hash sha) str f = Inr r \<and> lr_verified r \<and> lr_problems r = [] \<and> lr_entries r = length qs"
proof -
  have "ledger.holds sha Absent []" by (simp add: ledger.holds_def)
  from ledger.append_all_ok [OF this assms(1), of str] assms(2) obtain f es where
    f: "append_all (canonical_hash sha) str qs Absent = Inr f" "ledger.holds sha f es" "length es = length qs" "f \<noteq> Absent"
    by simp (metis length_map)
  from ledger.holds_verified [OF f(4,2), of str] obtain r where
    r: "verify_ledger (canonical_hash sha) str f = Inr r" "lr_verified r" "lr_entries r = length es" by blast
  moreover have "lr_problems r = []" using r(1,2) by (auto simp: verify_ledger_def verify_payload_def rejected_def Let_def bind_res_Inr split: ledger_file.splits json.splits if_splits)
  ultimately show ?thesis using f by auto
qed

text \<open>
  C40: appending evidence whose manifest is already in a valid ledger is accepted, and ruins the ledger: what is written no longer verifies,
  and every later append to it is refused.
\<close>

theorem replayed_manifest_bricks_ledger:
  assumes v: "verify_ledger (canonical_hash sha) str (Document p) = Inr r" "lr_verified r"
    and x: "jget p ''entries'' = JList es" "x \<in> set es" "jget x ''manifest_sha256'' = JStr (aq_manifest_sha256 q)"
  shows "\<exists>e f'. append_entry (canonical_hash sha) str q (Document p) = Inr (e, f') \<and>
    (\<forall>r'. verify_ledger (canonical_hash sha) str f' = Inr r' \<longrightarrow> \<not> lr_verified r') \<and> (\<forall>q'. \<not> is_ok (append_entry (canonical_hash sha) str q' f'))"
proof -
  let ?h = "canonical_hash sha"
  have h: "ledger.holds sha (Document p) es" using v x(1) ledger.verified_iff [of sha str "Document p" "lr_entries r" "lr_head_hash r"] unfolding ledger.holds_def by auto
  let ?e = "new_entry ?h q (Suc (length es)) (chain_head ?h GENESIS es)" let ?f = "Document (ledger_document (es @ [?e]))"
  have a: "append_entry ?h str q (Document p) = Inr (?e, ?f)" unfolding ledger.append_entry_iff using h by blast
  have bad: "\<not> chain ?h 1 GENESIS [] (es @ [?e])" using ledger.appended_chain [OF ledger.holds_chain [OF h]] x by blast
  have none: "\<not> ledger.holds sha ?f xs" for xs using bad unfolding ledger.holds_def by (auto simp: ledger_document_def)
  then have "\<not> lr_verified r'" if "verify_ledger ?h str ?f = Inr r'" for r'
    using that ledger.verified_iff [of sha str ?f "lr_entries r'" "lr_head_hash r'"] unfolding ledger.holds_def by blast
  moreover have "\<not> is_ok (append_entry ?h str q' ?f)" for q'
  proof -
    have "append_entry ?h str q' ?f \<noteq> Inr (a, b)" for a b using none unfolding ledger.append_entry_iff by blast
    then show ?thesis unfolding is_ok_iff by (metis surj_pair)
  qed
  ultimately show ?thesis using a by blast
qed

section \<open>Tampering\<close>

lemma entry_core_get: "entry_core e = entry_core e' \<Longrightarrow> k \<in> set core_keys \<Longrightarrow> jget e k = jget e' k"
  by (auto simp: entry_core_def)

lemma entry_core_link: "entry_core e = entry_core e' \<Longrightarrow> jget e ''previous_hash'' = jget e' ''previous_hash'' \<and> jget e ''sequence'' = jget e' ''sequence''"
  using entry_core_get [of e e' "''previous_hash''"] entry_core_get [of e e' "''sequence''"] by (simp add: core_keys_def)

lemma chain_head_snoc: "chain_head digest g (es @ [e]) = digest (entry_core e)"
  by (simp add: chain_head_def)

lemma chains_agree:
  assumes inj: "\<And>e e'. e \<in> set es \<Longrightarrow> e' \<in> set es' \<Longrightarrow> digest (entry_core e) = digest (entry_core e') \<Longrightarrow> entry_core e = entry_core e'"
    and gen: "\<And>e. e \<in> set es \<union> set es' \<Longrightarrow> digest (entry_core e) \<noteq> GENESIS"
    and ch: "chain digest 1 GENESIS [] es" "chain digest 1 GENESIS [] es'" and hd: "chain_head digest GENESIS es = chain_head digest GENESIS es'"
  shows "map entry_core es = map entry_core es'"
  using assms
proof (induction es arbitrary: es' rule: rev_induct)
  case Nil
  have "es' \<noteq> ys @ [y]" for ys y using Nil(2) [of y] Nil(5) by (auto simp: chain_head_snoc) (simp add: chain_head_def)
  then show ?case by (cases es' rule: rev_cases) auto
next
  case (snoc e es)
  show ?case
  proof (cases es' rule: rev_cases)
    case Nil
    then show ?thesis using snoc.prems(2) [of e] snoc.prems(5) by (simp add: chain_head_snoc) (simp add: chain_head_def)
  next
    case (snoc ys y)
    have "digest (entry_core e) = digest (entry_core y)" using snoc.prems(5) unfolding snoc chain_head_snoc .
    then have core: "entry_core e = entry_core y" using snoc.prems(1) [of e y] snoc by simp
    have "chain_head digest GENESIS es = chain_head digest GENESIS ys"
      using snoc.prems(3,4) entry_core_link [OF core] unfolding snoc chain_snoc by auto
    then have "map entry_core es = map entry_core ys" using snoc.IH [of ys] snoc.prems snoc by (auto simp: chain_snoc)
    then show ?thesis using core snoc by simp
  qed
qed

lemma verified_ledgers_agree:
  assumes v: "verify_ledger (canonical_hash sha) str (Document p) = Inr r" "lr_verified r" "jget p ''entries'' = JList es"
    and v': "verify_ledger (canonical_hash sha) str (Document p') = Inr r'" "lr_verified r'" "jget p' ''entries'' = JList es'"
    and head: "lr_head_hash r = lr_head_hash r'"
    and inj: "inj_on sha (entry_core ` (set es \<union> set es'))" and gen: "\<forall>e \<in> set es \<union> set es'. canonical_hash sha (entry_core e) \<noteq> GENESIS"
  shows "map entry_core es = map entry_core es'"
proof (rule chains_agree)
  note a = ledger.verified_iff [of sha str "Document p" "lr_entries r" "lr_head_hash r"] and b = ledger.verified_iff [of sha str "Document p'" "lr_entries r'" "lr_head_hash r'"]
  have 1: "chain (canonical_hash sha) 1 GENESIS [] es \<and> lr_head_hash r = Some (chain_head (canonical_hash sha) GENESIS es)" using a v by auto
  have 2: "chain (canonical_hash sha) 1 GENESIS [] es' \<and> lr_head_hash r' = Some (chain_head (canonical_hash sha) GENESIS es')" using b v' by auto
  show "chain (canonical_hash sha) 1 GENESIS [] es" "chain (canonical_hash sha) 1 GENESIS [] es'" using 1 2 by auto
  show "chain_head (canonical_hash sha) GENESIS es = chain_head (canonical_hash sha) GENESIS es'" using 1 2 head by simp
  show "canonical_hash sha (entry_core e) \<noteq> GENESIS" if "e \<in> set es \<union> set es'" for e using gen that by blast
  show "entry_core e = entry_core e'" if "e \<in> set es" "e' \<in> set es'" "canonical_hash sha (entry_core e) = canonical_hash sha (entry_core e')" for e e'
    using inj that unfolding canonical_hash_eq by (meson UnI1 UnI2 image_eqI inj_onD)
qed

text \<open>The evidence ledger is tamper evident. Two ledgers that both verify and have the same head hash agree, entry by entry, on everything that was hashed,
  provided SHA-256 does not collide on these entries and hashes none of them to the genesis value.
\<close>

theorem ledger_tamper_evident:
  assumes v: "verify_ledger (canonical_hash sha) str (Document p) = Inr r" "lr_verified r" "jget p ''entries'' = JList es"
    and v': "verify_ledger (canonical_hash sha) str (Document p') = Inr r'" "lr_verified r'" "jget p' ''entries'' = JList es'"
    and head: "lr_head_hash r = lr_head_hash r'"
    and inj: "inj_on sha (entry_core ` (set es \<union> set es'))" and gen: "\<forall>e \<in> set es \<union> set es'. canonical_hash sha (entry_core e) \<noteq> GENESIS"
  shows "map entry_core es = map entry_core es'"
  using assms by (rule verified_ledgers_agree)

section \<open>Examples\<close>

definition example_request :: "string \<Rightarrow> AppendRequest" where
  "example_request m = \<lparr>aq_manifest_sha256 = m, aq_challenge_id = ''c'', aq_git_commit_sha = ''g'', aq_profile = ''p'', aq_observed_at = ''t''\<rparr>"

text \<open>A digest that is injective on ledger entries of small sequence numbers: the sequence number itself.\<close>

definition example_sha :: "json \<Rightarrow> 256 word" where
  "example_sha v = (case jget v ''sequence'' of JNum r \<Rightarrow> word_of_int \<lfloor>r\<rfloor> | _ \<Rightarrow> 0)"

definition example_entry :: json where
  "example_entry = new_entry (canonical_hash example_sha) (example_request ''m'') 1 GENESIS"

text \<open>The same entry with a field outside the hashed ones.\<close>

definition annotated :: json where
  "annotated = JObj (new_core (example_request ''m'') 1 GENESIS @ [(''entry_hash'', JStr (canonical_hash example_sha (JObj (new_core (example_request ''m'') 1 GENESIS)))), (''note'', JNull)])"

lemma example_cores: "entry_core example_entry = JObj (new_core (example_request ''m'') 1 GENESIS)" "entry_core annotated = JObj (new_core (example_request ''m'') 1 GENESIS)"
  by (simp_all add: example_entry_def annotated_def entry_core_def core_keys_def new_core_def new_entry_def)

lemma example_chains: "chain (canonical_hash example_sha) 1 GENESIS [] [example_entry]" "chain (canonical_hash example_sha) 1 GENESIS [] [annotated]"
  unfolding chain.simps example_cores by (simp_all add: example_entry_def new_entry_def annotated_def new_core_def)

lemma example_verifies:
  assumes "chain (canonical_hash example_sha) 1 GENESIS [] [e]" and "entry_core e = JObj (new_core (example_request ''m'') 1 GENESIS)"
  shows "\<exists>r. verify_ledger (canonical_hash example_sha) (\<lambda>_. []) (Document (ledger_document [e])) = Inr r \<and> lr_verified r \<and> lr_entries r = 1 \<and>
    lr_head_hash r = Some (canonical_hash example_sha (JObj (new_core (example_request ''m'') 1 GENESIS)))"
  unfolding ledger.verified_iff using assms by (intro exI [of _ "ledger_document [e]"] exI [of _ "[e]"]) (simp_all add: ledger_document_def chain_head_def)

lemma example_entries: "jget (ledger_document es) ''entries'' = JList es"
  by (simp add: ledger_document_def)

lemma GENESIS_digest: "GENESIS = hexdigest 0"
  by (simp add: GENESIS_def hexdigest_def hex_digit_def map_replicate_const) code_simp

lemma example_not_genesis: "canonical_hash example_sha (JObj (new_core (example_request ''m'') 1 GENESIS)) \<noteq> GENESIS"
  unfolding canonical_hash_def GENESIS_digest hexdigest_inj by (simp add: example_sha_def new_core_def)

theorem ledger_appends_verify_witness:
  "\<exists>f r. append_all (canonical_hash example_sha) (\<lambda>_. []) [example_request ''m'', example_request ''n''] Absent = Inr f \<and>
     verify_ledger (canonical_hash example_sha) (\<lambda>_. []) f = Inr r \<and> lr_verified r \<and> lr_problems r = [] \<and> lr_entries r = length [example_request ''m'', example_request ''n'']"
  by (rule ledger_appends_verify) (simp_all add: example_request_def)

theorem replayed_manifest_bricks_ledger_witness:
  "\<exists>e f'. append_entry (canonical_hash example_sha) (\<lambda>_. []) (example_request ''m'') (Document (ledger_document [example_entry])) = Inr (e, f') \<and>
     \<not> is_ok (append_entry (canonical_hash example_sha) (\<lambda>_. []) (example_request ''n'') f')"
proof -
  obtain r where r: "verify_ledger (canonical_hash example_sha) (\<lambda>_. []) (Document (ledger_document [example_entry])) = Inr r" "lr_verified r"
    using example_verifies [OF example_chains(1) example_cores(1)] by blast
  have "jget example_entry ''manifest_sha256'' = JStr (aq_manifest_sha256 (example_request ''m''))" by (simp add: example_entry_def)
  from replayed_manifest_bricks_ledger [OF r example_entries list.set_intros(1) this] show ?thesis by blast
qed

theorem ledger_tamper_evident_witness: "map entry_core [example_entry] = map entry_core [annotated] \<and> annotated \<noteq> example_entry"
proof
  obtain r where r: "verify_ledger (canonical_hash example_sha) (\<lambda>_. []) (Document (ledger_document [example_entry])) = Inr r" "lr_verified r"
    "lr_head_hash r = Some (canonical_hash example_sha (JObj (new_core (example_request ''m'') 1 GENESIS)))"
    using example_verifies [OF example_chains(1) example_cores(1)] by blast
  obtain r' where r': "verify_ledger (canonical_hash example_sha) (\<lambda>_. []) (Document (ledger_document [annotated])) = Inr r'" "lr_verified r'"
    "lr_head_hash r' = Some (canonical_hash example_sha (JObj (new_core (example_request ''m'') 1 GENESIS)))"
    using example_verifies [OF example_chains(2) example_cores(2)] by blast
  have h: "lr_head_hash r = lr_head_hash r'" using r(3) r'(3) by simp
  show "map entry_core [example_entry] = map entry_core [annotated]"
    by (rule ledger_tamper_evident [OF r(1,2) example_entries r'(1,2) example_entries h]) (simp_all add: example_cores example_not_genesis [simplified])
  show "annotated \<noteq> example_entry" by (simp add: annotated_def example_entry_def new_entry_def)
qed

section \<open>Signed runtime checkpoints\<close>

record RuntimeCheckpoint =
  rk_version :: int
  rk_created_at_unix :: rat
  rk_risk_state :: string
  rk_config_hash :: string
  rk_last_event_sequence :: int
  rk_positions :: "(string, string) dict"
  rk_open_order_ids :: "string list"
  rk_reservations :: "(string, string) dict"
  rk_event_chain_hash :: string
  rk_payload_hash :: string
  rk_signature :: string

record RestoreDecision =
  rs_allowed :: bool
  rs_reasons :: "string list"
  rs_checkpoint_age_seconds :: rat

definition sorted_items :: "(string, string) dict \<Rightarrow> (string, string) dict" where
  "sorted_items d = map (\<lambda>k. (k, get_or d k [])) (sorted_set (map fst d))"

text \<open>The canonical form of the unsigned fields: keys in a fixed order, nested objects sorted.\<close>

definition unsigned_payload :: "RuntimeCheckpoint \<Rightarrow> json" where
  "unsigned_payload c = JObj
     [(''version'', JNum (of_int (rk_version c))), (''created_at_unix'', JNum (rk_created_at_unix c)), (''risk_state'', JStr (rk_risk_state c)),
      (''config_hash'', JStr (rk_config_hash c)), (''last_event_sequence'', JNum (of_int (rk_last_event_sequence c))),
      (''positions'', JObj (map (\<lambda>(k, v). (k, JStr v)) (sorted_items (rk_positions c)))), (''open_order_ids'', JList (map JStr (rk_open_order_ids c))),
      (''reservations'', JObj (map (\<lambda>(k, v). (k, JStr v)) (sorted_items (rk_reservations c)))), (''event_chain_hash'', JStr (rk_event_chain_hash c))]"

definition create_runtime_checkpoint ::
  "(json \<Rightarrow> 256 word) \<Rightarrow> (string \<Rightarrow> string \<Rightarrow> 256 word) \<Rightarrow> string \<Rightarrow> rat \<Rightarrow> string \<Rightarrow> string \<Rightarrow> int \<Rightarrow> (string, string) dict \<Rightarrow> string list \<Rightarrow>
    (string, string) dict \<Rightarrow> string \<Rightarrow> int \<Rightarrow> RuntimeCheckpoint res" where
  "create_runtime_checkpoint sha hmac secret created_at_unix risk_state config_hash last_event_sequence positions open_order_ids reservations event_chain_hash version =
     (if secret = [] then Inl (ValueError ''checkpoint signing secret is required'')
      else if last_event_sequence < 0 then Inl (ValueError ''last_event_sequence must be non-negative'')
      else let c = \<lparr>rk_version = version, rk_created_at_unix = created_at_unix, rk_risk_state = risk_state, rk_config_hash = config_hash,
                 rk_last_event_sequence = last_event_sequence, rk_positions = sorted_items positions, rk_open_order_ids = sort open_order_ids,
                 rk_reservations = sorted_items reservations, rk_event_chain_hash = event_chain_hash, rk_payload_hash = [], rk_signature = []\<rparr>;
               payload_hash = canonical_hash sha (unsigned_payload c)
           in Inr (c\<lparr>rk_payload_hash := payload_hash, rk_signature := hexdigest (hmac secret payload_hash)\<rparr>))"

definition verify_runtime_checkpoint :: "(json \<Rightarrow> 256 word) \<Rightarrow> (string \<Rightarrow> string \<Rightarrow> 256 word) \<Rightarrow> string \<Rightarrow> RuntimeCheckpoint \<Rightarrow> bool" where
  "verify_runtime_checkpoint sha hmac secret c =
     (let expected_hash = canonical_hash sha (unsigned_payload c)
      in if expected_hash \<noteq> rk_payload_hash c then False else hexdigest (hmac secret expected_hash) = rk_signature c)"

definition evaluate_restore ::
  "(json \<Rightarrow> 256 word) \<Rightarrow> (string \<Rightarrow> string \<Rightarrow> 256 word) \<Rightarrow> RuntimeCheckpoint \<Rightarrow> string \<Rightarrow> rat \<Rightarrow> string \<Rightarrow> int \<Rightarrow> string \<Rightarrow> rat \<Rightarrow> RestoreDecision" where
  "evaluate_restore sha hmac c secret now_unix current_config_hash current_event_sequence current_event_chain_hash max_checkpoint_age_seconds =
     (let age = flt (now_unix - rk_created_at_unix c);
          reasons = flag (age < 0) ''CHECKPOINT_FROM_FUTURE'' @ flag (max_checkpoint_age_seconds < age) ''CHECKPOINT_STALE'' @
            flag (\<not> verify_runtime_checkpoint sha hmac secret c) ''CHECKPOINT_SIGNATURE_INVALID'' @
            flag (rk_config_hash c \<noteq> current_config_hash) ''CONFIG_HASH_MISMATCH'' @
            flag (rk_last_event_sequence c \<noteq> current_event_sequence) ''EVENT_SEQUENCE_MISMATCH'' @
            flag (rk_event_chain_hash c \<noteq> current_event_chain_hash) ''EVENT_CHAIN_HASH_MISMATCH''
      in \<lparr>rs_allowed = (reasons = []), rs_reasons = reasons, rs_checkpoint_age_seconds = age\<rparr>)"

lemma restore_allowed_iff:
  "rs_allowed (evaluate_restore sha hmac c secret now cfg sq ch mx) \<longleftrightarrow>
     0 \<le> now - rk_created_at_unix c \<and> flt (now - rk_created_at_unix c) \<le> mx \<and> canonical_hash sha (unsigned_payload c) = rk_payload_hash c \<and>
     hexdigest (hmac secret (rk_payload_hash c)) = rk_signature c \<and> rk_config_hash c = cfg \<and> rk_last_event_sequence c = sq \<and> rk_event_chain_hash c = ch"
  unfolding evaluate_restore_def verify_runtime_checkpoint_def Let_def by (auto simp: not_less)

lemma unsigned_payload_signed [simp]: "unsigned_payload (c\<lparr>rk_payload_hash := h, rk_signature := g\<rparr>) = unsigned_payload c"
  by (simp add: unsigned_payload_def)

lemma created_verifies:
  assumes "create_runtime_checkpoint sha hmac secret t rsk cfg sq ps os rv ch ver = Inr c"
  shows "secret \<noteq> [] \<and> 0 \<le> sq \<and> canonical_hash sha (unsigned_payload c) = rk_payload_hash c \<and> hexdigest (hmac secret (rk_payload_hash c)) = rk_signature c \<and>
    rk_created_at_unix c = t \<and> rk_config_hash c = cfg \<and> rk_last_event_sequence c = sq \<and> rk_event_chain_hash c = ch"
  using assms unfolding create_runtime_checkpoint_def Let_def by (auto simp: unsigned_payload_def split: if_splits)

text \<open>
  C28: a runtime checkpoint that was created is restored with the same secret, configuration, event sequence and chain hash, as long as it is not older than allowed;
  and whatever is restored is authentic: it is within its age, matches the running system, and if it carries the signature of a
  created checkpoint it has the same contents, provided SHA-256 and HMAC do not collide on the two.
\<close>

theorem restore_is_authentic:
  assumes c: "create_runtime_checkpoint sha hmac secret t rsk cfg sq ps os rv ch ver = Inr c"
  shows "(0 \<le> now - t \<and> flt (now - t) \<le> mx \<longrightarrow> rs_allowed (evaluate_restore sha hmac c secret now cfg sq ch mx)) \<and>
    (\<forall>c' cfg' sq' ch'. rs_allowed (evaluate_restore sha hmac c' secret now cfg' sq' ch' mx) \<longrightarrow>
       0 \<le> now - rk_created_at_unix c' \<and> flt (now - rk_created_at_unix c') \<le> mx \<and> rk_config_hash c' = cfg' \<and> rk_last_event_sequence c' = sq' \<and> rk_event_chain_hash c' = ch' \<and>
       (rk_signature c' = rk_signature c \<and> inj_on sha {unsigned_payload c, unsigned_payload c'} \<and> inj_on (hmac secret) {rk_payload_hash c, rk_payload_hash c'} \<longrightarrow>
          unsigned_payload c' = unsigned_payload c))"
proof -
  note k = created_verifies [OF c]
  have "unsigned_payload c' = unsigned_payload c"
    if a: "rs_allowed (evaluate_restore sha hmac c' secret now cfg' sq' ch' mx)" and s: "rk_signature c' = rk_signature c"
      and i: "inj_on sha {unsigned_payload c, unsigned_payload c'}" "inj_on (hmac secret) {rk_payload_hash c, rk_payload_hash c'}" for c' :: RuntimeCheckpoint and cfg' sq' ch'
  proof -
    have a': "canonical_hash sha (unsigned_payload c') = rk_payload_hash c'" "hexdigest (hmac secret (rk_payload_hash c')) = rk_signature c'"
      using a unfolding restore_allowed_iff by simp_all
    have k': "canonical_hash sha (unsigned_payload c) = rk_payload_hash c" "hexdigest (hmac secret (rk_payload_hash c)) = rk_signature c" using k by blast+
    have "hexdigest (hmac secret (rk_payload_hash c')) = hexdigest (hmac secret (rk_payload_hash c))" unfolding a'(2) k'(2) s ..
    then have "hmac secret (rk_payload_hash c') = hmac secret (rk_payload_hash c)" unfolding hexdigest_inj .
    then have "rk_payload_hash c' = rk_payload_hash c" by (rule inj_onD [OF i(2)]) blast+
    then have "sha (unsigned_payload c') = sha (unsigned_payload c)" unfolding canonical_hash_eq [symmetric] a'(1) k'(1) .
    then show ?thesis by (rule inj_onD [OF i(1)]) blast+
  qed
  then show ?thesis using k unfolding restore_allowed_iff by blast
qed

definition example_hmac :: "string \<Rightarrow> string \<Rightarrow> 256 word" where
  "example_hmac k m = of_nat (length m)"

theorem restore_is_authentic_witness:
  "\<exists>c. create_runtime_checkpoint example_sha example_hmac ''k'' 0 ''ACTIVE'' ''cfg'' 7 [] [] [] ''ch'' 1 = Inr c \<and>
     rs_allowed (evaluate_restore example_sha example_hmac c ''k'' 5 ''cfg'' 7 ''ch'' 60)"
proof -
  have "\<exists>c. create_runtime_checkpoint example_sha example_hmac ''k'' 0 ''ACTIVE'' ''cfg'' 7 [] [] [] ''ch'' 1 = Inr c" by (simp add: create_runtime_checkpoint_def Let_def)
  then obtain c where c: "create_runtime_checkpoint example_sha example_hmac ''k'' 0 ''ACTIVE'' ''cfg'' 7 [] [] [] ''ch'' 1 = Inr c" by blast
  have "flt 5 = 5" using flt.rnd_of_int [of 5] by simp
  then have "0 \<le> 5 - (0::rat) \<and> flt (5 - 0) \<le> 60" by simp
  with restore_is_authentic [OF c, of 5 60] c show ?thesis by blast
qed

end
