(* ===== verification/Acceptance.thy ===== *)
theory Acceptance
  imports Evidence_Ledger
begin

text \<open>
  Release acceptance: the release challenge (\<open>backend/app/release/acceptance_challenge.py\<close>), campaign evidence (\<open>campaign_acceptance.py\<close>, \<open>paper_campaign.py\<close>,
  \<open>execution_divergence.py\<close>), the signed ledger checkpoint (\<open>evidence_ledger_checkpoint.py\<close>) and the gates of \<open>acceptance_evidence.py\<close>, \<open>final_evidence.py\<close>,
  \<open>runtime_readiness.py\<close>, \<open>dod.py\<close>, \<open>precedence.py\<close> and \<open>fault_contract.py\<close>. What the file system, git, the environment and external commands answer is a record;
  the text \<open>str(v)\<close> of a value that is no string, \<open>datetime.fromisoformat\<close> and \<open>float\<close> of a text are arguments.
\<close>

section \<open>The outside world\<close>

datatype cmd_result = Exit_Zero | Exit_Error | Raised string

datatype doc_file = Bad_Path | Path_Escape | Not_Regular | Bad_Json string | Parsed json string

record ReleaseEnv =
  rv_git_sha :: string
  rv_tree_sha :: string
  rv_status :: "string list option"
  rv_contract_sha :: string
  rv_require_trust :: string
  rv_challenge_command :: string
  rv_checkpoint_command :: string
  rv_environment_id_hash :: json
  rv_topology_hash :: json
  rv_run :: "string \<Rightarrow> cmd_result"
  rv_now :: int

definition UNAVAILABLE :: string where
  "UNAVAILABLE = ''UNAVAILABLE''"

section \<open>Worktree changes that matter\<close>

definition GIT_STATUS_UNAVAILABLE_MARKER :: string where
  "GIT_STATUS_UNAVAILABLE_MARKER = ''__GIT_STATUS_UNAVAILABLE__''"

fun after :: "string \<Rightarrow> string \<Rightarrow> string option" where
  "after [] t = None"
| "after (c # s) t = (if startswith (c # s) t then Some (drop (length t) (c # s)) else after s t)"

fun split_on :: "char \<Rightarrow> string \<Rightarrow> string list" where
  "split_on d [] = [[]]"
| "split_on d (c # s) = (if c = d then [] # split_on d s else (c # hd (split_on d s)) # tl (split_on d s))"

definition path_name :: "string \<Rightarrow> string" where
  "path_name p = (let parts = filter (\<lambda>x. x \<noteq> [] \<and> x \<noteq> ''.'') (split_on CHR ''/'' p) in if parts = [] then [] else last parts)"

definition path_suffix :: "string \<Rightarrow> string" where
  "path_suffix p =
     (let name = path_name p; ext = rev (takeWhile (\<lambda>c. c \<noteq> CHR ''.'') (rev name)); i = length name - length ext
      in if CHR ''.'' \<in> set name \<and> 1 < i \<and> ext \<noteq> [] then CHR ''.'' # ext else [])"

definition source_suffixes :: "string list" where
  "source_suffixes = [''.py'', ''.pyi'', ''.sh'', ''.bash'', ''.ps1'', ''.js'', ''.mjs'', ''.cjs'', ''.ts'', ''.tsx'', ''.jsx'', ''.toml'', ''.yaml'', ''.yml'', ''.ini'', ''.cfg'']"

definition source_names :: "string list" where
  "source_names = [''dockerfile'', ''makefile'', ''package.json'', ''pyproject.toml'', ''alembic.ini'', ''.env'', ''.env.local'']"

definition status_path :: "string \<Rightarrow> string" where
  "status_path raw =
     (let path = drop 3 raw; path1 = (case after path '' -> '' of None \<Rightarrow> path | Some x \<Rightarrow> x)
      in map (\<lambda>c. if c = CHR 0x5C then CHR ''/'' else c) path1)"

definition ignored_path :: "string list \<Rightarrow> string \<Rightarrow> bool" where
  "ignored_path extra n \<longleftrightarrow> n \<in> set extra \<or> startswith n ''reports/'' \<or> startswith n ''frontend/dist/'' \<or> startswith n ''.pytest_cache/'' \<or>
     contains (CHR ''/'' # n) ''/__pycache__/'' \<or> startswith n ''.coverage''"

definition status_line :: "string list \<Rightarrow> string \<Rightarrow> string list" where
  "status_line extra raw =
     (if length raw < 4 then []
      else let n = status_path raw
           in if ignored_path extra n then []
              else if take 2 raw = ''??'' \<and> lower (path_suffix n) \<notin> set source_suffixes \<and> lower (path_name n) \<notin> set source_names then []
              else [n])"

definition tracked_source_dirty_paths :: "string list option \<Rightarrow> string list \<Rightarrow> string list" where
  "tracked_source_dirty_paths status extra =
     (case status of None \<Rightarrow> [GIT_STATUS_UNAVAILABLE_MARKER] | Some ls \<Rightarrow> sorted_set (concat (map (status_line extra) ls)))"

section \<open>The release challenge\<close>

definition replace_Z :: "string \<Rightarrow> string" where
  "replace_Z s = concat (map (\<lambda>c. if c = CHR ''Z'' then ''+00:00'' else [c]) s)"

definition has_key :: "json \<Rightarrow> string \<Rightarrow> bool" where
  "has_key v k = (case v of JObj d \<Rightarrow> dget d k \<noteq> None | _ \<Rightarrow> False)"

definition str_shorter :: "json \<Rightarrow> nat \<Rightarrow> bool" where
  "str_shorter v n = (case v of JStr s \<Rightarrow> length s < n | _ \<Rightarrow> True)"

definition age_hours :: "int \<Rightarrow> int \<Rightarrow> rat" where
  "age_hours now t = flt (total_seconds (now - t) / 3600)"

record ChallengeReport =
  ch_verified :: bool
  ch_problems :: "string list"
  ch_challenge_id :: json
  ch_git_commit_sha :: json
  ch_git_tree_sha :: json
  ch_git_identity_available_at_creation :: json
  ch_source_worktree_clean_at_creation :: json
  ch_source_worktree_dirty_paths :: "string list"
  ch_schema_version :: json
  ch_acceptance_contract_sha256 :: json
  ch_release_campaign_bound :: bool
  ch_sha256 :: json
  ch_trust_required :: bool
  ch_trust_status :: string
  ch_trust_verified :: bool

text \<open>An early return carries the problem alone: every other key reads as \<open>None\<close>.\<close>

definition no_challenge :: "string \<Rightarrow> ChallengeReport" where
  "no_challenge problem = \<lparr>ch_verified = False, ch_problems = [problem], ch_challenge_id = JNull, ch_git_commit_sha = JNull, ch_git_tree_sha = JNull,
     ch_git_identity_available_at_creation = JNull, ch_source_worktree_clean_at_creation = JNull, ch_source_worktree_dirty_paths = [], ch_schema_version = JNull,
     ch_acceptance_contract_sha256 = JNull, ch_release_campaign_bound = False, ch_sha256 = JNull, ch_trust_required = False, ch_trust_status = [], ch_trust_verified = False\<rparr>"

definition schema_of :: "(json \<Rightarrow> string) \<Rightarrow> json \<Rightarrow> string" where
  "schema_of str p = (let v = jget p ''schema_version'' in if jtrue v then jtext str v else [])"

definition binding_problems :: "ReleaseEnv \<Rightarrow> string list \<Rightarrow> string \<Rightarrow> json \<Rightarrow> string list" where
  "binding_problems rv ignored schema p =
     (if schema = ''1.0'' then flag (jget p ''single_release_use'' \<noteq> JBool True) ''CHALLENGE_V1_RELEASE_BINDING_INVALID''
      else if schema \<in> {''2.0'', ''2.1'', ''2.2'', ''2.3''} then
        flag (jget p ''release_campaign_bound'' \<noteq> JBool True) ''CHALLENGE_RELEASE_CAMPAIGN_BINDING_INVALID'' @
        flag (has_key p ''single_release_use'') ''CHALLENGE_DEPRECATED_SINGLE_USE_FIELD_PRESENT'' @
        (if schema \<in> {''2.1'', ''2.2'', ''2.3''} then
           let dirty = tracked_source_dirty_paths (rv_status rv) ignored
           in flag (rv_tree_sha rv \<noteq> UNAVAILABLE \<and> jget p ''git_tree_sha'' \<noteq> JStr (rv_tree_sha rv)) ''CHALLENGE_GIT_TREE_MISMATCH'' @
              flag (jget p ''source_worktree_clean_at_creation'' \<noteq> JBool True) ''CHALLENGE_SOURCE_DIRTY_AT_CREATION'' @
              flag (GIT_STATUS_UNAVAILABLE_MARKER \<in> set dirty) ''CHALLENGE_SOURCE_STATUS_UNAVAILABLE'' @
              flag (dirty \<noteq> []) ''CHALLENGE_SOURCE_WORKTREE_DIRTY''
         else []) @
        (if schema \<in> {''2.2'', ''2.3''} then
           flag (jget p ''git_identity_available_at_creation'' \<noteq> JBool True) ''CHALLENGE_GIT_IDENTITY_UNAVAILABLE_AT_CREATION'' @
           flag (rv_git_sha rv = UNAVAILABLE \<or> rv_tree_sha rv = UNAVAILABLE) ''CHALLENGE_GIT_IDENTITY_UNAVAILABLE'' @
           flag (jget p ''git_commit_sha'' = JStr UNAVAILABLE \<or> jget p ''git_tree_sha'' = JStr UNAVAILABLE) ''CHALLENGE_NOT_GIT_BOUND''
         else []) @
        flag (schema = ''2.3'' \<and> jget p ''acceptance_contract_sha256'' \<noteq> JStr (rv_contract_sha rv)) ''CHALLENGE_ACCEPTANCE_CONTRACT_MISMATCH''
      else [''CHALLENGE_SCHEMA_UNSUPPORTED''])"

definition run_trust :: "ReleaseEnv \<Rightarrow> string \<Rightarrow> string \<Rightarrow> string \<times> string list" where
  "run_trust rv command prefix =
     (case rv_run rv command of
        Exit_Zero \<Rightarrow> (''VERIFIED_BY_EXTERNAL_COMMAND'', [])
      | Exit_Error \<Rightarrow> (''EXTERNAL_COMMAND_REJECTED'', [prefix @ ''_FAILED''])
      | Raised e \<Rightarrow> (''EXTERNAL_COMMAND_ERROR:'' @ e, [prefix @ ''_ERROR'']))"

definition challenge_trust :: "ReleaseEnv \<Rightarrow> bool \<Rightarrow> string \<times> string list" where
  "challenge_trust rv required =
     (let command = strip (rv_challenge_command rv)
      in if command \<noteq> [] then run_trust rv command ''CHALLENGE_TRUST_VERIFICATION''
         else (''NOT_CONFIGURED'', flag required ''CHALLENGE_TRUST_VERIFIER_MISSING''))"

definition trust_required :: "ReleaseEnv \<Rightarrow> bool option \<Rightarrow> bool" where
  "trust_required rv require_trust = (case require_trust of None \<Rightarrow> lower (strip (rv_require_trust rv)) \<in> {''1'', ''true'', ''yes''} | Some b \<Rightarrow> b)"

definition challenge_age_problems :: "(json \<Rightarrow> string) \<Rightarrow> (string \<Rightarrow> int option) \<Rightarrow> ReleaseEnv \<Rightarrow> rat \<Rightarrow> json \<Rightarrow> string list" where
  "challenge_age_problems str fromiso rv max_age p =
     (case fromiso (replace_Z (jtext str (jget p ''created_at''))) of
        None \<Rightarrow> [''CHALLENGE_TIMESTAMP_INVALID'']
      | Some t \<Rightarrow> if age_hours (rv_now rv) t < - 1 then [''CHALLENGE_FROM_FUTURE''] else flag (max_age < age_hours (rv_now rv) t) ''CHALLENGE_STALE'')"

definition challenge_checks :: "(json \<Rightarrow> string) \<Rightarrow> (string \<Rightarrow> int option) \<Rightarrow> ReleaseEnv \<Rightarrow> string list \<Rightarrow> rat \<Rightarrow> bool \<Rightarrow> json \<Rightarrow> string list" where
  "challenge_checks str fromiso rv ignored max_age required p =
     flag (jget p ''classification'' \<noteq> JStr ''EXTERNAL_ACCEPTANCE_RELEASE_CHALLENGE'') ''CHALLENGE_INVALID_CLASSIFICATION'' @
     binding_problems rv ignored (schema_of str p) p @
     flag (str_shorter (jget p ''challenge_id'') 16) ''CHALLENGE_ID_INVALID'' @
     flag (rv_git_sha rv \<noteq> UNAVAILABLE \<and> jget p ''git_commit_sha'' \<noteq> JStr (rv_git_sha rv)) ''CHALLENGE_GIT_MISMATCH'' @
     flag (required \<and> schema_of str p \<noteq> ''2.3'') ''CHALLENGE_CURRENT_SCHEMA_REQUIRED'' @
     snd (challenge_trust rv required) @ challenge_age_problems str fromiso rv max_age p"

definition challenge_report :: "ReleaseEnv \<Rightarrow> string list \<Rightarrow> bool \<Rightarrow> string list \<Rightarrow> json \<Rightarrow> string \<Rightarrow> ChallengeReport" where
  "challenge_report rv ignored required problems p sha =
     (let status = fst (challenge_trust rv required)
      in \<lparr>ch_verified = (problems = []), ch_problems = problems, ch_challenge_id = jget p ''challenge_id'', ch_git_commit_sha = jget p ''git_commit_sha'',
          ch_git_tree_sha = jget p ''git_tree_sha'', ch_git_identity_available_at_creation = jget p ''git_identity_available_at_creation'',
          ch_source_worktree_clean_at_creation = jget p ''source_worktree_clean_at_creation'',
          ch_source_worktree_dirty_paths = tracked_source_dirty_paths (rv_status rv) ignored, ch_schema_version = jget p ''schema_version'',
          ch_acceptance_contract_sha256 = jget p ''acceptance_contract_sha256'',
          ch_release_campaign_bound = (jget p ''release_campaign_bound'' = JBool True \<or> (jget p ''schema_version'' = JStr ''1.0'' \<and> jget p ''single_release_use'' = JBool True)),
          ch_sha256 = JStr sha, ch_trust_required = required, ch_trust_status = status, ch_trust_verified = (status = ''VERIFIED_BY_EXTERNAL_COMMAND'')\<rparr>)"

lemma challenge_report_simps [simp]:
  "ch_verified (challenge_report rv ig rq ps p sha) \<longleftrightarrow> ps = []" "ch_challenge_id (challenge_report rv ig rq ps p sha) = jget p ''challenge_id''"
  "ch_sha256 (challenge_report rv ig rq ps p sha) = JStr sha"
  by (simp_all add: challenge_report_def Let_def)

definition verify_challenge ::
  "(json \<Rightarrow> string) \<Rightarrow> (string \<Rightarrow> int option) \<Rightarrow> ReleaseEnv \<Rightarrow> string list \<Rightarrow> rat \<Rightarrow> bool option \<Rightarrow> doc_file \<Rightarrow> ChallengeReport res" where
  "verify_challenge str fromiso rv ignored max_age require_trust file =
     (case file of
        Not_Regular \<Rightarrow> Inr (no_challenge ''CHALLENGE_MISSING'')
      | Bad_Path \<Rightarrow> Inr (no_challenge ''CHALLENGE_PATH_INTEGRITY_INVALID'')
      | Path_Escape \<Rightarrow> Inr (no_challenge ''CHALLENGE_PATH_INTEGRITY_INVALID'')
      | Bad_Json e \<Rightarrow> Inr (no_challenge (''CHALLENGE_INVALID_JSON:'' @ e))
      | Parsed p sha \<Rightarrow>
        if \<not> is_obj p then Inl (OtherException ''AttributeError'')
        else let required = trust_required rv require_trust
             in Inr (challenge_report rv ignored required (challenge_checks str fromiso rv ignored max_age required p) p sha))"

section \<open>Paper campaigns\<close>

record PaperCampaignPolicy =
  pp_min_effective_sample_size :: rat
  pp_min_calendar_days :: int
  pp_min_market_regimes :: int
  pp_min_long_examples :: int
  pp_min_exit_examples :: int
  pp_min_short_examples :: int
  pp_require_cost_stress :: bool
  pp_require_latency_stress :: bool
  pp_require_independent_oos :: bool
  pp_max_execution_divergence_bps :: rat

definition default_paper_policy :: PaperCampaignPolicy where
  "default_paper_policy = \<lparr>pp_min_effective_sample_size = 100, pp_min_calendar_days = 30, pp_min_market_regimes = 2, pp_min_long_examples = 20, pp_min_exit_examples = 20,
     pp_min_short_examples = 0, pp_require_cost_stress = True, pp_require_latency_stress = True, pp_require_independent_oos = True, pp_max_execution_divergence_bps = 25\<rparr>"

definition validate_paper_policy :: "PaperCampaignPolicy \<Rightarrow> PaperCampaignPolicy res" where
  "validate_paper_policy p =
     (if pp_min_effective_sample_size p \<le> 0 then Inl (ValueError ''minimum effective sample size must be positive'')
      else if pp_min_calendar_days p \<le> 0 then Inl (ValueError ''minimum calendar duration must be positive'')
      else if pp_min_market_regimes p < 2 then Inl (ValueError ''paper validation must cover multiple market regimes'')
      else if pp_min_long_examples p < 0 \<or> pp_min_exit_examples p < 0 \<or> pp_min_short_examples p < 0 then Inl (ValueError ''directional example minimums cannot be negative'')
      else if pp_max_execution_divergence_bps p < 0 then Inl (ValueError ''execution divergence limit cannot be negative'')
      else Inr p)"

record PaperCampaignEvidence =
  pe_effective_sample_size :: rat
  pe_calendar_days :: int
  pe_market_regimes :: "string list"
  pe_long_examples :: int
  pe_exit_examples :: int
  pe_short_examples :: int
  pe_active_market_type :: string
  pe_cost_stress_passed :: bool
  pe_latency_stress_passed :: bool
  pe_independent_oos_passed :: bool
  pe_execution_divergence_bps :: rat
  pe_executed :: bool
  pe_real_market_data :: bool

definition distinct_regimes :: "string list \<Rightarrow> int" where
  "distinct_regimes rs = int (length (remdups (map (\<lambda>x. upper (strip x)) (filter (\<lambda>x. strip x \<noteq> []) rs))))"

definition campaign_blockers :: "PaperCampaignEvidence \<Rightarrow> PaperCampaignPolicy \<Rightarrow> string list" where
  "campaign_blockers e p =
     flag (\<not> pe_executed e) ''PAPER_CAMPAIGN_NOT_EXECUTED'' @
     flag (\<not> pe_real_market_data e) ''REAL_MARKET_PAPER_EVIDENCE_MISSING'' @
     flag (pe_effective_sample_size e < pp_min_effective_sample_size p) ''EFFECTIVE_SAMPLE_TOO_SMALL'' @
     flag (pe_calendar_days e < pp_min_calendar_days p) ''CALENDAR_DURATION_TOO_SHORT'' @
     flag (distinct_regimes (pe_market_regimes e) < pp_min_market_regimes p) ''INSUFFICIENT_MARKET_REGIMES'' @
     flag (pe_long_examples e < pp_min_long_examples p) ''INSUFFICIENT_LONG_EXAMPLES'' @
     flag (pe_exit_examples e < pp_min_exit_examples p) ''INSUFFICIENT_EXIT_EXAMPLES'' @
     flag (upper (strip (pe_active_market_type e)) \<in> {''PERPETUAL'', ''FUTURES'', ''MARGIN''} \<and> pe_short_examples e < pp_min_short_examples p) ''INSUFFICIENT_SHORT_EXAMPLES'' @
     flag (pp_require_cost_stress p \<and> \<not> pe_cost_stress_passed e) ''COST_STRESS_MISSING_OR_FAILED'' @
     flag (pp_require_latency_stress p \<and> \<not> pe_latency_stress_passed e) ''LATENCY_STRESS_MISSING_OR_FAILED'' @
     flag (pp_require_independent_oos p \<and> \<not> pe_independent_oos_passed e) ''INDEPENDENT_OOS_MISSING_OR_FAILED'' @
     flag (pe_execution_divergence_bps e < 0 \<or> pp_max_execution_divergence_bps p < pe_execution_divergence_bps e) ''EXECUTION_DIVERGENCE_EXCEEDED''"

definition paper_blockers :: "PaperCampaignEvidence \<Rightarrow> PaperCampaignPolicy \<Rightarrow> string list res" where
  "paper_blockers e p = bind_res (validate_paper_policy p) (\<lambda>p. Inr (campaign_blockers e p))"

definition assert_eligible :: "PaperCampaignEvidence \<Rightarrow> PaperCampaignPolicy \<Rightarrow> PaperCampaignEvidence res" where
  "assert_eligible e p = bind_res (paper_blockers e p) (\<lambda>b.
     if b \<noteq> [] then Inl (PermissionError (''paper campaign is not LIVE-promotion eligible: '' @ join '','' b)) else Inr e)"

section \<open>Campaign evidence\<close>

definition finite_number :: "(string \<Rightarrow> rat option) \<Rightarrow> json \<Rightarrow> rat res" where
  "finite_number float_of v =
     (case v of
        JBool b \<Rightarrow> Inl (ValueError ''boolean/null is not an acceptance metric number'')
      | JNull \<Rightarrow> Inl (ValueError ''boolean/null is not an acceptance metric number'')
      | JNum r \<Rightarrow> Inr (flt r)
      | JNonFinite \<Rightarrow> Inl (ValueError ''acceptance metric must be finite'')
      | JStr s \<Rightarrow> (case float_of s of None \<Rightarrow> Inl (ValueError ''could not convert string to float'') | Some x \<Rightarrow> Inr x)
      | _ \<Rightarrow> Inl (TypeError ''float() argument must be a string or a real number''))"

definition strict_int :: "(string \<Rightarrow> rat option) \<Rightarrow> json \<Rightarrow> int res" where
  "strict_int float_of v = bind_res (finite_number float_of v) (\<lambda>x.
     if of_int \<lfloor>x\<rfloor> \<noteq> x then Inl (ValueError ''acceptance count metric must be an integer'') else Inr \<lfloor>x\<rfloor>)"

definition num :: "(string \<Rightarrow> rat option) \<Rightarrow> json \<Rightarrow> string \<Rightarrow> rat" where
  "num float_of metrics k = (case finite_number float_of (jget metrics k) of Inr x \<Rightarrow> x | Inl _ \<Rightarrow> 0)"

definition numeric_fields :: "string \<Rightarrow> (string \<times> bool) list" where
  "numeric_fields kind =
     (if kind = ''private-stream'' then [(''observed_events'', True)]
      else if kind = ''paper'' then [(''effective_sample_size'', False), (''calendar_days'', True), (''long_examples'', True), (''exit_examples'', True),
        (''short_examples'', True), (''execution_divergence_bps'', False)]
      else if kind = ''live-shadow'' then [(''calendar_days'', True), (''observations'', True), (''real_orders_submitted'', True), (''exchange_submit_calls'', True)]
      else [(''effective_sample_size'', False), (''net_expectancy_bps'', False), (''bootstrap_ci_lower_bps'', False), (''probabilistic_sharpe_ratio'', False)])"

definition numeric_metrics_are_valid :: "(string \<Rightarrow> rat option) \<Rightarrow> string \<Rightarrow> json \<Rightarrow> bool" where
  "numeric_metrics_are_valid float_of kind metrics =
     list_all (\<lambda>(k, whole). if whole then is_ok (strict_int float_of (jget metrics k)) else is_ok (finite_number float_of (jget metrics k))) (numeric_fields kind)"

definition CLASSIFICATIONS :: "(string, string) dict" where
  "CLASSIFICATIONS = [(''private-stream'', ''CREDENTIALED_PRIVATE_STREAM_ACCEPTANCE''), (''paper'', ''REAL_MARKET_PAPER_CAMPAIGN_ACCEPTANCE''),
     (''live-shadow'', ''LIVE_SHADOW_CAMPAIGN_ACCEPTANCE''), (''profitability'', ''REAL_PIT_PROFITABILITY_ACCEPTANCE'')]"

definition is_str :: "json \<Rightarrow> bool" where
  "is_str v = (case v of JStr _ \<Rightarrow> True | _ \<Rightarrow> False)"

definition is_hash64 :: "json \<Rightarrow> bool" where
  "is_hash64 v = (case v of JStr s \<Rightarrow> length s = 64 | _ \<Rightarrow> False)"

definition obj_or_empty :: "json \<Rightarrow> json" where
  "obj_or_empty v = (if is_obj v then v else JObj [])"

definition challenge_problems :: "ChallengeReport \<Rightarrow> json \<Rightarrow> string \<Rightarrow> string \<Rightarrow> string list" where
  "challenge_problems ch bound unverified mismatch =
     (if \<not> ch_verified ch then [unverified]
      else flag (jget bound ''challenge_id'' \<noteq> ch_challenge_id ch \<or> jget bound ''sha256'' \<noteq> ch_sha256 ch) mismatch)"

definition environment_problems :: "json \<Rightarrow> json \<Rightarrow> json \<Rightarrow> string list" where
  "environment_problems expected_env expected_topology environment =
     flag (\<not> is_hash64 expected_env) ''ACCEPTANCE_ENVIRONMENT_IDENTITY_MISSING'' @
     flag (\<not> is_hash64 expected_topology) ''ACCEPTANCE_TOPOLOGY_HASH_MISSING'' @
     flag (is_str expected_env \<and> jget environment ''acceptance_environment_id_hash'' \<noteq> expected_env) ''ACCEPTANCE_ENVIRONMENT_ID_MISMATCH'' @
     flag (is_str expected_topology \<and> jget environment ''topology_hash'' \<noteq> expected_topology) ''ACCEPTANCE_TOPOLOGY_MISMATCH''"

definition generated_problems :: "(json \<Rightarrow> string) \<Rightarrow> (string \<Rightarrow> int option) \<Rightarrow> ReleaseEnv \<Rightarrow> rat \<Rightarrow> json \<Rightarrow> string list" where
  "generated_problems str fromiso rv max_age v =
     (case fromiso (replace_Z (jtext str v)) of
        None \<Rightarrow> [''INVALID_GENERATED_AT'']
      | Some t \<Rightarrow> if age_hours (rv_now rv) t < - 1 then [''GENERATED_AT_IN_FUTURE''] else flag (max_age < age_hours (rv_now rv) t) ''EVIDENCE_RECEIPT_STALE'')"

datatype artifact = Artifact_Path_Invalid | Artifact_Missing | Artifact_File string

definition artifact_problem :: "(json \<Rightarrow> string) \<Rightarrow> (string \<Rightarrow> artifact) \<Rightarrow> bool \<Rightarrow> nat \<Rightarrow> json \<Rightarrow> string list" where
  "artifact_problem str files strict idx row =
     (if \<not> is_obj row then [numbered ''SOURCE_ARTIFACT_INVALID'' idx]
      else case files (jtext str (jget row ''path'')) of
             Artifact_Path_Invalid \<Rightarrow> [numbered (if strict then ''SOURCE_ARTIFACT_PATH_INTEGRITY_INVALID'' else ''SOURCE_ARTIFACT_OUTSIDE_ROOT'') idx]
           | Artifact_Missing \<Rightarrow> [numbered (if strict then ''SOURCE_ARTIFACT_PATH_INTEGRITY_INVALID'' else ''SOURCE_ARTIFACT_MISSING'') idx]
           | Artifact_File sha \<Rightarrow> flag (jget row ''sha256'' \<noteq> JStr sha) (numbered ''SOURCE_ARTIFACT_HASH_MISMATCH'' idx))"

definition artifact_problems :: "(json \<Rightarrow> string) \<Rightarrow> (string \<Rightarrow> artifact) \<Rightarrow> bool \<Rightarrow> json \<Rightarrow> string list" where
  "artifact_problems str files strict v =
     (case v of
        JList rows \<Rightarrow> if rows = [] then [''SOURCE_ARTIFACTS_MISSING''] else concat (map (\<lambda>(i, row). artifact_problem str files strict i row) (enumerate 0 rows))
      | _ \<Rightarrow> [''SOURCE_ARTIFACTS_MISSING''])"

definition expected_binding :: "ReleaseEnv \<Rightarrow> json \<Rightarrow> string \<Rightarrow> json" where
  "expected_binding rv expected k =
     (if is_obj expected then jget expected k
      else if k = ''acceptance_environment_id_hash'' then rv_environment_id_hash rv else rv_topology_hash rv)"

definition common_problems ::
  "(json \<Rightarrow> string) \<Rightarrow> (string \<Rightarrow> int option) \<Rightarrow> ReleaseEnv \<Rightarrow> (string \<Rightarrow> artifact) \<Rightarrow> ChallengeReport \<Rightarrow> string \<Rightarrow> rat \<Rightarrow> bool \<Rightarrow> json \<Rightarrow> json \<Rightarrow> string list" where
  "common_problems str fromiso rv files ch kind max_age strict expected p =
     flag (jget p ''schema_version'' \<noteq> JStr ''1.0'') ''CAMPAIGN_SCHEMA_UNSUPPORTED'' @
     flag (jget p ''classification'' \<noteq> JStr (get_or CLASSIFICATIONS kind [])) ''INVALID_CLASSIFICATION'' @
     flag (jget p ''real_system'' \<noteq> JBool True \<or> jget p ''executed'' \<noteq> JBool True) ''REAL_EXECUTION_NOT_CONFIRMED'' @
     flag (rv_git_sha rv \<noteq> UNAVAILABLE \<and> jget p ''git_commit_sha'' \<noteq> JStr (rv_git_sha rv)) ''GIT_COMMIT_MISMATCH'' @
     challenge_problems ch (obj_or_empty (jget p ''release_challenge'')) ''RELEASE_CHALLENGE_NOT_VERIFIED'' ''RELEASE_CHALLENGE_BINDING_MISMATCH'' @
     (if strict then environment_problems (expected_binding rv expected ''acceptance_environment_id_hash'') (expected_binding rv expected ''topology_hash'')
        (obj_or_empty (jget p ''environment'')) else []) @
     generated_problems str fromiso rv max_age (jget p ''generated_at'') @
     artifact_problems str files strict (jget p ''source_artifacts'')"

definition private_stream_checks :: "string list" where
  "private_stream_checks = [''credentialed_testnet'', ''auth_lifecycle_passed'', ''reconnect_passed'', ''rest_reconciliation_passed'', ''duplicate_event_idempotency_passed'',
     ''out_of_order_protection_passed'', ''secrets_redacted'']"

definition profitability_checks :: "string list" where
  "profitability_checks = [''real_point_in_time_data'', ''independent_oos'', ''leakage_checks_passed'', ''cost_stress_passed'', ''survivorship_controls_passed'']"

definition not_all_true :: "json \<Rightarrow> string list \<Rightarrow> bool" where
  "not_all_true m ks = list_ex (\<lambda>k. jget m k \<noteq> JBool True) ks"

text \<open>Reading \<open>x.strip()\<close> of each regime, and \<open>tuple(value or ())\<close>: a text is a tuple of its characters, an object one of its keys.\<close>

fun regime_texts :: "json list \<Rightarrow> string list res" where
  "regime_texts [] = Inr []"
| "regime_texts (JStr s # xs) = bind_res (regime_texts xs) (\<lambda>ys. Inr (s # ys))"
| "regime_texts (_ # xs) = Inl (OtherException ''AttributeError'')"

definition regimes_of :: "json \<Rightarrow> json list res" where
  "regimes_of v =
     (if \<not> jtrue v then Inr []
      else case v of
             JStr s \<Rightarrow> Inr (map (\<lambda>c. JStr [c]) s)
           | JList xs \<Rightarrow> Inr xs
           | JObj d \<Rightarrow> Inr (map (\<lambda>x. JStr (fst x)) d)
           | _ \<Rightarrow> Inl (TypeError ''object is not iterable''))"

definition exc_name :: "pyerr \<Rightarrow> string" where
  "exc_name e = (case e of ValueError _ \<Rightarrow> ''ValueError'' | TypeError _ \<Rightarrow> ''TypeError'' | OtherException n \<Rightarrow> n | _ \<Rightarrow> ''Exception'')"

definition text_metric :: "(json \<Rightarrow> string) \<Rightarrow> json \<Rightarrow> string \<Rightarrow> string" where
  "text_metric str m k = (if has_key m k then jtext str (jget m k) else [])"

definition paper_evidence :: "(json \<Rightarrow> string) \<Rightarrow> (string \<Rightarrow> rat option) \<Rightarrow> json \<Rightarrow> json \<Rightarrow> PaperCampaignEvidence res" where
  "paper_evidence str float_of p m =
     bind_res (finite_number float_of (jget m ''effective_sample_size'')) (\<lambda>ess.
     bind_res (strict_int float_of (jget m ''calendar_days'')) (\<lambda>days.
     bind_res (regimes_of (jget m ''market_regimes'')) (\<lambda>rows.
     bind_res (strict_int float_of (jget m ''long_examples'')) (\<lambda>longs.
     bind_res (strict_int float_of (jget m ''exit_examples'')) (\<lambda>exits.
     bind_res (strict_int float_of (jget m ''short_examples'')) (\<lambda>shorts.
     bind_res (finite_number float_of (jget m ''execution_divergence_bps'')) (\<lambda>dv.
     bind_res (regime_texts rows) (\<lambda>regimes.
       Inr \<lparr>pe_effective_sample_size = ess, pe_calendar_days = days, pe_market_regimes = regimes, pe_long_examples = longs, pe_exit_examples = exits,
         pe_short_examples = shorts, pe_active_market_type = text_metric str m ''active_market_type'', pe_cost_stress_passed = (jget m ''cost_stress_passed'' = JBool True),
         pe_latency_stress_passed = (jget m ''latency_stress_passed'' = JBool True), pe_independent_oos_passed = (jget m ''independent_oos_passed'' = JBool True),
         pe_execution_divergence_bps = dv, pe_executed = (jget p ''executed'' = JBool True), pe_real_market_data = (jget m ''real_market_data'' = JBool True)\<rparr>))))))))"

definition paper_problems :: "(json \<Rightarrow> string) \<Rightarrow> (string \<Rightarrow> rat option) \<Rightarrow> json \<Rightarrow> json \<Rightarrow> string list" where
  "paper_problems str float_of p m =
     (case bind_res (paper_evidence str float_of p m) (\<lambda>e. paper_blockers e default_paper_policy) of
        Inl e \<Rightarrow> [''PAPER_METRICS_INVALID:'' @ exc_name e]
      | Inr b \<Rightarrow> b)"

definition kind_problems :: "(json \<Rightarrow> string) \<Rightarrow> (string \<Rightarrow> rat option) \<Rightarrow> string \<Rightarrow> json \<Rightarrow> json \<Rightarrow> bool \<Rightarrow> string list" where
  "kind_problems str float_of kind p m numeric_valid =
     (if kind = ''private-stream'' then
        flag (not_all_true m private_stream_checks) ''PRIVATE_STREAM_REQUIRED_CHECK_FAILED'' @
        flag (numeric_valid \<and> num float_of m ''observed_events'' \<le> 0) ''PRIVATE_STREAM_NO_EVENTS''
      else if kind = ''paper'' then paper_problems str float_of p m
      else if kind = ''live-shadow'' then
        flag (jget m ''real_market_data'' \<noteq> JBool True) ''LIVE_SHADOW_REAL_MARKET_DATA_MISSING'' @
        flag (numeric_valid \<and> (num float_of m ''calendar_days'' < 7 \<or> num float_of m ''observations'' < 100)) ''LIVE_SHADOW_SAMPLE_INSUFFICIENT'' @
        flag (numeric_valid \<and> (num float_of m ''real_orders_submitted'' \<noteq> 0 \<or> num float_of m ''exchange_submit_calls'' \<noteq> 0)) ''LIVE_SHADOW_UNINTENDED_ORDER_SUBMISSION'' @
        flag (jget m ''kill_switch_tested'' \<noteq> JBool True \<or> jget m ''reconciliation_passed'' \<noteq> JBool True) ''LIVE_SHADOW_SAFETY_CHECK_FAILED''
      else
        flag (not_all_true m profitability_checks) ''PIT_PROFITABILITY_INTEGRITY_CHECK_FAILED'' @
        flag (numeric_valid \<and> num float_of m ''effective_sample_size'' < 100) ''PIT_PROFITABILITY_SAMPLE_TOO_SMALL'' @
        flag (numeric_valid \<and> (num float_of m ''net_expectancy_bps'' \<le> 0 \<or> num float_of m ''bootstrap_ci_lower_bps'' \<le> 0)) ''PIT_PROFITABILITY_NOT_POSITIVE_AFTER_COSTS'' @
        flag (numeric_valid \<and> num float_of m ''probabilistic_sharpe_ratio'' < flt (95 / 100)) ''PIT_PROFITABILITY_STATISTICAL_CONFIDENCE_LOW'')"

record CampaignReport =
  ca_verified :: bool
  ca_problems :: "string list"
  ca_kind :: string
  ca_sha256 :: json
  ca_metrics :: json

definition campaign_report :: "string list \<Rightarrow> string \<Rightarrow> json \<Rightarrow> json \<Rightarrow> CampaignReport" where
  "campaign_report ps kind sha m = \<lparr>ca_verified = (ps = []), ca_problems = ps, ca_kind = kind, ca_sha256 = sha, ca_metrics = m\<rparr>"

definition verify_campaign_evidence ::
  "(json \<Rightarrow> string) \<Rightarrow> (string \<Rightarrow> int option) \<Rightarrow> (string \<Rightarrow> rat option) \<Rightarrow> ReleaseEnv \<Rightarrow> (string \<Rightarrow> artifact) \<Rightarrow> string list \<Rightarrow> doc_file \<Rightarrow> string \<Rightarrow> rat \<Rightarrow> bool \<Rightarrow> json \<Rightarrow> doc_file \<Rightarrow>
    CampaignReport res" where
  "verify_campaign_evidence str fromiso float_of rv files ignored challenge_file kind max_age strict expected file =
     (if dget CLASSIFICATIONS kind = None then Inl (ValueError (''unsupported campaign evidence kind: '' @ kind))
      else case file of
             Parsed p sha \<Rightarrow>
               if \<not> is_obj p then Inr (campaign_report [''INVALID_JSON_ROOT''] kind JNull JNull)
               else bind_res (verify_challenge str fromiso rv ignored 24 (if strict then Some True else None) challenge_file) (\<lambda>ch.
                 let m = obj_or_empty (jget p ''metrics''); numeric_valid = numeric_metrics_are_valid float_of kind m
                 in Inr (campaign_report (common_problems str fromiso rv files ch kind max_age strict expected p @
                      flag (\<not> numeric_valid) ''NON_FINITE_OR_INVALID_NUMERIC_METRIC'' @ kind_problems str float_of kind p m numeric_valid) kind (JStr sha) m))
           | Bad_Json e \<Rightarrow> Inr (campaign_report [''INVALID_JSON:'' @ e] kind JNull JNull)
           | _ \<Rightarrow> Inr (campaign_report [''INVALID_JSON:FileNotFoundError''] kind JNull JNull))"

section \<open>The signed ledger checkpoint\<close>

datatype signature_file = Sig_Symlink | Sig_Escape | Sig_Missing | Sig_File string

record LedgerView =
  lw_symlink :: bool
  lw_file :: ledger_file
  lw_sha256 :: string

record CheckpointReport =
  ck_verified :: bool
  ck_problems :: "string list"
  ck_ledger_head_hash :: "string option"
  ck_ledger_entries :: nat
  ck_trust_status :: string
  ck_trust_verified :: bool
  ck_sha256 :: json

definition no_checkpoint :: "string \<Rightarrow> CheckpointReport" where
  "no_checkpoint problem = \<lparr>ck_verified = False, ck_problems = [problem], ck_ledger_head_hash = None, ck_ledger_entries = 0, ck_trust_status = [], ck_trust_verified = False, ck_sha256 = JNull\<rparr>"

definition blank_field :: "json \<Rightarrow> string \<Rightarrow> bool" where
  "blank_field p k = (case jget p k of JStr s \<Rightarrow> strip s = [] | _ \<Rightarrow> True)"

definition checkpoint_document_problems :: "json \<Rightarrow> string list" where
  "checkpoint_document_problems p =
     flag (jget p ''schema_version'' \<noteq> JStr ''1.0'') ''LEDGER_CHECKPOINT_SCHEMA_INVALID'' @
     flag (jget p ''classification'' \<noteq> JStr ''REAL_EXTERNAL_ACCEPTANCE_SIGNED_LEDGER_CHECKPOINT'') ''LEDGER_CHECKPOINT_CLASSIFICATION_INVALID'' @
     flag (jget p ''real_system'' \<noteq> JBool True \<or> jget p ''executed'' \<noteq> JBool True) ''LEDGER_CHECKPOINT_NOT_REAL_EXECUTION'' @
     flag (jget p ''signature_verified'' \<noteq> JBool True) ''LEDGER_CHECKPOINT_SIGNATURE_NOT_VERIFIED'' @
     concat (map (\<lambda>k. flag (blank_field p k) (''LEDGER_CHECKPOINT_FIELD_MISSING:'' @ k)) [''signer_identity'', ''signer_key_id'', ''signature_mechanism''])"

definition observed_problems :: "(string \<Rightarrow> int option) \<Rightarrow> ReleaseEnv \<Rightarrow> rat \<Rightarrow> json \<Rightarrow> string list" where
  "observed_problems fromiso rv max_age v =
     (case (case v of JStr s \<Rightarrow> fromiso (replace_Z s) | _ \<Rightarrow> None) of
        None \<Rightarrow> [''LEDGER_CHECKPOINT_OBSERVED_AT_INVALID'']
      | Some t \<Rightarrow> flag (age_hours (rv_now rv) t < - 1 \<or> max_age < age_hours (rv_now rv) t) ''LEDGER_CHECKPOINT_STALE'')"

definition view_ledger :: "(json \<Rightarrow> string) \<Rightarrow> (json \<Rightarrow> string) \<Rightarrow> LedgerView \<Rightarrow> LedgerReport res" where
  "view_ledger digest str w = (if lw_symlink w then Inr (rejected [''LEDGER_SYMLINK_NOT_ALLOWED'']) else verify_ledger digest str (lw_file w))"

definition ledger_problems :: "json \<Rightarrow> LedgerView \<Rightarrow> LedgerReport \<Rightarrow> string list" where
  "ledger_problems p w r =
     flag (lw_symlink w) ''LEDGER_CHECKPOINT_LEDGER_SYMLINK_NOT_ALLOWED'' @
     (if \<not> lr_verified r then [''LEDGER_CHECKPOINT_LEDGER_INVALID'']
      else flag (jget p ''ledger_sha256'' \<noteq> JStr (lw_sha256 w)) ''LEDGER_CHECKPOINT_LEDGER_HASH_MISMATCH'' @
           flag (case lr_head_hash r of None \<Rightarrow> jget p ''ledger_head_hash'' \<noteq> JNull | Some h \<Rightarrow> jget p ''ledger_head_hash'' \<noteq> JStr h) ''LEDGER_CHECKPOINT_HEAD_HASH_MISMATCH'' @
           flag (\<not> jeq_int (jget p ''ledger_entries'') (int (lr_entries r))) ''LEDGER_CHECKPOINT_ENTRY_COUNT_MISMATCH'') @
     flag (jget p ''ledger_artifact'' \<noteq> JStr ''reports/external_acceptance/evidence_ledger.json'') ''LEDGER_CHECKPOINT_LEDGER_TARGET_INVALID''"

definition checkpoint_git_problems :: "string option \<Rightarrow> json \<Rightarrow> string list" where
  "checkpoint_git_problems git p =
     (case git of
        None \<Rightarrow> [''LEDGER_CHECKPOINT_GIT_UNAVAILABLE'']
      | Some g \<Rightarrow> if g = [] then [''LEDGER_CHECKPOINT_GIT_UNAVAILABLE''] else flag (jget p ''git_commit_sha'' \<noteq> JStr g) ''LEDGER_CHECKPOINT_GIT_MISMATCH'')"

definition checkpoint_environment_problems :: "json \<Rightarrow> json \<Rightarrow> string list" where
  "checkpoint_environment_problems expected environment =
     (let e = jget expected ''acceptance_environment_id_hash''; t = jget expected ''topology_hash''
      in (if \<not> is_hash64 e then [''LEDGER_CHECKPOINT_EXPECTED_ENVIRONMENT_MISSING'']
          else flag (jget environment ''acceptance_environment_id_hash'' \<noteq> e) ''LEDGER_CHECKPOINT_ENVIRONMENT_MISMATCH'') @
         (if \<not> is_hash64 t then [''LEDGER_CHECKPOINT_EXPECTED_TOPOLOGY_MISSING'']
          else flag (jget environment ''topology_hash'' \<noteq> t) ''LEDGER_CHECKPOINT_TOPOLOGY_MISMATCH''))"

text \<open>The problems of the signature artifact, and whether its path could be used.\<close>

definition signature_problems :: "(string \<Rightarrow> signature_file) \<Rightarrow> json \<Rightarrow> string list \<times> bool" where
  "signature_problems sigs p =
     (case (jget p ''signature_artifact'', jget p ''signature_sha256'') of
        (JStr rel, JStr h) \<Rightarrow>
          if rel = [] \<or> length h \<noteq> 64 then ([''LEDGER_CHECKPOINT_SIGNATURE_BINDING_INVALID''], False)
          else (case sigs rel of
                  Sig_Symlink \<Rightarrow> ([''LEDGER_CHECKPOINT_SIGNATURE_SYMLINK_NOT_ALLOWED''], False)
                | Sig_Escape \<Rightarrow> ([''LEDGER_CHECKPOINT_SIGNATURE_PATH_ESCAPE''], False)
                | Sig_Missing \<Rightarrow> ([''LEDGER_CHECKPOINT_SIGNATURE_ARTIFACT_MISSING''], True)
                | Sig_File sha \<Rightarrow> (flag (sha \<noteq> lower h) ''LEDGER_CHECKPOINT_SIGNATURE_HASH_MISMATCH'', True))
      | _ \<Rightarrow> ([''LEDGER_CHECKPOINT_SIGNATURE_BINDING_INVALID''], False))"

definition checkpoint_trust :: "ReleaseEnv \<Rightarrow> bool \<Rightarrow> bool \<Rightarrow> string \<times> string list" where
  "checkpoint_trust rv required has_sig =
     (let command = strip (rv_checkpoint_command rv)
      in if command \<noteq> [] \<and> has_sig then run_trust rv command ''LEDGER_CHECKPOINT_EXTERNAL_TRUST''
         else (''NOT_CONFIGURED'', flag required ''LEDGER_CHECKPOINT_EXTERNAL_TRUST_VERIFIER_MISSING''))"

definition verify_ledger_checkpoint ::
  "(json \<Rightarrow> string) \<Rightarrow> (json \<Rightarrow> string) \<Rightarrow> (string \<Rightarrow> int option) \<Rightarrow> ReleaseEnv \<Rightarrow> string option \<Rightarrow> LedgerView \<Rightarrow> (string \<Rightarrow> signature_file) \<Rightarrow> string list \<Rightarrow> doc_file \<Rightarrow> rat \<Rightarrow> json \<Rightarrow> bool \<Rightarrow>
    doc_file \<Rightarrow> CheckpointReport res" where
  "verify_ledger_checkpoint digest str fromiso rv git w sigs ignored challenge_file max_age expected require_trust file =
     (case file of
        Bad_Path \<Rightarrow> Inr (no_checkpoint ''LEDGER_CHECKPOINT_SYMLINK_NOT_ALLOWED'')
      | Path_Escape \<Rightarrow> Inr (no_checkpoint ''LEDGER_CHECKPOINT_PATH_ESCAPE'')
      | Not_Regular \<Rightarrow> Inr (no_checkpoint ''LEDGER_CHECKPOINT_MISSING'')
      | Bad_Json e \<Rightarrow> Inr (no_checkpoint (''LEDGER_CHECKPOINT_INVALID_JSON:'' @ e))
      | Parsed p sha \<Rightarrow>
        if \<not> is_obj p then Inl (OtherException ''AttributeError'')
        else bind_res (view_ledger digest str w) (\<lambda>r.
             bind_res (verify_challenge str fromiso rv ignored 24 (Some True) challenge_file) (\<lambda>ch.
               let sig = signature_problems sigs p; trust = checkpoint_trust rv require_trust (snd sig);
                   problems = checkpoint_document_problems p @ observed_problems fromiso rv max_age (jget p ''observed_at'') @ ledger_problems p w r @
                     challenge_problems ch (obj_or_empty (jget p ''release_challenge'')) ''LEDGER_CHECKPOINT_CHALLENGE_NOT_VERIFIED'' ''LEDGER_CHECKPOINT_CHALLENGE_MISMATCH'' @
                     checkpoint_git_problems git p @
                     checkpoint_environment_problems (obj_or_empty expected) (obj_or_empty (jget p ''environment'')) @ fst sig @ snd trust
               in Inr \<lparr>ck_verified = (problems = []), ck_problems = problems, ck_ledger_head_hash = lr_head_hash r, ck_ledger_entries = lr_entries r, ck_trust_status = fst trust,
                     ck_trust_verified = (fst trust = ''VERIFIED_BY_EXTERNAL_COMMAND''), ck_sha256 = JStr sha\<rparr>)))"

section \<open>Smaller gates\<close>

record ExecutionSample =
  es_fills :: int
  es_fill_ratio :: rat
  es_mean_slippage_bps :: rat
  es_p95_ack_latency_ms :: rat
  es_reject_rate :: rat

definition new_execution_sample :: "ExecutionSample \<Rightarrow> ExecutionSample res" where
  "new_execution_sample x =
     (if es_fills x < 0 then Inl (ValueError ''fills cannot be negative'')
      else if \<not> (0 \<le> es_fill_ratio x \<and> es_fill_ratio x \<le> 1) then Inl (ValueError ''fill_ratio must be in [0,1]'')
      else if es_mean_slippage_bps x < 0 then Inl (ValueError ''mean_slippage_bps cannot be negative'')
      else if es_p95_ack_latency_ms x < 0 then Inl (ValueError ''latency cannot be negative'')
      else if \<not> (0 \<le> es_reject_rate x \<and> es_reject_rate x \<le> 1) then Inl (ValueError ''reject_rate must be in [0,1]'')
      else Inr x)"

record TestnetPaperDivergenceEvidence =
  dv_paper :: ExecutionSample
  dv_testnet :: ExecutionSample
  dv_observed_at :: datetime
  dv_executed :: bool
  dv_real_testnet :: bool
  dv_evidence_reference :: string

definition new_divergence_evidence :: "TestnetPaperDivergenceEvidence \<Rightarrow> TestnetPaperDivergenceEvidence res" where
  "new_divergence_evidence x =
     (if \<not> is_aware (dv_observed_at x) then Inl (ValueError ''observed_at must be timezone-aware'')
      else if strip (dv_evidence_reference x) = [] then Inl (ValueError ''evidence_reference required'')
      else Inr x)"

definition differences :: "TestnetPaperDivergenceEvidence \<Rightarrow> (string, rat) dict" where
  "differences x =
     [(''fill_ratio_delta'', flt (es_fill_ratio (dv_testnet x) - es_fill_ratio (dv_paper x))),
      (''mean_slippage_bps_delta'', flt (es_mean_slippage_bps (dv_testnet x) - es_mean_slippage_bps (dv_paper x))),
      (''p95_ack_latency_ms_delta'', flt (es_p95_ack_latency_ms (dv_testnet x) - es_p95_ack_latency_ms (dv_paper x))),
      (''reject_rate_delta'', flt (es_reject_rate (dv_testnet x) - es_reject_rate (dv_paper x)))]"

definition production_eligible :: "TestnetPaperDivergenceEvidence \<Rightarrow> bool" where
  "production_eligible x \<longleftrightarrow> dv_executed x \<and> dv_real_testnet x"

record RuntimeReadinessEvidence =
  rr_health_ok :: bool
  rr_ready_for_new_risk :: bool
  rr_database_ok :: bool
  rr_redis_ok :: bool
  rr_exchange_ok :: bool
  rr_clock_ok :: bool
  rr_reconciliation_ok :: bool
  rr_outbox_ok :: bool

definition readiness_blockers :: "RuntimeReadinessEvidence \<Rightarrow> string list" where
  "readiness_blockers e =
     flag (\<not> rr_health_ok e) ''HEALTH_NOT_OK'' @ flag (\<not> rr_ready_for_new_risk e) ''NOT_READY_FOR_NEW_RISK'' @ flag (\<not> rr_database_ok e) ''DATABASE_NOT_OK'' @
     flag (\<not> rr_redis_ok e) ''REDIS_NOT_OK'' @ flag (\<not> rr_exchange_ok e) ''EXCHANGE_NOT_OK'' @ flag (\<not> rr_clock_ok e) ''CLOCK_NOT_OK'' @
     flag (\<not> rr_reconciliation_ok e) ''RECONCILIATION_NOT_OK'' @ flag (\<not> rr_outbox_ok e) ''OUTBOX_NOT_OK''"

definition assert_ready :: "RuntimeReadinessEvidence \<Rightarrow> unit res" where
  "assert_ready e = (let b = readiness_blockers e in if b \<noteq> [] then Inl (RuntimeError (''runtime readiness blocked: '' @ join '','' b)) else Inr ())"

record FinalEvidenceBundle =
  fb_benchmark_buy_hold :: json
  fb_fee_slippage_stress :: json
  fb_paper_vs_backtest :: json
  fb_testnet_vs_paper :: "json option"
  fb_unresolved_known_issues :: "string list"
  fb_dataset_fingerprint :: string
  fb_release_id :: string

definition bundle_blockers :: "FinalEvidenceBundle \<Rightarrow> string list" where
  "bundle_blockers b =
     flag (fb_dataset_fingerprint b = []) ''DATASET_FINGERPRINT_MISSING'' @ flag (fb_release_id b = []) ''RELEASE_ID_MISSING'' @
     flag (\<not> jtrue (fb_benchmark_buy_hold b)) ''BENCHMARK_MISSING'' @ flag (\<not> jtrue (fb_fee_slippage_stress b)) ''COST_STRESS_MISSING'' @
     flag (\<not> jtrue (fb_paper_vs_backtest b)) ''PAPER_BACKTEST_DIVERGENCE_MISSING'' @
     flag (case fb_testnet_vs_paper b of None \<Rightarrow> False | Some t \<Rightarrow> jget t ''executed'' \<noteq> JBool True \<or> jget t ''real_testnet'' \<noteq> JBool True) ''TESTNET_EVIDENCE_INVALID''"

definition production_blockers :: "FinalEvidenceBundle \<Rightarrow> string list" where
  "production_blockers b = bundle_blockers b @ flag (fb_testnet_vs_paper b = None) ''TESTNET_VS_PAPER_NOT_TESTED'' @
     flag (fb_unresolved_known_issues b \<noteq> []) ''UNRESOLVED_KNOWN_ISSUES''"

record AcceptanceCaseEvidence =
  ce_case_id :: string
  ce_status :: string
  ce_test_environment :: string
  ce_exact_reason :: string
  ce_evidence_reference :: string
  ce_known_limitation :: "string option"
  ce_executed :: bool

definition new_acceptance_case :: "AcceptanceCaseEvidence \<Rightarrow> AcceptanceCaseEvidence res" where
  "new_acceptance_case e =
     (if ce_status e \<notin> {''PASS'', ''FAIL'', ''SKIPPED''} then Inl (ValueError ''invalid acceptance status'')
      else if ce_case_id e = [] \<or> ce_test_environment e = [] \<or> ce_exact_reason e = [] \<or> ce_evidence_reference e = [] then Inl (ValueError ''complete evidence required'')
      else if ce_status e = ''PASS'' \<and> \<not> ce_executed e then Inl (ValueError ''written-but-not-executed test cannot PASS'')
      else Inr e)"

record MultiAssetAcceptanceSnapshot =
  ma_reserved_balance_ok :: bool
  ma_drawdown_adaptive_allocation_ok :: bool
  ma_same_symbol_duplicate_prevention_ok :: bool
  ma_backpressure_under_burst_ok :: bool
  ma_memory_soak_ok :: bool
  ma_representative_liquidity_classes_ok :: bool
  ma_multi_position_reconciliation_ok :: bool
  ma_multi_symbol_order_fill_ok :: bool
  ma_quote_asset_risk_ok :: bool
  ma_unresolved_critical_incidents :: int
  ma_human_approval_ok :: bool
  ma_evidence :: "AcceptanceCaseEvidence list"

definition snapshot_blockers :: "MultiAssetAcceptanceSnapshot \<Rightarrow> string list" where
  "snapshot_blockers x =
     flag (\<not> ma_reserved_balance_ok x) ''RESERVED_BALANCE'' @ flag (\<not> ma_drawdown_adaptive_allocation_ok x) ''DRAWDOWN_ADAPTIVE_ALLOCATION'' @
     flag (\<not> ma_same_symbol_duplicate_prevention_ok x) ''DUPLICATE_PREVENTION'' @ flag (\<not> ma_backpressure_under_burst_ok x) ''BACKPRESSURE'' @
     flag (\<not> ma_memory_soak_ok x) ''MEMORY_SOAK'' @ flag (\<not> ma_representative_liquidity_classes_ok x) ''LIQUIDITY_CLASSES'' @
     flag (\<not> ma_multi_position_reconciliation_ok x) ''MULTI_POSITION_RECONCILIATION'' @ flag (\<not> ma_multi_symbol_order_fill_ok x) ''MULTI_SYMBOL_ORDER_FILL'' @
     flag (\<not> ma_quote_asset_risk_ok x) ''QUOTE_ASSET_RISK'' @ flag (\<not> ma_human_approval_ok x) ''HUMAN_APPROVAL'' @
     flag (ma_unresolved_critical_incidents x \<noteq> 0) ''UNRESOLVED_CRITICAL_INCIDENTS'' @
     flag (ma_evidence x = [] \<or> list_ex (\<lambda>e. ce_status e \<noteq> ''PASS'') (ma_evidence x)) ''ACCEPTANCE_EVIDENCE_NOT_ALL_PASS''"

definition assert_accepted :: "MultiAssetAcceptanceSnapshot \<Rightarrow> unit res" where
  "assert_accepted x = (let b = snapshot_blockers x in if b \<noteq> [] then Inl (RuntimeError (join '','' b)) else Inr ())"

record DefinitionOfDoneEvidence =
  dd_implementation_exists :: bool
  dd_static_type_lint_passed :: bool
  dd_required_tests_passed :: bool
  dd_extended_tests_passed_or_not_required :: bool
  dd_evidence_reference :: "string option"
  dd_documentation_or_runbook_present_or_not_required :: bool
  dd_uses_mock :: bool
  dd_mock_disclosed :: bool
  dd_known_critical_issues :: "string list"
  dd_machine_readable_matrix_present :: bool
  dd_delivery_artifacts_present :: bool

definition done_blockers :: "DefinitionOfDoneEvidence \<Rightarrow> string list" where
  "done_blockers x =
     flag (\<not> dd_implementation_exists x) ''IMPLEMENTATION_MISSING'' @ flag (\<not> dd_static_type_lint_passed x) ''STATIC_TYPE_LINT_NOT_PASS'' @
     flag (\<not> dd_required_tests_passed x) ''REQUIRED_TESTS_NOT_PASS'' @ flag (\<not> dd_extended_tests_passed_or_not_required x) ''EXTENDED_TESTS_NOT_PASS'' @
     flag (dd_evidence_reference x = None \<or> dd_evidence_reference x = Some []) ''EVIDENCE_REFERENCE_MISSING'' @
     flag (\<not> dd_documentation_or_runbook_present_or_not_required x) ''DOCS_RUNBOOK_MISSING'' @ flag (\<not> dd_machine_readable_matrix_present x) ''MACHINE_READABLE_MATRIX_MISSING'' @
     flag (\<not> dd_delivery_artifacts_present x) ''DELIVERY_ARTIFACTS_MISSING'' @ flag (dd_uses_mock x \<and> \<not> dd_mock_disclosed x) ''MOCK_NOT_DISCLOSED'' @
     flag (dd_known_critical_issues x \<noteq> []) ''KNOWN_CRITICAL_ISSUE''"

definition assert_done :: "DefinitionOfDoneEvidence \<Rightarrow> unit res" where
  "assert_done x = (let b = done_blockers x in if b \<noteq> [] then Inl (RuntimeError (''definition of done blocked: '' @ join '','' b)) else Inr ())"

definition ORDER :: "string list" where
  "ORDER = [''CAPITAL_AND_OPEN_POSITION_SAFETY'', ''EXCHANGE_ACCOUNT_REALITY_EXECUTION_CORRECTNESS'', ''DATA_INTEGRITY_POINT_IN_TIME_CORRECTNESS'', ''IDENTITY_SECRET_ACCESS_SECURITY'',
     ''ACCOUNTING_LEDGER_AUDIT_CORRECTNESS'', ''AVAILABILITY_PERFORMANCE_UX'']"

fun position :: "string list \<Rightarrow> string \<Rightarrow> nat option" where
  "position [] x = None"
| "position (y # ys) x = (if x = y then Some 0 else map_option Suc (position ys x))"

record RequirementConflict =
  rq_requirement_a :: string
  rq_requirement_b :: string
  rq_category_a :: string
  rq_category_b :: string

definition resolve_requirement :: "RequirementConflict \<Rightarrow> string res" where
  "resolve_requirement c =
     (case (position ORDER (rq_category_a c), position ORDER (rq_category_b c)) of
        (Some ia, Some ib) \<Rightarrow> if ia = ib then Inl (RuntimeError ''same-priority conflict requires explicit ADR/human decision'')
                              else Inr (if ia < ib then rq_requirement_a c else rq_requirement_b c)
      | _ \<Rightarrow> Inl (ValueError ''unknown production-hardening precedence category''))"

datatype FaultKind = REST_TIMEOUT | DNS_FAILURE

record FaultDecision =
  fk_fault :: FaultKind
  fk_allow_new_risk :: bool
  fk_require_reconciliation :: bool
  fk_health :: string
  fk_reason :: string

fun evaluate_external_fault :: "FaultKind \<Rightarrow> FaultDecision" where
  "evaluate_external_fault REST_TIMEOUT =
     \<lparr>fk_fault = REST_TIMEOUT, fk_allow_new_risk = False, fk_require_reconciliation = True, fk_health = ''DEGRADED'', fk_reason = ''REST_OUTCOME_UNKNOWN''\<rparr>"
| "evaluate_external_fault DNS_FAILURE =
     \<lparr>fk_fault = DNS_FAILURE, fk_allow_new_risk = False, fk_require_reconciliation = True, fk_health = ''DOWN'', fk_reason = ''DNS_RESOLUTION_FAILED''\<rparr>"

text \<open>The winner of a conflict does not depend on the order in which the two requirements are named.\<close>

lemma precedence_antisymmetric:
  "resolve_requirement \<lparr>rq_requirement_a = r, rq_requirement_b = s, rq_category_a = a, rq_category_b = b\<rparr> =
   resolve_requirement \<lparr>rq_requirement_a = s, rq_requirement_b = r, rq_category_a = b, rq_category_b = a\<rparr>"
  unfolding resolve_requirement_def by (auto split: option.splits)

lemma accepted_only_executed:
  assumes "assert_accepted x = Inr u" and "\<forall>e \<in> set (ma_evidence x). new_acceptance_case e = Inr e"
  shows "ma_evidence x \<noteq> [] \<and> (\<forall>e \<in> set (ma_evidence x). ce_executed e) \<and> ma_human_approval_ok x \<and> ma_unresolved_critical_incidents x = 0"
proof -
  have b: "snapshot_blockers x = []" using assms(1) unfolding assert_accepted_def Let_def by (cases "snapshot_blockers x = []") simp_all
  have s: "ma_human_approval_ok x" "ma_unresolved_critical_incidents x = 0" "ma_evidence x \<noteq> []" "\<not> list_ex (\<lambda>e. ce_status e \<noteq> ''PASS'') (ma_evidence x)"
    using b unfolding snapshot_blockers_def append_is_Nil_conv flag_simps(3) by blast+
  have "ce_executed e" if e: "e \<in> set (ma_evidence x)" for e
  proof -
    have "ce_status e = ''PASS''" using s(4) e by (auto simp only: list_ex_iff)
    then show ?thesis using assms(2) e by (auto simp: new_acceptance_case_def split: if_splits)
  qed
  with s show ?thesis by blast
qed

section \<open>What a verified challenge is\<close>

definition fresh :: "ReleaseEnv \<Rightarrow> int \<Rightarrow> rat \<Rightarrow> bool" where
  "fresh rv t max_age \<longleftrightarrow> - 1 \<le> age_hours (rv_now rv) t \<and> age_hours (rv_now rv) t \<le> max_age"

definition trusted :: "ReleaseEnv \<Rightarrow> string \<Rightarrow> bool" where
  "trusted rv command \<longleftrightarrow> strip command \<noteq> [] \<and> rv_run rv (strip command) = Exit_Zero"

lemma run_trust_Nil [simp]: "snd (run_trust rv c pre) = [] \<longleftrightarrow> rv_run rv c = Exit_Zero"
  by (cases "rv_run rv c") (simp_all add: run_trust_def)

lemma challenge_trust_Nil: "snd (challenge_trust rv True) = [] \<longleftrightarrow> trusted rv (rv_challenge_command rv)"
  by (simp add: challenge_trust_def trusted_def Let_def)

lemma challenge_age_Nil:
  "challenge_age_problems str fromiso rv mx p = [] \<longleftrightarrow> (\<exists>t. fromiso (replace_Z (jtext str (jget p ''created_at''))) = Some t \<and> fresh rv t mx)"
  by (auto simp: challenge_age_problems_def fresh_def not_less split: option.splits)

lemma generated_Nil: "generated_problems str fromiso rv mx v = [] \<longleftrightarrow> (\<exists>t. fromiso (replace_Z (jtext str v)) = Some t \<and> fresh rv t mx)"
  by (auto simp: generated_problems_def fresh_def not_less split: option.splits)

lemma binding_Nil:
  "binding_problems rv ign ''2.3'' p = [] \<longleftrightarrow>
     jget p ''release_campaign_bound'' = JBool True \<and> \<not> has_key p ''single_release_use'' \<and> jget p ''source_worktree_clean_at_creation'' = JBool True \<and>
     tracked_source_dirty_paths (rv_status rv) ign = [] \<and> jget p ''git_identity_available_at_creation'' = JBool True \<and>
     rv_git_sha rv \<noteq> UNAVAILABLE \<and> rv_tree_sha rv \<noteq> UNAVAILABLE \<and> jget p ''git_commit_sha'' \<noteq> JStr UNAVAILABLE \<and> jget p ''git_tree_sha'' = JStr (rv_tree_sha rv) \<and>
     jget p ''acceptance_contract_sha256'' = JStr (rv_contract_sha rv)"
  unfolding binding_problems_def Let_def by auto

lemma verify_challenge_trusted:
  assumes v: "verify_challenge str fromiso rv ign mx (Some True) f = Inr ch" and ok: "ch_verified ch"
  shows "\<exists>p sha. f = Parsed p sha \<and> ch_challenge_id ch = jget p ''challenge_id'' \<and> ch_sha256 ch = JStr sha \<and> schema_of str p = ''2.3'' \<and> binding_problems rv ign ''2.3'' p = [] \<and>
    jget p ''git_commit_sha'' = JStr (rv_git_sha rv) \<and> trusted rv (rv_challenge_command rv) \<and> (\<exists>t. fromiso (replace_Z (jtext str (jget p ''created_at''))) = Some t \<and> fresh rv t mx)"
proof (cases f)
  case (Parsed p sha)
  let ?q = "challenge_checks str fromiso rv ign mx True p"
  have o: "is_obj p" using v unfolding Parsed verify_challenge_def doc_file.case by (cases "is_obj p") simp_all
  have c: "ch = challenge_report rv ign True ?q p sha"
    using v o unfolding Parsed verify_challenge_def doc_file.case trust_required_def option.case Let_def by simp
  then have "?q = []" using ok by simp
  then have q: "binding_problems rv ign (schema_of str p) p = []" "\<not> (rv_git_sha rv \<noteq> UNAVAILABLE \<and> jget p ''git_commit_sha'' \<noteq> JStr (rv_git_sha rv))"
    "\<not> (True \<and> schema_of str p \<noteq> ''2.3'')" "snd (challenge_trust rv True) = []" "challenge_age_problems str fromiso rv mx p = []"
    unfolding challenge_checks_def append_is_Nil_conv flag_simps(3) by blast+
  have b: "binding_problems rv ign ''2.3'' p = []" using q(1,3) by simp
  then have "rv_git_sha rv \<noteq> UNAVAILABLE" unfolding binding_Nil by blast
  moreover have "ch_challenge_id ch = jget p ''challenge_id''" "ch_sha256 ch = JStr sha" unfolding c by simp_all
  ultimately show ?thesis using Parsed q(2-5) b unfolding challenge_trust_Nil challenge_age_Nil by blast
qed (use v ok in \<open>auto simp: verify_challenge_def no_challenge_def\<close>)

section \<open>What verified evidence is\<close>

definition artifact_ok :: "(json \<Rightarrow> string) \<Rightarrow> (string \<Rightarrow> artifact) \<Rightarrow> json \<Rightarrow> bool" where
  "artifact_ok str files row \<longleftrightarrow> is_obj row \<and> (\<exists>h. files (jtext str (jget row ''path'')) = Artifact_File h \<and> jget row ''sha256'' = JStr h)"

lemma artifact_problem_Nil: "artifact_problem str files strict i row = [] \<longleftrightarrow> artifact_ok str files row"
  unfolding artifact_problem_def artifact_ok_def by (auto split: artifact.splits)

lemma artifact_problems_Nil:
  "artifact_problems str files strict v = [] \<longleftrightarrow> (\<exists>rows. v = JList rows \<and> rows \<noteq> [] \<and> (\<forall>row \<in> set rows. artifact_ok str files row))"
proof (cases v)
  case (JList rows)
  have rows: "(\<forall>row \<in> set rows. P row) \<longleftrightarrow> (\<forall>x \<in> set (enumerate 0 rows). P (snd x))" for P
    using arg_cong [OF map_snd_enumerate, of set 0 rows] by (metis (no_types, lifting) image_iff list.set_map)
  have "(\<forall>x \<in> set (enumerate 0 rows). (case x of (i, row) \<Rightarrow> artifact_problem str files strict i row) = []) \<longleftrightarrow> (\<forall>row \<in> set rows. artifact_ok str files row)"
    unfolding rows by (auto simp: artifact_problem_Nil)
  then show ?thesis unfolding artifact_problems_def JList by auto
qed (simp_all add: artifact_problems_def)

lemma challenge_problems_Nil:
  "challenge_problems ch bound a b = [] \<longleftrightarrow> ch_verified ch \<and> jget bound ''challenge_id'' = ch_challenge_id ch \<and> jget bound ''sha256'' = ch_sha256 ch"
  unfolding challenge_problems_def by auto

lemma environment_problems_Nil:
  "environment_problems e t env = [] \<longleftrightarrow> is_hash64 e \<and> is_hash64 t \<and> jget env ''acceptance_environment_id_hash'' = e \<and> jget env ''topology_hash'' = t"
  unfolding environment_problems_def is_hash64_def is_str_def by (auto split: json.splits)

lemma campaign_report_verified [simp]: "ca_verified (campaign_report ps kind sha m) \<longleftrightarrow> ps = []"
  by (simp add: campaign_report_def)

lemma campaign_verified_checks:
  assumes v: "verify_campaign_evidence str fromiso float_of rv files ign cf kind mx strict expected f = Inr r" and ok: "ca_verified r"
  obtains p sha ch where "f = Parsed p sha" "is_obj p" "dget CLASSIFICATIONS kind \<noteq> None"
    "verify_challenge str fromiso rv ign 24 (if strict then Some True else None) cf = Inr ch"
    "common_problems str fromiso rv files ch kind mx strict expected p = []"
    "numeric_metrics_are_valid float_of kind (obj_or_empty (jget p ''metrics''))"
    "kind_problems str float_of kind p (obj_or_empty (jget p ''metrics'')) True = []"
proof -
  have k: "dget CLASSIFICATIONS kind \<noteq> None" using v unfolding verify_campaign_evidence_def by (auto split: if_splits)
  then have v': "(case f of Parsed p sha \<Rightarrow>
       if \<not> is_obj p then Inr (campaign_report [''INVALID_JSON_ROOT''] kind JNull JNull)
       else bind_res (verify_challenge str fromiso rv ign 24 (if strict then Some True else None) cf) (\<lambda>ch.
         Inr (campaign_report (common_problems str fromiso rv files ch kind mx strict expected p @
           flag (\<not> numeric_metrics_are_valid float_of kind (obj_or_empty (jget p ''metrics''))) ''NON_FINITE_OR_INVALID_NUMERIC_METRIC'' @
           kind_problems str float_of kind p (obj_or_empty (jget p ''metrics'')) (numeric_metrics_are_valid float_of kind (obj_or_empty (jget p ''metrics'')))) kind (JStr sha) (obj_or_empty (jget p ''metrics''))))
     | Bad_Json e \<Rightarrow> Inr (campaign_report [''INVALID_JSON:'' @ e] kind JNull JNull)
     | _ \<Rightarrow> Inr (campaign_report [''INVALID_JSON:FileNotFoundError''] kind JNull JNull)) = Inr r"
    using v unfolding verify_campaign_evidence_def Let_def by (simp only: if_False)
  show thesis
  proof (cases f)
    case (Parsed p sha)
    have o: "is_obj p" using v' ok unfolding Parsed doc_file.case by (cases "is_obj p") auto
    with v' obtain ch where ch: "verify_challenge str fromiso rv ign 24 (if strict then Some True else None) cf = Inr ch"
      "r = campaign_report (common_problems str fromiso rv files ch kind mx strict expected p @
           flag (\<not> numeric_metrics_are_valid float_of kind (obj_or_empty (jget p ''metrics''))) ''NON_FINITE_OR_INVALID_NUMERIC_METRIC'' @
           kind_problems str float_of kind p (obj_or_empty (jget p ''metrics'')) (numeric_metrics_are_valid float_of kind (obj_or_empty (jget p ''metrics'')))) kind (JStr sha) (obj_or_empty (jget p ''metrics''))"
      unfolding Parsed doc_file.case by (simp only: not_True_eq_False if_False bind_res_Inr sum.inject) blast
    have n: "common_problems str fromiso rv files ch kind mx strict expected p = []" "numeric_metrics_are_valid float_of kind (obj_or_empty (jget p ''metrics''))"
      "kind_problems str float_of kind p (obj_or_empty (jget p ''metrics'')) (numeric_metrics_are_valid float_of kind (obj_or_empty (jget p ''metrics''))) = []"
      using ok unfolding ch(2) campaign_report_verified append_is_Nil_conv flag_simps(3) by blast+
    have "kind_problems str float_of kind p (obj_or_empty (jget p ''metrics'')) True = []" using n(2,3) by simp
    with n that [OF Parsed o k ch(1)] show thesis by blast
  qed (use v' ok in auto)
qed

lemma valid_num:
  assumes "numeric_metrics_are_valid float_of kind m" and "(k, whole) \<in> set (numeric_fields kind)"
  shows "finite_number float_of (jget m k) = Inr (num float_of m k)"
proof -
  have "is_ok (strict_int float_of (jget m k)) \<or> is_ok (finite_number float_of (jget m k))"
    using assms unfolding numeric_metrics_are_valid_def list_all_iff by (cases whole) force+
  then show ?thesis unfolding strict_int_def num_def by (cases "finite_number float_of (jget m k)") auto
qed

lemma shadow_problems_Nil:
  assumes "kind_problems str float_of ''live-shadow'' p m True = []"
  shows "num float_of m ''real_orders_submitted'' = 0 \<and> num float_of m ''exchange_submit_calls'' = 0 \<and> 7 \<le> num float_of m ''calendar_days'' \<and> jget m ''kill_switch_tested'' = JBool True"
proof -
  have d: "''live-shadow'' \<noteq> ''private-stream''" "''live-shadow'' \<noteq> ''paper''" by simp_all
  show ?thesis using assms unfolding kind_problems_def if_not_P [OF d(1)] if_not_P [OF d(2)] if_P [OF refl] append_is_Nil_conv flag_simps(3) by (auto simp only: not_less de_Morgan_disj simp_thms)
qed

lemma profitability_problems_Nil:
  assumes "kind_problems str float_of ''profitability'' p m True = []"
  shows "0 < num float_of m ''net_expectancy_bps'' \<and> 0 < num float_of m ''bootstrap_ci_lower_bps'' \<and> 100 \<le> num float_of m ''effective_sample_size''"
proof -
  have d: "''profitability'' \<noteq> ''private-stream''" "''profitability'' \<noteq> ''paper''" "''profitability'' \<noteq> ''live-shadow''" by simp_all
  show ?thesis using assms unfolding kind_problems_def if_not_P [OF d(1)] if_not_P [OF d(2)] if_not_P [OF d(3)] append_is_Nil_conv flag_simps(3)
    by (auto simp only: not_le not_less de_Morgan_disj simp_thms)
qed

lemma paper_problems_Nil:
  assumes "kind_problems str float_of ''paper'' p m True = []"
  shows "\<exists>e. paper_evidence str float_of p m = Inr e \<and> campaign_blockers e default_paper_policy = []"
proof -
  have d: "''paper'' \<noteq> ''private-stream''" by simp
  have q: "paper_problems str float_of p m = []" using assms unfolding kind_problems_def if_not_P [OF d] if_P [OF refl] .
  then obtain b where b: "bind_res (paper_evidence str float_of p m) (\<lambda>e. paper_blockers e default_paper_policy) = Inr []"
    unfolding paper_problems_def by (auto split: sum.splits)
  have "validate_paper_policy default_paper_policy = Inr default_paper_policy" by (simp add: validate_paper_policy_def default_paper_policy_def)
  then show ?thesis using b unfolding bind_res_Inr paper_blockers_def by auto
qed

lemma common_problems_Nil:
  assumes "common_problems str fromiso rv files ch kind mx True expected p = []"
  shows "jget p ''executed'' = JBool True \<and> jget p ''real_system'' = JBool True \<and> (rv_git_sha rv = UNAVAILABLE \<or> jget p ''git_commit_sha'' = JStr (rv_git_sha rv)) \<and>
    ch_verified ch \<and> jget (obj_or_empty (jget p ''release_challenge'')) ''challenge_id'' = ch_challenge_id ch \<and> jget (obj_or_empty (jget p ''release_challenge'')) ''sha256'' = ch_sha256 ch \<and>
    is_hash64 (expected_binding rv expected ''topology_hash'') \<and> jget (obj_or_empty (jget p ''environment'')) ''topology_hash'' = expected_binding rv expected ''topology_hash'' \<and>
    (\<exists>t. fromiso (replace_Z (jtext str (jget p ''generated_at''))) = Some t \<and> fresh rv t mx) \<and>
    (\<exists>rows. jget p ''source_artifacts'' = JList rows \<and> rows \<noteq> [] \<and> (\<forall>row \<in> set rows. artifact_ok str files row))"
  using assms unfolding common_problems_def if_True append_is_Nil_conv flag_simps(3) challenge_problems_Nil environment_problems_Nil generated_Nil artifact_problems_Nil by blast

text \<open>
  C11: strict campaign evidence is bound to the release. Evidence that verifies strictly names the commit that is checked out, carries the identifier and the hash of a release challenge
  of the current schema that is itself fresh, made and checked on a clean worktree of that commit and tree and confirmed by the external trust command, matches the expected
  topology, is recent, and lists source files that all have the recorded hashes. Live-shadow evidence reports no order sent, profitability evidence a positive expectancy, and paper
  evidence passes every blocker of the default policy.
\<close>

theorem strict_campaign_bound:
  assumes v: "verify_campaign_evidence str fromiso float_of rv files ign cf kind mx True expected f = Inr r" and ok: "ca_verified r"
  shows "\<exists>p sha q h. f = Parsed p sha \<and> cf = Parsed q h \<and>
    jget p ''git_commit_sha'' = JStr (rv_git_sha rv) \<and> jget q ''git_commit_sha'' = JStr (rv_git_sha rv) \<and> jget q ''git_tree_sha'' = JStr (rv_tree_sha rv) \<and>
    schema_of str q = ''2.3'' \<and> tracked_source_dirty_paths (rv_status rv) ign = [] \<and> trusted rv (rv_challenge_command rv) \<and>
    jget (obj_or_empty (jget p ''release_challenge'')) ''challenge_id'' = jget q ''challenge_id'' \<and> jget (obj_or_empty (jget p ''release_challenge'')) ''sha256'' = JStr h \<and>
    jget (obj_or_empty (jget p ''environment'')) ''topology_hash'' = expected_binding rv expected ''topology_hash'' \<and>
    (\<exists>t. fromiso (replace_Z (jtext str (jget q ''created_at''))) = Some t \<and> fresh rv t 24) \<and> (\<exists>t. fromiso (replace_Z (jtext str (jget p ''generated_at''))) = Some t \<and> fresh rv t mx) \<and>
    (\<exists>rows. jget p ''source_artifacts'' = JList rows \<and> rows \<noteq> [] \<and> (\<forall>row \<in> set rows. artifact_ok str files row)) \<and>
    (kind = ''live-shadow'' \<longrightarrow> num float_of (obj_or_empty (jget p ''metrics'')) ''real_orders_submitted'' = 0 \<and> num float_of (obj_or_empty (jget p ''metrics'')) ''exchange_submit_calls'' = 0) \<and>
    (kind = ''profitability'' \<longrightarrow> 0 < num float_of (obj_or_empty (jget p ''metrics'')) ''net_expectancy_bps'') \<and>
    (kind = ''paper'' \<longrightarrow> (\<exists>e. paper_evidence str float_of p (obj_or_empty (jget p ''metrics'')) = Inr e \<and> campaign_blockers e default_paper_policy = []))"
proof -
  from v ok obtain p sha ch where f: "f = Parsed p sha" and ch: "verify_challenge str fromiso rv ign 24 (if True then Some True else None) cf = Inr ch"
    and cp: "common_problems str fromiso rv files ch kind mx True expected p = []" and kp: "kind_problems str float_of kind p (obj_or_empty (jget p ''metrics'')) True = []"
    by (rule campaign_verified_checks)
  note c = common_problems_Nil [OF cp]
  from verify_challenge_trusted [OF ch [unfolded if_True]] c obtain q h where q: "cf = Parsed q h" "ch_challenge_id ch = jget q ''challenge_id''" "ch_sha256 ch = JStr h" "schema_of str q = ''2.3''"
    "binding_problems rv ign ''2.3'' q = []" "jget q ''git_commit_sha'' = JStr (rv_git_sha rv)" "trusted rv (rv_challenge_command rv)"
    "\<exists>t. fromiso (replace_Z (jtext str (jget q ''created_at''))) = Some t \<and> fresh rv t 24" by blast
  note b = q(5) [unfolded binding_Nil]
  have "kind = ''live-shadow'' \<longrightarrow> num float_of (obj_or_empty (jget p ''metrics'')) ''real_orders_submitted'' = 0 \<and> num float_of (obj_or_empty (jget p ''metrics'')) ''exchange_submit_calls'' = 0"
    using shadow_problems_Nil kp by blast
  moreover have "kind = ''profitability'' \<longrightarrow> 0 < num float_of (obj_or_empty (jget p ''metrics'')) ''net_expectancy_bps''" using profitability_problems_Nil kp by blast
  moreover have "kind = ''paper'' \<longrightarrow> (\<exists>e. paper_evidence str float_of p (obj_or_empty (jget p ''metrics'')) = Inr e \<and> campaign_blockers e default_paper_policy = [])"
    using paper_problems_Nil kp by blast
  moreover have "jget p ''git_commit_sha'' = JStr (rv_git_sha rv)" using c b by blast
  moreover have "jget (obj_or_empty (jget p ''release_challenge'')) ''challenge_id'' = jget q ''challenge_id''" "jget (obj_or_empty (jget p ''release_challenge'')) ''sha256'' = JStr h"
    using c q(2,3) by simp_all
  ultimately show ?thesis using f q(1,4,6-8) b c by (intro exI [of _ p] exI [of _ sha] exI [of _ q] exI [of _ h]) blast
qed

section \<open>A signed checkpoint pins the ledger\<close>

lemma signature_problems_Nil:
  assumes "fst (signature_problems sigs p) = []"
  shows "snd (signature_problems sigs p) \<and> (\<exists>rel h. jget p ''signature_artifact'' = JStr rel \<and> jget p ''signature_sha256'' = JStr h \<and> sigs rel = Sig_File (lower h))"
  using assms unfolding signature_problems_def by (auto split: json.splits signature_file.splits if_splits)

lemma checkpoint_trust_Nil: "snd (checkpoint_trust rv True True) = [] \<longleftrightarrow> trusted rv (rv_checkpoint_command rv)"
  by (simp add: checkpoint_trust_def trusted_def Let_def)

lemma ledger_problems_Nil:
  assumes "ledger_problems p w r = []"
  shows "lr_verified r \<and> jget p ''ledger_sha256'' = JStr (lw_sha256 w) \<and> \<not> lw_symlink w \<and> jeq_int (jget p ''ledger_entries'') (int (lr_entries r)) \<and>
    (case lr_head_hash r of None \<Rightarrow> jget p ''ledger_head_hash'' = JNull | Some h \<Rightarrow> jget p ''ledger_head_hash'' = JStr h)"
proof -
  have v: "lr_verified r" using assms unfolding ledger_problems_def append_is_Nil_conv by (cases "lr_verified r") simp_all
  have n: "\<not> \<not> lr_verified r" using v by simp
  from assms show ?thesis unfolding ledger_problems_def if_not_P [OF n] append_is_Nil_conv flag_simps(3) using v by (cases "lr_head_hash r") (simp_all only: option.case simp_thms)
qed

lemma checkpoint_verified:
  assumes v: "verify_ledger_checkpoint digest str fromiso rv git w sigs ign cf mx expected True (Parsed p h) = Inr r" and ok: "ck_verified r"
  shows "\<exists>l ch. view_ledger digest str w = Inr l \<and> ledger_problems p w l = [] \<and> verify_challenge str fromiso rv ign 24 (Some True) cf = Inr ch \<and> ch_verified ch \<and>
    fst (signature_problems sigs p) = [] \<and> trusted rv (rv_checkpoint_command rv) \<and> ck_ledger_entries r = lr_entries l"
proof -
  have o: "is_obj p" using v unfolding verify_ledger_checkpoint_def doc_file.case by (cases "is_obj p") simp_all
  from v obtain l ch where l: "view_ledger digest str w = Inr l" and ch: "verify_challenge str fromiso rv ign 24 (Some True) cf = Inr ch"
    and r: "(let sig = signature_problems sigs p; trust = checkpoint_trust rv True (snd sig);
       problems = checkpoint_document_problems p @ observed_problems fromiso rv mx (jget p ''observed_at'') @ ledger_problems p w l @
         challenge_problems ch (obj_or_empty (jget p ''release_challenge'')) ''LEDGER_CHECKPOINT_CHALLENGE_NOT_VERIFIED'' ''LEDGER_CHECKPOINT_CHALLENGE_MISMATCH'' @
         checkpoint_git_problems git p @ checkpoint_environment_problems (obj_or_empty expected) (obj_or_empty (jget p ''environment'')) @ fst sig @ snd trust
       in Inr \<lparr>ck_verified = (problems = []), ck_problems = problems, ck_ledger_head_hash = lr_head_hash l, ck_ledger_entries = lr_entries l, ck_trust_status = fst trust,
         ck_trust_verified = (fst trust = ''VERIFIED_BY_EXTERNAL_COMMAND''), ck_sha256 = JStr h\<rparr>) = (Inr r :: CheckpointReport res)"
    unfolding verify_ledger_checkpoint_def doc_file.case by (simp only: o not_True_eq_False if_False bind_res_Inr) blast
  have n: "ledger_problems p w l = []" "fst (signature_problems sigs p) = []" "snd (checkpoint_trust rv True (snd (signature_problems sigs p))) = []"
    "challenge_problems ch (obj_or_empty (jget p ''release_challenge'')) ''LEDGER_CHECKPOINT_CHALLENGE_NOT_VERIFIED'' ''LEDGER_CHECKPOINT_CHALLENGE_MISMATCH'' = []" "ck_ledger_entries r = lr_entries l"
    using r ok unfolding Let_def by auto
  have "snd (signature_problems sigs p)" using signature_problems_Nil [OF n(2)] by blast
  then have "trusted rv (rv_checkpoint_command rv)" using n(3) checkpoint_trust_Nil by simp
  with l ch n show ?thesis unfolding challenge_problems_Nil by blast
qed

text \<open>
  C27: a signed checkpoint pins the evidence ledger. Whenever one checkpoint document is accepted, with external trust required, the checkpoint command confirmed it, its signature file has the recorded hash
  and the ledger verifies; and any two ledgers it is accepted for have the same number of entries and agree on everything that was hashed, provided SHA-256 does not collide on these entries.
\<close>

theorem checkpoint_pins_ledger:
  assumes c: "verify_ledger_checkpoint (canonical_hash sha) str fromiso rv git w sigs ign cf mx expected True (Parsed p h) = Inr r" "ck_verified r"
    and c': "verify_ledger_checkpoint (canonical_hash sha) str fromiso' rv' git' w' sigs' ign' cf' mx' expected' True (Parsed p h') = Inr r'" "ck_verified r'"
    and w: "lw_file w = Document d" "jget d ''entries'' = JList es" and w': "lw_file w' = Document d'" "jget d' ''entries'' = JList es'"
    and inj: "inj_on sha (entry_core ` (set es \<union> set es'))" and gen: "\<forall>e \<in> set es \<union> set es'. canonical_hash sha (entry_core e) \<noteq> GENESIS"
  shows "map entry_core es = map entry_core es' \<and> ck_ledger_entries r = ck_ledger_entries r' \<and> trusted rv (rv_checkpoint_command rv) \<and> lw_sha256 w = lw_sha256 w' \<and>
    (\<exists>rel g. jget p ''signature_artifact'' = JStr rel \<and> jget p ''signature_sha256'' = JStr g \<and> sigs rel = Sig_File (lower g))"
proof -
  from checkpoint_verified [OF c] obtain l where l: "view_ledger (canonical_hash sha) str w = Inr l" "ledger_problems p w l = []" "fst (signature_problems sigs p) = []"
    "trusted rv (rv_checkpoint_command rv)" "ck_ledger_entries r = lr_entries l" by blast
  from checkpoint_verified [OF c'] obtain l' where l': "view_ledger (canonical_hash sha) str w' = Inr l'" "ledger_problems p w' l' = []" "ck_ledger_entries r' = lr_entries l'" by blast
  note a = ledger_problems_Nil [OF l(2)] and a' = ledger_problems_Nil [OF l'(2)]
  have v: "verify_ledger (canonical_hash sha) str (Document d) = Inr l" "verify_ledger (canonical_hash sha) str (Document d') = Inr l'"
    using l(1) l'(1) a a' w(1) w'(1) unfolding view_ledger_def by simp_all
  have hd: "lr_head_hash l = lr_head_hash l'" using a a' by (auto split: option.splits)
  have "map entry_core es = map entry_core es'"
    by (rule verified_ledgers_agree [OF v(1) _ w(2) v(2) _ w'(2) hd inj gen]) (use a a' in blast)+
  moreover have "lr_entries l = lr_entries l'" using a a' by (cases "jget p ''ledger_entries''") auto
  moreover have "lw_sha256 w = lw_sha256 w'" using a a' by simp
  ultimately show ?thesis using signature_problems_Nil [OF l(3)] l(4,5) l'(3) by simp
qed

text \<open>An untracked source file whose name contains a space passes for a clean worktree. Git reports such a path in quotes, so its suffix is \<open>.py"\<close> and the check skips it;
  the same file without the space is reported.
\<close>

theorem quoted_source_escapes:
  "tracked_source_dirty_paths (Some [''?? '' @ [CHR 0x22] @ ''app/my evil.py'' @ [CHR 0x22]]) [] = [] \<and> tracked_source_dirty_paths (Some [''?? app/evil.py'']) [] = [''app/evil.py'']"
  by code_simp

section \<open>Examples\<close>

definition hash64 :: json where
  "hash64 = JStr (replicate 64 CHR ''a'')"

definition example_env :: ReleaseEnv where
  "example_env = \<lparr>rv_git_sha = ''g'', rv_tree_sha = ''t'', rv_status = Some [], rv_contract_sha = ''c'', rv_require_trust = [], rv_challenge_command = ''check'',
     rv_checkpoint_command = ''check'', rv_environment_id_hash = hash64, rv_topology_hash = hash64, rv_run = (\<lambda>_. Exit_Zero), rv_now = 0\<rparr>"

definition example_challenge :: json where
  "example_challenge = JObj [(''schema_version'', JStr ''2.3''), (''classification'', JStr ''EXTERNAL_ACCEPTANCE_RELEASE_CHALLENGE''), (''challenge_id'', JStr (replicate 16 CHR ''a'')),
     (''git_commit_sha'', JStr ''g''), (''git_tree_sha'', JStr ''t''), (''git_identity_available_at_creation'', JBool True), (''source_worktree_clean_at_creation'', JBool True),
     (''created_at'', JStr ''now''), (''release_campaign_bound'', JBool True), (''acceptance_contract_sha256'', JStr ''c'')]"

definition example_metrics :: json where
  "example_metrics = JObj [(''real_market_data'', JBool True), (''calendar_days'', JNum 7), (''observations'', JNum 100), (''real_orders_submitted'', JNum 0),
     (''exchange_submit_calls'', JNum 0), (''kill_switch_tested'', JBool True), (''reconciliation_passed'', JBool True)]"

definition example_evidence :: json where
  "example_evidence = JObj [(''schema_version'', JStr ''1.0''), (''classification'', JStr ''LIVE_SHADOW_CAMPAIGN_ACCEPTANCE''), (''real_system'', JBool True), (''executed'', JBool True),
     (''git_commit_sha'', JStr ''g''), (''release_challenge'', JObj [(''challenge_id'', JStr (replicate 16 CHR ''a'')), (''sha256'', JStr ''h'')]),
     (''environment'', JObj [(''acceptance_environment_id_hash'', hash64), (''topology_hash'', hash64)]), (''generated_at'', JStr ''now''),
     (''source_artifacts'', JList [JObj [(''path'', JStr ''x''), (''sha256'', JStr ''h'')]]), (''metrics'', example_metrics)]"

lemma example_fresh: "fresh example_env 0 24" "fresh example_env 0 168"
  by (simp_all add: fresh_def age_hours_def total_seconds_def example_env_def)

lemma example_trusted: "trusted example_env (rv_challenge_command example_env)"
  unfolding trusted_def by (simp add: example_env_def strip_eq_Nil is_space_def)

lemma example_challenge_ok:
  "verify_challenge (\<lambda>_. []) (\<lambda>_. Some 0) example_env [] 24 (Some True) (Parsed example_challenge ''h'') =
     Inr (challenge_report example_env [] True [] example_challenge ''h'')"
proof -
  have s: "schema_of (\<lambda>_. []) example_challenge = ''2.3''" by (simp add: schema_of_def example_challenge_def jtext_def)
  have "binding_problems example_env [] ''2.3'' example_challenge = []"
    unfolding binding_Nil by (simp add: example_env_def example_challenge_def has_key_def UNAVAILABLE_def tracked_source_dirty_paths_def)
  moreover have "challenge_age_problems (\<lambda>_. []) (\<lambda>_. Some 0) example_env 24 example_challenge = []" unfolding challenge_age_Nil using example_fresh by simp
  moreover have "snd (challenge_trust example_env True) = []" unfolding challenge_trust_Nil by (rule example_trusted)
  moreover have "jget example_challenge ''classification'' = JStr ''EXTERNAL_ACCEPTANCE_RELEASE_CHALLENGE''" "jget example_challenge ''challenge_id'' = JStr (replicate 16 CHR ''a'')"
    "jget example_challenge ''git_commit_sha'' = JStr (rv_git_sha example_env)" "is_obj example_challenge"
    by (simp_all add: example_challenge_def example_env_def)
  ultimately have "challenge_checks (\<lambda>_. []) (\<lambda>_. Some 0) example_env [] 24 True example_challenge = []"
    unfolding challenge_checks_def s append_is_Nil_conv flag_simps(3) by (simp add: str_shorter_def)
  then show ?thesis unfolding verify_challenge_def doc_file.case trust_required_def option.case Let_def
    using \<open>is_obj example_challenge\<close> by simp
qed

lemma example_numbers: "finite_number fl (JNum 7) = Inr 7" "finite_number fl (JNum 100) = Inr 100" "finite_number fl (JNum 0) = Inr 0"
  using flt.rnd_of_int [of 7] flt.rnd_of_int [of 100] by (simp_all add: finite_number_def)

lemma example_numeric: "numeric_metrics_are_valid fl ''live-shadow'' example_metrics"
  unfolding numeric_metrics_are_valid_def numeric_fields_def by (simp add: example_metrics_def strict_int_def example_numbers)

lemma example_kind: "kind_problems str fl ''live-shadow'' p example_metrics True = []"
  unfolding kind_problems_def by (simp add: num_def example_metrics_def example_numbers)

lemma example_evidence_ok:
  "\<exists>r. verify_campaign_evidence (\<lambda>_. []) (\<lambda>_. Some 0) fl example_env (\<lambda>_. Artifact_File ''h'') [] (Parsed example_challenge ''h'') ''live-shadow'' 168 True JNull (Parsed example_evidence ''e'') = Inr r \<and> ca_verified r"
proof -
  let ?ch = "challenge_report example_env [] True [] example_challenge ''h''"
  have i: "jget example_challenge ''challenge_id'' = JStr (replicate 16 CHR ''a'')" by (simp add: example_challenge_def)
  have m: "jget example_evidence ''metrics'' = example_metrics" "obj_or_empty example_metrics = example_metrics" "is_obj example_evidence"
    by (simp_all add: example_evidence_def example_metrics_def obj_or_empty_def)
  have h: "is_hash64 hash64" by (simp add: is_hash64_def hash64_def)
  have c: "common_problems (\<lambda>_. []) (\<lambda>_. Some 0) example_env (\<lambda>_. Artifact_File ''h'') ?ch ''live-shadow'' 168 True JNull example_evidence = []"
    unfolding common_problems_def if_True append_is_Nil_conv flag_simps(3) challenge_problems_Nil environment_problems_Nil generated_Nil artifact_problems_Nil
    unfolding challenge_report_simps i using example_fresh h by (simp add: example_evidence_def CLASSIFICATIONS_def get_or_def obj_or_empty_def expected_binding_def artifact_ok_def) (simp add: example_env_def)
  have k: "dget CLASSIFICATIONS ''live-shadow'' \<noteq> None" by (simp add: CLASSIFICATIONS_def)
  show ?thesis unfolding verify_campaign_evidence_def doc_file.case if_True example_challenge_ok bind_res_simps Let_def m using k c m
    by (simp add: example_numeric example_kind)
qed

theorem strict_campaign_bound_witness:
  "jget example_evidence ''git_commit_sha'' = JStr (rv_git_sha example_env) \<and> num (\<lambda>_. None) (obj_or_empty (jget example_evidence ''metrics'')) ''real_orders_submitted'' = 0 \<and>
   trusted example_env (rv_challenge_command example_env)"
proof -
  obtain r where r: "verify_campaign_evidence (\<lambda>_. []) (\<lambda>_. Some 0) (\<lambda>_. None) example_env (\<lambda>_. Artifact_File ''h'') [] (Parsed example_challenge ''h'') ''live-shadow'' 168 True JNull
    (Parsed example_evidence ''e'') = Inr r" "ca_verified r" using example_evidence_ok by blast
  from strict_campaign_bound [OF r] show ?thesis by blast
qed

definition example_head :: string where
  "example_head = canonical_hash example_sha (JObj (new_core (example_request ''m'') 1 GENESIS))"

definition example_checkpoint :: json where
  "example_checkpoint = JObj [(''schema_version'', JStr ''1.0''), (''classification'', JStr ''REAL_EXTERNAL_ACCEPTANCE_SIGNED_LEDGER_CHECKPOINT''), (''real_system'', JBool True), (''executed'', JBool True),
     (''signature_verified'', JBool True), (''signer_identity'', JStr ''s''), (''signer_key_id'', JStr ''k''), (''signature_mechanism'', JStr ''m''), (''observed_at'', JStr ''now''),
     (''ledger_sha256'', JStr ''l''), (''ledger_head_hash'', JStr example_head), (''ledger_entries'', JNum 1), (''ledger_artifact'', JStr ''reports/external_acceptance/evidence_ledger.json''),
     (''release_challenge'', JObj [(''challenge_id'', JStr (replicate 16 CHR ''a'')), (''sha256'', JStr ''h'')]), (''git_commit_sha'', JStr ''g''),
     (''environment'', JObj [(''acceptance_environment_id_hash'', hash64), (''topology_hash'', hash64)]), (''signature_artifact'', JStr ''sig''), (''signature_sha256'', hash64)]"

definition example_view :: "json \<Rightarrow> LedgerView" where
  "example_view e = \<lparr>lw_symlink = False, lw_file = Document (ledger_document [e]), lw_sha256 = ''l''\<rparr>"

definition example_expected :: json where
  "example_expected = JObj [(''acceptance_environment_id_hash'', hash64), (''topology_hash'', hash64)]"

definition accepted :: "json \<Rightarrow> CheckpointReport res" where
  "accepted e = verify_ledger_checkpoint (canonical_hash example_sha) (\<lambda>_. []) (\<lambda>_. Some 0) example_env (Some ''g'') (example_view e) (\<lambda>_. Sig_File (replicate 64 CHR ''a'')) []
     (Parsed example_challenge ''h'') 24 example_expected True (Parsed example_checkpoint ''f'')"

lemma example_documents:
  "checkpoint_document_problems example_checkpoint = []" "observed_problems (\<lambda>_. Some 0) example_env 24 (jget example_checkpoint ''observed_at'') = []"
  "checkpoint_git_problems (Some ''g'') example_checkpoint = []" "checkpoint_environment_problems (obj_or_empty example_expected) (obj_or_empty (jget example_checkpoint ''environment'')) = []"
  "is_obj example_checkpoint" "jget (obj_or_empty (jget example_checkpoint ''release_challenge'')) ''challenge_id'' = JStr (replicate 16 CHR ''a'')"
  "jget (obj_or_empty (jget example_checkpoint ''release_challenge'')) ''sha256'' = JStr ''h''"
proof -
  have "strip ''s'' \<noteq> []" "strip ''k'' \<noteq> []" "strip ''m'' \<noteq> []" by (simp_all add: strip_eq_Nil is_space_def)
  then show "checkpoint_document_problems example_checkpoint = []" by (simp add: checkpoint_document_problems_def example_checkpoint_def blank_field_def)
  show "observed_problems (\<lambda>_. Some 0) example_env 24 (jget example_checkpoint ''observed_at'') = []"
    using example_fresh(1) by (auto simp: observed_problems_def example_checkpoint_def fresh_def)
  have h: "is_hash64 hash64" by (simp add: is_hash64_def hash64_def)
  show "checkpoint_git_problems (Some ''g'') example_checkpoint = []" by (simp add: checkpoint_git_problems_def example_checkpoint_def)
  show "checkpoint_environment_problems (obj_or_empty example_expected) (obj_or_empty (jget example_checkpoint ''environment'')) = []"
    using h by (simp add: checkpoint_environment_problems_def obj_or_empty_def example_expected_def example_checkpoint_def Let_def)
qed (simp_all add: example_checkpoint_def obj_or_empty_def)

lemma example_signature: "signature_problems (\<lambda>_. Sig_File (replicate 64 CHR ''a'')) example_checkpoint = ([], True)"
proof -
  have "lower (replicate 64 CHR ''a'') = replicate 64 CHR ''a''" by (simp add: lower_def lower_char_def)
  then show ?thesis unfolding signature_problems_def by (simp add: example_checkpoint_def hash64_def)
qed

lemma accepted_ok:
  assumes "chain (canonical_hash example_sha) 1 GENESIS [] [e]" and "entry_core e = JObj (new_core (example_request ''m'') 1 GENESIS)"
  shows "\<exists>r. accepted e = Inr r \<and> ck_verified r"
proof -
  obtain l where l: "verify_ledger (canonical_hash example_sha) (\<lambda>_. []) (Document (ledger_document [e])) = Inr l" "lr_verified l" "lr_entries l = 1" "lr_head_hash l = Some example_head"
    using example_verifies [OF assms] unfolding example_head_def by blast
  have v: "view_ledger (canonical_hash example_sha) (\<lambda>_. []) (example_view e) = Inr l" using l(1) by (simp add: view_ledger_def example_view_def)
  have p: "ledger_problems example_checkpoint (example_view e) l = []" unfolding ledger_problems_def using l by (simp add: example_view_def example_checkpoint_def)
  have i: "jget example_challenge ''challenge_id'' = JStr (replicate 16 CHR ''a'')" by (simp add: example_challenge_def)
  have t: "snd (checkpoint_trust example_env True True) = []" unfolding checkpoint_trust_Nil using example_trusted by (simp add: trusted_def example_env_def)
  show ?thesis unfolding accepted_def verify_ledger_checkpoint_def doc_file.case v example_challenge_ok bind_res_simps Let_def example_signature snd_conv
    using p t example_documents i by (simp add: challenge_problems_Nil)
qed

theorem checkpoint_pins_ledger_witness:
  "is_ok (accepted example_entry) \<and> is_ok (accepted annotated) \<and> example_entry \<noteq> annotated \<and> map entry_core [example_entry] = map entry_core [annotated]"
proof -
  obtain r where r: "accepted example_entry = Inr r" "ck_verified r" using accepted_ok [OF example_chains(1) example_cores(1)] by blast
  obtain r' where r': "accepted annotated = Inr r'" "ck_verified r'" using accepted_ok [OF example_chains(2) example_cores(2)] by blast
  have w: "lw_file (example_view e) = Document (ledger_document [e])" for e by (simp add: example_view_def)
  have "inj_on example_sha (entry_core ` (set [example_entry] \<union> set [annotated]))" "\<forall>e \<in> set [example_entry] \<union> set [annotated]. canonical_hash example_sha (entry_core e) \<noteq> GENESIS"
    using example_not_genesis by (auto simp: example_cores)
  from checkpoint_pins_ledger [OF r(1) [unfolded accepted_def] r(2) r'(1) [unfolded accepted_def] r'(2) w example_entries w example_entries this]
  have "map entry_core [example_entry] = map entry_core [annotated]" by blast
  moreover have "example_entry \<noteq> annotated" by (simp add: annotated_def example_entry_def new_entry_def)
  ultimately show ?thesis using r(1) r'(1) by simp
qed

end
