(* ===== verification/Research.thy ===== *)
theory Research
  imports Candles Evidence_Ledger
begin

text \<open>
  Research under pre-registration: the trial ledger (\<open>backend/app/research/registry.py\<close>), in which a hypothesis, its metric, its test set and its search budget are
  fixed before any result is recorded and results form a hash chain; versioned features and the clustering of redundant ones (\<open>research/feature_registry.py\<close>), point-in-time manifests
  (\<open>research/manifest.py\<close>), historical costs (\<open>research/cost_history.py\<close>), temporal train/test splits (\<open>research/ml_contract.py\<close>), parameter proposals
  (\<open>research/self_learning.py\<close>), change alarms (\<open>research/change_detection.py\<close>) and shadow comparisons (\<open>research/champion_challenger.py\<close>, \<open>research/shadow.py\<close>).
  SHA-256 of the canonical text of a payload and \<open>str\<close> of a time are arguments.
\<close>

section \<open>The trial registry\<close>

record ResearchTrial =
  rt_trial_id :: string
  rt_universe_version :: string
  rt_strategy_version :: string
  rt_parameter_space :: json
  rt_feature_set :: "string list"
  rt_timeframe_set :: "string list"
  rt_train_window :: "string \<times> string"
  rt_oos_window :: "string \<times> string"
  rt_primary_metric :: string
  rt_outcome :: json
  rt_created_at :: datetime

definition registry_append :: "ResearchTrial \<Rightarrow> ResearchTrial list \<Rightarrow> ResearchTrial list res" where
  "registry_append trial trials =
     (if \<exists>x \<in> set trials. rt_trial_id x = rt_trial_id trial then Inl (ValueError ''trial id immutable/duplicate'') else Inr (trials @ [trial]))"

definition registry_failed :: "ResearchTrial list \<Rightarrow> ResearchTrial list" where
  "registry_failed trials = filter (\<lambda>x. \<not> jtrue (jget (rt_outcome x) ''accepted'')) trials"

section \<open>Hypotheses\<close>

definition hash_re :: "string \<Rightarrow> bool" where
  "hash_re s \<longleftrightarrow> length s = 64 \<and> list_all (\<lambda>c. c \<in> set ''0123456789abcdef'') s"

record ResearchHypothesis =
  hy_hypothesis_id :: string
  hy_statement :: string
  hy_primary_metric :: string
  hy_test_set_hash :: string
  hy_parameter_search_budget :: int
  hy_researcher_agent :: string
  hy_registered_at :: datetime

definition new_hypothesis :: "ResearchHypothesis \<Rightarrow> ResearchHypothesis res" where
  "new_hypothesis h =
     (if \<exists>v \<in> set [hy_hypothesis_id h, hy_statement h, hy_primary_metric h, hy_researcher_agent h]. strip v = []
      then Inl (ValueError ''hypothesis pre-registration fields are required'')
      else if \<not> hash_re (hy_test_set_hash h) then Inl (ValueError ''test_set_hash must be sha256'')
      else if hy_parameter_search_budget h < 1 then Inl (ValueError ''parameter_search_budget must be positive'')
      else if \<not> is_aware (hy_registered_at h) then Inl (ValueError ''registered_at must be timezone-aware'')
      else Inr h)"

section \<open>Trials\<close>

text \<open>A metric is a float: finite, or an infinity or NaN.\<close>

datatype metric = Finite rat | NonFinite

type_synonym period = "datetime \<times> datetime"

record TrialArgs =
  ta_trial_id :: string
  ta_hypothesis_id :: string
  ta_strategy_family :: string
  ta_tested_features :: "string list"
  ta_tested_parameters :: "(string, json) dict"
  ta_dataset_hash :: string
  ta_train_period :: period
  ta_validation_period :: period
  ta_test_period :: period
  ta_metrics :: "(string, metric) dict"
  ta_failure_reason :: "string option"
  ta_selected :: bool
  ta_researcher_agent :: string
  ta_timestamp :: datetime
  ta_primary_metric :: string
  ta_test_set_hash :: string

record ResearchTrialLedgerEntry = TrialArgs +
  te_parameter_search_budget :: int
  te_search_ordinal :: int
  te_previous_hash :: string
  te_entry_hash :: string

record ResearchTrialLedger =
  tl_hypotheses :: "(string, ResearchHypothesis) dict"
  tl_entries :: "ResearchTrialLedgerEntry list"

definition GENESIS_HASH :: string where
  "GENESIS_HASH = replicate 64 (CHR ''0'')"

definition new_trial_ledger :: ResearchTrialLedger where
  "new_trial_ledger = \<lparr>tl_hypotheses = [], tl_entries = []\<rparr>"

definition register_hypothesis :: "ResearchHypothesis \<Rightarrow> ResearchTrialLedger \<Rightarrow> ResearchTrialLedger res" where
  "register_hypothesis h L =
     (if dget (tl_hypotheses L) (hy_hypothesis_id h) \<noteq> None then Inl (ValueError ''hypothesis id immutable/duplicate'')
      else Inr (L\<lparr>tl_hypotheses := dset (hy_hypothesis_id h) h (tl_hypotheses L)\<rparr>))"

definition period_ok :: "period \<Rightarrow> bool" where
  "period_ok p \<longleftrightarrow> is_aware (fst p) \<and> is_aware (snd p) \<and> micros (fst p) < micros (snd p)"

definition periods_valid :: "period \<Rightarrow> period \<Rightarrow> period \<Rightarrow> bool" where
  "periods_valid train validation test \<longleftrightarrow>
     list_all period_ok [train, validation, test] \<and> micros (snd train) \<le> micros (fst validation) \<and> micros (snd validation) \<le> micros (fst test)"

definition metric_json :: "metric \<Rightarrow> json" where
  "metric_json v = (case v of Finite r \<Rightarrow> JNum r | NonFinite \<Rightarrow> JNonFinite)"

definition period_json :: "(datetime \<Rightarrow> string) \<Rightarrow> period \<Rightarrow> json" where
  "period_json str p = JList [JStr (str (fst p)), JStr (str (snd p))]"

text \<open>Every field but \<open>entry_hash\<close>, as \<open>json.dumps\<close> writes it.\<close>

definition trial_payload :: "(datetime \<Rightarrow> string) \<Rightarrow> ResearchTrialLedgerEntry \<Rightarrow> json" where
  "trial_payload str e = JObj
     [(''trial_id'', JStr (ta_trial_id e)), (''hypothesis_id'', JStr (ta_hypothesis_id e)), (''strategy_family'', JStr (ta_strategy_family e)),
      (''tested_features'', JList (map JStr (ta_tested_features e))), (''tested_parameters'', JObj (ta_tested_parameters e)), (''dataset_hash'', JStr (ta_dataset_hash e)),
      (''train_period'', period_json str (ta_train_period e)), (''validation_period'', period_json str (ta_validation_period e)),
      (''test_period'', period_json str (ta_test_period e)), (''metrics'', JObj (map (\<lambda>(k, v). (k, metric_json v)) (ta_metrics e))),
      (''failure_reason'', (case ta_failure_reason e of None \<Rightarrow> JNull | Some r \<Rightarrow> JStr r)), (''selected'', JBool (ta_selected e)),
      (''researcher_agent'', JStr (ta_researcher_agent e)), (''timestamp'', JStr (str (ta_timestamp e))), (''primary_metric'', JStr (ta_primary_metric e)),
      (''test_set_hash'', JStr (ta_test_set_hash e)), (''parameter_search_budget'', JNum (of_int (te_parameter_search_budget e))),
      (''search_ordinal'', JNum (of_int (te_search_ordinal e))), (''previous_hash'', JStr (te_previous_hash e))]"

definition trials_of :: "string \<Rightarrow> ResearchTrialLedgerEntry list \<Rightarrow> ResearchTrialLedgerEntry list" where
  "trials_of hid es = filter (\<lambda>e. ta_hypothesis_id e = hid) es"

definition registration_problem :: "TrialArgs \<Rightarrow> ResearchHypothesis \<Rightarrow> int \<Rightarrow> pyerr option" where
  "registration_problem a h search_ordinal =
     (if \<not> is_aware (ta_timestamp a) \<or> micros (ta_timestamp a) < micros (hy_registered_at h) then Some (PermissionError ''trial result cannot predate hypothesis registration'')
      else if ta_primary_metric a \<noteq> hy_primary_metric h then Some (PermissionError ''primary metric is locked by pre-registration'')
      else if ta_test_set_hash a \<noteq> hy_test_set_hash h then Some (PermissionError ''test set is locked by pre-registration'')
      else if search_ordinal > hy_parameter_search_budget h then Some (PermissionError ''parameter search budget exceeded'')
      else None)"

definition trial_problem :: "TrialArgs \<Rightarrow> pyerr option" where
  "trial_problem a =
     (if strip (ta_trial_id a) = [] \<or> strip (ta_strategy_family a) = [] \<or> strip (ta_researcher_agent a) = [] then Some (ValueError ''trial identity fields are required'')
      else if ta_tested_features a = [] \<or> ta_tested_parameters a = [] then Some (ValueError ''tested features and parameters are required'')
      else if \<not> hash_re (ta_dataset_hash a) \<or> \<not> hash_re (ta_test_set_hash a) then Some (ValueError ''dataset/test hashes must be sha256'')
      else if \<not> periods_valid (ta_train_period a) (ta_validation_period a) (ta_test_period a)
      then Some (ValueError ''train/validation/test periods must be ordered and non-overlapping'')
      else if ta_metrics a = [] then Some (ValueError ''trial metrics are required'')
      else if \<exists>(k, v) \<in> set (ta_metrics a). v = NonFinite then Some (ValueError ''trial metrics must be finite'')
      else if \<not> ta_selected a \<and> strip (case ta_failure_reason a of None \<Rightarrow> [] | Some r \<Rightarrow> r) = [] then Some (ValueError ''rejected trial requires failure_reason'')
      else if ta_selected a \<and> (case ta_failure_reason a of None \<Rightarrow> False | Some r \<Rightarrow> r \<noteq> []) then Some (ValueError ''selected trial cannot have failure_reason'')
      else None)"

definition head_hash :: "ResearchTrialLedgerEntry list \<Rightarrow> string" where
  "head_hash es = (if es = [] then GENESIS_HASH else te_entry_hash (last es))"

definition trial_entry :: "TrialArgs \<Rightarrow> int \<Rightarrow> int \<Rightarrow> string \<Rightarrow> string \<Rightarrow> ResearchTrialLedgerEntry" where
  "trial_entry a budget ordinal previous entry_hash = TrialArgs.extend a (ResearchTrialLedgerEntry.fields budget ordinal previous entry_hash)"

definition search_ordinal :: "TrialArgs \<Rightarrow> ResearchTrialLedger \<Rightarrow> int" where
  "search_ordinal a L = 1 + int (length (trials_of (ta_hypothesis_id a) (tl_entries L)))"

definition admit_trial :: "TrialArgs \<Rightarrow> ResearchTrialLedger \<Rightarrow> ResearchHypothesis res" where
  "admit_trial a L =
     (if \<exists>e \<in> set (tl_entries L). ta_trial_id e = ta_trial_id a then Inl (ValueError ''trial id immutable/duplicate'')
      else case dget (tl_hypotheses L) (ta_hypothesis_id a) of
        None \<Rightarrow> Inl (PermissionError ''hypothesis must be registered before trial result'')
      | Some h \<Rightarrow>
          (case registration_problem a h (search_ordinal a L) of
             Some e \<Rightarrow> Inl e
           | None \<Rightarrow> (case trial_problem a of Some e \<Rightarrow> Inl e | None \<Rightarrow> Inr h)))"

definition append_trial :: "(json \<Rightarrow> 256 word) \<Rightarrow> (datetime \<Rightarrow> string) \<Rightarrow> TrialArgs \<Rightarrow> ResearchTrialLedger \<Rightarrow> (ResearchTrialLedgerEntry \<times> ResearchTrialLedger) res" where
  "append_trial sha str a L =
     bind_res (admit_trial a L) (\<lambda>h.
       let payload = trial_entry a (hy_parameter_search_budget h) (search_ordinal a L) (head_hash (tl_entries L));
           entry = payload (canonical_hash sha (trial_payload str (payload [])))
       in Inr (entry, L\<lparr>tl_entries := tl_entries L @ [entry]\<rparr>))"

fun integrity_from :: "(json \<Rightarrow> 256 word) \<Rightarrow> (datetime \<Rightarrow> string) \<Rightarrow> string \<Rightarrow> ResearchTrialLedgerEntry list \<Rightarrow> bool" where
  "integrity_from sha str previous [] = True"
| "integrity_from sha str previous (e # es) =
     (if te_previous_hash e \<noteq> previous \<or> canonical_hash sha (trial_payload str e) \<noteq> te_entry_hash e then False
      else integrity_from sha str (te_entry_hash e) es)"

definition verify_integrity :: "(json \<Rightarrow> 256 word) \<Rightarrow> (datetime \<Rightarrow> string) \<Rightarrow> ResearchTrialLedger \<Rightarrow> bool" where
  "verify_integrity sha str L = integrity_from sha str GENESIS_HASH (tl_entries L)"

section \<open>What the trial ledger keeps\<close>

text \<open>A ledger is reached by registering hypotheses that were constructed and appending trials, in any order; refused calls leave it unchanged.\<close>

inductive ledger_step :: "(json \<Rightarrow> 256 word) \<Rightarrow> (datetime \<Rightarrow> string) \<Rightarrow> ResearchTrialLedger \<Rightarrow> ResearchTrialLedger \<Rightarrow> bool" for sha str where
  Register: "new_hypothesis h = Inr h' \<Longrightarrow> register_hypothesis h' L = Inr L' \<Longrightarrow> ledger_step sha str L L'"
| Append: "append_trial sha str a L = Inr (e, L') \<Longrightarrow> ledger_step sha str L L'"

inductive_cases ledger_stepE: "ledger_step sha str L L'"

definition locked_to :: "ResearchHypothesis \<Rightarrow> ResearchTrialLedgerEntry \<Rightarrow> bool" where
  "locked_to h e \<longleftrightarrow> ta_primary_metric e = hy_primary_metric h \<and> ta_test_set_hash e = hy_test_set_hash h \<and> te_parameter_search_budget e = hy_parameter_search_budget h \<and>
     is_aware (ta_timestamp e) \<and> micros (hy_registered_at h) \<le> micros (ta_timestamp e)"

definition honest_trial :: "ResearchTrialLedgerEntry \<Rightarrow> bool" where
  "honest_trial e \<longleftrightarrow> periods_valid (ta_train_period e) (ta_validation_period e) (ta_test_period e) \<and> (\<forall>(k, v) \<in> set (ta_metrics e). v \<noteq> NonFinite) \<and>
     (ta_selected e \<longleftrightarrow> ta_failure_reason e \<in> {None, Some []})"

definition numbered_within :: "ResearchHypothesis \<Rightarrow> ResearchTrialLedgerEntry list \<Rightarrow> bool" where
  "numbered_within h es \<longleftrightarrow> map te_search_ordinal es = map int [1..<Suc (length es)] \<and> int (length es) \<le> hy_parameter_search_budget h"

definition ledger_inv :: "(json \<Rightarrow> 256 word) \<Rightarrow> (datetime \<Rightarrow> string) \<Rightarrow> ResearchTrialLedger \<Rightarrow> bool" where
  "ledger_inv sha str L \<longleftrightarrow> distinct (map ta_trial_id (tl_entries L)) \<and> verify_integrity sha str L \<and>
     (\<forall>hid h. dget (tl_hypotheses L) hid = Some h \<longrightarrow> 1 \<le> hy_parameter_search_budget h \<and> numbered_within h (trials_of hid (tl_entries L))) \<and>
     (\<forall>e \<in> set (tl_entries L). honest_trial e \<and> (\<exists>h. dget (tl_hypotheses L) (ta_hypothesis_id e) = Some h \<and> locked_to h e))"

lemma integrity_snoc:
  "integrity_from sha str previous (es @ [e]) \<longleftrightarrow> integrity_from sha str previous es \<and>
     te_previous_hash e = (if es = [] then previous else te_entry_hash (last es)) \<and> canonical_hash sha (trial_payload str e) = te_entry_hash e"
  by (induction es arbitrary: previous) auto

lemma trials_of_snoc: "trials_of hid (es @ [e]) = trials_of hid es @ (if ta_hypothesis_id e = hid then [e] else [])"
  by (simp add: trials_of_def)

lemma new_hypothesis_ok: "new_hypothesis h = Inr h' \<longleftrightarrow> h' = h \<and> is_ok (new_hypothesis h)"
  by (auto simp: new_hypothesis_def)

lemma new_hypothesis_budget: "new_hypothesis h = Inr h' \<Longrightarrow> 1 \<le> hy_parameter_search_budget h'"
  by (auto simp: new_hypothesis_def split: if_splits)

lemma trial_entry_simps [simp]:
  "TrialArgs.truncate (trial_entry a b n p x) = a" "te_parameter_search_budget (trial_entry a b n p x) = b" "te_search_ordinal (trial_entry a b n p x) = n"
  "te_previous_hash (trial_entry a b n p x) = p" "te_entry_hash (trial_entry a b n p x) = x"
  by (simp_all add: trial_entry_def TrialArgs.defs ResearchTrialLedgerEntry.defs)

lemma trial_payload_entry: "trial_payload str (trial_entry a b n p x) = trial_payload str (trial_entry a b n p y)"
  by (simp add: trial_payload_def trial_entry_def TrialArgs.defs ResearchTrialLedgerEntry.defs)

lemma registration_problem_None:
  "registration_problem a h n = None \<longleftrightarrow> is_aware (ta_timestamp a) \<and> micros (hy_registered_at h) \<le> micros (ta_timestamp a) \<and> ta_primary_metric a = hy_primary_metric h \<and>
     ta_test_set_hash a = hy_test_set_hash h \<and> n \<le> hy_parameter_search_budget h"
  by (auto simp: registration_problem_def)

lemma trial_problem_None:
  assumes "trial_problem a = None"
  shows "periods_valid (ta_train_period a) (ta_validation_period a) (ta_test_period a)" "\<forall>(k, v) \<in> set (ta_metrics a). v \<noteq> NonFinite"
    "ta_selected a \<longleftrightarrow> ta_failure_reason a \<in> {None, Some []}"
proof -
  show "periods_valid (ta_train_period a) (ta_validation_period a) (ta_test_period a)" "\<forall>(k, v) \<in> set (ta_metrics a). v \<noteq> NonFinite"
    using assms by (auto simp: trial_problem_def split: if_splits)
  have "strip [] = []" by (simp add: strip_eq_Nil)
  then show "ta_selected a \<longleftrightarrow> ta_failure_reason a \<in> {None, Some []}" using assms
    by (cases "ta_failure_reason a") (auto simp: trial_problem_def split: if_splits)
qed

text \<open>What an accepted append gives, in one place.\<close>

lemma admit_trial_ok:
  "admit_trial a L = Inr h \<longleftrightarrow> (\<forall>x \<in> set (tl_entries L). ta_trial_id x \<noteq> ta_trial_id a) \<and> dget (tl_hypotheses L) (ta_hypothesis_id a) = Some h \<and>
     registration_problem a h (search_ordinal a L) = None \<and> trial_problem a = None"
  by (auto simp: admit_trial_def split: option.splits)

lemma append_trialE:
  assumes "append_trial sha str a L = Inr (e, L')"
  obtains h where "admit_trial a L = Inr h" "TrialArgs.truncate e = a" "te_parameter_search_budget e = hy_parameter_search_budget h" "te_search_ordinal e = search_ordinal a L"
    "te_previous_hash e = head_hash (tl_entries L)" "te_entry_hash e = canonical_hash sha (trial_payload str e)" "L' = L\<lparr>tl_entries := tl_entries L @ [e]\<rparr>"
proof -
  from assms obtain h where h: "admit_trial a L = Inr h" and L': "L' = L\<lparr>tl_entries := tl_entries L @ [e]\<rparr>"
    and e: "e = trial_entry a (hy_parameter_search_budget h) (search_ordinal a L) (head_hash (tl_entries L))
      (canonical_hash sha (trial_payload str (trial_entry a (hy_parameter_search_budget h) (search_ordinal a L) (head_hash (tl_entries L)) [])))"
    unfolding append_trial_def bind_res_Inr Let_def by blast
  have "trial_payload str e = trial_payload str (trial_entry a (hy_parameter_search_budget h) (search_ordinal a L) (head_hash (tl_entries L)) [])"
    unfolding e by (rule trial_payload_entry)
  then have "te_entry_hash e = canonical_hash sha (trial_payload str e)" by (metis e trial_entry_simps(5))
  moreover have "TrialArgs.truncate e = a" "te_parameter_search_budget e = hy_parameter_search_budget h" "te_search_ordinal e = search_ordinal a L" "te_previous_hash e = head_hash (tl_entries L)"
    unfolding e by simp_all
  ultimately show thesis using that h L' by blast
qed

lemma truncate_eqs: "TrialArgs.truncate e = a \<Longrightarrow> ta_trial_id e = ta_trial_id a \<and> ta_hypothesis_id e = ta_hypothesis_id a \<and> ta_primary_metric e = ta_primary_metric a \<and>
    ta_test_set_hash e = ta_test_set_hash a \<and> ta_timestamp e = ta_timestamp a \<and> ta_train_period e = ta_train_period a \<and> ta_validation_period e = ta_validation_period a \<and>
    ta_test_period e = ta_test_period a \<and> ta_metrics e = ta_metrics a \<and> ta_selected e = ta_selected a \<and> ta_failure_reason e = ta_failure_reason a"
  by (auto simp: TrialArgs.defs)

lemma append_keeps_inv:
  assumes ap: "append_trial sha str a L = Inr (e, L')" and inv: "ledger_inv sha str L"
  shows "ledger_inv sha str L'"
proof -
  from ap obtain h where ad: "admit_trial a L = Inr h" and tr: "TrialArgs.truncate e = a" and bud: "te_parameter_search_budget e = hy_parameter_search_budget h"
    and ord: "te_search_ordinal e = search_ordinal a L" and prev: "te_previous_hash e = head_hash (tl_entries L)"
    and hash: "te_entry_hash e = canonical_hash sha (trial_payload str e)" and L': "L' = L\<lparr>tl_entries := tl_entries L @ [e]\<rparr>" by (rule append_trialE)
  have new: "\<forall>x \<in> set (tl_entries L). ta_trial_id x \<noteq> ta_trial_id a" and h: "dget (tl_hypotheses L) (ta_hypothesis_id a) = Some h"
    and reg: "registration_problem a h (search_ordinal a L) = None" and ok: "trial_problem a = None" using ad by (simp_all add: admit_trial_ok)
  note t = truncate_eqs [OF tr]
  have "honest_trial e" using trial_problem_None [OF ok] t by (simp add: honest_trial_def)
  moreover have "locked_to h e" using reg t bud by (simp add: locked_to_def registration_problem_None)
  moreover have "verify_integrity sha str L'" using inv prev hash by (simp add: ledger_inv_def verify_integrity_def L' integrity_snoc head_hash_def)
  moreover have "numbered_within g (trials_of hid (tl_entries L'))" if "dget (tl_hypotheses L) hid = Some g" for hid g
  proof -
    have "numbered_within g (trials_of hid (tl_entries L))" using inv that by (simp add: ledger_inv_def)
    moreover have "ta_hypothesis_id e = hid \<Longrightarrow> g = h" using that h t by simp
    ultimately show ?thesis using ord reg t by (auto simp: numbered_within_def L' trials_of_snoc registration_problem_None search_ordinal_def)
  qed
  ultimately show ?thesis using inv new t h by (auto simp: ledger_inv_def L')
qed

lemma register_keeps_inv:
  assumes n: "new_hypothesis h = Inr h'" and r: "register_hypothesis h' L = Inr L'" and inv: "ledger_inv sha str L"
  shows "ledger_inv sha str L'"
proof -
  have fresh: "dget (tl_hypotheses L) (hy_hypothesis_id h') = None" and L': "L' = L\<lparr>tl_hypotheses := dset (hy_hypothesis_id h') h' (tl_hypotheses L)\<rparr>"
    using r by (auto simp: register_hypothesis_def split: if_splits)
  have "trials_of (hy_hypothesis_id h') (tl_entries L) = []"
    using inv fresh by (force simp: ledger_inv_def trials_of_def filter_empty_conv)
  then have "numbered_within h' (trials_of (hy_hypothesis_id h') (tl_entries L))" using new_hypothesis_budget [OF n] by (simp add: numbered_within_def)
  moreover have "\<forall>e \<in> set (tl_entries L). ta_hypothesis_id e \<noteq> hy_hypothesis_id h'" using inv fresh by (force simp: ledger_inv_def)
  ultimately show ?thesis using inv new_hypothesis_budget [OF n] by (auto simp: ledger_inv_def L' verify_integrity_def)
qed

lemma ledger_step_inv: "ledger_step sha str L L' \<Longrightarrow> ledger_inv sha str L \<Longrightarrow> ledger_inv sha str L'"
  by (elim ledger_stepE) (blast intro: register_keeps_inv append_keeps_inv)+

lemma new_ledger_inv: "ledger_inv sha str new_trial_ledger"
  by (simp add: ledger_inv_def new_trial_ledger_def verify_integrity_def)

lemma ledger_reachable_inv: "(ledger_step sha str)\<^sup>*\<^sup>* new_trial_ledger L \<Longrightarrow> ledger_inv sha str L"
  by (induction rule: rtranclp_induct) (simp_all add: new_ledger_inv ledger_step_inv)

text \<open>
  C36: in every reachable trial ledger the search stays within what was registered before it: the trials of a hypothesis are numbered from 1 without gaps and
  never exceed its budget, each uses the registered metric and test set and is no older than the registration, its periods do not overlap, its metrics are
  finite, a rejected trial carries a reason, and the hash chain verifies.
\<close>

theorem trial_ledger_honest:
  assumes "(ledger_step sha str)\<^sup>*\<^sup>* new_trial_ledger L"
  shows "verify_integrity sha str L \<and> distinct (map ta_trial_id (tl_entries L)) \<and>
    (\<forall>hid h. dget (tl_hypotheses L) hid = Some h \<longrightarrow> numbered_within h (trials_of hid (tl_entries L))) \<and>
    (\<forall>e \<in> set (tl_entries L). honest_trial e \<and> (\<exists>h. dget (tl_hypotheses L) (ta_hypothesis_id e) = Some h \<and> locked_to h e))"
  using ledger_reachable_inv [OF assms] by (simp add: ledger_inv_def)

text \<open>Nothing recorded is ever changed: hypotheses keep their terms and the earlier entries stay a prefix.\<close>

lemma trial_ledger_append_only:
  assumes "(ledger_step sha str)\<^sup>*\<^sup>* L L'"
  shows "(\<exists>es. tl_entries L' = tl_entries L @ es) \<and> (\<forall>hid h. dget (tl_hypotheses L) hid = Some h \<longrightarrow> dget (tl_hypotheses L') hid = Some h)"
  using assms
proof (induction rule: rtranclp_induct)
  case (step L1 L2)
  have "(\<exists>es. tl_entries L2 = tl_entries L1 @ es) \<and> (\<forall>hid h. dget (tl_hypotheses L1) hid = Some h \<longrightarrow> dget (tl_hypotheses L2) hid = Some h)"
    using step.hyps(2)
  proof cases
    case (Register h h')
    then show ?thesis by (auto simp: register_hypothesis_def split: if_splits)
  next
    case (Append a e)
    then obtain h where "L2 = L1\<lparr>tl_entries := tl_entries L1 @ [e]\<rparr>" by (rule append_trialE)
    then show ?thesis by simp
  qed
  with step.IH show ?case by (metis append.assoc)
qed simp

text \<open>A search budget that is used up ends the search: every further trial of the hypothesis is refused.\<close>

lemma exhausted_budget_refuses:
  assumes "dget (tl_hypotheses L) (ta_hypothesis_id a) = Some h" "hy_parameter_search_budget h \<le> int (length (trials_of (ta_hypothesis_id a) (tl_entries L)))"
  shows "\<not> is_ok (append_trial sha str a L)"
proof -
  have "admit_trial a L \<noteq> Inr g" for g using assms by (auto simp: admit_trial_ok registration_problem_None search_ordinal_def)
  then show ?thesis unfolding append_trial_def by (cases "admit_trial a L") auto
qed

lemma payload_previous: "trial_payload str e = trial_payload str e' \<Longrightarrow> te_previous_hash e = te_previous_hash e'"
  by (simp add: trial_payload_def)

text \<open>Two ledgers that verify and end in the same hash have recorded the same results, unless SHA-256 collides on them or hits the start value.\<close>

lemma trial_ledgers_agree:
  assumes "integrity_from sha str GENESIS_HASH xs" "integrity_from sha str GENESIS_HASH ys" "head_hash xs = head_hash ys"
    and "inj_on sha (trial_payload str ` (set xs \<union> set ys))" "\<forall>e \<in> set xs \<union> set ys. canonical_hash sha (trial_payload str e) \<noteq> GENESIS_HASH"
  shows "map (trial_payload str) xs = map (trial_payload str) ys"
  using assms
proof (induction xs arbitrary: ys rule: rev_induct)
  case Nil
  then show ?case by (cases ys rule: rev_cases) (auto simp: head_hash_def integrity_snoc)
next
  case (snoc x xs)
  note x = snoc.prems(1) [unfolded integrity_snoc]
  obtain y zs where ys: "ys = zs @ [y]" using snoc.prems(3,5) x by (cases ys rule: rev_cases) (auto simp: head_hash_def)
  note y = snoc.prems(2) [unfolded ys integrity_snoc]
  have "canonical_hash sha (trial_payload str x) = canonical_hash sha (trial_payload str y)" using snoc.prems(3) x y by (simp add: head_hash_def ys)
  then have p: "trial_payload str x = trial_payload str y" unfolding canonical_hash_eq by (rule inj_onD [OF snoc.prems(4)]) (simp_all add: ys)
  have "head_hash xs = head_hash zs" using payload_previous [OF p] x y by (simp add: head_hash_def)
  moreover have "inj_on sha (trial_payload str ` (set xs \<union> set zs))" by (rule inj_on_subset [OF snoc.prems(4)]) (auto simp: ys)
  ultimately have "map (trial_payload str) xs = map (trial_payload str) zs" using snoc.IH [of zs] x y snoc.prems(5) by (simp add: ys)
  then show ?case using p by (simp add: ys)
qed

section \<open>A concrete ledger\<close>

definition example_hypothesis :: ResearchHypothesis where
  "example_hypothesis = \<lparr>hy_hypothesis_id = ''h'', hy_statement = ''momentum'', hy_primary_metric = ''sharpe'', hy_test_set_hash = GENESIS_HASH, hy_parameter_search_budget = 1,
     hy_researcher_agent = ''a'', hy_registered_at = Aware 0\<rparr>"

definition example_trial :: TrialArgs where
  "example_trial = \<lparr>ta_trial_id = ''t'', ta_hypothesis_id = ''h'', ta_strategy_family = ''trend'', ta_tested_features = [''f''], ta_tested_parameters = [(''n'', JNum 3)],
     ta_dataset_hash = GENESIS_HASH, ta_train_period = (Aware 0, Aware 1), ta_validation_period = (Aware 1, Aware 2), ta_test_period = (Aware 2, Aware 3),
     ta_metrics = [(''sharpe'', Finite 1)], ta_failure_reason = None, ta_selected = True, ta_researcher_agent = ''a'', ta_timestamp = Aware 5, ta_primary_metric = ''sharpe'',
     ta_test_set_hash = GENESIS_HASH\<rparr>"

definition example_ledger :: ResearchTrialLedger where
  "example_ledger = \<lparr>tl_hypotheses = [(''h'', example_hypothesis)], tl_entries = []\<rparr>"

lemma example_genesis [simp]: "hash_re GENESIS_HASH"
  by code_simp

lemma example_texts [simp]: "strip ''h'' \<noteq> []" "strip ''t'' \<noteq> []" "strip ''a'' \<noteq> []" "strip ''momentum'' \<noteq> []" "strip ''sharpe'' \<noteq> []" "strip ''trend'' \<noteq> []"
  by code_simp+

lemma example_registered: "ledger_step sha str new_trial_ledger example_ledger"
  by (rule ledger_step.Register [of example_hypothesis example_hypothesis])
    (simp_all add: new_hypothesis_def register_hypothesis_def new_trial_ledger_def example_ledger_def example_hypothesis_def)

lemma example_trial_fields:
  "ta_trial_id example_trial = ''t''" "ta_hypothesis_id example_trial = ''h''" "ta_strategy_family example_trial = ''trend''" "ta_tested_features example_trial \<noteq> []"
  "ta_tested_parameters example_trial \<noteq> []" "ta_dataset_hash example_trial = GENESIS_HASH" "ta_test_set_hash example_trial = GENESIS_HASH"
  "ta_metrics example_trial = [(''sharpe'', Finite 1)]" "ta_failure_reason example_trial = None" "ta_selected example_trial" "ta_researcher_agent example_trial = ''a''"
  "periods_valid (ta_train_period example_trial) (ta_validation_period example_trial) (ta_test_period example_trial)"
  by (simp_all add: example_trial_def periods_valid_def period_ok_def)

lemma example_trial_ok: "trial_problem example_trial = None"
  by (simp add: trial_problem_def example_trial_fields)

lemma example_admitted: "admit_trial example_trial example_ledger = Inr example_hypothesis"
proof -
  have "search_ordinal example_trial example_ledger = 1" by (simp add: search_ordinal_def trials_of_def example_ledger_def)
  moreover have "registration_problem example_trial example_hypothesis 1 = None" by (simp add: registration_problem_None example_trial_def example_hypothesis_def)
  ultimately show ?thesis by (simp add: admit_trial_ok example_trial_ok example_ledger_def example_trial_fields)
qed

theorem trial_ledger_honest_witness:
  "\<exists>e L. append_trial example_sha (\<lambda>_. ''t'') example_trial example_ledger = Inr (e, L) \<and> verify_integrity example_sha (\<lambda>_. ''t'') L \<and> map te_search_ordinal (tl_entries L) = [1] \<and>
     honest_trial e \<and> \<not> is_ok (append_trial example_sha (\<lambda>_. ''t'') (example_trial\<lparr>ta_trial_id := ''u''\<rparr>) L)"
proof -
  obtain e L where ap: "append_trial example_sha (\<lambda>_. ''t'') example_trial example_ledger = Inr (e, L)"
    unfolding append_trial_def example_admitted bind_res_simps Let_def by blast
  obtain h where L: "L = example_ledger\<lparr>tl_entries := tl_entries example_ledger @ [e]\<rparr>" and n: "te_search_ordinal e = search_ordinal example_trial example_ledger"
    and tr: "TrialArgs.truncate e = example_trial" by (rule append_trialE [OF ap])
  have es: "tl_entries L = [e]" "tl_hypotheses L = [(''h'', example_hypothesis)]" by (simp_all add: L example_ledger_def)
  have "(ledger_step example_sha (\<lambda>_. ''t''))\<^sup>*\<^sup>* new_trial_ledger L"
    using example_registered ledger_step.Append [OF ap] by (meson converse_rtranclp_into_rtranclp r_into_rtranclp)
  from trial_ledger_honest [OF this] have "verify_integrity example_sha (\<lambda>_. ''t'') L" "honest_trial e" by (simp_all add: es)
  moreover have "\<not> is_ok (append_trial example_sha (\<lambda>_. ''t'') (example_trial\<lparr>ta_trial_id := ''u''\<rparr>) L)"
    by (rule exhausted_budget_refuses [of _ _ example_hypothesis]) (use truncate_eqs [OF tr] in \<open>simp_all add: es example_trial_def example_hypothesis_def trials_of_def\<close>)
  ultimately show ?thesis using ap n es by (auto simp: search_ordinal_def example_ledger_def trials_of_def)
qed

section \<open>Features\<close>

record FeatureSpec =
  fs_name :: string
  fs_version :: string
  fs_formula :: string
  fs_required_inputs :: "string list"
  fs_warmup :: int
  fs_timeframe :: string
  fs_latency_ms :: int
  fs_availability_semantics :: string
  fs_expected_range :: "rat \<times> rat"
  fs_missing_value_policy :: string
  fs_directionality_assumption :: "string option"

definition new_feature_spec :: "FeatureSpec \<Rightarrow> FeatureSpec res" where
  "new_feature_spec f =
     (if fs_name f = [] \<or> fs_version f = [] \<or> fs_formula f = [] \<or> fs_required_inputs f = [] then Inl (ValueError ''feature contract incomplete'')
      else if fs_warmup f < 0 \<or> fs_latency_ms f < 0 then Inl (ValueError ''negative warmup/latency'')
      else if fst (fs_expected_range f) \<ge> snd (fs_expected_range f) then Inl (ValueError ''invalid expected range'')
      else Inr f)"

type_synonym feature_registry = "(string \<times> string, FeatureSpec) dict"

definition register_feature :: "FeatureSpec \<Rightarrow> feature_registry \<Rightarrow> feature_registry res" where
  "register_feature spec features =
     (let key = (fs_name spec, fs_version spec)
      in if dget features key \<noteq> None then Inl (ValueError ''feature version already registered'') else Inr (dset key spec features))"

definition get_feature :: "string \<Rightarrow> string \<Rightarrow> feature_registry \<Rightarrow> FeatureSpec res" where
  "get_feature name version features = (case dget features (name, version) of None \<Rightarrow> Inl (KeyError name) | Some f \<Rightarrow> Inr f)"

text \<open>A version that was registered is found unchanged after any number of later registrations.\<close>

fun register_features :: "FeatureSpec list \<Rightarrow> feature_registry \<Rightarrow> feature_registry" where
  "register_features [] features = features"
| "register_features (f # fs) features = register_features fs (case register_feature f features of Inl e \<Rightarrow> features | Inr features' \<Rightarrow> features')"

lemma register_feature_keeps: "dget features k = Some f \<Longrightarrow> dget (case register_feature g features of Inl e \<Rightarrow> features | Inr features' \<Rightarrow> features') k = Some f"
  by (cases "k = (fs_name g, fs_version g)") (auto simp: register_feature_def Let_def)

lemma register_features_keep: "dget features k = Some f \<Longrightarrow> dget (register_features fs features) k = Some f"
  by (induction fs arbitrary: features) (simp_all add: register_feature_keeps)

lemma registered_feature_stays: "dget features (n, v) = Some f \<Longrightarrow> get_feature n v (register_features fs features) = Inr f"
  by (simp add: get_feature_def register_features_keep)

lemma register_then_get: "register_feature f features = Inr features' \<Longrightarrow> get_feature (fs_name f) (fs_version f) (register_features fs features') = Inr f"
  by (rule registered_feature_stays) (auto simp: register_feature_def Let_def split: if_splits)

type_synonym correlations = "(string, (string, rat) dict) dict"

definition corr_at :: "correlations \<Rightarrow> string \<Rightarrow> string \<Rightarrow> rat res" where
  "corr_at corr lead other =
     (case dget corr lead of None \<Rightarrow> Inl (KeyError lead) | Some row \<Rightarrow> (case dget row other of None \<Rightarrow> Inl (KeyError other) | Some r \<Rightarrow> Inr r))"

text \<open>The members of the group of \<open>root\<close> (here \<open>lead\<close>) besides itself, in sorted order.\<close>

fun close_to :: "correlations \<Rightarrow> rat \<Rightarrow> string \<Rightarrow> string list \<Rightarrow> string list res" where
  "close_to corr threshold lead [] = Inr []"
| "close_to corr threshold lead (x # xs) =
     bind_res (corr_at corr lead x) (\<lambda>r. bind_res (close_to corr threshold lead xs) (\<lambda>grp. Inr (if \<bar>r\<bar> \<ge> threshold then x # grp else grp)))"

text \<open>The set \<open>remaining\<close> is the sorted list of its elements: its minimum comes first.\<close>

fun cluster_loop :: "correlations \<Rightarrow> rat \<Rightarrow> string list \<Rightarrow> string list list res" where
  "cluster_loop corr threshold [] = Inr []"
| "cluster_loop corr threshold (lead # rest) =
     (case close_to corr threshold lead rest of
        Inl e \<Rightarrow> Inl e
      | Inr grp \<Rightarrow> (case cluster_loop corr threshold (filter (\<lambda>x. x \<notin> set grp) rest) of Inl e \<Rightarrow> Inl e | Inr clusters \<Rightarrow> Inr ((lead # grp) # clusters)))"

definition cluster_redundant :: "correlations \<Rightarrow> rat \<Rightarrow> string list list res" where
  "cluster_redundant corr threshold = cluster_loop corr threshold (sorted_set (map fst corr))"

lemma close_to_filter: "close_to corr threshold lead xs = Inr grp \<Longrightarrow> \<exists>P. grp = filter P xs \<and> (\<forall>x \<in> set xs. \<exists>r. corr_at corr lead x = Inr r \<and> (P x \<longleftrightarrow> threshold \<le> \<bar>r\<bar>))"
proof (induction xs arbitrary: grp)
  case (Cons x xs)
  then obtain r g where r: "corr_at corr lead x = Inr r" "close_to corr threshold lead xs = Inr g" "grp = (if \<bar>r\<bar> \<ge> threshold then x # g else g)" by (auto simp: bind_res_Inr)
  let ?P = "\<lambda>y. \<exists>q. corr_at corr lead y = Inr q \<and> threshold \<le> \<bar>q\<bar>"
  from Cons.IH [OF r(2)] obtain P where P: "g = filter P xs" "\<forall>x \<in> set xs. \<exists>r. corr_at corr lead x = Inr r \<and> (P x \<longleftrightarrow> threshold \<le> \<bar>r\<bar>)" by blast
  have "g = filter ?P xs" unfolding P(1) by (rule filter_cong) (use P(2) in auto)
  then show ?case using r P(2) by (intro exI [of _ ?P]) auto
qed simp

text \<open>What a clustering is: each feature in exactly one cluster, close to the cluster's root, and the roots far from each other.\<close>

fun far_apart :: "correlations \<Rightarrow> rat \<Rightarrow> string list list \<Rightarrow> bool" where
  "far_apart corr threshold [] = True"
| "far_apart corr threshold (c # cs) \<longleftrightarrow>
     (\<forall>x \<in> set (tl c). \<exists>r. corr_at corr (hd c) x = Inr r \<and> threshold \<le> \<bar>r\<bar>) \<and> (\<forall>x \<in> set (concat cs). \<exists>r. corr_at corr (hd c) x = Inr r \<and> \<bar>r\<bar> < threshold) \<and> far_apart corr threshold cs"

lemma cluster_loop_partition:
  "cluster_loop corr threshold xs = Inr cs \<Longrightarrow> sorted xs \<Longrightarrow> distinct xs \<Longrightarrow>
     distinct (concat cs) \<and> set (concat cs) = set xs \<and> (\<forall>c \<in> set cs. c \<noteq> [] \<and> sorted c) \<and> far_apart corr threshold cs"
proof (induction xs arbitrary: cs rule: cluster_loop.induct)
  case (2 corr threshold lead rest)
  from "2.prems"(1) obtain g cs' where g: "close_to corr threshold lead rest = Inr g"
    and cs': "cluster_loop corr threshold (filter (\<lambda>x. x \<notin> set g) rest) = Inr cs'" and cs: "cs = (lead # g) # cs'"
    by (auto split: sum.splits)
  obtain P where P: "g = filter P rest" "\<forall>x \<in> set rest. \<exists>r. corr_at corr lead x = Inr r \<and> (P x \<longleftrightarrow> threshold \<le> \<bar>r\<bar>)" using close_to_filter [OF g] by blast
  have srt: "sorted (lead # filter Q rest)" "distinct (lead # filter Q rest)" for Q using "2.prems"(2,3) by (simp_all add: sorted_wrt_filter)
  then have "sorted (filter (\<lambda>x. x \<notin> set g) rest)" "distinct (filter (\<lambda>x. x \<notin> set g) rest)" by simp_all
  then have IH: "distinct (concat cs')" "set (concat cs') = set rest - set g" "\<forall>c \<in> set cs'. c \<noteq> [] \<and> sorted c" "far_apart corr threshold cs'"
    using "2.IH" [OF g cs'] by (simp_all only: set_filter set_diff_eq) auto
  have "\<exists>r. corr_at corr lead x = Inr r \<and> threshold \<le> \<bar>r\<bar>" if "x \<in> set g" for x using P that by auto
  moreover have "\<exists>r. corr_at corr lead x = Inr r \<and> \<bar>r\<bar> < threshold" if "x \<in> set rest - set g" for x
  proof -
    from that P obtain r where "corr_at corr lead x = Inr r" "\<not> threshold \<le> \<bar>r\<bar>" by auto
    then show ?thesis by (simp add: not_le)
  qed
  ultimately have "far_apart corr threshold cs" using IH(2,4) by (simp add: cs)
  moreover have "distinct (concat cs)" "set (concat cs) = insert lead (set rest)" using IH(1,2) srt(2) [of P] "2.prems"(3) by (auto simp: cs P(1))
  moreover have "\<forall>c \<in> set cs. c \<noteq> [] \<and> sorted c" using IH(3) srt(1) [of P] by (simp add: cs P(1))
  ultimately show ?case by simp
qed simp

lemma cluster_redundant_partition:
  assumes "cluster_redundant corr threshold = Inr cs"
  shows "distinct (concat cs) \<and> set (concat cs) = set (map fst corr) \<and> (\<forall>c \<in> set cs. c \<noteq> [] \<and> sorted c) \<and> far_apart corr threshold cs"
  using cluster_loop_partition [OF assms [unfolded cluster_redundant_def]] by simp

text \<open>The loop ends with an answer on every square matrix.\<close>

lemma close_to_total: "\<forall>x \<in> set xs. is_ok (corr_at corr lead x) \<Longrightarrow> is_ok (close_to corr threshold lead xs)"
  by (induction xs) (auto simp: is_ok_iff)

lemma cluster_loop_total: "\<forall>a \<in> set xs. \<forall>b \<in> set xs. is_ok (corr_at corr a b) \<Longrightarrow> is_ok (cluster_loop corr threshold xs)"
proof (induction xs rule: cluster_loop.induct)
  case (2 corr threshold lead rest)
  then obtain g where "close_to corr threshold lead rest = Inr g" using close_to_total [of rest corr lead threshold] by (auto simp: is_ok_iff)
  with "2.IH" "2.prems" show ?case by (auto simp: is_ok_iff)
qed simp

lemma cluster_redundant_total:
  "\<forall>a \<in> set (map fst corr). \<forall>b \<in> set (map fst corr). is_ok (corr_at corr a b) \<Longrightarrow> \<exists>cs. cluster_redundant corr threshold = Inr cs"
  using cluster_loop_total [of "sorted_set (map fst corr)" corr threshold] unfolding cluster_redundant_def is_ok_iff by simp

definition useful_features :: "(string, rat) dict \<Rightarrow> rat \<Rightarrow> string list" where
  "useful_features incremental_oos min_increment = sort (map fst (filter (\<lambda>(k, v). v > min_increment) incremental_oos))"

section \<open>Manifests\<close>

text \<open>\<open>a < b\<close> on times: the negation of \<open>b <= a\<close>, and the same error on mixed zones.\<close>

definition dt_less :: "datetime \<Rightarrow> datetime \<Rightarrow> bool res" where
  "dt_less a b = bind_res (dt_le b a) (\<lambda>r. Inr (\<not> r))"

text \<open>\<open>and\<close> with its short circuit.\<close>

definition and_then :: "bool res \<Rightarrow> bool res \<Rightarrow> bool res" where
  "and_then r q = bind_res r (\<lambda>b. if b then q else Inr False)"

lemma dt_le_aware: "is_aware a \<Longrightarrow> is_aware b \<Longrightarrow> dt_le a b = Inr (micros a \<le> micros b)"
  by (cases a; cases b) simp_all

lemma dt_le_true: "dt_le a b = Inr True \<longleftrightarrow> is_aware a = is_aware b \<and> micros a \<le> micros b"
  by (cases a; cases b) auto

lemma dt_less_true: "dt_less a b = Inr True \<longleftrightarrow> is_aware a = is_aware b \<and> micros a < micros b"
  by (cases a; cases b) (auto simp: dt_less_def)

lemma and_then_true: "and_then r q = Inr True \<longleftrightarrow> r = Inr True \<and> q = Inr True"
  by (auto simp: and_then_def bind_res_Inr split: if_splits)

record ResearchPoint =
  rp_name :: string
  rp_observed_at :: datetime
  rp_available_at :: datetime

definition new_research_point :: "ResearchPoint \<Rightarrow> ResearchPoint res" where
  "new_research_point p =
     (if \<not> is_aware (rp_observed_at p) \<or> \<not> is_aware (rp_available_at p) then Inl (ValueError ''timestamps must be timezone-aware'')
      else if micros (rp_available_at p) < micros (rp_observed_at p) then Inl (ValueError ''available_at before observed_at'')
      else Inr p)"

record ResearchExperimentManifest =
  xm_asset_universe_version :: string
  xm_symbol_set :: "string list"
  xm_strategy_version :: string
  xm_parameter_search_space :: "(string, json list) dict"
  xm_feature_set :: "string list"
  xm_timeframe_set :: "string list"
  xm_train_window :: period
  xm_oos_window :: period
  xm_primary_metric :: string
  xm_as_of :: datetime

definition windows_ordered :: "period \<Rightarrow> period \<Rightarrow> bool res" where
  "windows_ordered train oos = and_then (dt_less (fst train) (snd train)) (and_then (dt_le (snd train) (fst oos)) (dt_less (fst oos) (snd oos)))"

definition new_manifest :: "ResearchExperimentManifest \<Rightarrow> ResearchExperimentManifest res" where
  "new_manifest m =
     (if xm_asset_universe_version m = [] \<or> xm_symbol_set m = [] \<or> xm_strategy_version m = [] \<or> xm_feature_set m = [] \<or> xm_timeframe_set m = [] \<or> xm_primary_metric m = []
      then Inl (ValueError ''complete research manifest required'')
      else if \<not> is_aware (xm_as_of m) then Inl (ValueError ''as_of must be timezone-aware'')
      else bind_res (windows_ordered (xm_train_window m) (xm_oos_window m)) (\<lambda>ordered.
        if \<not> ordered then Inl (ValueError ''train/OOS windows must be ordered and non-overlapping'')
        else bind_res (dt_less (xm_as_of m) (snd (xm_oos_window m))) (\<lambda>beyond.
          if beyond then Inl (ValueError ''research window extends beyond as_of'') else Inr m)))"

fun assert_point_in_time_safe :: "datetime \<Rightarrow> ResearchPoint list \<Rightarrow> unit res" where
  "assert_point_in_time_safe as_of [] = Inr ()"
| "assert_point_in_time_safe as_of (p # ps) =
     bind_res (dt_less as_of (rp_available_at p)) (\<lambda>late.
       if late then Inl (ValueError (''future information unavailable as-of: '' @ rp_name p)) else assert_point_in_time_safe as_of ps)"

definition assert_no_future_labels :: "ResearchExperimentManifest \<Rightarrow> ResearchPoint option list \<Rightarrow> unit res" where
  "assert_no_future_labels m labels = assert_point_in_time_safe (xm_as_of m) (map the (filter (\<lambda>x. x \<noteq> None) labels))"

text \<open>An accepted manifest trains before it tests and sees nothing later than its date; a label that became available later is refused.\<close>

lemma manifest_ordered:
  assumes "new_manifest m = Inr m'"
  shows "m' = m" "micros (fst (xm_train_window m)) < micros (snd (xm_train_window m))" "micros (snd (xm_train_window m)) \<le> micros (fst (xm_oos_window m))"
    "micros (fst (xm_oos_window m)) < micros (snd (xm_oos_window m))" "micros (snd (xm_oos_window m)) \<le> micros (xm_as_of m)" "is_aware (xm_as_of m)"
proof -
  have w: "windows_ordered (xm_train_window m) (xm_oos_window m) = Inr True" and l: "dt_less (xm_as_of m) (snd (xm_oos_window m)) = Inr False"
    and m: "m' = m" "is_aware (xm_as_of m)" using assms by (auto simp: new_manifest_def bind_res_Inr split: if_splits)
  show "m' = m" "is_aware (xm_as_of m)" by (fact m)+
  show "micros (fst (xm_train_window m)) < micros (snd (xm_train_window m))" "micros (snd (xm_train_window m)) \<le> micros (fst (xm_oos_window m))"
    "micros (fst (xm_oos_window m)) < micros (snd (xm_oos_window m))"
    using w by (simp_all add: windows_ordered_def and_then_true dt_less_true dt_le_true)
  show "micros (snd (xm_oos_window m)) \<le> micros (xm_as_of m)"
    using l by (cases "xm_as_of m"; cases "snd (xm_oos_window m)") (simp_all add: dt_less_def)
qed

lemma point_in_time_safe_iff:
  assumes "is_aware as_of" "\<forall>p \<in> set ps. is_ok (new_research_point p)"
  shows "is_ok (assert_point_in_time_safe as_of ps) \<longleftrightarrow> (\<forall>p \<in> set ps. micros (rp_available_at p) \<le> micros as_of)"
  using assms(2)
proof (induction ps)
  case (Cons p ps)
  then have "is_aware (rp_available_at p)" by (auto simp: new_research_point_def split: if_splits)
  then have "dt_less as_of (rp_available_at p) = Inr (\<not> micros (rp_available_at p) \<le> micros as_of)" using assms(1) by (simp add: dt_less_def dt_le_aware)
  with Cons show ?case by simp
qed simp

section \<open>Costs in force at a time\<close>

record CostVintage =
  cv_symbol :: string
  cv_valid_from :: datetime
  cv_valid_to :: "datetime option"
  cv_maker_fee_bps :: rat
  cv_taker_fee_bps :: rat
  cv_fee_discount_bps :: rat
  cv_vip_tier :: string
  cv_funding_bps :: rat
  cv_borrow_bps :: rat
  cv_min_notional :: rat
  cv_tick_size :: rat
  cv_source :: string
  cv_assumption :: string
  cv_sensitivity_bps :: "rat \<times> rat"

definition vintage_contains :: "CostVintage \<Rightarrow> datetime \<Rightarrow> bool res" where
  "vintage_contains v ts = and_then (dt_le (cv_valid_from v) ts) (case cv_valid_to v of None \<Rightarrow> Inr True | Some e \<Rightarrow> dt_less ts e)"

fun vintages_at :: "string \<Rightarrow> datetime \<Rightarrow> CostVintage list \<Rightarrow> CostVintage list res" where
  "vintages_at symbol ts [] = Inr []"
| "vintages_at symbol ts (v # vs) =
     bind_res (if cv_symbol v = symbol then vintage_contains v ts else Inr False) (\<lambda>hit.
       bind_res (vintages_at symbol ts vs) (\<lambda>rows. Inr (if hit then v # rows else rows)))"

definition resolve_cost :: "CostVintage list \<Rightarrow> string \<Rightarrow> datetime \<Rightarrow> CostVintage res" where
  "resolve_cost vintages symbol ts =
     bind_res (vintages_at symbol ts vintages) (\<lambda>rows. case rows of [v] \<Rightarrow> Inr v | _ \<Rightarrow> Inl (ValueError ''cost vintage missing or ambiguous''))"

definition estimate_bps :: "CostVintage list \<Rightarrow> string \<Rightarrow> datetime \<Rightarrow> bool \<Rightarrow> bool \<Rightarrow> bool \<Rightarrow> rat res" where
  "estimate_bps vintages symbol ts maker include_funding include_borrow =
     bind_res (resolve_cost vintages symbol ts) (\<lambda>v.
       let fee = flt ((if maker then cv_maker_fee_bps v else cv_taker_fee_bps v) - cv_fee_discount_bps v)
       in Inr (flt (flt (max 0 fee + (if include_funding then cv_funding_bps v else 0)) + (if include_borrow then cv_borrow_bps v else 0))))"

lemma vintages_at_filter:
  "vintages_at symbol ts vs = Inr rows \<Longrightarrow> rows = filter (\<lambda>v. cv_symbol v = symbol \<and> vintage_contains v ts = Inr True) vs"
proof (induction vs arbitrary: rows)
  case (Cons v vs)
  then show ?case by (cases "cv_symbol v = symbol"; cases "vintage_contains v ts") (auto simp: bind_res_Inr)
qed simp

text \<open>The vintage used is in force at the time and the only one that is: no later fee schedule leaks into a backtest.\<close>

lemma resolved_cost_in_force:
  assumes "resolve_cost vs symbol ts = Inr v"
  shows "cv_symbol v = symbol" "micros (cv_valid_from v) \<le> micros ts" "cv_valid_to v = Some e \<Longrightarrow> micros ts < micros e"
    "filter (\<lambda>x. cv_symbol x = symbol \<and> vintage_contains x ts = Inr True) vs = [v]"
proof -
  from assms obtain rows where rows: "vintages_at symbol ts vs = Inr rows" and one: "(case rows of [w] \<Rightarrow> Inr w | _ \<Rightarrow> Inl (ValueError ''cost vintage missing or ambiguous'')) = (Inr v :: CostVintage res)"
    unfolding resolve_cost_def bind_res_Inr by blast
  have v: "rows = [v]" using one by (cases rows rule: remdups_adj.cases) simp_all
  show f: "filter (\<lambda>x. cv_symbol x = symbol \<and> vintage_contains x ts = Inr True) vs = [v]" using vintages_at_filter [OF rows] v by simp
  then have "v \<in> set (filter (\<lambda>x. cv_symbol x = symbol \<and> vintage_contains x ts = Inr True) vs)" by simp
  then show "cv_symbol v = symbol" "micros (cv_valid_from v) \<le> micros ts" "cv_valid_to v = Some e \<Longrightarrow> micros ts < micros e"
    by (simp_all add: vintage_contains_def and_then_true dt_le_true dt_less_true)
qed

section \<open>Temporal train/test splits\<close>

definition time_series_train_test :: "('k::linorder \<times> 'r) list \<Rightarrow> rat \<Rightarrow> (('k \<times> 'r) list \<times> ('k \<times> 'r) list) res" where
  "time_series_train_test rows train_fraction =
     (if \<not> (1 / 2 \<le> train_fraction \<and> train_fraction < 1) then Inl (ValueError ''train_fraction out of range'')
      else let ordered = sort_key fst rows; n = length ordered
           in if length (remdups (map fst ordered)) \<noteq> n then Inl (ValueError ''duplicate availability timestamp'')
              else let cut = (if n \<ge> 2 then max 1 (min (n - 1) (nat \<lfloor>flt (of_nat n * train_fraction)\<rfloor>)) else n)
                   in Inr (take cut ordered, drop cut ordered))"

definition dataset_hash :: "(json \<Rightarrow> 256 word) \<Rightarrow> json list \<Rightarrow> string" where
  "dataset_hash sha rows = canonical_hash sha (JList rows)"

text \<open>The split neither loses nor leaks: every row is used once, and all that is trained on became available strictly before all that is tested on.\<close>

lemma train_test_no_leak:
  assumes "time_series_train_test rows f = Inr (train, test)"
  shows "mset (train @ test) = mset rows \<and> (\<forall>a \<in> set train. \<forall>b \<in> set test. fst a < fst b) \<and> (2 \<le> length rows \<longrightarrow> train \<noteq> [] \<and> test \<noteq> [])"
proof -
  let ?o = "sort_key fst rows"
  obtain k where k: "train = take k ?o" "test = drop k ?o" "2 \<le> length rows \<Longrightarrow> 1 \<le> k \<and> k \<le> length rows - 1" and d: "length (remdups (map fst ?o)) = length ?o"
    using assms by (auto simp: time_series_train_test_def Let_def split: if_splits)
  have dist: "distinct (map fst ?o)" using d by (metis length_map length_remdups_eq remdups_id_iff_distinct)
  have "sorted (map fst ?o)" by simp
  then have "sorted_wrt (<) (map fst ?o)" using dist by (simp add: strict_sorted_iff)
  then have "sorted_wrt (<) (map fst train @ map fst test)" unfolding k(1,2) by (metis append_take_drop_id map_append)
  then have "\<forall>a \<in> set train. \<forall>b \<in> set test. fst a < fst b" by (auto simp: sorted_wrt_append)
  moreover have "mset (train @ test) = mset rows" by (simp add: k(1,2) flip: mset_append)
  moreover have "2 \<le> length rows \<longrightarrow> train \<noteq> [] \<and> test \<noteq> []" using k(3) by (simp add: k(1,2) flip: length_greater_0_conv) linarith
  ultimately show ?thesis by blast
qed

section \<open>Proposals, alarms and shadows\<close>

record ParameterProposal =
  pp_parameter :: string
  pp_current :: rat
  pp_proposed :: rat
  pp_reason :: string
  pp_requires_paper_validation :: bool
  pp_auto_promote_live :: bool

record HistoryAnalysis =
  ha_samples :: nat
  ha_expectancy :: rat
  ha_degraded :: bool
  ha_proposals :: "ParameterProposal list"

text \<open>\<open>statistics.mean\<close> of floats: the exact mean, rounded once.\<close>

definition analyze_history :: "rat list \<Rightarrow> rat \<Rightarrow> rat \<Rightarrow> HistoryAnalysis" where
  "analyze_history returns baseline_expectancy current_threshold =
     (if returns = [] then \<lparr>ha_samples = 0, ha_expectancy = 0, ha_degraded = False, ha_proposals = []\<rparr>
      else let expectancy = flt (sum_list returns / of_nat (length returns));
               degraded = (length returns \<ge> 30 \<and> expectancy < baseline_expectancy);
               proposed = min (flt (95 / 100)) (max (flt (5 / 100)) (flt (current_threshold + flt (2 / 100))))
           in \<lparr>ha_samples = length returns, ha_expectancy = expectancy, ha_degraded = degraded,
               ha_proposals = (if degraded then [\<lparr>pp_parameter = ''signal_threshold'', pp_current = current_threshold, pp_proposed = proposed, pp_reason = ''EXPECTANCY_DEGRADATION'',
                 pp_requires_paper_validation = True, pp_auto_promote_live = False\<rparr>] else [])\<rparr>)"

text \<open>Learning from history only ever proposes: bounded values, for review, never promoted to live trading.\<close>

lemma proposals_review_only:
  assumes "q \<in> set (ha_proposals (analyze_history returns base thr))"
  shows "pp_requires_paper_validation q \<and> \<not> pp_auto_promote_live q \<and> flt (5 / 100) \<le> pp_proposed q \<and> pp_proposed q \<le> flt (95 / 100) \<and> 30 \<le> length returns"
proof -
  have "flt (5 / 100) \<le> flt (95 / 100)" by (rule flt.R_mono) simp
  then show ?thesis using assms by (auto simp: analyze_history_def Let_def split: if_splits)
qed

fun cusum_from :: "rat \<Rightarrow> rat \<Rightarrow> rat \<Rightarrow> rat \<Rightarrow> rat \<Rightarrow> rat list \<Rightarrow> bool" where
  "cusum_from target threshold drift pos neg [] = False"
| "cusum_from target threshold drift pos neg (x # xs) =
     (let pos' = max 0 (flt (flt (flt (pos + x) - target) - drift)); neg' = min 0 (flt (flt (flt (neg + x) - target) + drift))
      in if pos' > threshold \<or> \<bar>neg'\<bar> > threshold then True else cusum_from target threshold drift pos' neg' xs)"

definition cusum :: "rat list \<Rightarrow> rat \<Rightarrow> rat \<Rightarrow> rat \<Rightarrow> bool" where
  "cusum values target threshold drift = cusum_from target threshold drift 0 0 values"

fun page_hinkley_from :: "rat \<Rightarrow> rat \<Rightarrow> nat \<Rightarrow> rat \<Rightarrow> rat \<Rightarrow> rat \<Rightarrow> rat list \<Rightarrow> bool" where
  "page_hinkley_from threshold delta i m cumulative minimum [] = False"
| "page_hinkley_from threshold delta i m cumulative minimum (x # xs) =
     (let m' = flt (m + flt (flt (x - m) / of_nat i)); cumulative' = flt (cumulative + flt (flt (x - m') - delta)); minimum' = min minimum cumulative'
      in if flt (cumulative' - minimum') > threshold then True else page_hinkley_from threshold delta (Suc i) m' cumulative' minimum' xs)"

definition page_hinkley :: "rat list \<Rightarrow> rat \<Rightarrow> rat \<Rightarrow> bool" where
  "page_hinkley values threshold delta = page_hinkley_from threshold delta 1 0 0 0 values"

text \<open>An alarm once raised is not taken back by later values.\<close>

lemma cusum_from_append: "cusum_from t h d p n xs \<Longrightarrow> cusum_from t h d p n (xs @ ys)"
  by (induction xs arbitrary: p n) (auto simp: Let_def)

lemma cusum_latches: "cusum xs t h d \<Longrightarrow> cusum (xs @ ys) t h d"
  by (simp add: cusum_def cusum_from_append)

lemma page_hinkley_from_append: "page_hinkley_from h d i m c n xs \<Longrightarrow> page_hinkley_from h d i m c n (xs @ ys)"
  by (induction xs arbitrary: i m c n) (auto simp: Let_def)

lemma page_hinkley_latches: "page_hinkley xs h d \<Longrightarrow> page_hinkley (xs @ ys) h d"
  by (simp add: page_hinkley_def page_hinkley_from_append)

text \<open>No drift, no alarm: on the target itself the sums stay at zero.\<close>

lemma cusum_quiet: "0 \<le> h \<Longrightarrow> 0 \<le> d \<Longrightarrow> \<forall>x \<in> set xs. x = t \<Longrightarrow> flt t = t \<Longrightarrow> \<not> cusum xs t h d"
  unfolding cusum_def by (induction xs) (auto simp: Let_def max_def min_def)

record ShadowObservation =
  so_champion_signal :: string
  so_challenger_signal :: string
  so_hypothetical_order_intent :: string
  so_expected_fill :: "rat option"
  so_actual_market_price :: rat
  so_estimated_cost_bps :: rat
  so_gates_passed :: bool
  so_challenger_order_sent :: bool

definition new_shadow_observation :: "ShadowObservation \<Rightarrow> ShadowObservation res" where
  "new_shadow_observation x = (if so_challenger_order_sent x then Inl (ValueError ''challenger is shadow-only'') else Inr x)"

definition shadow_divergence :: "ShadowObservation \<Rightarrow> rat option" where
  "shadow_divergence x = (case so_expected_fill x of None \<Rightarrow> None | Some f \<Rightarrow> Some (flt (so_actual_market_price x - f)))"

record ShadowDecision =
  sd_champion_signal :: string
  sd_challenger_signal :: string
  sd_divergence :: bool
  sd_real_order_allowed :: bool

definition shadow_compare :: "string \<Rightarrow> string \<Rightarrow> ShadowDecision" where
  "shadow_compare champion_signal challenger_signal =
     \<lparr>sd_champion_signal = champion_signal, sd_challenger_signal = challenger_signal, sd_divergence = (champion_signal \<noteq> challenger_signal), sd_real_order_allowed = False\<rparr>"

end
