(* ===== verification/Market_Context.thy ===== *)
theory Market_Context
  imports Research
begin

text \<open>
  Context from third parties, as far as a decision may use it: scheduled events (\<open>backend/app/research/event_risk.py\<close>), news (\<open>research/news_safety.py\<close>), derivatives, on-chain and
  options data (\<open>research/derivatives.py\<close>, \<open>onchain.py\<close>, \<open>options_context.py\<close>) and reference prices of other venues (\<open>research/reference_market.py\<close>). The theorems say that
  nothing is used before it was available and that no context sends orders by itself. Floats are rationals rounded after every operation; where the code may meet
  infinities and NaN (the answer of a language model) they are values of the type \<open>pyfloat\<close>.
\<close>

section \<open>Scheduled events\<close>

definition TRACKED_EVENT_TYPES :: "string list" where
  "TRACKED_EVENT_TYPES = [''FOMC'', ''FED_SPEECH'', ''NFP_EMPLOYMENT'', ''LIQUIDITY_RATE'', ''DXY_YIELDS_REAL_YIELDS'', ''SPOT_ETF_ETP_FLOW'', ''EXCHANGE_MAINTENANCE'']"

record EconomicEvent =
  ee_event_id :: string
  ee_event_type :: string
  ee_scheduled_time :: datetime
  ee_actual_release_time :: "datetime option"
  ee_expected :: "rat option"
  ee_actual :: "rat option"
  ee_previous_vintage :: "rat option"
  ee_surprise :: "rat option"
  ee_source :: string
  ee_reliability :: rat

definition new_event :: "EconomicEvent \<Rightarrow> EconomicEvent res" where
  "new_event e =
     (if ee_event_type e \<notin> set TRACKED_EVENT_TYPES then Inl (ValueError ''unsupported event type'')
      else if \<not> is_aware (ee_scheduled_time e) \<or> (case ee_actual_release_time e of None \<Rightarrow> False | Some t \<Rightarrow> \<not> is_aware t)
      then Inl (ValueError ''event timestamps must be timezone-aware'')
      else if \<not> (0 \<le> ee_reliability e \<and> ee_reliability e \<le> 1) then Inl (ValueError ''reliability must be in [0,1]'')
      else if strip (ee_event_id e) = [] \<or> strip (ee_source e) = [] then Inl (ValueError ''event identity/source required'')
      else Inr e)"

definition event_as_of :: "EconomicEvent \<Rightarrow> datetime \<Rightarrow> EconomicEvent res" where
  "event_as_of e timestamp =
     (case ee_actual_release_time e of
        None \<Rightarrow> Inr e
      | Some t \<Rightarrow> bind_res (dt_le t timestamp) (\<lambda>released.
          if released then Inr e else new_event (e\<lparr>ee_actual_release_time := None, ee_actual := None, ee_surprise := None\<rparr>)))"

record EventRiskDecision =
  ed_event_id :: string
  ed_no_new_entry :: bool
  ed_position_size_multiplier :: rat
  ed_slippage_assumption_multiplier :: rat
  ed_extra_confirmation_required :: bool
  ed_production_policy_enabled :: bool
  ed_reason :: string

record EventRiskPolicy =
  er_before_window :: int
  er_after_window :: int
  er_reduce_size_multiplier :: rat
  er_slippage_multiplier :: rat
  er_min_reliability :: rat
  er_oos_effect_reported :: bool

definition default_event_policy :: EventRiskPolicy where
  "default_event_policy = \<lparr>er_before_window = 1800000000, er_after_window = 900000000, er_reduce_size_multiplier = 1 / 2, er_slippage_multiplier = 3 / 2, er_min_reliability = flt (7 / 10),
     er_oos_effect_reported = False\<rparr>"

definition new_event_policy :: "EventRiskPolicy \<Rightarrow> EventRiskPolicy res" where
  "new_event_policy p =
     (if \<not> (0 < er_reduce_size_multiplier p \<and> er_reduce_size_multiplier p \<le> 1) then Inl (ValueError ''reduce_size_multiplier must be in (0,1]'')
      else if er_slippage_multiplier p < 1 then Inl (ValueError ''slippage_multiplier must be >=1'')
      else if \<not> (0 \<le> er_min_reliability p \<and> er_min_reliability p \<le> 1) then Inl (ValueError ''min_reliability must be in [0,1]'')
      else Inr p)"

fun dt_shift :: "int \<Rightarrow> datetime \<Rightarrow> datetime" where
  "dt_shift d (Aware t) = Aware (t + d)"
| "dt_shift d (Naive t) = Naive (t + d)"

definition in_event_window :: "EventRiskPolicy \<Rightarrow> EconomicEvent \<Rightarrow> datetime \<Rightarrow> bool res" where
  "in_event_window p e now =
     and_then (dt_le (dt_shift (- er_before_window p) (ee_scheduled_time e)) now) (dt_le now (dt_shift (er_after_window p) (ee_scheduled_time e)))"

definition evaluate_event :: "EventRiskPolicy \<Rightarrow> EconomicEvent \<Rightarrow> datetime \<Rightarrow> EventRiskDecision res" where
  "evaluate_event p e now =
     bind_res (event_as_of e now) (\<lambda>visible. bind_res (in_event_window p e now) (\<lambda>in_window.
       let reliable = (ee_reliability e \<ge> er_min_reliability p);
           enabled = er_oos_effect_reported p;
           active = (in_window \<and> reliable \<and> enabled)
       in Inr \<lparr>ed_event_id = ee_event_id e, ed_no_new_entry = active,
            ed_position_size_multiplier = (if active then er_reduce_size_multiplier p else 1),
            ed_slippage_assumption_multiplier = (if active then er_slippage_multiplier p else 1),
            ed_extra_confirmation_required = active, ed_production_policy_enabled = enabled,
            ed_reason = (if active then ''EVENT_RISK_ACTIVE'' else if in_window \<and> reliable then ''OOS_EFFECT_NOT_REPORTED'' else ''EVENT_RISK_INACTIVE'')\<rparr>))"

text \<open>An event seen before its release shows no outcome; after it, everything. What was visible stays visible.\<close>

lemma event_as_of_cases:
  assumes e: "new_event e = Inr e" and t: "is_aware t"
  shows "\<exists>v. event_as_of e t = Inr v \<and> new_event v = Inr v \<and>
    (if \<exists>r. ee_actual_release_time e = Some r \<and> micros t < micros r then v = e\<lparr>ee_actual_release_time := None, ee_actual := None, ee_surprise := None\<rparr> else v = e)"
proof (cases "ee_actual_release_time e")
  case None
  then show ?thesis using e by (simp add: event_as_of_def)
next
  case (Some r)
  have a: "is_aware r" using e Some by (auto simp: new_event_def split: if_splits)
  have "new_event (e\<lparr>ee_actual_release_time := None, ee_actual := None, ee_surprise := None\<rparr>) = Inr (e\<lparr>ee_actual_release_time := None, ee_actual := None, ee_surprise := None\<rparr>)"
    using e by (auto simp: new_event_def split: if_splits)
  then show ?thesis using a t e by (auto simp: event_as_of_def Some dt_le_aware not_le)
qed

text \<open>Event risk only tightens: it never enlarges a position or assumes better fills, and it acts exactly in the window, on reliable events, once the effect is reported.\<close>

lemma event_risk_tightens:
  assumes e: "new_event e = Inr e" and p: "new_event_policy p = Inr p" and t: "is_aware now"
  shows "\<exists>d. evaluate_event p e now = Inr d \<and> 0 < ed_position_size_multiplier d \<and> ed_position_size_multiplier d \<le> 1 \<and> 1 \<le> ed_slippage_assumption_multiplier d \<and>
    (ed_no_new_entry d \<longleftrightarrow> er_oos_effect_reported p \<and> er_min_reliability p \<le> ee_reliability e \<and> micros (ee_scheduled_time e) - er_before_window p \<le> micros now \<and>
      micros now \<le> micros (ee_scheduled_time e) + er_after_window p)"
proof -
  obtain v where v: "event_as_of e now = Inr v" using event_as_of_cases [OF e t] by blast
  have a: "is_aware (ee_scheduled_time e)" using e by (auto simp: new_event_def split: if_splits)
  then have w: "in_event_window p e now = Inr (micros (ee_scheduled_time e) - er_before_window p \<le> micros now \<and> micros now \<le> micros (ee_scheduled_time e) + er_after_window p)"
    using t by (cases "ee_scheduled_time e"; cases now) (simp_all add: in_event_window_def and_then_def)
  have b: "0 < er_reduce_size_multiplier p" "er_reduce_size_multiplier p \<le> 1" "1 \<le> er_slippage_multiplier p"
    using p by (auto simp: new_event_policy_def split: if_splits)
  show ?thesis unfolding evaluate_event_def v w bind_res_simps Let_def using b by auto
qed

section \<open>News\<close>

record NewsRecord =
  nr_source_id :: string
  nr_source_url :: string
  nr_story_id :: string
  nr_publication_time :: datetime
  nr_ingestion_time :: datetime
  nr_language :: string
  nr_text :: string
  nr_source_reliability :: rat
  nr_version :: int
  nr_parent_story_id :: "string option"

definition new_news_record :: "NewsRecord \<Rightarrow> NewsRecord res" where
  "new_news_record r =
     (if nr_source_id r = [] \<or> nr_source_url r = [] \<or> nr_story_id r = [] then Inl (ValueError ''source/story identity required'')
      else if \<not> (0 \<le> nr_source_reliability r \<and> nr_source_reliability r \<le> 1) then Inl (ValueError ''source_reliability must be bounded'')
      else if nr_version r < 1 then Inl (ValueError ''version must be positive'')
      else bind_res (dt_less (nr_ingestion_time r) (nr_publication_time r)) (\<lambda>early.
        if early then Inl (ValueError ''ingestion cannot predate publication'') else Inr r))"

record NewsSafetyLayer =
  ns_trusted_sources :: "string list"
  ns_max_age :: int
  ns_min_reliability :: rat
  ns_min_confidence :: rat
  ns_versions :: "(string, int) dict"

text \<open>\<open>" ".join(text.lower().split())\<close>.\<close>

function words_of :: "string \<Rightarrow> string list" where
  "words_of s = (let t = dropWhile is_space s in if t = [] then [] else takeWhile (\<lambda>c. \<not> is_space c) t # words_of (dropWhile (\<lambda>c. \<not> is_space c) t))"
  by auto

termination words_of
proof (relation "measure length")
  fix s t assume t: "t = dropWhile is_space s" and ne: "t \<noteq> []"
  obtain c u where u: "t = c # u" using ne by (cases t) auto
  have c: "\<not> is_space c" using hd_dropWhile [of is_space s] ne u t by (metis list.sel(1))
  have "length (dropWhile (\<lambda>c. \<not> is_space c) t) \<le> length u" using c by (simp add: u length_dropWhile_le)
  also have "\<dots> < length t" by (simp add: u)
  also have "\<dots> \<le> length s" unfolding t by (rule length_dropWhile_le)
  finally show "(dropWhile (\<lambda>c. \<not> is_space c) t, s) \<in> measure length" by simp
qed simp

declare words_of.simps [simp del]

definition news_digest :: "(string \<Rightarrow> 256 word) \<Rightarrow> NewsRecord \<Rightarrow> string" where
  "news_digest sha row = hexdigest (sha (join '' '' (words_of (lower (nr_text row)))))"

record IngestState =
  is_versions :: "(string, int) dict"
  is_seen :: "string list"
  is_accepted :: "NewsRecord list"

definition late_for :: "NewsRecord \<Rightarrow> datetime \<Rightarrow> bool res" where
  "late_for row as_of = bind_res (dt_less as_of (nr_publication_time row)) (\<lambda>l. if l then Inr True else dt_less as_of (nr_ingestion_time row))"

definition ingest_row :: "(string \<Rightarrow> 256 word) \<Rightarrow> NewsSafetyLayer \<Rightarrow> datetime \<Rightarrow> NewsRecord \<Rightarrow> IngestState \<Rightarrow> IngestState res" where
  "ingest_row sha ns as_of row s =
     (if nr_source_id row \<notin> set (ns_trusted_sources ns) then Inr s
      else bind_res (late_for row as_of) (\<lambda>late.
        if late then Inr s
        else if micros as_of - micros (nr_publication_time row) > ns_max_age ns then Inr s
        else if nr_source_reliability row < ns_min_reliability ns then Inr s
        else if nr_version row \<noteq> get_or (is_versions s) (nr_story_id row) 0 + 1 then Inr s
        else if news_digest sha row \<in> set (is_seen s) then Inr s
        else Inr \<lparr>is_versions = dset (nr_story_id row) (nr_version row) (is_versions s), is_seen = news_digest sha row # is_seen s, is_accepted = is_accepted s @ [row]\<rparr>))"

fun ingest_rows :: "(string \<Rightarrow> 256 word) \<Rightarrow> NewsSafetyLayer \<Rightarrow> datetime \<Rightarrow> NewsRecord list \<Rightarrow> IngestState \<Rightarrow> IngestState res" where
  "ingest_rows sha ns as_of [] s = Inr s"
| "ingest_rows sha ns as_of (row # rows) s = bind_res (ingest_row sha ns as_of row s) (ingest_rows sha ns as_of rows)"

text \<open>Sorting compares every pair of neighbours, so times of mixed zones always end in the error of their comparison.\<close>

definition ingest :: "(string \<Rightarrow> 256 word) \<Rightarrow> NewsRecord list \<Rightarrow> datetime \<Rightarrow> NewsSafetyLayer \<Rightarrow> (NewsRecord list \<times> NewsSafetyLayer) res" where
  "ingest sha rows as_of ns =
     (if mixed_zones (map nr_publication_time rows) then Inl (TypeError ''can't compare offset-naive and offset-aware datetimes'')
      else bind_res (ingest_rows sha ns as_of (sort_key (\<lambda>r. (micros (nr_publication_time r), nr_story_id r, nr_version r)) rows)
               \<lparr>is_versions = ns_versions ns, is_seen = [], is_accepted = []\<rparr>) (\<lambda>s.
        Inr (is_accepted s, ns\<lparr>ns_versions := is_versions s\<rparr>)))"

text \<open>How a story's versions may be taken: from the next one on, without gaps.\<close>

definition version_run :: "(string, int) dict \<Rightarrow> string \<Rightarrow> NewsRecord list \<Rightarrow> bool" where
  "version_run versions story rows \<longleftrightarrow>
     (let vs = map nr_version (filter (\<lambda>r. nr_story_id r = story) rows); k = get_or versions story 0 in vs = map (\<lambda>i. k + int i) [1..<Suc (length vs)])"

definition usable_news :: "NewsSafetyLayer \<Rightarrow> datetime \<Rightarrow> NewsRecord \<Rightarrow> bool" where
  "usable_news ns as_of r \<longleftrightarrow> nr_source_id r \<in> set (ns_trusted_sources ns) \<and> ns_min_reliability ns \<le> nr_source_reliability r \<and> micros (nr_publication_time r) \<le> micros as_of \<and>
     micros (nr_ingestion_time r) \<le> micros as_of \<and> micros as_of - micros (nr_publication_time r) \<le> ns_max_age ns"

definition ingest_inv :: "(string \<Rightarrow> 256 word) \<Rightarrow> NewsSafetyLayer \<Rightarrow> datetime \<Rightarrow> IngestState \<Rightarrow> bool" where
  "ingest_inv sha ns as_of s \<longleftrightarrow> (\<forall>r \<in> set (is_accepted s). usable_news ns as_of r) \<and> is_seen s = rev (map (news_digest sha) (is_accepted s)) \<and> distinct (is_seen s) \<and>
     (\<forall>story. version_run (ns_versions ns) story (is_accepted s) \<and>
       get_or (is_versions s) story 0 = get_or (ns_versions ns) story 0 + int (length (filter (\<lambda>r. nr_story_id r = story) (is_accepted s))))"

lemma version_run_snoc:
  "version_run versions story (rows @ [r]) \<longleftrightarrow>
     (if nr_story_id r = story then version_run versions story rows \<and> nr_version r = get_or versions story 0 + int (length (filter (\<lambda>r. nr_story_id r = story) rows)) + 1
      else version_run versions story rows)"
  by (auto simp: version_run_def Let_def)

lemma dt_less_false: "dt_less a b = Inr False \<longleftrightarrow> is_aware a = is_aware b \<and> micros b \<le> micros a"
  by (cases a; cases b) (auto simp: dt_less_def)

lemma late_for_false: "late_for row as_of = Inr False \<Longrightarrow> micros (nr_publication_time row) \<le> micros as_of \<and> micros (nr_ingestion_time row) \<le> micros as_of"
  by (auto simp: late_for_def bind_res_Inr dt_less_false split: if_splits)

lemma ingest_row_cases:
  assumes "ingest_row sha ns as_of row s = Inr s'"
  shows "s' = s \<or> (usable_news ns as_of row \<and> nr_version row = get_or (is_versions s) (nr_story_id row) 0 + 1 \<and> news_digest sha row \<notin> set (is_seen s) \<and>
    s' = \<lparr>is_versions = dset (nr_story_id row) (nr_version row) (is_versions s), is_seen = news_digest sha row # is_seen s, is_accepted = is_accepted s @ [row]\<rparr>)"
  using assms late_for_false [of row as_of] by (auto simp: ingest_row_def bind_res_Inr usable_news_def split: if_splits)

lemma ingest_row_inv:
  assumes "ingest_row sha ns as_of row s = Inr s'" "ingest_inv sha ns as_of s"
  shows "ingest_inv sha ns as_of s'"
  using ingest_row_cases [OF assms(1)]
proof
  assume r: "usable_news ns as_of row \<and> nr_version row = get_or (is_versions s) (nr_story_id row) 0 + 1 \<and> news_digest sha row \<notin> set (is_seen s) \<and>
    s' = \<lparr>is_versions = dset (nr_story_id row) (nr_version row) (is_versions s), is_seen = news_digest sha row # is_seen s, is_accepted = is_accepted s @ [row]\<rparr>"
  have "get_or (dset k v d) j 0 = (if j = k then v else get_or d j 0)" for k :: string and v :: int and d j by (simp add: get_or_def)
  then show ?thesis using r assms(2) by (auto simp: ingest_inv_def version_run_snoc)
qed (use assms(2) in simp)

lemma ingest_rows_inv: "ingest_rows sha ns as_of rows s = Inr s' \<Longrightarrow> ingest_inv sha ns as_of s \<Longrightarrow> ingest_inv sha ns as_of s'"
  by (induction rows arbitrary: s) (auto simp: bind_res_Inr intro: ingest_row_inv)

text \<open>
  What news is let in: trusted, reliable and recent, published and received by the time of the decision, no text twice, and of each story the next versions
  in order; the versions recorded are those of the news let in.
\<close>

lemma ingested_news_usable:
  assumes "ingest sha rows as_of ns = Inr (accepted, ns')"
  shows "(\<forall>r \<in> set accepted. usable_news ns as_of r) \<and> distinct (map (news_digest sha) accepted) \<and> (\<forall>story. version_run (ns_versions ns) story accepted) \<and>
    (\<forall>story. get_or (ns_versions ns') story 0 = get_or (ns_versions ns) story 0 + int (length (filter (\<lambda>r. nr_story_id r = story) accepted)))"
proof -
  let ?s0 = "\<lparr>is_versions = ns_versions ns, is_seen = [], is_accepted = []\<rparr>"
  obtain s xs where s: "ingest_rows sha ns as_of xs ?s0 = Inr s" "accepted = is_accepted s" "ns_versions ns' = is_versions s"
    using assms by (auto simp: ingest_def bind_res_Inr split: if_splits)
  have "ingest_inv sha ns as_of ?s0" by (simp add: ingest_inv_def version_run_def)
  from ingest_rows_inv [OF s(1) this] show ?thesis by (auto simp: ingest_inv_def s(2,3))
qed

section \<open>What a language model may say\<close>

datatype pyfloat = FNum rat | FPosInf | FNegInf | FNaN

text \<open>\<open>a < b\<close> of floats: nothing is less than NaN, nor NaN than anything.\<close>

fun flt_less :: "pyfloat \<Rightarrow> pyfloat \<Rightarrow> bool" where
  "flt_less (FNum a) (FNum b) = (a < b)"
| "flt_less (FNum a) FPosInf = True"
| "flt_less FNegInf (FNum b) = True"
| "flt_less FNegInf FPosInf = True"
| "flt_less _ _ = False"

text \<open>\<open>min(a, b)\<close> keeps \<open>a\<close> unless \<open>b < a\<close>; \<open>max(a, b)\<close> keeps \<open>a\<close> unless \<open>b > a\<close>.\<close>

definition py_min :: "pyfloat \<Rightarrow> pyfloat \<Rightarrow> pyfloat" where
  "py_min a b = (if flt_less b a then b else a)"

definition py_max :: "pyfloat \<Rightarrow> pyfloat \<Rightarrow> pyfloat" where
  "py_max a b = (if flt_less a b then b else a)"

datatype llm_value = LNone | LBool bool | LInt int | LFloat pyfloat | LStr string | LOther string

text \<open>\<open>str(v)\<close> and \<open>float(v)\<close>; the text of a number and the reading of a text as a number are arguments.\<close>

definition llm_text :: "(llm_value \<Rightarrow> string) \<Rightarrow> llm_value \<Rightarrow> string" where
  "llm_text str v = (case v of LStr s \<Rightarrow> s | LNone \<Rightarrow> ''None'' | LBool b \<Rightarrow> (if b then ''True'' else ''False'') | LInt n \<Rightarrow> int_str n | LOther s \<Rightarrow> s | LFloat f \<Rightarrow> str v)"

definition llm_float :: "(string \<Rightarrow> pyfloat option) \<Rightarrow> llm_value \<Rightarrow> pyfloat res" where
  "llm_float parse v =
     (case v of
        LFloat f \<Rightarrow> Inr f
      | LBool b \<Rightarrow> Inr (FNum (if b then 1 else 0))
      | LInt n \<Rightarrow> if \<bar>n\<bar> \<ge> 2 ^ 1024 - 2 ^ 970 then Inl (OtherException ''OverflowError'') else Inr (FNum (flt (of_int n)))
      | LStr s \<Rightarrow> (case parse s of None \<Rightarrow> Inl (ValueError ''could not convert string to float'') | Some f \<Rightarrow> Inr f)
      | _ \<Rightarrow> Inl (TypeError ''float() argument must be a string or a real number''))"

record NewsFeature =
  nf_story_id :: string
  nf_cluster_id :: string
  nf_normalized_language :: string
  nf_event_class :: string
  nf_sentiment :: pyfloat
  nf_confidence :: pyfloat
  nf_evidence_hash :: string
  nf_source_ids :: "string list"
  nf_trade_action :: string
  nf_can_send_order :: bool

definition news_evidence :: "NewsRecord list \<Rightarrow> string" where
  "news_evidence rows = join ''|'' (map (\<lambda>r. nr_source_id r @ '':'' @ nr_story_id r @ '':'' @ int_str (nr_version r) @ '':'' @ nr_source_url r) rows)"

definition classify_news ::
  "(string \<Rightarrow> 256 word) \<Rightarrow> (llm_value \<Rightarrow> string) \<Rightarrow> (string \<Rightarrow> pyfloat option) \<Rightarrow> NewsRecord list \<Rightarrow> (string, llm_value) dict \<Rightarrow> NewsFeature res" where
  "classify_news sha str parse rows llm_result =
     (if rows = [] then Inl (ValueError ''source evidence required'')
      else if \<exists>k \<in> set (map fst llm_result). k \<notin> {''event_class'', ''sentiment'', ''confidence'', ''language''} then Inl (ValueError ''schema-invalid LLM result'')
      else bind_res (llm_float parse (get_or llm_result ''sentiment'' (LFloat (FNum 0)))) (\<lambda>sentiment.
        bind_res (llm_float parse (get_or llm_result ''confidence'' (LFloat (FNum 0)))) (\<lambda>confidence.
          Inr \<lparr>nf_story_id = nr_story_id (last rows),
            nf_cluster_id = take 24 (hexdigest (sha (join ''|'' (sort (map nr_story_id rows))))),
            nf_normalized_language = take 16 (lower (llm_text str (get_or llm_result ''language'' (LStr ''und'')))),
            nf_event_class = take 64 (llm_text str (get_or llm_result ''event_class'' (LStr ''UNKNOWN''))),
            nf_sentiment = py_max (FNum (-1)) (py_min (FNum 1) sentiment),
            nf_confidence = py_max (FNum 0) (py_min (FNum 1) confidence),
            nf_evidence_hash = hexdigest (sha (news_evidence rows)),
            nf_source_ids = sorted_set (map nr_source_id rows), nf_trade_action = ''NO_TRADE'', nf_can_send_order = False\<rparr>)))"

definition deterministic_risk_gate :: "NewsSafetyLayer \<Rightarrow> NewsFeature \<Rightarrow> bool \<Rightarrow> string" where
  "deterministic_risk_gate ns f conflicting_sources =
     (if conflicting_sources \<or> flt_less (nf_confidence f) (FNum (ns_min_confidence ns)) \<or> length (nf_source_ids f) < 1 then ''NO_TRADE'' else ''FEATURE_ONLY'')"

lemma clamped: "\<exists>r. py_max (FNum lo) (py_min (FNum hi) v) = FNum r \<and> lo \<le> r \<and> (lo \<le> hi \<longrightarrow> r \<le> hi)"
  by (cases v) (auto simp: py_max_def py_min_def)

text \<open>Whatever the language model answers, the feature is bounded, rests on a source and can neither trade nor send an order.\<close>

lemma news_feature_harmless:
  assumes "classify_news sha str parse rows llm = Inr f"
  shows "nf_trade_action f = ''NO_TRADE'' \<and> \<not> nf_can_send_order f \<and> (\<exists>s. nf_sentiment f = FNum s \<and> -1 \<le> s \<and> s \<le> 1) \<and> (\<exists>c. nf_confidence f = FNum c \<and> 0 \<le> c \<and> c \<le> 1) \<and>
    nf_source_ids f \<noteq> [] \<and> length (nf_event_class f) \<le> 64 \<and> length (nf_normalized_language f) \<le> 16 \<and> set (map fst llm) \<subseteq> {''event_class'', ''sentiment'', ''confidence'', ''language''}"
proof -
  obtain s c where f: "rows \<noteq> []" "nf_trade_action f = ''NO_TRADE''" "\<not> nf_can_send_order f" "nf_sentiment f = py_max (FNum (-1)) (py_min (FNum 1) s)"
    "nf_confidence f = py_max (FNum 0) (py_min (FNum 1) c)" "nf_source_ids f = sorted_set (map nr_source_id rows)" "length (nf_event_class f) \<le> 64"
    "length (nf_normalized_language f) \<le> 16"
    using assms by (auto simp: classify_news_def bind_res_Inr split: if_splits)
  have k: "set (map fst llm) \<subseteq> {''event_class'', ''sentiment'', ''confidence'', ''language''}"
    using assms unfolding classify_news_def by (metis Inl_Inr_False subsetI)
  show ?thesis using f(1-3,6-8) k clamped [of "-1" 1 s] clamped [of 0 1 c] unfolding f(4,5) by auto
qed

text \<open>
  A confidence of NaN is read as full confidence: \<open>min(1.0, nan)\<close> is 1.0, so an answer whose confidence is no number passes the gate that requires one.
\<close>

theorem nan_confidence_passes_gate:
  assumes r: "rows \<noteq> []" and m: "ns_min_confidence ns \<le> 1"
  shows "\<exists>f. classify_news sha str parse rows [(''confidence'', LFloat FNaN)] = Inr f \<and> nf_confidence f = FNum 1 \<and> deterministic_risk_gate ns f False = ''FEATURE_ONLY''"
proof -
  have "sorted_set (map nr_source_id rows) \<noteq> []" using r by simp
  then show ?thesis using r m
    by (simp add: classify_news_def get_or_def llm_float_def py_max_def py_min_def deterministic_risk_gate_def not_less Suc_le_eq)
qed

definition example_layer :: NewsSafetyLayer where
  "example_layer = \<lparr>ns_trusted_sources = [''wire''], ns_max_age = 86400000000, ns_min_reliability = 3 / 5, ns_min_confidence = 13 / 20, ns_versions = []\<rparr>"

definition example_news :: NewsRecord where
  "example_news = \<lparr>nr_source_id = ''wire'', nr_source_url = ''u'', nr_story_id = ''s'', nr_publication_time = Aware 0, nr_ingestion_time = Aware 1, nr_language = ''en'',
     nr_text = ''halted'', nr_source_reliability = 1, nr_version = 1, nr_parent_story_id = None\<rparr>"

theorem nan_confidence_passes_gate_witness:
  "\<exists>f. classify_news (\<lambda>_. 0) (\<lambda>_. []) (\<lambda>_. None) [example_news] [(''confidence'', LFloat FNaN)] = Inr f \<and> nf_confidence f = FNum 1 \<and>
     deterministic_risk_gate example_layer f False = ''FEATURE_ONLY''"
  by (rule nan_confidence_passes_gate) (simp_all add: example_layer_def)

section \<open>Derivatives\<close>

record DerivativesSnapshot =
  dv_symbol :: string
  dv_provider_id :: string
  dv_information_id :: string
  dv_provider_timestamp :: datetime
  dv_available_at :: datetime
  dv_funding_rate :: "rat option"
  dv_predicted_funding_rate :: "rat option"
  dv_open_interest :: "rat option"
  dv_oi_change :: "rat option"
  dv_futures_basis :: "rat option"
  dv_annualized_basis :: "rat option"
  dv_mark_index_basis :: "rat option"
  dv_liquidation_intensity :: "rat option"
  dv_liquidation_imbalance :: "rat option"
  dv_taker_buy_sell_imbalance :: "rat option"
  dv_long_short_positioning :: "rat option"
  dv_positioning_methodology_reliable :: bool

definition new_derivatives_snapshot :: "DerivativesSnapshot \<Rightarrow> DerivativesSnapshot res" where
  "new_derivatives_snapshot x =
     (if \<not> is_aware (dv_provider_timestamp x) \<or> \<not> is_aware (dv_available_at x) then Inl (ValueError ''derivatives timestamps must be timezone-aware'')
      else if micros (dv_available_at x) < micros (dv_provider_timestamp x) then Inl (ValueError ''available_at cannot precede provider_timestamp'')
      else if \<exists>v \<in> set [dv_symbol x, dv_provider_id x, dv_information_id x]. strip v = [] then Inl (ValueError ''derivatives identity fields required'')
      else Inr x)"

record DerivativesContext =
  dc_capability :: bool
  dc_stale :: bool
  dc_features :: "(string, rat option) dict"
  dc_contributing_information_ids :: "string list"
  dc_standalone_trade_trigger_allowed :: bool

text \<open>The snapshots are constructed ones, so their times carry zones.\<close>

definition visible_derivatives :: "DerivativesSnapshot list \<Rightarrow> datetime \<Rightarrow> DerivativesSnapshot list" where
  "visible_derivatives snapshots as_of = filter (\<lambda>r. micros (dv_available_at r) \<le> micros as_of) snapshots"

definition dedup_derivatives :: "DerivativesSnapshot list \<Rightarrow> (string, DerivativesSnapshot) dict" where
  "dedup_derivatives rows = fold (\<lambda>r. dset (dv_information_id r) r) (sort_key (\<lambda>r. (micros (dv_available_at r), micros (dv_provider_timestamp r))) rows) []"

definition derivatives_features :: "DerivativesSnapshot \<Rightarrow> (string, rat option) dict" where
  "derivatives_features r =
     [(''funding_rate'', dv_funding_rate r), (''predicted_funding_rate'', dv_predicted_funding_rate r), (''open_interest'', dv_open_interest r), (''oi_change'', dv_oi_change r),
      (''futures_basis'', dv_futures_basis r), (''annualized_basis'', dv_annualized_basis r), (''mark_index_basis'', dv_mark_index_basis r),
      (''liquidation_intensity'', dv_liquidation_intensity r), (''liquidation_imbalance'', dv_liquidation_imbalance r), (''taker_buy_sell_imbalance'', dv_taker_buy_sell_imbalance r),
      (''long_short_positioning'', if dv_positioning_methodology_reliable r then dv_long_short_positioning r else None)]"

definition build_derivatives_context :: "DerivativesSnapshot list \<Rightarrow> datetime \<Rightarrow> int \<Rightarrow> DerivativesContext res" where
  "build_derivatives_context snapshots as_of max_age =
     (if \<not> is_aware as_of then Inl (ValueError ''as_of must be timezone-aware'')
      else let dedup = dedup_derivatives (visible_derivatives snapshots as_of);
               rows = map snd dedup;
               fresh = filter (\<lambda>r. micros as_of - micros (dv_provider_timestamp r) \<le> max_age) rows;
               ids = sort (map fst dedup)
           in if fresh = []
              then Inr \<lparr>dc_capability = False, dc_stale = (rows \<noteq> []), dc_features = [], dc_contributing_information_ids = ids, dc_standalone_trade_trigger_allowed = False\<rparr>
              else Inr \<lparr>dc_capability = True, dc_stale = False, dc_features = derivatives_features (argmax (\<lambda>r. micros (dv_available_at r)) fresh),
                     dc_contributing_information_ids = ids, dc_standalone_trade_trigger_allowed = False\<rparr>)"

text \<open>Of the copies of one piece of information the latest is kept.\<close>

lemma fold_dset_get: "dget (fold (\<lambda>r. dset (f r) r) xs d) k = (case filter (\<lambda>r. f r = k) xs of [] \<Rightarrow> dget d k | ys \<Rightarrow> Some (last (filter (\<lambda>r. f r = k) xs)))"
  by (induction xs arbitrary: d) (auto split: list.splits)

lemma fold_dset_wf: "wf_dict d \<Longrightarrow> wf_dict (fold (\<lambda>r. dset (f r) r) xs d)"
  by (induction xs arbitrary: d) simp_all

lemma dedup_latest:
  assumes "(k, r) \<in> set (dedup_derivatives rows)"
  shows "r \<in> set rows \<and> dv_information_id r = k \<and> (\<forall>q \<in> set rows. dv_information_id q = k \<longrightarrow> micros (dv_available_at q) \<le> micros (dv_available_at r))"
proof -
  let ?key = "\<lambda>r. (micros (dv_available_at r), micros (dv_provider_timestamp r))"
  let ?s = "sort_key ?key rows" let ?f = "filter (\<lambda>q. dv_information_id q = k) (sort_key ?key rows)"
  have "wf_dict (dedup_derivatives rows)" unfolding dedup_derivatives_def by (rule fold_dset_wf) simp
  then have "dget (dedup_derivatives rows) k = Some r" using assms wf_dict_mem by metis
  then have r: "?f \<noteq> []" "r = last ?f" unfolding dedup_derivatives_def fold_dset_get by (auto split: list.splits)
  have in_f: "r \<in> set ?f" unfolding r(2) by (rule last_in_set [OF r(1)])
  have "sorted (map ?key ?f)" by (rule sorted_filter) simp
  then have "?key q \<le> ?key r" if "q \<in> set ?f" for q
    using sorted_le_last [of "map ?key ?f" "?key q"] that unfolding r(2) by (simp add: last_map [OF r(1)])
  then have "micros (dv_available_at q) \<le> micros (dv_available_at r)" if "q \<in> set ?f" for q using that by (force simp: less_eq_prod_def)
  then show ?thesis using in_f by simp
qed

text \<open>The context of derivatives data uses only what was available, takes its features from a fresh snapshot that no fresh one is later than, and triggers no trade.\<close>

lemma derivatives_no_lookahead:
  "visible_derivatives xs t = visible_derivatives ys t \<Longrightarrow> build_derivatives_context xs t max_age = build_derivatives_context ys t max_age"
  by (simp add: build_derivatives_context_def)

lemma derivatives_from_fresh:
  assumes "build_derivatives_context xs t max_age = Inr c" "dc_capability c"
  shows "\<not> dc_standalone_trade_trigger_allowed c \<and> (\<exists>r \<in> set xs. dc_features c = derivatives_features r \<and> micros (dv_available_at r) \<le> micros t \<and>
    micros t - micros (dv_provider_timestamp r) \<le> max_age)"
proof -
  let ?d = "dedup_derivatives (visible_derivatives xs t)"
  let ?fresh = "filter (\<lambda>r. micros t - micros (dv_provider_timestamp r) \<le> max_age) (map snd ?d)"
  have ne: "?fresh \<noteq> []" and c: "dc_features c = derivatives_features (argmax (\<lambda>r. micros (dv_available_at r)) ?fresh)" "\<not> dc_standalone_trade_trigger_allowed c"
    using assms by (auto simp: build_derivatives_context_def Let_def split: if_splits)
  have "argmax (\<lambda>r. micros (dv_available_at r)) ?fresh \<in> set ?fresh" by (rule argmax_in [OF ne])
  then obtain k where k: "(k, argmax (\<lambda>r. micros (dv_available_at r)) ?fresh) \<in> set ?d"
    and old: "micros t - micros (dv_provider_timestamp (argmax (\<lambda>r. micros (dv_available_at r)) ?fresh)) \<le> max_age" by auto
  have "argmax (\<lambda>r. micros (dv_available_at r)) ?fresh \<in> set (visible_derivatives xs t)" using dedup_latest [OF k] by blast
  then show ?thesis using c old by (auto simp: visible_derivatives_def)
qed

section \<open>On-chain data\<close>

record OnChainSnapshot =
  oc_asset :: string
  oc_event_time :: datetime
  oc_available_at :: datetime
  oc_methodology_version :: string
  oc_exchange_inflow :: rat
  oc_exchange_outflow :: rat
  oc_active_addresses :: rat
  oc_realized_cap_metric :: rat
  oc_mvrv :: rat
  oc_sopr :: rat
  oc_miner_related_flows :: rat
  oc_stablecoin_exchange_flows :: rat
  oc_revised :: bool

definition new_onchain_snapshot :: "OnChainSnapshot \<Rightarrow> OnChainSnapshot res" where
  "new_onchain_snapshot x =
     (if \<not> is_aware (oc_event_time x) \<or> \<not> is_aware (oc_available_at x) then Inl (ValueError ''on-chain timestamps must be timezone-aware'')
      else if micros (oc_available_at x) < micros (oc_event_time x) then Inl (ValueError ''available_at cannot precede event_time'')
      else if strip (oc_methodology_version x) = [] then Inl (ValueError ''provider methodology version required'')
      else Inr x)"

definition net_exchange_flow :: "OnChainSnapshot \<Rightarrow> rat" where
  "net_exchange_flow x = flt (oc_exchange_inflow x - oc_exchange_outflow x)"

record OnChainContext =
  ox_capability :: bool
  ox_features :: "(string, rat) dict"
  ox_provider_methodology_version :: "string option"
  ox_revision_or_latency_possible :: bool
  ox_intraday_entry_trigger_allowed :: bool
  ox_production_score_weight :: rat

definition no_onchain :: OnChainContext where
  "no_onchain = \<lparr>ox_capability = False, ox_features = [], ox_provider_methodology_version = None, ox_revision_or_latency_possible = True, ox_intraday_entry_trigger_allowed = False,
     ox_production_score_weight = 0\<rparr>"

definition build_onchain_context :: "OnChainSnapshot option \<Rightarrow> datetime \<Rightarrow> rat \<Rightarrow> bool \<Rightarrow> OnChainContext res" where
  "build_onchain_context snapshot as_of requested_weight oos_contribution_proven =
     (if \<not> (0 \<le> requested_weight \<and> requested_weight \<le> 1) then Inl (ValueError ''requested_weight must be in [0,1]'')
      else case snapshot of
        None \<Rightarrow> Inr no_onchain
      | Some x \<Rightarrow> bind_res (dt_less as_of (oc_available_at x)) (\<lambda>late.
          if late then Inr no_onchain
          else Inr \<lparr>ox_capability = True,
            ox_features = [(''exchange_inflow'', oc_exchange_inflow x), (''exchange_outflow'', oc_exchange_outflow x), (''net_exchange_flow'', net_exchange_flow x),
              (''active_addresses'', oc_active_addresses x), (''realized_cap_metric'', oc_realized_cap_metric x), (''mvrv'', oc_mvrv x), (''sopr'', oc_sopr x),
              (''miner_related_flows'', oc_miner_related_flows x), (''stablecoin_exchange_flows'', oc_stablecoin_exchange_flows x)],
            ox_provider_methodology_version = Some (oc_methodology_version x), ox_revision_or_latency_possible = True, ox_intraday_entry_trigger_allowed = False,
            ox_production_score_weight = (if oos_contribution_proven then requested_weight else 0)\<rparr>))"

lemma onchain_weight_earned:
  assumes "build_onchain_context snapshot as_of w proven = Inr c"
  shows "\<not> ox_intraday_entry_trigger_allowed c \<and> 0 \<le> ox_production_score_weight c \<and> ox_production_score_weight c \<le> 1 \<and>
    (ox_production_score_weight c \<noteq> 0 \<longrightarrow> proven \<and> (\<exists>x. snapshot = Some x \<and> micros (oc_available_at x) \<le> micros as_of))"
  using assms by (auto simp: build_onchain_context_def no_onchain_def bind_res_Inr dt_less_false split: if_splits option.splits)

section \<open>Options\<close>

record OptionsSnapshot =
  op_symbol :: string
  op_event_time :: datetime
  op_available_at :: datetime
  op_atm_implied_volatility :: rat
  op_term_structure :: rat
  op_skew :: rat
  op_risk_reversal :: rat
  op_put_call_open_interest_or_volume :: rat
  op_implied_expected_move :: rat
  op_realized_volatility :: rat

definition new_options_snapshot :: "OptionsSnapshot \<Rightarrow> OptionsSnapshot res" where
  "new_options_snapshot x =
     (if \<not> is_aware (op_event_time x) \<or> \<not> is_aware (op_available_at x) then Inl (ValueError ''options timestamps must be timezone-aware'')
      else if micros (op_available_at x) < micros (op_event_time x) then Inl (ValueError ''available_at cannot precede event_time'')
      else if op_atm_implied_volatility x < 0 \<or> op_realized_volatility x < 0 \<or> op_implied_expected_move x < 0 then Inl (ValueError ''volatility inputs cannot be negative'')
      else Inr x)"

record OptionsContext =
  ot_capability :: bool
  ot_features :: "(string, rat) dict"
  ot_event_risk_score :: rat
  ot_volatility_expansion_score :: rat
  ot_tail_risk_score :: rat
  ot_stop_distance_multiplier :: rat
  ot_position_size_multiplier :: rat
  ot_standalone_trade_trigger_allowed :: bool

definition no_options :: OptionsContext where
  "no_options = \<lparr>ot_capability = False, ot_features = [], ot_event_risk_score = 0, ot_volatility_expansion_score = 0, ot_tail_risk_score = 0, ot_stop_distance_multiplier = 1,
     ot_position_size_multiplier = 1, ot_standalone_trade_trigger_allowed = False\<rparr>"

definition options_context :: "OptionsSnapshot \<Rightarrow> OptionsContext" where
  "options_context x =
     (let iv_rv_spread = flt (op_atm_implied_volatility x - op_realized_volatility x);
          expansion = max 0 iv_rv_spread;
          tail = max (max 0 \<bar>op_skew x\<bar>) \<bar>op_risk_reversal x\<bar>;
          event_risk = max (max 0 (op_implied_expected_move x)) expansion;
          stop_multiplier = min 2 (max 1 (flt (1 + event_risk)));
          position_multiplier = max (1 / 4) (min 1 (flt (1 / stop_multiplier)))
      in \<lparr>ot_capability = True,
          ot_features = [(''atm_implied_volatility'', op_atm_implied_volatility x), (''term_structure'', op_term_structure x), (''skew'', op_skew x), (''risk_reversal'', op_risk_reversal x),
            (''put_call_open_interest_or_volume'', op_put_call_open_interest_or_volume x), (''implied_expected_move'', op_implied_expected_move x), (''iv_realized_volatility_spread'', iv_rv_spread)],
          ot_event_risk_score = event_risk, ot_volatility_expansion_score = expansion, ot_tail_risk_score = tail, ot_stop_distance_multiplier = stop_multiplier,
          ot_position_size_multiplier = position_multiplier, ot_standalone_trade_trigger_allowed = False\<rparr>)"

definition build_options_context :: "OptionsSnapshot option \<Rightarrow> datetime \<Rightarrow> int \<Rightarrow> OptionsContext res" where
  "build_options_context snapshot as_of max_age =
     (case snapshot of
        None \<Rightarrow> Inr no_options
      | Some x \<Rightarrow> bind_res (dt_less as_of (op_available_at x)) (\<lambda>late.
          if late \<or> micros as_of - micros (op_event_time x) > max_age then Inr no_options else Inr (options_context x)))"

text \<open>Options data widens stops up to twofold and halves a position at most: the floor of a quarter is never reached.\<close>

lemma options_context_bounded:
  assumes "build_options_context snapshot as_of max_age = Inr c"
  shows "1 \<le> ot_stop_distance_multiplier c \<and> ot_stop_distance_multiplier c \<le> 2 \<and> 1 / 2 \<le> ot_position_size_multiplier c \<and> ot_position_size_multiplier c \<le> 1 \<and>
    0 \<le> ot_event_risk_score c \<and> 0 \<le> ot_tail_risk_score c \<and> \<not> ot_standalone_trade_trigger_allowed c"
proof -
  have clamp: "1 \<le> min (2::rat) (max 1 z)" "min (2::rat) (max 1 z) \<le> 2" for z by simp_all
  have nonneg: "0 \<le> max (max (0::rat) y) z" for y z by (simp add: le_max_iff_disj)
  have half: "flt (1 / 2) = 1 / 2" using flt.rnd_grid [of 1 "-1"] by simp
  have stop: "1 \<le> ot_stop_distance_multiplier (options_context x)" "ot_stop_distance_multiplier (options_context x) \<le> 2" for x
    unfolding options_context_def Let_def OptionsContext.simps by (rule clamp)+
  have size: "ot_position_size_multiplier (options_context x) = max (1 / 4) (min 1 (flt (1 / ot_stop_distance_multiplier (options_context x))))" for x
    by (simp only: options_context_def Let_def OptionsContext.simps)
  have "1 / 2 \<le> 1 / ot_stop_distance_multiplier (options_context x)" for x by (rule divide_left_mono) (use stop [of x] in simp_all)
  then have "1 / 2 \<le> flt (1 / ot_stop_distance_multiplier (options_context x))" for x by (rule flt.R_ge_fix [OF half])
  then have size': "1 / 2 \<le> ot_position_size_multiplier (options_context x)" "ot_position_size_multiplier (options_context x) \<le> 1" for x
    unfolding size le_max_iff_disj min_le_iff_disj max.bounded_iff min.bounded_iff by simp_all
  have rest: "0 \<le> ot_event_risk_score (options_context x)" "0 \<le> ot_tail_risk_score (options_context x)" "\<not> ot_standalone_trade_trigger_allowed (options_context x)" for x
    unfolding options_context_def Let_def OptionsContext.simps by (rule nonneg, rule nonneg, rule notI)
  have "c = no_options \<or> (\<exists>x. c = options_context x)" using assms unfolding build_options_context_def bind_res_Inr by (auto split: option.splits if_splits simp: bind_res_Inr)
  then show ?thesis
  proof
    assume "\<exists>x. c = options_context x"
    then show ?thesis using stop size' rest by blast
  qed (simp add: no_options_def)
qed

section \<open>Reference prices\<close>

record VenueQuote =
  vq_venue :: string
  vq_symbol :: string
  vq_bid :: rat
  vq_ask :: rat
  vq_last :: rat
  vq_event_time :: datetime
  vq_available_at :: datetime
  vq_source_id :: string

definition new_venue_quote :: "VenueQuote \<Rightarrow> VenueQuote res" where
  "new_venue_quote q =
     (if \<not> is_aware (vq_event_time q) \<or> \<not> is_aware (vq_available_at q) then Inl (ValueError ''quote timestamps must be timezone-aware'')
      else if micros (vq_available_at q) < micros (vq_event_time q) then Inl (ValueError ''available_at cannot precede event_time'')
      else if vq_bid q \<le> 0 \<or> vq_ask q \<le> 0 \<or> vq_last q \<le> 0 \<or> vq_bid q > vq_ask q then Inl (ValueError ''invalid quote'')
      else if strip (vq_venue q) = [] \<or> strip (vq_symbol q) = [] \<or> strip (vq_source_id q) = [] then Inl (ValueError ''quote identity required'')
      else Inr q)"

definition quote_mid :: "VenueQuote \<Rightarrow> rat" where
  "quote_mid q = flt (flt (vq_bid q + vq_ask q) / 2)"

definition quote_spread_bps :: "VenueQuote \<Rightarrow> rat" where
  "quote_spread_bps q = flt (flt (flt (vq_ask q - vq_bid q) / quote_mid q) * 10000)"

text \<open>\<open>statistics.median\<close> of floats.\<close>

definition flt_median :: "rat list \<Rightarrow> rat" where
  "flt_median xs = (let s = sort xs; n = length s; k = n div 2 in if odd n then s ! k else flt (flt (s ! (k - 1) + s ! k) / 2))"

record ReferenceConsensus =
  rc_capability :: bool
  rc_reference_price :: "rat option"
  rc_contributing_venues :: "string list"
  rc_stale_venues :: "string list"
  rc_abnormal_spread_venues :: "string list"
  rc_isolated_bad_tick_venues :: "string list"
  rc_venue_divergence_bps :: "rat option"
  rc_exchange_specific_dislocation :: bool

definition deviation_bps :: "rat \<Rightarrow> rat \<Rightarrow> rat" where
  "deviation_bps reference diff = flt (flt (diff / reference) * 10000)"

definition last_deviation :: "rat \<Rightarrow> VenueQuote \<Rightarrow> rat" where
  "last_deviation reference q = deviation_bps reference \<bar>flt (vq_last q - reference)\<bar>"

definition quote_divergence :: "rat \<Rightarrow> VenueQuote \<Rightarrow> rat" where
  "quote_divergence reference q = deviation_bps reference (max \<bar>flt (quote_mid q - reference)\<bar> \<bar>flt (vq_last q - reference)\<bar>)"

definition stale_venues :: "VenueQuote list \<Rightarrow> datetime \<Rightarrow> int \<Rightarrow> string list" where
  "stale_venues visible as_of max_age = sorted_set (map vq_venue (filter (\<lambda>q. micros as_of - micros (vq_event_time q) > max_age) visible))"

definition fresh_quotes :: "VenueQuote list \<Rightarrow> datetime \<Rightarrow> int \<Rightarrow> VenueQuote list" where
  "fresh_quotes quotes as_of max_age =
     (let visible = filter (\<lambda>q. micros (vq_available_at q) \<le> micros as_of) quotes in filter (\<lambda>q. vq_venue q \<notin> set (stale_venues visible as_of max_age)) visible)"

definition bad_tick_venues :: "rat \<Rightarrow> rat \<Rightarrow> VenueQuote list \<Rightarrow> string list" where
  "bad_tick_venues bad_tick_deviation_bps reference fresh = sorted_set (map vq_venue (filter (\<lambda>q. last_deviation reference q > bad_tick_deviation_bps) fresh))"

definition reliable_quotes :: "rat \<Rightarrow> VenueQuote list \<Rightarrow> VenueQuote list" where
  "reliable_quotes bad_tick_deviation_bps fresh =
     filter (\<lambda>q. vq_venue q \<notin> set (bad_tick_venues bad_tick_deviation_bps (flt_median (map quote_mid fresh)) fresh)) fresh"

definition reference_price :: "rat \<Rightarrow> VenueQuote list \<Rightarrow> rat" where
  "reference_price bad_tick_deviation_bps fresh =
     (let reliable = reliable_quotes bad_tick_deviation_bps fresh in flt_median (map quote_mid (if reliable = [] then fresh else reliable)))"

definition build_reference_consensus :: "VenueQuote list \<Rightarrow> datetime \<Rightarrow> int \<Rightarrow> rat \<Rightarrow> rat \<Rightarrow> ReferenceConsensus res" where
  "build_reference_consensus quotes as_of max_age abnormal_spread_bps bad_tick_deviation_bps =
     (if \<not> is_aware as_of then Inl (ValueError ''as_of must be timezone-aware'')
      else let visible = filter (\<lambda>q. micros (vq_available_at q) \<le> micros as_of) quotes;
               stale = stale_venues visible as_of max_age;
               fresh = fresh_quotes quotes as_of max_age
           in if fresh = []
              then Inr \<lparr>rc_capability = False, rc_reference_price = None, rc_contributing_venues = [], rc_stale_venues = stale, rc_abnormal_spread_venues = [],
                     rc_isolated_bad_tick_venues = [], rc_venue_divergence_bps = None, rc_exchange_specific_dislocation = False\<rparr>
              else let abnormal = sorted_set (map vq_venue (filter (\<lambda>q. quote_spread_bps q > abnormal_spread_bps) fresh));
                       bad_tick = bad_tick_venues bad_tick_deviation_bps (flt_median (map quote_mid fresh)) fresh;
                       reliable = reliable_quotes bad_tick_deviation_bps fresh;
                       reference = reference_price bad_tick_deviation_bps fresh;
                       divergence = Max (set (map (quote_divergence reference) fresh))
                   in Inr \<lparr>rc_capability = True, rc_reference_price = Some reference, rc_contributing_venues = sort (map vq_venue reliable), rc_stale_venues = stale,
                        rc_abnormal_spread_venues = abnormal, rc_isolated_bad_tick_venues = bad_tick, rc_venue_divergence_bps = Some divergence,
                        rc_exchange_specific_dislocation = (bad_tick \<noteq> [] \<or> abnormal \<noteq> [] \<or> divergence > bad_tick_deviation_bps)\<rparr>)"

text \<open>The rounded mean of two floats lies between them, so a median of floats lies within its data.\<close>

lemma flt_double: assumes "flt x = x" shows "flt (x + x) = x + x"
proof -
  from assms obtain m e where "x = of_int m * of_int 2 powi e" "\<bar>m\<bar> \<le> 2 ^ 53"
    unfolding flt.representable_iff [symmetric] representable_def by auto
  then have "x + x = of_int m * of_int 2 powi (e + 1)" "\<bar>m\<bar> \<le> 2 ^ 53" by (simp_all add: power_int_add_1)
  then show ?thesis using flt.rnd_grid [of m "e + 1"] by simp
qed

lemma flt_mean_between:
  assumes "flt x = x" "flt y = y" "x \<le> y"
  shows "x \<le> flt (flt (x + y) / 2)" "flt (flt (x + y) / 2) \<le> y"
proof -
  have "x + x \<le> flt (x + y)" by (rule flt.R_ge_fix [OF flt_double [OF assms(1)]]) (use assms(3) in simp)
  then show "x \<le> flt (flt (x + y) / 2)" by (intro flt.R_ge_fix [OF assms(1)]) simp
  have "flt (x + y) \<le> y + y" by (rule flt.R_le_fix [OF flt_double [OF assms(2)]]) (use assms(3) in simp)
  then show "flt (flt (x + y) / 2) \<le> y" by (intro flt.R_le_fix [OF assms(2)]) simp
qed

lemma flt_median_within:
  assumes ne: "xs \<noteq> []" and fl: "\<forall>x \<in> set xs. flt x = x"
  shows "\<exists>lo \<in> set xs. \<exists>hi \<in> set xs. lo \<le> flt_median xs \<and> flt_median xs \<le> hi"
proof -
  let ?s = "sort xs" let ?k = "length xs div 2"
  have k: "?k < length ?s" using ne by simp
  have mem: "?s ! i \<in> set xs" if "i < length xs" for i using that nth_mem [of i ?s] by simp
  show ?thesis
  proof (cases "odd (length xs)")
    case True
    then have "flt_median xs = ?s ! ?k" by (simp add: flt_median_def Let_def)
    then show ?thesis using mem k by auto
  next
    case False
    then have m: "flt_median xs = flt (flt (?s ! (?k - 1) + ?s ! ?k) / 2)" by (simp add: flt_median_def Let_def)
    have "?s ! (?k - 1) \<le> ?s ! ?k" by (rule sorted_nth_mono) (use k in simp_all)
    moreover have "?s ! (?k - 1) \<in> set xs" "?s ! ?k \<in> set xs" by (rule mem, use k in simp)+
    ultimately show ?thesis using flt_mean_between [of "?s ! (?k - 1)" "?s ! ?k"] fl unfolding m by blast
  qed
qed

lemma fresh_quote:
  assumes "x \<in> set (fresh_quotes quotes as_of max_age)"
  shows "x \<in> set quotes \<and> micros (vq_available_at x) \<le> micros as_of \<and> micros as_of - micros (vq_event_time x) \<le> max_age \<and>
    vq_venue x \<notin> set (stale_venues (filter (\<lambda>q. micros (vq_available_at q) \<le> micros as_of) quotes) as_of max_age)"
  using assms by (force simp: fresh_quotes_def Let_def stale_venues_def)

text \<open>
  Whenever there is a reference price it is positive and lies between two mid prices of quotes that were available and whose venues have no stale
  quote; if any venue's last price agrees with the first median, those quotes are of such venues.
\<close>

lemma reference_price_within:
  assumes c: "build_reference_consensus quotes as_of max_age sp bt = Inr c" "rc_reference_price c = Some p" and q: "\<forall>q \<in> set quotes. new_venue_quote q = Inr q"
  shows "\<exists>a \<in> set quotes. \<exists>b \<in> set quotes. quote_mid a \<le> p \<and> p \<le> quote_mid b \<and> 0 < p \<and>
    (\<forall>x \<in> {a, b}. micros (vq_available_at x) \<le> micros as_of \<and> micros as_of - micros (vq_event_time x) \<le> max_age \<and> vq_venue x \<notin> set (rc_stale_venues c) \<and>
       (rc_contributing_venues c \<noteq> [] \<longrightarrow> vq_venue x \<in> set (rc_contributing_venues c)))"
proof -
  let ?f = "fresh_quotes quotes as_of max_age" let ?r = "reliable_quotes bt (fresh_quotes quotes as_of max_age)"
  let ?u = "if ?r = [] then ?f else ?r"
  have f: "?f \<noteq> []" and p: "p = flt_median (map quote_mid ?u)" and v: "rc_contributing_venues c = sort (map vq_venue ?r)"
    and s: "rc_stale_venues c = stale_venues (filter (\<lambda>q. micros (vq_available_at q) \<le> micros as_of) quotes) as_of max_age"
    using c by (auto simp: build_reference_consensus_def reference_price_def Let_def split: if_splits)
  have u: "?u \<noteq> []" "set ?u \<subseteq> set ?f" using f by (auto simp: reliable_quotes_def)
  have "\<forall>m \<in> set (map quote_mid ?u). flt m = m" by (auto simp: quote_mid_def flt.R_idem)
  then obtain a b where ab: "a \<in> set ?u" "b \<in> set ?u" "quote_mid a \<le> p" "p \<le> quote_mid b"
    using flt_median_within [of "map quote_mid ?u"] u(1) unfolding p by (auto split: if_splits)
  have in_f: "x \<in> set quotes \<and> micros (vq_available_at x) \<le> micros as_of \<and> micros as_of - micros (vq_event_time x) \<le> max_age \<and> vq_venue x \<notin> set (rc_stale_venues c)" if "x \<in> set ?u" for x
    unfolding s by (rule fresh_quote) (use that u(2) in blast)
  have con: "rc_contributing_venues c \<noteq> [] \<longrightarrow> vq_venue x \<in> set (rc_contributing_venues c)" if "x \<in> set ?u" for x
    using that unfolding v by (auto split: if_splits)
  have "0 < quote_mid a" using q in_f [OF ab(1)] by (auto simp: quote_mid_def new_venue_quote_def split: if_splits)
  then have "0 < p" using ab(3) by simp
  with ab in_f con show ?thesis by blast
qed

end
