(* ===== verification/Spec2Isabelle.thy ===== *)
theory Spec2Isabelle
  imports Order_State Execution_Service Risk_Limits Risk_Ledger Sleeves Order_Book Candles Audit_Trail Event_Store Selection Tokens Governance Private_Stream Backtest Strategy Acceptance Market_Context
begin

text \<open>
  A verification of the trading platform under \<open>src/backend/app\<close>: a Python service that turns market data into signals, signals into risk-approved order intents, and
  intents into exchange orders, under a risk state machine, capital reservations, durable execution state, audit trails and a release process that decides whether the system may go live.

  \<^bold>\<open>How the program is modelled.\<close>
  A dataclass or a table row is a \<open>record\<close> (its fields carry a short prefix of the class), an enumeration a \<open>datatype\<close>, a method a top-level \<open>definition\<close> or \<open>fun\<close> that takes and returns the state.
  A Python exception is a value of \<open>pyerr\<close>, and a method that may raise returns \<open>pyerr + 'a\<close>; when it changed state before raising, the state is returned beside the error. A dictionary is an association list in
  insertion order (\<open>dget\<close>, \<open>dset\<close>, \<open>ddel\<close>), because iteration order and duplicates are visible. \<open>Decimal\<close> and \<open>float\<close> are rationals with every rounding written out: \<open>dec\<close> is the 28-digit
  context rounding of \<open>decimal\<close> and \<open>flt\<close> the 53-bit rounding of a double, both half to even with an unbounded exponent. Times are integers of microseconds. Clocks, random tokens, hash functions,
  encryption, handlers, the exchange and other processes are arguments, so a theorem holds for whatever they answer; where a property needs a law of one of them (a hash that does not collide),
  the law is a hypothesis and a witness shows that it can hold.

  \<^bold>\<open>Theories, by the source they model.\<close>
  \<^item> \<open>Rounding\<close> and \<open>Prelude\<close>: round-half-even in a radix and precision (locale \<open>radix\<close>, giving the locale \<open>rounding\<close> as a sublocale, interpreted as \<open>dec\<close> and \<open>flt\<close>); exceptions, guards that collect reasons,
    Python text, dictionaries, decimal sums, and the locales \<open>preserved\<close>, \<open>preserved_by\<close> and \<open>gated\<close> of invariants and gates along runs of operations.
  \<^item> \<open>Money\<close> (\<open>core/money.py\<close>) and \<open>Trading_Types\<close> (\<open>core/enums.py\<close>, \<open>exchange/models.py\<close>): parsing, steps and ticks, shared data.
  \<^item> \<open>Risk_State\<close> (\<open>risk/state.py\<close>, \<open>execution/emergency.py\<close>, outage and shutdown controllers): transitions, the log, the approved recovery and its hysteresis.
  \<^item> \<open>Order_State\<close>: the order state machine, cancel/replace races, protective orders. \<open>Reconcile\<close>: account boundary, client order ids, reconciliation, restart recovery, self-trade prevention.
  \<^item> \<open>Capital\<close> (reservations, leases, lots) and \<open>Persistent\<close> (\<open>execution/persistent.py\<close>): the same contracts in memory and on database rows, with fencing tokens.
  \<^item> \<open>Pretrade\<close> (normalisation, balance and reduce-only rules, the guard) and \<open>Execution_Service\<close> (\<open>execution/service.py\<close>): \<open>submit\<close> as one step over the checks, the registries and the exchange.
  \<^item> \<open>Allocation\<close>, \<open>Risk_Limits\<close>, \<open>Risk_Ledger\<close>, \<open>Sleeves\<close>: allocation budgets, sizing and limits, ledger integrity and correlation clusters, strategy lots and the paper broker.
  \<^item> \<open>Order_Book\<close>, \<open>Market_Feed\<close>, \<open>Candles\<close>: the local book against a stream with gaps, buffers and budgets, candles and point-in-time data.
  \<^item> \<open>Audit_Trail\<close> and \<open>Event_Store\<close>: hash chains and Merkle checkpoints; replay, schema migration, exactly-once consumption, outbox and dead letters.
  \<^item> \<open>Universe\<close> and \<open>Selection\<close>: eligibility, identity and metadata history; scanner, ranking, routing, lifecycle, execution quality.
  \<^item> \<open>Access_Control\<close> (\<open>auth/db_service.py\<close>, \<open>auth/mfa.py\<close>) and \<open>Tokens\<close> (recovery grants, LIVE confirmations, confirmation store): the tables of the authentication service, TOTP at byte level, and tokens that are used once
    (locale \<open>one_time\<close>, interpreted for each store).
  \<^item> \<open>Governance\<close>: incidents, live gates, configuration migration, environment isolation, retries, recovery policy, strategy lifecycle, escalation, watchdog and health.
  \<^item> \<open>Private_Stream\<close> (\<open>exchange/private_stream.py\<close>): projecting user events that repeat and arrive out of order.
  \<^item> \<open>Strategy\<close> (\<open>strategies/spec.py\<close>, \<open>levels.py\<close>, regimes, \<open>signals/engine.py\<close>, \<open>signals/decision_quality.py\<close>): from a signal to an approved order intent, stops and targets.
  \<^item> \<open>Backtest\<close> (\<open>backtest/engine.py\<close>, \<open>execution_model.py\<close>, temporal splits, dataset manifests).
  \<^item> \<open>Evidence_Ledger\<close> (\<open>release/evidence_ledger.py\<close>, \<open>recovery/runtime_checkpoint.py\<close>; locale \<open>digests\<close>, interpreted for the hexadecimal SHA-256 digest) and \<open>Acceptance\<close> (release challenge, campaign evidence, signed ledger
    checkpoint, release gates), on JSON documents.
  \<^item> \<open>Research\<close> (\<open>research/registry.py\<close>, \<open>feature_registry.py\<close>, \<open>manifest.py\<close>, \<open>cost_history.py\<close>, splits, alarms and shadows) and \<open>Market_Context\<close> (\<open>research/event_risk.py\<close>, \<open>news_safety.py\<close>, \<open>derivatives.py\<close>,
    \<open>onchain.py\<close>, \<open>options_context.py\<close>, \<open>reference_market.py\<close>): pre-registered trials as a step relation, and third-party context that is used only once available and triggers no trade.

  \<^bold>\<open>How the parts interact, and what is shown of it.\<close>
  An order leaves only through \<open>submit\<close>: it is sent at most once per intent (over restarts with the durable ledger, within one process without it), only after the risk, pre-trade and capital checks, and an ambiguous
  answer quarantines the symbol. Capital is never overcommitted in memory; in the database it is not when the sessions that reserve for an account do not overlap, amounts are not negative and an intent id belongs to one account. A leader with a
  stale fencing token is refused. New risk after a halt needs an approved recovery. The local order book equals the exchange's book whenever it is usable,
  and recovers from a gap by a snapshot. The private stream never takes a projected order out of a terminal status. The strategy flow turns a signal into an intent only with approval and within what the specification supports.
  Rounding, sizing and stops have their bounds; splitting, migrating and replaying loops end; audit trails, the evidence ledger and its signed checkpoint are tamper evident; sessions need credentials and tokens are used once;
  research stays within the metric, test set and budget that were registered before it; strict campaign evidence is bound to the checked-out commit and a trusted challenge. Lemmas that are not among the numbered claims cover the remaining components in the same way (for example live confirmations,
  escalation, lifecycle promotion, point-in-time data, the multi-symbol backtest and protective-stop updates).

  \<^bold>\<open>Loops.\<close>
  Recursion is structural or has a \<open>termination\<close> proof. A loop that some input keeps running for ever is a \<open>partial_function\<close> in the option monad, \<open>None\<close> meaning that it does not return: event upcasters, configuration migrations and
  walk-forward splits; that they return, or for which inputs they do not, is proved. No fuel is used.

  \<^bold>\<open>What the development found.\<close>
  Several theorems state a behaviour that the code does not intend; they include database reservations that overlap and together exceed the balance, a restart without the durable ledger that sends
  an order again, an evidence ledger that a repeated manifest makes unusable, walk-forward splits that do not end for an empty test block, a retry after
  a restart that is refused as a collision with the order it repeats, a watchdog that rejects valid risk states, recovery grants whose attempts are never counted, a worktree check that overlooks quoted paths, and a
  news confidence of NaN that counts as certainty.

  \<^bold>\<open>Not modelled.\<close>
  Network, file, database-engine and subprocess I/O; thread locks (each method is one step and interleavings are sequences of steps; a database reservation is two steps, its read and its commit); numpy, statistics, random sampling and the compensated float \<open>sum\<close> of Python 3.12 (indicators, research statistics,
  vote resolution, tail metrics); infinities and NaN in float features other than a language model's answer; parsing of raw exchange messages; HTTP routes, rendering and operations scripts. These either only transport the data of the modelled components or
  rest on numeric code outside the repository.
\<close>

end
